(* ===== verification/Prelude.thy ===== *)
theory Prelude
  imports Main "HOL-Library.Word"
begin

text \<open>
  Shared vocabulary of the development: the C integer types as words, the error numbers the
  modelled functions return, the result convention of C functions that return 0 or a negative
  error number, and lemmas on lists and words that several components use.
\<close>

section \<open>Integer types\<close>

type_synonym u8 = "8 word"
type_synonym u16 = "16 word"
type_synonym u32 = "32 word"
type_synonym u64 = "64 word"
type_synonym bytes = "8 word list"

section \<open>Error numbers\<close>

text \<open>
  The error numbers that occur in the modelled code. A C function returning \<open>int\<close> with 0 for
  success is a function returning \<open>errno option\<close>, where \<open>None\<close> is 0 and \<open>Some e\<close> is \<open>-e\<close>;
  a function with a result and a failure returns \<open>errno + 'a\<close>.
\<close>

datatype errno =
    EPERM | ENOENT | EIO | ENOLINK | EAGAIN | ENOMEM | EFAULT | EBUSY | EEXIST | ENODEV
  | EINVAL | ERANGE | ENODATA | EOVERFLOW | EMSGSIZE | EOPNOTSUPP | ENOTCONN | EALREADY
  | EINPROGRESS | ENOBUFS | ETIMEDOUT | EINTR | ENOTSUPP | ENOSPC | ECANCELED

section \<open>Automation collections\<close>

named_theorems inv_intro \<open>preservation of component invariants\<close>
named_theorems step_simp \<open>unfolding of component operations\<close>

section \<open>Words\<close>

lemma u8_less: "unat x < 256" for x :: u8
proof -
  have "unat x < 2 ^ LENGTH(8)" by (rule unsigned_less)
  then show ?thesis by simp
qed

lemma u16_less: "unat x < 65536" for x :: u16
proof -
  have "unat x < 2 ^ LENGTH(16)" by (rule unsigned_less)
  then show ?thesis by simp
qed

lemma u32_less: "unat x < 4294967296" for x :: u32
proof -
  have "unat x < 2 ^ LENGTH(32)" by (rule unsigned_less)
  then show ?thesis by simp
qed

lemma unat_ucast_8_32: "unat (ucast x :: u32) = unat x" for x :: u8
  using u8_less [of x] by (simp add: unsigned_ucast_eq take_bit_nat_eq_self_iff)

lemma unat_ucast_16_64: "unat (ucast x :: u64) = unat x" for x :: u16
  using u16_less [of x] by (simp add: unsigned_ucast_eq take_bit_nat_eq_self_iff)

lemma unat_ucast_32_64: "unat (ucast x :: u64) = unat x" for x :: u32
  using u32_less [of x] by (simp add: unsigned_ucast_eq take_bit_nat_eq_self_iff)

lemma unat_mult_less: "unat a * unat b < 2 ^ LENGTH('a) \<Longrightarrow> unat (a * b) = unat a * unat b"
  for a b :: "'a::len word"
  by (simp add: unat_word_ariths)

lemma unat_add_less: "unat a + unat b < 2 ^ LENGTH('a) \<Longrightarrow> unat (a + b) = unat a + unat b"
  for a b :: "'a::len word"
  by (simp add: unat_word_ariths)

end
