(* ===== verification/Addr_List.thy ===== *)
theory Addr_List
  imports Prelude
begin

text \<open>
  Model of the hardware address lists of a network device
  (\<open>net/core/dev_addr_lists.c\<close>, with the promiscuity handling of \<open>net/core/dev.c\<close>).

  A list (\<open>struct netdev_hw_addr_list\<close>) is a record with its entries in list order and the
  \<open>count\<close> field. A pointer to an entry that a loop holds is the entry itself; a loop of the
  code is a recursion over the entries that returns the entries that are still linked
  afterwards. The address buffer of an entry holds the \<open>addr_len\<close> bytes the code copies;
  the bytes after them are never initialised by the code and are not represented. The result
  of an allocation is an argument of the operation that makes it: a boolean, or, for the loops,
  the function from the loop iteration to the boolean. The counters are C \<open>int\<close>s and are
  integers here: overflow of a signed counter has no defined meaning in C. Locks and RCU
  grace periods are not represented: all operations run under \<open>netif_addr_lock\<close> or the RTNL.
\<close>

section \<open>Entries and lists\<close>

record netdev_hw_addr =
  ha_addr :: bytes
  ha_type :: u8
  global_use :: bool
  sync_cnt :: int
  refcount :: int
  synced :: int

record netdev_hw_addr_list =
  hal :: "netdev_hw_addr list"
  hal_count :: int

definition MAX_ADDR_LEN :: nat where "MAX_ADDR_LEN = 32"
definition NETDEV_HW_ADDR_T_LAN :: u8 where "NETDEV_HW_ADDR_T_LAN = 1"
definition NETDEV_HW_ADDR_T_UNICAST :: u8 where "NETDEV_HW_ADDR_T_UNICAST = 4"
definition NETDEV_HW_ADDR_T_MULTICAST :: u8 where "NETDEV_HW_ADDR_T_MULTICAST = 5"

text \<open>\<open>!memcmp(a, b, n)\<close> on buffers of at least \<open>n\<close> bytes.\<close>

definition mem_eq :: "nat \<Rightarrow> bytes \<Rightarrow> bytes \<Rightarrow> bool" where
  "mem_eq n a b \<longleftrightarrow> take n a = take n b"

text \<open>The list after a loop that left the entries \<open>kept\<close>: each entry unlinked counted down once.\<close>

definition hal_relink :: "netdev_hw_addr_list \<Rightarrow> netdev_hw_addr list \<Rightarrow> netdev_hw_addr_list" where
  "hal_relink l kept =
     l\<lparr>hal := kept, hal_count := hal_count l - (int (length (hal l)) - int (length kept))\<rparr>"

section \<open>Adding and deleting one address\<close>

definition hw_addr_create_ex ::
  "netdev_hw_addr_list \<Rightarrow> bytes \<Rightarrow> nat \<Rightarrow> u8 \<Rightarrow> bool \<Rightarrow> bool \<Rightarrow> bool \<Rightarrow> errno option \<times> netdev_hw_addr_list"
where
  "hw_addr_create_ex l addr addr_len addr_type global sync kmalloc_ok =
     (if \<not> kmalloc_ok then (Some ENOMEM, l)
      else (None, l\<lparr>hal := hal l @
                      [\<lparr>ha_addr = take addr_len addr, ha_type = addr_type, global_use = global,
                        sync_cnt = 0, refcount = 1, synced = (if sync then 1 else 0)\<rparr>],
                    hal_count := hal_count l + 1\<rparr>))"

text \<open>The body of the loop of \<open>__hw_addr_add_ex\<close> at the entry that matches.\<close>

definition hw_addr_add_hit ::
  "netdev_hw_addr \<Rightarrow> bool \<Rightarrow> bool \<Rightarrow> int \<Rightarrow> errno option \<times> netdev_hw_addr"
where
  "hw_addr_add_hit ha global sync sync_count =
     (if global \<and> global_use ha then (None, ha)
      else let ha1 = (if global then ha\<lparr>global_use := True\<rparr> else ha) in
        if sync \<and> synced ha1 \<noteq> 0 \<and> sync_count \<noteq> 0 then (Some EEXIST, ha1)
        else let ha2 = (if sync then ha1\<lparr>synced := synced ha1 + 1\<rparr> else ha1)
             in (None, ha2\<lparr>refcount := refcount ha2 + 1\<rparr>))"

fun hw_addr_add_scan ::
  "bytes \<Rightarrow> nat \<Rightarrow> u8 \<Rightarrow> bool \<Rightarrow> bool \<Rightarrow> int \<Rightarrow> netdev_hw_addr list \<Rightarrow>
   (errno option \<times> netdev_hw_addr list) option"
where
  "hw_addr_add_scan addr n t global sync sync_count [] = None"
| "hw_addr_add_scan addr n t global sync sync_count (ha # has) =
     (if ha_type ha = t \<and> mem_eq n (ha_addr ha) addr
      then (case hw_addr_add_hit ha global sync sync_count of (e, ha') \<Rightarrow> Some (e, ha' # has))
      else map_option (apsnd (Cons ha)) (hw_addr_add_scan addr n t global sync sync_count has))"

definition hw_addr_add_ex ::
  "netdev_hw_addr_list \<Rightarrow> bytes \<Rightarrow> nat \<Rightarrow> u8 \<Rightarrow> bool \<Rightarrow> bool \<Rightarrow> int \<Rightarrow> bool \<Rightarrow>
   errno option \<times> netdev_hw_addr_list"
where
  "hw_addr_add_ex l addr addr_len addr_type global sync sync_count kmalloc_ok =
     (if addr_len > MAX_ADDR_LEN then (Some EINVAL, l)
      else case hw_addr_add_scan addr addr_len addr_type global sync sync_count (hal l) of
             Some (e, has) \<Rightarrow> (e, l\<lparr>hal := has\<rparr>)
           | None \<Rightarrow> hw_addr_create_ex l addr addr_len addr_type global sync kmalloc_ok)"

definition hw_addr_add ::
  "netdev_hw_addr_list \<Rightarrow> bytes \<Rightarrow> nat \<Rightarrow> u8 \<Rightarrow> bool \<Rightarrow> errno option \<times> netdev_hw_addr_list"
where
  "hw_addr_add l addr addr_len addr_type kmalloc_ok =
     hw_addr_add_ex l addr addr_len addr_type False False 0 kmalloc_ok"

text \<open>
  \<open>__hw_addr_del_entry\<close> on the entry itself: the result is the entry after the call, or
  \<open>None\<close> when it was unlinked and freed.
\<close>

definition hw_addr_del_entry ::
  "netdev_hw_addr \<Rightarrow> bool \<Rightarrow> bool \<Rightarrow> errno option \<times> netdev_hw_addr option"
where
  "hw_addr_del_entry ha global sync =
     (if global \<and> \<not> global_use ha then (Some ENOENT, Some ha)
      else if sync \<and> synced ha = 0 then (Some ENOENT, Some ha)
      else let ha1 = (if global then ha\<lparr>global_use := False\<rparr> else ha);
               ha2 = (if sync then ha1\<lparr>synced := synced ha1 - 1\<rparr> else ha1);
               ha3 = ha2\<lparr>refcount := refcount ha2 - 1\<rparr>
           in (None, if refcount ha3 \<noteq> 0 then Some ha3 else None))"

fun opt_cons :: "'a option \<Rightarrow> 'a list \<Rightarrow> 'a list" where
  "opt_cons None xs = xs"
| "opt_cons (Some x) xs = x # xs"

fun hw_addr_del_scan ::
  "bytes \<Rightarrow> nat \<Rightarrow> u8 \<Rightarrow> bool \<Rightarrow> bool \<Rightarrow> netdev_hw_addr list \<Rightarrow>
   (errno option \<times> netdev_hw_addr list) option"
where
  "hw_addr_del_scan addr n t global sync [] = None"
| "hw_addr_del_scan addr n t global sync (ha # has) =
     (if mem_eq n (ha_addr ha) addr \<and> (ha_type ha = t \<or> t = 0)
      then (case hw_addr_del_entry ha global sync of (e, ha') \<Rightarrow> Some (e, opt_cons ha' has))
      else map_option (apsnd (Cons ha)) (hw_addr_del_scan addr n t global sync has))"

definition hw_addr_del_ex ::
  "netdev_hw_addr_list \<Rightarrow> bytes \<Rightarrow> nat \<Rightarrow> u8 \<Rightarrow> bool \<Rightarrow> bool \<Rightarrow> errno option \<times> netdev_hw_addr_list"
where
  "hw_addr_del_ex l addr addr_len addr_type global sync =
     (case hw_addr_del_scan addr addr_len addr_type global sync (hal l) of
        None \<Rightarrow> (Some ENOENT, l)
      | Some (e, has) \<Rightarrow> (e, hal_relink l has))"

definition hw_addr_del ::
  "netdev_hw_addr_list \<Rightarrow> bytes \<Rightarrow> nat \<Rightarrow> u8 \<Rightarrow> errno option \<times> netdev_hw_addr_list"
where
  "hw_addr_del l addr addr_len addr_type = hw_addr_del_ex l addr addr_len addr_type False False"

section \<open>Synchronising one list to another\<close>

definition hw_addr_sync_one ::
  "netdev_hw_addr_list \<Rightarrow> netdev_hw_addr \<Rightarrow> nat \<Rightarrow> bool \<Rightarrow>
   errno option \<times> netdev_hw_addr_list \<times> netdev_hw_addr"
where
  "hw_addr_sync_one to ha addr_len kmalloc_ok =
     (case hw_addr_add_ex to (ha_addr ha) addr_len (ha_type ha) False True (sync_cnt ha) kmalloc_ok of
        (err, to') \<Rightarrow>
          if err \<noteq> None \<and> err \<noteq> Some EEXIST then (err, to', ha)
          else (None, to', if err = None
                           then ha\<lparr>sync_cnt := sync_cnt ha + 1, refcount := refcount ha + 1\<rparr>
                           else ha))"

definition hw_addr_unsync_one ::
  "netdev_hw_addr_list \<Rightarrow> netdev_hw_addr \<Rightarrow> nat \<Rightarrow> netdev_hw_addr_list \<times> netdev_hw_addr option"
where
  "hw_addr_unsync_one to ha addr_len =
     (case hw_addr_del_ex to (ha_addr ha) addr_len (ha_type ha) False True of
        (Some _, to') \<Rightarrow> (to', Some ha)
      | (None, to') \<Rightarrow>
          (to', snd (hw_addr_del_entry (ha\<lparr>sync_cnt := sync_cnt ha - 1\<rparr>) False False)))"

fun sync_multiple_loop ::
  "nat \<Rightarrow> (nat \<Rightarrow> bool) \<Rightarrow> netdev_hw_addr_list \<Rightarrow> netdev_hw_addr list \<Rightarrow>
   errno option \<times> netdev_hw_addr_list \<times> netdev_hw_addr list"
where
  "sync_multiple_loop n al to [] = (None, to, [])"
| "sync_multiple_loop n al to (ha # has) =
     (if sync_cnt ha = refcount ha
      then (case hw_addr_unsync_one to ha n of (to1, ha') \<Rightarrow>
              (case sync_multiple_loop n (\<lambda>k. al (Suc k)) to1 has of (e, to2, has') \<Rightarrow>
                 (e, to2, opt_cons ha' has')))
      else (case hw_addr_sync_one to ha n (al 0) of
              (Some e, to1, ha') \<Rightarrow> (Some e, to1, ha' # has)
            | (None, to1, ha') \<Rightarrow>
                (case sync_multiple_loop n (\<lambda>k. al (Suc k)) to1 has of (e, to2, has') \<Rightarrow>
                   (e, to2, ha' # has'))))"

definition hw_addr_sync_multiple ::
  "netdev_hw_addr_list \<Rightarrow> netdev_hw_addr_list \<Rightarrow> nat \<Rightarrow> (nat \<Rightarrow> bool) \<Rightarrow>
   errno option \<times> netdev_hw_addr_list \<times> netdev_hw_addr_list"
where
  "hw_addr_sync_multiple to from addr_len al =
     (case sync_multiple_loop addr_len al to (hal from) of (e, to', has) \<Rightarrow>
        (e, to', hal_relink from has))"

fun sync_loop ::
  "nat \<Rightarrow> (nat \<Rightarrow> bool) \<Rightarrow> netdev_hw_addr_list \<Rightarrow> netdev_hw_addr list \<Rightarrow>
   errno option \<times> netdev_hw_addr_list \<times> netdev_hw_addr list"
where
  "sync_loop n al to [] = (None, to, [])"
| "sync_loop n al to (ha # has) =
     (if sync_cnt ha = 0
      then (case hw_addr_sync_one to ha n (al 0) of
              (Some e, to1, ha') \<Rightarrow> (Some e, to1, ha' # has)
            | (None, to1, ha') \<Rightarrow>
                (case sync_loop n (\<lambda>k. al (Suc k)) to1 has of (e, to2, has') \<Rightarrow>
                   (e, to2, ha' # has')))
      else if refcount ha = 1
      then (case hw_addr_unsync_one to ha n of (to1, ha') \<Rightarrow>
              (case sync_loop n (\<lambda>k. al (Suc k)) to1 has of (e, to2, has') \<Rightarrow>
                 (e, to2, opt_cons ha' has')))
      else (case sync_loop n (\<lambda>k. al (Suc k)) to has of (e, to2, has') \<Rightarrow>
              (e, to2, ha # has')))"

definition hw_addr_sync ::
  "netdev_hw_addr_list \<Rightarrow> netdev_hw_addr_list \<Rightarrow> nat \<Rightarrow> (nat \<Rightarrow> bool) \<Rightarrow>
   errno option \<times> netdev_hw_addr_list \<times> netdev_hw_addr_list"
where
  "hw_addr_sync to from addr_len al =
     (case sync_loop addr_len al to (hal from) of (e, to', has) \<Rightarrow> (e, to', hal_relink from has))"

fun unsync_loop ::
  "nat \<Rightarrow> netdev_hw_addr_list \<Rightarrow> netdev_hw_addr list \<Rightarrow> netdev_hw_addr_list \<times> netdev_hw_addr list"
where
  "unsync_loop n to [] = (to, [])"
| "unsync_loop n to (ha # has) =
     (if sync_cnt ha \<noteq> 0
      then (case hw_addr_unsync_one to ha n of (to1, ha') \<Rightarrow>
              (case unsync_loop n to1 has of (to2, has') \<Rightarrow> (to2, opt_cons ha' has')))
      else (case unsync_loop n to has of (to2, has') \<Rightarrow> (to2, ha # has')))"

definition hw_addr_unsync ::
  "netdev_hw_addr_list \<Rightarrow> netdev_hw_addr_list \<Rightarrow> nat \<Rightarrow> netdev_hw_addr_list \<times> netdev_hw_addr_list"
where
  "hw_addr_unsync to from addr_len =
     (case unsync_loop addr_len to (hal from) of (to', has) \<Rightarrow> (to', hal_relink from has))"

section \<open>Synchronising a list to the filter of a device\<close>

text \<open>
  The callbacks of the driver are arguments: they take and return the state of the device and
  report a failure. \<open>unsync\<close> may be \<open>NULL\<close> (\<open>None\<close>).
\<close>

fun call_unsync :: "('d \<Rightarrow> 'x \<Rightarrow> errno option \<times> 'd) option \<Rightarrow> 'd \<Rightarrow> 'x \<Rightarrow> errno option \<times> 'd" where
  "call_unsync None d x = (None, d)"
| "call_unsync (Some f) d x = f d x"

fun sync_dev_flush ::
  "('d \<Rightarrow> bytes \<Rightarrow> errno option \<times> 'd) option \<Rightarrow> 'd \<Rightarrow> netdev_hw_addr list \<Rightarrow>
   'd \<times> netdev_hw_addr list"
where
  "sync_dev_flush unsync d [] = (d, [])"
| "sync_dev_flush unsync d (ha # has) =
     (if sync_cnt ha = 0 \<or> refcount ha \<noteq> 1
      then apsnd (Cons ha) (sync_dev_flush unsync d has)
      else case call_unsync unsync d (ha_addr ha) of
             (Some _, d1) \<Rightarrow> apsnd (Cons ha) (sync_dev_flush unsync d1 has)
           | (None, d1) \<Rightarrow>
               apsnd (opt_cons (snd (hw_addr_del_entry (ha\<lparr>sync_cnt := sync_cnt ha - 1\<rparr>) False False)))
                 (sync_dev_flush unsync d1 has))"

fun sync_dev_add ::
  "('d \<Rightarrow> bytes \<Rightarrow> errno option \<times> 'd) \<Rightarrow> 'd \<Rightarrow> netdev_hw_addr list \<Rightarrow>
   errno option \<times> 'd \<times> netdev_hw_addr list"
where
  "sync_dev_add sync d [] = (None, d, [])"
| "sync_dev_add sync d (ha # has) =
     (if sync_cnt ha \<noteq> 0
      then apsnd (apsnd (Cons ha)) (sync_dev_add sync d has)
      else case sync d (ha_addr ha) of
             (Some e, d1) \<Rightarrow> (Some e, d1, ha # has)
           | (None, d1) \<Rightarrow>
               apsnd (apsnd (Cons (ha\<lparr>sync_cnt := sync_cnt ha + 1, refcount := refcount ha + 1\<rparr>)))
                 (sync_dev_add sync d1 has))"

definition hw_addr_sync_dev ::
  "netdev_hw_addr_list \<Rightarrow> 'd \<Rightarrow> ('d \<Rightarrow> bytes \<Rightarrow> errno option \<times> 'd) \<Rightarrow>
   ('d \<Rightarrow> bytes \<Rightarrow> errno option \<times> 'd) option \<Rightarrow> errno option \<times> 'd \<times> netdev_hw_addr_list"
where
  "hw_addr_sync_dev l d sync unsync =
     (case sync_dev_flush unsync d (hal l) of (d1, has1) \<Rightarrow>
        (case sync_dev_add sync d1 has1 of (e, d2, has2) \<Rightarrow>
           (e, d2, (hal_relink l has1)\<lparr>hal := has2\<rparr>)))"

fun ref_sync_dev_flush ::
  "('d \<Rightarrow> bytes \<times> int \<Rightarrow> errno option \<times> 'd) option \<Rightarrow> 'd \<Rightarrow> netdev_hw_addr list \<Rightarrow>
   'd \<times> netdev_hw_addr list"
where
  "ref_sync_dev_flush unsync d [] = (d, [])"
| "ref_sync_dev_flush unsync d (ha # has) =
     (if 2 * sync_cnt ha \<le> refcount ha
      then apsnd (Cons ha) (ref_sync_dev_flush unsync d has)
      else let ref_cnt = refcount ha - sync_cnt ha in
           case call_unsync unsync d (ha_addr ha, ref_cnt) of
             (Some _, d1) \<Rightarrow> apsnd (Cons ha) (ref_sync_dev_flush unsync d1 has)
           | (None, d1) \<Rightarrow>
               apsnd (opt_cons (snd (hw_addr_del_entry
                       (ha\<lparr>refcount := 2 * ref_cnt + 1, sync_cnt := ref_cnt\<rparr>) False False)))
                 (ref_sync_dev_flush unsync d1 has))"

fun ref_sync_dev_add ::
  "('d \<Rightarrow> bytes \<times> int \<Rightarrow> errno option \<times> 'd) \<Rightarrow> 'd \<Rightarrow> netdev_hw_addr list \<Rightarrow>
   errno option \<times> 'd \<times> netdev_hw_addr list"
where
  "ref_sync_dev_add sync d [] = (None, d, [])"
| "ref_sync_dev_add sync d (ha # has) =
     (if 2 * sync_cnt ha \<ge> refcount ha
      then apsnd (apsnd (Cons ha)) (ref_sync_dev_add sync d has)
      else let ref_cnt = refcount ha - sync_cnt ha in
           case sync d (ha_addr ha, ref_cnt) of
             (Some e, d1) \<Rightarrow> (Some e, d1, ha # has)
           | (None, d1) \<Rightarrow>
               apsnd (apsnd (Cons (ha\<lparr>refcount := 2 * ref_cnt, sync_cnt := ref_cnt\<rparr>)))
                 (ref_sync_dev_add sync d1 has))"

definition hw_addr_ref_sync_dev ::
  "netdev_hw_addr_list \<Rightarrow> 'd \<Rightarrow> ('d \<Rightarrow> bytes \<times> int \<Rightarrow> errno option \<times> 'd) \<Rightarrow>
   ('d \<Rightarrow> bytes \<times> int \<Rightarrow> errno option \<times> 'd) option \<Rightarrow> errno option \<times> 'd \<times> netdev_hw_addr_list"
where
  "hw_addr_ref_sync_dev l d sync unsync =
     (case ref_sync_dev_flush unsync d (hal l) of (d1, has1) \<Rightarrow>
        (case ref_sync_dev_add sync d1 has1 of (e, d2, has2) \<Rightarrow>
           (e, d2, (hal_relink l has1)\<lparr>hal := has2\<rparr>)))"

fun ref_unsync_dev_loop ::
  "('d \<Rightarrow> bytes \<times> int \<Rightarrow> errno option \<times> 'd) option \<Rightarrow> 'd \<Rightarrow> netdev_hw_addr list \<Rightarrow>
   'd \<times> netdev_hw_addr list"
where
  "ref_unsync_dev_loop unsync d [] = (d, [])"
| "ref_unsync_dev_loop unsync d (ha # has) =
     (if sync_cnt ha = 0
      then apsnd (Cons ha) (ref_unsync_dev_loop unsync d has)
      else case call_unsync unsync d (ha_addr ha, sync_cnt ha) of
             (Some _, d1) \<Rightarrow> apsnd (Cons ha) (ref_unsync_dev_loop unsync d1 has)
           | (None, d1) \<Rightarrow>
               apsnd (opt_cons (snd (hw_addr_del_entry
                       (ha\<lparr>refcount := refcount ha - (sync_cnt ha - 1), sync_cnt := 0\<rparr>) False False)))
                 (ref_unsync_dev_loop unsync d1 has))"

definition hw_addr_ref_unsync_dev ::
  "netdev_hw_addr_list \<Rightarrow> 'd \<Rightarrow> ('d \<Rightarrow> bytes \<times> int \<Rightarrow> errno option \<times> 'd) option \<Rightarrow>
   'd \<times> netdev_hw_addr_list"
where
  "hw_addr_ref_unsync_dev l d unsync =
     (case ref_unsync_dev_loop unsync d (hal l) of (d1, has) \<Rightarrow> (d1, hal_relink l has))"

fun unsync_dev_loop ::
  "('d \<Rightarrow> bytes \<Rightarrow> errno option \<times> 'd) option \<Rightarrow> 'd \<Rightarrow> netdev_hw_addr list \<Rightarrow>
   'd \<times> netdev_hw_addr list"
where
  "unsync_dev_loop unsync d [] = (d, [])"
| "unsync_dev_loop unsync d (ha # has) =
     (if sync_cnt ha = 0
      then apsnd (Cons ha) (unsync_dev_loop unsync d has)
      else case call_unsync unsync d (ha_addr ha) of
             (Some _, d1) \<Rightarrow> apsnd (Cons ha) (unsync_dev_loop unsync d1 has)
           | (None, d1) \<Rightarrow>
               apsnd (opt_cons (snd (hw_addr_del_entry (ha\<lparr>sync_cnt := sync_cnt ha - 1\<rparr>) False False)))
                 (unsync_dev_loop unsync d1 has))"

definition hw_addr_unsync_dev ::
  "netdev_hw_addr_list \<Rightarrow> 'd \<Rightarrow> ('d \<Rightarrow> bytes \<Rightarrow> errno option \<times> 'd) option \<Rightarrow>
   'd \<times> netdev_hw_addr_list"
where
  "hw_addr_unsync_dev l d unsync =
     (case unsync_dev_loop unsync d (hal l) of (d1, has) \<Rightarrow> (d1, hal_relink l has))"

definition hw_addr_flush :: "netdev_hw_addr_list \<Rightarrow> netdev_hw_addr_list" where
  "hw_addr_flush l = l\<lparr>hal := [], hal_count := 0\<rparr>"

definition hw_addr_init :: netdev_hw_addr_list where
  "hw_addr_init = \<lparr>hal = [], hal_count = 0\<rparr>"

section \<open>The lists of a device\<close>

text \<open>
  The fields of \<open>struct net_device\<close> the address functions use. \<open>iff_up\<close>, \<open>iff_promisc\<close>
  are bits of \<open>flags\<close>, \<open>iff_unicast_flt\<close> of \<open>priv_flags\<close>, \<open>present\<close> the bit
  \<open>__LINK_STATE_PRESENT\<close> of \<open>state\<close>. Calls that leave the modelled code (the driver's
  \<open>ndo_set_rx_mode\<close> and \<open>ndo_change_rx_flags\<close>, the notifier chain) are recorded in \<open>calls\<close>.
\<close>

datatype dev_call = Ndo_set_rx_mode | Change_rx_flags | Notify_changeaddr | Notify_flags

record net_device =
  addr_len :: nat
  dev_addr :: "bytes option"
  dev_addrs :: netdev_hw_addr_list
  uc :: netdev_hw_addr_list
  mc :: netdev_hw_addr_list
  iff_up :: bool
  iff_promisc :: bool
  iff_unicast_flt :: bool
  present :: bool
  has_set_rx_mode :: bool
  uc_promisc :: bool
  promiscuity :: u32
  calls :: "dev_call list"

definition dev_log :: "dev_call \<Rightarrow> net_device \<Rightarrow> net_device" where
  "dev_log c dev = dev\<lparr>calls := calls dev @ [c]\<rparr>"

text \<open>
  \<open>__dev_set_promiscuity\<close>: \<open>promiscuity\<close> is an \<open>unsigned int\<close>, so adding the \<open>int\<close> \<open>inc\<close> wraps.
\<close>

definition dev_set_promiscuity :: "net_device \<Rightarrow> int \<Rightarrow> bool \<Rightarrow> errno option \<times> net_device" where
  "dev_set_promiscuity dev inc notify =
     (let old = iff_promisc dev;
          dev1 = dev\<lparr>iff_promisc := True, promiscuity := promiscuity dev + word_of_int inc\<rparr>
      in if promiscuity dev1 = 0 \<and> \<not> inc < 0
         then (Some EOVERFLOW, dev1\<lparr>promiscuity := promiscuity dev1 - word_of_int inc\<rparr>)
         else let dev2 = (if promiscuity dev1 = 0 then dev1\<lparr>iff_promisc := False\<rparr> else dev1);
                  dev3 = (if iff_promisc dev2 \<noteq> old then dev_log Change_rx_flags dev2 else dev2)
              in (None, if notify then dev_log Notify_flags dev3 else dev3))"

definition netdev_uc_empty :: "net_device \<Rightarrow> bool" where
  "netdev_uc_empty dev \<longleftrightarrow> hal_count (uc dev) = 0"

definition dev_set_rx_mode :: "net_device \<Rightarrow> net_device" where
  "dev_set_rx_mode dev =
     (if \<not> iff_up dev \<or> \<not> present dev then dev
      else let dev1 =
             (if iff_unicast_flt dev then dev
              else if \<not> netdev_uc_empty dev \<and> \<not> uc_promisc dev
                   then (snd (dev_set_promiscuity dev 1 False))\<lparr>uc_promisc := True\<rparr>
              else if netdev_uc_empty dev \<and> uc_promisc dev
                   then (snd (dev_set_promiscuity dev (- 1) False))\<lparr>uc_promisc := False\<rparr>
              else dev)
           in if has_set_rx_mode dev1 then dev_log Ndo_set_rx_mode dev1 else dev1)"

definition dev_addr_flush :: "net_device \<Rightarrow> net_device" where
  "dev_addr_flush dev = dev\<lparr>dev_addrs := hw_addr_flush (dev_addrs dev), dev_addr := None\<rparr>"

definition dev_addr_init :: "net_device \<Rightarrow> bool \<Rightarrow> errno option \<times> net_device" where
  "dev_addr_init dev kmalloc_ok =
     (case hw_addr_add hw_addr_init (replicate MAX_ADDR_LEN 0) MAX_ADDR_LEN NETDEV_HW_ADDR_T_LAN
             kmalloc_ok of
        (err, l) \<Rightarrow>
          (err, if err = None
                then dev\<lparr>dev_addrs := l,
                         dev_addr := (case hal l of [] \<Rightarrow> None | ha # _ \<Rightarrow> Some (ha_addr ha))\<rparr>
                else dev\<lparr>dev_addrs := l\<rparr>))"

text \<open>\<open>pre\<close> is the answer of the pre-change notifier chain.\<close>

definition dev_addr_add ::
  "net_device \<Rightarrow> bytes \<Rightarrow> u8 \<Rightarrow> errno option \<Rightarrow> bool \<Rightarrow> errno option \<times> net_device"
where
  "dev_addr_add dev addr addr_type pre kmalloc_ok =
     (if pre \<noteq> None then (pre, dev)
      else case hw_addr_add (dev_addrs dev) addr (addr_len dev) addr_type kmalloc_ok of
             (err, l) \<Rightarrow>
               (err, let dev1 = dev\<lparr>dev_addrs := l\<rparr>
                     in if err = None then dev_log Notify_changeaddr dev1 else dev1))"

text \<open>
  \<open>dev_addr_del\<close>: the first entry of the list is the device's own address; the code reads it
  without a check, so on an empty list (\<open>dev_addr_init\<close> not called) the model is the
  undefined read \<open>hd []\<close>.
\<close>

definition dev_addr_del :: "net_device \<Rightarrow> bytes \<Rightarrow> u8 \<Rightarrow> errno option \<times> net_device" where
  "dev_addr_del dev addr addr_type =
     (let ha = hd (hal (dev_addrs dev)) in
      if mem_eq (addr_len dev) (ha_addr ha) addr \<and> ha_type ha = addr_type \<and> refcount ha = 1
      then (Some ENOENT, dev)
      else case hw_addr_del (dev_addrs dev) addr (addr_len dev) addr_type of
             (err, l) \<Rightarrow>
               (err, let dev1 = dev\<lparr>dev_addrs := l\<rparr>
                     in if err = None then dev_log Notify_changeaddr dev1 else dev1))"

subsection \<open>Unicast and multicast lists\<close>

text \<open>The common end of the list operations: on success the receive mode is recomputed.\<close>

definition uc_finish ::
  "net_device \<Rightarrow> errno option \<times> netdev_hw_addr_list \<Rightarrow> errno option \<times> net_device" where
  "uc_finish dev r =
     (case r of (err, l) \<Rightarrow>
        (err, let dev1 = dev\<lparr>uc := l\<rparr> in if err = None then dev_set_rx_mode dev1 else dev1))"

definition mc_finish ::
  "net_device \<Rightarrow> errno option \<times> netdev_hw_addr_list \<Rightarrow> errno option \<times> net_device" where
  "mc_finish dev r =
     (case r of (err, l) \<Rightarrow>
        (err, let dev1 = dev\<lparr>mc := l\<rparr> in if err = None then dev_set_rx_mode dev1 else dev1))"

definition dev_uc_add_excl :: "net_device \<Rightarrow> bytes \<Rightarrow> bool \<Rightarrow> errno option \<times> net_device" where
  "dev_uc_add_excl dev addr kmalloc_ok =
     (if \<exists>ha \<in> set (hal (uc dev)). mem_eq (addr_len dev) (ha_addr ha) addr \<and>
           ha_type ha = NETDEV_HW_ADDR_T_UNICAST
      then (Some EEXIST, dev)
      else uc_finish dev (hw_addr_create_ex (uc dev) addr (addr_len dev)
                            NETDEV_HW_ADDR_T_UNICAST True False kmalloc_ok))"

definition dev_uc_add :: "net_device \<Rightarrow> bytes \<Rightarrow> bool \<Rightarrow> errno option \<times> net_device" where
  "dev_uc_add dev addr kmalloc_ok =
     uc_finish dev (hw_addr_add (uc dev) addr (addr_len dev) NETDEV_HW_ADDR_T_UNICAST kmalloc_ok)"

definition dev_uc_del :: "net_device \<Rightarrow> bytes \<Rightarrow> errno option \<times> net_device" where
  "dev_uc_del dev addr =
     uc_finish dev (hw_addr_del (uc dev) addr (addr_len dev) NETDEV_HW_ADDR_T_UNICAST)"

text \<open>The result pairs the destination and the source device.\<close>

definition dev_uc_sync ::
  "net_device \<Rightarrow> net_device \<Rightarrow> (nat \<Rightarrow> bool) \<Rightarrow> errno option \<times> net_device \<times> net_device" where
  "dev_uc_sync to from al =
     (if addr_len to \<noteq> addr_len from then (Some EINVAL, to, from)
      else case hw_addr_sync (uc to) (uc from) (addr_len to) al of (err, t, f) \<Rightarrow>
             (err, snd (uc_finish to (err, t)), from\<lparr>uc := f\<rparr>))"

definition dev_uc_sync_multiple ::
  "net_device \<Rightarrow> net_device \<Rightarrow> (nat \<Rightarrow> bool) \<Rightarrow> errno option \<times> net_device \<times> net_device" where
  "dev_uc_sync_multiple to from al =
     (if addr_len to \<noteq> addr_len from then (Some EINVAL, to, from)
      else case hw_addr_sync_multiple (uc to) (uc from) (addr_len to) al of (err, t, f) \<Rightarrow>
             (err, snd (uc_finish to (err, t)), from\<lparr>uc := f\<rparr>))"

definition dev_uc_unsync :: "net_device \<Rightarrow> net_device \<Rightarrow> net_device \<times> net_device" where
  "dev_uc_unsync to from =
     (if addr_len to \<noteq> addr_len from then (to, from)
      else case hw_addr_unsync (uc to) (uc from) (addr_len to) of (t, f) \<Rightarrow>
             (dev_set_rx_mode (to\<lparr>uc := t\<rparr>), from\<lparr>uc := f\<rparr>))"

definition dev_uc_flush :: "net_device \<Rightarrow> net_device" where
  "dev_uc_flush dev = dev\<lparr>uc := hw_addr_flush (uc dev)\<rparr>"

definition dev_uc_init :: "net_device \<Rightarrow> net_device" where
  "dev_uc_init dev = dev\<lparr>uc := hw_addr_init\<rparr>"

definition dev_mc_add_excl :: "net_device \<Rightarrow> bytes \<Rightarrow> bool \<Rightarrow> errno option \<times> net_device" where
  "dev_mc_add_excl dev addr kmalloc_ok =
     (if \<exists>ha \<in> set (hal (mc dev)). mem_eq (addr_len dev) (ha_addr ha) addr \<and>
           ha_type ha = NETDEV_HW_ADDR_T_MULTICAST
      then (Some EEXIST, dev)
      else mc_finish dev (hw_addr_create_ex (mc dev) addr (addr_len dev)
                            NETDEV_HW_ADDR_T_MULTICAST True False kmalloc_ok))"

definition dev_mc_add_ex :: "net_device \<Rightarrow> bytes \<Rightarrow> bool \<Rightarrow> bool \<Rightarrow> errno option \<times> net_device" where
  "dev_mc_add_ex dev addr global kmalloc_ok =
     mc_finish dev (hw_addr_add_ex (mc dev) addr (addr_len dev) NETDEV_HW_ADDR_T_MULTICAST
                      global False 0 kmalloc_ok)"

definition dev_mc_add :: "net_device \<Rightarrow> bytes \<Rightarrow> bool \<Rightarrow> errno option \<times> net_device" where
  "dev_mc_add dev addr kmalloc_ok = dev_mc_add_ex dev addr False kmalloc_ok"

definition dev_mc_add_global :: "net_device \<Rightarrow> bytes \<Rightarrow> bool \<Rightarrow> errno option \<times> net_device" where
  "dev_mc_add_global dev addr kmalloc_ok = dev_mc_add_ex dev addr True kmalloc_ok"

definition dev_mc_del_ex :: "net_device \<Rightarrow> bytes \<Rightarrow> bool \<Rightarrow> errno option \<times> net_device" where
  "dev_mc_del_ex dev addr global =
     mc_finish dev (hw_addr_del_ex (mc dev) addr (addr_len dev) NETDEV_HW_ADDR_T_MULTICAST
                      global False)"

definition dev_mc_del :: "net_device \<Rightarrow> bytes \<Rightarrow> errno option \<times> net_device" where
  "dev_mc_del dev addr = dev_mc_del_ex dev addr False"

definition dev_mc_del_global :: "net_device \<Rightarrow> bytes \<Rightarrow> errno option \<times> net_device" where
  "dev_mc_del_global dev addr = dev_mc_del_ex dev addr True"

definition dev_mc_sync ::
  "net_device \<Rightarrow> net_device \<Rightarrow> (nat \<Rightarrow> bool) \<Rightarrow> errno option \<times> net_device \<times> net_device" where
  "dev_mc_sync to from al =
     (if addr_len to \<noteq> addr_len from then (Some EINVAL, to, from)
      else case hw_addr_sync (mc to) (mc from) (addr_len to) al of (err, t, f) \<Rightarrow>
             (err, snd (mc_finish to (err, t)), from\<lparr>mc := f\<rparr>))"

definition dev_mc_sync_multiple ::
  "net_device \<Rightarrow> net_device \<Rightarrow> (nat \<Rightarrow> bool) \<Rightarrow> errno option \<times> net_device \<times> net_device" where
  "dev_mc_sync_multiple to from al =
     (if addr_len to \<noteq> addr_len from then (Some EINVAL, to, from)
      else case hw_addr_sync_multiple (mc to) (mc from) (addr_len to) al of (err, t, f) \<Rightarrow>
             (err, snd (mc_finish to (err, t)), from\<lparr>mc := f\<rparr>))"

definition dev_mc_unsync :: "net_device \<Rightarrow> net_device \<Rightarrow> net_device \<times> net_device" where
  "dev_mc_unsync to from =
     (if addr_len to \<noteq> addr_len from then (to, from)
      else case hw_addr_unsync (mc to) (mc from) (addr_len to) of (t, f) \<Rightarrow>
             (dev_set_rx_mode (to\<lparr>mc := t\<rparr>), from\<lparr>mc := f\<rparr>))"

definition dev_mc_flush :: "net_device \<Rightarrow> net_device" where
  "dev_mc_flush dev = dev\<lparr>mc := hw_addr_flush (mc dev)\<rparr>"

definition dev_mc_init :: "net_device \<Rightarrow> net_device" where
  "dev_mc_init dev = dev\<lparr>mc := hw_addr_init\<rparr>"

end
