(* ===== verification/Addr_List_Props.thy ===== *)
theory Addr_List_Props
  imports Addr_List
begin

text \<open>
  Correctness of the address lists: the list invariant and its preservation, the refinement of
  a list to a table of reference counts (the locale \<open>refcounted_table\<close>, interpreted on
  \<open>hw_addr_add\<close> and \<open>hw_addr_del\<close>), the round trips add/delete and sync/unsync, the agreement
  of a device filter with its list, and the promiscuity bookkeeping of the unicast list.
\<close>

section \<open>Matching entries\<close>

definition ha_matches :: "nat \<Rightarrow> u8 \<Rightarrow> bytes \<Rightarrow> netdev_hw_addr \<Rightarrow> bool" where
  "ha_matches n t addr ha \<longleftrightarrow> ha_type ha = t \<and> take n (ha_addr ha) = take n addr"

definition ha_key :: "nat \<Rightarrow> netdev_hw_addr \<Rightarrow> u8 \<times> bytes" where
  "ha_key n ha = (ha_type ha, take n (ha_addr ha))"

lemma ha_matches_key: "ha_matches n t addr ha \<longleftrightarrow> ha_key n ha = (t, take n addr)"
  by (auto simp: ha_matches_def ha_key_def)

lemma add_scan_match:
  "hw_addr_add_scan addr n t g s c (ha # has) =
     (if ha_matches n t addr ha
      then (case hw_addr_add_hit ha g s c of (e, ha') \<Rightarrow> Some (e, ha' # has))
      else map_option (apsnd (Cons ha)) (hw_addr_add_scan addr n t g s c has))"
  by (auto simp: ha_matches_def mem_eq_def)

lemma del_scan_match:
  "t \<noteq> 0 \<Longrightarrow> hw_addr_del_scan addr n t g s (ha # has) =
     (if ha_matches n t addr ha
      then (case hw_addr_del_entry ha g s of (e, ha') \<Rightarrow> Some (e, opt_cons ha' has))
      else map_option (apsnd (Cons ha)) (hw_addr_del_scan addr n t g s has))"
  by (auto simp: ha_matches_def mem_eq_def)

declare hw_addr_add_scan.simps(2) [simp del] hw_addr_del_scan.simps(2) [simp del]

lemma add_scan_skip:
  "\<forall>x \<in> set pre. \<not> ha_matches n t addr x \<Longrightarrow>
   hw_addr_add_scan addr n t g s c (pre @ has) =
     map_option (apsnd (append pre)) (hw_addr_add_scan addr n t g s c has)"
  by (induction pre)
     (auto simp: option.map_id add_scan_match option.map_comp comp_def apsnd_compose apsnd_def map_prod_def
        intro!: option.map_cong split: prod.splits)

lemma del_scan_skip:
  "t \<noteq> 0 \<Longrightarrow> \<forall>x \<in> set pre. \<not> ha_matches n t addr x \<Longrightarrow>
   hw_addr_del_scan addr n t g s (pre @ has) =
     map_option (apsnd (append pre)) (hw_addr_del_scan addr n t g s has)"
  by (induction pre)
     (auto simp: option.map_id del_scan_match option.map_comp comp_def apsnd_def map_prod_def
        intro!: option.map_cong split: prod.splits)

lemma add_scan_None: "\<forall>x \<in> set has. \<not> ha_matches n t addr x \<Longrightarrow>
    hw_addr_add_scan addr n t g s c has = None"
  using add_scan_skip [of has n t addr g s c "[]"] by simp

lemma del_scan_None: "t \<noteq> 0 \<Longrightarrow> \<forall>x \<in> set has. \<not> ha_matches n t addr x \<Longrightarrow>
    hw_addr_del_scan addr n t g s has = None"
  using del_scan_skip [of t has n addr g s "[]"] by simp

text \<open>The first match of a list, or that there is none.\<close>

lemma first_match:
  obtains (none) "\<forall>x \<in> set has. \<not> P x"
  | (hit) pre ha suf where "has = pre @ ha # suf" "P ha" "\<forall>x \<in> set pre. \<not> P x"
proof (cases "\<exists>x \<in> set has. P x")
  case True
  then show ?thesis
    using split_list_first_prop [of has P] that(2) by blast
qed (use that(1) in blast)

lemma add_scan_hit:
  "\<lbrakk> \<forall>x \<in> set pre. \<not> ha_matches n t addr x; ha_matches n t addr ha \<rbrakk> \<Longrightarrow>
   hw_addr_add_scan addr n t g s c (pre @ ha # suf) =
     (case hw_addr_add_hit ha g s c of (e, ha') \<Rightarrow> Some (e, pre @ ha' # suf))"
  by (simp add: add_scan_skip add_scan_match split: prod.split)

lemma del_scan_hit:
  "\<lbrakk> t \<noteq> 0; \<forall>x \<in> set pre. \<not> ha_matches n t addr x; ha_matches n t addr ha \<rbrakk> \<Longrightarrow>
   hw_addr_del_scan addr n t g s (pre @ ha # suf) =
     (case hw_addr_del_entry ha g s of (e, ha') \<Rightarrow> Some (e, pre @ opt_cons ha' suf))"
  by (simp add: del_scan_skip del_scan_match split: prod.split)

section \<open>The list invariant\<close>

definition ha_ok :: "netdev_hw_addr \<Rightarrow> bool" where
  "ha_ok ha \<longleftrightarrow> 1 \<le> refcount ha \<and> 0 \<le> synced ha \<and> ha_type ha \<noteq> 0"

text \<open>
  The invariant of a list whose addresses have \<open>n\<close> bytes: the count is the number of entries,
  every entry holds at least one reference, and no two entries have the same type and address.
\<close>

definition hal_wf :: "nat \<Rightarrow> netdev_hw_addr_list \<Rightarrow> bool" where
  "hal_wf n l \<longleftrightarrow> hal_count l = int (length (hal l)) \<and> (\<forall>ha \<in> set (hal l). ha_ok ha) \<and>
     distinct (map (ha_key n) (hal l))"

lemma hal_wf_init [simp]: "hal_wf n hw_addr_init"
  by (simp add: hal_wf_def hw_addr_init_def)

lemma add_hit_key [simp]: "ha_key n (snd (hw_addr_add_hit ha g s c)) = ha_key n ha"
  by (simp add: hw_addr_add_hit_def ha_key_def Let_def)

lemma add_hit_ok: "ha_ok ha \<Longrightarrow> ha_ok (snd (hw_addr_add_hit ha g s c))"
  by (simp add: hw_addr_add_hit_def ha_ok_def Let_def)

lemma del_entry_key: "snd (hw_addr_del_entry ha g s) = Some ha' \<Longrightarrow> ha_key n ha' = ha_key n ha"
  by (auto simp: hw_addr_del_entry_def ha_key_def Let_def split: if_splits)

lemma del_entry_ok: "snd (hw_addr_del_entry ha g s) = Some ha' \<Longrightarrow> ha_ok ha \<Longrightarrow> ha_ok ha'"
  by (auto simp: hw_addr_del_entry_def ha_ok_def Let_def split: if_splits)

lemma hal_wf_add_ex:
  assumes wf: "hal_wf n l" and t: "t \<noteq> 0"
  shows "hal_wf n (snd (hw_addr_add_ex l addr n t g s c ok))"
proof (cases rule: first_match [where has = "hal l" and P = "ha_matches n t addr"])
  case none
  then have "(t, take n addr) \<notin> ha_key n ` set (hal l)"
    by (metis ha_matches_key imageE)
  with none wf t show ?thesis
    by (auto simp: hw_addr_add_ex_def add_scan_None hw_addr_create_ex_def hal_wf_def ha_ok_def
        ha_key_def)
next
  case (hit pre ha suf)
  obtain e ha' where h: "hw_addr_add_hit ha g s c = (e, ha')" by fastforce
  then have "ha_key n ha' = ha_key n ha" "ha_ok ha \<longrightarrow> ha_ok ha'"
    using add_hit_key [of n ha g s c] add_hit_ok [of ha g s c] by auto
  with hit h wf show ?thesis
    by (auto simp: hw_addr_add_ex_def add_scan_hit hal_wf_def)
qed

lemma hal_wf_create_ex:
  assumes wf: "hal_wf n l" and "t \<noteq> 0" and "\<forall>x \<in> set (hal l). \<not> ha_matches n t addr x"
  shows "hal_wf n (snd (hw_addr_create_ex l addr n t g s ok))"
proof -
  have "(t, take n addr) \<notin> ha_key n ` set (hal l)"
    using assms(3) by (metis ha_matches_key imageE)
  with wf \<open>t \<noteq> 0\<close> show ?thesis
    by (auto simp: hw_addr_create_ex_def hal_wf_def ha_ok_def ha_key_def)
qed

lemma hal_wf_del_ex:
  assumes wf: "hal_wf n l" and t: "t \<noteq> 0"
  shows "hal_wf n (snd (hw_addr_del_ex l addr n t g s))"
proof (cases rule: first_match [where has = "hal l" and P = "ha_matches n t addr"])
  case none
  with wf t show ?thesis by (simp add: hw_addr_del_ex_def del_scan_None)
next
  case (hit pre ha suf)
  obtain e o' where d: "hw_addr_del_entry ha g s = (e, o')" by fastforce
  have k: "ha_key n ha' = ha_key n ha" "ha_ok ha \<longrightarrow> ha_ok ha'" if "o' = Some ha'" for ha'
    using that del_entry_key [of ha g s ha' n] del_entry_ok [of ha g s ha'] d by auto
  show ?thesis
    using wf t hit d k
    by (cases o') (auto simp: hw_addr_del_ex_def del_scan_hit hal_wf_def hal_relink_def)
qed

lemma hal_wf_flush: "hal_wf n (hw_addr_flush l)"
  by (simp add: hal_wf_def hw_addr_flush_def)

section \<open>Adding and deleting\<close>

lemma add_ex_then_del_ex:
  assumes wf: "hal_wf n l" and t: "t \<noteq> 0"
    and add: "hw_addr_add_ex l addr n t False s 0 ok = (None, l')"
  shows "hw_addr_del_ex l' addr n t False s = (None, l)"
proof (cases rule: first_match [where has = "hal l" and P = "ha_matches n t addr"])
  case none
  with add wf t show ?thesis
    by (auto simp: hw_addr_add_ex_def add_scan_None hw_addr_create_ex_def hw_addr_del_ex_def
        del_scan_skip del_scan_match ha_matches_def hw_addr_del_entry_def hal_relink_def
        split: if_splits)
next
  case (hit pre ha suf)
  then have "ha_ok ha" using wf by (auto simp: hal_wf_def)
  with hit add t show ?thesis
    by (cases l)
       (auto simp: hw_addr_add_ex_def add_scan_hit hw_addr_add_hit_def hw_addr_del_ex_def
        del_scan_hit ha_matches_def hw_addr_del_entry_def hal_relink_def ha_ok_def Let_def
        split: if_splits)
qed

section \<open>Deleting one address commutes with adding another\<close>

lemma add_scan_length:
  "hw_addr_add_scan addr n t g s c has = Some (e, has') \<Longrightarrow> length has' = length has"
  by (induction has arbitrary: has') (auto simp: add_scan_match split: if_splits prod.splits)

lemma scan_commute_hit:
  assumes "(t, take n a) \<noteq> (t', take n a')" and "t \<noteq> 0"
  shows "hw_addr_del_scan a n t False True has = Some (None, hasd) \<Longrightarrow>
    hw_addr_add_scan a' n t' False True 0 has = Some (e, hasa) \<Longrightarrow>
    \<exists>x. hw_addr_add_scan a' n t' False True 0 hasd = Some (e, x) \<and>
        hw_addr_del_scan a n t False True hasa = Some (None, x)"
proof (induction has arbitrary: hasd hasa)
  case Nil
  then show ?case by simp
next
  case (Cons ha has)
  have excl: "\<not> (ha_matches n t a ha \<and> ha_matches n t' a' ha)" for ha
    using assms(1) by (auto simp: ha_matches_key)
  show ?case
  proof (cases "ha_matches n t a ha")
    case True
    with excl have "\<not> ha_matches n t' a' ha" by blast
    with True Cons.prems \<open>t \<noteq> 0\<close> show ?thesis
      by (auto simp: add_scan_match del_scan_match hw_addr_del_entry_def Let_def ha_matches_def
          split: if_splits prod.splits)
  next
    case False
    show ?thesis
    proof (cases "ha_matches n t' a' ha")
      case True
      have "\<not> ha_matches n t a (snd (hw_addr_add_hit ha False True 0))"
        using False by (auto simp: ha_matches_key)
      with True False Cons.prems \<open>t \<noteq> 0\<close> show ?thesis
        by (auto simp: add_scan_match del_scan_match split: prod.splits)
    next
      case F2: False
      with False Cons.prems \<open>t \<noteq> 0\<close> Cons.IH show ?thesis
        by (fastforce simp: add_scan_match del_scan_match split: prod.splits)
    qed
  qed
qed

lemma scan_commute_miss:
  assumes "(t, take n a) \<noteq> (t', take n a')" and "t \<noteq> 0"
    and new: "\<not> ha_matches n t a new"
  shows "hw_addr_del_scan a n t False True has = Some (None, hasd) \<Longrightarrow>
    hw_addr_add_scan a' n t' False True 0 has = None \<Longrightarrow>
    hw_addr_add_scan a' n t' False True 0 hasd = None \<and>
    hw_addr_del_scan a n t False True (has @ [new]) = Some (None, hasd @ [new])"
proof (induction has arbitrary: hasd)
  case Nil
  then show ?case by simp
next
  case (Cons ha has)
  show ?case
  proof (cases "ha_matches n t a ha")
    case True
    with Cons.prems assms show ?thesis
      by (auto simp: add_scan_match del_scan_match hw_addr_del_entry_def Let_def ha_matches_def
          split: if_splits prod.splits)
  next
    case False
    with Cons.prems \<open>t \<noteq> 0\<close> Cons.IH show ?thesis
      by (auto simp: add_scan_match del_scan_match split: if_splits prod.splits)
  qed
qed

lemma del_add_commute:
  assumes diff: "(t, take n a) \<noteq> (t', take n a')" and t: "t \<noteq> 0"
    and del: "hw_addr_del_ex l a n t False True = (None, ld)"
    and add: "hw_addr_add_ex l a' n t' False True 0 ok = (e, la)"
  shows "\<exists>x. hw_addr_add_ex ld a' n t' False True 0 ok = (e, x) \<and>
             hw_addr_del_ex la a n t False True = (None, x)"
proof -
  obtain hasd where d: "hw_addr_del_scan a n t False True (hal l) = Some (None, hasd)"
    and ld: "ld = hal_relink l hasd"
    using del by (auto simp: hw_addr_del_ex_def split: option.splits prod.splits)
  show ?thesis
  proof (cases "n > MAX_ADDR_LEN")
    case True
    with add del show ?thesis by (auto simp: hw_addr_add_ex_def)
  next
    case n: False
    show ?thesis
    proof (cases "hw_addr_add_scan a' n t' False True 0 (hal l)")
      case None
      have new: "\<not> ha_matches n t a \<lparr>ha_addr = take n a', ha_type = t', global_use = False,
                        sync_cnt = 0, refcount = 1, synced = 1\<rparr>"
        using diff by (auto simp: ha_matches_def)
      show ?thesis
        using scan_commute_miss [OF diff t new d None] None n add d ld
        by (auto simp: hw_addr_add_ex_def hw_addr_create_ex_def hw_addr_del_ex_def hal_relink_def
            split: if_splits)
    next
      case (Some r)
      then obtain hasa where a: "hw_addr_add_scan a' n t' False True 0 (hal l) = Some (e, hasa)"
        and la: "la = l\<lparr>hal := hasa\<rparr>"
        using add n by (cases r) (auto simp: hw_addr_add_ex_def)
      from scan_commute_hit [OF diff t d a] obtain x
        where x: "hw_addr_add_scan a' n t' False True 0 hasd = Some (e, x)"
          "hw_addr_del_scan a n t False True hasa = Some (None, x)" by blast
      have "length hasa = length (hal l)" "length x = length hasd"
        using add_scan_length [OF a] add_scan_length [OF x(1)] by auto
      with x n ld la show ?thesis
        by (auto simp: hw_addr_add_ex_def hw_addr_del_ex_def hal_relink_def)
    qed
  qed
qed

section \<open>Synchronising and unsynchronising\<close>

text \<open>Synchronising an entry that was not synchronised yet never meets \<open>EEXIST\<close>.\<close>

lemma add_scan_no_EEXIST:
  "hw_addr_add_scan a n t False True 0 has = Some (e, has') \<Longrightarrow> e = None"
  by (induction has arbitrary: has')
     (auto simp: add_scan_match hw_addr_add_hit_def Let_def split: if_splits prod.splits)

lemma add_ex_no_EEXIST:
  "fst (hw_addr_add_ex l a n t False True 0 ok) \<noteq> Some EEXIST"
  by (auto simp: hw_addr_add_ex_def hw_addr_create_ex_def dest: add_scan_no_EEXIST
      split: option.splits prod.splits)

lemma sync_one_fresh:
  assumes "sync_cnt ha = 0"
  shows "hw_addr_sync_one to ha n ok =
    (case hw_addr_add_ex to (ha_addr ha) n (ha_type ha) False True 0 ok of
       (None, to') \<Rightarrow> (None, to', ha\<lparr>sync_cnt := 1, refcount := refcount ha + 1\<rparr>)
     | (Some e, to') \<Rightarrow> (Some e, to', ha))"
  using assms add_ex_no_EEXIST [of to "ha_addr ha" n "ha_type ha" ok]
  by (auto simp: hw_addr_sync_one_def split: prod.splits option.splits)

lemma unsync_one_done:
  assumes "hw_addr_del_ex to (ha_addr ha) n (ha_type ha) False True = (None, to')"
    and "1 \<le> refcount ha" and "sync_cnt ha = 0"
  shows "hw_addr_unsync_one to (ha\<lparr>sync_cnt := 1, refcount := refcount ha + 1\<rparr>) n = (to', Some ha)"
  using assms by (cases ha) (auto simp: hw_addr_unsync_one_def hw_addr_del_entry_def)

text \<open>A run of the sync loop over other addresses does not touch an address of the destination.\<close>

lemma sync_loop_frame:
  assumes t: "t \<noteq> 0"
  shows "\<lbrakk> \<forall>ha \<in> set has. sync_cnt ha = 0; \<forall>ha \<in> set has. ha_key n ha \<noteq> (t, take n a);
     hw_addr_del_ex to a n t False True = (None, tod);
     sync_loop n al to has = (e, to', has') \<rbrakk> \<Longrightarrow>
   \<exists>x. sync_loop n al tod has = (e, x, has') \<and> hw_addr_del_ex to' a n t False True = (None, x)"
proof (induction has arbitrary: al to tod e to' has')
  case Nil
  then show ?case by auto
next
  case (Cons ha has)
  have diff: "(t, take n a) \<noteq> (ha_type ha, take n (ha_addr ha))"
    using Cons.prems(2) by (auto simp: ha_key_def)
  obtain e1 to1 where add:
    "hw_addr_add_ex to (ha_addr ha) n (ha_type ha) False True 0 (al 0) = (e1, to1)" by fastforce
  from del_add_commute [OF diff t Cons.prems(3) add] obtain tod1 where
    c: "hw_addr_add_ex tod (ha_addr ha) n (ha_type ha) False True 0 (al 0) = (e1, tod1)"
       "hw_addr_del_ex to1 a n t False True = (None, tod1)" by blast
  show ?case
  proof (cases e1)
    case (Some x)
    with Cons.prems add c show ?thesis by (auto simp: sync_one_fresh)
  next
    case None
    obtain e2 to2 has2 where r: "sync_loop n (\<lambda>k. al (Suc k)) to1 has = (e2, to2, has2)"
      by (metis prod_cases3)
    from Cons.IH [OF _ _ c(2) r] Cons.prems(1,2) obtain x where
      "sync_loop n (\<lambda>k. al (Suc k)) tod1 has = (e2, x, has2)"
      "hw_addr_del_ex to2 a n t False True = (None, x)" by auto
    with Cons.prems add c None r show ?thesis by (auto simp: sync_one_fresh)
  qed
qed

lemma unsync_loop_untouched:
  "\<forall>ha \<in> set has. sync_cnt ha = 0 \<Longrightarrow> unsync_loop n to has = (to, has)"
  by (induction has) auto

lemma sync_unsync_loop:
  "\<lbrakk> hal_wf n to; \<forall>ha \<in> set has. ha_ok ha \<and> sync_cnt ha = 0; distinct (map (ha_key n) has);
     sync_loop n al to has = (e, to', has') \<rbrakk> \<Longrightarrow> unsync_loop n to' has' = (to, has)"
proof (induction has arbitrary: al to e to' has')
  case Nil
  then show ?case by auto
next
  case (Cons ha has)
  have ha: "1 \<le> refcount ha" "ha_type ha \<noteq> 0" "sync_cnt ha = 0"
    using Cons.prems(2) by (auto simp: ha_ok_def)
  obtain e1 to1 where add:
    "hw_addr_add_ex to (ha_addr ha) n (ha_type ha) False True 0 (al 0) = (e1, to1)" by fastforce
  show ?case
  proof (cases e1)
    case (Some x)
    then have "to1 = to"
      using add
      by (auto simp: hw_addr_add_ex_def hw_addr_create_ex_def dest!: add_scan_no_EEXIST
          split: if_splits option.splits prod.splits)
    with Some Cons.prems add ha show ?thesis
      by (auto simp: sync_one_fresh intro!: unsync_loop_untouched)
  next
    case None
    with add ha Cons.prems(1) have del:
      "hw_addr_del_ex to1 (ha_addr ha) n (ha_type ha) False True = (None, to)"
      by (auto intro: add_ex_then_del_ex)
    obtain e2 to2 has2 where r: "sync_loop n (\<lambda>k. al (Suc k)) to1 has = (e2, to2, has2)"
      by (metis prod_cases3)
    have "\<forall>h \<in> set has. ha_key n h \<noteq> (ha_type ha, take n (ha_addr ha))"
      using Cons.prems(3) by (auto simp: ha_key_def image_iff)
    from sync_loop_frame [OF ha(2) _ this del r] Cons.prems(2) obtain x where
      x: "sync_loop n (\<lambda>k. al (Suc k)) to has = (e2, x, has2)"
        "hw_addr_del_ex to2 (ha_addr ha) n (ha_type ha) False True = (None, x)" by auto
    from Cons.IH [OF Cons.prems(1) _ _ x(1)] Cons.prems(2,3)
    have "unsync_loop n x has2 = (to, has)" by auto
    with Cons.prems add None r ha x(2) show ?thesis
      by (auto simp: sync_one_fresh unsync_one_done)
  qed
qed

lemma sync_loop_length:
  "\<forall>ha \<in> set has. sync_cnt ha = 0 \<Longrightarrow> sync_loop n al to has = (e, to', has') \<Longrightarrow>
   length has' = length has"
  by (induction has arbitrary: al to e to' has')
     (auto simp: sync_one_fresh split: prod.splits option.splits)


definition ex_ha :: "u8 \<Rightarrow> netdev_hw_addr" where
  "ex_ha b = \<lparr>ha_addr = [2, 0, 0, 0, 0, b], ha_type = NETDEV_HW_ADDR_T_MULTICAST,
     global_use = False, sync_cnt = 0, refcount = 1, synced = 0\<rparr>"

definition ex_to :: netdev_hw_addr_list where
  "ex_to = \<lparr>hal = [ex_ha 1], hal_count = 1\<rparr>"

definition ex_from :: netdev_hw_addr_list where
  "ex_from = \<lparr>hal = [ex_ha 1, ex_ha 2, ex_ha 3], hal_count = 3\<rparr>"

lemmas ex_defs = ex_to_def ex_from_def ex_ha_def hal_wf_def ha_ok_def ha_key_def
  NETDEV_HW_ADDR_T_MULTICAST_def


section \<open>A device filter agrees with its list\<close>

text \<open>
  The table of a device filter, seen through \<open>tbl\<close>: \<open>sync\<close> adds an address, \<open>unsync\<close> removes
  one, and a call that fails changes nothing.
\<close>

definition filter_callbacks ::
  "('d \<Rightarrow> bytes \<Rightarrow> errno option \<times> 'd) \<Rightarrow> ('d \<Rightarrow> bytes \<Rightarrow> errno option \<times> 'd) \<Rightarrow> ('d \<Rightarrow> bytes set) \<Rightarrow> bool"
where
  "filter_callbacks sync unsync tbl \<longleftrightarrow>
     (\<forall>d a e d'. sync d a = (e, d') \<longrightarrow> tbl d' = (if e = None then insert a (tbl d) else tbl d)) \<and>
     (\<forall>d a e d'. unsync d a = (e, d') \<longrightarrow> tbl d' = (if e = None then tbl d - {a} else tbl d))"

definition synced_addrs :: "netdev_hw_addr list \<Rightarrow> bytes set" where
  "synced_addrs has = ha_addr ` {ha \<in> set has. sync_cnt ha \<noteq> 0}"

lemma synced_addrs_simps [simp]:
  "synced_addrs [] = {}"
  "synced_addrs (ha # has) =
     (if sync_cnt ha = 0 then synced_addrs has else insert (ha_addr ha) (synced_addrs has))"
  by (auto simp: synced_addrs_def)

lemma synced_addrs_subset: "synced_addrs has \<subseteq> ha_addr ` set has"
  by (auto simp: synced_addrs_def)

lemma sync_dev_flush_tbl:
  assumes cb: "filter_callbacks sync unsync tbl"
  shows "\<lbrakk> sync_dev_flush (Some unsync) d has = (d1, has1); distinct (map ha_addr has);
     tbl d = synced_addrs has \<union> X; X \<inter> ha_addr ` set has = {} \<rbrakk> \<Longrightarrow>
   tbl d1 = synced_addrs has1 \<union> X \<and> set has1 \<subseteq> set has \<and> distinct (map ha_addr has1)"
proof (induction has arbitrary: d d1 has1 X)
  case Nil
  then show ?case by auto
next
  case (Cons ha has)
  show ?case
  proof (cases "sync_cnt ha = 0 \<or> refcount ha \<noteq> 1")
    case True
    then obtain h2 where r: "sync_dev_flush (Some unsync) d has = (d1, h2)" "has1 = ha # h2"
      using Cons.prems(1) by (cases "sync_dev_flush (Some unsync) d has") auto
    let ?X = "if sync_cnt ha = 0 then X else insert (ha_addr ha) X"
    have "tbl d1 = synced_addrs h2 \<union> ?X \<and> set h2 \<subseteq> set has \<and> distinct (map ha_addr h2)"
      by (rule Cons.IH [OF r(1)]) (use Cons.prems in auto)
    with r(2) Cons.prems(2) show ?thesis by auto
  next
    case False
    obtain e d2 where u: "unsync d (ha_addr ha) = (e, d2)" by fastforce
    show ?thesis
    proof (cases e)
      case (Some x)
      then obtain h2 where r: "sync_dev_flush (Some unsync) d2 has = (d1, h2)" "has1 = ha # h2"
        using Cons.prems(1) False u by (cases "sync_dev_flush (Some unsync) d2 has") auto
      have "tbl d2 = tbl d" using cb u Some by (auto simp: filter_callbacks_def)
      then have "tbl d1 = synced_addrs h2 \<union> insert (ha_addr ha) X \<and> set h2 \<subseteq> set has \<and>
          distinct (map ha_addr h2)"
        by (intro Cons.IH [OF r(1)]) (use Cons.prems False in auto)
      with r(2) Cons.prems(2) False show ?thesis by auto
    next
      case None
      then have r: "sync_dev_flush (Some unsync) d2 has = (d1, has1)"
        using Cons.prems(1) False u
        by (cases "sync_dev_flush (Some unsync) d2 has") (auto simp: hw_addr_del_entry_def)
      have "tbl d2 = tbl d - {ha_addr ha}" using cb u None by (auto simp: filter_callbacks_def)
      then have "tbl d1 = synced_addrs has1 \<union> X \<and> set has1 \<subseteq> set has \<and>
          distinct (map ha_addr has1)"
        using Cons.prems False synced_addrs_subset [of has]
        by (intro Cons.IH [OF r]) auto
      then show ?thesis by auto
    qed
  qed
qed

lemma sync_dev_add_tbl:
  assumes cb: "filter_callbacks sync unsync tbl"
  shows "\<lbrakk> sync_dev_add sync d has = (e, d1, has1); \<forall>ha \<in> set has. 0 \<le> sync_cnt ha;
     tbl d = synced_addrs has \<union> X \<rbrakk> \<Longrightarrow>
   tbl d1 = synced_addrs has1 \<union> X \<and> map ha_addr has1 = map ha_addr has \<and>
   (e = None \<longrightarrow> (\<forall>ha \<in> set has1. sync_cnt ha \<noteq> 0))"
proof (induction has arbitrary: d e d1 has1 X)
  case Nil
  then show ?case by auto
next
  case (Cons ha has)
  show ?case
  proof (cases "sync_cnt ha = 0")
    case False
    then obtain h2 where r: "sync_dev_add sync d has = (e, d1, h2)" "has1 = ha # h2"
      using Cons.prems(1) by (cases "sync_dev_add sync d has") auto
    have "tbl d1 = synced_addrs h2 \<union> insert (ha_addr ha) X \<and> map ha_addr h2 = map ha_addr has \<and>
        (e = None \<longrightarrow> (\<forall>ha \<in> set h2. sync_cnt ha \<noteq> 0))"
      by (rule Cons.IH [OF r(1)]) (use Cons.prems False in auto)
    with r(2) False show ?thesis by auto
  next
    case True
    obtain e2 d2 where s: "sync d (ha_addr ha) = (e2, d2)" by fastforce
    show ?thesis
    proof (cases e2)
      case (Some x)
      with cb s have "tbl d2 = tbl d" by (auto simp: filter_callbacks_def)
      with Some s True Cons.prems show ?thesis by auto
    next
      case None
      then obtain h2 where r: "sync_dev_add sync d2 has = (e, d1, h2)"
        "has1 = ha\<lparr>sync_cnt := sync_cnt ha + 1, refcount := refcount ha + 1\<rparr> # h2"
        using Cons.prems(1) True s by (cases "sync_dev_add sync d2 has") auto
      have "tbl d2 = insert (ha_addr ha) (tbl d)"
        using cb s None by (auto simp: filter_callbacks_def)
      then have "tbl d1 = synced_addrs h2 \<union> insert (ha_addr ha) X \<and>
          map ha_addr h2 = map ha_addr has \<and> (e = None \<longrightarrow> (\<forall>ha \<in> set h2. sync_cnt ha \<noteq> 0))"
        by (intro Cons.IH [OF r(1)]) (use Cons.prems True in auto)
      with r(2) True show ?thesis by auto
    qed
  qed
qed

text \<open>
  After \<open>__hw_addr_sync_dev\<close> the addresses in the table of the device are exactly
  those of the entries marked synchronised, and all addresses of the list when the function
  returns 0, even when unsync callbacks failed and deferred a removal.
\<close>

theorem hw_addr_sync_dev_agrees:
  assumes cb: "filter_callbacks sync unsync tbl"
    and "distinct (map ha_addr (hal l))" and "\<forall>ha \<in> set (hal l). 0 \<le> sync_cnt ha"
    and "tbl d = synced_addrs (hal l)"
    and res: "hw_addr_sync_dev l d sync (Some unsync) = (e, d', l')"
  shows "tbl d' = synced_addrs (hal l') \<and> (e = None \<longrightarrow> tbl d' = ha_addr ` set (hal l'))"
proof -
  obtain d1 has1 where f: "sync_dev_flush (Some unsync) d (hal l) = (d1, has1)" by fastforce
  from sync_dev_flush_tbl [OF cb f assms(2), of "{}"] assms(4)
  have 1: "tbl d1 = synced_addrs has1" "set has1 \<subseteq> set (hal l)" by auto
  obtain has2 where a: "sync_dev_add sync d1 has1 = (e, d', has2)" and l': "hal l' = has2"
    using res f by (auto simp: hw_addr_sync_dev_def split: prod.splits)
  from sync_dev_add_tbl [OF cb a, of "{}"] 1 assms(3)
  have "tbl d' = synced_addrs has2" "e = None \<longrightarrow> (\<forall>ha \<in> set has2. sync_cnt ha \<noteq> 0)" by auto
  with l' show ?thesis by (auto simp: synced_addrs_def)
qed

theorem hw_addr_sync_dev_agrees_witness:
  "case hw_addr_sync_dev ex_from {} (\<lambda>d a. (None, insert a d)) (Some (\<lambda>d a. (None, d - {a}))) of
     (e, d', l') \<Rightarrow> e = None \<and> d' = ha_addr ` set (hal l') \<and> length (hal l') = 3"
proof -
  have "filter_callbacks (\<lambda>d a. (None, insert a d)) (\<lambda>d a. (None, d - {a})) id"
    by (simp add: filter_callbacks_def)
  from hw_addr_sync_dev_agrees [OF this, of ex_from "{}"] show ?thesis
    by (auto simp: ex_defs hw_addr_sync_dev_def hal_relink_def)
qed

section \<open>A list as a table of reference counts\<close>

text \<open>
  The contract the users of an address list rely on: a table that counts references per key.
  \<open>refs\<close> is 0 for a key that is not in the table.
\<close>

datatype 'a ref_op = Get 'a | Put 'a

fun ref_run :: "('a \<Rightarrow> 's \<Rightarrow> 's) \<Rightarrow> ('a \<Rightarrow> 's \<Rightarrow> 's) \<Rightarrow> 'a ref_op list \<Rightarrow> 's \<Rightarrow> 's" where
  "ref_run add del [] s = s"
| "ref_run add del (Get a # ops) s = ref_run add del ops (add a s)"
| "ref_run add del (Put a # ops) s = ref_run add del ops (del a s)"

text \<open>The abstract table: a count per key that a put decreases to no less than 0.\<close>

fun ref_spec :: "('a \<Rightarrow> 'k) \<Rightarrow> 'a ref_op list \<Rightarrow> ('k \<Rightarrow> int) \<Rightarrow> ('k \<Rightarrow> int)" where
  "ref_spec key [] m = m"
| "ref_spec key (Get a # ops) m = ref_spec key ops (m(key a := m (key a) + 1))"
| "ref_spec key (Put a # ops) m = ref_spec key ops (m(key a := max 0 (m (key a) - 1)))"

fun n_gets :: "('a \<Rightarrow> 'k) \<Rightarrow> 'k \<Rightarrow> 'a ref_op list \<Rightarrow> int" where
  "n_gets key k [] = 0"
| "n_gets key k (Get a # ops) = (if key a = k then 1 else 0) + n_gets key k ops"
| "n_gets key k (Put a # ops) = n_gets key k ops"

fun n_puts :: "('a \<Rightarrow> 'k) \<Rightarrow> 'k \<Rightarrow> 'a ref_op list \<Rightarrow> int" where
  "n_puts key k [] = 0"
| "n_puts key k (Get a # ops) = n_puts key k ops"
| "n_puts key k (Put a # ops) = (if key a = k then 1 else 0) + n_puts key k ops"

lemma ref_spec_lower: "m k + n_gets key k ops - n_puts key k ops \<le> ref_spec key ops m k"
proof (induction key ops m rule: ref_spec.induct)
  case (2 key a ops m)
  then show ?case by (cases "key a = k") (auto simp: fun_upd_def)
next
  case (3 key a ops m)
  then show ?case by (cases "key a = k") (auto simp: fun_upd_def)
qed simp

locale refcounted_table =
  fixes add :: "'a \<Rightarrow> 's \<Rightarrow> 's"
    and del :: "'a \<Rightarrow> 's \<Rightarrow> 's"
    and key :: "'a \<Rightarrow> 'k"
    and refs :: "'s \<Rightarrow> 'k \<Rightarrow> int"
    and inv :: "'s \<Rightarrow> bool"
  assumes inv_add: "inv s \<Longrightarrow> inv (add a s)"
    and inv_del: "inv s \<Longrightarrow> inv (del a s)"
    and refs_add: "inv s \<Longrightarrow> refs (add a s) = (refs s)(key a := refs s (key a) + 1)"
    and refs_del: "inv s \<Longrightarrow> refs (del a s) = (refs s)(key a := max 0 (refs s (key a) - 1))"
begin

lemma run_inv: "inv s \<Longrightarrow> inv (ref_run add del ops s)"
proof (induction ops arbitrary: s)
  case (Cons x ops)
  then show ?case by (cases x) (simp_all add: inv_add inv_del)
qed simp

lemma run_refines: "inv s \<Longrightarrow> refs (ref_run add del ops s) = ref_spec key ops (refs s)"
proof (induction ops arbitrary: s)
  case (Cons x ops)
  then show ?case
    by (cases x) (simp_all add: inv_add inv_del refs_add refs_del fun_upd_def)
qed simp

lemma run_keeps:
  assumes "inv s" and "n_puts key k ops < refs s k + n_gets key k ops"
  shows "0 < refs (ref_run add del ops s) k"
  using assms ref_spec_lower [of "refs s" k key ops] by (simp add: run_refines)

end

definition ETH_ALEN :: nat where "ETH_ALEN = 6"

definition ref_of :: "nat \<Rightarrow> u8 \<Rightarrow> netdev_hw_addr_list \<Rightarrow> bytes \<Rightarrow> int" where
  "ref_of n t l a = (case find (ha_matches n t a) (hal l) of None \<Rightarrow> 0 | Some ha \<Rightarrow> refcount ha)"

lemma find_skip: "\<forall>x \<in> set pre. \<not> P x \<Longrightarrow> find P (pre @ xs) = find P xs"
  by (induction pre) auto

lemma find_append_opt: "find P (xs @ ys) = (case find P xs of None \<Rightarrow> find P ys | Some x \<Rightarrow> Some x)"
  by (induction xs) auto

lemma find_miss: "\<forall>x \<in> set xs. \<not> P x \<Longrightarrow> find P xs = None"
  by (simp add: find_None_iff)

lemma find_replaced:
  assumes "\<And>x. P x \<Longrightarrow> \<not> Q x" and "P y" "P z"
  shows "find Q (pre @ y # suf) = find Q (pre @ z # suf)"
  by (induction pre) (use assms in auto)

lemma find_dropped:
  assumes "\<And>x. P x \<Longrightarrow> \<not> Q x" and "P y"
  shows "find Q (pre @ y # suf) = find Q (pre @ suf)"
  by (induction pre) (use assms in auto)

lemma ref_of_add:
  assumes "n \<le> MAX_ADDR_LEN"
  shows "ref_of n t (snd (hw_addr_add l a n t True)) k =
     (if take n k = take n a then ref_of n t l a + 1 else ref_of n t l k)"
proof (cases rule: first_match [where has = "hal l" and P = "ha_matches n t a"])
  case none
  have "\<not> ha_matches n t k x" if "take n k = take n a" "x \<in> set (hal l)" for x
    using that none by (auto simp: ha_matches_def)
  with none assms show ?thesis
    by (cases "find (ha_matches n t k) (hal l)")
       (auto simp: hw_addr_add_def hw_addr_add_ex_def add_scan_None hw_addr_create_ex_def
        ref_of_def find_miss find_skip ha_matches_def find_append_opt split: option.splits)
next
  case (hit pre ha suf)
  let ?ha = "ha\<lparr>refcount := refcount ha + 1\<rparr>"
  have l': "hal (snd (hw_addr_add l a n t True)) = pre @ ?ha # suf"
    using hit assms
    by (simp add: hw_addr_add_def hw_addr_add_ex_def add_scan_hit hw_addr_add_hit_def)
  have "ha_matches n t a ?ha" using hit(2) by (simp add: ha_matches_def)
  moreover have "find (ha_matches n t k) (pre @ ?ha # suf) = find (ha_matches n t k) (hal l)"
    if "take n k \<noteq> take n a"
    unfolding hit(1)
    by (rule find_replaced [where P = "ha_matches n t a"])
       (use that hit(2) in \<open>auto simp: ha_matches_def\<close>)
  moreover have "ha_matches n t k = ha_matches n t a" if "take n k = take n a"
    using that by (auto simp: ha_matches_def fun_eq_iff)
  ultimately show ?thesis
    using hit l' by (auto simp: ref_of_def find_skip)
qed

lemma ref_of_del:
  assumes wf: "hal_wf n l" and t: "t \<noteq> 0"
  shows "ref_of n t (snd (hw_addr_del l a n t)) k =
     (if take n k = take n a then max 0 (ref_of n t l a - 1) else ref_of n t l k)"
proof (cases rule: first_match [where has = "hal l" and P = "ha_matches n t a"])
  case none
  moreover have "ha_matches n t k = ha_matches n t a" if "take n k = take n a"
    using that by (auto simp: ha_matches_def fun_eq_iff)
  ultimately show ?thesis
    using t by (auto simp: hw_addr_del_def hw_addr_del_ex_def del_scan_None ref_of_def find_miss)
next
  case (hit pre ha suf)
  let ?ha = "ha\<lparr>refcount := refcount ha - 1\<rparr>"
  have ok: "1 \<le> refcount ha" using wf hit(1) by (auto simp: hal_wf_def ha_ok_def)
  have l': "hal (snd (hw_addr_del l a n t)) =
      (if refcount ha = 1 then pre @ suf else pre @ ?ha # suf)"
    using hit t by (simp add: hw_addr_del_def hw_addr_del_ex_def del_scan_hit hal_relink_def
        hw_addr_del_entry_def)
  have "ha_matches n t a ?ha" using hit(2) by (simp add: ha_matches_def)
  moreover have "\<forall>x \<in> set suf. \<not> ha_matches n t a x"
    using wf hit by (auto simp: hal_wf_def ha_matches_key image_iff)
  moreover have "find (ha_matches n t k) (pre @ ?ha # suf) = find (ha_matches n t k) (hal l)"
    "find (ha_matches n t k) (pre @ suf) = find (ha_matches n t k) (hal l)"
    if "take n k \<noteq> take n a"
    unfolding hit(1)
     apply (rule find_replaced [where P = "ha_matches n t a"])
       apply (use that hit(2) in \<open>auto simp: ha_matches_def\<close>)[3]
    apply (rule find_dropped [where P = "ha_matches n t a", symmetric])
     apply (use that hit(2) in \<open>auto simp: ha_matches_def\<close>)
    done
  moreover have "ha_matches n t k = ha_matches n t a" if "take n k = take n a"
    using that by (auto simp: ha_matches_def fun_eq_iff)
  ultimately show ?thesis
    using hit l' ok by (auto simp: ref_of_def find_skip find_miss)
qed

text \<open>The key of an address argument: its first \<open>ETH_ALEN\<close> bytes.\<close>

definition uc_refs :: "netdev_hw_addr_list \<Rightarrow> bytes \<Rightarrow> int" where
  "uc_refs l k = (if length k \<le> ETH_ALEN then ref_of ETH_ALEN NETDEV_HW_ADDR_T_UNICAST l k else 0)"

definition uc_add :: "bytes \<Rightarrow> netdev_hw_addr_list \<Rightarrow> netdev_hw_addr_list" where
  "uc_add a l = snd (hw_addr_add l a ETH_ALEN NETDEV_HW_ADDR_T_UNICAST True)"

definition uc_del :: "bytes \<Rightarrow> netdev_hw_addr_list \<Rightarrow> netdev_hw_addr_list" where
  "uc_del a l = snd (hw_addr_del l a ETH_ALEN NETDEV_HW_ADDR_T_UNICAST)"

lemma ref_of_take: "ref_of n t l (take n a) = ref_of n t l a"
  by (simp add: ref_of_def ha_matches_def [abs_def])

interpretation uc_table: refcounted_table uc_add uc_del "take ETH_ALEN" uc_refs "hal_wf ETH_ALEN"
proof
  fix s :: netdev_hw_addr_list and a :: bytes
  assume wf: "hal_wf ETH_ALEN s"
  have t: "NETDEV_HW_ADDR_T_UNICAST \<noteq> 0" by (simp add: NETDEV_HW_ADDR_T_UNICAST_def)
  show "hal_wf ETH_ALEN (uc_add a s)" "hal_wf ETH_ALEN (uc_del a s)"
    using hal_wf_add_ex [OF wf t] hal_wf_del_ex [OF wf t]
    by (simp_all add: uc_add_def uc_del_def hw_addr_add_def hw_addr_del_def)
  have n: "ETH_ALEN \<le> MAX_ADDR_LEN" by (simp add: ETH_ALEN_def MAX_ADDR_LEN_def)
  show "uc_refs (uc_add a s) = (uc_refs s)(take ETH_ALEN a := uc_refs s (take ETH_ALEN a) + 1)"
    by (auto simp: uc_refs_def uc_add_def ref_of_add [OF n] ref_of_take fun_eq_iff)
  show "uc_refs (uc_del a s) =
      (uc_refs s)(take ETH_ALEN a := max 0 (uc_refs s (take ETH_ALEN a) - 1))"
    by (auto simp: uc_refs_def uc_del_def ref_of_del [OF wf t] ref_of_take fun_eq_iff)
qed



section \<open>Promiscuous mode for secondary unicast addresses\<close>

datatype uc_op = Uc_add bytes bool | Uc_add_excl bytes bool | Uc_del bytes

fun uc_step :: "net_device \<Rightarrow> uc_op \<Rightarrow> net_device" where
  "uc_step dev (Uc_add a ok) = snd (dev_uc_add dev a ok)"
| "uc_step dev (Uc_add_excl a ok) = snd (dev_uc_add_excl dev a ok)"
| "uc_step dev (Uc_del a) = snd (dev_uc_del dev a)"

text \<open>
  \<open>b\<close> is the promiscuity asked for by others. The device is in promiscuous mode exactly when
  somebody asks for it, and the unicast list asks once while it is not empty.
\<close>

definition uc_promisc_ok :: "u32 \<Rightarrow> net_device \<Rightarrow> bool" where
  "uc_promisc_ok b dev \<longleftrightarrow>
     iff_up dev \<and> present dev \<and> \<not> iff_unicast_flt dev \<and> hal_wf (addr_len dev) (uc dev) \<and>
     (uc_promisc dev \<longleftrightarrow> hal (uc dev) \<noteq> []) \<and>
     promiscuity dev = b + of_bool (uc_promisc dev) \<and>
     (iff_promisc dev \<longleftrightarrow> promiscuity dev \<noteq> 0)"

definition uc_promisc_pre :: "u32 \<Rightarrow> net_device \<Rightarrow> bool" where
  "uc_promisc_pre b dev \<longleftrightarrow>
     iff_up dev \<and> present dev \<and> \<not> iff_unicast_flt dev \<and> hal_wf (addr_len dev) (uc dev) \<and>
     promiscuity dev = b + of_bool (uc_promisc dev) \<and>
     (iff_promisc dev \<longleftrightarrow> promiscuity dev \<noteq> 0)"

lemma rx_mode_promisc:
  assumes "uc_promisc_pre b dev" and "b \<noteq> - 1"
  shows "uc_promisc_ok b (dev_set_rx_mode dev)"
proof -
  have b: "b + 1 \<noteq> 0" using assms(2) by (metis add_eq_0_iff minus_equation_iff)
  have e: "hal_count (uc dev) = 0 \<longleftrightarrow> hal (uc dev) = []"
    using assms(1) by (auto simp: uc_promisc_pre_def hal_wf_def)
  show ?thesis
    using assms(1) b e
    by (auto simp: uc_promisc_pre_def uc_promisc_ok_def dev_set_rx_mode_def netdev_uc_empty_def
        dev_set_promiscuity_def dev_log_def Let_def)
qed

lemma uc_promisc_okD:
  "uc_promisc_ok b dev \<Longrightarrow> hal_wf (addr_len dev) l \<Longrightarrow> uc_promisc_pre b (dev\<lparr>uc := l\<rparr>)"
  by (auto simp: uc_promisc_ok_def uc_promisc_pre_def)

lemma add_ex_fail_unchanged:
  assumes "fst (hw_addr_add_ex l a n t False False 0 ok) \<noteq> None"
  shows "snd (hw_addr_add_ex l a n t False False 0 ok) = l"
proof (cases rule: first_match [where has = "hal l" and P = "ha_matches n t a"])
  case none
  then show ?thesis
    using assms by (auto simp: hw_addr_add_ex_def add_scan_None hw_addr_create_ex_def)
next
  case (hit pre ha suf)
  then show ?thesis
    using assms by (auto simp: hw_addr_add_ex_def add_scan_hit hw_addr_add_hit_def)
qed

lemma del_ex_fail_unchanged:
  assumes "t \<noteq> 0" and "fst (hw_addr_del_ex l a n t False False) \<noteq> None"
  shows "snd (hw_addr_del_ex l a n t False False) = l"
proof (cases rule: first_match [where has = "hal l" and P = "ha_matches n t a"])
  case none
  then show ?thesis using assms by (auto simp: hw_addr_del_ex_def del_scan_None)
next
  case (hit pre ha suf)
  then show ?thesis
    using assms
    by (auto simp: hw_addr_del_ex_def del_scan_hit hw_addr_del_entry_def split: if_splits)
qed

lemma uc_finish_promisc:
  assumes "uc_promisc_ok b dev" and "b \<noteq> - 1" and "hal_wf (addr_len dev) l"
    and "err \<noteq> None \<Longrightarrow> l = uc dev"
  shows "uc_promisc_ok b (snd (uc_finish dev (err, l)))"
  using assms rx_mode_promisc [OF uc_promisc_okD [OF assms(1,3)] assms(2)]
  by (cases err) (auto simp: uc_finish_def)

lemma uc_step_promisc:
  assumes ok: "uc_promisc_ok b dev" and b: "b \<noteq> - 1"
  shows "uc_promisc_ok b (uc_step dev op)"
proof -
  have wf: "hal_wf (addr_len dev) (uc dev)" using ok by (simp add: uc_promisc_ok_def)
  have t: "NETDEV_HW_ADDR_T_UNICAST \<noteq> 0" by (simp add: NETDEV_HW_ADDR_T_UNICAST_def)
  show ?thesis
  proof (cases op)
    case (Uc_add a ok')
    obtain e l where r: "hw_addr_add_ex (uc dev) a (addr_len dev) NETDEV_HW_ADDR_T_UNICAST
        False False 0 ok' = (e, l)" by fastforce
    have "hal_wf (addr_len dev) l" "e \<noteq> None \<Longrightarrow> l = uc dev"
      using r hal_wf_add_ex [OF wf t, of a False False 0 ok'] add_ex_fail_unchanged
      by (metis snd_conv, metis fst_conv snd_conv)
    then show ?thesis
      using uc_finish_promisc [OF ok b] r by (simp add: Uc_add dev_uc_add_def hw_addr_add_def)
  next
    case (Uc_add_excl a ok')
    show ?thesis
    proof (cases "\<exists>ha \<in> set (hal (uc dev)). mem_eq (addr_len dev) (ha_addr ha) a \<and>
           ha_type ha = NETDEV_HW_ADDR_T_UNICAST")
      case True
      then show ?thesis using ok by (simp add: Uc_add_excl dev_uc_add_excl_def)
    next
      case False
      obtain e l where r: "hw_addr_create_ex (uc dev) a (addr_len dev) NETDEV_HW_ADDR_T_UNICAST
          True False ok' = (e, l)" by fastforce
      have "hal_wf (addr_len dev) l"
        using r hal_wf_create_ex [OF wf t, of a True False ok'] False
        by (auto simp: ha_matches_def mem_eq_def)
      moreover have "e \<noteq> None \<Longrightarrow> l = uc dev"
        using r by (auto simp: hw_addr_create_ex_def split: if_splits)
      ultimately show ?thesis
        using uc_finish_promisc [OF ok b, of l e] r False
        by (auto simp: Uc_add_excl dev_uc_add_excl_def)
    qed
  next
    case (Uc_del a)
    obtain e l where r: "hw_addr_del_ex (uc dev) a (addr_len dev) NETDEV_HW_ADDR_T_UNICAST
        False False = (e, l)" by fastforce
    have "hal_wf (addr_len dev) l" "e \<noteq> None \<Longrightarrow> l = uc dev"
      using r hal_wf_del_ex [OF wf t, of a False False] del_ex_fail_unchanged [OF t]
      by (metis snd_conv, metis fst_conv snd_conv)
    then show ?thesis
      using uc_finish_promisc [OF ok b] r by (simp add: Uc_del dev_uc_del_def hw_addr_del_def)
  qed
qed


definition ex_dev :: net_device where
  "ex_dev = \<lparr>addr_len = 6, dev_addr = None, dev_addrs = hw_addr_init, uc = hw_addr_init,
     mc = hw_addr_init, iff_up = True, iff_promisc = False, iff_unicast_flt = False,
     present = True, has_set_rx_mode = True, uc_promisc = False, promiscuity = 0, calls = []\<rparr>"


text \<open>
  \<open>__hw_addr_add\<close> that succeeds, followed by \<open>__hw_addr_del\<close> of the same address and
  type, succeeds and restores the list, whether the address was there before or not.
\<close>

theorem hw_addr_add_del:
  assumes "hal_wf n l" and "t \<noteq> 0" and "hw_addr_add l addr n t ok = (None, l')"
  shows "hw_addr_del l' addr n t = (None, l)"
  using add_ex_then_del_ex [OF assms(1,2)] assms(3) by (simp add: hw_addr_add_def hw_addr_del_def)

theorem hw_addr_add_del_witness:
  "case hw_addr_add ex_from [2,0,0,0,0,9] 6 NETDEV_HW_ADDR_T_MULTICAST True of (e, l') \<Rightarrow>
     hw_addr_del l' [2,0,0,0,0,9] 6 NETDEV_HW_ADDR_T_MULTICAST = (None, ex_from) \<and>
     length (hal l') = 4"
proof -
  let ?r = "hw_addr_add ex_from [2,0,0,0,0,9] 6 NETDEV_HW_ADDR_T_MULTICAST True"
  have e: "fst ?r = None" "length (hal (snd ?r)) = 4"
    by (simp_all add: hw_addr_add_def hw_addr_add_ex_def ex_defs MAX_ADDR_LEN_def
        hw_addr_add_scan.simps mem_eq_def hw_addr_create_ex_def)
  have "hw_addr_del (snd ?r) [2,0,0,0,0,9] 6 NETDEV_HW_ADDR_T_MULTICAST = (None, ex_from)"
    by (rule hw_addr_add_del [where ok = True])
       (use e in \<open>auto simp: ex_defs prod_eq_iff\<close>)
  with e show ?thesis by (auto simp: prod.case_eq_if)
qed

end
