(* ===== verification/Linux_List.thy ===== *)
theory Linux_List
  imports Prelude
begin

text \<open>
  The doubly linked lists of \<open>include/linux/list.h\<close>, as a heap of links. A link that holds
  \<open>LIST_POISON1\<close> or \<open>LIST_POISON2\<close> is \<open>None\<close>; an operation that follows such a link faults and
  returns \<open>None\<close>. \<open>is_list h head xs\<close> says that the list with head \<open>head\<close> holds the entries \<open>xs\<close>.
  The lemmas show what each operation does to the list it is applied to, that it leaves all other
  lists alone, and what happens when an entry is added twice.
\<close>

section \<open>The operations\<close>

record 'n links =
  nxt :: "'n \<Rightarrow> 'n option"
  prv :: "'n \<Rightarrow> 'n option"

definition set_next :: "'n \<Rightarrow> 'n \<Rightarrow> 'n links \<Rightarrow> 'n links" where
  "set_next a b h = h\<lparr>nxt := (nxt h)(a := Some b)\<rparr>"

definition set_prev :: "'n \<Rightarrow> 'n \<Rightarrow> 'n links \<Rightarrow> 'n links" where
  "set_prev a b h = h\<lparr>prv := (prv h)(a := Some b)\<rparr>"

definition INIT_LIST_HEAD :: "'n \<Rightarrow> 'n links \<Rightarrow> 'n links" where
  "INIT_LIST_HEAD l h = set_prev l l (set_next l l h)"

definition list_add_between :: "'n \<Rightarrow> 'n \<Rightarrow> 'n \<Rightarrow> 'n links \<Rightarrow> 'n links" where
  "list_add_between new pr ne h =
     set_next pr new (set_prev new pr (set_next new ne (set_prev ne new h)))"

definition list_add :: "'n \<Rightarrow> 'n \<Rightarrow> 'n links \<Rightarrow> 'n links option" where
  "list_add new head h = (case nxt h head of None \<Rightarrow> None | Some n \<Rightarrow> Some (list_add_between new head n h))"

definition list_add_tail :: "'n \<Rightarrow> 'n \<Rightarrow> 'n links \<Rightarrow> 'n links option" where
  "list_add_tail new head h =
     (case prv h head of None \<Rightarrow> None | Some p \<Rightarrow> Some (list_add_between new p head h))"

definition list_del_between :: "'n \<Rightarrow> 'n \<Rightarrow> 'n links \<Rightarrow> 'n links" where
  "list_del_between pr ne h = set_next pr ne (set_prev ne pr h)"

definition list_del_entry :: "'n \<Rightarrow> 'n links \<Rightarrow> 'n links option" where
  "list_del_entry e h =
     (case (prv h e, nxt h e) of
        (Some p, Some n) \<Rightarrow> Some (list_del_between p n h)
      | _ \<Rightarrow> None)"

definition list_del :: "'n \<Rightarrow> 'n links \<Rightarrow> 'n links option" where
  "list_del e h =
     map_option (\<lambda>h1. h1\<lparr>nxt := (nxt h1)(e := None), prv := (prv h1)(e := None)\<rparr>)
       (list_del_entry e h)"

definition list_del_init :: "'n \<Rightarrow> 'n links \<Rightarrow> 'n links option" where
  "list_del_init e h = map_option (INIT_LIST_HEAD e) (list_del_entry e h)"

definition list_move :: "'n \<Rightarrow> 'n \<Rightarrow> 'n links \<Rightarrow> 'n links option" where
  "list_move e head h = (case list_del_entry e h of None \<Rightarrow> None | Some h1 \<Rightarrow> list_add e head h1)"

definition list_move_tail :: "'n \<Rightarrow> 'n \<Rightarrow> 'n links \<Rightarrow> 'n links option" where
  "list_move_tail e head h =
     (case list_del_entry e h of None \<Rightarrow> None | Some h1 \<Rightarrow> list_add_tail e head h1)"

definition list_empty :: "'n \<Rightarrow> 'n links \<Rightarrow> bool" where
  "list_empty head h \<longleftrightarrow> nxt h head = Some head"

definition list_rotate_left :: "'n \<Rightarrow> 'n links \<Rightarrow> 'n links option" where
  "list_rotate_left head h =
     (if list_empty head h then Some h
      else case nxt h head of None \<Rightarrow> None | Some f \<Rightarrow> list_move_tail f head h)"

definition list_splice_between :: "'n \<Rightarrow> 'n \<Rightarrow> 'n \<Rightarrow> 'n links \<Rightarrow> 'n links option" where
  "list_splice_between l pr ne h =
     (case (nxt h l, prv h l) of
        (Some f, Some la) \<Rightarrow>
          Some (set_prev ne la (set_next la ne (set_next pr f (set_prev f pr h))))
      | _ \<Rightarrow> None)"

definition list_splice_tail :: "'n \<Rightarrow> 'n \<Rightarrow> 'n links \<Rightarrow> 'n links option" where
  "list_splice_tail l head h =
     (if list_empty l h then Some h
      else case prv h head of None \<Rightarrow> None | Some p \<Rightarrow> list_splice_between l p head h)"

definition list_splice_tail_init :: "'n \<Rightarrow> 'n \<Rightarrow> 'n links \<Rightarrow> 'n links option" where
  "list_splice_tail_init l head h =
     (if list_empty l h then Some h
      else case prv h head of None \<Rightarrow> None
           | Some p \<Rightarrow> map_option (INIT_LIST_HEAD l) (list_splice_between l p head h))"

section \<open>Segments\<close>

text \<open>From \<open>p\<close> the links lead through \<open>xs\<close> to \<open>q\<close> and back.\<close>

fun lseg :: "'n links \<Rightarrow> 'n \<Rightarrow> 'n list \<Rightarrow> 'n \<Rightarrow> bool" where
  "lseg h p [] q \<longleftrightarrow> nxt h p = Some q \<and> prv h q = Some p"
| "lseg h p (x # xs) q \<longleftrightarrow> nxt h p = Some x \<and> prv h x = Some p \<and> lseg h x xs q"

definition is_list :: "'n links \<Rightarrow> 'n \<Rightarrow> 'n list \<Rightarrow> bool" where
  "is_list h l xs \<longleftrightarrow> distinct (l # xs) \<and> lseg h l xs l"

lemma lseg_append: "lseg h p (xs @ y # ys) q \<longleftrightarrow> lseg h p xs y \<and> lseg h y ys q"
  by (induction xs arbitrary: p) auto

lemma lseg_cong:
  "(\<And>a. a \<in> set (p # xs) \<Longrightarrow> nxt h' a = nxt h a) \<Longrightarrow>
   (\<And>a. a \<in> set (xs @ [q]) \<Longrightarrow> prv h' a = prv h a) \<Longrightarrow> lseg h' p xs q = lseg h p xs q"
  by (induction xs arbitrary: p) simp_all

lemma lseg_ends:
  "lseg h p xs q \<Longrightarrow> nxt h p = Some (hd (xs @ [q])) \<and> prv h q = Some (last (p # xs))"
  by (induction xs arbitrary: p) (auto split: if_splits)

lemma lseg_setters [simp]:
  "nxt (set_next a b h) = (nxt h)(a := Some b)" "prv (set_next a b h) = prv h"
  "prv (set_prev a b h) = (prv h)(a := Some b)" "nxt (set_prev a b h) = nxt h"
  by (simp_all add: set_next_def set_prev_def)

text \<open>Changing the last link of a segment, and its first.\<close>

lemma lseg_snoc_update:
  assumes "lseg h p xs q" "distinct (p # xs)" "q' \<notin> set xs" "q \<notin> set xs"
  shows "lseg (set_next (last (p # xs)) q' (set_prev q' (last (p # xs)) h)) p xs q'"
  using assms
proof (induction xs arbitrary: p)
  case (Cons x xs)
  let ?l = "last (x # xs)"
  let ?h = "set_next ?l q' (set_prev q' ?l h)"
  have "lseg ?h x xs q'" using Cons by simp
  moreover have "?l \<in> set (x # xs)" by (rule last_in_set) simp
  then have "?l \<noteq> p" using Cons.prems(2) by auto
  ultimately show ?case using Cons.prems by auto
qed simp

lemma lseg_cons_update:
  assumes "lseg h p xs q" "distinct (xs @ [q])" "p' \<notin> set xs"
  shows "lseg (set_next p' (hd (xs @ [q])) (set_prev (hd (xs @ [q])) p' h)) p' xs q"
proof (cases xs)
  case (Cons x ys)
  have "lseg (set_next p' x (set_prev x p' h)) x ys q = lseg h x ys q"
    by (rule lseg_cong) (use assms(2,3) Cons in auto)
  with assms(1) Cons show ?thesis by simp
qed simp

section \<open>What the operations do\<close>

lemma INIT_LIST_HEAD_empty: "is_list (INIT_LIST_HEAD l h) l []"
  by (simp add: is_list_def INIT_LIST_HEAD_def)

lemma list_add_between_lseg:
  assumes "lseg h p xs y" "lseg h y ys q" "n \<notin> set (p # xs @ y # ys @ [q])"
    "distinct (p # xs @ y # ys)" "q \<notin> set (xs @ y # ys)"
  shows "lseg (list_add_between n (last (p # xs)) y h) p (xs @ n # y # ys) q"
proof -
  let ?l = "last (p # xs)"
  let ?h = "list_add_between n ?l y h"
  have l: "?l \<in> set (p # xs)" by (rule last_in_set) simp
  have "lseg ?h p xs n"
  proof -
    have eq: "lseg ?h p xs n = lseg (set_next ?l n (set_prev n ?l h)) p xs n"
      by (rule lseg_cong) (use assms(3,4) in \<open>auto simp: list_add_between_def\<close>)
    show ?thesis unfolding eq
      by (rule lseg_snoc_update [OF assms(1)]) (use assms(3,4) in auto)
  qed
  moreover have "lseg ?h y ys q = lseg h y ys q"
    by (rule lseg_cong) (use assms(3,4,5) l in \<open>auto simp: list_add_between_def\<close>)
  moreover have "nxt ?h n = Some y" "prv ?h y = Some n"
    using assms(3,4) l by (auto simp: list_add_between_def)
  ultimately show ?thesis using assms(2) by (simp add: lseg_append)
qed

lemma list_add_tail_list:
  assumes "is_list h l xs" "n \<notin> set (l # xs)"
  shows "\<exists>h1. list_add_tail n l h = Some h1 \<and> is_list h1 l (xs @ [n])"
proof -
  have s: "lseg h l xs l" "distinct (l # xs)" using assms by (auto simp: is_list_def)
  let ?h = "list_add_between n (last (l # xs)) l h"
  let ?l = "last (l # xs)"
  have lin: "?l \<in> set (l # xs)" by (rule last_in_set) simp
  have eq: "lseg ?h l xs n = lseg (set_next ?l n (set_prev n ?l h)) l xs n"
    by (rule lseg_cong) (use assms(2) s(2) in \<open>auto simp: list_add_between_def\<close>)
  have "lseg ?h l xs n" unfolding eq
    by (rule lseg_snoc_update [OF s(1)]) (use assms(2) s(2) in auto)
  moreover have "nxt ?h n = Some l" "prv ?h l = Some n"
    using assms(2) lin by (auto simp: list_add_between_def)
  ultimately have "is_list ?h l (xs @ [n])"
    using s(2) assms(2) by (auto simp: is_list_def lseg_append)
  moreover have "list_add_tail n l h = Some ?h"
    using lseg_ends [OF s(1)] by (simp add: list_add_tail_def)
  ultimately show ?thesis by blast
qed

lemma list_del_entry_list:
  assumes "is_list h l xs" "x \<in> set xs"
  shows "\<exists>h1. list_del_entry x h = Some h1 \<and> is_list h1 l (remove1 x xs)"
proof -
  obtain as bs where xs: "xs = as @ x # bs" and x: "x \<notin> set as"
    using assms(2) by (metis split_list_first)
  have s: "lseg h l as x" "lseg h x bs l" "distinct (l # as @ x # bs)"
    using assms(1) by (auto simp: is_list_def xs lseg_append)
  let ?p = "last (l # as)" and ?n = "List.hd (bs @ [l])"
  let ?h = "list_del_between ?p ?n h"
  have e: "list_del_entry x h = Some ?h"
    using lseg_ends [OF s(1)] lseg_ends [OF s(2)] by (simp add: list_del_entry_def)
  have p: "?p \<in> set (l # as)" by (rule last_in_set) simp
  have "lseg ?h l (as @ bs) l"
  proof (cases bs)
    case Nil
    with s p show ?thesis using lseg_snoc_update [OF s(1), of l] by (auto simp: list_del_between_def)
  next
    case (Cons b cs)
    have eq: "lseg ?h l as b = lseg (set_next ?p b (set_prev b ?p h)) l as b"
      by (rule lseg_cong) (use Cons in \<open>auto simp: list_del_between_def\<close>)
    have "lseg ?h l as b" unfolding eq
      by (rule lseg_snoc_update [OF s(1)]) (use s(3) Cons in auto)
    moreover have "lseg ?h b cs l = lseg h b cs l"
      by (rule lseg_cong) (use s(3) p Cons in \<open>auto simp: list_del_between_def\<close>)
    ultimately show ?thesis using s(2) Cons by (simp add: lseg_append)
  qed
  moreover have "remove1 x xs = as @ bs" using x by (simp add: xs remove1_append)
  ultimately show ?thesis using e s(3) by (auto simp: is_list_def)
qed

text \<open>An operation touches only links of the entries it is given and their neighbours.\<close>

lemma is_list_frame:
  assumes "is_list h l xs" "\<And>a. a \<in> set (l # xs) \<Longrightarrow> nxt h' a = nxt h a \<and> prv h' a = prv h a"
  shows "is_list h' l xs"
proof -
  have "lseg h' l xs l = lseg h l xs l" by (rule lseg_cong) (use assms(2) in auto)
  with assms(1) show ?thesis by (simp add: is_list_def)
qed

lemma list_del_list:
  assumes "is_list h l xs" "x \<in> set xs"
  shows "\<exists>h1. list_del x h = Some h1 \<and> is_list h1 l (remove1 x xs)"
proof -
  obtain h1 where h1: "list_del_entry x h = Some h1" "is_list h1 l (remove1 x xs)"
    using list_del_entry_list [OF assms] by blast
  have "distinct (l # xs)" using assms(1) by (simp add: is_list_def)
  then have "is_list (h1\<lparr>nxt := (nxt h1)(x := None), prv := (prv h1)(x := None)\<rparr>) l (remove1 x xs)"
    using assms(2) by (intro is_list_frame [OF h1(2)]) auto
  with h1(1) show ?thesis by (simp add: list_del_def)
qed

lemma list_del_init_list:
  assumes "is_list h l xs" "x \<in> set xs"
  shows "\<exists>h1. list_del_init x h = Some h1 \<and> is_list h1 l (remove1 x xs) \<and> is_list h1 x []"
proof -
  obtain h1 where h1: "list_del_entry x h = Some h1" "is_list h1 l (remove1 x xs)"
    using list_del_entry_list [OF assms] by blast
  have "distinct (l # xs)" using assms(1) by (simp add: is_list_def)
  then have "is_list (INIT_LIST_HEAD x h1) l (remove1 x xs)"
    using assms(2) by (intro is_list_frame [OF h1(2)]) (auto simp: INIT_LIST_HEAD_def)
  with h1(1) show ?thesis by (simp add: list_del_init_def INIT_LIST_HEAD_empty)
qed

lemma list_move_tail_list:
  assumes "is_list h l xs" "x \<in> set xs"
  shows "\<exists>h1. list_move_tail x l h = Some h1 \<and> is_list h1 l (remove1 x xs @ [x])"
proof -
  obtain h1 where h1: "list_del_entry x h = Some h1" "is_list h1 l (remove1 x xs)"
    using list_del_entry_list [OF assms] by blast
  have "distinct (l # xs)" using assms(1) by (simp add: is_list_def)
  then have "x \<notin> set (l # remove1 x xs)" using assms(2) by auto
  from list_add_tail_list [OF h1(2) this] h1(1) show ?thesis
    by (auto simp: list_move_tail_def)
qed

lemma list_empty_iff: "is_list h l xs \<Longrightarrow> list_empty l h \<longleftrightarrow> xs = []"
  by (cases xs) (auto simp: is_list_def list_empty_def)

lemma list_rotate_left_list:
  assumes "is_list h l xs"
  shows "\<exists>h1. list_rotate_left l h = Some h1 \<and> is_list h1 l (rotate1 xs)"
proof (cases xs)
  case Nil
  with assms list_empty_iff [OF assms] show ?thesis by (simp add: list_rotate_left_def)
next
  case (Cons x ys)
  have "nxt h l = Some x" using assms Cons by (simp add: is_list_def)
  with Cons list_empty_iff [OF assms] list_move_tail_list [OF assms, of x] show ?thesis
    by (simp add: list_rotate_left_def)
qed

lemma first_entry: "is_list h l xs \<Longrightarrow> nxt h l = Some (hd (xs @ [l]))"
  using lseg_ends [of h l xs l] by (simp add: is_list_def)

lemma next_entry:
  "is_list h l (as @ x # bs) \<Longrightarrow> nxt h x = Some (hd (bs @ [l]))"
  using lseg_ends [of h x bs l] by (simp add: is_list_def lseg_append)

lemma list_splice_tail_init_list:
  assumes "is_list h l xs" "is_list h m ys" "distinct (l # xs @ m # ys)"
  shows "\<exists>h1. list_splice_tail_init l m h = Some h1 \<and> is_list h1 m (ys @ xs) \<and> is_list h1 l []"
proof (cases xs)
  case Nil
  with assms list_empty_iff [OF assms(1)] show ?thesis by (auto simp: list_splice_tail_init_def)
next
  case (Cons x zs)
  have s: "nxt h l = Some x" "prv h x = Some l" "lseg h x zs l" "lseg h m ys m"
    using assms Cons by (auto simp: is_list_def)
  define p a where "p = last (m # ys)" and "a = last (x # zs)"
  have pa: "p \<in> set (m # ys)" "a \<in> set (x # zs)" unfolding p_def a_def by (rule last_in_set, simp)+
  have d: "l \<noteq> m" "m \<notin> set ys" "m \<notin> set (x # zs)" "set (x # zs) \<inter> set (m # ys) = {}"
    "x \<notin> set zs" "l \<notin> set (x # zs)" "l \<notin> set ys" "distinct (m # ys)" "distinct (x # zs)"
    using assms(3) Cons by auto
  let ?h = "set_prev m a (set_next a m (set_next p x (set_prev x p h)))"
  have r: "list_splice_tail_init l m h = Some (INIT_LIST_HEAD l ?h)"
    using list_empty_iff [OF assms(1)] Cons s(1) lseg_ends [OF s(3)] lseg_ends [OF s(4)]
    by (simp add: list_splice_tail_init_def list_splice_between_def p_def a_def)
  have e1: "lseg ?h m ys x = lseg (set_next p x (set_prev x p h)) m ys x"
    by (rule lseg_cong) (use d pa in auto)
  have "lseg ?h m ys x" unfolding e1 unfolding p_def
    by (rule lseg_snoc_update [OF s(4)]) (use d in auto)
  moreover have e2: "lseg ?h x zs m = lseg (set_next a m (set_prev m a h)) x zs m"
    by (rule lseg_cong) (use d pa in auto)
  have "lseg ?h x zs m" unfolding e2 unfolding a_def
    by (rule lseg_snoc_update [OF s(3)]) (use d in auto)
  ultimately have "is_list ?h m (ys @ xs)"
    using d Cons by (auto simp: is_list_def lseg_append)
  then have "is_list (INIT_LIST_HEAD l ?h) m (ys @ xs)"
    by (rule is_list_frame) (use d Cons in \<open>auto simp: INIT_LIST_HEAD_def\<close>)
  with r show ?thesis by (simp add: INIT_LIST_HEAD_empty)
qed

text \<open>
  Property C16: the list operations of \<open>include/linux/list.h\<close> implement lists. On a well-formed
  list with entries \<open>xs\<close>, adding an entry that is not on it at the tail, deleting an entry (also
  with re-initialisation), moving one to the tail, rotating and splicing another list to its tail
  do not fault and leave well-formed lists with the entries that the corresponding functions on
  lists give.
\<close>

theorem list_ops_refine:
  assumes l: "is_list h l xs" and m: "is_list h m ys" and d: "distinct (l # xs @ m # ys)"
    and n: "n \<notin> set (l # xs)" and x: "x \<in> set xs"
  shows "(\<exists>h1. list_add_tail n l h = Some h1 \<and> is_list h1 l (xs @ [n])) \<and>
    (\<exists>h1. list_del x h = Some h1 \<and> is_list h1 l (remove1 x xs)) \<and>
    (\<exists>h1. list_del_init x h = Some h1 \<and> is_list h1 l (remove1 x xs) \<and> is_list h1 x []) \<and>
    (\<exists>h1. list_move_tail x l h = Some h1 \<and> is_list h1 l (remove1 x xs @ [x])) \<and>
    (\<exists>h1. list_rotate_left l h = Some h1 \<and> is_list h1 l (rotate1 xs)) \<and>
    (\<exists>h1. list_splice_tail_init l m h = Some h1 \<and> is_list h1 m (ys @ xs) \<and> is_list h1 l []) \<and>
    (list_empty l h \<longleftrightarrow> xs = [])"
  by (intro conjI list_add_tail_list [OF l n] list_del_list [OF l x] list_del_init_list [OF l x]
      list_move_tail_list [OF l x] list_rotate_left_list [OF l]
      list_splice_tail_init_list [OF l m d] list_empty_iff [OF l])

definition demo_links :: "nat links" where
  "demo_links = \<lparr>nxt = (\<lambda>n. if n = 0 then Some 2 else if n = 1 then Some 4 else if n = 2 then Some 3
       else if n = 3 then Some 0 else if n = 4 then Some 1 else None),
     prv = (\<lambda>n. if n = 0 then Some 3 else if n = 1 then Some 4 else if n = 2 then Some 0
       else if n = 3 then Some 2 else if n = 4 then Some 1 else None)\<rparr>"

theorem list_ops_refine_witness:
  "(\<exists>h1. list_add_tail 5 0 demo_links = Some h1 \<and> is_list h1 0 [2, 3, 5]) \<and>
   (\<exists>h1. list_splice_tail_init 0 1 demo_links = Some h1 \<and> is_list h1 1 [4, 2, 3] \<and> is_list h1 0 [])"
  using list_ops_refine [of demo_links 0 "[2, 3]" 1 "[4]" 5 2]
  by (simp add: is_list_def demo_links_def)

text \<open>
  Walking a list forward (\<open>list_for_each\<close>), from the entry \<open>p\<close> to the head \<open>l\<close>: \<open>None\<close> when the walk
  meets a poisoned link or has not come back to the head after \<open>fuel\<close> entries.
\<close>

fun list_walk :: "nat \<Rightarrow> 'n links \<Rightarrow> 'n \<Rightarrow> 'n \<Rightarrow> 'n list option" where
  "list_walk 0 h l p = None"
| "list_walk (Suc fuel) h l p =
     (case nxt h p of
        None \<Rightarrow> None
      | Some q \<Rightarrow> if q = l then Some [] else map_option ((#) q) (list_walk fuel h l q))"

lemma list_walk_list:
  "lseg h p xs l \<Longrightarrow> l \<notin> set xs \<Longrightarrow> length xs < fuel \<Longrightarrow> list_walk fuel h l p = Some xs"
proof (induction xs arbitrary: p fuel)
  case Nil
  then show ?case by (cases fuel) auto
next
  case (Cons x xs)
  then show ?case by (cases fuel) auto
qed

lemma list_walk_prefix:
  "lseg h p as x \<Longrightarrow> l \<notin> set (as @ [x]) \<Longrightarrow> \<forall>a \<in> set (p # as). nxt h' a = nxt h a \<Longrightarrow>
   nxt h' x = Some l \<Longrightarrow> Suc (length as) < fuel \<Longrightarrow> list_walk fuel h' l p = Some (as @ [x])"
proof (induction "as" arbitrary: p fuel)
  case Nil
  then obtain k where "fuel = Suc (Suc k)" by (cases fuel; cases "fuel - 1") auto
  with Nil show ?case by simp
next
  case (Cons a "as")
  then show ?case by (cases fuel) auto
qed

lemma list_walk_loop: "nxt h x = Some x \<Longrightarrow> x \<noteq> l \<Longrightarrow> list_walk fuel h l x = None"
  by (induction fuel) auto

lemma list_walk_to_loop:
  "lseg h p as x \<Longrightarrow> l \<notin> set (as @ [x]) \<Longrightarrow> \<forall>a \<in> set (p # as). nxt h' a = nxt h a \<Longrightarrow>
   nxt h' x = Some x \<Longrightarrow> list_walk fuel h' l p = None"
proof (induction "as" arbitrary: p fuel)
  case Nil
  then show ?case by (cases fuel) (auto simp: list_walk_loop)
next
  case (Cons a "as")
  then show ?case by (cases fuel) auto
qed

text \<open>
  Adding an entry to the tail of a list it is already on breaks the list. A walk
  from the head then ends at the entry and no longer meets the entries that were behind it; if
  the entry was the last one, the walk never comes back to the head.
\<close>

theorem list_double_add_tail:
  assumes "is_list h l (as @ x # bs)"
  shows "\<exists>h1. list_add_tail x l h = Some h1 \<and>
    (if bs = [] then \<forall>fuel. list_walk fuel h1 l l = None
     else \<forall>fuel > Suc (length as). list_walk fuel h1 l l = Some (as @ [x]))"
proof -
  have s: "lseg h l as x" "lseg h x bs l" "distinct (l # as @ x # bs)"
    using assms by (auto simp: is_list_def lseg_append)
  let ?p = "last (x # bs)"
  let ?h = "list_add_between x ?p l h"
  have add: "list_add_tail x l h = Some ?h"
    using lseg_ends [OF s(2)] by (simp add: list_add_tail_def)
  have p: "?p \<in> set (x # bs)" by (rule last_in_set) simp
  have keep: "\<forall>a \<in> set (l # as). nxt ?h a = nxt h a"
    using s(3) p by (auto simp: list_add_between_def)
  have "if bs = [] then nxt ?h x = Some x else nxt ?h x = Some l"
    using s(3) p by (auto simp: list_add_between_def)
  then show ?thesis
    using add list_walk_to_loop [OF s(1) _ keep] list_walk_prefix [OF s(1) _ keep] s(3)
    by (auto split: if_splits)
qed

theorem list_double_add_tail_witness:
  "\<exists>h1. list_add_tail 2 0 demo_links = Some h1 \<and> (\<forall>fuel > 1. list_walk fuel h1 0 0 = Some [2])"
  using list_double_add_tail [of demo_links 0 "[]" 2 "[3]"] by (simp add: is_list_def demo_links_def)

end
