(* ===== verification/Workqueue.thy ===== *)
theory Workqueue
  imports Linux_List "HOL-Library.Sublist"
begin

text \<open>
  Model of the deferred-work layer of the port: work queues and delayed work
  (\<open>include/linux/workqueue.c\<close>), their timers (\<open>include/linux/timer.c\<close>) and tasklets
  (\<open>include/linux/task.c\<close>, \<open>task.h\<close>).

  A work queue is a heap of list links with the head \<open>Head\<close>, the pending bits, the armed timers
  and the position of the worker thread in \<open>queue_work_run\<close>. Each step of a thread between two
  releases of the queue's mutex is atomic, every read of a link outside the mutex is a step of its
  own. IOKit's \<open>IORecursiveLockWakeup\<close> wakes the worker if it sleeps and is forgotten otherwise.
  \<open>timer_pending\<close> depends on the thread that calls it (\<open>onThread\<close>), so its result is an argument of
  the operations that read it. The fields \<open>asked\<close> and \<open>ran\<close> are histories: the work items put on the
  list and the items whose function was started, in order. \<open>None\<close> is a panic (a poisoned link
  followed, a failed \<open>BUG_ON\<close>).
\<close>

section \<open>Work queues\<close>

datatype node = Head | Entry nat

text \<open>
  Where the worker is in \<open>list_for_each_entry_safe(work, tmp, ...)\<close>: before the first entry is
  read; \<open>work\<close> read but not \<open>tmp\<close>; at the loop test; running the function of a work item, with
  \<open>tmp\<close>; after the loop; asleep in \<open>workqueue_cond_wait\<close>.
\<close>

datatype worker = Fetch | Got node | At node node | Running nat node | Ending | Asleep

record wq_state =
  wq_links :: "node links"
  work_pending :: "nat \<Rightarrow> bool"
  armed :: "nat \<Rightarrow> u64 option"
  wq_worker :: worker
  asked :: "nat list"
  ran :: "nat list"

definition jiffies :: u64 where "jiffies = 1"

definition alloc_workqueue :: wq_state where
  "alloc_workqueue = \<lparr>wq_links = INIT_LIST_HEAD Head \<lparr>nxt = (\<lambda>_. None), prv = (\<lambda>_. None)\<rparr>,
     work_pending = (\<lambda>_. False), armed = (\<lambda>_. None), wq_worker = Fetch, asked = [], ran = []\<rparr>"

definition queue_work_locked :: "nat \<Rightarrow> wq_state \<Rightarrow> wq_state option" where
  "queue_work_locked w s =
     map_option (\<lambda>l. s\<lparr>wq_links := l,
                        wq_worker := (if wq_worker s = Asleep then Fetch else wq_worker s),
                        asked := asked s @ [w]\<rparr>)
       (list_add_tail (Entry w) Head (wq_links s))"

definition queue_work_on :: "nat \<Rightarrow> wq_state \<Rightarrow> (bool \<times> wq_state) option" where
  "queue_work_on w s =
     (if work_pending s w then Some (False, s)
      else map_option (\<lambda>s1. (True, s1))
             (queue_work_locked w (s\<lparr>work_pending := (work_pending s)(w := True)\<rparr>)))"

text \<open>The timers. \<open>setTimeoutMS\<close> replaces the time the timer was armed with.\<close>

definition mod_timer :: "nat \<Rightarrow> u64 \<Rightarrow> wq_state \<Rightarrow> wq_state" where
  "mod_timer w ms s = s\<lparr>armed := (armed s)(w := Some ms)\<rparr>"

definition add_timer :: "bool \<Rightarrow> nat \<Rightarrow> u64 \<Rightarrow> wq_state \<Rightarrow> wq_state option" where
  "add_timer timer_pending w expires s = (if timer_pending then None else Some (mod_timer w expires s))"

definition add_timer_on :: "bool \<Rightarrow> nat \<Rightarrow> wq_state \<Rightarrow> wq_state option" where
  "add_timer_on timer_pending w s = (if timer_pending then None else Some (mod_timer w 0 s))"

definition del_timer :: "bool \<Rightarrow> nat \<Rightarrow> wq_state \<Rightarrow> bool \<times> wq_state" where
  "del_timer timer_pending w s =
     (False, if timer_pending then s\<lparr>armed := (armed s)(w := None)\<rparr> else s)"

text \<open>The callback of the timer of a delayed work item: the timer is no longer armed.\<close>

definition delayed_work_timer_fn :: "nat \<Rightarrow> wq_state \<Rightarrow> wq_state option" where
  "delayed_work_timer_fn w s = queue_work_locked w (s\<lparr>armed := (armed s)(w := None)\<rparr>)"

definition queue_delayed_work_locked ::
  "bool \<Rightarrow> bool \<Rightarrow> nat \<Rightarrow> u64 \<Rightarrow> wq_state \<Rightarrow> wq_state option"
where
  "queue_delayed_work_locked timer_pending cpu_unbound w delay s =
     (if delay = 0 then queue_work_locked w s
      else if \<not> cpu_unbound then add_timer_on timer_pending w s
      else add_timer timer_pending w (jiffies + delay) s)"

definition queue_delayed_work_on ::
  "bool \<Rightarrow> bool \<Rightarrow> nat \<Rightarrow> u64 \<Rightarrow> wq_state \<Rightarrow> (bool \<times> wq_state) option"
where
  "queue_delayed_work_on timer_pending cpu_unbound w delay s =
     (if work_pending s w then Some (False, s)
      else map_option (\<lambda>s1. (True, s1))
             (queue_delayed_work_locked timer_pending cpu_unbound w delay
                (s\<lparr>work_pending := (work_pending s)(w := True)\<rparr>)))"

text \<open>1 when the item was pending, 0 when it was idle and is claimed; never an error.\<close>

definition try_to_grab_pending :: "bool \<Rightarrow> nat \<Rightarrow> bool \<Rightarrow> wq_state \<Rightarrow> int \<times> wq_state" where
  "try_to_grab_pending timer_pending w is_dwork s =
     (let (deleted, s1) = (if is_dwork then del_timer timer_pending w s else (False, s))
      in if deleted then (1, s1)
         else if \<not> work_pending s1 w then (0, s1\<lparr>work_pending := (work_pending s1)(w := True)\<rparr>)
         else (1, s1))"

definition mod_delayed_work_on ::
  "bool \<Rightarrow> bool \<Rightarrow> nat \<Rightarrow> u64 \<Rightarrow> wq_state \<Rightarrow> (bool \<times> wq_state) option"
where
  "mod_delayed_work_on timer_pending cpu_unbound w delay s =
     (case try_to_grab_pending timer_pending w True s of (ret, s1) \<Rightarrow>
        if ret \<ge> 0
        then map_option (\<lambda>s2. (ret \<noteq> 0, s2))
               (queue_delayed_work_locked timer_pending cpu_unbound w delay s1)
        else Some (ret \<noteq> 0, s1))"

text \<open>Cancelling and flushing: the bodies are commented out, what is left returns true.\<close>

definition cancel_work :: "bool \<Rightarrow> nat \<Rightarrow> wq_state \<Rightarrow> bool \<times> wq_state" where
  "cancel_work is_dwork w s = (True, s)"

definition cancel_work_timer :: "bool \<Rightarrow> nat \<Rightarrow> wq_state \<Rightarrow> bool \<times> wq_state" where
  "cancel_work_timer is_dwork w s = (True, s)"

definition cancel_delayed_work :: "nat \<Rightarrow> wq_state \<Rightarrow> bool \<times> wq_state" where
  "cancel_delayed_work w s = cancel_work True w s"

definition cancel_delayed_work_sync :: "nat \<Rightarrow> wq_state \<Rightarrow> bool \<times> wq_state" where
  "cancel_delayed_work_sync w s = cancel_work_timer True w s"

definition cancel_work_sync :: "nat \<Rightarrow> wq_state \<Rightarrow> bool \<times> wq_state" where
  "cancel_work_sync w s = cancel_work_timer False w s"

definition flush_work :: "bool \<Rightarrow> nat \<Rightarrow> wq_state \<Rightarrow> bool \<times> wq_state" where
  "flush_work has_func w s = (has_func, s)"

definition flush_delayed_work :: "bool \<Rightarrow> bool \<Rightarrow> nat \<Rightarrow> wq_state \<Rightarrow> (bool \<times> wq_state) option" where
  "flush_delayed_work timer_pending has_func w s =
     (case del_timer timer_pending w s of
        (True, s1) \<Rightarrow> map_option (flush_work has_func w) (queue_work_locked w s1)
      | (False, s1) \<Rightarrow> Some (flush_work has_func w s1))"

text \<open>One step of the worker thread; \<open>None\<close> when it sleeps or faults.\<close>

definition worker_step :: "wq_state \<Rightarrow> wq_state option" where
  "worker_step s =
     (case wq_worker s of
        Fetch \<Rightarrow> map_option (\<lambda>p. s\<lparr>wq_worker := Got p\<rparr>) (nxt (wq_links s) Head)
      | Got p \<Rightarrow> map_option (\<lambda>n. s\<lparr>wq_worker := At p n\<rparr>) (nxt (wq_links s) p)
      | At Head n \<Rightarrow> Some (s\<lparr>wq_worker := Ending\<rparr>)
      | At (Entry w) n \<Rightarrow>
          map_option (\<lambda>l. s\<lparr>wq_links := l, work_pending := (work_pending s)(w := False),
                            wq_worker := Running w n, ran := ran s @ [w]\<rparr>)
            (list_del (Entry w) (wq_links s))
      | Running w n \<Rightarrow> Some (s\<lparr>wq_worker := Got n\<rparr>)
      | Ending \<Rightarrow> Some (s\<lparr>wq_worker := Asleep\<rparr>)
      | Asleep \<Rightarrow> None)"

fun worker_steps :: "nat \<Rightarrow> wq_state \<Rightarrow> wq_state" where
  "worker_steps 0 s = s"
| "worker_steps (Suc k) s = (case worker_step s of None \<Rightarrow> s | Some s1 \<Rightarrow> worker_steps k s1)"

text \<open>
  The interleavings: any thread queues work, timers fire, the worker steps. \<open>wq_step\<close> has
  \<open>mod_delayed_work_on\<close> only for an item that is idle or waiting for its timer and then with a
  delay; \<open>wq_step_mod\<close> has it without restriction.
\<close>

inductive wq_step :: "wq_state \<Rightarrow> wq_state \<Rightarrow> bool" where
  queue: "queue_work_on w s = Some (r, s1) \<Longrightarrow> wq_step s s1"
| delayed: "queue_delayed_work_on tp cpu w delay s = Some (r, s1) \<Longrightarrow> wq_step s s1"
| modify: "mod_delayed_work_on tp cpu w delay s = Some (r, s1) \<Longrightarrow>
    \<not> work_pending s w \<or> (armed s w \<noteq> None \<and> delay \<noteq> 0) \<Longrightarrow> wq_step s s1"
| fire: "armed s w \<noteq> None \<Longrightarrow> delayed_work_timer_fn w s = Some s1 \<Longrightarrow> wq_step s s1"
| cancel: "cancel_delayed_work_sync w s = (r, s1) \<Longrightarrow> wq_step s s1"
| work: "worker_step s = Some s1 \<Longrightarrow> wq_step s s1"

inductive wq_step_mod :: "wq_state \<Rightarrow> wq_state \<Rightarrow> bool" where
  step: "wq_step s s1 \<Longrightarrow> wq_step_mod s s1"
| mod_any: "mod_delayed_work_on tp cpu w delay s = Some (r, s1) \<Longrightarrow> wq_step_mod s s1"

inductive_cases wq_stepE: "wq_step s s1"

definition wq_entries :: "wq_state \<Rightarrow> nat list" where
  "wq_entries s =
     (case list_walk (Suc (length (asked s))) (wq_links s) Head Head of
        None \<Rightarrow> []
      | Some ns \<Rightarrow> map (\<lambda>n. case n of Entry w \<Rightarrow> w | Head \<Rightarrow> 0) ns)"

section \<open>Tasklets\<close>

text \<open>
  The thread of \<open>tasklet_action_common\<close>: about to take the lock; sleeping; running a tasklet.
  \<open>adding\<close> holds the tasklets whose bit is set by a \<open>tasklet_schedule\<close> that has not yet taken the
  lock.
\<close>

datatype tq_thread = Loop | Sleeping | Func nat

record tq_state =
  tq_list :: "nat list"
  sched :: "nat \<Rightarrow> bool"
  adding :: "nat list"
  tq_thread :: tq_thread
  t_asked :: "nat list"
  t_ran :: "nat list"

definition taskletq_create :: tq_state where
  "taskletq_create = \<lparr>tq_list = [], sched = (\<lambda>_. False), adding = [], tq_thread = Loop,
     t_asked = [], t_ran = []\<rparr>"

text \<open>\<open>tasklet_schedule\<close>: the bit operation, then \<open>__tasklet_schedule\<close> under the lock.\<close>

definition tasklet_schedule :: "nat \<Rightarrow> tq_state \<Rightarrow> tq_state" where
  "tasklet_schedule t s =
     (if sched s t then s
      else s\<lparr>sched := (sched s)(t := True), adding := t # adding s\<rparr>)"

definition tasklet_schedule_locked :: "nat \<Rightarrow> tq_state \<Rightarrow> tq_state" where
  "tasklet_schedule_locked t s =
     s\<lparr>tq_list := tq_list s @ [t], adding := remove1 t (adding s),
       tq_thread := (if tq_thread s = Sleeping then Loop else tq_thread s),
       t_asked := t_asked s @ [t]\<rparr>"

text \<open>\<open>__tasklet_kill\<close>. \<open>TAILQ_REMOVE\<close> of an element that is not on the list is a panic.\<close>

definition tasklet_kill :: "nat \<Rightarrow> tq_state \<Rightarrow> tq_state option" where
  "tasklet_kill t s =
     (if \<not> sched s t then Some s
      else if t \<notin> set (tq_list s) then None
      else Some (s\<lparr>tq_list := remove1 t (tq_list s), sched := (sched s)(t := False),
                   t_asked := take (length (t_ran s)) (t_asked s) @ remove1 t (tq_list s)\<rparr>))"

text \<open>
  One step of the thread: with the lock held, sleep while the list is empty, else take the first
  tasklet and clear its bit; then run it without the lock.
\<close>

definition tasklet_action_step :: "tq_state \<Rightarrow> tq_state option" where
  "tasklet_action_step s =
     (case tq_thread s of
        Loop \<Rightarrow> (case tq_list s of
                   [] \<Rightarrow> Some (s\<lparr>tq_thread := Sleeping\<rparr>)
                 | t # ts \<Rightarrow> Some (s\<lparr>tq_list := ts, sched := (sched s)(t := False),
                                      tq_thread := Func t, t_ran := t_ran s @ [t]\<rparr>))
      | Sleeping \<Rightarrow> None
      | Func t \<Rightarrow> Some (s\<lparr>tq_thread := Loop\<rparr>))"

inductive tq_step :: "tq_state \<Rightarrow> tq_state \<Rightarrow> bool" where
  schedule: "tq_step s (tasklet_schedule t s)"
| insert: "t \<in> set (adding s) \<Longrightarrow> tq_step s (tasklet_schedule_locked t s)"
| kill: "tasklet_kill t s = Some s1 \<Longrightarrow> tq_step s s1"
| action: "tasklet_action_step s = Some s1 \<Longrightarrow> tq_step s s1"

inductive_cases tq_stepE: "tq_step s s1"

section \<open>What the users of both queues rely on\<close>

text \<open>
  A queue whose steps keep an invariant under which the items asked for are those started so far,
  in order, followed by those waiting, and which only ever starts what is first in line.
\<close>

locale fifo_executor =
  fixes step :: "'s \<Rightarrow> 's \<Rightarrow> bool"
    and inv :: "'s \<Rightarrow> bool"
    and waiting :: "'s \<Rightarrow> nat list"
    and requested :: "'s \<Rightarrow> nat list"
    and started :: "'s \<Rightarrow> nat list"
    and pending :: "'s \<Rightarrow> nat \<Rightarrow> bool"
  assumes inv_step: "step s s1 \<Longrightarrow> inv s \<Longrightarrow> inv s1"
    and inv_split: "inv s \<Longrightarrow> requested s = started s @ waiting s"
    and inv_distinct: "inv s \<Longrightarrow> distinct (waiting s)"
    and inv_pending: "inv s \<Longrightarrow> w \<in> set (waiting s) \<Longrightarrow> pending s w"
    and started_step: "step s s1 \<Longrightarrow> inv s \<Longrightarrow>
       started s1 = started s \<or> (\<exists>w. started s1 = started s @ [w] \<and> waiting s = w # waiting s1)"
begin

lemma inv_steps: "step\<^sup>*\<^sup>* s s1 \<Longrightarrow> inv s \<Longrightarrow> inv s1"
  by (induction rule: rtranclp_induct) (auto intro: inv_step)

lemma started_prefix: "step\<^sup>*\<^sup>* s s1 \<Longrightarrow> inv s \<Longrightarrow> prefix (started s) (started s1)"
proof (induction rule: rtranclp_induct)
  case (step s1 s2)
  have "prefix (started s1) (started s2)"
    using started_step [OF step.hyps(2) inv_steps [OF step.hyps(1) step.prems]] by auto
  with step show ?case by (auto intro: prefix_order.trans)
qed simp

lemma in_order:
  assumes "step\<^sup>*\<^sup>* s s1" "inv s"
  shows "requested s1 = started s1 @ waiting s1" "distinct (waiting s1)"
    "prefix (started s) (started s1)" "\<forall>w \<in> set (waiting s1). pending s1 w"
proof -
  have i: "inv s1" by (rule inv_steps [OF assms])
  show "requested s1 = started s1 @ waiting s1" by (rule inv_split [OF i])
  show "distinct (waiting s1)" by (rule inv_distinct [OF i])
  show "prefix (started s) (started s1)" by (rule started_prefix [OF assms])
  show "\<forall>w \<in> set (waiting s1). pending s1 w" using inv_pending [OF i] by blast
qed

end

end
