(* ===== verification/Jiffies.thy ===== *)
theory Jiffies
  imports Workqueue
begin

text \<open>
  The clock of \<open>include/linux/jiffies.h\<close> and the comparisons of times of \<open>timer.h\<close>, which are right for times that are
  less than half of the range apart. The value \<open>jiffies\<close> of the port is constant.
\<close>

definition HZ :: u64 where "HZ = 1000"

definition time_before :: "u64 \<Rightarrow> u64 \<Rightarrow> bool" where "time_before a b \<longleftrightarrow> sint (a - b) < 0"
definition time_after :: "u64 \<Rightarrow> u64 \<Rightarrow> bool" where "time_after a b \<longleftrightarrow> sint (b - a) < 0"

definition usecs_to_jiffies :: "u32 \<Rightarrow> u64" where "usecs_to_jiffies u = (ucast u + 999) div 1000"
definition msecs_to_jiffies :: "u32 \<Rightarrow> u64" where "msecs_to_jiffies m = ucast m"

end
