(* ===== verification/Reorder.thy ===== *)
theory Reorder
  imports Jiffies
begin

unbundle bit_operations_syntax

text \<open>
  Model of the receive reorder buffer of a block-ack session
  (\<open>ieee80211_rx_reorder_ready\<close> to \<open>ieee80211_rx_reorder_ampdu\<close>,
  \<open>ieee80211_release_reorder_timeout\<close> and \<open>ieee80211_mark_rx_ba_filtered_frames\<close> in
  \<open>net/mac80211/rx.c\<close>, the sequence number arithmetic of \<open>include/linux/ieee80211.h\<close>, and the
  session set-up and tear-down of \<open>net/mac80211/agg-rx.c\<close>).

  Sequence numbers are 16 bit words of which the code uses 12 bits; the buffer is a list of
  frame queues, one per slot. \<open>jiffies\<close> is an argument of the operations that read it. Frames the
  code frees (\<open>dev_kfree_skb\<close>, \<open>__skb_queue_purge\<close>) are appended to the field \<open>freed\<close> instead of
  disappearing, so that the fate of every frame can be stated. A loop whose end the types do not
  guarantee takes fuel and returns \<open>None\<close> when the fuel runs out.
\<close>

section \<open>Sequence numbers\<close>

definition IEEE80211_SN_MASK :: u16 where "IEEE80211_SN_MASK = 0xFFF"
definition IEEE80211_SN_MODULO :: u16 where "IEEE80211_SN_MODULO = 0x1000"

definition ieee80211_sn_less :: "u16 \<Rightarrow> u16 \<Rightarrow> bool" where
  "ieee80211_sn_less sn1 sn2 \<longleftrightarrow> (sn1 - sn2) AND IEEE80211_SN_MASK > drop_bit 1 IEEE80211_SN_MODULO"

definition ieee80211_sn_add :: "u16 \<Rightarrow> u16 \<Rightarrow> u16" where
  "ieee80211_sn_add sn1 sn2 = (sn1 + sn2) AND IEEE80211_SN_MASK"

definition ieee80211_sn_inc :: "u16 \<Rightarrow> u16" where
  "ieee80211_sn_inc sn = ieee80211_sn_add sn 1"

definition ieee80211_sn_sub :: "u16 \<Rightarrow> u16 \<Rightarrow> u16" where
  "ieee80211_sn_sub sn1 sn2 = (sn1 - sn2) AND IEEE80211_SN_MASK"

definition IEEE80211_SEQ_TO_SN :: "u16 \<Rightarrow> u16" where
  "IEEE80211_SEQ_TO_SN sc = drop_bit 4 (sc AND 0xFFF0)"

section \<open>Frames and sessions\<close>

text \<open>
  A received frame: the header fields the reorder code reads, the receive flag
  \<open>RX_FLAG_AMSDU_MORE\<close>, the flag \<open>IEEE80211_RX_DEFERRED_RELEASE\<close> it sets, and an identity.
\<close>

record rx_skb =
  skb_id :: nat
  frame_control :: u16
  addr1 :: bytes
  seq_ctrl :: u16
  qos_ctl :: u8
  amsdu_more :: bool
  deferred_release :: bool

record tid_ampdu_rx =
  reorder_buf_filtered :: u64
  reorder_buf :: "rx_skb list list"
  reorder_time :: "u64 list"
  reorder_timer :: "u64 option"
  last_rx :: u64
  head_seq_num :: u16
  stored_mpdu_num :: u16
  ssn :: u16
  buf_size :: u16
  agg_timeout :: u16
  auto_seq :: bool
  removed :: bool
  started :: bool
  freed :: "rx_skb list"

definition mpdu_sn :: "rx_skb \<Rightarrow> u16" where
  "mpdu_sn skb = IEEE80211_SEQ_TO_SN (seq_ctrl skb)"

text \<open>\<open>sn % buf_size\<close>: the slot of a sequence number.\<close>

definition slot :: "tid_ampdu_rx \<Rightarrow> u16 \<Rightarrow> nat" where
  "slot t sn = unat sn mod unat (buf_size t)"

text \<open>
  \<open>BIT_ULL(index)\<close> is undefined in C for an index of 64 or more; the model reads such a bit as 0.
\<close>

definition ieee80211_rx_reorder_ready :: "tid_ampdu_rx \<Rightarrow> nat \<Rightarrow> bool" where
  "ieee80211_rx_reorder_ready t index =
     (if bit (reorder_buf_filtered t) index then True
      else case reorder_buf t ! index of
             [] \<Rightarrow> False
           | q \<Rightarrow> \<not> amsdu_more (last q))"

definition free_slot :: "nat \<Rightarrow> tid_ampdu_rx \<Rightarrow> tid_ampdu_rx" where
  "free_slot index t = t\<lparr>reorder_buf := (reorder_buf t)[index := []],
                         freed := freed t @ reorder_buf t ! index\<rparr>"

definition ieee80211_release_reorder_frame ::
  "tid_ampdu_rx \<Rightarrow> nat \<Rightarrow> rx_skb list \<Rightarrow> tid_ampdu_rx \<times> rx_skb list"
where
  "ieee80211_release_reorder_frame t index frames =
     (let q = reorder_buf t ! index;
          (t1, frames1) =
            (if q = [] then (t, frames)
             else if \<not> ieee80211_rx_reorder_ready t index then (free_slot index t, frames)
             else (t\<lparr>stored_mpdu_num := stored_mpdu_num t - 1,
                     reorder_buf := (reorder_buf t)[index := []]\<rparr>,
                   frames @ map (\<lambda>skb. skb\<lparr>deferred_release := True\<rparr>) q))
      in (t1\<lparr>reorder_buf_filtered := unset_bit index (reorder_buf_filtered t1),
             head_seq_num := ieee80211_sn_inc (head_seq_num t1)\<rparr>, frames1))"

text \<open>
  The distance from \<open>a\<close> forward to \<open>b\<close>. The facts about it come first, because they are what
  makes the loop of \<open>ieee80211_release_reorder_frames\<close> terminate.
\<close>

definition sn_dist :: "u16 \<Rightarrow> u16 \<Rightarrow> nat" where
  "sn_dist a b = unat ((b - a) AND IEEE80211_SN_MASK)"

lemma and_0xFFF: "unat (w AND IEEE80211_SN_MASK) = unat w mod 4096" for w :: u16
proof -
  have "w AND IEEE80211_SN_MASK = take_bit 12 w"
    by (simp add: IEEE80211_SN_MASK_def take_bit_eq_mask mask_eq_exp_minus_1)
  then show ?thesis
    by (simp add: take_bit_eq_mod unat_mod)
qed

lemma int_sn_dist: "int (sn_dist a b) = (uint b - uint a) mod 4096"
proof -
  have "int (sn_dist a b) = uint (b - a) mod 4096"
    by (simp add: sn_dist_def and_0xFFF zmod_int)
  also have "\<dots> = (uint b - uint a) mod 65536 mod 4096"
    by (simp add: uint_word_ariths)
  also have "\<dots> = (uint b - uint a) mod 4096"
    by (rule mod_mod_cancel) simp
  finally show ?thesis .
qed

lemma sn_less_dist: "ieee80211_sn_less a b \<longleftrightarrow> 2048 < sn_dist b a"
  by (simp add: ieee80211_sn_less_def sn_dist_def IEEE80211_SN_MODULO_def word_less_nat_alt)

lemma uint_sn_inc: "uint (ieee80211_sn_inc a) = (uint a + 1) mod 4096"
proof -
  have "uint (ieee80211_sn_inc a) = int (unat (a + 1) mod 4096)"
    by (simp add: ieee80211_sn_inc_def ieee80211_sn_add_def flip: and_0xFFF)
  also have "\<dots> = uint (a + 1) mod 4096"
    by (simp add: zmod_int)
  also have "\<dots> = (uint a + 1) mod 65536 mod 4096"
    by (simp add: uint_word_ariths)
  also have "\<dots> = (uint a + 1) mod 4096"
    by (rule mod_mod_cancel) simp
  finally show ?thesis .
qed

lemma sn_dist_range: "sn_dist a b < 4096"
  by (simp add: sn_dist_def and_0xFFF)

lemma sn_dist_rev: "sn_dist a b = 0 \<or> sn_dist b a = 4096 - sn_dist a b"
proof -
  have "int (sn_dist b a) = (- int (sn_dist a b)) mod 4096"
    by (simp add: int_sn_dist mod_minus_eq)
  moreover have "int (sn_dist a b) < 4096" using sn_dist_range by simp
  ultimately show ?thesis
    by (cases "sn_dist a b = 0") (auto simp: zmod_zminus1_eq_if)
qed

lemma sn_dist_inc:
  "0 < sn_dist a b \<Longrightarrow> sn_dist (ieee80211_sn_inc a) b = sn_dist a b - 1"
proof -
  assume "0 < sn_dist a b"
  moreover have "int (sn_dist (ieee80211_sn_inc a) b) = (int (sn_dist a b) - 1) mod 4096"
    by (simp add: int_sn_dist uint_sn_inc mod_simps algebra_simps)
  moreover have "int (sn_dist a b) < 4096" using sn_dist_range by simp
  ultimately show ?thesis by simp
qed

lemma sn_less_dist_pos: "ieee80211_sn_less a b \<longleftrightarrow> 0 < sn_dist a b \<and> sn_dist a b < 2048"
  using sn_dist_rev [of a b] sn_dist_rev [of b a] sn_dist_range [of a b] sn_dist_range [of b a]
  unfolding sn_less_dist by arith

lemma release_frame_head:
  "ieee80211_release_reorder_frame t i frames = (t1, frames1) \<Longrightarrow>
   head_seq_num t1 = ieee80211_sn_inc (head_seq_num t)"
  by (auto simp: ieee80211_release_reorder_frame_def free_slot_def Let_def split: if_splits)

function ieee80211_release_reorder_frames ::
  "tid_ampdu_rx \<Rightarrow> u16 \<Rightarrow> rx_skb list \<Rightarrow> tid_ampdu_rx \<times> rx_skb list"
where
  "ieee80211_release_reorder_frames t head frames =
     (if ieee80211_sn_less (head_seq_num t) head
      then case ieee80211_release_reorder_frame t (slot t (head_seq_num t)) frames of
             (t1, frames1) \<Rightarrow> ieee80211_release_reorder_frames t1 head frames1
      else (t, frames))"
  by pat_completeness auto

termination
proof (relation "measure (\<lambda>(t, head, frames). sn_dist (head_seq_num t) head)")
  fix t head frames t1 frames1
  assume less: "ieee80211_sn_less (head_seq_num t) head"
    and eq: "(t1, frames1) = ieee80211_release_reorder_frame t (slot t (head_seq_num t)) frames"
  from eq [symmetric] have "head_seq_num t1 = ieee80211_sn_inc (head_seq_num t)"
    by (rule release_frame_head)
  then show "((t1, head, frames1), t, head, frames) \<in>
      measure (\<lambda>(t, head, frames). sn_dist (head_seq_num t) head)"
    using less by (simp add: sn_less_dist_pos sn_dist_inc)
qed simp

declare ieee80211_release_reorder_frames.simps [simp del]

section \<open>Releasing frames in order\<close>

definition HT_RX_REORDER_BUF_TIMEOUT :: u64 where "HT_RX_REORDER_BUF_TIMEOUT = HZ div 10"

text \<open>The slots the timeout loop visits: all but \<open>index\<close>, in ring order after it.\<close>

definition ring_after :: "nat \<Rightarrow> nat \<Rightarrow> nat list" where
  "ring_after n index = map (\<lambda>d. (index + d) mod n) [1..<n]"

text \<open>
  The timeout loop. The last component is \<open>Some j\<close> for \<open>goto set_release_timer\<close> at slot \<open>j\<close>.
  \<open>skipped\<close> is a C \<open>int\<close> bounded by the buffer size.
\<close>

fun reorder_expire ::
  "u64 \<Rightarrow> nat \<Rightarrow> nat \<Rightarrow> tid_ampdu_rx \<Rightarrow> rx_skb list \<Rightarrow> nat list \<Rightarrow>
   tid_ampdu_rx \<times> rx_skb list \<times> nat option"
where
  "reorder_expire now index skipped t frames [] = (t, frames, None)"
| "reorder_expire now index skipped t frames (j # js) =
     (if \<not> ieee80211_rx_reorder_ready t j
      then reorder_expire now index (Suc skipped) t frames js
      else if skipped \<noteq> 0 \<and>
              \<not> time_after now (reorder_time t ! j + HT_RX_REORDER_BUF_TIMEOUT)
      then (t, frames, Some j)
      else let t1 = fold free_slot
                      (takeWhile (\<lambda>i. i \<noteq> j) (ring_after (unat (buf_size t)) index)) t
           in case ieee80211_release_reorder_frame t1 j frames of (t2, frames2) \<Rightarrow>
                reorder_expire now index 0
                  (t2\<lparr>head_seq_num := (head_seq_num t2 + of_nat skipped) AND IEEE80211_SN_MASK\<rparr>)
                  frames2 js)"

text \<open>\<open>while (ieee80211_rx_reorder_ready(tid_agg_rx, index))\<close>\<close>

fun release_ready ::
  "nat \<Rightarrow> tid_ampdu_rx \<Rightarrow> nat \<Rightarrow> rx_skb list \<Rightarrow> (tid_ampdu_rx \<times> rx_skb list) option"
where
  "release_ready 0 t index frames = None"
| "release_ready (Suc fuel) t index frames =
     (if ieee80211_rx_reorder_ready t index
      then case ieee80211_release_reorder_frame t index frames of (t1, frames1) \<Rightarrow>
             release_ready fuel t1 (slot t1 (head_seq_num t1)) frames1
      else Some (t, frames))"

text \<open>
  \<open>for (; j != (index - 1) % buf_size; j = (j + 1) % buf_size)\<close>. \<open>index\<close> is a signed \<open>int\<close> and
  \<open>buf_size\<close> a \<open>u16\<close> that is promoted to \<open>int\<close>, so for index 0 the bound is \<open>-1 % n\<close>: it is 0
  for a buffer of one slot, and -1, which \<open>j\<close> never reaches, for a larger one.
\<close>

definition search_bound :: "nat \<Rightarrow> nat \<Rightarrow> int" where
  "search_bound n index =
     (if index = 0 then (if n = 1 then 0 else - 1) else int ((index - 1) mod n))"

fun search_ready :: "nat \<Rightarrow> tid_ampdu_rx \<Rightarrow> nat \<Rightarrow> nat \<Rightarrow> nat option" where
  "search_ready 0 t index j = None"
| "search_ready (Suc fuel) t index j =
     (if int j = search_bound (unat (buf_size t)) index \<or> ieee80211_rx_reorder_ready t j
      then Some j
      else search_ready fuel t index (Suc j mod unat (buf_size t)))"

definition set_release_timer :: "nat \<Rightarrow> tid_ampdu_rx \<Rightarrow> tid_ampdu_rx" where
  "set_release_timer j t =
     (if removed t then t
      else t\<lparr>reorder_timer := Some (reorder_time t ! j + 1 + HT_RX_REORDER_BUF_TIMEOUT)\<rparr>)"

text \<open>
  Fuel: the release loop empties a slot in each round, the search visits every slot before it
  comes back to its start, so \<open>buf_size + 1\<close> rounds are enough for both.
\<close>

definition ieee80211_sta_reorder_release ::
  "u64 \<Rightarrow> tid_ampdu_rx \<Rightarrow> rx_skb list \<Rightarrow> (tid_ampdu_rx \<times> rx_skb list) option"
where
  "ieee80211_sta_reorder_release now t frames =
     (let n = unat (buf_size t);
          index = slot t (head_seq_num t);
          finish = (\<lambda>t1 frames1.
            if stored_mpdu_num t1 \<noteq> 0
            then let index1 = slot t1 (head_seq_num t1) in
                 map_option (\<lambda>j. (set_release_timer j t1, frames1))
                   (search_ready (Suc n) t1 index1 index1)
            else Some (t1\<lparr>reorder_timer := None\<rparr>, frames1))
      in if \<not> ieee80211_rx_reorder_ready t index \<and> stored_mpdu_num t \<noteq> 0
         then case reorder_expire now index 1 t frames (ring_after n index) of
                (t1, frames1, Some j) \<Rightarrow> Some (set_release_timer j t1, frames1)
              | (t1, frames1, None) \<Rightarrow> finish t1 frames1
         else case release_ready (Suc n) t index frames of
                None \<Rightarrow> None
              | Some (t1, frames1) \<Rightarrow> finish t1 frames1)"

section \<open>Receiving a frame\<close>

text \<open>The first component of the result is true when the frame was consumed.\<close>

definition ieee80211_sta_manage_reorder_buf ::
  "u64 \<Rightarrow> tid_ampdu_rx \<Rightarrow> rx_skb \<Rightarrow> rx_skb list \<Rightarrow> (bool \<times> tid_ampdu_rx \<times> rx_skb list) option"
where
  "ieee80211_sta_manage_reorder_buf now t skb frames =
     (let sn = mpdu_sn skb;
          t0 = (if auto_seq t then t\<lparr>auto_seq := False, ssn := sn, head_seq_num := sn\<rparr> else t);
          head = head_seq_num t0
      in if \<not> started t0 \<and> ieee80211_sn_less sn head then Some (False, t0, frames)
         else let t1 = t0\<lparr>started := True\<rparr> in
         if ieee80211_sn_less sn head then Some (True, t1\<lparr>freed := freed t1 @ [skb]\<rparr>, frames)
         else case (if \<not> ieee80211_sn_less sn (head + buf_size t1)
                    then ieee80211_release_reorder_frames t1
                           (ieee80211_sn_inc (ieee80211_sn_sub sn (buf_size t1))) frames
                    else (t1, frames)) of (t2, frames2) \<Rightarrow>
         let index = slot t2 sn in
         if ieee80211_rx_reorder_ready t2 index
         then Some (True, t2\<lparr>freed := freed t2 @ [skb]\<rparr>, frames2)
         else if sn = head_seq_num t2 \<and> stored_mpdu_num t2 = 0
         then Some (False,
                if \<not> amsdu_more skb
                then t2\<lparr>head_seq_num := ieee80211_sn_inc (head_seq_num t2)\<rparr> else t2, frames2)
         else let t3 = t2\<lparr>reorder_buf :=
                            (reorder_buf t2)[index := reorder_buf t2 ! index @ [skb]]\<rparr>
              in if amsdu_more skb then Some (True, t3, frames2)
                 else let t4 = t3\<lparr>reorder_time := (reorder_time t3)[index := now],
                                  stored_mpdu_num := stored_mpdu_num t3 + 1\<rparr>
                      in map_option (\<lambda>(t5, frames5). (True, t5, frames5))
                           (ieee80211_sta_reorder_release now t4 frames2))"

section \<open>The aggregation state of a station\<close>

text \<open>
  The part of \<open>struct sta_info\<close> the receive path uses: the sessions by TID, the bit maps
  \<open>agg_session_valid\<close> and \<open>unexpected_agg\<close>, the dialog tokens, capabilities, and what the code
  hands to other parts: delba frames sent (TID, status), frames put on the interface queue,
  ADDBA responses.
\<close>

record addba_resp =
  resp_tid :: u16
  resp_status :: u16
  resp_token :: u8
  resp_buf_size :: u16
  resp_timeout :: u16

record sta_ampdu =
  tid_rx :: "nat \<Rightarrow> tid_ampdu_rx option"
  tid_rx_token :: "nat \<Rightarrow> u8"
  agg_session_valid :: "nat \<Rightarrow> bool"
  unexpected_agg :: "nat \<Rightarrow> bool"
  ht_supported :: bool
  ht_delay_ba :: bool
  has_he :: bool
  block_ba :: bool
  max_rx_aggregation_subframes :: u16
  sent_delba :: "(nat \<times> u16) list"
  sent_addba_resp :: "addba_resp list"
  iface_queue :: "rx_skb list"

definition WLAN_STATUS_SUCCESS :: u16 where "WLAN_STATUS_SUCCESS = 0"
definition WLAN_STATUS_UNSPECIFIED_QOS :: u16 where "WLAN_STATUS_UNSPECIFIED_QOS = 32"
definition WLAN_STATUS_REQUEST_DECLINED :: u16 where "WLAN_STATUS_REQUEST_DECLINED = 37"
definition WLAN_STATUS_INVALID_QOS_PARAM :: u16 where "WLAN_STATUS_INVALID_QOS_PARAM = 38"
definition WLAN_REASON_QSTA_REQUIRE_SETUP :: u16 where "WLAN_REASON_QSTA_REQUIRE_SETUP = 38"

definition ieee80211_is_data_qos :: "u16 \<Rightarrow> bool" where
  "ieee80211_is_data_qos fc \<longleftrightarrow> fc AND (0x000c OR 0x0080) = 0x0008 OR 0x0080"

definition is_multicast_ether_addr :: "bytes \<Rightarrow> bool" where
  "is_multicast_ether_addr a \<longleftrightarrow> bit (a ! 0) 0"

definition ack_policy_of :: "rx_skb \<Rightarrow> u8" where
  "ack_policy_of skb = qos_ctl skb AND 0x60"

definition ieee80211_get_tid :: "rx_skb \<Rightarrow> nat" where
  "ieee80211_get_tid skb = unat (qos_ctl skb AND 0x0f)"

text \<open>
  \<open>ieee80211_rx_reorder_ampdu\<close>; \<open>sta = None\<close> when the frame has no station. The result pairs the
  station with the frames to process now.
\<close>

definition ieee80211_rx_reorder_ampdu ::
  "u64 \<Rightarrow> sta_ampdu option \<Rightarrow> rx_skb \<Rightarrow> rx_skb list \<Rightarrow> (sta_ampdu option \<times> rx_skb list) option"
where
  "ieee80211_rx_reorder_ampdu now sta_opt skb frames =
     (if \<not> ieee80211_is_data_qos (frame_control skb) \<or> is_multicast_ether_addr (addr1 skb)
      then Some (sta_opt, frames @ [skb])
      else case sta_opt of None \<Rightarrow> Some (None, frames @ [skb])
      | Some sta \<Rightarrow>
        let ack_policy = ack_policy_of skb; tid = ieee80211_get_tid skb in
        case tid_rx sta tid of
          None \<Rightarrow>
            (let sta1 =
               (if ack_policy = 0x60 \<and> \<not> agg_session_valid sta tid
                then let sta2 = sta\<lparr>unexpected_agg := (unexpected_agg sta)(tid := True)\<rparr>
                     in if \<not> unexpected_agg sta tid
                        then sta2\<lparr>sent_delba :=
                               sent_delba sta2 @ [(tid, WLAN_REASON_QSTA_REQUIRE_SETUP)]\<rparr>
                        else sta2
                else sta)
             in Some (Some sta1, frames @ [skb]))
        | Some t \<Rightarrow>
            if frame_control skb AND 0x0040 \<noteq> 0 then Some (Some sta, frames @ [skb])
            else if ack_policy \<noteq> 0x60 \<and> ack_policy \<noteq> 0 then Some (Some sta, frames @ [skb])
            else let t1 = (if agg_timeout t \<noteq> 0 then t\<lparr>last_rx := now\<rparr> else t) in
              if seq_ctrl skb AND 0x000F \<noteq> 0
              then Some (Some (sta\<lparr>tid_rx := (tid_rx sta)(tid \<mapsto> t1),
                                   iface_queue := iface_queue sta @ [skb]\<rparr>), frames)
              else map_option (\<lambda>(ret, t2, frames2).
                     (Some (sta\<lparr>tid_rx := (tid_rx sta)(tid \<mapsto> t2)\<rparr>),
                      if ret then frames2 else frames2 @ [skb]))
                     (ieee80211_sta_manage_reorder_buf now t1 skb frames))"

text \<open>The reorder timer: the frames released are handed to the receive handlers.\<close>

definition ieee80211_release_reorder_timeout ::
  "u64 \<Rightarrow> sta_ampdu \<Rightarrow> nat \<Rightarrow> (sta_ampdu \<times> rx_skb list) option"
where
  "ieee80211_release_reorder_timeout now sta tid =
     (case tid_rx sta tid of
        None \<Rightarrow> Some (sta, [])
      | Some t \<Rightarrow>
          map_option (\<lambda>(t1, frames). (sta\<lparr>tid_rx := (tid_rx sta)(tid \<mapsto> t1)\<rparr>, frames))
            (ieee80211_sta_reorder_release now t []))"

text \<open>The loop that moves the bits of \<open>filtered\<close> into the slot bit map.\<close>

fun update_filtered :: "u16 \<Rightarrow> u64 \<Rightarrow> nat list \<Rightarrow> tid_ampdu_rx \<Rightarrow> tid_ampdu_rx" where
  "update_filtered sn filtered [] t = t"
| "update_filtered sn filtered (i # is) t =
     (let index = (unat sn + i) mod unat (buf_size t);
          f = unset_bit index (reorder_buf_filtered t)
      in update_filtered sn filtered is
           (t\<lparr>reorder_buf_filtered := (if bit filtered i then set_bit index f else f)\<rparr>))"

definition mark_filtered ::
  "u64 \<Rightarrow> tid_ampdu_rx \<Rightarrow> u16 \<Rightarrow> u64 \<Rightarrow> u16 \<Rightarrow> (tid_ampdu_rx \<times> rx_skb list) option"
where
  "mark_filtered now t sn filtered received_mpdus =
     (let (t1, frames1) =
        (if received_mpdus \<ge> drop_bit 1 IEEE80211_SN_MODULO
         then (case ieee80211_release_reorder_frames t
                      (of_nat ((unat (head_seq_num t) + unat (buf_size t)) mod 4096)) [] of
                 (t', fr) \<Rightarrow> (t'\<lparr>head_seq_num := sn\<rparr>, fr))
         else ieee80211_release_reorder_frames t sn []);
          diff = unat ((head_seq_num t1 - sn) AND IEEE80211_SN_MASK)
      in if diff \<ge> unat (buf_size t1)
         then Some (t1\<lparr>reorder_buf_filtered := 0\<rparr>, frames1)
         else ieee80211_sta_reorder_release now
                (update_filtered (sn + of_nat diff) (drop_bit diff filtered)
                   [0..<unat (buf_size t1)] t1) frames1)"

definition ieee80211_mark_rx_ba_filtered_frames ::
  "u64 \<Rightarrow> sta_ampdu option \<Rightarrow> u8 \<Rightarrow> u16 \<Rightarrow> u64 \<Rightarrow> u16 \<Rightarrow> (sta_ampdu option \<times> rx_skb list) option"
where
  "ieee80211_mark_rx_ba_filtered_frames now pubsta tid sn filtered received_mpdus =
     (case pubsta of
        None \<Rightarrow> Some (None, [])
      | Some sta \<Rightarrow>
          if tid \<ge> 16 then Some (Some sta, [])
          else case tid_rx sta (unat tid) of
                 None \<Rightarrow> Some (Some sta, [])
               | Some t \<Rightarrow>
                   map_option (\<lambda>(t1, frames).
                     (Some (sta\<lparr>tid_rx := (tid_rx sta)(unat tid \<mapsto> t1)\<rparr>), frames))
                     (mark_filtered now t sn filtered received_mpdus))"

section \<open>Setting up and tearing down a session\<close>

text \<open>
  \<open>___ieee80211_stop_rx_ba_session\<close>. In this port the calls of the driver
  (\<open>drv_ampdu_action\<close>) and \<open>call_rcu\<close>, which would free the session, are commented out.
\<close>

definition ieee80211_stop_rx_ba_session_locked ::
  "sta_ampdu \<Rightarrow> nat \<Rightarrow> bool \<Rightarrow> u16 \<Rightarrow> bool \<Rightarrow> sta_ampdu"
where
  "ieee80211_stop_rx_ba_session_locked sta tid by_recipient reason tx =
     (if \<not> agg_session_valid sta tid then sta
      else let sta1 = sta\<lparr>tid_rx := (tid_rx sta)(tid := None),
                          agg_session_valid := (agg_session_valid sta)(tid := False)\<rparr>
           in if by_recipient \<and> tx
              then sta1\<lparr>sent_delba := sent_delba sta1 @ [(tid, reason)]\<rparr> else sta1)"

text \<open>
  \<open>___ieee80211_start_rx_ba_session\<close>. \<open>hw_reorders\<close> is the hardware flag
  \<open>SUPPORTS_REORDERING_BUFFER\<close>, \<open>kmalloc_ok\<close> the result of the allocations. The variable \<open>ret\<close>
  starts as \<open>-EOPNOTSUPP\<close> and, with the calls of \<open>drv_ampdu_action\<close> commented out, is never
  assigned: \<open>drv_ampdu_ret\<close>.
\<close>

definition drv_ampdu_ret :: "errno option" where
  "drv_ampdu_ret = Some EOPNOTSUPP"

definition new_tid_ampdu_rx :: "u64 \<Rightarrow> u16 \<Rightarrow> u16 \<Rightarrow> u16 \<Rightarrow> bool \<Rightarrow> tid_ampdu_rx" where
  "new_tid_ampdu_rx now start_seq_num bsize timeout auto =
     \<lparr>reorder_buf_filtered = 0, reorder_buf = replicate (unat bsize) [],
      reorder_time = replicate (unat bsize) 0, reorder_timer = None,
      last_rx = (if timeout \<noteq> 0 then now else 0),
      head_seq_num = start_seq_num, stored_mpdu_num = 0, ssn = start_seq_num, buf_size = bsize,
      agg_timeout = timeout, auto_seq = auto, removed = False, started = False, freed = []\<rparr>"

definition ieee80211_start_rx_ba_session_locked ::
  "u64 \<Rightarrow> bool \<Rightarrow> bool \<Rightarrow> sta_ampdu \<Rightarrow> u8 \<Rightarrow> u16 \<Rightarrow> u16 \<Rightarrow> u16 \<Rightarrow> u16 \<Rightarrow> u16 \<Rightarrow> bool \<Rightarrow> bool \<Rightarrow> sta_ampdu"
where
  "ieee80211_start_rx_ba_session_locked now hw_reorders kmalloc_ok sta dialog_token timeout
       start_seq_num ba_policy tid bsize tx auto =
     (let n = unat tid;
          max_buf_size = (if has_he sta then 0x100 else 0x40) :: u16;
          finish = (\<lambda>sta status bsize.
            let sta1 = (if status = WLAN_STATUS_SUCCESS
                        then sta\<lparr>agg_session_valid := (agg_session_valid sta)(n := True),
                                 unexpected_agg := (unexpected_agg sta)(n := False),
                                 tid_rx_token := (tid_rx_token sta)(n := dialog_token)\<rparr>
                        else sta)
            in if tx then sta1\<lparr>sent_addba_resp := sent_addba_resp sta1 @
                      [\<lparr>resp_tid = tid, resp_status = status, resp_token = dialog_token,
                        resp_buf_size = bsize, resp_timeout = timeout\<rparr>]\<rparr>
               else sta1)
      in if tid \<ge> 8 \<or> \<not> ht_supported sta \<or> block_ba sta
         then finish sta WLAN_STATUS_REQUEST_DECLINED bsize
         else if ba_policy \<noteq> 1 \<and> \<not> ht_delay_ba sta \<or> bsize > max_buf_size
         then finish sta WLAN_STATUS_INVALID_QOS_PARAM bsize
         else let bsize1 = (if bsize = 0 then max_buf_size else bsize);
                  bsize2 = min bsize1 (max_rx_aggregation_subframes sta)
         in if agg_session_valid sta n \<and> tid_rx_token sta n = dialog_token
            then finish sta (case tid_rx sta n of
                   Some t \<Rightarrow> if agg_timeout t = timeout then WLAN_STATUS_SUCCESS
                             else WLAN_STATUS_REQUEST_DECLINED
                 | None \<Rightarrow> WLAN_STATUS_REQUEST_DECLINED) bsize2
            else let sta1 = (if agg_session_valid sta n
                   then ieee80211_stop_rx_ba_session_locked sta n True
                          WLAN_STATUS_UNSPECIFIED_QOS False
                   else sta)
            in if hw_reorders
               then finish sta1 (if drv_ampdu_ret = None then WLAN_STATUS_SUCCESS
                                 else WLAN_STATUS_REQUEST_DECLINED) bsize2
            else if \<not> kmalloc_ok then finish sta1 WLAN_STATUS_REQUEST_DECLINED bsize2
            else if drv_ampdu_ret \<noteq> None then finish sta1 WLAN_STATUS_REQUEST_DECLINED bsize2
            else finish (sta1\<lparr>tid_rx := (tid_rx sta1)(n \<mapsto>
                           new_tid_ampdu_rx now start_seq_num bsize2 timeout auto)\<rparr>)
                   WLAN_STATUS_SUCCESS bsize2)"

end
