(* ===== verification/Reorder_Props.thy ===== *)
theory Reorder_Props
  imports Reorder "HOL-Library.Multiset"
begin

text \<open>
  Correctness of the reorder buffer: for sessions whose hardware does not split A-MSDUs, whose
  buffer size divides the sequence number space and which have no filtered frames, frames leave
  the buffer in order, each at most once, the loops end, and the state invariant is kept; for
  all sessions, no frame is lost or duplicated without being accounted as freed. Further: what
  happens for buffer sizes that do not divide 4096, with the constant \<open>jiffies\<close> of this port, and
  to ADDBA requests in this port.
\<close>

section \<open>Distances\<close>

lemma sn_dist_self [simp]: "sn_dist a a = 0"
  by (simp add: sn_dist_def)

lemma sn_dist_uint_cong: "uint a mod 4096 = uint a' mod 4096 \<Longrightarrow> sn_dist a b = sn_dist a' b"
  by (metis int_sn_dist mod_diff_right_eq nat_int of_nat_eq_iff)

text \<open>\<open>h'\<close> is \<open>a\<close> sequence numbers ahead of \<open>h\<close>.\<close>

definition ahead :: "u16 \<Rightarrow> nat \<Rightarrow> u16 \<Rightarrow> bool" where
  "ahead h a h' \<longleftrightarrow> uint h' mod 4096 = (uint h + int a) mod 4096"

lemma ahead_0 [simp]: "ahead h 0 h"
  by (simp add: ahead_def)

lemma ahead_inc: "ahead h 1 (ieee80211_sn_inc h)"
  by (simp add: ahead_def uint_sn_inc)

lemma ahead_trans: "ahead h a h1 \<Longrightarrow> ahead h1 b h2 \<Longrightarrow> ahead h (a + b) h2"
  by (simp add: ahead_def) (metis add.assoc mod_add_left_eq)

lemma sn_dist_ahead:
  assumes "ahead h a h'" shows "int (sn_dist h s) = (int a + int (sn_dist h' s)) mod 4096"
proof -
  have "(uint s - uint h') mod 4096 = (uint s - (uint h + int a)) mod 4096"
    by (rule mod_diff_cong) (use assms in \<open>simp_all add: ahead_def\<close>)
  then have "(int a + (uint s - uint h') mod 4096) mod 4096 =
      (int a + (uint s - (uint h + int a)) mod 4096) mod 4096" by simp
  then show ?thesis by (simp add: int_sn_dist mod_simps)
qed

lemma sn_dist_ahead_le:
  assumes "ahead h a h'" "a + sn_dist h' s < 4096" shows "sn_dist h s = a + sn_dist h' s"
  using sn_dist_ahead [OF assms(1), of s] assms(2) by simp

lemma sn_dist_ahead_ge:
  assumes "ahead h a h'" "a \<le> sn_dist h s" shows "sn_dist h' s = sn_dist h s - a"
proof -
  have "int (sn_dist h s) - int a = (int (sn_dist h s) - int a) mod 4096"
    using assms(2) sn_dist_range [of h s] by simp
  also have "\<dots> = ((int a + int (sn_dist h' s)) mod 4096 - int a) mod 4096"
    using sn_dist_ahead [OF assms(1), of s] by simp
  also have "\<dots> = int (sn_dist h' s)"
    using sn_dist_range [of h' s] by (simp add: mod_simps)
  finally show ?thesis using assms(2) by linarith
qed

lemma ahead_dist: "ahead h a h' \<Longrightarrow> a < 4096 \<Longrightarrow> sn_dist h h' = a"
  using sn_dist_ahead_le [of h a h' h'] by simp

lemma dist_ahead: "ahead h (sn_dist h s) s"
  by (simp add: ahead_def int_sn_dist mod_simps)

section \<open>In-order delivery\<close>

text \<open>
  \<open>out\<close> is delivered in order while the head moves \<open>a\<close> numbers from \<open>h\<close> to \<open>h'\<close>.
\<close>

definition delivers :: "u16 \<Rightarrow> rx_skb list \<Rightarrow> nat \<Rightarrow> u16 \<Rightarrow> bool" where
  "delivers h out a h' \<longleftrightarrow> ahead h a h' \<and>
     sorted_wrt (<) (map (\<lambda>f. sn_dist h (mpdu_sn f)) out) \<and>
     (\<forall>f \<in> set out. sn_dist h (mpdu_sn f) < a)"

lemma delivers_Nil [simp]: "delivers h [] a h' \<longleftrightarrow> ahead h a h'"
  by (simp add: delivers_def)

lemma delivers_single:
  "ahead h a h' \<Longrightarrow> sn_dist h (mpdu_sn f) < a \<Longrightarrow> delivers h [f] a h'"
  by (simp add: delivers_def)

lemma delivers_append:
  assumes "delivers h o1 a1 h1" and "delivers h1 o2 a2 h2" and "a1 + a2 < 4096"
  shows "delivers h (o1 @ o2) (a1 + a2) h2"
proof -
  have d: "sn_dist h (mpdu_sn f) = a1 + sn_dist h1 (mpdu_sn f)" if "f \<in> set o2" for f
    using that assms sn_dist_ahead_le [of h a1 h1 "mpdu_sn f"] by (auto simp: delivers_def)
  have "map (\<lambda>f. sn_dist h (mpdu_sn f)) o2 = map (\<lambda>f. a1 + sn_dist h1 (mpdu_sn f)) o2"
    using d by simp
  moreover have "sorted_wrt (<) (map (\<lambda>f. a1 + sn_dist h1 (mpdu_sn f)) o2)"
    using assms(2) by (simp add: delivers_def sorted_wrt_map)
  ultimately have "sorted_wrt (<) (map (\<lambda>f. sn_dist h (mpdu_sn f)) o2)" by (simp only:)
  then show ?thesis
    using assms d by (fastforce simp: delivers_def sorted_wrt_append intro: ahead_trans)
qed

lemma mpdu_sn_deferred [simp]: "mpdu_sn (skb\<lparr>deferred_release := b\<rparr>) = mpdu_sn skb"
  by (simp add: mpdu_sn_def)

section \<open>The invariant of a session without A-MSDU splitting\<close>

definition stored_slots :: "rx_skb list list \<Rightarrow> nat" where
  "stored_slots buf = length (filter (\<lambda>q. q \<noteq> []) buf)"

definition rb_frame_ok :: "tid_ampdu_rx \<Rightarrow> nat \<Rightarrow> rx_skb \<Rightarrow> bool" where
  "rb_frame_ok t i f \<longleftrightarrow> \<not> amsdu_more f \<and> slot t (mpdu_sn f) = i \<and>
     sn_dist (head_seq_num t) (mpdu_sn f) < unat (buf_size t)"

definition rb_ok :: "tid_ampdu_rx \<Rightarrow> bool" where
  "rb_ok t \<longleftrightarrow>
     2 \<le> unat (buf_size t) \<and> unat (buf_size t) \<le> 64 \<and> unat (buf_size t) dvd 4096 \<and>
     length (reorder_buf t) = unat (buf_size t) \<and> reorder_buf_filtered t = 0 \<and>
     unat (stored_mpdu_num t) = stored_slots (reorder_buf t) \<and>
     (\<forall>i < unat (buf_size t). length (reorder_buf t ! i) \<le> 1 \<and>
        (\<forall>f \<in> set (reorder_buf t ! i). rb_frame_ok t i f))"

text \<open>The slot \<open>d\<close> places after the head.\<close>

definition slot_at :: "tid_ampdu_rx \<Rightarrow> nat \<Rightarrow> nat" where
  "slot_at t d = (unat (head_seq_num t) + d) mod unat (buf_size t)"

lemma slot_at_0 [simp]: "slot_at t 0 = slot t (head_seq_num t)"
  by (simp add: slot_at_def slot_def)

lemma slot_at_less: "rb_ok t \<Longrightarrow> slot_at t d < unat (buf_size t)"
  by (auto simp: rb_ok_def slot_at_def)

lemma slot_less: "rb_ok t \<Longrightarrow> slot t s < unat (buf_size t)"
  by (auto simp: rb_ok_def slot_def)

lemma slot_dist:
  assumes "unat (buf_size t) dvd 4096"
  shows "slot t s = slot_at t (sn_dist (head_seq_num t) s)"
proof -
  let ?n = "int (unat (buf_size t))"
  have dvd: "?n dvd 4096" using assms by (metis int_dvd_int_iff of_nat_numeral)
  have "int (slot_at t (sn_dist (head_seq_num t) s)) =
      (uint (head_seq_num t) + (uint s - uint (head_seq_num t)) mod 4096 mod ?n) mod ?n"
    by (simp add: slot_at_def zmod_int mod_simps int_sn_dist)
  also have "\<dots> = uint s mod ?n"
    using dvd by (simp add: mod_mod_cancel mod_simps)
  finally have "int (slot_at t (sn_dist (head_seq_num t) s)) = int (slot t s)"
    by (simp add: slot_def zmod_int)
  then show ?thesis by simp
qed

lemma mod_add_inj_less:
  fixes d e n h :: nat
  assumes "(h + d) mod n = (h + e) mod n" "d \<le> e" "e < n"
  shows "d = e"
proof -
  have "n dvd (h + e) - (h + d)"
    using assms(1,2) by (metis add_le_cancel_left mod_eq_dvd_iff_nat)
  then have "n dvd e - d" by simp
  moreover have "e - d < n" using assms(3) by simp
  ultimately have "e - d = 0" using nat_dvd_not_less by blast
  with assms(2) show ?thesis by simp
qed

lemma slot_at_inj:
  "slot_at t d = slot_at t e \<Longrightarrow> d < unat (buf_size t) \<Longrightarrow> e < unat (buf_size t) \<Longrightarrow> d = e"
  by (metis linorder_le_cases mod_add_inj_less slot_at_def)

lemma stored_slots_update_Nil:
  "i < length buf \<Longrightarrow> buf ! i \<noteq> [] \<Longrightarrow> stored_slots (buf[i := []]) = stored_slots buf - 1 \<and>
     0 < stored_slots buf"
proof (induction buf arbitrary: i)
  case (Cons q buf)
  then show ?case by (cases i) (auto simp: stored_slots_def)
qed simp

lemma stored_slots_update_full:
  "i < length buf \<Longrightarrow> buf ! i = [] \<Longrightarrow> q \<noteq> [] \<Longrightarrow>
   stored_slots (buf[i := q]) = stored_slots buf + 1"
proof (induction buf arbitrary: i)
  case (Cons q buf)
  then show ?case by (cases i) (auto simp: stored_slots_def)
qed simp

lemma stored_slots_le: "stored_slots buf \<le> length buf"
  by (simp add: stored_slots_def)

lemma stored_slots_0: "stored_slots buf = 0 \<longleftrightarrow> (\<forall>i < length buf. buf ! i = [])"
  by (auto simp: stored_slots_def filter_empty_conv all_set_conv_all_nth)

text \<open>In such a session a slot is ready when it holds a frame.\<close>

lemma ready_iff:
  "rb_ok t \<Longrightarrow> i < unat (buf_size t) \<Longrightarrow>
   ieee80211_rx_reorder_ready t i \<longleftrightarrow> reorder_buf t ! i \<noteq> []"
  by (auto simp: rb_ok_def ieee80211_rx_reorder_ready_def rb_frame_ok_def split: list.splits)

lemma rb_okD:
  assumes "rb_ok t" "i < unat (buf_size t)" "f \<in> set (reorder_buf t ! i)"
  shows "rb_frame_ok t i f" "reorder_buf t ! i = [f]"
proof -
  show "rb_frame_ok t i f" using assms by (auto simp: rb_ok_def)
  have "length (reorder_buf t ! i) \<le> 1" using assms by (auto simp: rb_ok_def)
  with assms(3) show "reorder_buf t ! i = [f]"
    by (cases "reorder_buf t ! i") auto
qed

lemma frame_slot_at:
  assumes "rb_ok t" "d < unat (buf_size t)" "f \<in> set (reorder_buf t ! slot_at t d)"
  shows "sn_dist (head_seq_num t) (mpdu_sn f) = d"
proof -
  have "rb_frame_ok t (slot_at t d) f" using assms slot_at_less by (intro rb_okD) auto
  moreover have "slot t (mpdu_sn f) = slot_at t (sn_dist (head_seq_num t) (mpdu_sn f))"
    using assms(1) by (intro slot_dist) (simp add: rb_ok_def)
  ultimately show ?thesis
    using slot_at_inj assms(2) by (auto simp: rb_frame_ok_def)
qed

lemma unset_bit_0 [simp]: "unset_bit i (0 :: 'a::len word) = 0"
  by (simp add: unset_bit_eq_and_not)

lemma uint_and_mask: "uint (w AND IEEE80211_SN_MASK) = uint w mod 4096" for w :: u16
  using and_0xFFF [of w] by (metis of_nat_mod of_nat_numeral uint_nat)

text \<open>Moving the head over \<open>s\<close> empty slots and one more slot, which is emptied.\<close>

definition skip_release :: "nat \<Rightarrow> tid_ampdu_rx \<Rightarrow> rx_skb list \<Rightarrow> tid_ampdu_rx \<times> rx_skb list" where
  "skip_release s t frames =
     (case ieee80211_release_reorder_frame t (slot_at t s) frames of (t1, fr) \<Rightarrow>
        (if s = 0 then t1
         else t1\<lparr>head_seq_num := (head_seq_num t1 + of_nat s) AND IEEE80211_SN_MASK\<rparr>, fr))"

lemma skip_release_head:
  assumes "s < 64"
  shows "ahead (head_seq_num t) (Suc s) (head_seq_num (fst (skip_release s t frames)))"
proof -
  obtain t1 fr where r: "ieee80211_release_reorder_frame t (slot_at t s) frames = (t1, fr)"
    by fastforce
  have h1: "ahead (head_seq_num t) 1 (head_seq_num t1)"
    using release_frame_head [OF r] ahead_inc by simp
  have "uint (head_seq_num t1 + of_nat s) mod 4096 = (uint (head_seq_num t1) + int s) mod 4096"
  proof -
    have "uint (head_seq_num t1 + of_nat s) mod 4096 =
        (uint (head_seq_num t1) + int s) mod 65536 mod 4096"
      using assms by (simp add: uint_word_ariths unsigned_of_nat take_bit_eq_mod mod_simps)
    also have "\<dots> = (uint (head_seq_num t1) + int s) mod 4096" by (rule mod_mod_cancel) simp
    finally show ?thesis .
  qed
  then have "ahead (head_seq_num t1) s ((head_seq_num t1 + of_nat s) AND IEEE80211_SN_MASK)"
    by (simp add: ahead_def uint_and_mask)
  from ahead_trans [OF h1 this] h1 r show ?thesis
    by (auto simp: skip_release_def)
qed

lemma release_frame_rb:
  assumes ok: "rb_ok t" and i: "i < unat (buf_size t)"
    and r: "ieee80211_release_reorder_frame t i frames = (t1, fr)"
  shows "fr = frames @ map (\<lambda>skb. skb\<lparr>deferred_release := True\<rparr>) (reorder_buf t ! i)"
    and "reorder_buf t1 = (reorder_buf t)[i := []]"
    and "unat (stored_mpdu_num t1) = stored_slots (reorder_buf t1)"
    and "reorder_buf_filtered t1 = 0" "buf_size t1 = buf_size t" "freed t1 = freed t"
    and "auto_seq t1 = auto_seq t" "started t1 = started t"
proof -
  have len: "i < length (reorder_buf t)" using ok i by (simp add: rb_ok_def)
  have st: "unat (stored_mpdu_num t - 1) = unat (stored_mpdu_num t) - 1"
    if "0 < unat (stored_mpdu_num t)"
    using that by (metis One_nat_def Suc_leI unat_1 unat_sub word_le_nat_alt)
  have u: "(reorder_buf t)[i := []] = reorder_buf t" if "reorder_buf t ! i = []"
    using that len by (metis list_update_id)
  note d = r [unfolded ieee80211_release_reorder_frame_def Let_def] ready_iff [OF ok i]
  have sf: "unat (stored_mpdu_num t) = stored_slots (reorder_buf t)" "reorder_buf_filtered t = 0"
    using ok by (auto simp: rb_ok_def)
  show "fr = frames @ map (\<lambda>skb. skb\<lparr>deferred_release := True\<rparr>) (reorder_buf t ! i)"
    using d by (auto split: if_splits)
  show "reorder_buf t1 = (reorder_buf t)[i := []]"
    using d u by (auto split: if_splits)
  show "unat (stored_mpdu_num t1) = stored_slots (reorder_buf t1)"
    using d u st sf stored_slots_update_Nil [OF len] by (auto split: if_splits)
  show "reorder_buf_filtered t1 = 0" "buf_size t1 = buf_size t" "freed t1 = freed t"
    "auto_seq t1 = auto_seq t" "started t1 = started t"
    using d sf by (auto split: if_splits)
qed

lemma skip_release_rb:
  assumes ok: "rb_ok t" and s: "s < unat (buf_size t)"
    and empty: "\<forall>d < s. reorder_buf t ! slot_at t d = []"
    and r: "skip_release s t frames = (t1, fr)"
  shows "rb_ok t1"
    and "\<exists>out. fr = frames @ out \<and> delivers (head_seq_num t) out (Suc s) (head_seq_num t1) \<and>
           map skb_id out = map skb_id (reorder_buf t ! slot_at t s)"
    and "reorder_buf t1 = (reorder_buf t)[slot_at t s := []]"
    and "buf_size t1 = buf_size t" "freed t1 = freed t"
    and "auto_seq t1 = auto_seq t" "started t1 = started t"
proof -
  let ?i = "slot_at t s"
  have n: "unat (buf_size t) \<le> 64" "unat (buf_size t) dvd 4096" using ok by (auto simp: rb_ok_def)
  obtain t0 where r0: "ieee80211_release_reorder_frame t ?i frames = (t0, fr)"
    and t1: "t1 = (if s = 0 then t0
        else t0\<lparr>head_seq_num := (head_seq_num t0 + of_nat s) AND IEEE80211_SN_MASK\<rparr>)"
    using r by (auto simp: skip_release_def split: prod.splits)
  have i: "?i < unat (buf_size t)" using slot_at_less [OF ok] .
  note rel = release_frame_rb [OF ok i r0]
  have h: "ahead (head_seq_num t) (Suc s) (head_seq_num t1)"
    using skip_release_head [of s t frames] r s n by simp
  show buf: "reorder_buf t1 = (reorder_buf t)[?i := []]" using t1 rel(2) by simp
  show bs: "buf_size t1 = buf_size t" "freed t1 = freed t" "auto_seq t1 = auto_seq t"
      "started t1 = started t"
    using t1 rel by simp_all
  have frame: "rb_frame_ok t1 j f"
    if j: "j < unat (buf_size t)" and f: "f \<in> set (reorder_buf t1 ! j)" for j f
  proof -
    have ne: "j \<noteq> ?i"
      using f buf j ok by (auto simp: rb_ok_def)
    then have f': "f \<in> set (reorder_buf t ! j)" using f buf by simp
    have fo: "rb_frame_ok t j f" using rb_okD(1) [OF ok j f'] .
    let ?d = "sn_dist (head_seq_num t) (mpdu_sn f)"
    have js: "j = slot_at t ?d" using fo slot_dist [OF n(2)] by (auto simp: rb_frame_ok_def)
    have "\<not> ?d < s" using empty f' js by force
    moreover have "?d \<noteq> s" using ne js by blast
    ultimately have "Suc s \<le> ?d" by simp
    from sn_dist_ahead_ge [OF h this] fo bs show ?thesis
      by (auto simp: rb_frame_ok_def slot_def)
  qed
  have "length (reorder_buf t1 ! j) \<le> 1" if "j < unat (buf_size t)" for j
    using that buf ok by (cases "j = ?i") (auto simp: rb_ok_def)
  with frame rel(3,4) bs buf t1 ok show "rb_ok t1" by (auto simp: rb_ok_def)
  let ?out = "map (\<lambda>skb. skb\<lparr>deferred_release := True\<rparr>) (reorder_buf t ! ?i)"
  have "delivers (head_seq_num t) ?out (Suc s) (head_seq_num t1)"
  proof (cases "reorder_buf t ! ?i")
    case Nil
    with h show ?thesis by simp
  next
    case (Cons f fs)
    then have "reorder_buf t ! ?i = [f]" "sn_dist (head_seq_num t) (mpdu_sn f) = s"
      using rb_okD(2) [OF ok i] frame_slot_at [OF ok s] by auto
    with h show ?thesis by (auto intro: delivers_single)
  qed
  then show "\<exists>out. fr = frames @ out \<and> delivers (head_seq_num t) out (Suc s) (head_seq_num t1) \<and>
      map skb_id out = map skb_id (reorder_buf t ! ?i)"
    using rel(1) by (intro exI [of _ ?out]) simp
qed

section \<open>Moving frames out of the buffer\<close>

definition stored_ids :: "tid_ampdu_rx \<Rightarrow> nat multiset" where
  "stored_ids t = image_mset skb_id (mset (concat (reorder_buf t)))"

lemma mset_concat_update:
  "i < length buf \<Longrightarrow> mset (concat (buf[i := q])) + mset (buf ! i) = mset (concat buf) + mset q"
proof (induction buf arbitrary: i)
  case (Cons p buf)
  then show ?case by (cases i) (auto simp: ac_simps)
qed simp

text \<open>
  A piece of code that takes the session from \<open>t\<close> to \<open>t1\<close> moves frames to the output in order,
  advances the head by \<open>a\<close>, and neither loses nor frees a frame.
\<close>

definition moved :: "tid_ampdu_rx \<Rightarrow> rx_skb list \<Rightarrow> nat \<Rightarrow> tid_ampdu_rx \<Rightarrow> rx_skb list \<Rightarrow> bool" where
  "moved t frames a t1 frames1 \<longleftrightarrow>
     rb_ok t1 \<and> buf_size t1 = buf_size t \<and> freed t1 = freed t \<and> auto_seq t1 = auto_seq t \<and>
     started t1 = started t \<and>
     (\<exists>out. frames1 = frames @ out \<and> delivers (head_seq_num t) out a (head_seq_num t1) \<and>
        image_mset skb_id (mset out) + stored_ids t1 = stored_ids t)"

lemma moved_refl: "rb_ok t \<Longrightarrow> moved t frames 0 t frames"
  by (simp add: moved_def)

lemma moved_trans:
  assumes "moved t fr a t1 fr1" and "moved t1 fr1 b t2 fr2" and "a + b < 4096"
  shows "moved t fr (a + b) t2 fr2"
proof -
  obtain o1 where o1: "fr1 = fr @ o1" "delivers (head_seq_num t) o1 a (head_seq_num t1)"
    "image_mset skb_id (mset o1) + stored_ids t1 = stored_ids t"
    using assms(1) by (auto simp: moved_def)
  obtain o2 where o2: "fr2 = fr1 @ o2" "delivers (head_seq_num t1) o2 b (head_seq_num t2)"
    "image_mset skb_id (mset o2) + stored_ids t2 = stored_ids t1"
    using assms(2) by (auto simp: moved_def)
  have "delivers (head_seq_num t) (o1 @ o2) (a + b) (head_seq_num t2)"
    using delivers_append o1(2) o2(2) assms(3) by blast
  moreover have "image_mset skb_id (mset (o1 @ o2)) + stored_ids t2 = stored_ids t"
    using o1(3) o2(3) by (metis (no_types, lifting) add.assoc image_mset_union mset_append)
  ultimately show ?thesis
    using assms(1,2) o1(1) o2(1) by (auto simp: moved_def)
qed

lemma rb_ok_timer: "rb_ok (t\<lparr>reorder_timer := x\<rparr>) = rb_ok t"
  by (simp add: rb_ok_def rb_frame_ok_def slot_def)

lemma moved_timer: "rb_ok t \<Longrightarrow> moved t fr 0 (t\<lparr>reorder_timer := x\<rparr>) fr"
  by (simp add: moved_def rb_ok_timer stored_ids_def)

lemma moved_set_timer: "rb_ok t \<Longrightarrow> moved t fr 0 (set_release_timer j t) fr"
  by (auto simp: set_release_timer_def intro: moved_refl moved_timer)

lemma skip_release_moved:
  assumes ok: "rb_ok t" and s: "s < unat (buf_size t)"
    and empty: "\<forall>d < s. reorder_buf t ! slot_at t d = []"
    and r: "skip_release s t frames = (t1, fr)"
  shows "moved t frames (Suc s) t1 fr"
proof -
  note sr = skip_release_rb [OF assms]
  obtain out where out: "fr = frames @ out"
    "delivers (head_seq_num t) out (Suc s) (head_seq_num t1)"
    "map skb_id out = map skb_id (reorder_buf t ! slot_at t s)"
    using sr(2) by blast
  have len: "slot_at t s < length (reorder_buf t)"
    using ok slot_at_less [OF ok] by (simp add: rb_ok_def)
  have "image_mset skb_id (mset out) = image_mset skb_id (mset (reorder_buf t ! slot_at t s))"
    using out(3) by (metis mset_map)
  then have "image_mset skb_id (mset out) + stored_ids t1 = stored_ids t"
    using sr(3) mset_concat_update [OF len, of "[]"]
    by (simp add: stored_ids_def flip: image_mset_union) (simp add: add.commute)
  with out sr show ?thesis by (auto simp: moved_def)
qed

section \<open>The release loops\<close>

lemma release_frame_skip:
  "skip_release 0 t frames = ieee80211_release_reorder_frame t (slot t (head_seq_num t)) frames"
  by (simp add: skip_release_def split: prod.splits)

lemma release_frames_moved:
  "rb_ok t \<Longrightarrow> sn_dist (head_seq_num t) head < 2048 \<Longrightarrow>
   \<exists>t1 fr. ieee80211_release_reorder_frames t head frames = (t1, fr) \<and>
     moved t frames (sn_dist (head_seq_num t) head) t1 fr"
proof (induction t head frames rule: ieee80211_release_reorder_frames.induct)
  case (1 t head frames)
  show ?case
  proof (cases "ieee80211_sn_less (head_seq_num t) head")
    case False
    with "1.prems" show ?thesis
      by (subst ieee80211_release_reorder_frames.simps)
         (auto simp: sn_less_dist_pos intro: moved_refl)
  next
    case True
    obtain t1 fr where r: "skip_release 0 t frames = (t1, fr)" by fastforce
    have n: "0 < unat (buf_size t)" using "1.prems" by (auto simp: rb_ok_def)
    have m1: "moved t frames 1 t1 fr"
      using skip_release_moved [OF "1.prems"(1) n _ r] by simp
    let ?d = "sn_dist (head_seq_num t) head"
    have d: "0 < ?d" using True by (simp add: sn_less_dist_pos)
    have "head_seq_num t1 = ieee80211_sn_inc (head_seq_num t)"
      using r release_frame_head by (auto simp: release_frame_skip)
    then have d1: "sn_dist (head_seq_num t1) head = ?d - 1" using sn_dist_inc d by simp
    have "\<exists>t2 fr2. ieee80211_release_reorder_frames t1 head fr = (t2, fr2) \<and>
        moved t1 fr (sn_dist (head_seq_num t1) head) t2 fr2"
      by (rule "1.IH" [OF True]) (use m1 r d1 "1.prems" in \<open>auto simp: moved_def release_frame_skip\<close>)
    then obtain t2 fr2 where rec: "ieee80211_release_reorder_frames t1 head fr = (t2, fr2)"
      "moved t1 fr (?d - 1) t2 fr2" using d1 by auto
    have "moved t frames (1 + (?d - 1)) t2 fr2"
      using m1 rec(2) "1.prems"(2) by (intro moved_trans) auto
    moreover have "ieee80211_release_reorder_frames t head frames = (t2, fr2)"
      using True r rec(1)
      by (subst ieee80211_release_reorder_frames.simps) (simp add: release_frame_skip)
    ultimately show ?thesis using d by auto
  qed
qed

lemma stored_bound: "rb_ok t \<Longrightarrow> unat (stored_mpdu_num t) \<le> unat (buf_size t)"
  using stored_slots_le [of "reorder_buf t"] by (simp add: rb_ok_def)

lemma release_ready_moved:
  "rb_ok t \<Longrightarrow> unat (stored_mpdu_num t) < fuel \<Longrightarrow>
   \<exists>t1 fr a. release_ready fuel t (slot t (head_seq_num t)) frames = Some (t1, fr) \<and>
     moved t frames a t1 fr \<and> a \<le> unat (stored_mpdu_num t)"
proof (induction fuel arbitrary: t frames)
  case (Suc fuel)
  let ?i = "slot t (head_seq_num t)"
  have i: "?i < unat (buf_size t)" using slot_less [OF Suc.prems(1)] .
  show ?case
  proof (cases "reorder_buf t ! ?i = []")
    case True
    with Suc.prems i show ?thesis
      using ready_iff [OF Suc.prems(1) i] moved_refl [OF Suc.prems(1)] by auto
  next
    case False
    obtain t1 fr where r: "skip_release 0 t frames = (t1, fr)" by fastforce
    have n: "0 < unat (buf_size t)" using Suc.prems by (auto simp: rb_ok_def)
    have m1: "moved t frames 1 t1 fr"
      using skip_release_moved [OF Suc.prems(1) n _ r] by simp
    have len: "?i < length (reorder_buf t)" using i Suc.prems(1) by (simp add: rb_ok_def)
    have "reorder_buf t1 = (reorder_buf t)[?i := []]"
      using skip_release_rb(3) [OF Suc.prems(1) n _ r] by simp
    then have st: "unat (stored_mpdu_num t1) = unat (stored_mpdu_num t) - 1"
      "0 < unat (stored_mpdu_num t)"
      using stored_slots_update_Nil [OF len False] m1 Suc.prems(1)
      by (auto simp: rb_ok_def moved_def)
    have "\<exists>t2 fr2 a. release_ready fuel t1 (slot t1 (head_seq_num t1)) fr = Some (t2, fr2) \<and>
        moved t1 fr a t2 fr2 \<and> a \<le> unat (stored_mpdu_num t1)"
      by (rule Suc.IH) (use m1 st Suc.prems in \<open>auto simp: moved_def\<close>)
    then obtain t2 fr2 a where
      rec: "release_ready fuel t1 (slot t1 (head_seq_num t1)) fr = Some (t2, fr2)"
        "moved t1 fr a t2 fr2" "a \<le> unat (stored_mpdu_num t1)" by blast
    have "unat (stored_mpdu_num t) \<le> 64"
      using stored_bound [OF Suc.prems(1)] Suc.prems(1) by (auto simp: rb_ok_def)
    then have "moved t frames (1 + a) t2 fr2"
      using m1 rec(2,3) st by (intro moved_trans) auto
    with rec False r st ready_iff [OF Suc.prems(1) i] show ?thesis
      by (auto simp: release_frame_skip)
  qed
qed simp

lemma takeWhile_suffix:
  "distinct (pre @ j # js) \<Longrightarrow> takeWhile (\<lambda>i. i \<noteq> j) (pre @ j # js) = pre"
  by (subst takeWhile_append2) auto

lemma fold_free_empty:
  "\<forall>i \<in> set is. reorder_buf t ! i = [] \<and> i < length (reorder_buf t) \<Longrightarrow> fold free_slot is t = t"
proof (induction "is" arbitrary: t)
  case (Cons i "is")
  have "(reorder_buf t)[i := []] = reorder_buf t" using Cons.prems by (metis list.set_intros(1) list_update_id)
  then have "free_slot i t = t" using Cons.prems by (simp add: free_slot_def)
  with Cons show ?case by simp
qed simp

lemma ring_after_distinct: "0 < n \<Longrightarrow> index < n \<Longrightarrow> distinct (ring_after n index)"
  unfolding ring_after_def distinct_map
  by (auto intro!: inj_onI dest: mod_add_inj_less) (metis linorder_le_cases mod_add_inj_less)

lemma ring_after_less: "index < n \<Longrightarrow> i \<in> set (ring_after n index) \<Longrightarrow> i < n"
  by (auto simp: ring_after_def)

lemma map_upt_Cons:
  assumes "x # xs = map (\<lambda>e. f (s + e)) [0..<length (x # xs)]"
  shows "x = f s" "xs = map (\<lambda>e. f (Suc s + e)) [0..<length xs]"
proof -
  have u: "[0..<length (x # xs)] = 0 # map Suc [0..<length xs]"
    by (simp add: upt_conv_Cons map_Suc_upt del: upt_Suc)
  have "x # xs = f s # map (\<lambda>e. f (Suc s + e)) [0..<length xs]"
    by (subst assms, subst u) (simp add: comp_def)
  then show "x = f s" "xs = map (\<lambda>e. f (Suc s + e)) [0..<length xs]"
    by blast+
qed

lemma expire_moved:
  "\<lbrakk> rb_ok t; skipped + length js \<le> unat (buf_size t);
     js = map (\<lambda>e. slot_at t (skipped + e)) [0..<length js];
     \<forall>d < skipped. reorder_buf t ! slot_at t d = [];
     ring_after (unat (buf_size t)) index = pre @ js; index < unat (buf_size t);
     \<forall>i \<in> set pre. reorder_buf t ! i = [] \<rbrakk> \<Longrightarrow>
   \<exists>t1 fr r a. reorder_expire now index skipped t frames js = (t1, fr, r) \<and>
     moved t frames a t1 fr \<and> a \<le> skipped + length js"
proof (induction js arbitrary: t skipped frames pre)
  case Nil
  then show ?case using moved_refl by fastforce
next
  case (Cons j js)
  let ?n = "unat (buf_size t)"
  have j: "j = slot_at t skipped"
    and js: "js = map (\<lambda>e. slot_at t (Suc skipped + e)) [0..<length js]"
    using map_upt_Cons [OF Cons.prems(3)] by simp_all
  have jn: "j < ?n" using j slot_at_less [OF Cons.prems(1)] by simp
  have ring: "ring_after ?n index = (pre @ [j]) @ js" using Cons.prems(5) by simp
  show ?case
  proof (cases "reorder_buf t ! j = []")
    case True
    have "\<exists>t1 fr r a. reorder_expire now index (Suc skipped) t frames js = (t1, fr, r) \<and>
        moved t frames a t1 fr \<and> a \<le> Suc skipped + length js"
    proof (rule Cons.IH [OF Cons.prems(1) _ js _ ring Cons.prems(6)])
      show "\<forall>d < Suc skipped. reorder_buf t ! slot_at t d = []"
        using Cons.prems(4) True j by (auto simp: less_Suc_eq)
    qed (use Cons.prems(1,2,5,6,7) True in auto)
    with True show ?thesis using ready_iff [OF Cons.prems(1) jn] by auto
  next
    case False
    then have rdy: "ieee80211_rx_reorder_ready t j" using ready_iff [OF Cons.prems(1) jn] by simp
    show ?thesis
    proof (cases "skipped \<noteq> 0 \<and> \<not> time_after now (reorder_time t ! j + HT_RX_REORDER_BUF_TIMEOUT)")
      case True
      with rdy show ?thesis using moved_refl [OF Cons.prems(1)] by fastforce
    next
      case F: False
      have s0: "0 < ?n" using Cons.prems(6) by simp
      have dist: "distinct (ring_after ?n index)"
        using ring_after_distinct [OF _ Cons.prems(6)] s0 by simp
      have prebound: "\<forall>i \<in> set pre. i < ?n"
        using ring_after_less [OF Cons.prems(6)] Cons.prems(5) by auto
      have tw: "takeWhile (\<lambda>i. i \<noteq> j) (ring_after ?n index) = pre"
        using dist Cons.prems(5) by (simp add: takeWhile_suffix)
      have fr0: "fold free_slot (takeWhile (\<lambda>i. i \<noteq> j) (ring_after ?n index)) t = t"
        unfolding tw
        by (rule fold_free_empty) (use Cons.prems(1,7) prebound in \<open>auto simp: rb_ok_def\<close>)
      obtain t1 fr1 where r: "skip_release skipped t frames = (t1, fr1)" by fastforce
      have s: "skipped < ?n" using Cons.prems(2) by simp
      note sm = skip_release_moved [OF Cons.prems(1) s Cons.prems(4) r]
      note sb = skip_release_rb [OF Cons.prems(1) s Cons.prems(4) r]
      have head1: "ahead (head_seq_num t) (Suc skipped) (head_seq_num t1)"
        using sm by (auto simp: moved_def delivers_def)
      have at1: "slot_at t1 e = slot_at t (Suc skipped + e)" for e
      proof -
        have dvd: "int ?n dvd 4096"
          using Cons.prems(1) int_dvd_int_iff [of ?n 4096] by (simp add: rb_ok_def)
        have "uint (head_seq_num t1) mod int ?n = (uint (head_seq_num t) + int (Suc skipped)) mod int ?n"
          using head1 mod_mod_cancel [OF dvd] unfolding ahead_def by metis
        then have "(uint (head_seq_num t1) + int e) mod int ?n =
            (uint (head_seq_num t) + int (Suc skipped) + int e) mod int ?n"
          by (rule mod_add_cong) simp
        then have "int (slot_at t1 e) = int (slot_at t (Suc skipped + e))"
          using sb(4) by (simp add: slot_at_def zmod_int algebra_simps)
        then show ?thesis by simp
      qed
      have "\<exists>t2 fr2 r a. reorder_expire now index 0 t1 fr1 js = (t2, fr2, r) \<and>
          moved t1 fr1 a t2 fr2 \<and> a \<le> 0 + length js"
      proof (rule Cons.IH [where pre = "pre @ [j]"])
        show "rb_ok t1" by (rule sb(1))
        show "js = map (\<lambda>e. slot_at t1 (0 + e)) [0..<length js]"
          using js at1 by simp
        show "ring_after (unat (buf_size t1)) index = (pre @ [j]) @ js" using ring sb(4) by simp
        show "\<forall>i \<in> set (pre @ [j]). reorder_buf t1 ! i = []"
          using sb(3) Cons.prems(7) j jn Cons.prems(1)
          by (auto simp: nth_list_update rb_ok_def)
      qed (use Cons.prems(2,6) sb(4) in auto)
      then obtain t2 fr2 r' a where rec: "reorder_expire now index 0 t1 fr1 js = (t2, fr2, r')"
        "moved t1 fr1 a t2 fr2" "a \<le> length js" by auto
      have "?n \<le> 64" using Cons.prems(1) by (simp add: rb_ok_def)
      then have "moved t frames (Suc skipped + a) t2 fr2"
        using sm rec(2,3) Cons.prems(2) by (intro moved_trans) auto
      moreover have "reorder_expire now index skipped t frames (j # js) = (t2, fr2, r')"
      proof -
        have "(head_seq_num x + 0) AND IEEE80211_SN_MASK = head_seq_num x"
          if "ieee80211_release_reorder_frame t (slot_at t 0) frames = (x, y)" for x y
          using release_frame_head [OF that]
          by (simp add: ieee80211_sn_inc_def ieee80211_sn_add_def and.assoc)
        then show ?thesis
          using rdy F fr0 r rec(1) j
          by (cases "skipped = 0") (auto simp: skip_release_def Let_def split: prod.splits)
      qed
      ultimately show ?thesis using rec(3) by fastforce
    qed
  qed
qed

text \<open>The search for the next frame ends at the first slot that is ready, if there is one.\<close>

lemma search_ready_Some:
  "ieee80211_rx_reorder_ready t ((j + k) mod unat (buf_size t)) \<Longrightarrow> k < fuel \<Longrightarrow>
   j < unat (buf_size t) \<Longrightarrow> \<exists>r. search_ready fuel t index j = Some r"
proof (induction fuel arbitrary: j k)
  case (Suc fuel)
  let ?n = "unat (buf_size t)"
  show ?case
  proof (cases k)
    case 0
    with Suc.prems show ?thesis by simp
  next
    case (Suc k')
    have "(Suc j mod ?n + k') mod ?n = (j + k) mod ?n"
      using Suc by (simp add: mod_simps)
    with Suc Suc.prems Suc.IH [of "Suc j mod ?n" k'] show ?thesis by simp
  qed
qed simp

lemma search_from:
  assumes "i < unat (buf_size t)" "ieee80211_rx_reorder_ready t i" "index < unat (buf_size t)"
  shows "\<exists>r. search_ready (Suc (unat (buf_size t))) t index index = Some r"
proof -
  let ?n = "unat (buf_size t)"
  have "(index + (i + ?n - index) mod ?n) mod ?n = i"
    using assms(1,3) by (simp add: mod_simps)
  with assms(2) have "ieee80211_rx_reorder_ready t ((index + (i + ?n - index) mod ?n) mod ?n)"
    by simp
  then show ?thesis
    using assms(3) by (intro search_ready_Some [where k = "(i + ?n - index) mod ?n"])
      (simp_all add: less_Suc_eq)
qed

lemma ring_after_slots:
  "ring_after (unat (buf_size t)) (slot t (head_seq_num t)) =
   map (\<lambda>e. slot_at t (1 + e)) [0..<length (ring_after (unat (buf_size t)) (slot t (head_seq_num t)))]"
proof -
  let ?n = "unat (buf_size t)"
  have "[1..<?n] = map Suc [0..<?n - 1]"
    by (cases ?n) (simp_all add: map_Suc_upt del: upt_Suc)
  then show ?thesis
    by (auto simp: ring_after_def slot_at_def slot_def mod_simps ac_simps simp del: upt_Suc)
qed

lemma reorder_release_moved:
  assumes ok: "rb_ok t"
  shows "\<exists>t1 fr a. ieee80211_sta_reorder_release now t frames = Some (t1, fr) \<and>
     moved t frames a t1 fr \<and> a \<le> 64"
proof -
  let ?n = "unat (buf_size t)" and ?i = "slot t (head_seq_num t)"
  define fin where "fin = (\<lambda>t1 frames1.
      if stored_mpdu_num t1 \<noteq> 0
      then map_option (\<lambda>j. (set_release_timer j t1, frames1 :: rx_skb list))
             (search_ready (Suc ?n) t1 (slot t1 (head_seq_num t1)) (slot t1 (head_seq_num t1)))
      else Some (t1\<lparr>reorder_timer := None\<rparr>, frames1))"
  have n: "?n \<le> 64" "2 \<le> ?n" using ok by (auto simp: rb_ok_def)
  have i: "?i < ?n" using slot_less [OF ok] .
  have fin: "\<exists>t2. fin t1 fr = Some (t2, fr) \<and> moved t frames a t2 fr"
    if m: "moved t frames a t1 fr" and a: "a \<le> 64" for t1 fr a
  proof (cases "stored_mpdu_num t1 = 0")
    case True
    have "moved t frames (a + 0) (t1\<lparr>reorder_timer := None\<rparr>) fr"
      using m a by (intro moved_trans [OF m] moved_timer) (auto simp: moved_def)
    with True show ?thesis by (simp add: fin_def)
  next
    case False
    have ok1: "rb_ok t1" and bs: "buf_size t1 = buf_size t" using m by (auto simp: moved_def)
    have "stored_slots (reorder_buf t1) \<noteq> 0"
      using False ok1 by (metis rb_ok_def unat_eq_zero)
    then obtain k where "k < ?n" "reorder_buf t1 ! k \<noteq> []"
      using stored_slots_0 ok1 bs by (auto simp: rb_ok_def)
    then have "\<exists>r. search_ready (Suc ?n) t1 (slot t1 (head_seq_num t1)) (slot t1 (head_seq_num t1)) = Some r"
      using search_from [of k t1] ready_iff [OF ok1] slot_less [OF ok1] bs by simp
    then obtain r where
      "search_ready (Suc ?n) t1 (slot t1 (head_seq_num t1)) (slot t1 (head_seq_num t1)) = Some r"
      by blast
    moreover have "moved t frames (a + 0) (set_release_timer r t1) fr"
      using m a by (intro moved_trans [OF m] moved_set_timer) (auto simp: moved_def)
    ultimately show ?thesis using False by (simp add: fin_def)
  qed
  show ?thesis
  proof (cases "\<not> ieee80211_rx_reorder_ready t ?i \<and> stored_mpdu_num t \<noteq> 0")
    case True
    have len: "length (ring_after ?n ?i) = ?n - 1" by (simp add: ring_after_def)
    have "\<exists>t1 fr r a. reorder_expire now ?i 1 t frames (ring_after ?n ?i) = (t1, fr, r) \<and>
        moved t frames a t1 fr \<and> a \<le> 1 + length (ring_after ?n ?i)"
    proof (rule expire_moved [OF ok _ ring_after_slots])
      show "\<forall>d < 1. reorder_buf t ! slot_at t d = []"
        using True ready_iff [OF ok i] by simp
      show "ring_after ?n ?i = [] @ ring_after ?n ?i" by simp
    qed (use len n i in auto)
    then obtain t1 fr r a where
      e: "reorder_expire now ?i 1 t frames (ring_after ?n ?i) = (t1, fr, r)"
      "moved t frames a t1 fr" "a \<le> 1 + length (ring_after ?n ?i)" by blast
    have a: "a \<le> 64" using e(3) len n by simp
    show ?thesis
    proof (cases r)
      case None
      with True e(1) have "ieee80211_sta_reorder_release now t frames = fin t1 fr"
        by (simp add: ieee80211_sta_reorder_release_def Let_def fin_def del: search_ready.simps)
      with fin [OF e(2) a] a show ?thesis by auto
    next
      case (Some j)
      have "moved t frames (a + 0) (set_release_timer j t1) fr"
        using e(2) a by (intro moved_trans [OF e(2)] moved_set_timer) (auto simp: moved_def)
      with Some True e(1) a show ?thesis
        by (auto simp: ieee80211_sta_reorder_release_def Let_def)
    qed
  next
    case False
    have st: "unat (stored_mpdu_num t) < Suc ?n" using stored_bound [OF ok] by simp
    obtain t1 fr a where r: "release_ready (Suc ?n) t ?i frames = Some (t1, fr)"
      "moved t frames a t1 fr" "a \<le> unat (stored_mpdu_num t)"
      using release_ready_moved [OF ok st] by blast
    have "a \<le> 64" using r(3) st n by simp
    moreover have "ieee80211_sta_reorder_release now t frames = fin t1 fr"
      using False r(1) unfolding ieee80211_sta_reorder_release_def Let_def fin_def
      by (auto simp del: release_ready.simps search_ready.simps)
    ultimately show ?thesis using fin [OF r(2)] by auto
  qed
qed

section \<open>Receiving a frame\<close>

text \<open>
  What one step does for a session that is in use: it hands \<open>out\<close> up in order, advances the head
  by at most 2112, and accounts for every frame.
\<close>

definition session_ids :: "tid_ampdu_rx \<Rightarrow> nat multiset" where
  "session_ids t = stored_ids t + image_mset skb_id (mset (freed t))"

definition rb_step :: "tid_ampdu_rx \<Rightarrow> nat multiset \<Rightarrow> tid_ampdu_rx \<Rightarrow> rx_skb list \<Rightarrow> bool" where
  "rb_step t new t1 out \<longleftrightarrow> rb_ok t1 \<and> started t1 \<and> \<not> auto_seq t1 \<and>
     (\<exists>a \<le> 2112. delivers (head_seq_num t) out a (head_seq_num t1)) \<and>
     image_mset skb_id (mset out) + session_ids t1 = session_ids t + new"

lemma moved_rb_step:
  assumes "moved t [] a t1 out" "a \<le> 2112" "started t" "\<not> auto_seq t"
  shows "rb_step t {#} t1 out"
  using assms by (auto simp: moved_def rb_step_def session_ids_def)

text \<open>The window test of \<open>ieee80211_sta_manage_reorder_buf\<close>.\<close>

lemma ahead_add:
  assumes "unat n \<le> 64" shows "ahead h (unat n) (h + n)"
proof -
  have "uint (h + n) mod 4096 = (uint h + uint n) mod 65536 mod 4096"
    by (simp add: uint_word_ariths)
  also have "\<dots> = (uint h + int (unat n)) mod 4096" by (subst mod_mod_cancel) simp_all
  finally show ?thesis by (simp add: ahead_def)
qed

lemma window_test:
  assumes "2 \<le> unat n" "unat n \<le> 64" "\<not> ieee80211_sn_less sn h"
  shows "\<not> ieee80211_sn_less sn (h + n) \<longleftrightarrow> unat n \<le> sn_dist h sn"
proof -
  let ?o = "sn_dist h sn" and ?h = "h + n"
  have off: "?o \<le> 2048" using assms(3) by (simp add: sn_less_dist)
  have a: "ahead h (unat n) ?h" using ahead_add assms(2) by simp
  show ?thesis
  proof (cases "unat n \<le> ?o")
    case True
    with sn_dist_ahead_ge [OF a] off assms(1) show ?thesis by (simp add: sn_less_dist)
  next
    case False
    have "2048 < sn_dist ?h sn"
    proof (rule ccontr)
      assume "\<not> 2048 < sn_dist ?h sn"
      with assms(2) have "sn_dist h sn = unat n + sn_dist ?h sn"
        by (intro sn_dist_ahead_le [OF a]) simp
      with False show False by simp
    qed
    with False show ?thesis by (simp add: sn_less_dist)
  qed
qed

lemma release_target:
  assumes "unat n \<le> 64" "unat n \<le> sn_dist h sn" "sn_dist h sn \<le> 2048" "0 < unat n"
  shows "sn_dist h (ieee80211_sn_inc (ieee80211_sn_sub sn n)) = sn_dist h sn - unat n + 1"
proof -
  let ?x = "ieee80211_sn_inc (ieee80211_sn_sub sn n)"
  have "uint (ieee80211_sn_sub sn n) = uint (sn - n) mod 4096"
    by (simp add: ieee80211_sn_sub_def uint_and_mask)
  also have "\<dots> = (uint sn - uint n) mod 65536 mod 4096"
    by (simp add: uint_word_ariths)
  also have "\<dots> = (uint sn - uint n) mod 4096" by (rule mod_mod_cancel) simp
  finally have "int (sn_dist h ?x) = (uint sn - uint n + 1 - uint h) mod 4096"
    by (simp add: int_sn_dist uint_sn_inc mod_simps)
  also have "\<dots> = ((uint sn - uint h) - (uint n - 1)) mod 4096" by (simp add: algebra_simps)
  also have "\<dots> = ((uint sn - uint h) mod 4096 - (uint n - 1)) mod 4096" by (simp only: mod_simps)
  also have "\<dots> = ((uint sn - uint h) mod 4096 - int (unat n) + 1) mod 4096"
    by (simp add: algebra_simps)
  also have "\<dots> = int (sn_dist h sn) - int (unat n) + 1"
    unfolding int_sn_dist [symmetric] using assms by (intro mod_pos_pos_trivial) linarith+
  finally show ?thesis using assms by linarith
qed

text \<open>Storing a frame in its empty slot.\<close>

definition store_frame :: "u64 \<Rightarrow> nat \<Rightarrow> rx_skb \<Rightarrow> tid_ampdu_rx \<Rightarrow> tid_ampdu_rx" where
  "store_frame now i skb t = t\<lparr>reorder_buf := (reorder_buf t)[i := reorder_buf t ! i @ [skb]],
     reorder_time := (reorder_time t)[i := now], stored_mpdu_num := stored_mpdu_num t + 1\<rparr>"

lemma store_frame_ok:
  assumes ok: "rb_ok t" and e: "reorder_buf t ! slot t (mpdu_sn skb) = []"
    and d: "sn_dist (head_seq_num t) (mpdu_sn skb) < unat (buf_size t)" "\<not> amsdu_more skb"
  shows "rb_ok (store_frame now (slot t (mpdu_sn skb)) skb t)"
    and "stored_ids (store_frame now (slot t (mpdu_sn skb)) skb t) = stored_ids t + {#skb_id skb#}"
proof -
  let ?i = "slot t (mpdu_sn skb)"
  have i: "?i < unat (buf_size t)" using slot_less [OF ok] .
  then have len: "?i < length (reorder_buf t)" using ok by (simp add: rb_ok_def)
  have s: "unat (stored_mpdu_num t) \<le> 64" using stored_bound [OF ok] ok by (simp add: rb_ok_def)
  then have "unat (stored_mpdu_num t + 1) = unat (stored_mpdu_num t) + 1"
    by (simp add: unat_word_ariths)
  moreover have "rb_frame_ok (store_frame now ?i skb t) j f = rb_frame_ok t j f" for j f
    by (simp add: rb_frame_ok_def store_frame_def slot_def)
  moreover have "rb_frame_ok t ?i skb" using d by (simp add: rb_frame_ok_def)
  ultimately show "rb_ok (store_frame now ?i skb t)"
    using ok e len i stored_slots_update_full [OF len e]
    by (auto simp: rb_ok_def store_frame_def nth_list_update split: if_splits)
  show "stored_ids (store_frame now ?i skb t) = stored_ids t + {#skb_id skb#}"
    using mset_concat_update [OF len, of "[skb]"] e by (simp add: stored_ids_def store_frame_def)
qed

lemma rb_ok_freed: "rb_ok (t\<lparr>freed := x\<rparr>) = rb_ok t"
  by (simp add: rb_ok_def rb_frame_ok_def slot_def)

lemma rb_ok_started: "rb_ok (t\<lparr>started := x\<rparr>) = rb_ok t"
  by (simp add: rb_ok_def rb_frame_ok_def slot_def)

text \<open>Passing the frame at the head of an empty buffer straight on.\<close>

lemma pass_frame_ok:
  assumes ok: "rb_ok t" and z: "stored_mpdu_num t = 0"
  shows "rb_ok (t\<lparr>head_seq_num := h\<rparr>)"
proof -
  have "stored_slots (reorder_buf t) = 0" using ok z by (metis rb_ok_def unat_0)
  then have "\<forall>i < unat (buf_size t). reorder_buf t ! i = []"
    using ok stored_slots_0 by (auto simp: rb_ok_def)
  with ok show ?thesis by (auto simp: rb_ok_def)
qed

lemma move_window:
  assumes ok: "rb_ok t" and ns: "\<not> ieee80211_sn_less sn (head_seq_num t)"
    and m: "(if \<not> ieee80211_sn_less sn (head_seq_num t + buf_size t)
             then ieee80211_release_reorder_frames t
                    (ieee80211_sn_inc (ieee80211_sn_sub sn (buf_size t))) []
             else (t, [])) = (t2, fr)"
  shows "\<exists>a \<le> 2047. moved t [] a t2 fr \<and> sn_dist (head_seq_num t2) sn < unat (buf_size t)"
proof -
  let ?n = "unat (buf_size t)" and ?h = "head_seq_num t"
  have n: "2 \<le> ?n" "?n \<le> 64" using ok by (auto simp: rb_ok_def)
  have off: "sn_dist ?h sn \<le> 2048" using ns by (simp add: sn_less_dist)
  show ?thesis
  proof (cases "?n \<le> sn_dist ?h sn")
    case False
    with m n ns window_test [of "buf_size t" sn ?h] have "t2 = t" "fr = []" by (auto split: if_splits)
    with False show ?thesis using moved_refl [OF ok] by (intro exI [of _ 0]) auto
  next
    case True
    let ?x = "ieee80211_sn_inc (ieee80211_sn_sub sn (buf_size t))"
    have d: "sn_dist ?h ?x = sn_dist ?h sn - ?n + 1"
      using release_target [of "buf_size t" ?h sn] True off n by simp
    have r: "ieee80211_release_reorder_frames t ?x [] = (t2, fr)"
      using m True n ns window_test [of "buf_size t" sn ?h] by (auto split: if_splits)
    have "sn_dist ?h ?x < 2048" using d off n True by simp
    then have mv: "moved t [] (sn_dist ?h ?x) t2 fr"
      using release_frames_moved [OF ok, of ?x "[]"] r by simp
    then have "ahead ?h (sn_dist ?h ?x) (head_seq_num t2)" by (auto simp: moved_def delivers_def)
    then have "sn_dist (head_seq_num t2) sn = sn_dist ?h sn - sn_dist ?h ?x"
      using d True n by (intro sn_dist_ahead_ge) auto
    with mv d off n True show ?thesis by (intro exI [of _ "sn_dist ?h ?x"]) auto
  qed
qed

lemma moved_snoc:
  assumes m: "moved t [] a t2 fr" and a: "a \<le> 2047"
    and s: "sn_dist (head_seq_num t2) (mpdu_sn skb) = 0"
  shows "delivers (head_seq_num t) (fr @ [skb]) (a + 1) (ieee80211_sn_inc (head_seq_num t2))"
proof -
  have "delivers (head_seq_num t) fr a (head_seq_num t2)" using m by (auto simp: moved_def)
  moreover have "delivers (head_seq_num t2) [skb] 1 (ieee80211_sn_inc (head_seq_num t2))"
    using s ahead_inc by (intro delivers_single) auto
  ultimately show ?thesis using a by (intro delivers_append) auto
qed

text \<open>The decision about a frame once the window has moved.\<close>

lemma manage_unfold:
  assumes st: "started t" "\<not> auto_seq t" and ns: "\<not> ieee80211_sn_less (mpdu_sn skb) (head_seq_num t)"
    and m: "(if \<not> ieee80211_sn_less (mpdu_sn skb) (head_seq_num t + buf_size t)
             then ieee80211_release_reorder_frames t
                    (ieee80211_sn_inc (ieee80211_sn_sub (mpdu_sn skb) (buf_size t))) []
             else (t, [])) = (t2, fr)"
    and am: "\<not> amsdu_more skb" and e: "reorder_buf t2 ! slot t2 (mpdu_sn skb) = [] \<or>
       ieee80211_rx_reorder_ready t2 (slot t2 (mpdu_sn skb))"
  shows "ieee80211_sta_manage_reorder_buf now t skb [] =
    (if ieee80211_rx_reorder_ready t2 (slot t2 (mpdu_sn skb))
     then Some (True, t2\<lparr>freed := freed t2 @ [skb]\<rparr>, fr)
     else if mpdu_sn skb = head_seq_num t2 \<and> stored_mpdu_num t2 = 0
     then Some (False, t2\<lparr>head_seq_num := ieee80211_sn_inc (head_seq_num t2)\<rparr>, fr)
     else map_option (\<lambda>(t5, frames5). (True, t5, frames5))
       (ieee80211_sta_reorder_release now (store_frame now (slot t2 (mpdu_sn skb)) skb t2) fr))"
proof -
  have t0: "t\<lparr>started := True\<rparr> = t" using st by simp
  show ?thesis
    unfolding ieee80211_sta_manage_reorder_buf_def Let_def
    by (simp only: st ns m am t0 if_False if_True simp_thms prod.case)
      (use e in \<open>auto simp: store_frame_def\<close>)
qed

lemma ids_chain:
  "B + S2 = S1 + N \<Longrightarrow> A + S1 = S \<Longrightarrow> S2 + (A + B) = (S :: 'a multiset) + N"
  by (metis (no_types, lifting) add.assoc add.commute)

lemma manage_rb_step:
  assumes ok: "rb_ok t" and st: "started t" "\<not> auto_seq t" and am: "\<not> amsdu_more skb"
  shows "\<exists>ret t1 fr. ieee80211_sta_manage_reorder_buf now t skb [] = Some (ret, t1, fr) \<and>
     rb_step t {#skb_id skb#} t1 (if ret then fr else fr @ [skb])"
proof -
  let ?sn = "mpdu_sn skb"
  have t0: "t\<lparr>started := True\<rparr> = t" using st by simp
  show ?thesis
  proof (cases "ieee80211_sn_less ?sn (head_seq_num t)")
    case True
    let ?t1 = "t\<lparr>freed := freed t @ [skb]\<rparr>"
    have "ieee80211_sta_manage_reorder_buf now t skb [] = Some (True, ?t1, [])"
      using st t0 True by (simp add: ieee80211_sta_manage_reorder_buf_def Let_def)
    moreover have "rb_step t {#skb_id skb#} ?t1 []"
      using ok st unfolding rb_step_def
      by (intro conjI exI [of _ 0]) (simp_all add: rb_ok_freed session_ids_def stored_ids_def)
    ultimately show ?thesis by fastforce
  next
    case ns: False
    obtain t2 fr where m: "(if \<not> ieee80211_sn_less ?sn (head_seq_num t + buf_size t)
             then ieee80211_release_reorder_frames t
                    (ieee80211_sn_inc (ieee80211_sn_sub ?sn (buf_size t))) []
             else (t, [])) = (t2, fr)" by fastforce
    obtain a where a: "a \<le> 2047" "moved t [] a t2 fr"
      "sn_dist (head_seq_num t2) ?sn < unat (buf_size t)"
      using move_window [OF ok ns m] by blast
    have ok2: "rb_ok t2" and bs: "buf_size t2 = buf_size t" and fl: "started t2" "\<not> auto_seq t2"
      and fr2: "freed t2 = freed t"
      using a(2) st by (auto simp: moved_def)
    let ?i = "slot t2 ?sn"
    have i: "?i < unat (buf_size t2)" using slot_less [OF ok2] .
    show ?thesis
    proof (cases "reorder_buf t2 ! ?i = []")
      case False
      then have "ieee80211_sta_manage_reorder_buf now t skb [] =
          Some (True, t2\<lparr>freed := freed t2 @ [skb]\<rparr>, fr)"
        using manage_unfold [OF st ns m am] ready_iff [OF ok2 i] by simp
      moreover have "rb_step t {#skb_id skb#} (t2\<lparr>freed := freed t2 @ [skb]\<rparr>) fr"
        unfolding rb_step_def
        by (intro conjI exI [of _ a])
          (use a ok2 fl in \<open>auto simp: rb_ok_freed session_ids_def stored_ids_def moved_def\<close>)
      ultimately show ?thesis by fastforce
    next
      case e: True
      then have nr: "\<not> ieee80211_rx_reorder_ready t2 ?i" using ready_iff [OF ok2 i] by simp
      show ?thesis
      proof (cases "?sn = head_seq_num t2 \<and> stored_mpdu_num t2 = 0")
        case True
        let ?t3 = "t2\<lparr>head_seq_num := ieee80211_sn_inc (head_seq_num t2)\<rparr>"
        have "ieee80211_sta_manage_reorder_buf now t skb [] = Some (False, ?t3, fr)"
          using manage_unfold [OF st ns m am] e nr True by simp
        moreover have "rb_step t {#skb_id skb#} ?t3 (fr @ [skb])"
          unfolding rb_step_def
        proof (intro conjI exI [of _ "a + 1"])
          show "delivers (head_seq_num t) (fr @ [skb]) (a + 1) (head_seq_num ?t3)"
            using moved_snoc [OF a(2,1)] True by simp
        qed (use pass_frame_ok [OF ok2] True fl a in
            \<open>auto simp: session_ids_def stored_ids_def moved_def\<close>)
        ultimately show ?thesis by fastforce
      next
        case ne: False
        let ?t4 = "store_frame now ?i skb t2"
        have d: "sn_dist (head_seq_num t2) ?sn < unat (buf_size t2)" using a(3) bs by simp
        note st4 = store_frame_ok [OF ok2 e d am, of now]
        obtain t5 fr5 b where r: "ieee80211_sta_reorder_release now ?t4 fr = Some (t5, fr5)"
          "moved ?t4 fr b t5 fr5" "b \<le> 64"
          using reorder_release_moved [OF st4(1)] by blast
        have "ieee80211_sta_manage_reorder_buf now t skb [] = Some (True, t5, fr5)"
          using manage_unfold [OF st ns m am] e nr ne r(1) by auto
        moreover have "rb_step t {#skb_id skb#} t5 fr5"
        proof -
          obtain o2 where o2: "fr5 = fr @ o2"
            "delivers (head_seq_num t2) o2 b (head_seq_num t5)"
            "image_mset skb_id (mset o2) + stored_ids t5 = stored_ids t2 + {#skb_id skb#}"
            using r(2) st4(2) by (auto simp: moved_def store_frame_def)
          have "delivers (head_seq_num t) fr5 (a + b) (head_seq_num t5)"
            using a r(3) o2 by (auto simp: moved_def intro: delivers_append)
          moreover have "freed t5 = freed t" "rb_ok t5" "started t5" "\<not> auto_seq t5"
            using r(2) fr2 fl by (auto simp: moved_def store_frame_def)
          moreover have "stored_ids t5 + (image_mset skb_id (mset fr) + image_mset skb_id (mset o2)) =
              stored_ids t + {#skb_id skb#}"
            using a(2) by (intro ids_chain [OF o2(3)]) (auto simp: moved_def)
          ultimately show ?thesis
            using o2(1) a(1) r(3) unfolding rb_step_def session_ids_def
            by (intro conjI exI [of _ "a + b"]) (simp_all add: ac_simps)
        qed
        ultimately show ?thesis by fastforce
      qed
    qed
  qed
qed

section \<open>Runs\<close>

text \<open>
  What happens to a session: a frame is received, or its reorder timer runs. A run labels each
  frame handed up with its position, the sequence number counted from the start of the run
  without wrapping: \<open>pos\<close> is the position of the head.
\<close>

datatype rx_event = Rx u64 rx_skb | Timer u64

fun reorder_step :: "rx_event \<Rightarrow> tid_ampdu_rx \<Rightarrow> (tid_ampdu_rx \<times> rx_skb list) option" where
  "reorder_step (Rx now skb) t =
     map_option (\<lambda>(ret, t1, frames). (t1, if ret then frames else frames @ [skb]))
       (ieee80211_sta_manage_reorder_buf now t skb [])"
| "reorder_step (Timer now) t = ieee80211_sta_reorder_release now t []"

fun reorder_run ::
  "rx_event list \<Rightarrow> nat \<Rightarrow> tid_ampdu_rx \<Rightarrow> (tid_ampdu_rx \<times> nat \<times> (nat \<times> rx_skb) list) option"
where
  "reorder_run [] pos t = Some (t, pos, [])"
| "reorder_run (e # es) pos t =
     (case reorder_step e t of
        None \<Rightarrow> None
      | Some (t1, frames) \<Rightarrow>
          map_option (\<lambda>(t2, pos2, out).
              (t2, pos2, map (\<lambda>f. (pos + sn_dist (head_seq_num t) (mpdu_sn f), f)) frames @ out))
            (reorder_run es (pos + sn_dist (head_seq_num t) (head_seq_num t1)) t1))"

fun event_ids :: "rx_event \<Rightarrow> nat multiset" where
  "event_ids (Rx now skb) = {#skb_id skb#}"
| "event_ids (Timer now) = {#}"

fun event_whole :: "rx_event \<Rightarrow> bool" where
  "event_whole (Rx now skb) = (\<not> amsdu_more skb)"
| "event_whole (Timer now) = True"

lemma reorder_step_ok:
  assumes "rb_ok t" "started t" "\<not> auto_seq t" "event_whole e"
  shows "\<exists>t1 out. reorder_step e t = Some (t1, out) \<and> rb_step t (event_ids e) t1 out"
proof (cases e)
  case (Rx now skb)
  with manage_rb_step [of t skb now] assms show ?thesis by fastforce
next
  case (Timer now)
  with reorder_release_moved [of t now "[]"] assms show ?thesis
    by (fastforce intro: moved_rb_step)
qed

definition positions :: "(nat \<times> rx_skb) list \<Rightarrow> nat list" where
  "positions out = map fst out"

lemma run_in_order_aux:
  "rb_ok t \<Longrightarrow> started t \<Longrightarrow> \<not> auto_seq t \<Longrightarrow> list_all event_whole es \<Longrightarrow>
   \<exists>t1 pos1 out. reorder_run es pos t = Some (t1, pos1, out) \<and> rb_ok t1 \<and> pos \<le> pos1 \<and>
     sorted_wrt (<) (positions out) \<and> (\<forall>p \<in> set (positions out). pos \<le> p \<and> p < pos1) \<and>
     image_mset (skb_id \<circ> snd) (mset out) + session_ids t1 =
       session_ids t + sum_list (map event_ids es)"
proof (induction es arbitrary: t pos)
  case Nil
  then show ?case by (simp add: positions_def)
next
  case (Cons e es)
  have we: "event_whole e" using Cons.prems by simp
  obtain t1 fr where s: "reorder_step e t = Some (t1, fr)" "rb_step t (event_ids e) t1 fr"
    using reorder_step_ok [OF Cons.prems(1,2,3) we] by blast
  from s(2) have ok1: "rb_ok t1" "started t1" "\<not> auto_seq t1" by (auto simp: rb_step_def)
  from s(2) obtain a where a: "a \<le> 2112" "delivers (head_seq_num t) fr a (head_seq_num t1)"
    by (auto simp: rb_step_def)
  have d: "sn_dist (head_seq_num t) (head_seq_num t1) = a"
    using a by (auto simp: delivers_def intro: ahead_dist)
  have wes: "list_all event_whole es" using Cons.prems(4) by simp
  obtain t2 pos2 out where r: "reorder_run es (pos + a) t1 = Some (t2, pos2, out)"
    "rb_ok t2" "pos + a \<le> pos2" "sorted_wrt (<) (positions out)"
    "\<forall>p \<in> set (positions out). pos + a \<le> p \<and> p < pos2"
    "image_mset (skb_id \<circ> snd) (mset out) + session_ids t2 =
       session_ids t1 + sum_list (map event_ids es)"
    using Cons.IH [OF ok1 wes, of "pos + a"] by blast
  let ?first = "map (\<lambda>f. (pos + sn_dist (head_seq_num t) (mpdu_sn f), f)) fr"
  have run: "reorder_run (e # es) pos t = Some (t2, pos2, ?first @ out)"
    using s(1) r(1) d by simp
  have f: "sorted_wrt (<) (positions ?first)" "\<forall>p \<in> set (positions ?first). pos \<le> p \<and> p < pos + a"
    using a(2) by (auto simp: delivers_def positions_def sorted_wrt_map comp_def)
  then have "sorted_wrt (<) (positions (?first @ out))"
    using r(4,5) by (fastforce simp: positions_def sorted_wrt_append)
  moreover have "\<forall>p \<in> set (positions (?first @ out)). pos \<le> p \<and> p < pos2"
    using f(2) r(3,5) by (fastforce simp: positions_def)
  moreover have "image_mset (skb_id \<circ> snd) (mset (?first @ out)) + session_ids t2 =
      session_ids t + sum_list (map event_ids (e # es))"
  proof -
    have "image_mset (skb_id \<circ> snd) (mset ?first) = image_mset skb_id (mset fr)"
      by (simp add: multiset.map_comp comp_def)
    moreover have "image_mset skb_id (mset fr) + session_ids t1 = session_ids t + event_ids e"
      using s(2) by (simp add: rb_step_def)
    ultimately show ?thesis
      using r(6) by simp (metis (no_types, lifting) add.assoc add.commute)
  qed
  moreover have "pos \<le> pos2" using r(3) by simp
  ultimately show ?case using run r(2) by blast
qed

text \<open>
  Property C1: block-ack reordering delivers in order. From any session in use that satisfies the
  invariant \<open>rb_ok\<close> (a buffer of 2 to 64 slots dividing 4096, no filtered frames, no split
  A-MSDUs, each stored frame in the slot of its sequence number and inside the window), for every
  sequence of received frames and timer runs: the code returns (no loop runs out of fuel), the
  frames it hands up have strictly increasing sequence numbers, counted without wrapping, from
  the head at the start to the head at the end, and the invariant holds again.
\<close>

theorem reorder_run_in_order:
  assumes "rb_ok t" "started t" "\<not> auto_seq t" "list_all event_whole es"
  shows "\<exists>t1 pos1 out. reorder_run es pos t = Some (t1, pos1, out) \<and> rb_ok t1 \<and>
    sorted_wrt (<) (map fst out) \<and> (\<forall>p \<in> set (map fst out). pos \<le> p \<and> p < pos1)"
  using run_in_order_aux [OF assms, of pos] unfolding positions_def by blast

definition demo_skb :: "nat \<Rightarrow> u16 \<Rightarrow> rx_skb" where
  "demo_skb i sn = \<lparr>skb_id = i, frame_control = 0x88, addr1 = [2, 0, 0, 0, 0, 1],
     seq_ctrl = push_bit 4 sn, qos_ctl = 0, amsdu_more = False, deferred_release = False\<rparr>"

definition demo_session :: "u16 \<Rightarrow> u16 \<Rightarrow> tid_ampdu_rx" where
  "demo_session start n = (new_tid_ampdu_rx 1 start n 0 False)\<lparr>started := True\<rparr>"

lemma demo_session_ok: "rb_ok (demo_session 4094 4)"
  by (simp add: rb_ok_def demo_session_def new_tid_ampdu_rx_def stored_slots_def)

theorem reorder_run_in_order_witness:
  "\<exists>t1 pos1 out. reorder_run [Rx 1 (demo_skb 0 4095), Rx 1 (demo_skb 1 1), Rx 1 (demo_skb 2 4094)]
       4094 (demo_session 4094 4) = Some (t1, pos1, out) \<and> rb_ok t1 \<and>
     sorted_wrt (<) (map fst out) \<and> (\<forall>p \<in> set (map fst out). 4094 \<le> p \<and> p < pos1)"
  by (rule reorder_run_in_order [OF demo_session_ok])
    (simp_all add: demo_session_def new_tid_ampdu_rx_def demo_skb_def)

end
