(* ===== verification/Reorder_Fate.thy ===== *)
theory Reorder_Fate
  imports Reorder_Props
begin

text \<open>
  The fate of frames in any session without filtered frames, A-MSDUs split by the hardware and
  buffer sizes that do not divide the sequence number space included: the code returns, and every
  frame is in the buffer, handed up, or freed. Then the limits of the code: a buffer size that
  does not divide the sequence number space, an unbounded search after filtered frames, and the
  constant \<open>jiffies\<close>.
\<close>

section \<open>Conservation of frames\<close>

definition complete :: "rx_skb list \<Rightarrow> bool" where
  "complete q \<longleftrightarrow> q \<noteq> [] \<and> \<not> amsdu_more (last q)"

definition complete_slots :: "rx_skb list list \<Rightarrow> nat" where
  "complete_slots buf = length (filter complete buf)"

definition rb_wf :: "tid_ampdu_rx \<Rightarrow> bool" where
  "rb_wf t \<longleftrightarrow> 0 < unat (buf_size t) \<and> unat (buf_size t) < 65535 \<and>
     length (reorder_buf t) = unat (buf_size t) \<and>
     reorder_buf_filtered t = 0 \<and> unat (stored_mpdu_num t) = complete_slots (reorder_buf t)"

definition all_ids :: "tid_ampdu_rx \<Rightarrow> rx_skb list \<Rightarrow> nat multiset" where
  "all_ids t frames = image_mset skb_id (mset frames) + session_ids t"

text \<open>A piece of code that keeps the session well formed and accounts for every frame.\<close>

definition kept :: "tid_ampdu_rx \<Rightarrow> rx_skb list \<Rightarrow> tid_ampdu_rx \<Rightarrow> rx_skb list \<Rightarrow> bool" where
  "kept t frames t1 frames1 \<longleftrightarrow> rb_wf t1 \<and> buf_size t1 = buf_size t \<and>
     all_ids t1 frames1 = all_ids t frames"

lemma kept_refl: "rb_wf t \<Longrightarrow> kept t frames t frames"
  by (simp add: kept_def)

lemma kept_trans: "kept t fr t1 fr1 \<Longrightarrow> kept t1 fr1 t2 fr2 \<Longrightarrow> kept t fr t2 fr2"
  by (simp add: kept_def)

lemma ready_complete:
  "rb_wf t \<Longrightarrow> ieee80211_rx_reorder_ready t i \<longleftrightarrow> complete (reorder_buf t ! i)"
  by (auto simp: rb_wf_def ieee80211_rx_reorder_ready_def complete_def split: list.splits)

lemma complete_slots_update:
  "i < length buf \<Longrightarrow>
   complete_slots (buf[i := q]) + of_bool (complete (buf ! i)) = complete_slots buf + of_bool (complete q)"
proof (induction buf arbitrary: i)
  case (Cons p buf)
  then show ?case by (cases i) (auto simp: complete_slots_def)
qed simp

lemma complete_Nil [simp]: "\<not> complete []"
  by (simp add: complete_def)

lemma free_slot_kept:
  assumes wf: "rb_wf t" and i: "i < unat (buf_size t)" and nr: "\<not> ieee80211_rx_reorder_ready t i"
  shows "kept t fr (free_slot i t) fr"
proof -
  have len: "i < length (reorder_buf t)" using wf i by (simp add: rb_wf_def)
  have "complete_slots ((reorder_buf t)[i := []]) = complete_slots (reorder_buf t)"
    using complete_slots_update [OF len, of "[]"] nr ready_complete [OF wf] by simp
  then have "rb_wf (free_slot i t)" using wf by (simp add: rb_wf_def free_slot_def)
  moreover have "all_ids (free_slot i t) fr = all_ids t fr"
    using mset_concat_update [OF len, of "[]"]
    by (simp add: all_ids_def session_ids_def stored_ids_def free_slot_def flip: image_mset_union)
       (simp add: add.commute add.left_commute)
  ultimately show ?thesis by (simp add: kept_def) (simp add: free_slot_def)
qed

lemma release_frame_kept:
  assumes wf: "rb_wf t" and i: "i < unat (buf_size t)"
    and r: "ieee80211_release_reorder_frame t i fr = (t1, fr1)"
  shows "kept t fr t1 fr1" and "reorder_buf t1 = (reorder_buf t)[i := []]"
proof -
  have len: "i < length (reorder_buf t)" using wf i by (simp add: rb_wf_def)
  have f0: "reorder_buf_filtered t = 0" using wf by (simp add: rb_wf_def)
  have u: "(reorder_buf t)[i := []] = reorder_buf t" if "reorder_buf t ! i = []"
    using that len by (metis list_update_id)
  note d = r [unfolded ieee80211_release_reorder_frame_def Let_def]
  have head: "rb_wf (t0\<lparr>reorder_buf_filtered := 0, head_seq_num := h\<rparr>) = rb_wf t0"
    "all_ids (t0\<lparr>reorder_buf_filtered := x, head_seq_num := h\<rparr>) f = all_ids t0 f"
    if "reorder_buf_filtered t0 = 0" for t0 x h f
    using that by (simp_all add: rb_wf_def all_ids_def session_ids_def stored_ids_def)
  consider (empty) "reorder_buf t ! i = []"
    | (drop) "reorder_buf t ! i \<noteq> []" "\<not> ieee80211_rx_reorder_ready t i"
    | (give) "reorder_buf t ! i \<noteq> []" "ieee80211_rx_reorder_ready t i" by blast
  then have "kept t fr t1 fr1 \<and> reorder_buf t1 = (reorder_buf t)[i := []]"
  proof cases
    case empty
    with d u wf f0 show ?thesis by (auto simp: kept_def head)
  next
    case drop
    have "kept t fr (free_slot i t) fr" by (rule free_slot_kept [OF wf i drop(2)])
    moreover have "reorder_buf_filtered (free_slot i t) = 0" using f0 by (simp add: free_slot_def)
    ultimately show ?thesis
      using d drop by (auto simp: kept_def head) (auto simp: free_slot_def)
  next
    case give
    let ?t = "t\<lparr>stored_mpdu_num := stored_mpdu_num t - 1, reorder_buf := (reorder_buf t)[i := []]\<rparr>"
    have c: "complete (reorder_buf t ! i)" using give ready_complete [OF wf] by simp
    have s: "complete_slots ((reorder_buf t)[i := []]) + 1 = complete_slots (reorder_buf t)"
      using complete_slots_update [OF len, of "[]"] c by simp
    then have "unat (stored_mpdu_num t - 1) = complete_slots ((reorder_buf t)[i := []])"
      using wf unat_minus_one [of "stored_mpdu_num t"]
      by (cases "stored_mpdu_num t = 0") (auto simp: rb_wf_def)
    then have "rb_wf ?t" using wf by (simp add: rb_wf_def)
    moreover have "all_ids ?t (fr @ map (deferred_release_update (\<lambda>_. True)) (reorder_buf t ! i)) =
        all_ids t fr"
    proof -
      have "image_mset skb_id (mset (map (deferred_release_update (\<lambda>_. True)) q)) =
          image_mset skb_id (mset q)" for q :: "rx_skb list"
        by (simp add: multiset.map_comp comp_def)
      then show ?thesis
        using arg_cong [OF mset_concat_update [OF len, of "[]"], of "image_mset skb_id"]
        by (simp add: all_ids_def session_ids_def stored_ids_def ac_simps)
    qed
    ultimately show ?thesis
      using d give f0 by (auto simp: kept_def head)
  qed
  then show "kept t fr t1 fr1" "reorder_buf t1 = (reorder_buf t)[i := []]" by auto
qed

lemma release_frames_kept:
  "rb_wf t \<Longrightarrow> kept t fr (fst (ieee80211_release_reorder_frames t head fr))
                       (snd (ieee80211_release_reorder_frames t head fr))"
proof (induction t head fr rule: ieee80211_release_reorder_frames.induct)
  case (1 t head fr)
  show ?case
  proof (cases "ieee80211_sn_less (head_seq_num t) head")
    case False
    with "1.prems" show ?thesis
      by (subst (1 2) ieee80211_release_reorder_frames.simps) (simp add: kept_refl)
  next
    case True
    obtain t1 fr1 where r: "ieee80211_release_reorder_frame t (slot t (head_seq_num t)) fr = (t1, fr1)"
      by fastforce
    have i: "slot t (head_seq_num t) < unat (buf_size t)"
      using "1.prems" by (simp add: rb_wf_def slot_def)
    have k: "kept t fr t1 fr1" by (rule release_frame_kept [OF "1.prems" i r])
    then have wf1: "rb_wf t1" by (simp add: kept_def)
    have "ieee80211_release_reorder_frames t head fr = ieee80211_release_reorder_frames t1 head fr1"
      using True r by (subst ieee80211_release_reorder_frames.simps) simp
    then show ?thesis using kept_trans [OF k "1.IH" [OF True r [symmetric] wf1]] by simp
  qed
qed

lemma kept_head_timer:
  "rb_wf t \<Longrightarrow> kept t fr (t\<lparr>head_seq_num := h\<rparr>) fr"
  "rb_wf t \<Longrightarrow> kept t fr (t\<lparr>reorder_timer := x\<rparr>) fr"
  "rb_wf t \<Longrightarrow> kept t fr (set_release_timer j t) fr"
  by (simp_all add: kept_def rb_wf_def all_ids_def session_ids_def stored_ids_def set_release_timer_def)

lemma fold_free_kept:
  "rb_wf t \<Longrightarrow> \<forall>i \<in> set is. i < unat (buf_size t) \<and> \<not> ieee80211_rx_reorder_ready t i \<Longrightarrow>
   kept t fr (fold free_slot is t) fr \<and>
   (\<forall>i. ieee80211_rx_reorder_ready (fold free_slot is t) i \<longrightarrow> ieee80211_rx_reorder_ready t i)"
proof (induction "is" arbitrary: t)
  case (Cons i "is")
  have k: "kept t fr (free_slot i t) fr" using Cons.prems by (intro free_slot_kept) auto
  then have wf1: "rb_wf (free_slot i t)" "buf_size (free_slot i t) = buf_size t"
    by (auto simp: kept_def)
  have len: "i < length (reorder_buf t)" using Cons.prems by (simp add: rb_wf_def)
  have r: "ieee80211_rx_reorder_ready t j" if "ieee80211_rx_reorder_ready (free_slot i t) j" for j
    using that ready_complete [OF wf1(1), of j] ready_complete [OF Cons.prems(1), of j] len
    by (cases "j = i") (auto simp: free_slot_def)
  have "kept (free_slot i t) fr (fold free_slot is (free_slot i t)) fr \<and>
      (\<forall>j. ieee80211_rx_reorder_ready (fold free_slot is (free_slot i t)) j \<longrightarrow>
           ieee80211_rx_reorder_ready (free_slot i t) j)"
    by (rule Cons.IH [OF wf1(1)]) (use Cons.prems r wf1 in auto)
  with k r show ?case by (auto intro: kept_trans)
qed (simp add: kept_refl)

lemma release_frame_ready:
  assumes wf: "rb_wf t" and i: "i < unat (buf_size t)"
    and r: "ieee80211_release_reorder_frame t i fr = (t1, fr1)"
  shows "ieee80211_rx_reorder_ready t1 j \<Longrightarrow> ieee80211_rx_reorder_ready t j"
    and "\<not> ieee80211_rx_reorder_ready t1 i"
proof -
  note k = release_frame_kept [OF wf i r]
  have wf1: "rb_wf t1" and len: "i < length (reorder_buf t)"
    using k(1) wf i by (auto simp: kept_def rb_wf_def)
  show "ieee80211_rx_reorder_ready t1 j \<Longrightarrow> ieee80211_rx_reorder_ready t j"
    using ready_complete [OF wf1, of j] ready_complete [OF wf, of j] k(2) len
    by (cases "j = i") auto
  show "\<not> ieee80211_rx_reorder_ready t1 i"
    using ready_complete [OF wf1, of i] k(2) len by simp
qed

lemma expire_kept:
  "\<lbrakk> rb_wf t; ring_after (unat (buf_size t)) index = pre @ js; index < unat (buf_size t);
     \<forall>i \<in> set pre. \<not> ieee80211_rx_reorder_ready t i \<rbrakk> \<Longrightarrow>
   \<exists>t1 fr1 r. reorder_expire now index skipped t fr js = (t1, fr1, r) \<and> kept t fr t1 fr1"
proof (induction js arbitrary: t skipped fr pre)
  case Nil
  then show ?case by (simp add: kept_refl)
next
  case (Cons j js)
  let ?n = "unat (buf_size t)"
  have ring: "ring_after ?n index = (pre @ [j]) @ js" using Cons.prems(2) by simp
  have in_ring: "\<forall>i \<in> set (pre @ j # js). i < ?n"
    using ring_after_less [OF Cons.prems(3)] Cons.prems(2) by simp
  consider (skip) "\<not> ieee80211_rx_reorder_ready t j"
    | (stop) "ieee80211_rx_reorder_ready t j"
        "skipped \<noteq> 0 \<and> \<not> time_after now (reorder_time t ! j + HT_RX_REORDER_BUF_TIMEOUT)"
    | (give) "ieee80211_rx_reorder_ready t j"
        "\<not> (skipped \<noteq> 0 \<and> \<not> time_after now (reorder_time t ! j + HT_RX_REORDER_BUF_TIMEOUT))"
    by blast
  then show ?case
  proof cases
    case skip
    with Cons.IH [OF Cons.prems(1) ring Cons.prems(3)] Cons.prems(4) show ?thesis by auto
  next
    case stop
    with Cons.prems(1) show ?thesis by (simp add: kept_refl)
  next
    case give
    have "distinct (ring_after ?n index)" using Cons.prems(3) by (intro ring_after_distinct) auto
    then have tw: "takeWhile (\<lambda>i. i \<noteq> j) (ring_after ?n index) = pre"
      using Cons.prems(2) by (simp add: takeWhile_suffix)
    let ?t1 = "fold free_slot pre t"
    have f: "kept t fr ?t1 fr"
      "\<forall>i. ieee80211_rx_reorder_ready ?t1 i \<longrightarrow> ieee80211_rx_reorder_ready t i"
      using fold_free_kept [OF Cons.prems(1), of pre fr] Cons.prems(4) in_ring by auto
    obtain t2 fr2 where r: "ieee80211_release_reorder_frame ?t1 j fr = (t2, fr2)" by fastforce
    have wf1: "rb_wf ?t1" and j1: "j < unat (buf_size ?t1)"
      using f(1) in_ring by (auto simp: kept_def)
    note k2 = release_frame_kept(1) [OF wf1 j1 r] and rr = release_frame_ready [OF wf1 j1 r]
    define t3 where "t3 = t2\<lparr>head_seq_num := (head_seq_num t2 + of_nat skipped) AND IEEE80211_SN_MASK\<rparr>"
    have k3: "kept t fr t3 fr2"
      unfolding t3_def using kept_trans [OF f(1) k2] kept_head_timer(1) k2
      by (meson kept_def kept_trans)
    then have wf3: "rb_wf t3" "buf_size t3 = buf_size t" by (auto simp: kept_def)
    have "ieee80211_rx_reorder_ready t3 i = ieee80211_rx_reorder_ready t2 i" for i
      by (simp add: t3_def ieee80211_rx_reorder_ready_def)
    then have nr: "\<forall>i \<in> set (pre @ [j]). \<not> ieee80211_rx_reorder_ready t3 i"
      using rr f(2) Cons.prems(4) by auto
    have "\<exists>t4 fr4 r4. reorder_expire now index 0 t3 fr2 js = (t4, fr4, r4) \<and> kept t3 fr2 t4 fr4"
      using Cons.IH [OF wf3(1) _ _ nr] ring wf3 Cons.prems(3) by simp
    with k3 give tw r show ?thesis by (auto simp: t3_def intro: kept_trans)
  qed
qed

lemma complete_slots_0: "complete_slots buf = 0 \<longleftrightarrow> (\<forall>i < length buf. \<not> complete (buf ! i))"
  by (auto simp: complete_slots_def filter_empty_conv all_set_conv_all_nth)

lemma complete_slots_le: "complete_slots buf \<le> length buf"
  by (simp add: complete_slots_def)

lemma release_ready_kept:
  "rb_wf t \<Longrightarrow> unat (stored_mpdu_num t) < fuel \<Longrightarrow> i < unat (buf_size t) \<Longrightarrow>
   \<exists>t1 fr1. release_ready fuel t i fr = Some (t1, fr1) \<and> kept t fr t1 fr1"
proof (induction fuel arbitrary: t fr i)
  case (Suc fuel)
  show ?case
  proof (cases "ieee80211_rx_reorder_ready t i")
    case False
    with Suc.prems show ?thesis by (simp add: kept_refl)
  next
    case True
    obtain t1 fr1 where r: "ieee80211_release_reorder_frame t i fr = (t1, fr1)" by fastforce
    note k = release_frame_kept [OF Suc.prems(1,3) r]
    have wf1: "rb_wf t1" using k(1) by (simp add: kept_def)
    have len: "i < length (reorder_buf t)" using Suc.prems by (simp add: rb_wf_def)
    have "complete_slots (reorder_buf t1) + 1 = complete_slots (reorder_buf t)"
      using complete_slots_update [OF len, of "[]"] True ready_complete [OF Suc.prems(1)] k(2) by simp
    then have st: "unat (stored_mpdu_num t1) < fuel"
      using Suc.prems(1,2) wf1 by (simp add: rb_wf_def)
    have i1: "slot t1 (head_seq_num t1) < unat (buf_size t1)"
      using wf1 by (simp add: rb_wf_def slot_def)
    obtain t2 fr2 where "release_ready fuel t1 (slot t1 (head_seq_num t1)) fr1 = Some (t2, fr2)"
      "kept t1 fr1 t2 fr2"
      using Suc.IH [OF wf1 st i1] by blast
    with True r k(1) show ?thesis by (auto intro: kept_trans)
  qed
qed simp

lemma reorder_release_kept:
  assumes wf: "rb_wf t"
  shows "\<exists>t1 fr1. ieee80211_sta_reorder_release now t fr = Some (t1, fr1) \<and> kept t fr t1 fr1"
proof -
  let ?n = "unat (buf_size t)" and ?i = "slot t (head_seq_num t)"
  define fin where "fin = (\<lambda>t1 frames1.
      if stored_mpdu_num t1 \<noteq> 0
      then map_option (\<lambda>j. (set_release_timer j t1, frames1 :: rx_skb list))
             (search_ready (Suc ?n) t1 (slot t1 (head_seq_num t1)) (slot t1 (head_seq_num t1)))
      else Some (t1\<lparr>reorder_timer := None\<rparr>, frames1))"
  have i: "?i < ?n" using wf by (simp add: rb_wf_def slot_def)
  have fin: "\<exists>t2. fin t1 fr1 = Some (t2, fr1) \<and> kept t fr t2 fr1" if k: "kept t fr t1 fr1" for t1 fr1
  proof (cases "stored_mpdu_num t1 = 0")
    case True
    with k kept_head_timer(2) [of t1 fr1 None] show ?thesis
      by (auto simp: fin_def kept_def)
  next
    case False
    have wf1: "rb_wf t1" and bs: "buf_size t1 = buf_size t" using k by (auto simp: kept_def)
    have "complete_slots (reorder_buf t1) \<noteq> 0"
      using False wf1 by (metis rb_wf_def unat_eq_zero)
    then obtain m where "m < ?n" "complete (reorder_buf t1 ! m)"
      using complete_slots_0 wf1 bs by (auto simp: rb_wf_def)
    moreover have "slot t1 (head_seq_num t1) < ?n"
      using wf1 bs by (simp add: rb_wf_def slot_def)
    ultimately obtain r where
      "search_ready (Suc ?n) t1 (slot t1 (head_seq_num t1)) (slot t1 (head_seq_num t1)) = Some r"
      using search_from [of m t1] ready_complete [OF wf1] bs by auto
    with False k kept_head_timer(3) [OF wf1, of fr1 r] show ?thesis
      by (auto simp: fin_def intro: kept_trans)
  qed
  show ?thesis
  proof (cases "\<not> ieee80211_rx_reorder_ready t ?i \<and> stored_mpdu_num t \<noteq> 0")
    case True
    obtain t1 fr1 r where
      e: "reorder_expire now ?i 1 t fr (ring_after ?n ?i) = (t1, fr1, r)" "kept t fr t1 fr1"
      using expire_kept [OF wf, of ?i "[]"] i by fastforce
    show ?thesis
    proof (cases r)
      case None
      with True e(1) have "ieee80211_sta_reorder_release now t fr = fin t1 fr1"
        by (simp add: ieee80211_sta_reorder_release_def Let_def fin_def del: search_ready.simps)
      with fin [OF e(2)] show ?thesis by auto
    next
      case (Some j)
      have "kept t fr (set_release_timer j t1) fr1"
        using e(2) kept_head_timer(3) by (meson kept_def kept_trans)
      with Some True e(1) show ?thesis
        by (auto simp: ieee80211_sta_reorder_release_def Let_def)
    qed
  next
    case False
    have st: "unat (stored_mpdu_num t) < Suc ?n"
      using wf complete_slots_le [of "reorder_buf t"] by (simp add: rb_wf_def)
    obtain t1 fr1 where r: "release_ready (Suc ?n) t ?i fr = Some (t1, fr1)" "kept t fr t1 fr1"
      using release_ready_kept [OF wf st i] by blast
    moreover have "ieee80211_sta_reorder_release now t fr = fin t1 fr1"
      using False r(1) unfolding ieee80211_sta_reorder_release_def Let_def fin_def
      by (auto simp del: release_ready.simps search_ready.simps)
    ultimately show ?thesis using fin [OF r(2)] by auto
  qed
qed

text \<open>Appending a frame to a slot without a complete frame.\<close>

definition append_part :: "nat \<Rightarrow> rx_skb \<Rightarrow> tid_ampdu_rx \<Rightarrow> tid_ampdu_rx" where
  "append_part i skb t = t\<lparr>reorder_buf := (reorder_buf t)[i := reorder_buf t ! i @ [skb]]\<rparr>"

lemma append_frame_wf:
  assumes wf: "rb_wf t" and i: "i < unat (buf_size t)" and nr: "\<not> ieee80211_rx_reorder_ready t i"
  shows "amsdu_more skb \<Longrightarrow> rb_wf (append_part i skb t)"
    and "\<not> amsdu_more skb \<Longrightarrow> rb_wf (store_frame now i skb t)"
    and "all_ids (append_part i skb t) fr = all_ids t fr + {#skb_id skb#}"
    and "all_ids (store_frame now i skb t) fr = all_ids t fr + {#skb_id skb#}"
proof -
  have len: "i < length (reorder_buf t)" using wf i by (simp add: rb_wf_def)
  have nc: "\<not> complete (reorder_buf t ! i)" using nr ready_complete [OF wf] by simp
  have c: "complete (reorder_buf t ! i @ [skb]) \<longleftrightarrow> \<not> amsdu_more skb" by (simp add: complete_def)
  note u = complete_slots_update [OF len, of "reorder_buf t ! i @ [skb]", unfolded c]
  show "amsdu_more skb \<Longrightarrow> rb_wf (append_part i skb t)"
    using wf u nc by (simp add: rb_wf_def append_part_def)
  have "unat (stored_mpdu_num t) < 65535"
    using wf complete_slots_le [of "reorder_buf t"] by (simp add: rb_wf_def)
  then have "unat (stored_mpdu_num t + 1) = unat (stored_mpdu_num t) + 1"
    by (simp add: unat_word_ariths)
  then show "\<not> amsdu_more skb \<Longrightarrow> rb_wf (store_frame now i skb t)"
    using wf u nc by (simp add: rb_wf_def store_frame_def)
  have "mset (concat ((reorder_buf t)[i := reorder_buf t ! i @ [skb]])) =
      mset (concat (reorder_buf t)) + {#skb#}"
    using mset_concat_update [OF len, of "reorder_buf t ! i @ [skb]"] by simp
  then show "all_ids (append_part i skb t) fr = all_ids t fr + {#skb_id skb#}"
    "all_ids (store_frame now i skb t) fr = all_ids t fr + {#skb_id skb#}"
    by (simp_all add: all_ids_def session_ids_def stored_ids_def append_part_def store_frame_def)
qed

lemma manage_kept:
  assumes wf: "rb_wf t"
  shows "\<exists>ret t1 fr1. ieee80211_sta_manage_reorder_buf now t skb fr = Some (ret, t1, fr1) \<and>
     rb_wf t1 \<and> buf_size t1 = buf_size t \<and>
     all_ids t1 fr1 + (if ret then {#} else {#skb_id skb#}) = all_ids t fr + {#skb_id skb#}"
proof -
  let ?sn = "mpdu_sn skb"
  define t0 where "t0 = (if auto_seq t then t\<lparr>auto_seq := False, ssn := ?sn, head_seq_num := ?sn\<rparr> else t)"
  define t1 where "t1 = t0\<lparr>started := True\<rparr>"
  define mv where "mv = (if \<not> ieee80211_sn_less ?sn (head_seq_num t1 + buf_size t1)
      then ieee80211_release_reorder_frames t1
             (ieee80211_sn_inc (ieee80211_sn_sub ?sn (buf_size t1))) fr
      else (t1, fr))"
  obtain t2 fr2 where mv2: "mv = (t2, fr2)" by fastforce
  have k0: "kept t fr t0 fr"
    using wf by (simp add: t0_def kept_def rb_wf_def all_ids_def session_ids_def stored_ids_def)
  then have k1: "kept t fr t1 fr"
    by (auto simp: t1_def kept_def rb_wf_def all_ids_def session_ids_def stored_ids_def)
  then have wf1: "rb_wf t1" by (simp add: kept_def)
  have k2: "kept t fr t2 fr2"
    using kept_trans [OF k1 release_frames_kept [OF wf1]] k1 mv2
    by (auto simp: mv_def split: if_splits) (metis fst_conv snd_conv)
  then have wf2: "rb_wf t2" by (simp add: kept_def)
  let ?i = "slot t2 ?sn"
  have i: "?i < unat (buf_size t2)" using wf2 by (simp add: rb_wf_def slot_def)
  have fr_add: "rb_wf (x\<lparr>freed := freed x @ [skb]\<rparr>) = rb_wf x"
    "all_ids (x\<lparr>freed := freed x @ [skb]\<rparr>) f = all_ids x f + {#skb_id skb#}" for x f
    by (simp_all add: rb_wf_def all_ids_def session_ids_def stored_ids_def)
  have unf: "ieee80211_sta_manage_reorder_buf now t skb fr =
      (if \<not> started t0 \<and> ieee80211_sn_less ?sn (head_seq_num t0) then Some (False, t0, fr)
       else if ieee80211_sn_less ?sn (head_seq_num t0)
       then Some (True, t1\<lparr>freed := freed t1 @ [skb]\<rparr>, fr)
       else if ieee80211_rx_reorder_ready t2 ?i then Some (True, t2\<lparr>freed := freed t2 @ [skb]\<rparr>, fr2)
       else if ?sn = head_seq_num t2 \<and> stored_mpdu_num t2 = 0
       then Some (False, if \<not> amsdu_more skb
              then t2\<lparr>head_seq_num := ieee80211_sn_inc (head_seq_num t2)\<rparr> else t2, fr2)
       else if amsdu_more skb then Some (True, append_part ?i skb t2, fr2)
       else map_option (\<lambda>(t5, frames5). (True, t5, frames5))
              (ieee80211_sta_reorder_release now (store_frame now ?i skb t2) fr2))"
  proof -
    have h: "head_seq_num t0 = head_seq_num t1" by (simp add: t1_def)
    show ?thesis
      unfolding ieee80211_sta_manage_reorder_buf_def Let_def t0_def [symmetric] t1_def [symmetric]
        h mv_def [symmetric] mv2 prod.case append_part_def store_frame_def
      by (simp add: append_part_def)
  qed
  consider (old) "\<not> started t0" "ieee80211_sn_less ?sn (head_seq_num t0)"
    | (drop) "started t0" "ieee80211_sn_less ?sn (head_seq_num t0)"
    | (dup) "\<not> ieee80211_sn_less ?sn (head_seq_num t0)" "ieee80211_rx_reorder_ready t2 ?i"
    | (pass) "\<not> ieee80211_sn_less ?sn (head_seq_num t0)" "\<not> ieee80211_rx_reorder_ready t2 ?i"
        "?sn = head_seq_num t2 \<and> stored_mpdu_num t2 = 0"
    | (part) "\<not> ieee80211_sn_less ?sn (head_seq_num t0)" "\<not> ieee80211_rx_reorder_ready t2 ?i"
        "\<not> (?sn = head_seq_num t2 \<and> stored_mpdu_num t2 = 0)" "amsdu_more skb"
    | (store) "\<not> ieee80211_sn_less ?sn (head_seq_num t0)" "\<not> ieee80211_rx_reorder_ready t2 ?i"
        "\<not> (?sn = head_seq_num t2 \<and> stored_mpdu_num t2 = 0)" "\<not> amsdu_more skb"
    by blast
  then show ?thesis
  proof cases
    case old
    with k0 show ?thesis by (fastforce simp: unf kept_def)
  next
    case drop
    with k1 show ?thesis by (fastforce simp: unf kept_def fr_add)
  next
    case dup
    with k2 show ?thesis by (fastforce simp: unf kept_def fr_add)
  next
    case pass
    with k2 kept_head_timer(1) [OF wf2, of fr2 "ieee80211_sn_inc (head_seq_num t2)"]
    show ?thesis by (auto simp: unf kept_def)
  next
    case part
    then have "ieee80211_sta_manage_reorder_buf now t skb fr = Some (True, append_part ?i skb t2, fr2)"
      unfolding unf by auto
    moreover have "buf_size (append_part ?i skb t2) = buf_size t"
      using k2 by (simp add: append_part_def kept_def)
    moreover note append_frame_wf(1) [OF wf2 i part(2,4)]
      append_frame_wf(3) [OF wf2 i part(2), of skb fr2]
    ultimately show ?thesis using k2 by (auto simp: kept_def)
  next
    case store
    note a = append_frame_wf [OF wf2 i store(2), where skb = skb]
    obtain t5 fr5 where r: "ieee80211_sta_reorder_release now (store_frame now ?i skb t2) fr2 = Some (t5, fr5)"
      "kept (store_frame now ?i skb t2) fr2 t5 fr5"
      using reorder_release_kept a(2) [OF store(4)] by blast
    then have "ieee80211_sta_manage_reorder_buf now t skb fr = Some (True, t5, fr5)"
      using store unfolding unf by auto
    moreover have "buf_size (store_frame now ?i skb t2) = buf_size t"
      using k2 by (simp add: store_frame_def kept_def)
    ultimately show ?thesis using k2 r(2) a(4) by (auto simp: kept_def)
  qed
qed

lemma reorder_step_kept:
  "rb_wf t \<Longrightarrow> \<exists>t1 out. reorder_step e t = Some (t1, out) \<and> rb_wf t1 \<and>
     image_mset skb_id (mset out) + session_ids t1 = session_ids t + event_ids e"
proof (cases e)
  case (Rx now skb)
  assume "rb_wf t"
  from manage_kept [OF this, of now skb "[]"] Rx show ?thesis
    by (fastforce simp: all_ids_def split: if_splits)
next
  case (Timer now)
  assume "rb_wf t"
  from reorder_release_kept [OF this, of now "[]"] Timer show ?thesis
    by (auto simp: all_ids_def kept_def)
qed

text \<open>
  Property C2: the reorder buffer accounts for every frame. For any session without filtered
  frames whose stored count is the number of complete slots (whatever its buffer size, with split
  A-MSDUs, before and after its first frame), and any sequence of received frames and timer
  runs: the code returns, and the identities of the frames handed up, still stored and freed are
  together exactly those that were there before and those received, each as often.
\<close>

theorem reorder_run_conserves:
  assumes "rb_wf t"
  shows "\<exists>t1 pos1 out. reorder_run es pos t = Some (t1, pos1, out) \<and> rb_wf t1 \<and>
    image_mset (skb_id \<circ> snd) (mset out) + session_ids t1 =
      session_ids t + sum_list (map event_ids es)"
  using assms
proof (induction es arbitrary: t pos)
  case (Cons e es)
  obtain t1 fr where s: "reorder_step e t = Some (t1, fr)" "rb_wf t1"
    "image_mset skb_id (mset fr) + session_ids t1 = session_ids t + event_ids e"
    using reorder_step_kept [OF Cons.prems] by blast
  let ?pos = "pos + sn_dist (head_seq_num t) (head_seq_num t1)"
  obtain t2 pos2 out where r: "reorder_run es ?pos t1 = Some (t2, pos2, out)" "rb_wf t2"
    "image_mset (skb_id \<circ> snd) (mset out) + session_ids t2 =
       session_ids t1 + sum_list (map event_ids es)"
    using Cons.IH [OF s(2), of ?pos] by blast
  let ?first = "map (\<lambda>f. (pos + sn_dist (head_seq_num t) (mpdu_sn f), f)) fr"
  have run: "reorder_run (e # es) pos t = Some (t2, pos2, ?first @ out)"
    using s(1) r(1) by simp
  have f: "image_mset (skb_id \<circ> snd) (mset ?first) = image_mset skb_id (mset fr)"
    by (simp add: multiset.map_comp comp_def)
  have "image_mset (skb_id \<circ> snd) (mset (?first @ out)) + session_ids t2 =
      session_ids t + sum_list (map event_ids (e # es))"
    unfolding mset_append image_mset_union f
    using s(3) r(3) by simp (metis (no_types, lifting) add.assoc add.commute)
  with run r(2) show ?case by blast
qed simp

definition demo_part :: "nat \<Rightarrow> u16 \<Rightarrow> rx_skb" where
  "demo_part i sn = (demo_skb i sn)\<lparr>amsdu_more := True\<rparr>"

lemma demo_session_wf: "rb_wf (demo_session 4080 48)"
  by (simp add: rb_wf_def demo_session_def new_tid_ampdu_rx_def complete_slots_def complete_def)

theorem reorder_run_conserves_witness:
  "\<exists>t1 pos1 out. reorder_run [Rx 1 (demo_skb 0 4081), Rx 1 (demo_part 1 4082), Timer 1]
       4080 (demo_session 4080 48) = Some (t1, pos1, out) \<and> rb_wf t1 \<and>
     image_mset (skb_id \<circ> snd) (mset out) + session_ids t1 =
       session_ids (demo_session 4080 48) +
       sum_list (map event_ids [Rx 1 (demo_skb 0 4081), Rx 1 (demo_part 1 4082), Timer 1])"
  by (rule reorder_run_conserves [OF demo_session_wf])

section \<open>Buffer sizes that do not divide the sequence number space\<close>

definition reorder_outcome :: "rx_event list \<Rightarrow> tid_ampdu_rx \<Rightarrow> (nat list \<times> nat list) option" where
  "reorder_outcome es t =
     map_option (\<lambda>(t1, _, out). (map (skb_id \<circ> snd) out, map skb_id (freed t1))) (reorder_run es 0 t)"

text \<open>
  With a window of 48 frames, which a peer may ask for, the slot
  \<open>sn % buf_size\<close> is not injective on a window that crosses the end of the sequence number space:
  a new frame with sequence number 1 is freed as a duplicate of the stored frame 4081.
\<close>

theorem reorder_wrap_drops_new_frame:
  "reorder_outcome [Rx 1 (demo_skb 0 4081), Rx 1 (demo_skb 1 1), Rx 1 (demo_skb 2 4080)]
     (demo_session 4080 48) = Some ([2, 0], [1])"
  by code_simp

text \<open>The session after the frames 102 (the first part of an A-MSDU, then marked filtered) and 101.\<close>

definition filtered_session :: "tid_ampdu_rx option" where
  "filtered_session =
     (case reorder_run [Rx 1 (demo_part 0 102)] 101 (demo_session 101 4) of
        None \<Rightarrow> None
      | Some (t1, _, _) \<Rightarrow>
          (case mark_filtered 1 t1 101 2 0 of
             None \<Rightarrow> None
           | Some (t2, _) \<Rightarrow>
               map_option fst (reorder_run [Rx 1 (demo_skb 1 101)] 101 t2)))"

text \<open>The session when the search starts that follows the storing and the releasing of frame 103.\<close>

definition search_session :: "tid_ampdu_rx \<Rightarrow> tid_ampdu_rx option" where
  "search_session t =
     map_option fst (release_ready 5 (store_frame 1 (slot t 103) (demo_skb 2 103) t)
       (slot t (head_seq_num t)) [])"

lemma search_never:
  "2 \<le> unat (buf_size t) \<Longrightarrow> list_all (\<lambda>i. \<not> ieee80211_rx_reorder_ready t i) [0..<unat (buf_size t)] \<Longrightarrow>
   j < unat (buf_size t) \<Longrightarrow> search_ready fuel t 0 j = None"
proof (induction fuel arbitrary: j)
  case (Suc fuel)
  have "\<not> ieee80211_rx_reorder_ready t j" using Suc.prems(2,3) by (simp add: list_all_iff)
  moreover have "int j \<noteq> search_bound (unat (buf_size t)) 0"
    using Suc.prems(1) by (simp add: search_bound_def)
  moreover have "Suc j mod unat (buf_size t) < unat (buf_size t)" using Suc.prems(1) by simp
  ultimately show ?case using Suc by simp
qed simp

text \<open>
  Property C39: frames the firmware reports as filtered can hang the search for the next stored
  frame. The slot of an incomplete A-MSDU that is marked filtered counts as ready, releasing it
  decrements the stored count that never counted it, and the count wraps to 65535; the search
  that follows visits empty slots and, at slot 0, has the end condition -1, which no slot meets:
  receiving frame 103 does not return, and the search has no result for any fuel.
\<close>

theorem reorder_filtered_search_hangs:
  "\<exists>t t1. filtered_session = Some t \<and>
     ieee80211_sta_manage_reorder_buf 1 t (demo_skb 2 103) [] = None \<and>
     search_session t = Some t1 \<and> slot t1 (head_seq_num t1) = 0 \<and>
     stored_mpdu_num t1 = 65535 \<and> reorder_buf t1 = replicate 4 [] \<and>
     (\<forall>fuel. search_ready fuel t1 0 0 = None)"
proof -
  let ?t = "the filtered_session"
  let ?t1 = "the (search_session ?t)"
  have f: "filtered_session \<noteq> None" by code_simp
  have h: "ieee80211_sta_manage_reorder_buf 1 ?t (demo_skb 2 103) [] = None" by code_simp
  have s: "search_session ?t \<noteq> None" by code_simp
  have z: "slot ?t1 (head_seq_num ?t1) = 0" by code_simp
  have n: "stored_mpdu_num ?t1 = 65535" by code_simp
  have b: "reorder_buf ?t1 = replicate 4 []" by code_simp
  have u: "unat (buf_size ?t1) = 4" by code_simp
  have r: "list_all (\<lambda>i. \<not> ieee80211_rx_reorder_ready ?t1 i) [0..<4]" by code_simp
  have "\<forall>fuel. search_ready fuel ?t1 0 0 = None"
    using search_never [of ?t1 0] u r by simp
  with h z n b have "filtered_session = Some ?t \<and>
     ieee80211_sta_manage_reorder_buf 1 ?t (demo_skb 2 103) [] = None \<and>
     search_session ?t = Some ?t1 \<and> slot ?t1 (head_seq_num ?t1) = 0 \<and>
     stored_mpdu_num ?t1 = 65535 \<and> reorder_buf ?t1 = replicate 4 [] \<and>
     (\<forall>fuel. search_ready fuel ?t1 0 0 = None)"
    using option.collapse [OF f] option.collapse [OF s] by (intro conjI) simp_all
  then show ?thesis by blast
qed

section \<open>Timeouts\<close>

lemma expire_waits:
  assumes "\<forall>j \<in> set js. \<not> time_after now (reorder_time t ! j + HT_RX_REORDER_BUF_TIMEOUT)" "skipped \<noteq> 0"
  shows "\<exists>r. reorder_expire now index skipped t fr js = (t, fr, r)"
  using assms by (induction js arbitrary: skipped) auto

text \<open>
  No timeout, no progress past a gap. When the frame at the head is missing and no
  stored frame is older than the timeout, a run of the reorder timer hands nothing up and changes
  nothing but the timer. With the constant \<open>jiffies\<close> of this port (\<open>include/linux/jiffies.h\<close>) all
  time stamps equal the current time, so this is what every run of the timer does.
\<close>

theorem reorder_no_timeout:
  assumes "rb_wf t" "\<not> ieee80211_rx_reorder_ready t (slot t (head_seq_num t))" "stored_mpdu_num t \<noteq> 0"
    and "\<forall>i < unat (buf_size t). \<not> time_after now (reorder_time t ! i + HT_RX_REORDER_BUF_TIMEOUT)"
  shows "\<exists>x. ieee80211_sta_reorder_release now t [] = Some (t\<lparr>reorder_timer := x\<rparr>, [])"
proof -
  let ?n = "unat (buf_size t)" and ?i = "slot t (head_seq_num t)"
  have i: "?i < ?n" using assms(1) by (simp add: rb_wf_def slot_def)
  have "\<forall>j \<in> set (ring_after ?n ?i). \<not> time_after now (reorder_time t ! j + HT_RX_REORDER_BUF_TIMEOUT)"
    using assms(4) ring_after_less [OF i] by blast
  from expire_waits [OF this, of 1] obtain r where
    e: "reorder_expire now ?i 1 t [] (ring_after ?n ?i) = (t, [], r)" by auto
  have timer: "\<exists>x. set_release_timer j t = t\<lparr>reorder_timer := x\<rparr>" for j
    by (auto simp: set_release_timer_def intro: exI [of _ "reorder_timer t"])
  show ?thesis
  proof (cases r)
    case (Some j)
    with e assms(2,3) timer [of j] show ?thesis
      by (simp add: ieee80211_sta_reorder_release_def Let_def)
  next
    case None
    have "complete_slots (reorder_buf t) \<noteq> 0"
      using assms(1,3) by (metis rb_wf_def unat_eq_zero)
    then obtain m where "m < ?n" "ieee80211_rx_reorder_ready t m"
      using complete_slots_0 ready_complete [OF assms(1)] assms(1) by (auto simp: rb_wf_def)
    from search_from [OF this i] obtain j where "search_ready (Suc ?n) t ?i ?i = Some j" by blast
    with None e assms(2,3) timer [of j] show ?thesis
      by (simp add: ieee80211_sta_reorder_release_def Let_def del: search_ready.simps)
  qed
qed

definition gap_session :: tid_ampdu_rx where
  "gap_session = store_frame 1 2 (demo_skb 0 102) (demo_session 100 4)"

theorem reorder_no_timeout_witness:
  "\<exists>x. ieee80211_sta_reorder_release 1 gap_session [] = Some (gap_session\<lparr>reorder_timer := x\<rparr>, [])"
proof (rule reorder_no_timeout)
  show "rb_wf gap_session" by code_simp
  show "\<not> ieee80211_rx_reorder_ready gap_session (slot gap_session (head_seq_num gap_session))"
    by code_simp
  show "stored_mpdu_num gap_session \<noteq> 0" by code_simp
  have "list_all (\<lambda>i. \<not> time_after 1 (reorder_time gap_session ! i + HT_RX_REORDER_BUF_TIMEOUT)) [0..<4]"
    by code_simp
  moreover have "unat (buf_size gap_session) = 4" by code_simp
  ultimately show "\<forall>i < unat (buf_size gap_session).
      \<not> time_after 1 (reorder_time gap_session ! i + HT_RX_REORDER_BUF_TIMEOUT)"
    by (simp add: list_all_iff)
qed

section \<open>Sessions in this port\<close>

text \<open>
  The operations on the aggregation state of a station, as a step relation: an ADDBA request, a
  tear-down, a received frame, the reorder timer.
\<close>

inductive ba_step :: "sta_ampdu \<Rightarrow> sta_ampdu \<Rightarrow> bool" where
  start: "ba_step sta (ieee80211_start_rx_ba_session_locked now hw_reorders kmalloc_ok sta
            dialog_token timeout start_seq_num ba_policy tid bsize tx auto)"
| stop: "ba_step sta (ieee80211_stop_rx_ba_session_locked sta n by_recipient reason tx)"
| rx: "ieee80211_rx_reorder_ampdu now (Some sta) skb [] = Some (Some sta1, frames) \<Longrightarrow>
       ba_step sta sta1"
| timeout: "ieee80211_release_reorder_timeout now sta n = Some (sta1, frames) \<Longrightarrow> ba_step sta sta1"

inductive_cases ba_stepE: "ba_step sta sta1"

text \<open>No session, and no request answered with success.\<close>

definition no_session :: "sta_ampdu \<Rightarrow> bool" where
  "no_session sta \<longleftrightarrow> tid_rx sta = (\<lambda>_. None) \<and> agg_session_valid sta = (\<lambda>_. False) \<and>
     (\<forall>r \<in> set (sent_addba_resp sta). resp_status r \<noteq> WLAN_STATUS_SUCCESS)"

lemma ba_step_no_session: "ba_step sta sta1 \<Longrightarrow> no_session sta \<Longrightarrow> no_session sta1"
proof (erule ba_stepE)
  fix now hw_reorders kmalloc_ok dialog_token timeout start_seq_num ba_policy tid bsize tx auto
  assume "no_session sta" and "sta1 = ieee80211_start_rx_ba_session_locked now hw_reorders kmalloc_ok
      sta dialog_token timeout start_seq_num ba_policy tid bsize tx auto"
  then show "no_session sta1"
    by (auto simp: no_session_def ieee80211_start_rx_ba_session_locked_def Let_def drv_ampdu_ret_def
        WLAN_STATUS_SUCCESS_def WLAN_STATUS_REQUEST_DECLINED_def WLAN_STATUS_INVALID_QOS_PARAM_def)
qed (auto simp: no_session_def ieee80211_stop_rx_ba_session_locked_def
      ieee80211_rx_reorder_ampdu_def ieee80211_release_reorder_timeout_def Let_def split: if_splits)

text \<open>
  In this port no block-ack session is ever set up. With the calls of
  \<open>drv_ampdu_action\<close> commented out in \<open>___ieee80211_start_rx_ba_session\<close>, from a station without
  sessions, whatever ADDBA requests (any parameters), tear-downs, frames and timer runs follow, no
  session exists and no request is answered with \<open>WLAN_STATUS_SUCCESS\<close>.
\<close>

theorem ba_never_established:
  assumes "ba_step\<^sup>*\<^sup>* sta sta1" "no_session sta"
  shows "no_session sta1"
  using assms by (induction rule: rtranclp_induct) (auto intro: ba_step_no_session)

definition demo_sta :: sta_ampdu where
  "demo_sta = \<lparr>tid_rx = (\<lambda>_. None), tid_rx_token = (\<lambda>_. 0), agg_session_valid = (\<lambda>_. False),
     unexpected_agg = (\<lambda>_. False), ht_supported = True, ht_delay_ba = False, has_he = False,
     block_ba = False, max_rx_aggregation_subframes = 64, sent_delba = [], sent_addba_resp = [],
     iface_queue = []\<rparr>"

theorem ba_never_established_witness:
  "no_session (ieee80211_start_rx_ba_session_locked 1 False True demo_sta 7 0 100 1 0 32 True False)"
  by (rule ba_never_established [of demo_sta])
    (auto simp: no_session_def demo_sta_def intro: ba_step.start)

end
