(* ===== verification/Workqueue_Props.thy ===== *)
theory Workqueue_Props
  imports Workqueue
begin

text \<open>
  Correctness of work queues and tasklets: as long as no queued item is modified, a work queue
  keeps its list well formed, never faults, and starts items in the order in which they were
  queued, each once per queueing; tasklets likewise, without the restriction. The worker drains
  its list when it is left alone. What the port gets wrong is stated as reachability: a worker
  that sleeps on a non-empty list, an item that is lost for good after \<open>mod_delayed_work\<close>, a
  cancelled item that runs, and a \<open>tasklet_kill\<close> that removes an element that is on no list.
\<close>

section \<open>The invariant of a work queue\<close>

fun at_front :: "nat list \<Rightarrow> node \<Rightarrow> bool" where
  "at_front xs Head = True"
| "at_front [] (Entry w) = False"
| "at_front (x # xs) (Entry w) = (x = w)"

fun worker_ok :: "nat list \<Rightarrow> worker \<Rightarrow> bool" where
  "worker_ok xs (Got p) = at_front xs p"
| "worker_ok xs (At (Entry w) n) = (at_front xs (Entry w) \<and> at_front (tl xs) n)"
| "worker_ok xs (Running w n) = at_front xs n"
| "worker_ok xs _ = True"

definition wq_repr :: "wq_state \<Rightarrow> nat list \<Rightarrow> bool" where
  "wq_repr s xs \<longleftrightarrow> is_list (wq_links s) Head (map Entry xs) \<and>
     (\<forall>w \<in> set xs. work_pending s w \<and> armed s w = None) \<and>
     (\<forall>w. armed s w \<noteq> None \<longrightarrow> work_pending s w) \<and>
     asked s = ran s @ xs \<and> worker_ok xs (wq_worker s)"

definition wq_inv :: "wq_state \<Rightarrow> bool" where
  "wq_inv s \<longleftrightarrow> (\<exists>xs. wq_repr s xs)"

lemma wq_entries_repr: "wq_repr s xs \<Longrightarrow> wq_entries s = xs"
proof -
  assume r: "wq_repr s xs"
  then have "list_walk (Suc (length (asked s))) (wq_links s) Head Head = Some (map Entry xs)"
    by (intro list_walk_list) (auto simp: wq_repr_def is_list_def)
  then show ?thesis by (simp add: wq_entries_def comp_def)
qed

lemma wq_inv_entries: "wq_inv s \<Longrightarrow> wq_repr s (wq_entries s)"
  by (auto simp: wq_inv_def wq_entries_repr)

lemma wq_repr_distinct: "wq_repr s xs \<Longrightarrow> distinct xs"
  by (auto simp: wq_repr_def is_list_def distinct_map)

lemma at_front_snoc: "at_front xs p \<Longrightarrow> at_front (xs @ ys) p"
  by (cases p; cases xs) auto

lemma worker_ok_snoc: "worker_ok xs v \<Longrightarrow> worker_ok (xs @ [w]) v"
proof (induction xs v rule: worker_ok.induct)
  case (2 xs w n)
  then show ?case by (cases xs) (auto intro: at_front_snoc)
qed (auto intro: at_front_snoc)

lemma queue_locked_repr:
  assumes r: "wq_repr s xs" and w: "w \<notin> set xs"
  shows "\<exists>l. queue_work_locked w s =
      Some (s\<lparr>wq_links := l, wq_worker := (if wq_worker s = Asleep then Fetch else wq_worker s),
              asked := asked s @ [w]\<rparr>) \<and> is_list l Head (map Entry (xs @ [w]))"
proof -
  have "\<exists>l. list_add_tail (Entry w) Head (wq_links s) = Some l \<and>
      is_list l Head (map Entry xs @ [Entry w])"
    by (rule list_add_tail_list) (use r w in \<open>auto simp: wq_repr_def\<close>)
  then show ?thesis by (auto simp: queue_work_locked_def)
qed

text \<open>Queueing an item that is pending, not on the list and has no armed timer.\<close>

lemma queue_locked_step:
  assumes r: "wq_repr s xs" and w: "w \<notin> set xs" and p: "work_pending s w" "armed s w = None"
  shows "\<exists>s1. queue_work_locked w s = Some s1 \<and> wq_repr s1 (xs @ [w]) \<and> ran s1 = ran s"
proof -
  obtain l where l: "queue_work_locked w s =
      Some (s\<lparr>wq_links := l, wq_worker := (if wq_worker s = Asleep then Fetch else wq_worker s),
              asked := asked s @ [w]\<rparr>)" "is_list l Head (map Entry (xs @ [w]))"
    using queue_locked_repr [OF r w] by blast
  let ?s = "s\<lparr>wq_links := l, wq_worker := (if wq_worker s = Asleep then Fetch else wq_worker s),
              asked := asked s @ [w]\<rparr>"
  have "worker_ok (xs @ [w]) (wq_worker ?s)"
    using r worker_ok_snoc [of xs "wq_worker s" w] by (auto simp: wq_repr_def)
  then have "wq_repr ?s (xs @ [w])" using r l(2) p by (auto simp: wq_repr_def)
  with l(1) show ?thesis by simp
qed

lemma repr_pending:
  "wq_repr s xs \<Longrightarrow> wq_repr (s\<lparr>work_pending := (work_pending s)(w := True)\<rparr>) xs"
  by (auto simp: wq_repr_def)

lemma repr_armed:
  "wq_repr s xs \<Longrightarrow> w \<notin> set xs \<Longrightarrow> work_pending s w \<Longrightarrow> wq_repr (mod_timer w ms s) xs"
  by (auto simp: wq_repr_def mod_timer_def)

lemma repr_disarmed: "wq_repr s xs \<Longrightarrow> wq_repr (s\<lparr>armed := (armed s)(w := None)\<rparr>) xs"
  by (auto simp: wq_repr_def)

lemma delayed_locked_step:
  assumes r: "wq_repr s xs" and w: "w \<notin> set xs" and p: "work_pending s w"
    and d: "delay = 0 \<Longrightarrow> armed s w = None"
    and q: "queue_delayed_work_locked tp cpu w delay s = Some s1"
  shows "wq_inv s1 \<and> ran s1 = ran s"
proof (cases "delay = 0")
  case True
  with q d queue_locked_step [OF r w p] show ?thesis
    by (auto simp: queue_delayed_work_locked_def wq_inv_def)
next
  case False
  then have "\<exists>ms. s1 = mod_timer w ms s"
    using q by (auto simp: queue_delayed_work_locked_def add_timer_def add_timer_on_def split: if_splits)
  with repr_armed [OF r w p] show ?thesis by (auto simp: wq_inv_def mod_timer_def)
qed

lemma not_on_list: "wq_repr s xs \<Longrightarrow> \<not> work_pending s w \<or> armed s w \<noteq> None \<Longrightarrow> w \<notin> set xs"
  by (auto simp: wq_repr_def)

lemma idle_not_armed: "wq_repr s xs \<Longrightarrow> \<not> work_pending s w \<Longrightarrow> armed s w = None"
  by (auto simp: wq_repr_def)

section \<open>The worker\<close>

lemma list_del_hd:
  assumes "is_list h Head (map Entry (w # xs))"
  shows "\<exists>h1. list_del (Entry w) h = Some h1 \<and> is_list h1 Head (map Entry xs)"
  using list_del_list [OF assms, of "Entry w"] by simp

lemma worker_step_repr:
  assumes r: "wq_repr s xs"
  shows "wq_worker s = Asleep \<or> (\<exists>s1. worker_step s = Some s1 \<and>
     (wq_repr s1 xs \<and> ran s1 = ran s \<or>
      (\<exists>w ys. xs = w # ys \<and> wq_repr s1 ys \<and> ran s1 = ran s @ [w])))"
proof -
  have il: "is_list (wq_links s) Head (map Entry xs)" using r by (simp add: wq_repr_def)
  show ?thesis
  proof (cases "wq_worker s")
    case Fetch
    let ?p = "List.hd (map Entry xs @ [Head])"
    have "nxt (wq_links s) Head = Some ?p" using first_entry [OF il] by simp
    moreover have "at_front xs ?p" by (cases xs) auto
    ultimately show ?thesis using r Fetch by (simp add: worker_step_def wq_repr_def)
  next
    case (Got p)
    have f: "at_front xs p" using r Got by (simp add: wq_repr_def)
    show ?thesis
    proof (cases p)
      case Head
      with Got r first_entry [OF il] show ?thesis by (simp add: worker_step_def wq_repr_def)
    next
      case (Entry w)
      then obtain ys where xs: "xs = w # ys" using f by (cases xs) auto
      let ?n = "List.hd (map Entry ys @ [Head])"
      have "nxt (wq_links s) (Entry w) = Some ?n"
        using next_entry [of "wq_links s" Head "[]" "Entry w" "map Entry ys"] il xs by simp
      moreover have "at_front ys ?n" by (cases ys) auto
      ultimately show ?thesis using Got Entry r xs by (simp add: worker_step_def wq_repr_def)
    qed
  next
    case (At p n)
    show ?thesis
    proof (cases p)
      case Head
      with At r show ?thesis by (simp add: worker_step_def wq_repr_def)
    next
      case (Entry w)
      have "at_front xs (Entry w)" "at_front (tl xs) n" using r At Entry by (auto simp: wq_repr_def)
      then obtain ys where xs: "xs = w # ys" and n: "at_front ys n" by (cases xs) auto
      obtain h1 where h1: "list_del (Entry w) (wq_links s) = Some h1" "is_list h1 Head (map Entry ys)"
        using list_del_hd il xs by blast
      have "w \<notin> set ys" using wq_repr_distinct [OF r] xs by simp
      moreover have "armed s w = None" using r xs by (simp add: wq_repr_def)
      ultimately show ?thesis using h1 n At Entry xs r by (auto simp: worker_step_def wq_repr_def)
    qed
  next
    case (Running w n)
    with r show ?thesis by (simp add: worker_step_def wq_repr_def)
  next
    case Ending
    with r show ?thesis by (simp add: worker_step_def wq_repr_def)
  qed simp
qed

lemma wq_step_inv:
  assumes "wq_step s s1" "wq_inv s"
  shows "wq_inv s1 \<and> (ran s1 = ran s \<or>
    (\<exists>w. ran s1 = ran s @ [w] \<and> wq_entries s = w # wq_entries s1))"
proof -
  obtain xs where r: "wq_repr s xs" using assms(2) by (auto simp: wq_inv_def)
  from assms(1) show ?thesis
  proof cases
    case (queue w ret)
    show ?thesis
    proof (cases "work_pending s w")
      case True
      with queue assms(2) show ?thesis by (simp add: queue_work_on_def)
    next
      case False
      with queue queue_locked_step [OF repr_pending [OF r], of w w] not_on_list [OF r, of w]
        idle_not_armed [OF r False]
      show ?thesis by (auto simp: queue_work_on_def wq_inv_def)
    qed
  next
    case (delayed tp cpu w delay ret)
    show ?thesis
    proof (cases "work_pending s w")
      case True
      with delayed assms(2) show ?thesis by (simp add: queue_delayed_work_on_def)
    next
      case False
      with delayed delayed_locked_step [OF repr_pending [OF r], of w w delay tp cpu s1]
        not_on_list [OF r, of w] idle_not_armed [OF r False]
      show ?thesis by (auto simp: queue_delayed_work_on_def)
    qed
  next
    case (modify tp cpu w delay ret)
    have w: "w \<notin> set xs" using not_on_list [OF r] modify(2) by blast
    obtain d s0 where g: "try_to_grab_pending tp w True s = (d, s0)" by fastforce
    have s0: "wq_repr s0 xs" "work_pending s0 w" "ran s0 = ran s" "delay = 0 \<Longrightarrow> armed s0 w = None"
      "d \<ge> 0"
      using g r repr_pending [OF r, of w] repr_disarmed [OF r, of w]
        repr_pending [OF repr_disarmed [OF r, of w], of w] modify(2) idle_not_armed [OF r, of w]
      by (auto simp: try_to_grab_pending_def del_timer_def split: if_splits)
    have "queue_delayed_work_locked tp cpu w delay s0 = Some s1"
      using modify(1) g s0(5) by (auto simp: mod_delayed_work_on_def)
    from delayed_locked_step [OF s0(1) w s0(2,4) this] s0(3) show ?thesis by auto
  next
    case (fire w)
    have p: "work_pending s w" using fire(1) r unfolding wq_repr_def by blast
    have w: "w \<notin> set xs" using fire(1) not_on_list [OF r] by blast
    from queue_locked_step [OF repr_disarmed [OF r] w, of w] p fire(2)
    show ?thesis by (auto simp: delayed_work_timer_fn_def wq_inv_def)
  next
    case (cancel w ret)
    with assms(2) show ?thesis by (simp add: cancel_delayed_work_sync_def cancel_work_timer_def)
  next
    case work
    with worker_step_repr [OF r] wq_entries_repr [OF r] show ?thesis
      by (auto simp: worker_step_def wq_inv_def dest: wq_entries_repr)
  qed
qed

interpretation wq: fifo_executor wq_step wq_inv wq_entries asked ran work_pending
proof unfold_locales
  fix s s1 :: wq_state and w
  show "wq_step s s1 \<Longrightarrow> wq_inv s \<Longrightarrow> wq_inv s1" using wq_step_inv by blast
  show "wq_inv s \<Longrightarrow> asked s = ran s @ wq_entries s"
    using wq_inv_entries [of s] by (simp add: wq_repr_def)
  show "wq_inv s \<Longrightarrow> distinct (wq_entries s)" using wq_inv_entries wq_repr_distinct by blast
  show "wq_inv s \<Longrightarrow> w \<in> set (wq_entries s) \<Longrightarrow> work_pending s w"
    using wq_inv_entries [of s] by (simp add: wq_repr_def)
  show "wq_step s s1 \<Longrightarrow> wq_inv s \<Longrightarrow> ran s1 = ran s \<or>
      (\<exists>w. ran s1 = ran s @ [w] \<and> wq_entries s = w # wq_entries s1)"
    using wq_step_inv by blast
qed

lemma alloc_workqueue_inv: "wq_inv alloc_workqueue"
  unfolding wq_inv_def wq_repr_def
  by (intro exI [of _ "[]"]) (simp add: alloc_workqueue_def INIT_LIST_HEAD_empty)

lemma wq_no_fault: "wq_inv s \<Longrightarrow> wq_worker s = Asleep \<or> (\<exists>s1. worker_step s = Some s1)"
  using wq_inv_entries worker_step_repr by blast



section \<open>Draining\<close>

lemma worker_steps_add: "worker_steps (a + b) s = worker_steps b (worker_steps a s)"
proof (induction a arbitrary: s)
  case (Suc a)
  have "worker_step s = None \<Longrightarrow> worker_steps b s = s" by (cases b) auto
  with Suc show ?case by (simp split: option.splits)
qed simp

definition front :: "nat list \<Rightarrow> node" where
  "front xs = List.hd (map Entry xs @ [Head])"

lemma front_Cons [simp]: "front (x # xs) = Entry x" "front [] = Head"
  by (simp_all add: front_def)

lemma worker_round:
  assumes r: "wq_repr s (w # ys)" and p: "wq_worker s = Got (Entry w)"
  shows "wq_repr (worker_steps 3 s) ys \<and> wq_worker (worker_steps 3 s) = Got (front ys) \<and>
     ran (worker_steps 3 s) = ran s @ [w] \<and>
     work_pending (worker_steps 3 s) = (work_pending s)(w := False)"
proof -
  have il: "is_list (wq_links s) Head (map Entry (w # ys))" using r by (simp add: wq_repr_def)
  obtain h1 where h1: "list_del (Entry w) (wq_links s) = Some h1" "is_list h1 Head (map Entry ys)"
    using list_del_hd [OF il] by blast
  have n: "nxt (wq_links s) (Entry w) = Some (front ys)"
    using next_entry [of "wq_links s" Head "[]" "Entry w" "map Entry ys"] il by (simp add: front_def)
  have s3: "worker_steps 3 s = s\<lparr>wq_links := h1, work_pending := (work_pending s)(w := False),
      wq_worker := Got (front ys), ran := ran s @ [w]\<rparr>"
    using p n h1(1) by (simp add: worker_step_def eval_nat_numeral)
  have "w \<notin> set ys" using wq_repr_distinct [OF r] by simp
  moreover have "armed s w = None" using r by (simp add: wq_repr_def)
  moreover have "at_front ys (front ys)" by (cases ys) auto
  ultimately show ?thesis unfolding s3 using r h1(2) by (auto simp: wq_repr_def)
qed

lemma worker_drains_from:
  "wq_repr s xs \<Longrightarrow> wq_worker s = Got (front xs) \<Longrightarrow>
   let s1 = worker_steps (3 * length xs + 3) s in
     wq_repr s1 [] \<and> wq_worker s1 = Asleep \<and> ran s1 = ran s @ xs \<and>
     (\<forall>w. work_pending s1 w \<longleftrightarrow> work_pending s w \<and> w \<notin> set xs)"
proof (induction xs arbitrary: s)
  case Nil
  then have "nxt (wq_links s) Head = Some Head"
    using first_entry [of "wq_links s" Head "[]"] by (simp add: wq_repr_def)
  with Nil show ?case by (simp add: worker_step_def eval_nat_numeral wq_repr_def)
next
  case (Cons w ys)
  let ?s = "worker_steps 3 s"
  have rd: "wq_repr ?s ys \<and> wq_worker ?s = Got (front ys) \<and> ran ?s = ran s @ [w] \<and>
      work_pending ?s = (work_pending s)(w := False)"
    using worker_round Cons.prems by simp
  have "worker_steps (3 * length (w # ys) + 3) s = worker_steps (3 * length ys + 3) ?s"
    using worker_steps_add [of 3 "3 * length ys + 3" s] by (simp add: algebra_simps)
  with Cons.IH [of ?s] rd show ?case by (auto simp: Let_def)
qed

lemma worker_drains:
  assumes "wq_inv s" "wq_worker s = Fetch"
  shows "let s1 = worker_steps (3 * length (wq_entries s) + 4) s in
    wq_repr s1 [] \<and> wq_worker s1 = Asleep \<and> ran s1 = ran s @ wq_entries s \<and>
    (\<forall>w. work_pending s1 w \<longleftrightarrow> work_pending s w \<and> w \<notin> set (wq_entries s))"
proof -
  let ?xs = "wq_entries s"
  have r: "wq_repr s ?xs" using wq_inv_entries assms(1) by simp
  have n: "nxt (wq_links s) Head = Some (front ?xs)"
    using first_entry [of "wq_links s" Head "map Entry ?xs"] r by (simp add: wq_repr_def front_def)
  let ?s = "s\<lparr>wq_worker := Got (front ?xs)\<rparr>"
  have "at_front ?xs (front ?xs)" by (cases ?xs) auto
  then have r1: "wq_repr ?s ?xs" using r by (simp add: wq_repr_def)
  have "worker_steps (3 * length ?xs + 4) s = worker_steps (3 * length ?xs + 3) ?s"
    using assms(2) n by (simp add: worker_step_def numeral_eq_Suc)
  with worker_drains_from [OF r1] show ?thesis by (simp add: Let_def)
qed

text \<open>
  Property C20: the worker drains its queue. When a work queue satisfies its invariant, its worker
  is about to read the list and no other thread interferes, then after three steps per item the
  worker has started every item on the list, in order, the list is empty, the pending bits of
  those items are clear and the worker sleeps.
\<close>

theorem wq_worker_drains:
  assumes "wq_inv s" "wq_worker s = Fetch"
  shows "let s1 = worker_steps (3 * length (wq_entries s) + 4) s in
    ran s1 = ran s @ wq_entries s \<and> wq_entries s1 = [] \<and> wq_worker s1 = Asleep \<and>
    (\<forall>w. work_pending s1 w \<longleftrightarrow> work_pending s w \<and> w \<notin> set (wq_entries s))"
  using worker_drains [OF assms] by (auto simp: Let_def dest: wq_entries_repr)

definition two_queued :: wq_state where
  "two_queued = snd (the (queue_work_on 2 (snd (the (queue_work_on 1 alloc_workqueue)))))"

lemma two_queued_reached: "wq_step\<^sup>*\<^sup>* alloc_workqueue two_queued"
proof -
  let ?s = "snd (the (queue_work_on 1 alloc_workqueue))"
  have "wq_step alloc_workqueue ?s"
    by (rule wq_step.queue [of 1 _ True]) (simp add: queue_work_on_def queue_work_locked_def
        alloc_workqueue_def list_add_tail_def INIT_LIST_HEAD_def)
  moreover have "wq_step ?s two_queued" unfolding two_queued_def
    by (rule wq_step.queue [of 2 _ True]) (simp add: queue_work_on_def queue_work_locked_def
        alloc_workqueue_def list_add_tail_def INIT_LIST_HEAD_def list_add_between_def)
  ultimately show ?thesis by (meson converse_rtranclp_into_rtranclp r_into_rtranclp)
qed

theorem wq_worker_drains_witness: "ran (worker_steps 10 two_queued) = [1, 2]"
proof -
  have "wq_inv two_queued" by (rule wq.inv_steps [OF two_queued_reached alloc_workqueue_inv])
  moreover have "wq_worker two_queued = Fetch" by code_simp
  moreover have e: "wq_entries two_queued = [1, 2]" by code_simp
  moreover have "ran two_queued = []" by code_simp
  ultimately show ?thesis using wq_worker_drains [of two_queued] by (simp add: Let_def)
qed

section \<open>What the port gets wrong\<close>

lemma worker_steps_reach: "wq_step\<^sup>*\<^sup>* s (worker_steps k s)"
proof (induction k arbitrary: s)
  case (Suc k)
  show ?case
  proof (cases "worker_step s")
    case (Some s1)
    then have "wq_step s s1" by (rule wq_step.work)
    with Suc [of s1] Some show ?thesis by (simp add: converse_rtranclp_into_rtranclp)
  qed simp
qed simp

text \<open>Item 1 is queued, the worker runs it, and meanwhile item 2 is queued.\<close>

definition running_one :: wq_state where
  "running_one = worker_steps 3 (snd (the (queue_work_on 1 alloc_workqueue)))"

definition missed_wakeup :: wq_state where
  "missed_wakeup = worker_steps 4 (snd (the (queue_work_on 2 running_one)))"

text \<open>
  Wake-ups are lost. A work queue can reach a state in which its worker sleeps while
  an item is on the list: an item queued while the last item of a pass runs (by that item itself,
  for instance) wakes nobody, and the worker, which read the end of the list before running the
  last item, goes to sleep without looking again. Nothing but queueing another item starts it.
\<close>

theorem wq_lost_wakeup:
  "wq_step\<^sup>*\<^sup>* alloc_workqueue missed_wakeup \<and> wq_worker missed_wakeup = Asleep \<and>
   wq_entries missed_wakeup = [2] \<and> work_pending missed_wakeup 2 \<and>
   worker_step missed_wakeup = None \<and> map_option fst (queue_work_on 2 missed_wakeup) = Some False"
proof -
  let ?s = "snd (the (queue_work_on 1 alloc_workqueue))" and ?t = "snd (the (queue_work_on 2 running_one))"
  have "wq_step alloc_workqueue ?s"
    by (rule wq_step.queue [of 1 _ True]) (simp add: queue_work_on_def queue_work_locked_def
        alloc_workqueue_def list_add_tail_def INIT_LIST_HEAD_def)
  then have "wq_step\<^sup>*\<^sup>* alloc_workqueue running_one"
    unfolding running_one_def using worker_steps_reach by (meson converse_rtranclp_into_rtranclp)
  moreover have "queue_work_on 2 running_one = Some (True, ?t)"
  proof -
    have "queue_work_on 2 running_one \<noteq> None" by code_simp
    moreover have "fst (the (queue_work_on 2 running_one))" by code_simp
    ultimately show ?thesis by auto
  qed
  then have "wq_step running_one ?t" by (rule wq_step.queue)
  ultimately have "wq_step\<^sup>*\<^sup>* alloc_workqueue missed_wakeup"
    unfolding missed_wakeup_def using worker_steps_reach
    by (meson rtranclp.rtrancl_into_rtrancl rtranclp_trans)
  moreover have "wq_worker missed_wakeup = Asleep" by code_simp
  moreover have "wq_entries missed_wakeup = [2]" by code_simp
  moreover have "work_pending missed_wakeup 2" by code_simp
  moreover have "worker_step missed_wakeup = None" by code_simp
  moreover have "map_option fst (queue_work_on 2 missed_wakeup) = Some False" by code_simp
  ultimately show ?thesis by blast
qed

text \<open>Items 1 and 2 are queued and item 1 is modified to run at once; then the worker drains.\<close>

definition modified_queue :: wq_state where
  "modified_queue = snd (the (mod_delayed_work_on False True 1 0 two_queued))"

text \<open>
  \<open>mod_delayed_work\<close> on a queued item loses the items behind it. The list of a work
  queue can reach a state in which item 2 is pending, but the worker, left alone until it sleeps,
  starts item 1 only; since its pending bit stays set, item 2 can never be queued again.
\<close>

theorem wq_modify_loses_work:
  "wq_step_mod\<^sup>*\<^sup>* alloc_workqueue modified_queue \<and> wq_entries modified_queue = [1] \<and>
   wq_worker (worker_steps 7 modified_queue) = Asleep \<and> ran (worker_steps 7 modified_queue) = [1] \<and>
   work_pending (worker_steps 7 modified_queue) 2 \<and>
   map_option fst (queue_work_on 2 (worker_steps 7 modified_queue)) = Some False"
proof -
  have "mod_delayed_work_on False True 1 0 two_queued = Some (True, modified_queue)"
  proof -
    have "mod_delayed_work_on False True 1 0 two_queued \<noteq> None" by code_simp
    moreover have "fst (the (mod_delayed_work_on False True 1 0 two_queued))" by code_simp
    ultimately show ?thesis by (auto simp: modified_queue_def)
  qed
  then have "wq_step_mod two_queued modified_queue" by (rule wq_step_mod.mod_any)
  moreover have "wq_step_mod\<^sup>*\<^sup>* alloc_workqueue two_queued"
    using two_queued_reached by (rule rtranclp_mono [THEN predicate2D, rotated]) (auto intro: wq_step_mod.step)
  ultimately have "wq_step_mod\<^sup>*\<^sup>* alloc_workqueue modified_queue" by simp
  moreover have "wq_entries modified_queue = [1]" by code_simp
  moreover have "wq_worker (worker_steps 7 modified_queue) = Asleep" by code_simp
  moreover have "ran (worker_steps 7 modified_queue) = [1]" by code_simp
  moreover have "work_pending (worker_steps 7 modified_queue) 2" by code_simp
  moreover have "map_option fst (queue_work_on 2 (worker_steps 7 modified_queue)) = Some False"
    by code_simp
  ultimately show ?thesis by blast
qed

text \<open>
  Cancelled work runs. When the worker is about to read the list, cancelling an item
  on it reports success, and the item is among those the worker then starts.
\<close>

theorem wq_cancel_does_not_cancel:
  assumes "wq_inv s" "wq_worker s = Fetch" "w \<in> set (wq_entries s)"
  shows "\<exists>s1. cancel_work_sync w s = (True, s1) \<and>
    ran (worker_steps (3 * length (wq_entries s1) + 4) s1) = ran s @ wq_entries s1 \<and>
    w \<in> set (wq_entries s1)"
  using worker_drains [OF assms(1,2)] assms(3)
  by (simp add: cancel_work_sync_def cancel_work_timer_def Let_def)

theorem wq_cancel_does_not_cancel_witness:
  "\<exists>s1. cancel_work_sync 2 two_queued = (True, s1) \<and> ran (worker_steps 10 s1) = [1, 2]"
proof -
  have "wq_inv two_queued" by (rule wq.inv_steps [OF two_queued_reached alloc_workqueue_inv])
  moreover have "wq_worker two_queued = Fetch" by code_simp
  moreover have e: "wq_entries two_queued = [1, 2]" by code_simp
  moreover have "ran two_queued = []" by code_simp
  ultimately show ?thesis
    using wq_cancel_does_not_cancel [of two_queued 2]
    by (auto simp: cancel_work_sync_def cancel_work_timer_def)
qed

section \<open>Tasklets\<close>

definition tq_inv :: "tq_state \<Rightarrow> bool" where
  "tq_inv s \<longleftrightarrow> distinct (tq_list s @ adding s) \<and>
     (\<forall>t. sched s t \<longleftrightarrow> t \<in> set (tq_list s @ adding s)) \<and>
     t_asked s = t_ran s @ tq_list s \<and> (tq_thread s = Sleeping \<longrightarrow> tq_list s = [])"

lemma tq_step_inv:
  assumes "tq_step s s1" "tq_inv s"
  shows "tq_inv s1 \<and> (t_ran s1 = t_ran s \<or>
    (\<exists>t. t_ran s1 = t_ran s @ [t] \<and> tq_list s = t # tq_list s1))"
  using assms(1)
proof cases
  case (schedule t)
  with assms(2) show ?thesis by (auto simp: tq_inv_def tasklet_schedule_def)
next
  case (insert t)
  with assms(2) show ?thesis by (auto simp: tq_inv_def tasklet_schedule_locked_def)
next
  case (kill t)
  with assms(2) show ?thesis by (auto simp: tq_inv_def tasklet_kill_def split: if_splits)
next
  case action
  with assms(2) show ?thesis
    by (auto simp: tq_inv_def tasklet_action_step_def split: tq_thread.splits list.splits if_splits)
qed

interpretation tq: fifo_executor tq_step tq_inv tq_list t_asked t_ran sched
proof unfold_locales
  fix s s1 :: tq_state and w
  show "tq_step s s1 \<Longrightarrow> tq_inv s \<Longrightarrow> tq_inv s1" using tq_step_inv by blast
  show "tq_inv s \<Longrightarrow> t_asked s = t_ran s @ tq_list s" by (simp add: tq_inv_def)
  show "tq_inv s \<Longrightarrow> distinct (tq_list s)" by (simp add: tq_inv_def)
  show "tq_inv s \<Longrightarrow> w \<in> set (tq_list s) \<Longrightarrow> sched s w" by (simp add: tq_inv_def)
  show "tq_step s s1 \<Longrightarrow> tq_inv s \<Longrightarrow> t_ran s1 = t_ran s \<or>
      (\<exists>w. t_ran s1 = t_ran s @ [w] \<and> tq_list s = w # tq_list s1)"
    using tq_step_inv by blast
qed

lemma taskletq_create_inv: "tq_inv taskletq_create"
  by (simp add: tq_inv_def taskletq_create_def)

text \<open>
  Property C23: tasklets run in the order of scheduling, once per scheduling, and no wake-up is
  lost: from a new queue, after any interleaving of \<open>tasklet_schedule\<close> (its two steps apart),
  \<open>tasklet_kill\<close> and the thread, the tasklets put on the list and not killed are those run, in
  order, followed by those on the list; these are distinct and have the scheduled bit; and when
  the thread sleeps, the list is empty.
\<close>

theorem tasklets_run_in_order:
  assumes "tq_step\<^sup>*\<^sup>* taskletq_create s"
  shows "t_asked s = t_ran s @ tq_list s \<and> distinct (tq_list s) \<and>
    (\<forall>t \<in> set (tq_list s). sched s t) \<and> (tq_thread s = Sleeping \<longrightarrow> tq_list s = [])"
  using tq.in_order [OF assms taskletq_create_inv] tq.inv_steps [OF assms taskletq_create_inv]
  by (simp add: tq_inv_def)

definition one_tasklet :: tq_state where
  "one_tasklet = tasklet_schedule_locked 5 (tasklet_schedule 5 taskletq_create)"

lemma one_tasklet_reached: "tq_step\<^sup>*\<^sup>* taskletq_create one_tasklet"
proof -
  have "tq_step taskletq_create (tasklet_schedule 5 taskletq_create)" by (rule tq_step.schedule)
  moreover have "tq_step (tasklet_schedule 5 taskletq_create) one_tasklet"
    unfolding one_tasklet_def
    by (rule tq_step.insert) (simp add: tasklet_schedule_def taskletq_create_def)
  ultimately show ?thesis by (meson converse_rtranclp_into_rtranclp r_into_rtranclp)
qed

theorem tasklets_run_in_order_witness:
  "t_asked one_tasklet = t_ran one_tasklet @ tq_list one_tasklet \<and> tq_list one_tasklet = [5]"
  using tasklets_run_in_order [OF one_tasklet_reached] by (simp add: one_tasklet_def
      tasklet_schedule_def tasklet_schedule_locked_def taskletq_create_def)

text \<open>
  \<open>tasklet_kill\<close> races with \<open>tasklet_schedule\<close>. Between the setting of the scheduled bit
  and the insertion under the lock, the bit is set and the tasklet is on no list, and a kill
  removes it from a list it is not on.
\<close>

theorem tasklet_kill_race:
  "\<exists>s. tq_step\<^sup>*\<^sup>* taskletq_create s \<and> sched s 5 \<and> 5 \<notin> set (tq_list s) \<and> tasklet_kill 5 s = None"
proof -
  have "tq_step\<^sup>*\<^sup>* taskletq_create (tasklet_schedule 5 taskletq_create)"
    using tq_step.schedule by blast
  then show ?thesis
    by (intro exI [of _ "tasklet_schedule 5 taskletq_create"])
      (simp add: tasklet_schedule_def taskletq_create_def tasklet_kill_def)
qed

end
