(* ===== verification/Util80211.thy ===== *)
theory Util80211
  imports Prelude Reorder
begin

unbundle bit_operations_syntax

text \<open>
  Model of the pure helpers of \<open>net/wireless/util.c\<close>: channels and rates of a band, the frequencies
  of channels, key parameters, header lengths, bit rates, information elements, operating classes,
  beacon intervals and interface combinations. A C \<open>int\<close> is an \<open>int\<close> where the code cannot leave
  its range, a \<open>u32\<close> is a word and wraps. Memory that a function reads through a pointer and a
  length is a list; \<open>WARN_ON\<close> prints and is left out.
\<close>

section \<open>Bands, channels and rates\<close>

datatype nl80211_band = NL80211_BAND_2GHZ | NL80211_BAND_5GHZ | NL80211_BAND_60GHZ | NL80211_BAND_6GHZ

definition nl80211_bands :: "nl80211_band list" where
  "nl80211_bands = [NL80211_BAND_2GHZ, NL80211_BAND_5GHZ, NL80211_BAND_60GHZ, NL80211_BAND_6GHZ]"

datatype nl80211_dfs_state = NL80211_DFS_USABLE | NL80211_DFS_UNAVAILABLE | NL80211_DFS_AVAILABLE

text \<open>\<open>chan_ptr\<close> is the address of a channel: the code compares channels by address.\<close>

record ieee80211_channel =
  chan_ptr :: nat
  chan_band :: nl80211_band
  center_freq :: u32
  hw_value :: u16
  chan_flags :: u32
  max_antenna_gain :: int
  max_power :: int
  max_reg_power :: int
  beacon_found :: bool
  orig_flags :: u32
  orig_mag :: int
  orig_mpwr :: int
  dfs_state :: nl80211_dfs_state
  dfs_state_entered :: u64
  dfs_cac_ms :: u32

record ieee80211_rate =
  rate_flags :: u32
  bitrate :: u16

record edmg =
  edmg_channels :: u8
  edmg_bw_config :: nat

record ieee80211_supported_band =
  channels :: "ieee80211_channel list"
  bitrates :: "ieee80211_rate list"
  sband_band :: nl80211_band
  ht_supported_cap :: bool
  ht_cap :: u16
  vht_supported_cap :: bool
  vht_cap :: u32
  edmg_cap :: edmg

definition IEEE80211_RATE_MANDATORY_A :: u32 where "IEEE80211_RATE_MANDATORY_A = 2"
definition IEEE80211_RATE_MANDATORY_B :: u32 where "IEEE80211_RATE_MANDATORY_B = 4"
definition IEEE80211_RATE_MANDATORY_G :: u32 where "IEEE80211_RATE_MANDATORY_G = 8"
definition IEEE80211_RATE_ERP_G :: u32 where "IEEE80211_RATE_ERP_G = 16"

definition BIT :: "nat \<Rightarrow> u32" where "BIT n = push_bit n 1"

text \<open>\<open>None\<close> when the band has no rate at all (the code then points behind the array).\<close>

definition ieee80211_get_response_rate ::
  "ieee80211_supported_band \<Rightarrow> u32 \<Rightarrow> int \<Rightarrow> ieee80211_rate option" where
  "ieee80211_get_response_rate sband basic_rates rate =
     (case bitrates sband of [] \<Rightarrow> None
      | r0 # _ \<Rightarrow> Some (fold (\<lambda>i result.
            if basic_rates AND BIT i = 0 then result
            else if int (unat (bitrate (bitrates sband ! i))) > rate then result
            else bitrates sband ! i) [0..<length (bitrates sband)] r0))"

datatype nl80211_bss_scan_width =
  NL80211_BSS_CHAN_WIDTH_20 | NL80211_BSS_CHAN_WIDTH_10 | NL80211_BSS_CHAN_WIDTH_5

definition ieee80211_mandatory_rates ::
  "ieee80211_supported_band option \<Rightarrow> nl80211_bss_scan_width \<Rightarrow> u32" where
  "ieee80211_mandatory_rates sband_opt scan_width =
     (case sband_opt of None \<Rightarrow> 1
      | Some sband \<Rightarrow>
          let flag = (if sband_band sband = NL80211_BAND_2GHZ
                      then (if scan_width = NL80211_BSS_CHAN_WIDTH_5 \<or>
                               scan_width = NL80211_BSS_CHAN_WIDTH_10
                            then IEEE80211_RATE_MANDATORY_G else IEEE80211_RATE_MANDATORY_B)
                      else IEEE80211_RATE_MANDATORY_A)
          in fold (\<lambda>i m. if rate_flags (bitrates sband ! i) AND flag \<noteq> 0 then m OR BIT i else m)
               [0..<length (bitrates sband)] 0)"

definition ieee80211_channel_to_frequency :: "int \<Rightarrow> nl80211_band \<Rightarrow> int" where
  "ieee80211_channel_to_frequency chan band =
     (if chan \<le> 0 then 0
      else case band of
        NL80211_BAND_2GHZ \<Rightarrow>
          if chan = 14 then 2484 else if chan < 14 then 2407 + chan * 5 else 0
      | NL80211_BAND_5GHZ \<Rightarrow>
          if chan \<ge> 182 \<and> chan \<le> 196 then 4000 + chan * 5 else 5000 + chan * 5
      | NL80211_BAND_6GHZ \<Rightarrow> if chan \<le> 253 then 5940 + chan * 5 else 0
      | NL80211_BAND_60GHZ \<Rightarrow> if chan < 7 then 56160 + chan * 2160 else 0)"

text \<open>C division truncates towards zero.\<close>

definition cdiv :: "int \<Rightarrow> int \<Rightarrow> int" where
  "cdiv a b = sgn a * sgn b * (\<bar>a\<bar> div \<bar>b\<bar>)"

definition ieee80211_frequency_to_channel :: "int \<Rightarrow> int" where
  "ieee80211_frequency_to_channel freq =
     (if freq = 2484 then 14
      else if freq < 2484 then cdiv (freq - 2407) 5
      else if freq \<ge> 4910 \<and> freq \<le> 4980 then cdiv (freq - 4000) 5
      else if freq < 5945 then cdiv (freq - 5000) 5
      else if freq \<le> 45000 then cdiv (freq - 5940) 5
      else if freq \<ge> 58320 \<and> freq \<le> 70200 then cdiv (freq - 56160) 2160
      else 0)"

type_synonym bands = "nl80211_band \<Rightarrow> ieee80211_supported_band option"

definition ieee80211_get_channel :: "bands \<Rightarrow> u32 \<Rightarrow> ieee80211_channel option" where
  "ieee80211_get_channel bs freq =
     find (\<lambda>c. center_freq c = freq)
       (concat (map (\<lambda>b. case bs b of None \<Rightarrow> [] | Some sband \<Rightarrow> channels sband) nl80211_bands))"

text \<open>The flags of a rate in a band; the second component counts down \<open>want\<close>.\<close>

definition mandatory_flags_rate :: "nl80211_band \<Rightarrow> ieee80211_rate \<Rightarrow> ieee80211_rate" where
  "mandatory_flags_rate band r =
     (let f = (\<lambda>m. r\<lparr>rate_flags := rate_flags r OR m\<rparr>)
      in case band of
           NL80211_BAND_60GHZ \<Rightarrow> r
         | NL80211_BAND_2GHZ \<Rightarrow>
             if bitrate r \<in> {10, 20, 55, 110}
             then f (IEEE80211_RATE_MANDATORY_B OR IEEE80211_RATE_MANDATORY_G)
             else if bitrate r \<in> {60, 120, 240}
             then f (IEEE80211_RATE_MANDATORY_G OR IEEE80211_RATE_ERP_G)
             else f IEEE80211_RATE_ERP_G
         | _ \<Rightarrow> if bitrate r \<in> {60, 120, 240} then f IEEE80211_RATE_MANDATORY_A else r)"

definition set_mandatory_flags_band :: "ieee80211_supported_band \<Rightarrow> ieee80211_supported_band" where
  "set_mandatory_flags_band sband =
     sband\<lparr>bitrates := map (mandatory_flags_rate (sband_band sband)) (bitrates sband)\<rparr>"

definition ieee80211_set_bitrate_flags :: "bands \<Rightarrow> bands" where
  "ieee80211_set_bitrate_flags bs = (\<lambda>b. map_option set_mandatory_flags_band (bs b))"

text \<open>\<open>None\<close> is \<open>-EINVAL\<close>.\<close>

fun ratemask_loop :: "u16 list \<Rightarrow> u8 list \<Rightarrow> u32 \<Rightarrow> u32 option" where
  "ratemask_loop brs [] m = Some m"
| "ratemask_loop brs (r # rs) m =
     (case find (\<lambda>j. int (unat (brs ! j)) = int (unat (r AND 0x7f)) * 5) [0..<length brs] of
        None \<Rightarrow> None
      | Some j \<Rightarrow> ratemask_loop brs rs (m OR BIT j))"

definition NL80211_MAX_SUPP_RATES :: nat where "NL80211_MAX_SUPP_RATES = 32"

definition ieee80211_get_ratemask ::
  "ieee80211_supported_band option \<Rightarrow> u8 list \<Rightarrow> u32 option" where
  "ieee80211_get_ratemask sband_opt rates =
     (case sband_opt of None \<Rightarrow> None
      | Some sband \<Rightarrow>
          if length rates = 0 \<or> length rates > NL80211_MAX_SUPP_RATES then None
          else ratemask_loop (map bitrate (bitrates sband)) rates 0)"

definition ieee80211_get_num_supported_channels :: "bands \<Rightarrow> nat" where
  "ieee80211_get_num_supported_channels bs =
     sum_list (map (\<lambda>b. case bs b of None \<Rightarrow> 0 | Some sband \<Rightarrow> length (channels sband)) nl80211_bands)"

definition cfg80211_does_bw_fit_range :: "u32 \<Rightarrow> u32 \<Rightarrow> u32 \<Rightarrow> u32 \<Rightarrow> bool" where
  "cfg80211_does_bw_fit_range start_khz end_khz center_khz bw_khz \<longleftrightarrow>
     center_khz - bw_khz div 2 \<ge> start_khz \<and> center_khz + bw_khz div 2 \<le> end_khz"

section \<open>Keys\<close>

datatype nl80211_key_mode = NL80211_KEY_RX_TX | NL80211_KEY_NO_TX | NL80211_KEY_SET_TX

definition SUITE :: "u32 \<Rightarrow> u32 \<Rightarrow> u32" where "SUITE oui n = push_bit 8 oui OR n"

definition WLAN_CIPHER_SUITE_WEP40 :: u32 where "WLAN_CIPHER_SUITE_WEP40 = SUITE 0x000FAC 1"
definition WLAN_CIPHER_SUITE_TKIP :: u32 where "WLAN_CIPHER_SUITE_TKIP = SUITE 0x000FAC 2"
definition WLAN_CIPHER_SUITE_CCMP :: u32 where "WLAN_CIPHER_SUITE_CCMP = SUITE 0x000FAC 4"
definition WLAN_CIPHER_SUITE_WEP104 :: u32 where "WLAN_CIPHER_SUITE_WEP104 = SUITE 0x000FAC 5"
definition WLAN_CIPHER_SUITE_AES_CMAC :: u32 where "WLAN_CIPHER_SUITE_AES_CMAC = SUITE 0x000FAC 6"
definition WLAN_CIPHER_SUITE_GCMP :: u32 where "WLAN_CIPHER_SUITE_GCMP = SUITE 0x000FAC 8"
definition WLAN_CIPHER_SUITE_GCMP_256 :: u32 where "WLAN_CIPHER_SUITE_GCMP_256 = SUITE 0x000FAC 9"
definition WLAN_CIPHER_SUITE_CCMP_256 :: u32 where "WLAN_CIPHER_SUITE_CCMP_256 = SUITE 0x000FAC 10"
definition WLAN_CIPHER_SUITE_BIP_GMAC_128 :: u32 where
  "WLAN_CIPHER_SUITE_BIP_GMAC_128 = SUITE 0x000FAC 11"
definition WLAN_CIPHER_SUITE_BIP_GMAC_256 :: u32 where
  "WLAN_CIPHER_SUITE_BIP_GMAC_256 = SUITE 0x000FAC 12"
definition WLAN_CIPHER_SUITE_BIP_CMAC_256 :: u32 where
  "WLAN_CIPHER_SUITE_BIP_CMAC_256 = SUITE 0x000FAC 13"

lemmas cipher_suite_defs = SUITE_def WLAN_CIPHER_SUITE_WEP40_def WLAN_CIPHER_SUITE_TKIP_def
  WLAN_CIPHER_SUITE_CCMP_def WLAN_CIPHER_SUITE_WEP104_def WLAN_CIPHER_SUITE_AES_CMAC_def
  WLAN_CIPHER_SUITE_GCMP_def WLAN_CIPHER_SUITE_GCMP_256_def WLAN_CIPHER_SUITE_CCMP_256_def
  WLAN_CIPHER_SUITE_BIP_GMAC_128_def WLAN_CIPHER_SUITE_BIP_GMAC_256_def
  WLAN_CIPHER_SUITE_BIP_CMAC_256_def

record key_params =
  cipher :: u32
  key_len :: int
  has_seq :: bool
  seq_len :: int
  key_mode :: nl80211_key_mode

record key_wiphy =
  ibss_rsn :: bool
  ext_key_id :: bool
  cipher_suites :: "u32 list"

definition cfg80211_supported_cipher_suite :: "key_wiphy \<Rightarrow> u32 \<Rightarrow> bool" where
  "cfg80211_supported_cipher_suite wiphy c = list_ex (\<lambda>s. c = s) (cipher_suites wiphy)"

definition bip_ciphers :: "u32 list" where
  "bip_ciphers = [WLAN_CIPHER_SUITE_AES_CMAC, WLAN_CIPHER_SUITE_BIP_CMAC_256,
     WLAN_CIPHER_SUITE_BIP_GMAC_128, WLAN_CIPHER_SUITE_BIP_GMAC_256]"

definition ccmp_gcmp_ciphers :: "u32 list" where
  "ccmp_gcmp_ciphers = [WLAN_CIPHER_SUITE_CCMP, WLAN_CIPHER_SUITE_CCMP_256,
     WLAN_CIPHER_SUITE_GCMP, WLAN_CIPHER_SUITE_GCMP_256]"

definition wep_ciphers :: "u32 list" where
  "wep_ciphers = [WLAN_CIPHER_SUITE_WEP40, WLAN_CIPHER_SUITE_WEP104]"

text \<open>The second \<open>switch\<close>: the key length of a cipher, \<open>None\<close> for an unknown one.\<close>

definition cipher_key_len :: "u32 \<Rightarrow> int option" where
  "cipher_key_len = map_of
     [(WLAN_CIPHER_SUITE_WEP40, 5), (WLAN_CIPHER_SUITE_TKIP, 32), (WLAN_CIPHER_SUITE_CCMP, 16),
      (WLAN_CIPHER_SUITE_CCMP_256, 32), (WLAN_CIPHER_SUITE_GCMP, 16),
      (WLAN_CIPHER_SUITE_GCMP_256, 32), (WLAN_CIPHER_SUITE_WEP104, 13),
      (WLAN_CIPHER_SUITE_AES_CMAC, 16), (WLAN_CIPHER_SUITE_BIP_CMAC_256, 32),
      (WLAN_CIPHER_SUITE_BIP_GMAC_128, 16), (WLAN_CIPHER_SUITE_BIP_GMAC_256, 32)]"

text \<open>True is 0, false is \<open>-EINVAL\<close>; \<open>has_mac\<close> is \<open>mac_addr != NULL\<close>.\<close>

definition cfg80211_validate_key_settings ::
  "key_wiphy \<Rightarrow> key_params \<Rightarrow> int \<Rightarrow> bool \<Rightarrow> bool \<Rightarrow> bool" where
  "cfg80211_validate_key_settings wiphy params key_idx is_pairwise has_mac =
     (let c = cipher params in
      if key_idx < 0 \<or> key_idx > 5 then False
      else if \<not> is_pairwise \<and> has_mac \<and> \<not> ibss_rsn wiphy then False
      else if is_pairwise \<and> \<not> has_mac then False
      else if c = WLAN_CIPHER_SUITE_TKIP \<and>
              (is_pairwise \<and> key_idx \<noteq> 0 \<or> key_mode params \<noteq> NL80211_KEY_RX_TX) then False
      else if c \<in> set ccmp_gcmp_ciphers \<and>
              (key_mode params = NL80211_KEY_NO_TX \<and> \<not> is_pairwise \<or>
               key_mode params = NL80211_KEY_SET_TX) then False
      else if c \<in> set ccmp_gcmp_ciphers \<and> ext_key_id wiphy \<and> is_pairwise \<and>
              (key_idx < 0 \<or> key_idx > 1) then False
      else if c \<in> set ccmp_gcmp_ciphers \<and> \<not> ext_key_id wiphy \<and> is_pairwise \<and> key_idx \<noteq> 0 then False
      else if c \<in> set bip_ciphers \<and> (is_pairwise \<or> key_idx < 4) then False
      else if c \<in> set wep_ciphers \<and> key_idx > 3 then False
      else if (case cipher_key_len c of None \<Rightarrow> False | Some n \<Rightarrow> key_len params \<noteq> n) then False
      else if has_seq params \<and> c \<in> set wep_ciphers then False
      else if has_seq params \<and>
              c \<in> set (WLAN_CIPHER_SUITE_TKIP # ccmp_gcmp_ciphers @ bip_ciphers) \<and>
              seq_len params \<noteq> 6 then False
      else cfg80211_supported_cipher_suite wiphy c)"

section \<open>Header lengths and priorities\<close>

definition ieee80211_has_order :: "u16 \<Rightarrow> bool" where
  "ieee80211_has_order fc \<longleftrightarrow> fc AND 0x8000 \<noteq> 0"
definition ieee80211_has_a4 :: "u16 \<Rightarrow> bool" where
  "ieee80211_has_a4 fc \<longleftrightarrow> fc AND 0x0300 = 0x0300"
definition ieee80211_is_mgmt :: "u16 \<Rightarrow> bool" where
  "ieee80211_is_mgmt fc \<longleftrightarrow> fc AND 0x000c = 0"
definition ieee80211_is_ctl :: "u16 \<Rightarrow> bool" where
  "ieee80211_is_ctl fc \<longleftrightarrow> fc AND 0x000c = 0x0004"
definition ieee80211_is_data :: "u16 \<Rightarrow> bool" where
  "ieee80211_is_data fc \<longleftrightarrow> fc AND 0x000c = 0x0008"

definition ieee80211_hdrlen :: "u16 \<Rightarrow> nat" where
  "ieee80211_hdrlen fc =
     (if ieee80211_is_data fc
      then (let h = (if ieee80211_has_a4 fc then 30 else 24)
            in if ieee80211_is_data_qos fc
               then h + 2 + (if ieee80211_has_order fc then 4 else 0) else h)
      else if ieee80211_is_mgmt fc then (if ieee80211_has_order fc then 24 + 4 else 24)
      else if ieee80211_is_ctl fc then (if fc AND 0x00E0 = 0x00C0 then 10 else 16)
      else 24)"

text \<open>\<open>skb\<close> is the frame; the frame control field is its first two bytes, little-endian.\<close>

definition ieee80211_get_hdrlen_from_skb :: "bytes \<Rightarrow> nat" where
  "ieee80211_get_hdrlen_from_skb skb =
     (if length skb < 10 then 0
      else let h = ieee80211_hdrlen (ucast (skb ! 0) OR push_bit 8 (ucast (skb ! 1)))
           in if h > length skb then 0 else h)"

definition ieee80211_get_mesh_hdrlen :: "u8 \<Rightarrow> nat" where
  "ieee80211_get_mesh_hdrlen flags =
     (let ae = flags AND 3 in if ae = 1 then 12 else if ae = 2 then 18 else 6)"

text \<open>
  \<open>cfg80211_classify8021d\<close>: the reads of the IP and MPLS headers and the result are commented out
  in this port; what is left returns 7 for 802.21 frames without priority and VLAN tag, else 0.
\<close>

definition cfg80211_classify8021d :: "u32 \<Rightarrow> u16 option \<Rightarrow> u16 \<Rightarrow> u32" where
  "cfg80211_classify8021d priority vlan_tag protocol =
     (if priority \<ge> 256 \<and> priority \<le> 263 then 0
      else if (case vlan_tag of None \<Rightarrow> False | Some tag \<Rightarrow> drop_bit 13 (tag AND 0xe000) > 0) then 0
      else if protocol = 0x8917 then 7
      else 0)"

section \<open>Bit rates\<close>

record rate_info =
  ri_flags :: u8
  mcs :: u8
  legacy :: u16
  nss :: u8
  ri_bw :: u8
  he_gi :: u8
  he_dcm :: u8
  he_ru_alloc :: u8
  n_bonded_ch :: u8

definition RATE_INFO_BW_20 :: u8 where "RATE_INFO_BW_20 = 0"
definition RATE_INFO_BW_40 :: u8 where "RATE_INFO_BW_40 = 3"
definition RATE_INFO_BW_80 :: u8 where "RATE_INFO_BW_80 = 4"
definition RATE_INFO_BW_160 :: u8 where "RATE_INFO_BW_160 = 5"
definition RATE_INFO_BW_HE_RU :: u8 where "RATE_INFO_BW_HE_RU = 6"

definition short_gi :: "rate_info \<Rightarrow> bool" where
  "short_gi r \<longleftrightarrow> ri_flags r AND 4 \<noteq> 0"

text \<open>\<open>int\<close> arithmetic; the values stay below 2 to the 31.\<close>

definition cfg80211_calculate_bitrate_ht :: "rate_info \<Rightarrow> u32" where
  "cfg80211_calculate_bitrate_ht r =
     (if mcs r \<ge> 32 then 0
      else let modulation = uint (mcs r AND 7);
               streams = uint (drop_bit 3 (mcs r)) + 1;
               b0 = (if ri_bw r = RATE_INFO_BW_40 then 13500000 else 6500000) :: int;
               b1 = (if modulation < 4 then b0 * (modulation + 1)
                     else if modulation = 4 then b0 * (modulation + 2)
                     else b0 * (modulation + 3));
               b2 = b1 * streams;
               b3 = (if short_gi r then b2 div 9 * 10 else b2)
           in of_int ((b3 + 50000) div 100000))"

definition dmg_mcs2bitrate :: "u32 list" where
  "dmg_mcs2bitrate = [275, 3850, 7700, 9625, 11550, 12512, 15400, 19250, 23100, 25025, 30800,
     38500, 46200, 6930, 8662, 13860, 17325, 20790, 27720, 34650, 41580, 45045, 51975, 62370,
     67568, 6260, 8340, 11120, 12510, 16680, 22240, 25030]"

definition cfg80211_calculate_bitrate_dmg :: "rate_info \<Rightarrow> u32" where
  "cfg80211_calculate_bitrate_dmg r =
     (if unat (mcs r) \<ge> length dmg_mcs2bitrate then 0 else dmg_mcs2bitrate ! unat (mcs r))"

definition edmg_mcs2bitrate :: "u32 list" where
  "edmg_mcs2bitrate = [275, 3850, 7700, 9625, 11550, 12512, 13475, 15400, 19250, 23100, 25025,
     26950, 30800, 38500, 46200, 50050, 53900, 57750, 69300, 75075, 80850]"

definition cfg80211_calculate_bitrate_edmg :: "rate_info \<Rightarrow> u32" where
  "cfg80211_calculate_bitrate_edmg r =
     (if unat (mcs r) \<ge> length edmg_mcs2bitrate then 0
      else edmg_mcs2bitrate ! unat (mcs r) * ucast (n_bonded_ch r))"

definition vht_base :: "u32 list list" where
  "vht_base =
     [[6500000, 13000000, 19500000, 26000000, 39000000, 52000000, 58500000, 65000000, 78000000,
       86500000],
      [13500000, 27000000, 40500000, 54000000, 81000000, 108000000, 121500000, 135000000,
       162000000, 180000000],
      [29300000, 58500000, 87800000, 117000000, 175500000, 234000000, 263300000, 292500000,
       351000000, 390000000],
      [58500000, 117000000, 175500000, 234000000, 351000000, 468000000, 526500000, 585000000,
       702000000, 780000000]]"

definition vht_bw_idx :: "u8 \<Rightarrow> nat option" where
  "vht_bw_idx b = (if b = RATE_INFO_BW_160 then Some 3 else if b = RATE_INFO_BW_80 then Some 2
     else if b = RATE_INFO_BW_40 then Some 1 else if b = RATE_INFO_BW_20 then Some 0 else None)"

definition cfg80211_calculate_bitrate_vht :: "rate_info \<Rightarrow> u32" where
  "cfg80211_calculate_bitrate_vht r =
     (if mcs r > 9 then 0
      else case vht_bw_idx (ri_bw r) of
             None \<Rightarrow> 0
           | Some idx \<Rightarrow>
               let b1 = vht_base ! idx ! unat (mcs r) * ucast (nss r);
                   b2 = (if short_gi r then b1 div 9 * 10 else b1)
               in (b2 + 50000) div 100000)"

definition he_mcs_divisors :: "u16 list" where
  "he_mcs_divisors = [34133, 17067, 11378, 8533, 5689, 4267, 3923, 3413, 2844, 2560, 2276, 2048]"

definition he_rates :: "rate_info \<Rightarrow> u32 list option" where
  "he_rates r =
     (let ru = (\<lambda>a. ri_bw r = RATE_INFO_BW_HE_RU \<and> he_ru_alloc r = a) in
      if ri_bw r = RATE_INFO_BW_160 then Some [960777777, 907400000, 816666666]
      else if ri_bw r = RATE_INFO_BW_80 \<or> ru 5 then Some [480388888, 453700000, 408333333]
      else if ri_bw r = RATE_INFO_BW_40 \<or> ru 4 then Some [229411111, 216666666, 195000000]
      else if ri_bw r = RATE_INFO_BW_20 \<or> ru 3 then Some [114711111, 108333333, 97500000]
      else if ru 2 then Some [40000000, 37777777, 34000000]
      else if ru 1 then Some [18820000, 17777777, 16000000]
      else if ru 0 then Some [9411111, 8888888, 8000000]
      else None)"

definition cfg80211_calculate_bitrate_he :: "rate_info \<Rightarrow> u32" where
  "cfg80211_calculate_bitrate_he r =
     (if mcs r > 11 then 0
      else if he_gi r > 2 then 0
      else if he_ru_alloc r > 6 then 0
      else if nss r < 1 \<or> nss r > 8 then 0
      else case he_rates r of
             None \<Rightarrow> 0
           | Some rates \<Rightarrow>
               let tmp = (ucast (rates ! unat (he_gi r)) :: u64) * 2048;
                   res = ucast (tmp div ucast (he_mcs_divisors ! unat (mcs r))) :: u32;
                   res1 = (res * ucast (nss r)) div 8;
                   res2 = (if he_dcm r \<noteq> 0 then res1 div 2 else res1)
               in res2 div 10000)"

definition cfg80211_calculate_bitrate :: "rate_info \<Rightarrow> u32" where
  "cfg80211_calculate_bitrate r =
     (if ri_flags r AND 1 \<noteq> 0 then cfg80211_calculate_bitrate_ht r
      else if ri_flags r AND 8 \<noteq> 0 then cfg80211_calculate_bitrate_dmg r
      else if ri_flags r AND 32 \<noteq> 0 then cfg80211_calculate_bitrate_edmg r
      else if ri_flags r AND 2 \<noteq> 0 then cfg80211_calculate_bitrate_vht r
      else if ri_flags r AND 16 \<noteq> 0 then cfg80211_calculate_bitrate_he r
      else ucast (legacy r))"

section \<open>Information elements\<close>

text \<open>
  A read behind the buffer gives \<open>None\<close>. The arrays \<open>ids\<close> are not empty and do not end in the
  extension identifier, which the code checks first.
\<close>

definition WLAN_EID_RIC_DATA :: u8 where "WLAN_EID_RIC_DATA = 57"
definition WLAN_EID_FRAGMENT :: u8 where "WLAN_EID_FRAGMENT = 242"
definition WLAN_EID_EXTENSION :: u8 where "WLAN_EID_EXTENSION = 255"

fun id_in_list_loop :: "u8 list \<Rightarrow> u8 \<Rightarrow> bool \<Rightarrow> bool" where
  "id_in_list_loop [] i ext = False"
| "id_in_list_loop [x] i ext = (x \<noteq> WLAN_EID_EXTENSION \<and> x = i \<and> \<not> ext)"
| "id_in_list_loop (x # y # xs) i ext =
     (if x = WLAN_EID_EXTENSION
      then (if ext \<and> y = i then True else id_in_list_loop xs i ext)
      else if x = i \<and> \<not> ext then True else id_in_list_loop (y # xs) i ext)"

definition ieee80211_id_in_list :: "u8 list \<Rightarrow> u8 \<Rightarrow> bool \<Rightarrow> bool" where
  "ieee80211_id_in_list ids i ext =
     (if last ids = WLAN_EID_EXTENSION then False else id_in_list_loop ids i ext)"

definition byte_at :: "bytes \<Rightarrow> nat \<Rightarrow> u8 option" where
  "byte_at b i = (if i < length b then Some (b ! i) else None)"

text \<open>The loop over the fragments that follow an element of 255 bytes.\<close>

function skip_fragments :: "bytes \<Rightarrow> nat \<Rightarrow> nat option" where
  "skip_fragments ies pos =
     (if pos < length ies \<and> ies ! pos = WLAN_EID_FRAGMENT
      then (case byte_at ies (pos + 1) of
              None \<Rightarrow> None
            | Some n \<Rightarrow> skip_fragments ies (pos + 2 + unat n))
      else Some pos)"
  by pat_completeness auto
termination by (relation "measure (\<lambda>(ies, pos). length ies - pos)") auto

declare skip_fragments.simps [simp del]

definition skip_ie :: "bytes \<Rightarrow> nat \<Rightarrow> nat option" where
  "skip_ie ies pos =
     (case byte_at ies (pos + 1) of
        None \<Rightarrow> None
      | Some n \<Rightarrow> let p = pos + 2 + unat n in if n < 255 then Some p else skip_fragments ies p)"

lemma skip_fragments_ge: "skip_fragments ies pos = Some p \<Longrightarrow> pos \<le> p"
proof (induction ies pos arbitrary: p rule: skip_fragments.induct)
  case (1 ies pos)
  show ?case
  proof (cases "pos < length ies \<and> ies ! pos = WLAN_EID_FRAGMENT")
    case True
    with "1.prems" obtain n where n: "byte_at ies (pos + 1) = Some n"
      "skip_fragments ies (pos + 2 + unat n) = Some p"
      by (subst (asm) skip_fragments.simps) (auto split: option.splits)
    from "1.IH" [OF True n] show ?thesis by simp
  next
    case False
    with "1.prems" show ?thesis
      by (subst (asm) skip_fragments.simps) (auto split: if_splits)
  qed
qed

lemma skip_ie_gt: "skip_ie ies pos = Some p \<Longrightarrow> pos < p"
  by (auto simp: skip_ie_def Let_def split: option.splits if_splits dest: skip_fragments_ge)

text \<open>The inner loop of \<open>ieee80211_ie_split_ric\<close>: up to the first element listed in \<open>after\<close>.\<close>

function skip_until_after :: "bytes \<Rightarrow> u8 list \<Rightarrow> nat \<Rightarrow> nat option" where
  "skip_until_after ies after pos =
     (if pos < length ies
      then let ext = (if ies ! pos = WLAN_EID_EXTENSION then 2 else 0) in
           if pos + ext \<ge> length ies then Some pos
           else if \<not> ieee80211_id_in_list after (ies ! (pos + ext)) (ext = 2)
           then (case skip_ie ies pos of
                   None \<Rightarrow> None
                 | Some p \<Rightarrow> skip_until_after ies after p)
           else Some pos
      else Some pos)"
  by pat_completeness auto
termination
  by (relation "measure (\<lambda>(ies, after, pos). length ies - pos)") (auto dest: skip_ie_gt)

declare skip_until_after.simps [simp del]

lemma skip_until_after_ge: "skip_until_after ies after pos = Some p \<Longrightarrow> pos \<le> p"
proof (induction ies after pos arbitrary: p rule: skip_until_after.induct)
  case (1 ies after pos)
  let ?e = "if ies ! pos = WLAN_EID_EXTENSION then 2 else 0 :: nat"
  show ?case
  proof (cases "pos < length ies \<and> \<not> pos + ?e \<ge> length ies \<and>
      \<not> ieee80211_id_in_list after (ies ! (pos + ?e)) (?e = 2)")
    case True
    with "1.prems" obtain q where q: "skip_ie ies pos = Some q" "skip_until_after ies after q = Some p"
      by (subst (asm) skip_until_after.simps) (simp only: Let_def if_True split: option.splits, auto)
    have "q \<le> p" by (rule "1.IH" [OF _ refl _ _ q]) (use True in auto)
    with skip_ie_gt [OF q(1)] show ?thesis by simp
  next
    case False
    with "1.prems" show ?thesis
      by (subst (asm) skip_until_after.simps) (auto simp: Let_def split: if_splits)
  qed
qed

function ieee80211_ie_split_ric ::
  "bytes \<Rightarrow> u8 list \<Rightarrow> u8 list \<Rightarrow> nat \<Rightarrow> nat option" where
  "ieee80211_ie_split_ric ies ids after_ric pos =
     (if pos < length ies
      then let is_ext = ies ! pos = WLAN_EID_EXTENSION; ext = (if is_ext then 2 else 0) in
           if pos + ext \<ge> length ies then Some pos
           else if \<not> ieee80211_id_in_list ids (ies ! (pos + ext)) is_ext then Some pos
           else if ies ! pos = WLAN_EID_RIC_DATA \<and> after_ric \<noteq> []
           then (case skip_ie ies pos of
                   None \<Rightarrow> None
                 | Some p \<Rightarrow>
                     (case skip_until_after ies after_ric p of
                        None \<Rightarrow> None
                      | Some p1 \<Rightarrow> ieee80211_ie_split_ric ies ids after_ric p1))
           else (case skip_ie ies pos of
                   None \<Rightarrow> None
                 | Some p \<Rightarrow> ieee80211_ie_split_ric ies ids after_ric p)
      else Some pos)"
  by pat_completeness auto
termination
  by (relation "measure (\<lambda>(ies, ids, after, pos). length ies - pos)")
     (auto dest!: skip_ie_gt skip_until_after_ge)

declare ieee80211_ie_split_ric.simps [simp del]

text \<open>
  \<open>cfg80211_get_p2p_attr\<close>. The result is the attribute length and the bytes copied to \<open>buf\<close>
  (which holds at most \<open>bufsize\<close> of them), or the error. \<open>remaining\<close> and \<open>desired\<close> are
  \<open>attr_remaining\<close> and \<open>desired_attr\<close>; \<open>got\<close> is what was copied so far and \<open>tot\<close> the \<open>u16\<close>
  \<open>desired_len\<close>. \<open>Inl None\<close> is \<open>-EILSEQ\<close>.
\<close>

definition copy_attr :: "nat \<Rightarrow> bytes \<Rightarrow> bytes \<Rightarrow> bytes" where
  "copy_attr bufsize got new = got @ take (bufsize - length got) new"

text \<open>The attributes of one element; \<open>Inr\<close> continues with the next element.\<close>

datatype p2p_result = P2P_eilseq | P2P_enoent | P2P_found u16 bytes

function p2p_attrs ::
  "u8 \<Rightarrow> nat \<Rightarrow> bytes \<Rightarrow> bool \<Rightarrow> nat \<Rightarrow> u16 \<Rightarrow> bytes \<Rightarrow> p2p_result + (bool \<times> nat \<times> u16 \<times> bytes)" where
  "p2p_attrs attr bufsize d desired remaining tot got =
     (if d = [] then Inr (desired, remaining, tot, got)
      else if length d < 3 then Inl P2P_eilseq
      else let des = (d ! 0 = attr);
               n = unat (d ! 1) + 256 * unat (d ! 2);
               rest = drop 3 d;
               cp = min n (length rest);
               total1 = (if des then tot + of_nat cp else tot);
               got1 = (if des then copy_attr bufsize got (take cp rest) else got)
           in if des \<and> cp = n then Inl (P2P_found total1 got1)
              else p2p_attrs attr bufsize (drop cp rest) des (n - cp) total1 got1)"
  by pat_completeness auto
termination by (relation "measure (\<lambda>(attr, bufsize, d, _). length d)") auto

declare p2p_attrs.simps [simp del]

function p2p_elems ::
  "u8 \<Rightarrow> nat \<Rightarrow> bytes \<Rightarrow> bool \<Rightarrow> nat \<Rightarrow> u16 \<Rightarrow> bytes \<Rightarrow> p2p_result" where
  "p2p_elems attr bufsize ies desired remaining tot got =
     (if ies = [] then (if remaining \<noteq> 0 \<and> desired then P2P_eilseq else P2P_enoent)
      else if length ies < 2 then P2P_eilseq
      else let n = unat (ies ! 1) in
        if n + 2 > length ies then P2P_eilseq
        else let d = take n (drop 2 ies); nx = drop (n + 2) ies in
          if ies ! 0 \<noteq> 221 \<or> n < 4 \<or> take 4 d \<noteq> [0x50, 0x6f, 0x9a, 0x09]
          then p2p_elems attr bufsize nx desired remaining tot got
          else let d1 = drop 4 d;
                   cp = min remaining (length d1);
                   cont = (cp \<noteq> 0 \<and> desired);
                   total1 = (if cont then tot + of_nat cp else tot);
                   got1 = (if cont then copy_attr bufsize got (take cp d1) else got)
               in if cont \<and> cp = remaining then P2P_found total1 got1
                  else if remaining - cp \<noteq> 0
                  then p2p_elems attr bufsize nx desired (remaining - cp) total1 got1
                  else (case p2p_attrs attr bufsize (drop cp d1) desired 0 total1 got1 of
                          Inl r \<Rightarrow> r
                        | Inr (des, rem, total2, got2) \<Rightarrow>
                            p2p_elems attr bufsize nx des rem total2 got2))"
  by pat_completeness auto
termination by (relation "measure (\<lambda>(attr, bufsize, ies, _). length ies)") auto

declare p2p_elems.simps [simp del]

definition cfg80211_get_p2p_attr :: "bytes \<Rightarrow> u8 \<Rightarrow> nat \<Rightarrow> p2p_result" where
  "cfg80211_get_p2p_attr ies attr bufsize = p2p_elems attr bufsize ies False 0 0 []"

section \<open>Operating classes\<close>

datatype nl80211_chan_width =
  NL80211_CHAN_WIDTH_20_NOHT | NL80211_CHAN_WIDTH_20 | NL80211_CHAN_WIDTH_40
| NL80211_CHAN_WIDTH_80 | NL80211_CHAN_WIDTH_80P80 | NL80211_CHAN_WIDTH_160
| NL80211_CHAN_WIDTH_5 | NL80211_CHAN_WIDTH_10

text \<open>The value of the enumeration, which the code compares.\<close>

primrec width_val :: "nl80211_chan_width \<Rightarrow> nat" where
  "width_val NL80211_CHAN_WIDTH_20_NOHT = 0"
| "width_val NL80211_CHAN_WIDTH_20 = 1"
| "width_val NL80211_CHAN_WIDTH_40 = 2"
| "width_val NL80211_CHAN_WIDTH_80 = 3"
| "width_val NL80211_CHAN_WIDTH_80P80 = 4"
| "width_val NL80211_CHAN_WIDTH_160 = 5"
| "width_val NL80211_CHAN_WIDTH_5 = 6"
| "width_val NL80211_CHAN_WIDTH_10 = 7"

record cfg80211_chan_def =
  chan :: "ieee80211_channel option"
  width :: nl80211_chan_width
  center_freq1 :: u32
  center_freq2 :: u32
  cd_edmg :: edmg

definition ieee80211_operating_class_to_band :: "u8 \<Rightarrow> nl80211_band option" where
  "ieee80211_operating_class_to_band c =
     (if c = 112 \<or> 115 \<le> c \<and> c \<le> 127 \<or> 128 \<le> c \<and> c \<le> 130 then Some NL80211_BAND_5GHZ
      else if 131 \<le> c \<and> c \<le> 135 then Some NL80211_BAND_6GHZ
      else if c = 81 \<or> c = 82 \<or> c = 83 \<or> c = 84 then Some NL80211_BAND_2GHZ
      else if c = 180 then Some NL80211_BAND_60GHZ
      else None)"

text \<open>
  One of the 5 GHz blocks: VHT class, HT40 above, HT40 below, else. \<open>cf\<close> is the frequency of the
  control channel; \<open>None\<close> is \<open>false\<close>.
\<close>

definition opclass_5ghz ::
  "nat \<Rightarrow> nl80211_chan_width \<Rightarrow> u32 \<Rightarrow> u32 \<Rightarrow> u8 \<Rightarrow> u8 \<Rightarrow> u8 \<Rightarrow> u8 option" where
  "opclass_5ghz vht w freq cf ht40p ht40m other =
     (if vht \<noteq> 0 then Some (of_nat vht)
      else if w = NL80211_CHAN_WIDTH_40 then Some (if freq > cf then ht40p else ht40m)
      else Some other)"

definition vht_opclass :: "nl80211_chan_width \<Rightarrow> nat" where
  "vht_opclass w = (case w of NL80211_CHAN_WIDTH_80 \<Rightarrow> 128 | NL80211_CHAN_WIDTH_160 \<Rightarrow> 129
     | NL80211_CHAN_WIDTH_80P80 \<Rightarrow> 130 | _ \<Rightarrow> 0)"

definition ieee80211_chandef_to_operating_class :: "cfg80211_chan_def \<Rightarrow> u8 option" where
  "ieee80211_chandef_to_operating_class cd =
     (let freq = center_freq1 cd; w = width cd;
          cf = (case chan cd of None \<Rightarrow> 0 | Some c \<Rightarrow> center_freq c);
          vht = vht_opclass w
      in if freq \<ge> 2412 \<and> freq \<le> 2472
         then (if width_val w > width_val NL80211_CHAN_WIDTH_40 then None
               else if w = NL80211_CHAN_WIDTH_40 then Some (if freq > cf then 83 else 84)
               else Some 81)
         else if freq = 2484
         then (if w \<noteq> NL80211_CHAN_WIDTH_20_NOHT then None else Some 82)
         else if w = NL80211_CHAN_WIDTH_10 \<or> w = NL80211_CHAN_WIDTH_5 then None
         else if freq \<ge> 5180 \<and> freq \<le> 5240 then opclass_5ghz vht w freq cf 116 117 115
         else if freq \<ge> 5260 \<and> freq \<le> 5320 then opclass_5ghz vht w freq cf 119 120 118
         else if freq \<ge> 5500 \<and> freq \<le> 5720 then opclass_5ghz vht w freq cf 122 123 121
         else if freq \<ge> 5745 \<and> freq \<le> 5845
         then opclass_5ghz vht w freq cf 126 127 (if freq \<le> 5805 then 124 else 125)
         else if freq \<ge> 56160 + 2160 * 1 \<and> freq \<le> 56160 + 2160 * 6
         then (if width_val w \<ge> width_val NL80211_CHAN_WIDTH_40 then None else Some 180)
         else None)"

section \<open>Beacon intervals\<close>

text \<open>
  The binary \<open>gcd\<close> of \<open>include/asm/bitsperlong.h\<close> on \<open>unsigned long\<close>: the shifts that make a number
  odd relative to the lowest common bit \<open>r\<close>, and the subtraction loop. A number without a bit at or
  above \<open>r\<close> would be shifted for ever; the model stops at 0.
\<close>

function gcd_shift :: "u64 \<Rightarrow> u64 \<Rightarrow> u64" where
  "gcd_shift r b = (if b = 0 \<or> b AND r \<noteq> 0 then b else gcd_shift r (drop_bit 1 b))"
  by pat_completeness auto
termination
proof (relation "measure (\<lambda>(r, b). unat b)")
  fix r b :: u64
  assume "\<not> (b = 0 \<or> b AND r \<noteq> 0)"
  then have "0 < unat b" by (simp add: unat_gt_0)
  then show "((r, drop_bit 1 b), r, b) \<in> measure (\<lambda>(r, b). unat b)"
    by (simp add: drop_bit_Suc unat_div)
qed simp

declare gcd_shift.simps [simp del]

fun gcd_loop :: "nat \<Rightarrow> u64 \<Rightarrow> u64 \<Rightarrow> u64 \<Rightarrow> u64 option" where
  "gcd_loop 0 r a b = None"
| "gcd_loop (Suc fuel) r a b =
     (let a1 = gcd_shift r a in
      if a1 = r then Some r
      else if a1 = b then Some a1
      else let (x, y) = (if a1 < b then (b, a1) else (a1, b));
               x1 = drop_bit 1 (x - y);
               x2 = (if x1 AND r \<noteq> 0 then x1 + y else x1)
           in gcd_loop fuel r (drop_bit 1 x2) y)"

text \<open>Each round makes the sum of the two numbers smaller, so \<open>unat a + unat b\<close> rounds are enough.\<close>

definition gcd_long :: "u64 \<Rightarrow> u64 \<Rightarrow> u64 option" where
  "gcd_long a b =
     (let r0 = a OR b in
      if a = 0 \<or> b = 0 then Some r0
      else let r = r0 AND (- r0); b1 = gcd_shift r b
           in if b1 = r then Some r else gcd_loop (Suc (unat a + unat b1)) r a b1)"

text \<open>The loop over the beacon intervals of the interfaces; \<open>None\<close> when \<open>gcd_long\<close> has no result.\<close>

fun bi_loop :: "u32 list \<Rightarrow> u32 \<times> bool \<Rightarrow> (u32 \<times> bool) option" where
  "bi_loop [] (g, d) = Some (g, d)"
| "bi_loop (b # bs) (g, d) =
     (if b = 0 then bi_loop bs (g, d)
      else if g = 0 then bi_loop bs (b, d)
      else if b = g then bi_loop bs (g, d)
      else case gcd_long (ucast g) (ucast b) of
             None \<Rightarrow> None
           | Some g1 \<Rightarrow> bi_loop bs (ucast g1, True))"

definition cfg80211_calculate_bi_data :: "u32 list \<Rightarrow> u32 \<Rightarrow> (u32 \<times> bool) option" where
  "cfg80211_calculate_bi_data intervals new_beacon_int =
     (case bi_loop intervals (0, False) of
        None \<Rightarrow> None
      | Some (g, d) \<Rightarrow>
          if new_beacon_int \<noteq> 0 \<and> g \<noteq> new_beacon_int
          then (let d1 = (if g \<noteq> 0 then True else d) in
                map_option (\<lambda>g1. (ucast g1, d1)) (gcd_long (ucast g) (ucast new_beacon_int)))
          else Some (g, d))"

definition cfg80211_validate_beacon_int :: "u32 \<Rightarrow> bool" where
  "cfg80211_validate_beacon_int beacon_int \<longleftrightarrow> \<not> (beacon_int < 10 \<or> beacon_int > 10000)"

section \<open>Interface combinations\<close>

definition NUM_NL80211_IFTYPES :: nat where "NUM_NL80211_IFTYPES = 13"
definition NL80211_IFTYPE_AP_VLAN :: nat where "NL80211_IFTYPE_AP_VLAN = 4"

record iface_limit =
  lim_max :: u16
  lim_types :: u16

record iface_combination =
  limits :: "iface_limit list"
  num_different_channels :: u32
  max_interfaces :: u16
  radar_detect_widths :: u8
  radar_detect_regions :: u8
  beacon_int_min_gcd :: u32

record iface_combination_params =
  p_num_different_channels :: int
  p_radar_detect :: u8
  p_iftype_num :: "nat \<Rightarrow> int"
  p_new_beacon_int :: u32

record combi_wiphy =
  w_flags_4addr_ap :: bool
  interface_modes :: u16
  software_iftypes :: u16
  iface_combinations :: "iface_combination list"
  w_beacon_intervals :: "u32 list"

definition cfg80211_iftype_allowed :: "combi_wiphy \<Rightarrow> nat \<Rightarrow> bool \<Rightarrow> nat \<Rightarrow> bool" where
  "cfg80211_iftype_allowed wiphy iftype is_4addr check_swif =
     (let is_vlan = (iftype = NL80211_IFTYPE_AP_VLAN) in
      if check_swif = 0
      then (if is_vlan \<and> is_4addr then w_flags_4addr_ap wiphy else bit (interface_modes wiphy) iftype)
      else if check_swif = 1
      then (if \<not> bit (software_iftypes wiphy) iftype \<and> is_vlan then w_flags_4addr_ap wiphy
            else bit (software_iftypes wiphy) iftype)
      else False)"

text \<open>
  The inner loop over the limits for one interface type: \<open>None\<close> is \<open>goto cont\<close>. The comparison
  promotes the \<open>u16\<close> to \<open>int\<close>, the subtraction is stored back in 16 bits.
\<close>

fun take_limits :: "nat \<Rightarrow> int \<Rightarrow> iface_limit list \<Rightarrow> iface_limit list option" where
  "take_limits iftype num [] = Some []"
| "take_limits iftype num (l # ls) =
     (if \<not> bit (lim_types l) iftype then map_option ((#) l) (take_limits iftype num ls)
      else if int (unat (lim_max l)) < num then None
      else map_option ((#) (l\<lparr>lim_max := of_int (int (unat (lim_max l)) - num)\<rparr>))
             (take_limits iftype num ls))"

fun take_all_limits :: "(nat \<Rightarrow> int) \<Rightarrow> nat list \<Rightarrow> iface_limit list \<Rightarrow> iface_limit list option" where
  "take_all_limits nums [] ls = Some ls"
| "take_all_limits nums (t # ts) ls =
     (case take_limits t (nums t) ls of None \<Rightarrow> None | Some ls1 \<Rightarrow> take_all_limits nums ts ls1)"

definition combination_fits ::
  "combi_wiphy \<Rightarrow> iface_combination_params \<Rightarrow> nat option \<Rightarrow> u32 \<times> bool \<Rightarrow> iface_combination \<Rightarrow> bool" where
  "combination_fits wiphy params region bi c =
     (let types = [0..<NUM_NL80211_IFTYPES];
          own = filter (\<lambda>t. \<not> cfg80211_iftype_allowed wiphy t False 1) types;
          num_interfaces = sum_list (map (p_iftype_num params) types);
          used = filter (\<lambda>t. p_iftype_num params t > 0) own;
          all_iftypes = (if own = [] then 0 else fold (\<lambda>l m. m OR lim_types l) (limits c) 0);
          (gcd_bi, different) = bi
      in \<not> num_interfaces > int (unat (max_interfaces c)) \<and>
         \<not> p_num_different_channels params > int (unat (num_different_channels c)) \<and>
         take_all_limits (p_iftype_num params) own (limits c) \<noteq> None \<and>
         p_radar_detect params = radar_detect_widths c AND p_radar_detect params \<and>
         \<not> (p_radar_detect params \<noteq> 0 \<and> radar_detect_regions c \<noteq> 0 \<and>
            \<not> bit (radar_detect_regions c) (case region of None \<Rightarrow> 0 | Some n \<Rightarrow> n)) \<and>
         list_all (bit all_iftypes) used \<and>
         \<not> (gcd_bi \<noteq> 0 \<and>
            (beacon_int_min_gcd c \<noteq> 0 \<and> gcd_bi < beacon_int_min_gcd c \<or>
             beacon_int_min_gcd c = 0 \<and> different)))"

text \<open>
  \<open>cfg80211_iter_combinations\<close> with the list of combinations that fit in the place of the calls of
  \<open>iter\<close>; \<open>Inl ENOMEM\<close> when a copy of the limits cannot be allocated.
\<close>

definition cfg80211_iter_combinations ::
  "bool \<Rightarrow> combi_wiphy \<Rightarrow> iface_combination_params \<Rightarrow> nat option \<Rightarrow>
   (errno + iface_combination list) option" where
  "cfg80211_iter_combinations kmemdup_ok wiphy params region =
     map_option (\<lambda>bi.
         if \<not> kmemdup_ok \<and>
            list_ex (\<lambda>c. \<not> sum_list (map (p_iftype_num params) [0..<NUM_NL80211_IFTYPES])
                            > int (unat (max_interfaces c)) \<and>
                         \<not> p_num_different_channels params > int (unat (num_different_channels c)))
              (iface_combinations wiphy)
         then Inl ENOMEM
         else Inr (filter (combination_fits wiphy params region bi) (iface_combinations wiphy)))
       (cfg80211_calculate_bi_data (w_beacon_intervals wiphy) (p_new_beacon_int params))"

definition cfg80211_check_combinations ::
  "bool \<Rightarrow> combi_wiphy \<Rightarrow> iface_combination_params \<Rightarrow> nat option \<Rightarrow> errno option option" where
  "cfg80211_check_combinations kmemdup_ok wiphy params region =
     map_option (\<lambda>r. case r of Inl e \<Rightarrow> Some e | Inr [] \<Rightarrow> Some EBUSY | Inr _ \<Rightarrow> None)
       (cfg80211_iter_combinations kmemdup_ok wiphy params region)"

section \<open>VHT streams\<close>

record vht_cap_info =
  vht_cap_bits :: u32
  rx_mcs_map :: u16
  tx_mcs_map :: u16

text \<open>The largest number of streams the map supports for the MCS.\<close>

definition max_vht_nss :: "u16 \<Rightarrow> nat \<Rightarrow> int" where
  "max_vht_nss m enc =
     (case find (\<lambda>i. let supp = unat (drop_bit (2 * i) m AND 3) in supp \<noteq> 3 \<and> supp \<ge> enc)
             (rev [0..<8]) of
        None \<Rightarrow> 0 | Some i \<Rightarrow> int i + 1)"

definition ieee80211_get_vht_max_nss :: "vht_cap_info \<Rightarrow> nat \<Rightarrow> int \<Rightarrow> bool \<Rightarrow> int" where
  "ieee80211_get_vht_max_nss cap bw m ext_nss_bw_capable =
     (if rx_mcs_map cap = 0xffff then 0
      else if m > 9 then 0
      else let n = max_vht_nss (rx_mcs_map cap) (if m \<le> 7 then 0 else if m = 8 then 1 else 2) in
        if \<not> bit (tx_mcs_map cap) 13 then n
        else let ext = (if ext_nss_bw_capable then unat (drop_bit 30 (vht_cap_bits cap)) else 0);
                 supp_width = unat (drop_bit 2 (vht_cap_bits cap) AND 3)
             in if supp_width = 3 then 0
                else if supp_width = 2 \<and> (ext = 1 \<or> ext = 2) then 0
                else if bw = 0 \<or> bw = 1
                then (if (supp_width = 1 \<or> supp_width = 2) \<and> ext = 3 then 2 * n else n)
                else if bw = 2
                then (if supp_width = 0 \<and> (ext = 1 \<or> ext = 2) then n div 2
                      else if supp_width = 0 \<and> ext = 3 then 3 * n div 4
                      else if supp_width = 1 \<and> ext = 3 then 2 * n else n)
                else if bw = 3
                then (if supp_width = 0 \<and> ext = 1 then 0
                      else if supp_width = 0 \<and> ext = 2 then n div 2
                      else if supp_width = 0 \<and> ext = 3 then 3 * n div 4
                      else if supp_width = 1 \<and> ext = 0 then 0
                      else if supp_width = 1 \<and> ext = 1 then n div 2
                      else if supp_width = 1 \<and> ext = 2 then 3 * n div 4 else n)
                else n)"

end
