(* ===== verification/Util80211_Props.thy ===== *)
theory Util80211_Props
  imports Util80211
begin

text \<open>
  Properties of the helpers of \<open>net/wireless/util.c\<close>: the round trip between channels and
  frequencies, exactness and overflow of the bit rates, the splitting of information elements, the
  bands of operating classes, the binary greatest common divisor, and key validation.
\<close>

section \<open>Channels and frequencies\<close>

lemma cdiv_pos: "0 \<le> a \<Longrightarrow> 0 < b \<Longrightarrow> cdiv a b = a div b"
  by (cases "a = 0") (simp_all add: cdiv_def)

text \<open>The channels of a band that have a frequency which leads back.\<close>

definition channel_ok :: "int \<Rightarrow> nl80211_band \<Rightarrow> bool" where
  "channel_ok c band \<longleftrightarrow> 1 \<le> c \<and>
     c \<le> (case band of NL80211_BAND_2GHZ \<Rightarrow> 14 | NL80211_BAND_5GHZ \<Rightarrow> 196
          | NL80211_BAND_60GHZ \<Rightarrow> 6 | NL80211_BAND_6GHZ \<Rightarrow> 253)"

lemma freq_5ghz_high:
  "197 \<le> c \<Longrightarrow> ieee80211_frequency_to_channel (5000 + c * 5) \<noteq> c"
  by (auto simp: ieee80211_frequency_to_channel_def cdiv_pos)

text \<open>
  Property C26: channel numbers and frequencies are inverse to each other. For a channel number
  and a band, the channel has a frequency and the frequency leads back to the channel exactly
  when the channel is 1 to 14 at 2.4 GHz, 1 to 196 at 5 GHz, 1 to 253 at 6 GHz or 1 to 6 at 60 GHz
  (at 5 GHz a higher number still has a frequency, but that belongs to another channel).
\<close>

theorem channel_frequency_roundtrip:
  "channel_ok c band \<longleftrightarrow>
     ieee80211_channel_to_frequency c band \<noteq> 0 \<and>
     ieee80211_frequency_to_channel (ieee80211_channel_to_frequency c band) = c"
proof (cases band)
  case NL80211_BAND_2GHZ
  then show ?thesis
    by (auto simp: channel_ok_def ieee80211_channel_to_frequency_def
        ieee80211_frequency_to_channel_def cdiv_pos)
next
  case NL80211_BAND_5GHZ
  show ?thesis
  proof (cases "c \<le> 196")
    case True
    with NL80211_BAND_5GHZ show ?thesis
      by (auto simp: channel_ok_def ieee80211_channel_to_frequency_def
          ieee80211_frequency_to_channel_def cdiv_pos)
  next
    case False
    with NL80211_BAND_5GHZ freq_5ghz_high [of c] show ?thesis
      by (auto simp: channel_ok_def ieee80211_channel_to_frequency_def)
  qed
next
  case NL80211_BAND_60GHZ
  then show ?thesis
    by (auto simp: channel_ok_def ieee80211_channel_to_frequency_def
        ieee80211_frequency_to_channel_def cdiv_pos)
next
  case NL80211_BAND_6GHZ
  then show ?thesis
    by (auto simp: channel_ok_def ieee80211_channel_to_frequency_def
        ieee80211_frequency_to_channel_def cdiv_pos)
qed

section \<open>Bit rates\<close>

text \<open>The rates without the limits of machine arithmetic.\<close>

definition vht_rate_exact :: "rate_info \<Rightarrow> nat \<Rightarrow> nat" where
  "vht_rate_exact r idx =
     (let b = unat (vht_base ! idx ! unat (mcs r)) * unat (nss r)
      in ((if short_gi r then b div 9 * 10 else b) + 50000) div 100000)"

definition he_rate_exact :: "rate_info \<Rightarrow> u32 list \<Rightarrow> nat" where
  "he_rate_exact r rates =
     (let res = unat (rates ! unat (he_gi r)) * 2048 div unat (he_mcs_divisors ! unat (mcs r));
          res1 = res * unat (nss r) div 8
      in (if he_dcm r \<noteq> 0 then res1 div 2 else res1) div 10000)"

lemma vht_base_bound:
  assumes "idx < 4" "m < 10"
  shows "unat (vht_base ! idx ! m) \<le> 780000000"
proof -
  have "list_all (\<lambda>row. length row = 10 \<and> list_all (\<lambda>x. unat x \<le> 780000000) row) vht_base"
    by (simp add: vht_base_def)
  moreover have "idx < length vht_base" using assms by (simp add: vht_base_def)
  ultimately show ?thesis using assms(2) by (simp add: list_all_length)
qed

lemma vht_exact:
  assumes m9: "mcs r \<le> 9" and bw: "vht_bw_idx (ri_bw r) = Some idx" and n4: "nss r \<le> 4"
  shows "unat (cfg80211_calculate_bitrate_vht r) = vht_rate_exact r idx"
proof -
  define b n where "b = vht_base ! idx ! unat (mcs r)" and "n = (ucast (nss r) :: u32)"
  have idx: "idx < 4" using bw by (auto simp: vht_bw_idx_def split: if_splits)
  have m: "unat (mcs r) < 10" using m9 by (simp add: word_le_nat_alt)
  have b: "unat b \<le> 780000000" unfolding b_def by (rule vht_base_bound [OF idx m])
  have n: "unat n = unat (nss r)" by (simp add: n_def unat_ucast_8_32)
  have "unat n \<le> 4" using n4 n by (simp add: word_le_nat_alt)
  then have bn: "unat b * unat n \<le> 3120000000" using b mult_le_mono [of "unat b" 780000000 "unat n" 4] by simp
  then have mul: "unat (b * n) = unat b * unat n" by (intro unat_mult_less) simp
  have dv: "unat ((b * n) div 9 * 10) = unat b * unat n div 9 * 10"
    using bn by (subst unat_mult_less) (simp_all add: unat_div mul)
  have ad: "unat (x + 50000) = unat x + 50000" if "unat x \<le> 4000000000" for x :: u32
    using that by (subst unat_add_less) simp_all
  have le: "unat ((b * n) div 9 * 10) \<le> 4000000000" "unat (b * n) \<le> 4000000000"
    unfolding dv mul using bn by linarith+
  have "cfg80211_calculate_bitrate_vht r =
      ((if short_gi r then (b * n) div 9 * 10 else b * n) + 50000) div 100000"
    using m9 bw by (simp add: cfg80211_calculate_bitrate_vht_def Let_def b_def n_def
        linorder_not_less [symmetric])
  then show ?thesis
    using ad [OF le(1)] ad [OF le(2)] dv mul n
    by (simp add: vht_rate_exact_def Let_def unat_div b_def)
qed

lemma he_tables:
  "he_rates r = Some rates \<Longrightarrow> g < 3 \<Longrightarrow> unat (rates ! g) \<le> 960777777"
proof -
  have t: "list_all (\<lambda>x. unat x \<le> 960777777) rates \<and> length rates = 3" if "he_rates r = Some rates"
    using that by (auto simp: he_rates_def Let_def split: if_splits)
  assume "he_rates r = Some rates" "g < 3"
  with t show ?thesis by (auto simp: list_all_length)
qed

lemma he_divisors: "m < 12 \<Longrightarrow> 2048 \<le> unat (he_mcs_divisors ! m)"
proof -
  assume m: "m < 12"
  have "list_all (\<lambda>d. 2048 \<le> unat d) he_mcs_divisors" by code_simp
  with m show ?thesis by (simp add: list_all_length he_mcs_divisors_def)
qed

lemma he_exact:
  assumes m: "mcs r \<le> 11" and g: "he_gi r \<le> 2" and ru: "he_ru_alloc r \<le> 6"
    and n: "1 \<le> nss r" "nss r \<le> 4" and rt: "he_rates r = Some rates"
  shows "unat (cfg80211_calculate_bitrate_he r) = he_rate_exact r rates"
proof -
  define x d n' where "x = rates ! unat (he_gi r)" and "d = he_mcs_divisors ! unat (mcs r)"
    and "n' = (ucast (nss r) :: u32)"
  define res where "res = (ucast (((ucast x :: u64) * 2048) div ucast d) :: u32)"
  have x: "unat x \<le> 960777777"
    unfolding x_def by (rule he_tables [OF rt]) (use g in \<open>simp add: word_le_nat_alt\<close>)
  have d: "2048 \<le> unat d"
    unfolding d_def by (rule he_divisors) (use m in \<open>simp add: word_le_nat_alt\<close>)
  have nn: "unat n' = unat (nss r)" by (simp add: n'_def unat_ucast_8_32)
  have n8: "\<not> nss r > 8" "\<not> nss r < 1" using n by (auto simp: word_less_nat_alt word_le_nat_alt)
  have t: "unat ((ucast x :: u64) * 2048) = unat x * 2048"
    using x by (subst unat_mult_less) (simp_all add: unat_ucast_32_64)
  have q: "unat (((ucast x :: u64) * 2048) div ucast d) = unat x * 2048 div unat d"
    by (simp add: unat_div t unat_ucast_16_64)
  have ql: "unat x * 2048 div unat d \<le> unat x"
  proof -
    have "unat x * 2048 div unat d \<le> unat x * unat d div unat d"
      using d by (intro div_le_mono) simp
    also have "\<dots> = unat x" using d by simp
    finally show ?thesis .
  qed
  have res: "unat res = unat x * 2048 div unat d"
    using q ql x by (simp add: res_def unsigned_ucast_eq take_bit_nat_eq_self_iff)
  have "unat res \<le> 960777777" using res ql x by linarith
  moreover have "unat n' \<le> 4" using n(2) nn by (simp add: word_le_nat_alt)
  ultimately have "unat res * unat n' \<le> 960777777 * 4" by (intro mult_le_mono)
  then have mul: "unat (res * n') = unat res * unat n'" by (intro unat_mult_less) simp
  have "cfg80211_calculate_bitrate_he r =
      (if he_dcm r \<noteq> 0 then res * n' div 8 div 2 else res * n' div 8) div 10000"
    using m g ru n8 rt by (simp add: cfg80211_calculate_bitrate_he_def Let_def res_def n'_def x_def
        d_def linorder_not_less [symmetric])
  then show ?thesis
    using mul res nn by (simp add: he_rate_exact_def Let_def unat_div x_def d_def)
qed

text \<open>
  Up to four spatial streams, the VHT and HE bit rates are exact: the machine
  arithmetic of \<open>cfg80211_calculate_bitrate_vht\<close> and \<open>cfg80211_calculate_bitrate_he\<close> gives what
  the same formula gives without limits, for every rate the tables have.
\<close>

theorem bitrates_exact:
  assumes "nss r \<le> 4"
  shows "(mcs r \<le> 9 \<and> vht_bw_idx (ri_bw r) = Some idx \<longrightarrow>
      unat (cfg80211_calculate_bitrate_vht r) = vht_rate_exact r idx) \<and>
    (mcs r \<le> 11 \<and> he_gi r \<le> 2 \<and> he_ru_alloc r \<le> 6 \<and> 1 \<le> nss r \<and> he_rates r = Some rates \<longrightarrow>
      unat (cfg80211_calculate_bitrate_he r) = he_rate_exact r rates)"
  using vht_exact [OF _ _ assms] he_exact [OF _ _ _ _ assms] by blast

definition demo_rate :: "u8 \<Rightarrow> u8 \<Rightarrow> u8 \<Rightarrow> rate_info" where
  "demo_rate fl m n = \<lparr>ri_flags = fl, mcs = m, legacy = 0, nss = n, ri_bw = RATE_INFO_BW_160, he_gi = 0,
     he_dcm = 0, he_ru_alloc = 0, n_bonded_ch = 0\<rparr>"

theorem bitrates_exact_witness:
  "unat (cfg80211_calculate_bitrate_vht (demo_rate 2 9 4)) = vht_rate_exact (demo_rate 2 9 4) 3 \<and>
   unat (cfg80211_calculate_bitrate_he (demo_rate 16 11 4)) =
     he_rate_exact (demo_rate 16 11 4) [960777777, 907400000, 816666666]"
  using bitrates_exact [of "demo_rate 2 9 4" 3 "[]"]
    bitrates_exact [of "demo_rate 16 11 4" 0 "[960777777, 907400000, 816666666]"]
  by (simp add: demo_rate_def vht_bw_idx_def he_rates_def Let_def RATE_INFO_BW_160_def
      RATE_INFO_BW_80_def RATE_INFO_BW_40_def RATE_INFO_BW_20_def)

text \<open>
  With more streams the 32-bit products wrap around. At 160 MHz and the highest MCS, six
  VHT streams are reported slower than one, and eight HE streams slower than four.
\<close>

theorem bitrates_wrap:
  "cfg80211_calculate_bitrate (demo_rate 2 9 6) < cfg80211_calculate_bitrate (demo_rate 2 9 1) \<and>
   cfg80211_calculate_bitrate (demo_rate 16 11 8) < cfg80211_calculate_bitrate (demo_rate 16 11 4)"
  by code_simp

section \<open>Operating classes\<close>

definition freq_band :: "u32 \<Rightarrow> nl80211_band" where
  "freq_band f = (if f \<le> 2484 then NL80211_BAND_2GHZ else if f \<le> 5925 then NL80211_BAND_5GHZ
     else if f \<le> 45000 then NL80211_BAND_6GHZ else NL80211_BAND_60GHZ)"

text \<open>
  The operating class of a channel definition is a class of its band: whenever
  \<open>ieee80211_chandef_to_operating_class\<close> finds a class, \<open>ieee80211_operating_class_to_band\<close> maps
  it to the band of the centre frequency.
\<close>

theorem operating_class_band:
  assumes "ieee80211_chandef_to_operating_class cd = Some c"
  shows "ieee80211_operating_class_to_band c = Some (freq_band (center_freq1 cd))"
  using assms
  by (cases "width cd")
     (auto simp: ieee80211_chandef_to_operating_class_def opclass_5ghz_def vht_opclass_def Let_def
        ieee80211_operating_class_to_band_def freq_band_def word_le_nat_alt word_less_nat_alt
        split: if_splits)

theorem operating_class_band_witness:
  "ieee80211_operating_class_to_band 128 = Some (freq_band 5210)"
  using operating_class_band
    [of "\<lparr>chan = None, width = NL80211_CHAN_WIDTH_80, center_freq1 = 5210, center_freq2 = 0,
      cd_edmg = \<lparr>edmg_channels = 0, edmg_bw_config = 0\<rparr>\<rparr>" 128]
  by (simp add: ieee80211_chandef_to_operating_class_def opclass_5ghz_def vht_opclass_def Let_def)

section \<open>Information elements\<close>

text \<open>Elements with their identifier and data, and their encoding.\<close>

type_synonym element = "u8 \<times> bytes"

definition enc_element :: "element \<Rightarrow> bytes" where
  "enc_element e = fst e # of_nat (length (snd e)) # snd e"

definition enc_elements :: "element list \<Rightarrow> bytes" where
  "enc_elements es = concat (map enc_element es)"

definition element_ok :: "element \<Rightarrow> bool" where
  "element_ok e \<longleftrightarrow> length (snd e) \<le> 255 \<and> fst e \<noteq> WLAN_EID_FRAGMENT \<and>
     (fst e = WLAN_EID_EXTENSION \<longrightarrow> snd e \<noteq> [])"

definition listed :: "u8 list \<Rightarrow> element \<Rightarrow> bool" where
  "listed ids e = (if fst e = WLAN_EID_EXTENSION then ieee80211_id_in_list ids (hd (snd e)) True
     else ieee80211_id_in_list ids (fst e) False)"

lemma enc_elements_simps [simp]:
  "enc_elements [] = []"
  "enc_elements (e # es) = fst e # of_nat (length (snd e)) # snd e @ enc_elements es"
  by (simp_all add: enc_elements_def enc_element_def)

lemma enc_no_fragment:
  "list_all element_ok es \<Longrightarrow> skip_fragments (pre @ enc_elements es) (length pre) = Some (length pre)"
  by (cases es) (simp_all add: skip_fragments.simps element_ok_def nth_append)

lemma of_nat_u8: "n \<le> 255 \<Longrightarrow> unat (of_nat n :: u8) = n"
  by (simp add: unat_of_nat take_bit_nat_eq_self_iff)

lemma skip_ie_element:
  assumes "list_all element_ok (e # es)"
  shows "skip_ie (pre @ enc_elements (e # es)) (length pre) = Some (length (pre @ enc_element e))"
proof -
  have n: "unat (of_nat (length (snd e)) :: u8) = length (snd e)"
    using assms by (simp add: of_nat_u8 element_ok_def)
  have "skip_fragments (pre @ enc_elements (e # es)) (length (pre @ enc_element e)) =
      Some (length (pre @ enc_element e))"
    using enc_no_fragment [of es "pre @ enc_element e"] assms by (simp add: enc_element_def)
  then show ?thesis
    using n by (simp add: skip_ie_def Let_def byte_at_def nth_append enc_element_def)
qed

text \<open>At an element the guards of the loops read its identifier.\<close>

lemma element_guard:
  assumes "element_ok e"
  shows "length pre < length (pre @ enc_elements (e # es))"
    "(pre @ enc_elements (e # es)) ! length pre = fst e"
    "\<not> length (pre @ enc_elements (e # es)) \<le> length pre + (if fst e = WLAN_EID_EXTENSION then 2 else 0)"
    "ieee80211_id_in_list ids ((pre @ enc_elements (e # es)) !
       (length pre + (if fst e = WLAN_EID_EXTENSION then 2 else 0))) (fst e = WLAN_EID_EXTENSION) =
     listed ids e"
  using assms
  by (auto simp: listed_def element_ok_def nth_append hd_conv_nth split: if_splits)

lemma ext_two: "((if c then 2 else 0 :: nat) = 2) = c"
  by simp

lemma skip_until_after_elements:
  "list_all element_ok es \<Longrightarrow> skip_until_after (pre @ enc_elements es) after (length pre) =
     Some (length (pre @ enc_elements (takeWhile (\<lambda>e. \<not> listed after e) es)))"
proof (induction es arbitrary: pre)
  case Nil
  then show ?case by (simp add: skip_until_after.simps)
next
  case (Cons e es)
  have ok: "element_ok e" using Cons.prems by simp
  note g = element_guard [OF ok, where pre = pre and es = es]
  have IH: "skip_until_after (pre @ enc_elements (e # es)) after (length (pre @ enc_element e)) =
      Some (length ((pre @ enc_element e) @ enc_elements (takeWhile (\<lambda>e. \<not> listed after e) es)))"
    using Cons.IH [of "pre @ enc_element e"] Cons.prems by (simp add: enc_element_def)
  show ?case
    by (subst skip_until_after.simps, simp only: Let_def ext_two g if_True if_False skip_ie_element [OF Cons.prems]
        option.case IH) (simp add: enc_element_def)
qed

text \<open>The elements before the split: the listed ones, and after RIC data what \<open>after\<close> does not list.\<close>

function split_prefix :: "u8 list \<Rightarrow> u8 list \<Rightarrow> element list \<Rightarrow> element list" where
  "split_prefix ids after [] = []"
| "split_prefix ids after (e # es) =
     (if \<not> listed ids e then []
      else if fst e = WLAN_EID_RIC_DATA \<and> after \<noteq> []
      then e # takeWhile (\<lambda>x. \<not> listed after x) es @
        split_prefix ids after (dropWhile (\<lambda>x. \<not> listed after x) es)
      else e # split_prefix ids after es)"
  by pat_completeness auto
termination
  by (relation "measure (\<lambda>(ids, after, es). length es)") (auto simp: less_Suc_eq_le length_dropWhile_le)

lemma split_elements:
  "list_all element_ok es \<Longrightarrow> ieee80211_ie_split_ric (pre @ enc_elements es) ids after (length pre) =
     Some (length (pre @ enc_elements (split_prefix ids after es)))"
proof (induction ids after es arbitrary: pre rule: split_prefix.induct)
  case (1 ids after)
  then show ?case by (simp add: ieee80211_ie_split_ric.simps)
next
  case (2 ids after e es)
  have ok: "element_ok e" using "2.prems" by simp
  note g = element_guard [OF ok, where pre = pre and es = es]
  let ?q = "pre @ enc_element e"
  let ?sk = "takeWhile (\<lambda>x. \<not> listed after x) es"
  let ?rest = "dropWhile (\<lambda>x. \<not> listed after x) es"
  have q: "pre @ enc_elements (e # es) = ?q @ enc_elements es" by (simp add: enc_element_def)
  have sk: "skip_until_after (pre @ enc_elements (e # es)) after (length ?q) =
      Some (length (?q @ enc_elements ?sk))"
    unfolding q by (rule skip_until_after_elements) (use "2.prems" in simp)
  consider (stop) "\<not> listed ids e" | (ric) "listed ids e" "fst e = WLAN_EID_RIC_DATA \<and> after \<noteq> []"
    | (step) "listed ids e" "\<not> (fst e = WLAN_EID_RIC_DATA \<and> after \<noteq> [])" by blast
  then show ?case
  proof cases
    case stop
    then show ?thesis by (subst ieee80211_ie_split_ric.simps) (simp only: Let_def ext_two g, simp)
  next
    case ric
    have ricT: "(fst e = WLAN_EID_RIC_DATA \<and> after \<noteq> []) = True" using ric(2) by simp
    have r: "list_all element_ok ?rest"
      using "2.prems" by (auto simp: list_all_iff dest: set_dropWhileD)
    have cat: "enc_elements ?sk @ enc_elements ?rest = enc_elements es"
      by (simp add: enc_elements_def flip: concat_append map_append)
    have IH: "ieee80211_ie_split_ric (pre @ enc_elements (e # es)) ids after (length (?q @ enc_elements ?sk)) =
        Some (length ((?q @ enc_elements ?sk) @ enc_elements (split_prefix ids after ?rest)))"
    proof -
      have "pre @ enc_elements (e # es) = (?q @ enc_elements ?sk) @ enc_elements ?rest"
        unfolding q append_assoc cat ..
      then show ?thesis
        using "2.IH"(1) [OF _ ric(2) r, of "?q @ enc_elements ?sk"] ric(1) by (simp only: not_not)
    qed
    show ?thesis
      by (subst ieee80211_ie_split_ric.simps, simp only: Let_def ext_two g if_True if_False ric(1) ricT
          skip_ie_element [OF "2.prems"] option.case sk IH)
        (use ric in \<open>simp add: enc_element_def enc_elements_def\<close>)
  next
    case step
    have stepF: "(fst e = WLAN_EID_RIC_DATA \<and> after \<noteq> []) = False" using step(2) by simp
    have IH: "ieee80211_ie_split_ric (pre @ enc_elements (e # es)) ids after (length ?q) =
        Some (length (?q @ enc_elements (split_prefix ids after es)))"
      using "2.IH"(2) [OF _ step(2), of ?q] step(1) "2.prems"
      unfolding q by (simp only: list.pred_inject not_not)
    show ?thesis
      by (subst ieee80211_ie_split_ric.simps, simp only: Let_def ext_two g if_True if_False step
          skip_ie_element [OF "2.prems"] option.case IH)
        (simp add: enc_element_def step(1) stepF)
  qed
qed

text \<open>
  Property C29: on a buffer of well-formed elements \<open>ieee80211_ie_split_ric\<close> does not read outside it
  and returns the offset of an element: the elements before it are the longest prefix of listed ones,
  where what follows RIC data is skipped up to the first element listed in \<open>after_ric\<close>.
\<close>

theorem ie_split_prefix:
  assumes "list_all element_ok es"
  shows "ieee80211_ie_split_ric (enc_elements es) ids after_ric 0 =
    Some (length (enc_elements (split_prefix ids after_ric es)))"
  using split_elements [OF assms, of "[]"] by simp

theorem ie_split_prefix_witness:
  "ieee80211_ie_split_ric (enc_elements [(0, [65, 66]), (57, [1]), (60, []), (255, [35, 7]), (3, [6])])
     [0, 57, 255, 35] [255, 35] 0 =
   Some (length (enc_elements [(0, [65, 66]), (57, [1]), (60, []), (255, [35, 7 :: u8])]))"
  using ie_split_prefix [of "[(0, [65, 66]), (57, [1]), (60, []), (255, [35, 7]), (3, [6])]"
      "[0, 57, 255, 35]" "[255, 35]"]
  by (simp add: element_ok_def listed_def ieee80211_id_in_list_def WLAN_EID_FRAGMENT_def
      WLAN_EID_EXTENSION_def WLAN_EID_RIC_DATA_def)

end
