(* ===== verification/Util80211_Gcd.thy ===== *)
theory Util80211_Gcd
  imports Util80211
begin

text \<open>
  The binary \<open>gcd\<close> of the port and its client, the common beacon interval. The numbers of the loop
  are \<open>2 ^ k\<close> times naturals, where \<open>2 ^ k\<close> is the lowest bit of the two arguments; the lemmas read
  the shifts and subtractions on words as operations on these naturals.
\<close>

section \<open>The lowest bit\<close>

lemma u64_less: "unat (x :: 64 word) < 2 ^ 64"
proof -
  have "unat x < 2 ^ LENGTH(64)" by (rule unsigned_less)
  then show ?thesis by simp
qed

lemma unat_of_nat_u64: "n < 2 ^ 64 \<Longrightarrow> unat (of_nat n :: u64) = n"
  by (simp add: unat_of_nat take_bit_nat_eq_self_iff)

lemma bit_unat_u64: "bit (unat (w :: u64)) n = bit w n"
  using bit_imp_possible_bit [of w n] by (auto simp: bit_unsigned_iff)

lemma odd_and_neg: "odd (w :: u64) \<Longrightarrow> w AND (- w) = 1"
proof (rule bit_eqI)
  fix n
  assume o: "odd w" and n: "possible_bit TYPE(64 word) n"
  have ev: "even (NOT w)" using o by (simp add: even_not_iff)
  have "- w = 1 + NOT w" by (simp add: minus_eq_not_plus_1)
  then have "bit (- w) n \<longleftrightarrow> bit (NOT w) n \<or> n = 0"
    using even_bit_succ_iff [OF ev, of n] by simp
  then show "bit (w AND - w) n \<longleftrightarrow> bit (1 :: u64) n"
    using o n by (auto simp: bit_and_iff bit_not_iff bit_1_iff bit_0)
qed

lemma factor_pow2:
  fixes n :: nat
  assumes "0 < n"
  obtains k m where "n = 2 ^ k * m" "odd m"
proof -
  have "\<exists>k m. n = 2 ^ k * m \<and> odd m"
    using assms
  proof (induction n rule: less_induct)
    case (less n)
    show ?case
    proof (cases "even n")
      case True
      then obtain h where h: "n = 2 * h" by (elim evenE)
      with less.prems have "0 < h" "h < n" by auto
      with less.IH obtain k m where "h = 2 ^ k * m" "odd m" by blast
      with h have "n = 2 ^ Suc k * m \<and> odd m" by simp
      then show ?thesis by blast
    next
      case False
      then have "n = 2 ^ 0 * n \<and> odd n" by simp
      then show ?thesis by blast
    qed
  qed
  with that show thesis by blast
qed

lemma unat_odd: "odd (unat (w :: u64)) \<longleftrightarrow> odd w"
  using bit_unat_u64 [of w 0] by (simp add: bit_0)

lemma low_bit:
  assumes "w \<noteq> (0 :: u64)"
  obtains k m where "k < 64" "w AND (- w) = 2 ^ k" "unat w = 2 ^ k * m" "odd m"
proof -
  from assms have "0 < unat w" by (simp add: unat_gt_0)
  then obtain k m where km: "unat w = 2 ^ k * m" "odd m" by (rule factor_pow2)
  from km(2) have m0: "0 < m" by (simp add: odd_pos)
  have lt: "unat w < 2 ^ 64" by (rule u64_less)
  have "2 ^ k \<le> unat w" using km m0 by simp
  with lt have "(2 :: nat) ^ k < 2 ^ 64" by linarith
  then have k: "k < 64" by (rule power_less_imp_less_exp [rotated]) simp
  have "m \<le> unat w" using km(1) by simp
  with lt have m: "m < 2 ^ 64" by linarith
  define v :: u64 where "v = of_nat m"
  have vm: "unat v = m" using m by (simp add: v_def unat_of_nat take_bit_nat_eq_self_iff)
  have w: "w = push_bit k v"
  proof -
    have "w = of_nat (2 ^ k * m)"
      using lt by (simp add: word_unat_eq_iff unat_of_nat_u64 km(1) del: of_nat_mult of_nat_power)
    then show ?thesis by (simp add: push_bit_eq_mult v_def mult.commute)
  qed
  have "odd v" using vm km(2) unat_odd by metis
  have "- w = push_bit k (- v)" by (simp add: w push_bit_eq_mult)
  then have "w AND - w = push_bit k (v AND - v)" by (simp add: w push_bit_and)
  also have "\<dots> = 2 ^ k" by (simp add: odd_and_neg [OF \<open>odd v\<close>] push_bit_eq_mult)
  finally show thesis using that k km by blast
qed

section \<open>The numbers of the loop\<close>

lemma pow2_unat: "k < 64 \<Longrightarrow> unat ((2 :: u64) ^ k) = 2 ^ k"
proof -
  assume "k < 64"
  then have "(2 :: nat) ^ k < 2 ^ 64" by (intro power_strict_increasing) simp_all
  then have "unat (of_nat (2 ^ k) :: u64) = 2 ^ k" by (rule unat_of_nat_u64)
  then show ?thesis by simp
qed

lemma pow2_nz: "k < 64 \<Longrightarrow> (2 :: u64) ^ k \<noteq> 0"
  using pow2_unat [of k] by (metis power_not_zero unat_0 zero_neq_numeral)

lemma and_pow2_bit: "k < 64 \<Longrightarrow> (b AND 2 ^ k \<noteq> (0 :: u64)) = odd (unat b div 2 ^ k)"
proof -
  assume k: "k < 64"
  have "(b AND 2 ^ k \<noteq> 0) = bit b k"
  proof -
    have "b AND 2 ^ k = b AND push_bit k 1" by (simp add: push_bit_eq_mult)
    also have "\<dots> = (if bit b k then 2 ^ k else 0)"
      by (rule bit_eqI) (auto simp: bit_and_iff bit_push_bit_iff bit_1_iff bit_exp_iff)
    finally show ?thesis using k by (auto simp: pow2_nz)
  qed
  also have "\<dots> = bit (unat b) k" by (simp add: bit_unat_u64)
  finally show ?thesis by (simp add: bit_iff_odd)
qed

lemma gcd_shift_correct:
  assumes k: "k < 64"
  shows "unat b = 2 ^ k * B \<Longrightarrow> 0 < B \<Longrightarrow>
    \<exists>B' j. unat (gcd_shift (2 ^ k) b) = 2 ^ k * B' \<and> odd B' \<and> B = 2 ^ j * B'"
proof (induction "2 ^ k :: u64" b arbitrary: B rule: gcd_shift.induct)
  case (1 b)
  have q: "unat b div 2 ^ k = B" using "1.prems" by simp
  have b0: "b \<noteq> 0" using "1.prems" by auto
  show ?case
  proof (cases "odd B")
    case True
    then have "gcd_shift (2 ^ k) b = b"
      by (subst gcd_shift.simps) (simp add: and_pow2_bit [OF k] q)
    with "1.prems" True have "unat (gcd_shift (2 ^ k) b) = 2 ^ k * B \<and> odd B \<and> B = 2 ^ 0 * B"
      by simp
    then show ?thesis by blast
  next
    case False
    then obtain H where H: "B = 2 * H" by auto
    have st: "\<not> (b = 0 \<or> b AND 2 ^ k \<noteq> 0)"
      using False b0 by (simp add: and_pow2_bit [OF k] q)
    have "unat (drop_bit 1 b) = 2 ^ k * H"
      using "1.prems" by (simp add: drop_bit_Suc unat_div H)
    moreover have "0 < H" using "1.prems" H by simp
    ultimately obtain B' j where B': "unat (gcd_shift (2 ^ k) (drop_bit 1 b)) = 2 ^ k * B'" "odd B'"
      "H = 2 ^ j * B'" using "1.hyps" [OF st] by blast
    have "gcd_shift (2 ^ k) b = gcd_shift (2 ^ k) (drop_bit 1 b)"
      by (subst gcd_shift.simps) (simp add: st)
    with B' H have "unat (gcd_shift (2 ^ k) b) = 2 ^ k * B' \<and> odd B' \<and> B = 2 ^ Suc j * B'" by simp
    then show ?thesis by blast
  qed
qed

lemma gcd_pow2_odd: "odd (y :: nat) \<Longrightarrow> gcd (2 ^ j * x) y = gcd x y"
  by (simp add: gcd_mult_left_left_cancel coprime_commute)

text \<open>One round on the naturals: \<open>X\<close> and \<open>Y\<close> odd, \<open>Y < X\<close>.\<close>

definition gcd_round :: "nat \<Rightarrow> nat \<Rightarrow> nat" where
  "gcd_round X Y = (let d = (X - Y) div 2 in (if odd d then d + Y else d) div 2)"

lemma gcd_round_props:
  assumes "odd X" "odd Y" "Y < X"
  shows "gcd (gcd_round X Y) Y = gcd X Y" "0 < gcd_round X Y" "gcd_round X Y < X"
proof -
  have "even (X - Y)" using assms by simp
  then obtain d where d: "X - Y = 2 * d" by (elim evenE)
  define e where "e = (if odd d then d + Y else d)"
  have "even e" using assms by (simp add: e_def)
  then obtain f where f: "e = 2 * f" by (elim evenE)
  have r: "gcd_round X Y = f" using d f by (simp add: gcd_round_def e_def Let_def)
  have "0 < d" using d assms by simp
  then have "0 < e" by (simp add: e_def)
  then show "0 < gcd_round X Y" using f r by simp
  have "gcd f Y = gcd e Y" using gcd_pow2_odd [OF assms(2), of 1 f] f by simp
  also have "\<dots> = gcd d Y" by (simp add: e_def)
  also have "\<dots> = gcd (X - Y) Y" using gcd_pow2_odd [OF assms(2), of 1 d] d by simp
  also have "\<dots> = gcd X Y" using assms(3) by (simp add: gcd_diff1_nat)
  finally show "gcd (gcd_round X Y) Y = gcd X Y" using r by simp
  have "e \<le> X" using d assms by (cases "odd d") (simp_all add: e_def)
  then show "gcd_round X Y < X" using f r \<open>0 < e\<close> by simp
qed

lemma gcd_round_words:
  assumes k: "k < 64" and x: "unat (x :: u64) = 2 ^ k * X" and y: "unat y = 2 ^ k * Y"
    and odd: "odd X" "odd Y" and lt: "Y < X"
  shows "unat (drop_bit 1 (let x1 = drop_bit 1 (x - y) in if x1 AND 2 ^ k \<noteq> 0 then x1 + y else x1)) =
    2 ^ k * gcd_round X Y"
proof -
  have "even (X - Y)" using odd by simp
  then obtain d where d: "X - Y = 2 * d" by (elim evenE)
  define x1 where "x1 = drop_bit 1 (x - y)"
  have "y \<le> x" using x y lt by (simp add: word_le_nat_alt)
  then have "unat (x - y) = 2 ^ k * (2 * d)"
    using x y d by (simp add: unat_sub diff_mult_distrib2 [symmetric])
  then have x1: "unat x1 = 2 ^ k * d" by (simp add: x1_def drop_bit_Suc unat_div)
  define e where "e = (if odd d then d + Y else d)"
  have "even e" using odd by (simp add: e_def)
  then obtain f where f: "e = 2 * f" by (elim evenE)
  have "unat x1 + unat y = 2 ^ k * (d + Y)" by (simp add: x1 y distrib_left)
  also have "\<dots> \<le> 2 ^ k * X" using d lt by simp
  also have "\<dots> < 2 ^ 64" using u64_less [of x] x by simp
  finally have add: "unat (x1 + y) = 2 ^ k * (d + Y)"
    using x1 y by (subst unat_add_less) (simp_all add: distrib_left)
  have "unat (if x1 AND 2 ^ k \<noteq> 0 then x1 + y else x1) = 2 ^ k * e"
    using add x1 by (simp add: and_pow2_bit [OF k] e_def)
  then have "unat (drop_bit 1 (if x1 AND 2 ^ k \<noteq> 0 then x1 + y else x1)) = 2 ^ k * f"
    using f by (simp add: drop_bit_Suc unat_div del: if_split)
  moreover have "gcd_round X Y = f" using d f by (simp add: gcd_round_def e_def Let_def)
  ultimately show ?thesis unfolding x1_def Let_def by simp
qed

lemma pow2_eqD: "k < 64 \<Longrightarrow> unat (w :: u64) = 2 ^ k * B \<Longrightarrow> (w = 2 ^ k) = (B = 1)"
  by (simp add: word_unat_eq_iff pow2_unat)

lemma gcd_loop_correct:
  assumes k: "k < 64"
  shows "unat a = 2 ^ k * A \<Longrightarrow> 0 < A \<Longrightarrow> unat b = 2 ^ k * B \<Longrightarrow> odd B \<Longrightarrow> A + B \<le> fuel \<Longrightarrow>
    \<exists>g. gcd_loop fuel (2 ^ k) a b = Some g \<and> unat g = 2 ^ k * gcd A B"
proof (induction fuel arbitrary: a b A B)
  case 0
  then show ?case by simp
next
  case (Suc fuel)
  define a1 where "a1 = gcd_shift (2 ^ k) a"
  obtain A1 j where A1: "unat a1 = 2 ^ k * A1" "odd A1" "A = 2 ^ j * A1"
    using gcd_shift_correct [OF k Suc.prems(1,2)] by (auto simp: a1_def)
  have gA: "gcd A B = gcd A1 B" using A1(3) gcd_pow2_odd [OF Suc.prems(4)] by simp
  have leA: "A1 \<le> A" using A1(3) by simp
  have eqb: "(a1 = b) = (A1 = B)" using A1(1) Suc.prems(3) by (simp add: word_unat_eq_iff)
  have ltb: "(a1 < b) = (A1 < B)" using A1(1) Suc.prems(3) by (simp add: word_less_nat_alt)
  consider "A1 = 1" | "A1 \<noteq> 1" "A1 = B" | "A1 \<noteq> 1" "A1 < B" | "A1 \<noteq> 1" "B < A1" by linarith
  then show ?case
  proof cases
    case 1
    then show ?thesis using pow2_eqD [OF k A1(1)] gA pow2_unat [OF k]
      by (simp add: Let_def a1_def [symmetric])
  next
    case 2
    then show ?thesis using pow2_eqD [OF k A1(1)] gA eqb A1(1)
      by (simp add: Let_def a1_def [symmetric])
  next
    case 3
    define n where "n = drop_bit 1 (let x1 = drop_bit 1 (b - a1) in if x1 AND 2 ^ k \<noteq> 0 then x1 + a1 else x1)"
    have "unat n = 2 ^ k * gcd_round B A1"
      unfolding n_def by (rule gcd_round_words [OF k Suc.prems(3) A1(1) Suc.prems(4) A1(2) 3(2)])
    moreover note r = gcd_round_props [OF Suc.prems(4) A1(2) 3(2)]
    moreover have "gcd_round B A1 + A1 \<le> fuel" using r(3) leA Suc.prems(5) by linarith
    ultimately obtain g where "gcd_loop fuel (2 ^ k) n a1 = Some g" "unat g = 2 ^ k * gcd B A1"
      using Suc.IH [of n "gcd_round B A1" a1 A1] A1 by auto
    then show ?thesis using 3 pow2_eqD [OF k A1(1)] gA eqb ltb
      by (simp add: Let_def a1_def [symmetric] n_def gcd.commute)
  next
    case 4
    define n where "n = drop_bit 1 (let x1 = drop_bit 1 (a1 - b) in if x1 AND 2 ^ k \<noteq> 0 then x1 + b else x1)"
    have "unat n = 2 ^ k * gcd_round A1 B"
      unfolding n_def by (rule gcd_round_words [OF k A1(1) Suc.prems(3) A1(2) Suc.prems(4) 4(2)])
    moreover note r = gcd_round_props [OF A1(2) Suc.prems(4) 4(2)]
    moreover have "gcd_round A1 B + B \<le> fuel" using r(3) leA Suc.prems(5) by linarith
    ultimately obtain g where "gcd_loop fuel (2 ^ k) n b = Some g" "unat g = 2 ^ k * gcd A1 B"
      using Suc.IH [of n "gcd_round A1 B" b B] Suc.prems by auto
    then show ?thesis using 4 pow2_eqD [OF k A1(1)] gA eqb ltb
      by (simp add: Let_def a1_def [symmetric] n_def)
  qed
qed

lemma or_pow2:
  assumes "unat (a OR b) = 2 ^ k * m" "odd m"
  obtains A B where "unat (a :: u64) = 2 ^ k * A" "unat (b :: u64) = 2 ^ k * B" "odd A \<or> odd B"
proof -
  have o: "unat a OR unat b = 2 ^ k * m" using assms(1) by (simp add: unsigned_or_eq)
  have "take_bit k (unat a OR unat b) = 0" unfolding o by (simp add: take_bit_eq_mod)
  then have "take_bit k (unat a) = 0" "take_bit k (unat b) = 0"
    by (simp_all add: take_bit_or or_eq_0_iff)
  then have "2 ^ k dvd unat a" "2 ^ k dvd unat b" by (simp_all add: take_bit_eq_0_iff)
  then obtain A B where AB: "unat a = 2 ^ k * A" "unat b = 2 ^ k * B" by (elim dvdE)
  have "bit (unat a OR unat b) k" unfolding o using assms(2) by (simp add: bit_iff_odd)
  then have "bit (unat a) k \<or> bit (unat b) k" by (simp only: bit_or_iff)
  then have "odd A \<or> odd B" by (simp add: bit_iff_odd AB)
  with AB that show thesis by blast
qed

lemma gcd_long_correct:
  "\<exists>g. gcd_long a b = Some g \<and> unat g = gcd (unat a) (unat b)"
proof (cases "a = 0 \<or> b = 0")
  case True
  then show ?thesis by (auto simp: gcd_long_def Let_def)
next
  case False
  then have r0: "a OR b \<noteq> 0" by (simp add: or_eq_0_iff)
  from low_bit [OF r0] obtain k m
    where k: "k < 64" and r: "(a OR b) AND - (a OR b) = 2 ^ k" and m: "unat (a OR b) = 2 ^ k * m" "odd m" .
  from or_pow2 [OF m] obtain A B
    where A: "unat a = 2 ^ k * A" and B: "unat b = 2 ^ k * B" and odd: "odd A \<or> odd B" .
  have "0 < unat a" "0 < unat b" using False by (simp_all add: unat_gt_0)
  then have A0: "0 < A" and B0: "0 < B" using A B by simp_all
  define b1 where "b1 = gcd_shift (2 ^ k) b"
  obtain B1 j where B1: "unat b1 = 2 ^ k * B1" "odd B1" "B = 2 ^ j * B1"
    using gcd_shift_correct [OF k B B0] by (auto simp: b1_def)
  have g1: "gcd A B = gcd A B1"
  proof (cases "odd A")
    case True
    then show ?thesis using gcd_pow2_odd [of A j B1] B1(3) by (simp add: gcd.commute)
  next
    case False
    with odd B1 have "j = 0" by (cases j) simp_all
    with B1 show ?thesis by simp
  qed
  have g: "gcd (unat a) (unat b) = 2 ^ k * gcd A B1"
    using A B g1 by (simp add: gcd_mult_distrib_nat [symmetric])
  have eq: "gcd_long a b = (if b1 = 2 ^ k then Some (2 ^ k) else gcd_loop (Suc (unat a + unat b1)) (2 ^ k) a b1)"
    using False r by (simp add: gcd_long_def Let_def b1_def)
  show ?thesis
  proof (cases "b1 = 2 ^ k")
    case True
    then have "B1 = 1" using pow2_eqD [OF k B1(1)] by simp
    then show ?thesis using eq True g pow2_unat [OF k] by simp
  next
    case False
    have "A \<le> unat a" "B1 \<le> unat b1" using A B1(1) by simp_all
    then have "A + B1 \<le> Suc (unat a + unat b1)" by simp
    from gcd_loop_correct [OF k A A0 B1(1,2) this] show ?thesis using eq False g by simp
  qed
qed

section \<open>The common beacon interval\<close>

lemma gcd_long_u32:
  obtains g where "gcd_long (ucast (a :: u32)) (ucast (b :: u32)) = Some g"
    "unat (ucast g :: u32) = gcd (unat a) (unat b)"
proof -
  obtain g where g: "gcd_long (ucast a) (ucast b) = Some g"
    "unat g = gcd (unat (ucast a :: u64)) (unat (ucast b :: u64))"
    using gcd_long_correct by blast
  then have ug: "unat g = gcd (unat a) (unat b)" by (simp add: unat_ucast_32_64)
  also have "\<dots> < 4294967296"
  proof (cases "b = 0")
    case True
    then show ?thesis using u32_less [of a] by simp
  next
    case False
    then have "gcd (unat a) (unat b) \<le> unat b" by (simp add: unat_gt_0 gcd_le2_nat)
    then show ?thesis using u32_less [of b] by linarith
  qed
  finally have "unat (ucast g :: u32) = unat g"
    by (simp add: unsigned_ucast_eq take_bit_nat_eq_self_iff)
  with g ug that show thesis by simp
qed

definition bi_gcd :: "u32 list \<Rightarrow> nat" where
  "bi_gcd bs = Gcd (unat ` set bs)"

definition bi_differ :: "u32 list \<Rightarrow> bool" where
  "bi_differ bs \<longleftrightarrow> (\<exists>x\<in>set bs. \<exists>y\<in>set bs. x \<noteq> 0 \<and> y \<noteq> 0 \<and> x \<noteq> y)"

lemma bi_gcd_snoc: "bi_gcd (bs @ [b]) = gcd (bi_gcd bs) (unat b)"
  by (simp add: bi_gcd_def gcd.commute)

lemma bi_differ_snoc: "bi_differ (bs @ [b]) \<longleftrightarrow> bi_differ bs \<or> b \<noteq> 0 \<and> (\<exists>x\<in>set bs. x \<noteq> 0 \<and> x \<noteq> b)"
  by (auto simp: bi_differ_def)

lemma bi_gcd_0: "bi_gcd bs = 0 \<longleftrightarrow> set bs \<subseteq> {0}"
  by (auto simp: bi_gcd_def unat_eq_zero)

lemma bi_same:
  assumes "\<not> bi_differ bs" "x \<in> set bs" "x \<noteq> 0"
  shows "bi_gcd bs = unat x"
proof (rule dvd_antisym)
  show "bi_gcd bs dvd unat x" using assms by (simp add: bi_gcd_def)
  have "unat x dvd unat y" if y: "y \<in> set bs" for y
  proof (cases "y = 0")
    case False
    then have "x = y" using y assms unfolding bi_differ_def by blast
    then show ?thesis by simp
  qed simp
  then show "unat x dvd bi_gcd bs" by (auto simp: bi_gcd_def intro: Gcd_greatest)
qed

text \<open>What the loop keeps of the intervals seen so far.\<close>

definition bi_ok :: "u32 list \<Rightarrow> u32 \<times> bool \<Rightarrow> bool" where
  "bi_ok bs st \<longleftrightarrow> unat (fst st) = bi_gcd bs \<and> snd st = bi_differ bs"

lemma bi_ok_zero: "bi_ok bs st \<Longrightarrow> bi_ok (bs @ [0]) st"
  by (simp add: bi_ok_def bi_gcd_snoc bi_differ_snoc)

lemma bi_ok_first:
  assumes "bi_ok bs (0, d)"
  shows "bi_ok (bs @ [b]) (b, d)"
proof -
  have "set bs \<subseteq> {0}" using assms by (simp add: bi_ok_def bi_gcd_0 [symmetric])
  then show ?thesis using assms by (auto simp: bi_ok_def bi_gcd_snoc bi_differ_snoc)
qed

lemma bi_ok_same:
  assumes "bi_ok bs (g, d)"
  shows "bi_ok (bs @ [g]) (g, d)"
proof -
  have "bi_differ bs" if "x \<in> set bs" "x \<noteq> 0" "x \<noteq> g" for x
    using bi_same [OF _ that(1,2)] assms that(3) by (auto simp: bi_ok_def word_unat_eq_iff)
  then show ?thesis using assms by (auto simp: bi_ok_def bi_gcd_snoc bi_differ_snoc)
qed

lemma bi_ok_diff:
  assumes "bi_ok bs (g, d)" "b \<noteq> 0" "g \<noteq> 0" "b \<noteq> g" and g1: "unat (g1 :: u32) = gcd (unat g) (unat b)"
  shows "bi_ok (bs @ [b]) (g1, True)"
proof -
  have "\<not> set bs \<subseteq> {0}" using assms(1,3) bi_gcd_0 [of bs] by (auto simp: bi_ok_def unat_eq_zero)
  then obtain x where x: "x \<in> set bs" "x \<noteq> 0" by auto
  have "bi_differ (bs @ [b])"
    using bi_same [OF _ x] x assms by (auto simp: bi_ok_def bi_differ_snoc word_unat_eq_iff)
  then show ?thesis using assms(1) g1 by (simp add: bi_ok_def bi_gcd_snoc)
qed

lemma bi_loop_ok: "bi_ok bs st \<Longrightarrow> \<exists>st'. bi_loop xs st = Some st' \<and> bi_ok (bs @ xs) st'"
proof (induction xs arbitrary: bs st)
  case Nil
  then show ?case by (cases st) simp
next
  case (Cons b xs)
  obtain g d where st: "st = (g, d)" by (cases st)
  note IH = Cons.IH [of "bs @ [b]", simplified]
  consider "b = 0" | "b \<noteq> 0" "g = 0" | "b \<noteq> 0" "g \<noteq> 0" "b = g" | "b \<noteq> 0" "g \<noteq> 0" "b \<noteq> g" by blast
  then show ?case
  proof cases
    case 1
    then show ?thesis using IH [of st] bi_ok_zero [OF Cons.prems] st by simp
  next
    case 2
    then show ?thesis using IH [of "(b, d)"] bi_ok_first [of bs d b] Cons.prems st by simp
  next
    case 3
    then show ?thesis using IH [of "(g, d)"] bi_ok_same [of bs g d] Cons.prems st by simp
  next
    case 4
    obtain g1 where "gcd_long (ucast g) (ucast b) = Some g1" "unat (ucast g1 :: u32) = gcd (unat g) (unat b)"
      by (rule gcd_long_u32)
    then show ?thesis using IH [of "(ucast g1, True)"] bi_ok_diff [of bs g d b "ucast g1"] Cons.prems st 4
      by simp
  qed
qed

text \<open>
  Property C13: \<open>cfg80211_calculate_bi_data\<close> always returns, with the greatest common divisor of all
  beacon intervals in use, the new one included, and the flag tells whether two of them differ; the
  binary \<open>gcd\<close> under it is the greatest common divisor.
\<close>

theorem beacon_interval_gcd:
  "\<exists>g d. cfg80211_calculate_bi_data intervals new_beacon_int = Some (g, d) \<and>
     unat g = bi_gcd (intervals @ [new_beacon_int]) \<and> d = bi_differ (intervals @ [new_beacon_int])"
proof -
  obtain g d where l: "bi_loop intervals (0, False) = Some (g, d)" "bi_ok intervals (g, d)"
    using bi_loop_ok [of "[]" "(0, False)" intervals] by (auto simp: bi_ok_def bi_gcd_def bi_differ_def)
  show ?thesis
  proof (cases "new_beacon_int \<noteq> 0 \<and> g \<noteq> new_beacon_int")
    case True
    obtain g1 where g1: "gcd_long (ucast g) (ucast new_beacon_int) = Some g1"
      "unat (ucast g1 :: u32) = gcd (unat g) (unat new_beacon_int)" by (rule gcd_long_u32)
    have "bi_ok (intervals @ [new_beacon_int]) (ucast g1, if g \<noteq> 0 then True else d)"
    proof (cases "g = 0")
      case True
      with g1 have "ucast g1 = new_beacon_int" by (simp add: word_unat_eq_iff)
      with True bi_ok_first [of intervals d] l(2) show ?thesis by simp
    next
      case False
      with bi_ok_diff [OF l(2) _ False _ g1(2)] \<open>new_beacon_int \<noteq> 0 \<and> g \<noteq> new_beacon_int\<close>
      show ?thesis by auto
    qed
    with True l(1) g1(1) show ?thesis by (simp add: cfg80211_calculate_bi_data_def bi_ok_def Let_def)
  next
    case False
    then have "bi_ok (intervals @ [new_beacon_int]) (g, d)"
      using bi_ok_zero [OF l(2)] bi_ok_same [OF l(2)] by auto
    with False l(1) show ?thesis by (auto simp: cfg80211_calculate_bi_data_def bi_ok_def)
  qed
qed

end
