(* ===== verification/Chandef.thy ===== *)
theory Chandef
  imports Util80211
begin

unbundle bit_operations_syntax

text \<open>
  Model of \<open>net/wireless/chan.c\<close>: channel definitions (a control channel, a width and one or two
  centre frequencies), their validity and compatibility, the DFS state of the channels they span,
  and the decision whether an interface may send beacons on one. Frequencies are \<open>u32\<close> and wrap as
  in the code. A channel definition holds the channel it points to with its current contents.
\<close>

section \<open>Constants and data\<close>

definition IEEE80211_CHAN_DISABLED :: u32 where "IEEE80211_CHAN_DISABLED = 1"
definition IEEE80211_CHAN_NO_IR :: u32 where "IEEE80211_CHAN_NO_IR = 2"
definition IEEE80211_CHAN_RADAR :: u32 where "IEEE80211_CHAN_RADAR = 8"
definition IEEE80211_CHAN_NO_HT40PLUS :: u32 where "IEEE80211_CHAN_NO_HT40PLUS = 16"
definition IEEE80211_CHAN_NO_HT40MINUS :: u32 where "IEEE80211_CHAN_NO_HT40MINUS = 32"
definition IEEE80211_CHAN_NO_OFDM :: u32 where "IEEE80211_CHAN_NO_OFDM = 64"
definition IEEE80211_CHAN_NO_80MHZ :: u32 where "IEEE80211_CHAN_NO_80MHZ = 128"
definition IEEE80211_CHAN_NO_160MHZ :: u32 where "IEEE80211_CHAN_NO_160MHZ = 256"
definition IEEE80211_CHAN_INDOOR_ONLY :: u32 where "IEEE80211_CHAN_INDOOR_ONLY = 512"
definition IEEE80211_CHAN_IR_CONCURRENT :: u32 where "IEEE80211_CHAN_IR_CONCURRENT = 1024"
definition IEEE80211_CHAN_NO_20MHZ :: u32 where "IEEE80211_CHAN_NO_20MHZ = 2048"
definition IEEE80211_CHAN_NO_10MHZ :: u32 where "IEEE80211_CHAN_NO_10MHZ = 4096"

datatype nl80211_iftype =
  NL80211_IFTYPE_UNSPECIFIED | NL80211_IFTYPE_ADHOC | NL80211_IFTYPE_STATION | NL80211_IFTYPE_AP
| NL80211_IFTYPE_AP_VLAN_T | NL80211_IFTYPE_WDS | NL80211_IFTYPE_MONITOR | NL80211_IFTYPE_MESH_POINT
| NL80211_IFTYPE_P2P_CLIENT | NL80211_IFTYPE_P2P_GO | NL80211_IFTYPE_P2P_DEVICE
| NL80211_IFTYPE_OCB | NL80211_IFTYPE_NAN

datatype nl80211_channel_type =
  NL80211_CHAN_NO_HT | NL80211_CHAN_HT20 | NL80211_CHAN_HT40MINUS | NL80211_CHAN_HT40PLUS

datatype cfg80211_chan_mode = CHAN_MODE_UNDEFINED | CHAN_MODE_SHARED | CHAN_MODE_EXCLUSIVE

text \<open>
  What the code reads of a wireless device. \<open>netdev_running\<close> is \<open>None\<close> without a net device;
  \<open>bss_channel\<close> is the channel of \<open>current_bss\<close>.
\<close>

record wireless_dev =
  wd_iftype :: nl80211_iftype
  wd_chandef :: cfg80211_chan_def
  beacon_interval :: nat
  ssid_len :: nat
  mesh_id_len :: nat
  bss_channel :: "ieee80211_channel option"
  cac_started :: bool
  ibss_fixed :: bool
  ibss_dfs_possible :: bool
  netdev_running :: "bool option"

text \<open>\<open>regd_dfs_region\<close> is the DFS region of the wiphy's own regulatory domain, if it has one.\<close>

record wiphy =
  w_bands :: bands
  dfs_offload :: bool
  relax_no_ir :: bool
  regd_dfs_region :: "nat option"
  wdev_list :: "wireless_dev list"
  num_running_ifaces :: int
  num_running_monitor_ifaces :: int

section \<open>Creation and validity\<close>

definition cfg80211_valid_60g_freq :: "u32 \<Rightarrow> bool" where
  "cfg80211_valid_60g_freq freq \<longleftrightarrow> freq \<ge> 58320 \<and> freq \<le> 70200"

definition cfg80211_chandef_create ::
  "ieee80211_channel \<Rightarrow> nl80211_channel_type \<Rightarrow> cfg80211_chan_def" where
  "cfg80211_chandef_create ch chan_type =
     (case chan_type of
        NL80211_CHAN_NO_HT \<Rightarrow>
          \<lparr>chan = Some ch, width = NL80211_CHAN_WIDTH_20_NOHT, center_freq1 = center_freq ch,
           center_freq2 = 0, cd_edmg = \<lparr>edmg_channels = 0, edmg_bw_config = 0\<rparr>\<rparr>
      | NL80211_CHAN_HT20 \<Rightarrow>
          \<lparr>chan = Some ch, width = NL80211_CHAN_WIDTH_20, center_freq1 = center_freq ch,
           center_freq2 = 0, cd_edmg = \<lparr>edmg_channels = 0, edmg_bw_config = 0\<rparr>\<rparr>
      | NL80211_CHAN_HT40PLUS \<Rightarrow>
          \<lparr>chan = Some ch, width = NL80211_CHAN_WIDTH_40, center_freq1 = center_freq ch + 10,
           center_freq2 = 0, cd_edmg = \<lparr>edmg_channels = 0, edmg_bw_config = 0\<rparr>\<rparr>
      | NL80211_CHAN_HT40MINUS \<Rightarrow>
          \<lparr>chan = Some ch, width = NL80211_CHAN_WIDTH_40, center_freq1 = center_freq ch - 10,
           center_freq2 = 0, cd_edmg = \<lparr>edmg_channels = 0, edmg_bw_config = 0\<rparr>\<rparr>)"

definition cfg80211_get_chandef_type :: "cfg80211_chan_def \<Rightarrow> nl80211_channel_type" where
  "cfg80211_get_chandef_type cd =
     (case width cd of
        NL80211_CHAN_WIDTH_20_NOHT \<Rightarrow> NL80211_CHAN_NO_HT
      | NL80211_CHAN_WIDTH_20 \<Rightarrow> NL80211_CHAN_HT20
      | NL80211_CHAN_WIDTH_40 \<Rightarrow>
          (if center_freq1 cd > center_freq (the (chan cd)) then NL80211_CHAN_HT40PLUS
           else NL80211_CHAN_HT40MINUS)
      | _ \<Rightarrow> NL80211_CHAN_NO_HT)"

definition cfg80211_chandef_identical :: "cfg80211_chan_def \<Rightarrow> cfg80211_chan_def \<Rightarrow> bool" where
  "cfg80211_chandef_identical c1 c2 \<longleftrightarrow>
     map_option chan_ptr (chan c1) = map_option chan_ptr (chan c2) \<and> width c1 = width c2 \<and>
     center_freq1 c1 = center_freq1 c2 \<and> center_freq2 c1 = center_freq2 c2"

definition cfg80211_chandef_is_edmg :: "cfg80211_chan_def \<Rightarrow> bool" where
  "cfg80211_chandef_is_edmg cd \<longleftrightarrow> edmg_channels (cd_edmg cd) \<noteq> 0 \<or> edmg_bw_config (cd_edmg cd) \<noteq> 0"

text \<open>The loop over the six channels: contiguous, enabled and the longest contiguous run.\<close>

fun edmg_count :: "bool list \<Rightarrow> nat \<times> nat \<times> nat \<Rightarrow> nat \<times> nat" where
  "edmg_count [] (contiguous, num_of_enabled, max_contiguous) = (num_of_enabled, max_contiguous)"
| "edmg_count (b # bs) (contiguous, num_of_enabled, max_contiguous) =
     (let c = (if b then contiguous + 1 else 0) in
      edmg_count bs (c, if b then num_of_enabled + 1 else num_of_enabled, max c max_contiguous))"

definition cfg80211_edmg_chandef_valid :: "cfg80211_chan_def \<Rightarrow> bool" where
  "cfg80211_edmg_chandef_valid cd =
     (let ch = edmg_channels (cd_edmg cd); cfg = edmg_bw_config (cd_edmg cd) in
      if ch = 0 \<or> cfg = 0 then False
      else if \<not> cfg80211_valid_60g_freq (center_freq (the (chan cd))) then False
      else let (enabled, contiguous) = edmg_count (map (\<lambda>i. bit ch i) [0..<6]) (0, 0, 0) in
        (if cfg \<in> {4, 8, 12} then \<not> contiguous < 1
         else if cfg \<in> {5, 9, 13} then \<not> contiguous < 2
         else if cfg \<in> {6, 10, 14} then \<not> contiguous < 3
         else if cfg \<in> {7, 11, 15} then \<not> contiguous < 4
         else False) \<and>
        (if cfg \<in> {4, 5, 6, 7} then True
         else if cfg \<in> {8, 9, 10, 11} then \<not> enabled < 2
         else if cfg \<in> {12, 13, 14, 15} then \<not> (enabled < 4 \<or> contiguous < 2)
         else False))"

definition cfg80211_chandef_valid :: "cfg80211_chan_def \<Rightarrow> bool" where
  "cfg80211_chandef_valid cd =
     (case chan cd of
        None \<Rightarrow> False
      | Some ch \<Rightarrow>
          let control = center_freq ch; f1 = center_freq1 cd; f2 = center_freq2 cd in
          (case width cd of
             NL80211_CHAN_WIDTH_40 \<Rightarrow> (f1 = control + 10 \<or> f1 = control - 10) \<and> f2 = 0
           | NL80211_CHAN_WIDTH_80P80 \<Rightarrow>
               (f1 = control + 30 \<or> f1 = control + 10 \<or> f1 = control - 10 \<or> f1 = control - 30) \<and>
               f2 \<noteq> 0 \<and> \<not> (f1 - f2 = 80 \<or> f2 - f1 = 80)
           | NL80211_CHAN_WIDTH_80 \<Rightarrow>
               (f1 = control + 30 \<or> f1 = control + 10 \<or> f1 = control - 10 \<or> f1 = control - 30) \<and>
               f2 = 0
           | NL80211_CHAN_WIDTH_160 \<Rightarrow>
               (f1 = control + 70 \<or> f1 = control + 50 \<or> f1 = control + 30 \<or> f1 = control + 10 \<or>
                f1 = control - 10 \<or> f1 = control - 30 \<or> f1 = control - 50 \<or> f1 = control - 70) \<and>
               f2 = 0
           | _ \<Rightarrow> f1 = control \<and> f2 = 0) \<and>
          \<not> (f1 = 2484 \<and> width cd \<noteq> NL80211_CHAN_WIDTH_20_NOHT) \<and>
          \<not> (cfg80211_chandef_is_edmg cd \<and> \<not> cfg80211_edmg_chandef_valid cd))"

section \<open>Compatibility\<close>

text \<open>\<open>None\<close>: the widths for which the primary frequencies are not set.\<close>

definition chandef_primary_freqs :: "cfg80211_chan_def \<Rightarrow> (u32 \<times> u32) option" where
  "chandef_primary_freqs c =
     (let f1 = center_freq1 c; control = center_freq (the (chan c)) in
      case width c of
        NL80211_CHAN_WIDTH_40 \<Rightarrow> Some (f1, 0)
      | NL80211_CHAN_WIDTH_80 \<Rightarrow>
          let tmp = ((30 + control - f1) div 20) div 2 in Some (f1 - 20 + 40 * tmp, f1)
      | NL80211_CHAN_WIDTH_80P80 \<Rightarrow>
          let tmp = ((30 + control - f1) div 20) div 2 in Some (f1 - 20 + 40 * tmp, f1)
      | NL80211_CHAN_WIDTH_160 \<Rightarrow>
          let tmp = ((70 + control - f1) div 20) div 2 in
          Some (f1 - 60 + 40 * tmp, f1 - 40 + 80 * (tmp div 2))
      | _ \<Rightarrow> None)"

definition cfg80211_chandef_get_width :: "cfg80211_chan_def \<Rightarrow> u32" where
  "cfg80211_chandef_get_width c =
     (case width c of
        NL80211_CHAN_WIDTH_5 \<Rightarrow> 5
      | NL80211_CHAN_WIDTH_10 \<Rightarrow> 10
      | NL80211_CHAN_WIDTH_20 \<Rightarrow> 20
      | NL80211_CHAN_WIDTH_20_NOHT \<Rightarrow> 20
      | NL80211_CHAN_WIDTH_40 \<Rightarrow> 40
      | NL80211_CHAN_WIDTH_80P80 \<Rightarrow> 80
      | NL80211_CHAN_WIDTH_80 \<Rightarrow> 80
      | NL80211_CHAN_WIDTH_160 \<Rightarrow> 160)"

definition narrow :: "cfg80211_chan_def \<Rightarrow> bool" where
  "narrow c \<longleftrightarrow> width c = NL80211_CHAN_WIDTH_5 \<or> width c = NL80211_CHAN_WIDTH_10"

definition width20 :: "cfg80211_chan_def \<Rightarrow> bool" where
  "width20 c \<longleftrightarrow> width c = NL80211_CHAN_WIDTH_20_NOHT \<or> width c = NL80211_CHAN_WIDTH_20"

definition cfg80211_chandef_compatible ::
  "cfg80211_chan_def \<Rightarrow> cfg80211_chan_def \<Rightarrow> cfg80211_chan_def option" where
  "cfg80211_chandef_compatible c1 c2 =
     (if cfg80211_chandef_identical c1 c2 then Some c1
      else if map_option chan_ptr (chan c1) \<noteq> map_option chan_ptr (chan c2) then None
      else if width c1 = width c2 then None
      else if narrow c1 \<or> narrow c2 then None
      else if width20 c1 then Some c2
      else if width20 c2 then Some c1
      else case (chandef_primary_freqs c1, chandef_primary_freqs c2) of
             (Some (c1_pri40, c1_pri80), Some (c2_pri40, c2_pri80)) \<Rightarrow>
               if c1_pri40 \<noteq> c2_pri40 then None
               else if c1_pri80 \<noteq> 0 \<and> c2_pri80 \<noteq> 0 \<and> c1_pri80 \<noteq> c2_pri80 then None
               else if width_val (width c1) > width_val (width c2) then Some c1
               else Some c2
           | _ \<Rightarrow> None)"

section \<open>The channels of a span\<close>

text \<open>
  The loops \<open>for (freq = s; freq <= e; freq += 20)\<close>. The addition wraps; the list ends where the
  frequency would wrap, which takes an end within 20 MHz of \<open>2 ^ 32\<close>.
\<close>

function freq_range :: "u32 \<Rightarrow> u32 \<Rightarrow> u32 list" where
  "freq_range f e = (if f \<le> e then f # (if f < f + 20 then freq_range (f + 20) e else []) else [])"
  by pat_completeness auto
termination
proof (relation "measure (\<lambda>(f, e). 2 ^ 32 - unat f)")
  fix f e :: u32
  assume "f < f + 20"
  then have "unat f < unat (f + 20)" by (simp add: word_less_nat_alt)
  then show "((f + 20, e), f, e) \<in> measure (\<lambda>(f, e). 2 ^ 32 - unat f)"
    using u32_less [of "f + 20"] by simp
qed simp

declare freq_range.simps [simp del]

text \<open>The value of \<open>jiffies\<close> is the argument \<open>now\<close>. The channel found is updated in place.\<close>

fun update_first :: "('a \<Rightarrow> bool) \<Rightarrow> ('a \<Rightarrow> 'a) \<Rightarrow> 'a list \<Rightarrow> 'a list" where
  "update_first P g [] = []"
| "update_first P g (x # xs) = (if P x then g x # xs else x # update_first P g xs)"

definition band_channels :: "bands \<Rightarrow> nl80211_band \<Rightarrow> ieee80211_channel list" where
  "band_channels bs b = (case bs b of None \<Rightarrow> [] | Some sband \<Rightarrow> channels sband)"

definition update_channel :: "(ieee80211_channel \<Rightarrow> ieee80211_channel) \<Rightarrow> u32 \<Rightarrow> bands \<Rightarrow> bands" where
  "update_channel g freq bs =
     (case find (\<lambda>b. \<exists>c\<in>set (band_channels bs b). center_freq c = freq) nl80211_bands of
        None \<Rightarrow> bs
      | Some b \<Rightarrow> bs(b := map_option (\<lambda>sband. sband\<lparr>channels :=
          update_first (\<lambda>c. center_freq c = freq) g (channels sband)\<rparr>) (bs b)))"

definition is_radar :: "ieee80211_channel \<Rightarrow> bool" where
  "is_radar c \<longleftrightarrow> chan_flags c AND IEEE80211_CHAN_RADAR \<noteq> 0"

definition is_disabled :: "ieee80211_channel \<Rightarrow> bool" where
  "is_disabled c \<longleftrightarrow> chan_flags c AND IEEE80211_CHAN_DISABLED \<noteq> 0"

fun set_dfs_loop :: "u64 \<Rightarrow> nl80211_dfs_state \<Rightarrow> u32 list \<Rightarrow> bands \<Rightarrow> bands" where
  "set_dfs_loop now st [] bs = bs"
| "set_dfs_loop now st (f # fs) bs =
     (case ieee80211_get_channel bs f of
        None \<Rightarrow> set_dfs_loop now st fs bs
      | Some c \<Rightarrow>
          if \<not> is_radar c then set_dfs_loop now st fs bs
          else set_dfs_loop now st fs
            (update_channel (\<lambda>c. c\<lparr>dfs_state := st, dfs_state_entered := now\<rparr>) f bs))"

definition cfg80211_set_chans_dfs_state ::
  "u64 \<Rightarrow> bands \<Rightarrow> u32 \<Rightarrow> u32 \<Rightarrow> nl80211_dfs_state \<Rightarrow> bands" where
  "cfg80211_set_chans_dfs_state now bs center bandwidth st =
     set_dfs_loop now st
       (freq_range (center - bandwidth div 2 + 10) (center + bandwidth div 2 - 10)) bs"

definition cfg80211_set_dfs_state ::
  "u64 \<Rightarrow> bands \<Rightarrow> cfg80211_chan_def \<Rightarrow> nl80211_dfs_state \<Rightarrow> bands" where
  "cfg80211_set_dfs_state now bs cd st =
     (if \<not> cfg80211_chandef_valid cd then bs
      else let width = cfg80211_chandef_get_width cd;
               bs1 = cfg80211_set_chans_dfs_state now bs (center_freq1 cd) width st
           in if center_freq2 cd = 0 then bs1
              else cfg80211_set_chans_dfs_state now bs1 (center_freq2 cd) width st)"

definition cfg80211_get_start_freq :: "u32 \<Rightarrow> u32 \<Rightarrow> u32" where
  "cfg80211_get_start_freq center bandwidth =
     (if bandwidth \<le> 20 then center else center - bandwidth div 2 + 10)"

definition cfg80211_get_end_freq :: "u32 \<Rightarrow> u32 \<Rightarrow> u32" where
  "cfg80211_get_end_freq center bandwidth =
     (if bandwidth \<le> 20 then center else center + bandwidth div 2 - 10)"

definition span_freqs :: "u32 \<Rightarrow> u32 \<Rightarrow> u32 list" where
  "span_freqs center bandwidth =
     freq_range (cfg80211_get_start_freq center bandwidth) (cfg80211_get_end_freq center bandwidth)"

section \<open>Radar detection\<close>

text \<open>The result is \<open>None\<close> for \<open>-EINVAL\<close>, else whether the return value is 1.\<close>

fun dfs_required_loop :: "bands \<Rightarrow> u32 list \<Rightarrow> bool option" where
  "dfs_required_loop bs [] = Some False"
| "dfs_required_loop bs (f # fs) =
     (case ieee80211_get_channel bs f of
        None \<Rightarrow> None
      | Some c \<Rightarrow> if is_radar c then Some True else dfs_required_loop bs fs)"

definition cfg80211_get_chans_dfs_required :: "bands \<Rightarrow> u32 \<Rightarrow> u32 \<Rightarrow> bool option" where
  "cfg80211_get_chans_dfs_required bs center bandwidth = dfs_required_loop bs (span_freqs center bandwidth)"

definition needs_dfs :: "nl80211_iftype \<Rightarrow> bool" where
  "needs_dfs t \<longleftrightarrow> t = NL80211_IFTYPE_ADHOC \<or> t = NL80211_IFTYPE_AP \<or> t = NL80211_IFTYPE_P2P_GO \<or>
     t = NL80211_IFTYPE_MESH_POINT"

text \<open>The value of the bit is \<open>BIT(chandef->width)\<close>.\<close>

definition cfg80211_chandef_dfs_required ::
  "bands \<Rightarrow> cfg80211_chan_def \<Rightarrow> nl80211_iftype \<Rightarrow> errno + u32" where
  "cfg80211_chandef_dfs_required bs cd iftype =
     (if \<not> cfg80211_chandef_valid cd then Inl EINVAL
      else if needs_dfs iftype
      then let w = cfg80211_chandef_get_width cd in
           (case cfg80211_get_chans_dfs_required bs (center_freq1 cd) w of
              None \<Rightarrow> Inl EINVAL
            | Some True \<Rightarrow> Inr (BIT (width_val (width cd)))
            | Some False \<Rightarrow>
                if center_freq2 cd = 0 then Inr 0
                else (case cfg80211_get_chans_dfs_required bs (center_freq2 cd) w of
                        None \<Rightarrow> Inl EINVAL
                      | Some True \<Rightarrow> Inr (BIT (width_val (width cd)))
                      | Some False \<Rightarrow> Inr 0))
      else Inr 0)"

fun dfs_usable_loop :: "bands \<Rightarrow> u32 list \<Rightarrow> nat \<Rightarrow> nat option" where
  "dfs_usable_loop bs [] count = Some count"
| "dfs_usable_loop bs (f # fs) count =
     (case ieee80211_get_channel bs f of
        None \<Rightarrow> None
      | Some c \<Rightarrow>
          if is_disabled c then None
          else if is_radar c
          then if dfs_state c = NL80211_DFS_UNAVAILABLE then None
               else dfs_usable_loop bs fs (if dfs_state c = NL80211_DFS_USABLE then count + 1 else count)
          else dfs_usable_loop bs fs count)"

definition cfg80211_get_chans_dfs_usable :: "bands \<Rightarrow> u32 \<Rightarrow> u32 \<Rightarrow> nat option" where
  "cfg80211_get_chans_dfs_usable bs center bandwidth = dfs_usable_loop bs (span_freqs center bandwidth) 0"

definition cfg80211_chandef_dfs_usable :: "bands \<Rightarrow> cfg80211_chan_def \<Rightarrow> bool" where
  "cfg80211_chandef_dfs_usable bs cd =
     (if \<not> cfg80211_chandef_valid cd then False
      else let w = cfg80211_chandef_get_width cd in
        case cfg80211_get_chans_dfs_usable bs (center_freq1 cd) w of
          None \<Rightarrow> False
        | Some r1 \<Rightarrow>
            if width cd = NL80211_CHAN_WIDTH_80P80
            then (case cfg80211_get_chans_dfs_usable bs (center_freq2 cd) w of
                    None \<Rightarrow> False
                  | Some r2 \<Rightarrow> r1 + r2 > 0)
            else r1 > 0)"

fun dfs_available_loop :: "bands \<Rightarrow> bool \<Rightarrow> u32 list \<Rightarrow> bool" where
  "dfs_available_loop bs offload [] = True"
| "dfs_available_loop bs offload (f # fs) =
     (case ieee80211_get_channel bs f of
        None \<Rightarrow> False
      | Some c \<Rightarrow>
          if is_disabled c then False
          else if is_radar c \<and> dfs_state c \<noteq> NL80211_DFS_AVAILABLE \<and>
            \<not> (dfs_state c = NL80211_DFS_USABLE \<and> offload) then False
          else dfs_available_loop bs offload fs)"

definition cfg80211_get_chans_dfs_available :: "bands \<Rightarrow> bool \<Rightarrow> u32 \<Rightarrow> u32 \<Rightarrow> bool" where
  "cfg80211_get_chans_dfs_available bs offload center bandwidth =
     dfs_available_loop bs offload (span_freqs center bandwidth)"

definition cfg80211_chandef_dfs_available :: "bands \<Rightarrow> bool \<Rightarrow> cfg80211_chan_def \<Rightarrow> bool" where
  "cfg80211_chandef_dfs_available bs offload cd =
     (if \<not> cfg80211_chandef_valid cd then False
      else let w = cfg80211_chandef_get_width cd in
        if \<not> cfg80211_get_chans_dfs_available bs offload (center_freq1 cd) w then False
        else if width cd = NL80211_CHAN_WIDTH_80P80
        then cfg80211_get_chans_dfs_available bs offload (center_freq2 cd) w
        else True)"

fun cac_time_loop :: "bands \<Rightarrow> u32 list \<Rightarrow> u32 \<Rightarrow> u32" where
  "cac_time_loop bs [] ms = ms"
| "cac_time_loop bs (f # fs) ms =
     (case ieee80211_get_channel bs f of
        None \<Rightarrow> 0
      | Some c \<Rightarrow>
          if is_disabled c then 0
          else if \<not> is_radar c then cac_time_loop bs fs ms
          else cac_time_loop bs fs (if dfs_cac_ms c > ms then dfs_cac_ms c else ms))"

definition cfg80211_get_chans_dfs_cac_time :: "bands \<Rightarrow> u32 \<Rightarrow> u32 \<Rightarrow> u32" where
  "cfg80211_get_chans_dfs_cac_time bs center bandwidth = cac_time_loop bs (span_freqs center bandwidth) 0"

definition cfg80211_chandef_dfs_cac_time :: "bands \<Rightarrow> cfg80211_chan_def \<Rightarrow> u32" where
  "cfg80211_chandef_dfs_cac_time bs cd =
     (if \<not> cfg80211_chandef_valid cd then 0
      else let w = cfg80211_chandef_get_width cd;
               t1 = cfg80211_get_chans_dfs_cac_time bs (center_freq1 cd) w
           in if center_freq2 cd = 0 then t1
              else max t1 (cfg80211_get_chans_dfs_cac_time bs (center_freq2 cd) w))"

section \<open>Channels in use\<close>

definition wide_freqs :: "u32 \<Rightarrow> u32 \<Rightarrow> u32 list" where
  "wide_freqs center w = freq_range (center - w div 2 + 10) (center + w div 2 - 10)"

definition cfg80211_is_sub_chan :: "cfg80211_chan_def \<Rightarrow> ieee80211_channel \<Rightarrow> bool" where
  "cfg80211_is_sub_chan cd ch =
     (if center_freq (the (chan cd)) = center_freq ch then True
      else let w = cfg80211_chandef_get_width cd in
        if w \<le> 20 then False
        else if center_freq ch \<in> set (wide_freqs (center_freq1 cd) w) then True
        else if center_freq2 cd = 0 then False
        else center_freq ch \<in> set (wide_freqs (center_freq2 cd) w))"

definition cfg80211_beaconing_iface_active :: "wireless_dev \<Rightarrow> bool" where
  "cfg80211_beaconing_iface_active wdev =
     (if chan (wd_chandef wdev) = None then False
      else case wd_iftype wdev of
        NL80211_IFTYPE_AP \<Rightarrow> beacon_interval wdev \<noteq> 0
      | NL80211_IFTYPE_P2P_GO \<Rightarrow> beacon_interval wdev \<noteq> 0
      | NL80211_IFTYPE_ADHOC \<Rightarrow> ssid_len wdev \<noteq> 0
      | NL80211_IFTYPE_MESH_POINT \<Rightarrow> mesh_id_len wdev \<noteq> 0
      | _ \<Rightarrow> False)"

definition cfg80211_is_wiphy_oper_chan :: "wiphy \<Rightarrow> ieee80211_channel \<Rightarrow> bool" where
  "cfg80211_is_wiphy_oper_chan w ch \<longleftrightarrow>
     (\<exists>wdev\<in>set (wdev_list w). cfg80211_beaconing_iface_active wdev \<and>
        cfg80211_is_sub_chan (wd_chandef wdev) ch)"

text \<open>\<open>core\<close> is the DFS region of \<open>cfg80211_regdomain\<close>.\<close>

definition reg_dfs_domain_same :: "nat \<Rightarrow> wiphy \<Rightarrow> wiphy \<Rightarrow> bool" where
  "reg_dfs_domain_same core w1 w2 =
     ((case regd_dfs_region w1 of None \<Rightarrow> core | Some r \<Rightarrow> r) =
      (case regd_dfs_region w2 of None \<Rightarrow> core | Some r \<Rightarrow> r))"

definition cfg80211_any_wiphy_oper_chan :: "nat \<Rightarrow> wiphy list \<Rightarrow> wiphy \<Rightarrow> ieee80211_channel \<Rightarrow> bool" where
  "cfg80211_any_wiphy_oper_chan core rdevs w ch =
     (if \<not> is_radar ch then False
      else \<exists>r\<in>set rdevs. reg_dfs_domain_same core w r \<and> cfg80211_is_wiphy_oper_chan r ch)"

definition reg_copy_dfs_chan_state :: "ieee80211_channel \<Rightarrow> ieee80211_channel \<Rightarrow> ieee80211_channel" where
  "reg_copy_dfs_chan_state dst src =
     (if \<not> is_radar dst \<or> \<not> is_radar src then dst
      else if is_disabled dst \<or> is_disabled src then dst
      else if center_freq src = center_freq dst \<and> dfs_state dst = NL80211_DFS_USABLE
      then dst\<lparr>dfs_state := dfs_state src, dfs_state_entered := dfs_state_entered src\<rparr>
      else dst)"

definition share_dfs_bands :: "bands \<Rightarrow> bands \<Rightarrow> bands" where
  "share_dfs_bands dst src b =
     (case (dst b, src b) of
        (Some d, Some s) \<Rightarrow>
          Some (d\<lparr>channels := map (\<lambda>c. fold (\<lambda>sc dc. reg_copy_dfs_chan_state dc sc) (channels s) c)
            (channels d)\<rparr>)
      | (d, _) \<Rightarrow> d)"

definition wiphy_share_dfs_chan_state :: "nat \<Rightarrow> wiphy \<Rightarrow> wiphy \<Rightarrow> wiphy" where
  "wiphy_share_dfs_chan_state core dst src =
     (if \<not> reg_dfs_domain_same core dst src then dst
      else dst\<lparr>w_bands := share_dfs_bands (w_bands dst) (w_bands src)\<rparr>)"

section \<open>Usable channel definitions\<close>

fun secondary_loop :: "bands \<Rightarrow> u32 \<Rightarrow> u32 list \<Rightarrow> bool" where
  "secondary_loop bs prohibited [] = True"
| "secondary_loop bs prohibited (f # fs) =
     (case ieee80211_get_channel bs f of
        None \<Rightarrow> False
      | Some c \<Rightarrow> if chan_flags c AND prohibited \<noteq> 0 then False else secondary_loop bs prohibited fs)"

definition cfg80211_secondary_chans_ok :: "bands \<Rightarrow> u32 \<Rightarrow> u32 \<Rightarrow> u32 \<Rightarrow> bool" where
  "cfg80211_secondary_chans_ok bs center bandwidth prohibited =
     secondary_loop bs prohibited (span_freqs center bandwidth)"

text \<open>
  The loop over the 60 GHz channels: \<open>None\<close> is \<open>return false\<close>. A primary channel 0 shifts by a
  negative number; the model takes the bit as not set.
\<close>

fun edmg_usable_loop :: "bands \<Rightarrow> u8 \<Rightarrow> u8 \<Rightarrow> nat list \<Rightarrow> nat \<Rightarrow> nat option" where
  "edmg_usable_loop bs chans cap [] counter = Some counter"
| "edmg_usable_loop bs chans cap (i # is) counter =
     (if \<not> bit chans i then edmg_usable_loop bs chans cap is counter
      else if \<not> bit cap i then None
      else case ieee80211_get_channel bs
             (of_int (ieee80211_channel_to_frequency (int i + 1) NL80211_BAND_60GHZ)) of
             None \<Rightarrow> None
           | Some c \<Rightarrow> if is_disabled c then None
               else edmg_usable_loop bs chans cap is (counter + 1))"

definition cfg80211_edmg_usable :: "bands \<Rightarrow> edmg \<Rightarrow> nat \<Rightarrow> edmg \<Rightarrow> bool" where
  "cfg80211_edmg_usable bs e primary cap =
     (let chans = edmg_channels e; cfg = edmg_bw_config e in
      if chans = 0 \<and> cfg = 0 then True
      else if chans = 0 \<and> cfg \<noteq> 0 \<or> chans \<noteq> 0 \<and> cfg = 0 then False
      else if \<not> (primary \<ge> 1 \<and> bit chans (primary - 1)) then False
      else case edmg_usable_loop bs chans (edmg_channels cap) [0..<6] 0 of
             None \<Rightarrow> False
           | Some counter \<Rightarrow>
               if counter > 4 then False
               else if cfg mod 4 > edmg_bw_config cap mod 4 then False
               else \<not> cfg > edmg_bw_config cap)"

text \<open>
  The switch over the width of \<open>cfg80211_chandef_usable\<close>: the prohibited flags it adds, or \<open>None\<close> for
  \<open>return false\<close>.
\<close>

definition width_flags :: "ieee80211_supported_band \<Rightarrow> cfg80211_chan_def \<Rightarrow> u32 option" where
  "width_flags sband cd =
     (let ch = the (chan cd); control = center_freq ch; ht = ht_cap sband;
          cap = vht_cap sband AND 0xC
      in case width cd of
        NL80211_CHAN_WIDTH_5 \<Rightarrow> Some 0
      | NL80211_CHAN_WIDTH_10 \<Rightarrow> Some IEEE80211_CHAN_NO_10MHZ
      | NL80211_CHAN_WIDTH_20 \<Rightarrow>
          (if \<not> ht_supported_cap sband then None else Some IEEE80211_CHAN_NO_20MHZ)
      | NL80211_CHAN_WIDTH_20_NOHT \<Rightarrow> Some IEEE80211_CHAN_NO_20MHZ
      | NL80211_CHAN_WIDTH_40 \<Rightarrow>
          (if \<not> ht_supported_cap sband then None
           else if \<not> (ht AND 0x0002 \<noteq> 0) \<or> ht AND 0x4000 \<noteq> 0 then None
           else if center_freq1 cd < control \<and> chan_flags ch AND IEEE80211_CHAN_NO_HT40MINUS \<noteq> 0
           then None
           else if center_freq1 cd > control \<and> chan_flags ch AND IEEE80211_CHAN_NO_HT40PLUS \<noteq> 0
           then None
           else Some 0)
      | NL80211_CHAN_WIDTH_80P80 \<Rightarrow>
          (if cap \<noteq> 8 then None
           else if \<not> vht_supported_cap sband then None else Some IEEE80211_CHAN_NO_80MHZ)
      | NL80211_CHAN_WIDTH_80 \<Rightarrow>
          (if \<not> vht_supported_cap sband then None else Some IEEE80211_CHAN_NO_80MHZ)
      | NL80211_CHAN_WIDTH_160 \<Rightarrow>
          (if \<not> vht_supported_cap sband then None
           else if cap \<noteq> 4 \<and> cap \<noteq> 8 then None else Some IEEE80211_CHAN_NO_160MHZ))"

text \<open>
  The channel of a valid definition lies in a band the wiphy has; without that band the code would
  read through a null pointer.
\<close>

definition cfg80211_chandef_usable :: "bands \<Rightarrow> cfg80211_chan_def \<Rightarrow> u32 \<Rightarrow> bool" where
  "cfg80211_chandef_usable bs cd prohibited_flags =
     (if \<not> cfg80211_chandef_valid cd then False
      else case bs (chan_band (the (chan cd))) of
        None \<Rightarrow> False
      | Some sband \<Rightarrow>
          if edmg_channels (edmg_cap sband) \<noteq> 0 \<and>
            \<not> cfg80211_edmg_usable bs (cd_edmg cd) (unat (hw_value (the (chan cd)))) (edmg_cap sband)
          then False
          else case width_flags sband cd of
            None \<Rightarrow> False
          | Some fl \<Rightarrow>
              let w = cfg80211_chandef_get_width cd;
                  p = prohibited_flags OR fl;
                  p1 = (if w > 20 then p OR IEEE80211_CHAN_NO_OFDM else p);
                  p2 = (if w < 20 then p1 OR IEEE80211_CHAN_NO_OFDM else p1)
              in if \<not> cfg80211_secondary_chans_ok bs (center_freq1 cd) w p2 then False
                 else if center_freq2 cd = 0 then True
                 else cfg80211_secondary_chans_ok bs (center_freq2 cd) w p2)"

section \<open>Beaconing\<close>

definition cfg80211_get_unii :: "int \<Rightarrow> int option" where
  "cfg80211_get_unii freq =
     (if freq \<ge> 5150 \<and> freq \<le> 5250 then Some 0
      else if freq > 5250 \<and> freq \<le> 5350 then Some 1
      else if freq > 5350 \<and> freq \<le> 5470 then Some 2
      else if freq > 5470 \<and> freq \<le> 5725 then Some 3
      else if freq > 5725 \<and> freq \<le> 5825 then Some 4
      else if freq > 5925 \<and> freq \<le> 6425 then Some 5
      else if freq > 6425 \<and> freq \<le> 6525 then Some 6
      else if freq > 6525 \<and> freq \<le> 6875 then Some 7
      else if freq > 6875 \<and> freq \<le> 7125 then Some 8
      else None)"

definition ir_other_chan ::
  "nl80211_iftype \<Rightarrow> ieee80211_channel \<Rightarrow> wireless_dev \<Rightarrow> ieee80211_channel option" where
  "ir_other_chan iftype ch wdev =
     (let o1 = (if wd_iftype wdev = NL80211_IFTYPE_STATION then bss_channel wdev else None) in
      if iftype = NL80211_IFTYPE_P2P_GO \<and> wd_iftype wdev = NL80211_IFTYPE_P2P_GO \<and>
        beacon_interval wdev \<noteq> 0 \<and> chan_flags ch AND IEEE80211_CHAN_INDOOR_ONLY = 0
      then chan (wd_chandef wdev) else o1)"

fun ir_loop :: "nl80211_iftype \<Rightarrow> ieee80211_channel \<Rightarrow> wireless_dev list \<Rightarrow> bool" where
  "ir_loop iftype ch [] = False"
| "ir_loop iftype ch (wdev # ws) =
     (case ir_other_chan iftype ch wdev of
        None \<Rightarrow> ir_loop iftype ch ws
      | Some other \<Rightarrow>
          if chan_ptr ch = chan_ptr other then True
          else if chan_band ch \<noteq> NL80211_BAND_5GHZ \<and> chan_band ch \<noteq> NL80211_BAND_6GHZ
          then ir_loop iftype ch ws
          else let r1 = cfg80211_get_unii (uint (center_freq ch));
                   r2 = cfg80211_get_unii (uint (center_freq other))
               in if r1 \<noteq> None \<and> r1 = r2
                  then if center_freq ch = 5825 \<and> center_freq other \<noteq> 5825
                       then ir_loop iftype ch ws else True
                  else ir_loop iftype ch ws)"

text \<open>\<open>indoor\<close> is \<open>regulatory_indoor_allowed()\<close>.\<close>

definition cfg80211_ir_permissive_chan :: "bool \<Rightarrow> wiphy \<Rightarrow> nl80211_iftype \<Rightarrow> ieee80211_channel \<Rightarrow> bool" where
  "cfg80211_ir_permissive_chan indoor w iftype ch =
     (if \<not> relax_no_ir w then False
      else if iftype \<noteq> NL80211_IFTYPE_P2P_GO \<and> iftype \<noteq> NL80211_IFTYPE_STATION \<and>
        iftype \<noteq> NL80211_IFTYPE_P2P_CLIENT then False
      else if indoor \<and> chan_flags ch AND IEEE80211_CHAN_INDOOR_ONLY \<noteq> 0 then True
      else if chan_flags ch AND IEEE80211_CHAN_IR_CONCURRENT = 0 then False
      else ir_loop iftype ch (wdev_list w))"

definition reg_can_beacon :: "wiphy \<Rightarrow> cfg80211_chan_def \<Rightarrow> nl80211_iftype \<Rightarrow> bool \<Rightarrow> bool" where
  "reg_can_beacon w cd iftype check_no_ir =
     (let p0 = IEEE80211_CHAN_DISABLED OR IEEE80211_CHAN_RADAR;
          p1 = (if check_no_ir then p0 OR IEEE80211_CHAN_NO_IR else p0);
          p2 = (if (case cfg80211_chandef_dfs_required (w_bands w) cd iftype of
                      Inl e \<Rightarrow> False | Inr v \<Rightarrow> v \<noteq> 0) \<and>
                    cfg80211_chandef_dfs_available (w_bands w) (dfs_offload w) cd
                then IEEE80211_CHAN_DISABLED else p1)
      in cfg80211_chandef_usable (w_bands w) cd p2)"

definition cfg80211_reg_can_beacon :: "wiphy \<Rightarrow> cfg80211_chan_def \<Rightarrow> nl80211_iftype \<Rightarrow> bool" where
  "cfg80211_reg_can_beacon w cd iftype = reg_can_beacon w cd iftype True"

definition cfg80211_reg_can_beacon_relax ::
  "bool \<Rightarrow> wiphy \<Rightarrow> cfg80211_chan_def \<Rightarrow> nl80211_iftype \<Rightarrow> bool" where
  "cfg80211_reg_can_beacon_relax indoor w cd iftype =
     reg_can_beacon w cd iftype (\<not> cfg80211_ir_permissive_chan indoor w iftype (the (chan cd)))"

text \<open>\<open>op\<close> is the driver's operation, if it has one.\<close>

definition cfg80211_has_monitors_only :: "wiphy \<Rightarrow> bool" where
  "cfg80211_has_monitors_only w \<longleftrightarrow>
     num_running_ifaces w = num_running_monitor_ifaces w \<and> num_running_ifaces w > 0"

definition cfg80211_set_monitor_channel ::
  "(cfg80211_chan_def \<Rightarrow> errno option) option \<Rightarrow> wiphy \<Rightarrow> cfg80211_chan_def \<Rightarrow> errno option" where
  "cfg80211_set_monitor_channel op w cd =
     (case op of
        None \<Rightarrow> Some EOPNOTSUPP
      | Some f \<Rightarrow> if \<not> cfg80211_has_monitors_only w then Some EBUSY else f cd)"

definition radar_width :: "bands \<Rightarrow> wireless_dev \<Rightarrow> u8 \<Rightarrow> u8" where
  "radar_width bs wdev radar =
     (case cfg80211_chandef_dfs_required bs (wd_chandef wdev) (wd_iftype wdev) of
        Inl e \<Rightarrow> radar
      | Inr v \<Rightarrow> if v \<noteq> 0 then radar OR ucast (BIT (width_val (width (wd_chandef wdev)))) else radar)"

definition cfg80211_get_chan_state ::
  "bands \<Rightarrow> wireless_dev \<Rightarrow> u8 \<Rightarrow> ieee80211_channel option \<times> cfg80211_chan_mode \<times> u8" where
  "cfg80211_get_chan_state bs wdev radar =
     (let none = (None, CHAN_MODE_UNDEFINED, radar); cd = wd_chandef wdev;
          own = ucast (BIT (width_val (width cd)))
      in if netdev_running wdev = Some False then none
         else case wd_iftype wdev of
           NL80211_IFTYPE_ADHOC \<Rightarrow>
             (case bss_channel wdev of
                None \<Rightarrow> none
              | Some c \<Rightarrow>
                  (Some c, if ibss_fixed wdev \<and> \<not> ibss_dfs_possible wdev then CHAN_MODE_SHARED
                     else CHAN_MODE_EXCLUSIVE,
                   if ibss_dfs_possible wdev then radar OR own else radar))
         | NL80211_IFTYPE_STATION \<Rightarrow>
             (case bss_channel wdev of None \<Rightarrow> none | Some c \<Rightarrow> (Some c, CHAN_MODE_SHARED, radar))
         | NL80211_IFTYPE_P2P_CLIENT \<Rightarrow>
             (case bss_channel wdev of None \<Rightarrow> none | Some c \<Rightarrow> (Some c, CHAN_MODE_SHARED, radar))
         | NL80211_IFTYPE_MESH_POINT \<Rightarrow>
             (if mesh_id_len wdev \<noteq> 0 then (chan cd, CHAN_MODE_SHARED, radar_width bs wdev radar)
              else none)
         | NL80211_IFTYPE_OCB \<Rightarrow>
             (if chan cd \<noteq> None then (chan cd, CHAN_MODE_SHARED, radar) else none)
         | t \<Rightarrow>
             (if t = NL80211_IFTYPE_AP \<or> t = NL80211_IFTYPE_P2P_GO
              then (if cac_started wdev then (chan cd, CHAN_MODE_SHARED, radar OR own)
                    else if beacon_interval wdev \<noteq> 0
                    then (chan cd, CHAN_MODE_SHARED, radar_width bs wdev radar)
                    else none)
              else none))"

end
