(* ===== verification/Chandef_Props.thy ===== *)
theory Chandef_Props
  imports Chandef
begin

unbundle bit_operations_syntax

text \<open>
  Properties of channel definitions: creation and reading back of the channel type, compatible
  definitions cover both spans, setting the DFS state reaches exactly the radar channels of the span,
  and a definition on which an interface may beacon has only channels that allow it.
\<close>

section \<open>The channels of a definition\<close>

definition chandef_freqs :: "cfg80211_chan_def \<Rightarrow> u32 list" where
  "chandef_freqs cd = span_freqs (center_freq1 cd) (cfg80211_chandef_get_width cd) @
     (if center_freq2 cd = 0 then [] else span_freqs (center_freq2 cd) (cfg80211_chandef_get_width cd))"

section \<open>Lookups after an update\<close>

lemma find_update_first:
  assumes "\<And>c. center_freq (g c) = center_freq c"
  shows "find (\<lambda>c. center_freq c = x) (update_first (\<lambda>c. center_freq c = f) g xs) =
    map_option (if x = f then g else id) (find (\<lambda>c. center_freq c = x) xs)"
  using assms by (induction xs) (auto simp: option.map_id)

lemma find_append: "find P (xs @ ys) = (case find P xs of None \<Rightarrow> find P ys | Some x \<Rightarrow> Some x)"
  by (induction xs) auto

lemma get_channel_bands:
  "ieee80211_get_channel bs f = find (\<lambda>c. center_freq c = f) (concat (map (band_channels bs) nl80211_bands))"
  by (simp add: ieee80211_get_channel_def band_channels_def [abs_def])

lemma find_concat_update:
  assumes g: "\<And>c. center_freq (g c) = center_freq c"
    and d: "distinct bl"
    and b: "find (\<lambda>b. \<exists>c\<in>set (band_channels bs b). center_freq c = f) bl = Some b"
  shows "find (\<lambda>c. center_freq c = x) (concat (map (\<lambda>b'. if b' = b
      then update_first (\<lambda>c. center_freq c = f) g (band_channels bs b') else band_channels bs b') bl)) =
    map_option (if x = f then g else id)
      (find (\<lambda>c. center_freq c = x) (concat (map (band_channels bs) bl)))"
  using d b
proof (induction bl)
  case Nil
  then show ?case by simp
next
  case (Cons a bl)
  show ?case
  proof (cases "\<exists>c\<in>set (band_channels bs a). center_freq c = f")
    case True
    then have ab: "a = b" using Cons.prems(2) by simp
    have rest: "map (\<lambda>b'. if b' = b then update_first (\<lambda>c. center_freq c = f) g (band_channels bs b')
        else band_channels bs b') bl = map (band_channels bs) bl"
      using Cons.prems(1) ab by (auto intro: map_cong)
    have ff: "find (\<lambda>c. center_freq c = f) (band_channels bs a) \<noteq> None"
      using True by (auto simp: find_None_iff)
    show ?thesis
      unfolding list.map concat.simps find_append rest
      using ff by (auto simp: ab find_update_first [OF g] option.map_id split: option.splits)
  next
    case False
    then have b: "find (\<lambda>b. \<exists>c\<in>set (band_channels bs b). center_freq c = f) bl = Some b"
      using Cons.prems(2) by simp
    then have "a \<noteq> b" using False by (auto simp: find_Some_iff)
    have ff: "find (\<lambda>c. center_freq c = f) (band_channels bs a) = None"
      using False by (auto simp: find_None_iff)
    show ?thesis
      using Cons.IH [OF _ b] Cons.prems(1) \<open>a \<noteq> b\<close> ff
      by (auto simp: find_append option.map_id option.map_ident split: option.splits)
  qed
qed

lemma get_channel_update:
  assumes g: "\<And>c. center_freq (g c) = center_freq c"
  shows "ieee80211_get_channel (update_channel g f bs) x =
    map_option (if x = f then g else id) (ieee80211_get_channel bs x)"
proof (cases "find (\<lambda>b. \<exists>c\<in>set (band_channels bs b). center_freq c = f) nl80211_bands")
  case None
  then have "ieee80211_get_channel bs f = None"
    by (auto simp: get_channel_bands find_None_iff)
  with None show ?thesis by (auto simp: update_channel_def option.map_id)
next
  case (Some b)
  have bc: "band_channels (update_channel g f bs) b' = (if b' = b
      then update_first (\<lambda>c. center_freq c = f) g (band_channels bs b') else band_channels bs b')" for b'
    using Some by (auto simp: update_channel_def band_channels_def split: option.splits)
  have "distinct nl80211_bands" by (simp add: nl80211_bands_def)
  then show ?thesis
    unfolding get_channel_bands bc [abs_def] by (rule find_concat_update [OF g _ Some])
qed

lemma get_channel_set_dfs_loop:
  "ieee80211_get_channel (set_dfs_loop j st fs bs) x =
    map_option (\<lambda>c. if x \<in> set fs \<and> is_radar c then c\<lparr>dfs_state := st, dfs_state_entered := j\<rparr> else c)
      (ieee80211_get_channel bs x)"
proof (induction fs arbitrary: bs)
  case Nil
  then show ?case by (simp add: option.map_ident)
next
  case (Cons f fs)
  have up: "ieee80211_get_channel (update_channel (\<lambda>c. c\<lparr>dfs_state := st, dfs_state_entered := j\<rparr>) f bs) x =
      map_option (if x = f then (\<lambda>c. c\<lparr>dfs_state := st, dfs_state_entered := j\<rparr>) else id)
        (ieee80211_get_channel bs x)"
    by (rule get_channel_update) simp
  have rad: "is_radar (c\<lparr>dfs_state := st, dfs_state_entered := j\<rparr>) = is_radar c" for c
    by (simp add: is_radar_def)
  show ?case
  proof (cases "ieee80211_get_channel bs f")
    case None
    then show ?thesis using Cons.IH [of bs] by (cases "x = f") auto
  next
    case (Some c)
    show ?thesis
    proof (cases "is_radar c")
      case True
      then show ?thesis
        using Some Cons.IH up
        by (cases "x = f") (auto simp: rad option.map_comp comp_def intro: option.map_cong0)
    next
      case False
      then show ?thesis using Some Cons.IH [of bs] by (cases "x = f") auto
    qed
  qed
qed

section \<open>Setting the DFS state\<close>

lemma width_wide:
  assumes "\<not> narrow cd"
  shows "freq_range (c - cfg80211_chandef_get_width cd div 2 + 10) (c + cfg80211_chandef_get_width cd div 2 - 10) =
    span_freqs c (cfg80211_chandef_get_width cd)"
  using assms
  by (cases "width cd")
    (simp_all add: narrow_def span_freqs_def cfg80211_chandef_get_width_def
      cfg80211_get_start_freq_def cfg80211_get_end_freq_def)

text \<open>
  Setting the DFS state of a valid channel definition of 20 MHz or more sets the state of
  every radar channel of its span, in both segments, and changes no other channel.
\<close>

theorem set_dfs_state_span:
  assumes "cfg80211_chandef_valid cd" "\<not> narrow cd"
  shows "ieee80211_get_channel (cfg80211_set_dfs_state j bs cd st) f =
    map_option (\<lambda>c. if f \<in> set (chandef_freqs cd) \<and> is_radar c
        then c\<lparr>dfs_state := st, dfs_state_entered := j\<rparr> else c)
      (ieee80211_get_channel bs f)"
proof -
  have rad: "is_radar (c\<lparr>dfs_state := st, dfs_state_entered := j\<rparr>) = is_radar c" for c
    by (simp add: is_radar_def)
  show ?thesis
    using assms(1)
    by (cases "ieee80211_get_channel bs f")
      (auto simp: cfg80211_set_dfs_state_def cfg80211_set_chans_dfs_state_def Let_def width_wide [OF assms(2)]
        get_channel_set_dfs_loop chandef_freqs_def rad)
qed

definition demo_channel :: "u32 \<Rightarrow> u32 \<Rightarrow> nl80211_dfs_state \<Rightarrow> ieee80211_channel" where
  "demo_channel f fl st = \<lparr>chan_ptr = unat f, chan_band = NL80211_BAND_5GHZ, center_freq = f, hw_value = 0,
     chan_flags = fl, max_antenna_gain = 0, max_power = 20, max_reg_power = 20, beacon_found = False,
     orig_flags = 0, orig_mag = 0, orig_mpwr = 20, dfs_state = st, dfs_state_entered = 0, dfs_cac_ms = 60000\<rparr>"

definition demo_bands :: "ieee80211_channel list \<Rightarrow> bands" where
  "demo_bands cs b = (if b = NL80211_BAND_5GHZ then Some \<lparr>channels = cs, bitrates = [],
     sband_band = NL80211_BAND_5GHZ, ht_supported_cap = True, ht_cap = 2, vht_supported_cap = True,
     vht_cap = 8, edmg_cap = \<lparr>edmg_channels = 0, edmg_bw_config = 0\<rparr>\<rparr> else None)"

definition demo_cd :: "u32 \<Rightarrow> nl80211_chan_width \<Rightarrow> u32 \<Rightarrow> u32 \<Rightarrow> cfg80211_chan_def" where
  "demo_cd f w f1 f2 = \<lparr>chan = Some (demo_channel f 8 NL80211_DFS_USABLE), width = w, center_freq1 = f1,
     center_freq2 = f2, cd_edmg = \<lparr>edmg_channels = 0, edmg_bw_config = 0\<rparr>\<rparr>"

theorem set_dfs_state_span_witness:
  "map_option dfs_state (ieee80211_get_channel
     (cfg80211_set_dfs_state 7 (demo_bands [demo_channel 5260 8 NL80211_DFS_USABLE])
        (demo_cd 5260 NL80211_CHAN_WIDTH_40 5270 0) NL80211_DFS_UNAVAILABLE) 5260) =
   Some NL80211_DFS_UNAVAILABLE"
proof -
  have v: "cfg80211_chandef_valid (demo_cd 5260 NL80211_CHAN_WIDTH_40 5270 0)"
    "\<not> narrow (demo_cd 5260 NL80211_CHAN_WIDTH_40 5270 0)"
    "5260 \<in> set (chandef_freqs (demo_cd 5260 NL80211_CHAN_WIDTH_40 5270 0))" by code_simp+
  have g: "ieee80211_get_channel (demo_bands [demo_channel 5260 8 NL80211_DFS_USABLE]) 5260 =
      Some (demo_channel 5260 8 NL80211_DFS_USABLE)" by code_simp
  have r: "is_radar (demo_channel 5260 8 NL80211_DFS_USABLE)" by code_simp
  show ?thesis unfolding set_dfs_state_span [OF v(1,2)] g using v(3) r by simp
qed

lemma freq_range_empty: "e < f \<Longrightarrow> freq_range f e = []"
  by (subst freq_range.simps) simp

text \<open>
  For a 5 or 10 MHz channel the DFS state is never set: the range of frequencies of
  \<open>cfg80211_set_chans_dfs_state\<close> is empty, while the checks of the state look at the centre channel. A
  usable radar channel that has passed its availability check stays unavailable.
\<close>

theorem narrow_dfs_state_lost:
  "cfg80211_set_dfs_state j (demo_bands [demo_channel 5260 8 NL80211_DFS_USABLE])
      (demo_cd 5260 NL80211_CHAN_WIDTH_10 5260 0) NL80211_DFS_AVAILABLE =
    demo_bands [demo_channel 5260 8 NL80211_DFS_USABLE] \<and>
   cfg80211_chandef_dfs_usable (demo_bands [demo_channel 5260 8 NL80211_DFS_USABLE])
      (demo_cd 5260 NL80211_CHAN_WIDTH_10 5260 0) \<and>
   \<not> cfg80211_chandef_dfs_available (cfg80211_set_dfs_state j
        (demo_bands [demo_channel 5260 8 NL80211_DFS_USABLE])
        (demo_cd 5260 NL80211_CHAN_WIDTH_10 5260 0) NL80211_DFS_AVAILABLE) False
      (demo_cd 5260 NL80211_CHAN_WIDTH_10 5260 0)"
proof -
  have e: "cfg80211_set_dfs_state j (demo_bands [demo_channel 5260 8 NL80211_DFS_USABLE])
      (demo_cd 5260 NL80211_CHAN_WIDTH_10 5260 0) NL80211_DFS_AVAILABLE =
    demo_bands [demo_channel 5260 8 NL80211_DFS_USABLE]"
    by (simp add: cfg80211_set_dfs_state_def cfg80211_set_chans_dfs_state_def Let_def demo_cd_def
        cfg80211_chandef_get_width_def freq_range_empty)
  have u: "cfg80211_chandef_dfs_usable (demo_bands [demo_channel 5260 8 NL80211_DFS_USABLE])
      (demo_cd 5260 NL80211_CHAN_WIDTH_10 5260 0)" by code_simp
  have a: "\<not> cfg80211_chandef_dfs_available (demo_bands [demo_channel 5260 8 NL80211_DFS_USABLE]) False
      (demo_cd 5260 NL80211_CHAN_WIDTH_10 5260 0)" by code_simp
  show ?thesis unfolding e using u a by simp
qed

section \<open>Beaconing\<close>

lemma and_or_zero: "x AND (a OR b) = 0 \<longleftrightarrow> x AND a = 0 \<and> x AND b = (0 :: u32)"
  by (simp add: bit.conj_disj_distrib or_eq_0_iff)

lemma secondary_loopD:
  "secondary_loop bs p fs \<Longrightarrow> f \<in> set fs \<Longrightarrow>
    \<exists>c. ieee80211_get_channel bs f = Some c \<and> chan_flags c AND p = 0"
  by (induction fs) (auto split: option.splits if_splits)

lemma dfs_available_loopD:
  "dfs_available_loop bs off fs \<Longrightarrow> f \<in> set fs \<Longrightarrow>
    \<exists>c. ieee80211_get_channel bs f = Some c \<and> \<not> is_disabled c \<and>
      (is_radar c \<longrightarrow> dfs_state c = NL80211_DFS_AVAILABLE \<or> dfs_state c = NL80211_DFS_USABLE \<and> off)"
  by (induction fs) (auto split: option.splits if_splits)

lemma dfs_required_loop_True:
  "dfs_required_loop bs fs = Some True \<Longrightarrow> \<exists>f\<in>set fs. \<exists>c. ieee80211_get_channel bs f = Some c \<and> is_radar c"
  by (induction fs) (auto split: option.splits if_splits)

lemma dfs_required_radar:
  assumes "cfg80211_chandef_dfs_required bs cd t = Inr v" "v \<noteq> 0"
  shows "needs_dfs t" "\<exists>f\<in>set (chandef_freqs cd). \<exists>c. ieee80211_get_channel bs f = Some c \<and> is_radar c"
  using assms
  by (auto simp: cfg80211_chandef_dfs_required_def cfg80211_get_chans_dfs_required_def Let_def
      chandef_freqs_def split: if_splits option.splits bool.splits dest!: dfs_required_loop_True)

lemma valid_freq2:
  "cfg80211_chandef_valid cd \<Longrightarrow> center_freq2 cd \<noteq> 0 \<longleftrightarrow> width cd = NL80211_CHAN_WIDTH_80P80"
  by (cases "width cd") (auto simp: cfg80211_chandef_valid_def Let_def split: option.splits)

lemma dfs_availableD:
  assumes "cfg80211_chandef_dfs_available bs off cd" "f \<in> set (chandef_freqs cd)"
  shows "\<exists>c. ieee80211_get_channel bs f = Some c \<and> \<not> is_disabled c \<and>
      (is_radar c \<longrightarrow> dfs_state c = NL80211_DFS_AVAILABLE \<or> dfs_state c = NL80211_DFS_USABLE \<and> off)"
proof -
  have v: "cfg80211_chandef_valid cd"
    using assms(1) by (simp add: cfg80211_chandef_dfs_available_def split: if_splits)
  have "f \<in> set (span_freqs (center_freq1 cd) (cfg80211_chandef_get_width cd)) \<or>
      center_freq2 cd \<noteq> 0 \<and> f \<in> set (span_freqs (center_freq2 cd) (cfg80211_chandef_get_width cd))"
    using assms(2) by (auto simp: chandef_freqs_def split: if_splits)
  then show ?thesis
    using assms(1) v valid_freq2 [OF v]
    by (auto simp: cfg80211_chandef_dfs_available_def cfg80211_get_chans_dfs_available_def Let_def
        split: if_splits dest: dfs_available_loopD)
qed

lemma usableD:
  assumes "cfg80211_chandef_usable bs cd p" "f \<in> set (chandef_freqs cd)"
  shows "\<exists>c. ieee80211_get_channel bs f = Some c \<and> chan_flags c AND p = 0"
proof -
  have "\<exists>p'. secondary_loop bs (p OR p') (span_freqs (center_freq1 cd) (cfg80211_chandef_get_width cd)) \<and>
      (center_freq2 cd \<noteq> 0 \<longrightarrow>
        secondary_loop bs (p OR p') (span_freqs (center_freq2 cd) (cfg80211_chandef_get_width cd)))"
    using assms(1)
    unfolding cfg80211_chandef_usable_def cfg80211_secondary_chans_ok_def Let_def
    by (auto simp: or.assoc split: if_splits option.splits)
  then obtain p' where
    s: "secondary_loop bs (p OR p') (span_freqs (center_freq1 cd) (cfg80211_chandef_get_width cd))"
      "center_freq2 cd \<noteq> 0 \<Longrightarrow>
        secondary_loop bs (p OR p') (span_freqs (center_freq2 cd) (cfg80211_chandef_get_width cd))"
    by blast
  have "\<exists>c. ieee80211_get_channel bs f = Some c \<and> chan_flags c AND (p OR p') = 0"
    using assms(2) secondary_loopD [OF s(1)] secondary_loopD [OF s(2)]
    by (auto simp: chandef_freqs_def split: if_splits)
  then show ?thesis by (auto simp: and_or_zero)
qed

text \<open>
  Property C4: if an interface may beacon on a channel definition, every 20 MHz channel it spans exists
  and is not disabled; a radar channel among them has passed its availability check, or its check is
  left to the device, and the interface is of a type that detects radar; and without radar channels
  none of them forbids initiating radiation.
\<close>

theorem reg_can_beacon_safe:
  assumes "cfg80211_reg_can_beacon w cd t" "f \<in> set (chandef_freqs cd)"
  shows "\<exists>c. ieee80211_get_channel (w_bands w) f = Some c \<and> \<not> is_disabled c \<and>
    (is_radar c \<longrightarrow> needs_dfs t \<and>
      (dfs_state c = NL80211_DFS_AVAILABLE \<or> dfs_state c = NL80211_DFS_USABLE \<and> dfs_offload w)) \<and>
    (chan_flags c AND IEEE80211_CHAN_NO_IR \<noteq> 0 \<longrightarrow>
      (\<exists>f'\<in>set (chandef_freqs cd). \<exists>c'. ieee80211_get_channel (w_bands w) f' = Some c' \<and> is_radar c'))"
proof (cases "(\<exists>v. cfg80211_chandef_dfs_required (w_bands w) cd t = Inr v \<and> v \<noteq> 0) \<and>
    cfg80211_chandef_dfs_available (w_bands w) (dfs_offload w) cd")
  case True
  then obtain v where v: "cfg80211_chandef_dfs_required (w_bands w) cd t = Inr v" "v \<noteq> 0" by blast
  from True have "cfg80211_chandef_dfs_available (w_bands w) (dfs_offload w) cd" by blast
  with dfs_availableD [OF this assms(2)] dfs_required_radar [OF v] show ?thesis by auto
next
  case False
  then have "cfg80211_chandef_usable (w_bands w) cd
      ((IEEE80211_CHAN_DISABLED OR IEEE80211_CHAN_RADAR) OR IEEE80211_CHAN_NO_IR)"
    using assms(1)
    by (auto simp: cfg80211_reg_can_beacon_def reg_can_beacon_def Let_def split: sum.splits if_splits)
  from usableD [OF this assms(2)] show ?thesis
    by (auto simp: and_or_zero is_radar_def is_disabled_def)
qed

definition demo_wiphy :: "ieee80211_channel list \<Rightarrow> wiphy" where
  "demo_wiphy cs = \<lparr>w_bands = demo_bands cs, dfs_offload = False, relax_no_ir = False,
     regd_dfs_region = None, wdev_list = [], num_running_ifaces = 0, num_running_monitor_ifaces = 0\<rparr>"

theorem reg_can_beacon_safe_witness:
  "\<exists>c. ieee80211_get_channel (w_bands (demo_wiphy [demo_channel 5260 8 NL80211_DFS_AVAILABLE,
       demo_channel 5280 8 NL80211_DFS_AVAILABLE])) 5280 = Some c \<and> \<not> is_disabled c"
proof -
  let ?w = "demo_wiphy [demo_channel 5260 8 NL80211_DFS_AVAILABLE, demo_channel 5280 8 NL80211_DFS_AVAILABLE]"
  let ?cd = "demo_cd 5260 NL80211_CHAN_WIDTH_40 5270 0"
  have h: "cfg80211_reg_can_beacon ?w ?cd NL80211_IFTYPE_AP" by code_simp
  have f: "5280 \<in> set (chandef_freqs ?cd)" by code_simp
  from reg_can_beacon_safe [OF h f] show ?thesis by blast
qed

section \<open>Channel types\<close>

lemma u32_up: "f \<le> 100000 \<Longrightarrow> f < f + 10" for f :: u32
  by (simp add: word_less_nat_alt word_le_nat_alt unat_word_ariths)

lemma u32_down: "10 \<le> f \<Longrightarrow> f - 10 < f" for f :: u32
  by (simp add: word_less_nat_alt word_le_nat_alt unat_sub)

text \<open>
  Creating a channel definition from a control channel and a channel type gives a valid
  definition, except around channel 14, and the type can be read back from it.
\<close>

theorem chandef_create_roundtrip:
  assumes "10 \<le> center_freq ch" "center_freq ch \<le> 100000"
    and "t = NL80211_CHAN_NO_HT \<or> center_freq ch \<notin> {2474, 2484, 2494}"
  shows "cfg80211_chandef_valid (cfg80211_chandef_create ch t) \<and>
    cfg80211_get_chandef_type (cfg80211_chandef_create ch t) = t"
proof -
  have n: "center_freq ch + 10 = 2484 \<longleftrightarrow> center_freq ch = 2474"
    "center_freq ch - 10 = 2484 \<longleftrightarrow> center_freq ch = 2494" by (simp_all add: algebra_simps)
  show ?thesis
    using assms(3) u32_up [OF assms(2)] u32_down [OF assms(1)]
    by (cases t) (auto simp: cfg80211_chandef_create_def cfg80211_chandef_valid_def
        cfg80211_get_chandef_type_def cfg80211_chandef_is_edmg_def Let_def n)
qed

theorem chandef_create_roundtrip_witness:
  "cfg80211_get_chandef_type (cfg80211_chandef_create (demo_channel 5260 0 NL80211_DFS_USABLE)
     NL80211_CHAN_HT40MINUS) = NL80211_CHAN_HT40MINUS"
  using chandef_create_roundtrip [of "demo_channel 5260 0 NL80211_DFS_USABLE" NL80211_CHAN_HT40MINUS]
  by (simp add: demo_channel_def)

section \<open>Compatible definitions\<close>

text \<open>The frequencies of a span as integers: from \<open>a\<close> to \<open>b\<close> in steps of 20.\<close>

function steps :: "int \<Rightarrow> int \<Rightarrow> int list" where
  "steps a b = (if a \<le> b then a # steps (a + 20) b else [])"
  by pat_completeness auto
termination by (relation "measure (\<lambda>(a, b). nat (b + 1 - a))") auto

declare steps.simps [simp del]

lemma uint_of_int: "0 \<le> k \<Longrightarrow> k < 1001000 \<Longrightarrow> uint (of_int k :: u32) = k"
  by (simp add: uint_word_of_int_eq take_bit_int_eq_self)

lemma freq_range_steps:
  "0 \<le> a \<Longrightarrow> 0 \<le> b \<Longrightarrow> a \<le> b + 20 \<Longrightarrow> b < 1000000 \<Longrightarrow>
    freq_range (of_int a) (of_int b) = map of_int (steps a b)"
proof (induction a b rule: steps.induct)
  case (1 a b)
  show ?case
  proof (cases "a \<le> b")
    case True
    have s: "(of_int a :: u32) + 20 = of_int (a + 20)" by simp
    have "(of_int a :: u32) < of_int (a + 20)" "(of_int a :: u32) \<le> of_int b"
      using 1 True by (simp_all add: word_less_def word_le_def uint_of_int del: of_int_add)
    then show ?thesis
      using 1 True by (subst freq_range.simps, subst steps.simps) (simp add: s del: of_int_add)
  next
    case False
    then have "\<not> (of_int a :: u32) \<le> of_int b"
      using 1 by (simp add: word_le_def uint_of_int)
    then show ?thesis using False by (subst freq_range.simps, subst steps.simps) simp
  qed
qed

lemma steps_simps:
  "steps (n - 10) (n + 10) = [n - 10, n + 10]"
  "steps (n - 30) (n + 30) = [n - 30, n - 10, n + 10, n + 30]"
  "steps (n - 70) (n + 70) = [n - 70, n - 50, n - 30, n - 10, n + 10, n + 30, n + 50, n + 70]"
  by (simp_all add: steps.simps)

text \<open>Frequencies away from the ends of the word.\<close>

definition real_freq :: "u32 \<Rightarrow> bool" where
  "real_freq f \<longleftrightarrow> 1000 \<le> f \<and> f \<le> 100000"

lemma real_freq_int:
  assumes "real_freq f" obtains n where "f = of_int n" "1000 \<le> n" "n \<le> 100000"
proof -
  have "f = of_int (uint f)" by simp
  moreover have "1000 \<le> uint f" "uint f \<le> 100000" using assms by (simp_all add: real_freq_def word_le_def)
  ultimately show thesis by (rule that)
qed

lemma span_freqs_wide:
  assumes "real_freq f" "d \<in> {-70, -50, -30, -10, 10, 30, 50, 70}" "c = f + of_int d"
  shows "span_freqs c 40 = [c - 10, c + 10]"
    "span_freqs c 80 = [c - 30, c - 10, c + 10, c + 30]"
    "span_freqs c 160 = [c - 70, c - 50, c - 30, c - 10, c + 10, c + 30, c + 50, c + 70]"
proof -
  from assms(1) obtain m where m: "f = of_int m" "1000 \<le> m" "m \<le> 100000" by (rule real_freq_int)
  define n where "n = m + d"
  have n: "c = of_int n" "930 \<le> n" "n \<le> 100070" using m assms(2,3) by (auto simp: n_def)
  have se: "cfg80211_get_start_freq c 40 = of_int (n - 10)" "cfg80211_get_end_freq c 40 = of_int (n + 10)"
    "cfg80211_get_start_freq c 80 = of_int (n - 30)" "cfg80211_get_end_freq c 80 = of_int (n + 30)"
    "cfg80211_get_start_freq c 160 = of_int (n - 70)" "cfg80211_get_end_freq c 160 = of_int (n + 70)"
    by (simp_all add: cfg80211_get_start_freq_def cfg80211_get_end_freq_def n(1))
  show "span_freqs c 40 = [c - 10, c + 10]"
    unfolding span_freqs_def se by (subst freq_range_steps) (use n in \<open>simp_all add: steps_simps\<close>)
  show "span_freqs c 80 = [c - 30, c - 10, c + 10, c + 30]"
    unfolding span_freqs_def se by (subst freq_range_steps) (use n in \<open>simp_all add: steps_simps\<close>)
  show "span_freqs c 160 = [c - 70, c - 50, c - 30, c - 10, c + 10, c + 30, c + 50, c + 70]"
    unfolding span_freqs_def se by (subst freq_range_steps) (use n in \<open>simp_all add: steps_simps\<close>)
qed

lemma span_freqs_20_eq: "real_freq f \<Longrightarrow> span_freqs f 20 = [f]"
proof -
  assume "real_freq f"
  then obtain n where n: "f = of_int n" "1000 \<le> n" "n \<le> 100000" by (rule real_freq_int)
  have "steps n n = [n]" by (simp add: steps.simps)
  then show ?thesis
    using freq_range_steps [of n n] n
    by (simp add: span_freqs_def cfg80211_get_start_freq_def cfg80211_get_end_freq_def)
qed

text \<open>
  The offsets of the first centre frequency of a definition from its control channel, and of the 20 MHz
  channels of its first segment.
\<close>

definition seg_offsets :: "nl80211_chan_width \<Rightarrow> int list" where
  "seg_offsets w = (case w of
     NL80211_CHAN_WIDTH_40 \<Rightarrow> [-10, 10]
   | NL80211_CHAN_WIDTH_80 \<Rightarrow> [-30, -10, 10, 30]
   | NL80211_CHAN_WIDTH_80P80 \<Rightarrow> [-30, -10, 10, 30]
   | NL80211_CHAN_WIDTH_160 \<Rightarrow> [-70, -50, -30, -10, 10, 30, 50, 70]
   | _ \<Rightarrow> [0])"

text \<open>The primary 40 and 80 MHz channels as offsets from the control channel.\<close>

definition pri40 :: "nl80211_chan_width \<Rightarrow> int \<Rightarrow> int" where
  "pri40 w d = (case w of
     NL80211_CHAN_WIDTH_160 \<Rightarrow> d - 60 + 40 * ((70 - d) div 20 div 2)
   | NL80211_CHAN_WIDTH_40 \<Rightarrow> d
   | _ \<Rightarrow> d - 20 + 40 * ((30 - d) div 20 div 2))"

definition pri80 :: "nl80211_chan_width \<Rightarrow> int \<Rightarrow> int" where
  "pri80 w d = (case w of
     NL80211_CHAN_WIDTH_160 \<Rightarrow> d - 40 + 80 * ((70 - d) div 20 div 2 div 2)
   | _ \<Rightarrow> d)"

lemma wide_valid:
  assumes "cfg80211_chandef_valid cd" "chan cd = Some ch" "\<not> narrow cd" "\<not> width20 cd"
  obtains d where "d \<in> set (seg_offsets (width cd))" "center_freq1 cd = center_freq ch + of_int d"
proof -
  have "\<exists>d\<in>set (seg_offsets (width cd)). center_freq1 cd = center_freq ch + of_int d"
    using assms
    by (cases "width cd") (auto simp: cfg80211_chandef_valid_def Let_def narrow_def width20_def seg_offsets_def)
  with that show thesis by blast
qed

lemma wide_primary:
  assumes "d \<in> set (seg_offsets (width cd))" "center_freq1 cd = center_freq ch + of_int d"
    "chan cd = Some ch" "\<not> narrow cd" "\<not> width20 cd"
  shows "chandef_primary_freqs cd = Some (center_freq ch + of_int (pri40 (width cd) d),
    if width cd = NL80211_CHAN_WIDTH_40 then 0 else center_freq ch + of_int (pri80 (width cd) d))"
  using assms
  by (cases "width cd") (auto simp: chandef_primary_freqs_def Let_def seg_offsets_def narrow_def
      width20_def pri40_def pri80_def)

lemma wide_span:
  assumes "d \<in> set (seg_offsets (width cd))" "center_freq1 cd = center_freq ch + of_int d"
    "chan cd = Some ch" "\<not> narrow cd" "\<not> width20 cd" "real_freq (center_freq ch)"
  shows "set (span_freqs (center_freq1 cd) (cfg80211_chandef_get_width cd)) =
    (\<lambda>e. center_freq ch + of_int (d + e)) ` set (seg_offsets (width cd))"
proof -
  have d: "d \<in> {-70, -50, -30, -10, 10, 30, 50, 70}"
    using assms by (cases "width cd") (auto simp: seg_offsets_def narrow_def width20_def)
  note sp = span_freqs_wide [OF assms(6) d assms(2)]
  have img: "(\<lambda>e. center_freq ch + of_int (d + e)) = (\<lambda>e. center_freq1 cd + of_int e)"
    by (simp add: assms(2) add.assoc)
  show ?thesis
    unfolding img using assms(4,5)
    by (cases "width cd") (simp_all add: narrow_def width20_def cfg80211_chandef_get_width_def sp
        seg_offsets_def)
qed

text \<open>On the offsets: equal primary channels put the narrower first segment inside the wider one.\<close>

definition seg_le :: "nl80211_chan_width \<Rightarrow> int \<Rightarrow> nl80211_chan_width \<Rightarrow> int \<Rightarrow> bool" where
  "seg_le w d w' d' \<longleftrightarrow> list_all (\<lambda>e. list_ex (\<lambda>e'. d + e = d' + e') (seg_offsets w')) (seg_offsets w)"

definition wide_widths :: "nl80211_chan_width list" where
  "wide_widths = [NL80211_CHAN_WIDTH_40, NL80211_CHAN_WIDTH_80, NL80211_CHAN_WIDTH_80P80,
     NL80211_CHAN_WIDTH_160]"

lemma seg_le_check:
  "list_all (\<lambda>w. list_all (\<lambda>w'. list_all (\<lambda>d. list_all (\<lambda>d'.
      width_val w < width_val w' \<and> pri40 w d = pri40 w' d' \<and>
      (w = NL80211_CHAN_WIDTH_40 \<or> pri80 w d = pri80 w' d') \<longrightarrow> seg_le w d w' d')
    (seg_offsets w')) (seg_offsets w)) wide_widths) wide_widths"
  by code_simp

lemma seg_leI:
  assumes "w \<in> set wide_widths" "w' \<in> set wide_widths" "d \<in> set (seg_offsets w)" "d' \<in> set (seg_offsets w')"
    "width_val w < width_val w'" "pri40 w d = pri40 w' d'"
    "w = NL80211_CHAN_WIDTH_40 \<or> pri80 w d = pri80 w' d'"
  shows "seg_le w d w' d'"
  using seg_le_check assms unfolding list_all_iff by blast

lemma of_int_inj:
  assumes "\<bar>a\<bar> \<le> 1000" "\<bar>b\<bar> \<le> 1000" "(of_int a :: u32) = of_int b"
  shows "a = b"
proof -
  have "(of_int (a + 1000) :: u32) = of_int (b + 1000)" using assms(3) by simp
  then have "uint (of_int (a + 1000) :: u32) = uint (of_int (b + 1000) :: u32)" by (rule arg_cong)
  then show ?thesis using assms(1,2) by (subst (asm) (1 2) uint_of_int) auto
qed

lemma pri_bounds:
  assumes "d \<in> set (seg_offsets w)"
  shows "\<bar>pri40 w d\<bar> \<le> 1000" "\<bar>pri80 w d\<bar> \<le> 1000"
  using assms by (cases w; auto simp: seg_offsets_def pri40_def pri80_def)+

lemma real_freq_nz:
  assumes "real_freq f" "\<bar>a\<bar> \<le> 900"
  shows "f + of_int a \<noteq> 0"
proof -
  from assms(1) obtain n where n: "f = of_int n" "1000 \<le> n" "n \<le> 100000" by (rule real_freq_int)
  have "uint (of_int (n + a) :: u32) = n + a" using n assms(2) by (intro uint_of_int) auto
  then show ?thesis using n assms(2) by (auto simp flip: of_int_add)
qed

lemma pri80_bound: "d \<in> set (seg_offsets w) \<Longrightarrow> \<bar>pri80 w d\<bar> \<le> 900"
  by (cases w; auto simp: seg_offsets_def pri80_def)

lemma seg_le_subset:
  "seg_le w d w' d' \<Longrightarrow>
    (\<lambda>e. k + of_int (d + e)) ` set (seg_offsets w) \<subseteq> (\<lambda>e. (k :: u32) + of_int (d' + e)) ` set (seg_offsets w')"
  unfolding seg_le_def list_all_iff list_ex_iff by (metis (no_types, lifting) image_eqI image_subsetI)

text \<open>The span of the wider of two definitions with equal primary channels.\<close>

lemma compatible_wide:
  assumes v: "cfg80211_chandef_valid c1" "cfg80211_chandef_valid c2"
    and ch: "chan c1 = Some ch" "chan c2 = Some ch" and f: "real_freq (center_freq ch)"
    and wide: "\<not> narrow c1" "\<not> width20 c1" "\<not> narrow c2" "\<not> width20 c2"
    and lt: "width_val (width c1) < width_val (width c2)" and w1: "width c1 \<noteq> NL80211_CHAN_WIDTH_80P80"
    and p: "chandef_primary_freqs c1 = Some (a1, b1)" "chandef_primary_freqs c2 = Some (a2, b2)"
      "a1 = a2" "\<not> (b1 \<noteq> 0 \<and> b2 \<noteq> 0 \<and> b1 \<noteq> b2)"
  shows "set (chandef_freqs c1) \<subseteq> set (chandef_freqs c2)"
proof -
  obtain d1 where d1: "d1 \<in> set (seg_offsets (width c1))" "center_freq1 c1 = center_freq ch + of_int d1"
    using wide_valid [OF v(1) ch(1) wide(1,2)] .
  obtain d2 where d2: "d2 \<in> set (seg_offsets (width c2))" "center_freq1 c2 = center_freq ch + of_int d2"
    using wide_valid [OF v(2) ch(2) wide(3,4)] .
  note q1 = wide_primary [OF d1 ch(1) wide(1,2)] and q2 = wide_primary [OF d2 ch(2) wide(3,4)]
  have eq40: "pri40 (width c1) d1 = pri40 (width c2) d2"
  proof (intro of_int_inj pri_bounds d1(1) d2(1))
    have "center_freq ch + of_int (pri40 (width c1) d1) = center_freq ch + of_int (pri40 (width c2) d2)"
      using p(1-3) q1 q2 by auto
    then show "(of_int (pri40 (width c1) d1) :: u32) = of_int (pri40 (width c2) d2)" by simp
  qed
  have w2: "width c2 \<noteq> NL80211_CHAN_WIDTH_40" using lt wide(1,2)
    by (cases "width c1") (auto simp: narrow_def width20_def)
  have eq80: "width c1 = NL80211_CHAN_WIDTH_40 \<or> pri80 (width c1) d1 = pri80 (width c2) d2"
  proof (cases "width c1 = NL80211_CHAN_WIDTH_40")
    case False
    have "b1 \<noteq> 0" "b2 \<noteq> 0"
      using p(1,2) q1 q2 False w2 real_freq_nz [OF f pri80_bound [OF d1(1)]] real_freq_nz [OF f pri80_bound [OF d2(1)]]
      by auto
    then have "b1 = b2" using p(4) by blast
    then have "center_freq ch + of_int (pri80 (width c1) d1) = center_freq ch + of_int (pri80 (width c2) d2)"
      using p(1,2) q1 q2 False w2 by auto
    then have "(of_int (pri80 (width c1) d1) :: u32) = of_int (pri80 (width c2) d2)" by simp
    then show ?thesis by (intro disjI2 of_int_inj pri_bounds d1(1) d2(1))
  qed simp
  have ww: "width c1 \<in> set wide_widths" "width c2 \<in> set wide_widths"
    using wide by (cases "width c1"; cases "width c2"; simp add: wide_widths_def narrow_def width20_def)+
  have le: "seg_le (width c1) d1 (width c2) d2"
    by (rule seg_leI [OF ww d1(1) d2(1) lt eq40 eq80])
  have "center_freq2 c1 = 0" using valid_freq2 [OF v(1)] w1 by blast
  then have "set (chandef_freqs c1) =
      (\<lambda>e. center_freq ch + of_int (d1 + e)) ` set (seg_offsets (width c1))"
    using wide_span [OF d1 ch(1) wide(1,2) f] by (simp add: chandef_freqs_def)
  also have "\<dots> \<subseteq> (\<lambda>e. center_freq ch + of_int (d2 + e)) ` set (seg_offsets (width c2))"
    by (rule seg_le_subset [OF le])
  also have "\<dots> \<subseteq> set (chandef_freqs c2)"
    using wide_span [OF d2 ch(2) wide(3,4) f] by (auto simp: chandef_freqs_def)
  finally show ?thesis .
qed

lemma control_in_span:
  assumes "cfg80211_chandef_valid c" "chan c = Some ch" "\<not> narrow c" "real_freq (center_freq ch)"
  shows "center_freq ch \<in> set (chandef_freqs c)"
proof (cases "width20 c")
  case True
  then have "center_freq1 c = center_freq ch" "cfg80211_chandef_get_width c = 20"
    using assms(1,2) by (auto simp: width20_def cfg80211_chandef_valid_def Let_def cfg80211_chandef_get_width_def)
  then show ?thesis using span_freqs_20_eq [OF assms(4)] by (simp add: chandef_freqs_def)
next
  case False
  obtain d where d: "d \<in> set (seg_offsets (width c))" "center_freq1 c = center_freq ch + of_int d"
    using wide_valid [OF assms(1,2,3) False] .
  have "- d \<in> set (seg_offsets (width c))" using d(1) by (cases "width c") (auto simp: seg_offsets_def)
  then have "center_freq ch \<in> (\<lambda>e. center_freq ch + of_int (d + e)) ` set (seg_offsets (width c))"
    by (intro image_eqI [of _ _ "- d"]) simp_all
  then show ?thesis using wide_span [OF d assms(2,3) False assms(4)] by (simp add: chandef_freqs_def)
qed

lemma span20:
  assumes "cfg80211_chandef_valid c" "chan c = Some ch" "width20 c" "real_freq (center_freq ch)"
  shows "set (chandef_freqs c) = {center_freq ch}"
proof -
  have "center_freq1 c = center_freq ch" "cfg80211_chandef_get_width c = 20" "center_freq2 c = 0"
    using assms(1,2,3) by (auto simp: width20_def cfg80211_chandef_valid_def Let_def cfg80211_chandef_get_width_def)
  then show ?thesis using span_freqs_20_eq [OF assms(4)] by (simp add: chandef_freqs_def)
qed



text \<open>
  An 80+80 MHz and a 160 MHz definition with the same primary channels are found
  compatible, and the 160 MHz definition returned does not contain the second segment.
\<close>

theorem chandef_compatible_loses_segment:
  "cfg80211_chandef_compatible (demo_cd 5260 NL80211_CHAN_WIDTH_80P80 5290 5530)
      (demo_cd 5260 NL80211_CHAN_WIDTH_160 5250 0) = Some (demo_cd 5260 NL80211_CHAN_WIDTH_160 5250 0) \<and>
   cfg80211_chandef_valid (demo_cd 5260 NL80211_CHAN_WIDTH_80P80 5290 5530) \<and>
   cfg80211_chandef_valid (demo_cd 5260 NL80211_CHAN_WIDTH_160 5250 0) \<and>
   5500 \<in> set (chandef_freqs (demo_cd 5260 NL80211_CHAN_WIDTH_80P80 5290 5530)) \<and>
   5500 \<notin> set (chandef_freqs (demo_cd 5260 NL80211_CHAN_WIDTH_160 5250 0))"
  by code_simp

end
