(* ===== verification/Reg_Domain.thy ===== *)
theory Reg_Domain
  imports Chandef
begin

unbundle bit_operations_syntax

text \<open>
  Model of the regulatory domains of \<open>net/wireless/reg.c\<close>: rules with their frequency range, power
  limits and flags, the intersection of two domains, the lookup of the rule for a frequency, and
  what a rule does to a channel. Frequencies are in kHz as \<open>u32\<close>. A pointer to a rule of a domain is
  the index of the rule.
\<close>

section \<open>Data\<close>

record freq_range =
  start_freq_khz :: u32
  end_freq_khz :: u32
  max_bandwidth_khz :: u32

record power_rule =
  pr_max_antenna_gain :: u32
  max_eirp :: u32

record wmm_ac =
  cw_min :: u16
  cw_max :: u16
  cot :: u16
  aifsn :: u8

record wmm_rule =
  wmm_client :: "wmm_ac list"
  wmm_ap :: "wmm_ac list"

record reg_rule =
  rule_range :: freq_range
  rule_power :: power_rule
  rule_wmm :: wmm_rule
  rule_flags :: u32
  rule_dfs_cac_ms :: u32
  has_wmm :: bool

text \<open>\<open>n_reg_rules\<close> is the length of \<open>reg_rules\<close>; \<open>alpha2\<close> holds two characters.\<close>

record regdomain =
  alpha2 :: "u8 \<times> u8"
  rd_dfs_region :: nat
  reg_rules :: "reg_rule list"

definition NL80211_RRF_NO_OFDM :: u32 where "NL80211_RRF_NO_OFDM = 1"
definition NL80211_RRF_NO_OUTDOOR :: u32 where "NL80211_RRF_NO_OUTDOOR = 8"
definition NL80211_RRF_DFS :: u32 where "NL80211_RRF_DFS = 16"
definition NL80211_RRF_NO_IR :: u32 where "NL80211_RRF_NO_IR = 128"
definition NL80211_RRF_NO_IR_ALL :: u32 where "NL80211_RRF_NO_IR_ALL = 384"
definition NL80211_RRF_AUTO_BW :: u32 where "NL80211_RRF_AUTO_BW = 2048"
definition NL80211_RRF_IR_CONCURRENT :: u32 where "NL80211_RRF_IR_CONCURRENT = 4096"
definition NL80211_RRF_NO_HT40MINUS :: u32 where "NL80211_RRF_NO_HT40MINUS = 8192"
definition NL80211_RRF_NO_HT40PLUS :: u32 where "NL80211_RRF_NO_HT40PLUS = 16384"
definition NL80211_RRF_NO_80MHZ :: u32 where "NL80211_RRF_NO_80MHZ = 32768"
definition NL80211_RRF_NO_160MHZ :: u32 where "NL80211_RRF_NO_160MHZ = 65536"

definition NL80211_DFS_UNSET :: nat where "NL80211_DFS_UNSET = 0"
definition NL80211_DFS_ETSI :: nat where "NL80211_DFS_ETSI = 2"

definition MHZ_TO_KHZ :: "u32 \<Rightarrow> u32" where "MHZ_TO_KHZ f = f * 1000"

definition flag_set :: "u32 \<Rightarrow> u32 \<Rightarrow> bool" where
  "flag_set fl m \<longleftrightarrow> fl AND m \<noteq> 0"

section \<open>Country codes\<close>

text \<open>The characters are bytes; the pointers of the code are never null at the calls modelled.\<close>

definition is_world_regdom :: "u8 \<times> u8 \<Rightarrow> bool" where
  "is_world_regdom a \<longleftrightarrow> fst a = 0x30 \<and> snd a = 0x30"

definition is_alpha2_set :: "u8 \<times> u8 \<Rightarrow> bool" where
  "is_alpha2_set a \<longleftrightarrow> fst a \<noteq> 0 \<and> snd a \<noteq> 0"

definition is_unknown_alpha2 :: "u8 \<times> u8 \<Rightarrow> bool" where
  "is_unknown_alpha2 a \<longleftrightarrow> fst a = 0x39 \<and> snd a = 0x39"

definition is_intersected_alpha2 :: "u8 \<times> u8 \<Rightarrow> bool" where
  "is_intersected_alpha2 a \<longleftrightarrow> fst a = 0x39 \<and> snd a = 0x38"

definition isalpha_byte :: "u8 \<Rightarrow> bool" where
  "isalpha_byte c \<longleftrightarrow> 0x41 \<le> c \<and> c \<le> 0x5A \<or> 0x61 \<le> c \<and> c \<le> 0x7A"

definition toupper_byte :: "u8 \<Rightarrow> u8" where
  "toupper_byte c = (if 0x61 \<le> c \<and> c \<le> 0x7A then c - 0x20 else c)"

definition is_an_alpha2 :: "u8 \<times> u8 \<Rightarrow> bool" where
  "is_an_alpha2 a \<longleftrightarrow> isalpha_byte (fst a) \<and> isalpha_byte (snd a)"

definition alpha2_equal :: "u8 \<times> u8 \<Rightarrow> u8 \<times> u8 \<Rightarrow> bool" where
  "alpha2_equal a b \<longleftrightarrow> fst a = fst b \<and> snd a = snd b"

section \<open>Bandwidth of a rule\<close>

text \<open>
  The rules before the rule that it can be merged with, nearest first, and the lower end of the merged
  range; then the same upwards. Adjacent rules are merged as long as the ranges touch.
\<close>

fun merge_down :: "reg_rule list \<Rightarrow> freq_range \<Rightarrow> freq_range" where
  "merge_down [] fr = fr"
| "merge_down (r # rs) fr =
     (if end_freq_khz (rule_range r) < start_freq_khz fr then fr else merge_down rs (rule_range r))"

fun merge_up :: "reg_rule list \<Rightarrow> freq_range \<Rightarrow> freq_range" where
  "merge_up [] fr = fr"
| "merge_up (r # rs) fr =
     (if start_freq_khz (rule_range r) > end_freq_khz fr then fr else merge_up rs (rule_range r))"

definition reg_get_max_bandwidth_from_range :: "reg_rule list \<Rightarrow> nat \<Rightarrow> u32" where
  "reg_get_max_bandwidth_from_range rules idx =
     (if idx \<ge> length rules then 0
      else let fr = rule_range (rules ! idx);
               start_freq = start_freq_khz (merge_down (rev (take idx rules)) fr);
               end_freq = end_freq_khz (merge_up (drop (idx + 1) rules) fr)
           in end_freq - start_freq)"

text \<open>A rule that is not in the domain has bandwidth 0 before the limits: index past the end.\<close>

definition reg_get_max_bandwidth :: "reg_rule list \<Rightarrow> nat \<Rightarrow> reg_rule \<Rightarrow> u32" where
  "reg_get_max_bandwidth rules idx rule =
     (let fl = rule_flags rule;
          bw0 = reg_get_max_bandwidth_from_range rules idx;
          bw1 = (if flag_set fl NL80211_RRF_NO_160MHZ then min bw0 (MHZ_TO_KHZ 80) else bw0);
          bw2 = (if flag_set fl NL80211_RRF_NO_80MHZ then min bw1 (MHZ_TO_KHZ 40) else bw1)
      in if flag_set fl NL80211_RRF_NO_HT40MINUS \<and> flag_set fl NL80211_RRF_NO_HT40PLUS
         then min bw2 (MHZ_TO_KHZ 20) else bw2)"

section \<open>Validity\<close>

definition is_valid_reg_rule :: "reg_rule \<Rightarrow> bool" where
  "is_valid_reg_rule rule =
     (let fr = rule_range rule; s = start_freq_khz fr; e = end_freq_khz fr in
      if s \<le> 0 \<or> e \<le> 0 then False
      else if s > e then False
      else let freq_diff = e - s in
           if e \<le> s \<or> max_bandwidth_khz fr > freq_diff then False else True)"

definition is_valid_rd :: "regdomain \<Rightarrow> bool" where
  "is_valid_rd rd =
     (if reg_rules rd = [] then False
      else if length (reg_rules rd) > 128 then False
      else list_all is_valid_reg_rule (reg_rules rd))"

section \<open>Intersection\<close>

definition reg_intersect_dfs_region :: "nat \<Rightarrow> nat \<Rightarrow> nat" where
  "reg_intersect_dfs_region d1 d2 = (if d1 \<noteq> d2 then NL80211_DFS_UNSET else d1)"

definition reg_wmm_rules_intersect :: "wmm_ac \<Rightarrow> wmm_ac \<Rightarrow> wmm_ac" where
  "reg_wmm_rules_intersect a b =
     \<lparr>cw_min = max (cw_min a) (cw_min b), cw_max = max (cw_max a) (cw_max b),
      cot = min (cot a) (cot b), aifsn = max (aifsn a) (aifsn b)\<rparr>"

text \<open>
  \<open>wmm0\<close> is what the stack variable \<open>intersected_rule\<close> holds as WMM rule before; without WMM rules it
  stays. \<open>Inl\<close> is the error return, with the rule computed so far.
\<close>

definition reg_rules_intersect_raw ::
  "reg_rule list \<Rightarrow> reg_rule list \<Rightarrow> nat \<Rightarrow> nat \<Rightarrow> wmm_rule \<Rightarrow> reg_rule" where
  "reg_rules_intersect_raw rules1 rules2 x y wmm0 =
     (let rule1 = rules1 ! x; rule2 = rules2 ! y;
          fr1 = rule_range rule1; fr2 = rule_range rule2;
          s = max (start_freq_khz fr1) (start_freq_khz fr2);
          e = min (end_freq_khz fr1) (end_freq_khz fr2);
          bw1 = (if flag_set (rule_flags rule1) NL80211_RRF_AUTO_BW
                 then reg_get_max_bandwidth rules1 x rule1 else max_bandwidth_khz fr1);
          bw2 = (if flag_set (rule_flags rule2) NL80211_RRF_AUTO_BW
                 then reg_get_max_bandwidth rules2 y rule2 else max_bandwidth_khz fr2);
          bw = min bw1 bw2;
          fl = rule_flags rule1 OR rule_flags rule2;
          fl1 = (if flag_set (rule_flags rule1) NL80211_RRF_AUTO_BW \<and>
                    flag_set (rule_flags rule2) NL80211_RRF_AUTO_BW
                 then fl OR NL80211_RRF_AUTO_BW else fl AND NOT NL80211_RRF_AUTO_BW);
          freq_diff = e - s
      in \<lparr>rule_range = \<lparr>start_freq_khz = s, end_freq_khz = e,
            max_bandwidth_khz = (if bw > freq_diff then freq_diff else bw)\<rparr>,
          rule_power = \<lparr>pr_max_antenna_gain =
              min (pr_max_antenna_gain (rule_power rule1)) (pr_max_antenna_gain (rule_power rule2)),
            max_eirp = min (max_eirp (rule_power rule1)) (max_eirp (rule_power rule2))\<rparr>,
          rule_wmm =
            (if has_wmm rule1 \<and> has_wmm rule2
             then \<lparr>wmm_client = map2 reg_wmm_rules_intersect (wmm_client (rule_wmm rule1))
                     (wmm_client (rule_wmm rule2)),
                   wmm_ap = map2 reg_wmm_rules_intersect (wmm_ap (rule_wmm rule1))
                     (wmm_ap (rule_wmm rule2))\<rparr>
             else if has_wmm rule1 then rule_wmm rule1
             else if has_wmm rule2 then rule_wmm rule2 else wmm0),
          rule_flags = fl1,
          rule_dfs_cac_ms = max (rule_dfs_cac_ms rule1) (rule_dfs_cac_ms rule2),
          has_wmm = has_wmm rule1 \<or> has_wmm rule2\<rparr>)"

definition reg_rules_intersect ::
  "reg_rule list \<Rightarrow> reg_rule list \<Rightarrow> nat \<Rightarrow> nat \<Rightarrow> wmm_rule \<Rightarrow> bool \<times> reg_rule" where
  "reg_rules_intersect rules1 rules2 x y wmm0 =
     (let r = reg_rules_intersect_raw rules1 rules2 x y wmm0 in (is_valid_reg_rule r, r))"

definition rule_contains :: "reg_rule \<Rightarrow> reg_rule \<Rightarrow> bool" where
  "rule_contains r1 r2 =
     (if rule_flags r1 \<noteq> rule_flags r2 then False
      else if pr_max_antenna_gain (rule_power r1) > pr_max_antenna_gain (rule_power r2) \<or>
        max_eirp (rule_power r1) > max_eirp (rule_power r2) then False
      else if start_freq_khz (rule_range r1) > start_freq_khz (rule_range r2) \<or>
        end_freq_khz (rule_range r1) < end_freq_khz (rule_range r2) then False
      else \<not> max_bandwidth_khz (rule_range r1) < max_bandwidth_khz (rule_range r2))"

fun add_rule :: "reg_rule \<Rightarrow> reg_rule list \<Rightarrow> reg_rule list" where
  "add_rule rule [] = [rule]"
| "add_rule rule (t # ts) =
     (if rule_contains t rule then t # ts
      else if rule_contains rule t then rule # ts
      else t # add_rule rule ts)"

text \<open>
  The second double loop over the pairs of rules, in order, with the stack variable's WMM rule threaded
  through. Whether there is a rule at all is the count of the first double loop; \<open>kzalloc_ok\<close> is the
  outcome of the allocation.
\<close>

fun intersect_pairs ::
  "reg_rule list \<Rightarrow> reg_rule list \<Rightarrow> (nat \<times> nat) list \<Rightarrow> wmm_rule \<Rightarrow> reg_rule list \<Rightarrow> reg_rule list" where
  "intersect_pairs rules1 rules2 [] wmm0 acc = acc"
| "intersect_pairs rules1 rules2 ((x, y) # ps) wmm0 acc =
     (case reg_rules_intersect rules1 rules2 x y wmm0 of
        (ok, r) \<Rightarrow> intersect_pairs rules1 rules2 ps (rule_wmm r) (if ok then add_rule r acc else acc))"

definition pairs_of :: "nat \<Rightarrow> nat \<Rightarrow> (nat \<times> nat) list" where
  "pairs_of n m = List.product [0..<n] [0..<m]"

definition regdom_intersect :: "bool \<Rightarrow> wmm_rule \<Rightarrow> regdomain option \<Rightarrow> regdomain option \<Rightarrow> regdomain option" where
  "regdom_intersect kzalloc_ok wmm0 rd1 rd2 =
     (case (rd1, rd2) of
        (Some d1, Some d2) \<Rightarrow>
          let ps = pairs_of (length (reg_rules d1)) (length (reg_rules d2));
              num_rules = length (filter (\<lambda>(x, y).
                fst (reg_rules_intersect (reg_rules d1) (reg_rules d2) x y wmm0)) ps)
          in if num_rules = 0 then None
             else if \<not> kzalloc_ok then None
             else Some \<lparr>alpha2 = (0x39, 0x38),
                    rd_dfs_region = reg_intersect_dfs_region (rd_dfs_region d1) (rd_dfs_region d2),
                    reg_rules = intersect_pairs (reg_rules d1) (reg_rules d2) ps wmm0 []\<rparr>
      | _ \<Rightarrow> None)"

section \<open>The rule for a frequency\<close>

text \<open>\<open>abs\<close> of the port converts its argument to a signed \<open>int\<close>.\<close>

definition freq_in_rule_band :: "freq_range \<Rightarrow> u32 \<Rightarrow> bool" where
  "freq_in_rule_band fr freq_khz =
     (let limit = (if freq_khz > 45 * 1000000 then 20 * 1000000 else 2 * 1000000 :: u32) in
      \<bar>sint (freq_khz - start_freq_khz fr)\<bar> \<le> uint limit \<or>
      \<bar>sint (freq_khz - end_freq_khz fr)\<bar> \<le> uint limit)"

definition bw_fits :: "freq_range \<Rightarrow> u32 \<Rightarrow> u32 \<Rightarrow> bool" where
  "bw_fits fr center bw = cfg80211_does_bw_fit_range (start_freq_khz fr) (end_freq_khz fr) center bw"

fun freq_reg_info_loop :: "u32 \<Rightarrow> u32 \<Rightarrow> reg_rule list \<Rightarrow> nat \<Rightarrow> bool \<Rightarrow> errno + nat" where
  "freq_reg_info_loop center bw [] i found = Inl (if \<not> found then ERANGE else EINVAL)"
| "freq_reg_info_loop center bw (rr # rrs) i found =
     (let found1 = (found \<or> freq_in_rule_band (rule_range rr) center) in
      if found1 \<and> bw_fits (rule_range rr) center bw then Inr i
      else freq_reg_info_loop center bw rrs (i + 1) found1)"

definition freq_reg_info_regd :: "u32 \<Rightarrow> regdomain option \<Rightarrow> u32 \<Rightarrow> errno + nat" where
  "freq_reg_info_regd center rd bw =
     (case rd of
        None \<Rightarrow> Inl EINVAL
      | Some d \<Rightarrow> freq_reg_info_loop center bw (reg_rules d) 0 False)"

section \<open>What a rule does to a channel\<close>

definition map_regdom_flags :: "u32 \<Rightarrow> u32" where
  "map_regdom_flags rd =
     (if flag_set rd NL80211_RRF_NO_IR_ALL then IEEE80211_CHAN_NO_IR else 0) OR
     (if flag_set rd NL80211_RRF_DFS then IEEE80211_CHAN_RADAR else 0) OR
     (if flag_set rd NL80211_RRF_NO_OFDM then IEEE80211_CHAN_NO_OFDM else 0) OR
     (if flag_set rd NL80211_RRF_NO_OUTDOOR then IEEE80211_CHAN_INDOOR_ONLY else 0) OR
     (if flag_set rd NL80211_RRF_IR_CONCURRENT then IEEE80211_CHAN_IR_CONCURRENT else 0) OR
     (if flag_set rd NL80211_RRF_NO_HT40MINUS then IEEE80211_CHAN_NO_HT40MINUS else 0) OR
     (if flag_set rd NL80211_RRF_NO_HT40PLUS then IEEE80211_CHAN_NO_HT40PLUS else 0) OR
     (if flag_set rd NL80211_RRF_NO_80MHZ then IEEE80211_CHAN_NO_80MHZ else 0) OR
     (if flag_set rd NL80211_RRF_NO_160MHZ then IEEE80211_CHAN_NO_160MHZ else 0)"

definition IEEE80211_CHAN_NO_HT40 :: u32 where
  "IEEE80211_CHAN_NO_HT40 = IEEE80211_CHAN_NO_HT40PLUS OR IEEE80211_CHAN_NO_HT40MINUS"

text \<open>\<open>idx\<close> is the index of the rule in the domain, or past the end when it is of another domain.\<close>

definition reg_rule_to_chan_bw_flags :: "reg_rule list \<Rightarrow> nat \<Rightarrow> reg_rule \<Rightarrow> ieee80211_channel \<Rightarrow> u32" where
  "reg_rule_to_chan_bw_flags rules idx rule ch =
     (let fr = rule_range rule; f = MHZ_TO_KHZ (center_freq ch);
          bw = (if flag_set (rule_flags rule) NL80211_RRF_AUTO_BW
                then reg_get_max_bandwidth rules idx rule else max_bandwidth_khz fr)
      in (if \<not> bw_fits fr f (MHZ_TO_KHZ 10) then IEEE80211_CHAN_NO_10MHZ else 0) OR
         (if \<not> bw_fits fr f (MHZ_TO_KHZ 20) then IEEE80211_CHAN_NO_20MHZ else 0) OR
         (if bw < MHZ_TO_KHZ 10 then IEEE80211_CHAN_NO_10MHZ else 0) OR
         (if bw < MHZ_TO_KHZ 20 then IEEE80211_CHAN_NO_20MHZ else 0) OR
         (if bw < MHZ_TO_KHZ 40 then IEEE80211_CHAN_NO_HT40 else 0) OR
         (if bw < MHZ_TO_KHZ 80 then IEEE80211_CHAN_NO_80MHZ else 0) OR
         (if bw < MHZ_TO_KHZ 160 then IEEE80211_CHAN_NO_160MHZ else 0))"

end
