(* ===== verification/Reg_Domain_Props.thy ===== *)
theory Reg_Domain_Props
  imports Reg_Domain
begin

unbundle bit_operations_syntax

text \<open>
  The intersection of two regulatory domains: every rule of the result is at least as strict as a rule
  of each domain, and every valid intersection of two rules is contained in a rule of the result.
\<close>

section \<open>Containment\<close>

lemma rule_contains_refl [simp]: "rule_contains r r"
  by (simp add: rule_contains_def)

lemma rule_contains_trans: "rule_contains a b \<Longrightarrow> rule_contains b c \<Longrightarrow> rule_contains a c"
  unfolding rule_contains_def by (auto split: if_splits)

lemma add_rule_subset: "set (add_rule r acc) \<subseteq> insert r (set acc)"
  by (induction acc) auto

lemma add_rule_covers: "t \<in> insert r (set acc) \<Longrightarrow> \<exists>t'\<in>set (add_rule r acc). rule_contains t' t"
proof (induction acc)
  case Nil
  then show ?case by simp
next
  case (Cons a acc)
  show ?case
  proof (cases "rule_contains a r \<or> rule_contains r a")
    case True
    with Cons.prems show ?thesis by (auto intro: rule_contains_refl)
  next
    case False
    then show ?thesis using Cons by (cases "t = a") (auto intro: rule_contains_refl)
  qed
qed

section \<open>Strictness\<close>

text \<open>
  \<open>stricter r q\<close>: the range of \<open>r\<close> lies in that of \<open>q\<close>, its power limits are not above, its availability
  check is not shorter, it has every restriction flag of \<open>q\<close>, and its bandwidth is not above that of
  \<open>q\<close> unless that is computed.
\<close>

definition keeps_flags :: "u32 \<Rightarrow> u32 \<Rightarrow> bool" where
  "keeps_flags fq fr \<longleftrightarrow> fq AND NOT NL80211_RRF_AUTO_BW AND NOT fr = 0"

definition stricter :: "reg_rule \<Rightarrow> reg_rule \<Rightarrow> bool" where
  "stricter r q \<longleftrightarrow>
     start_freq_khz (rule_range q) \<le> start_freq_khz (rule_range r) \<and>
     end_freq_khz (rule_range r) \<le> end_freq_khz (rule_range q) \<and>
     max_eirp (rule_power r) \<le> max_eirp (rule_power q) \<and>
     pr_max_antenna_gain (rule_power r) \<le> pr_max_antenna_gain (rule_power q) \<and>
     rule_dfs_cac_ms q \<le> rule_dfs_cac_ms r \<and>
     keeps_flags (rule_flags q) (rule_flags r) \<and>
     (\<not> flag_set (rule_flags q) NL80211_RRF_AUTO_BW \<longrightarrow>
        max_bandwidth_khz (rule_range r) \<le> max_bandwidth_khz (rule_range q))"

lemma flags_kept:
  "keeps_flags a ((a OR b) OR NL80211_RRF_AUTO_BW)" "keeps_flags a ((a OR b) AND NOT NL80211_RRF_AUTO_BW)"
  "keeps_flags b ((a OR b) OR NL80211_RRF_AUTO_BW)" "keeps_flags b ((a OR b) AND NOT NL80211_RRF_AUTO_BW)"
  unfolding keeps_flags_def by (rule bit_eqI, auto simp: bit_and_iff bit_or_iff bit_not_iff)+

lemma raw_stricter:
  "stricter (reg_rules_intersect_raw rs1 rs2 x y w) (rs1 ! x)"
  "stricter (reg_rules_intersect_raw rs1 rs2 x y w) (rs2 ! y)"
  by (auto simp: stricter_def reg_rules_intersect_raw_def Let_def flags_kept)

text \<open>The WMM rule has no influence on validity and containment.\<close>

lemma raw_wmm:
  "is_valid_reg_rule (reg_rules_intersect_raw rs1 rs2 x y w) =
   is_valid_reg_rule (reg_rules_intersect_raw rs1 rs2 x y w')"
  "rule_contains r (reg_rules_intersect_raw rs1 rs2 x y w) =
   rule_contains r (reg_rules_intersect_raw rs1 rs2 x y w')"
  by (simp_all add: is_valid_reg_rule_def rule_contains_def reg_rules_intersect_raw_def Let_def)

section \<open>The loop over the pairs\<close>

definition from_pairs :: "reg_rule list \<Rightarrow> reg_rule list \<Rightarrow> (nat \<times> nat) set \<Rightarrow> reg_rule \<Rightarrow> bool" where
  "from_pairs rs1 rs2 P r \<longleftrightarrow>
     (\<exists>(x, y)\<in>P. \<exists>w. r = reg_rules_intersect_raw rs1 rs2 x y w \<and> is_valid_reg_rule r)"

lemma intersect_pairs_from:
  "r \<in> set (intersect_pairs rs1 rs2 ps w acc) \<Longrightarrow> r \<in> set acc \<or> from_pairs rs1 rs2 (set ps) r"
proof (induction ps arbitrary: w acc)
  case Nil
  then show ?case by simp
next
  case (Cons p ps)
  obtain x y where p: "p = (x, y)" by (cases p)
  let ?q = "reg_rules_intersect_raw rs1 rs2 x y w"
  have "r \<in> set (if is_valid_reg_rule ?q then add_rule ?q acc else acc) \<or> from_pairs rs1 rs2 (set ps) r"
    using Cons.IH Cons.prems by (simp add: p reg_rules_intersect_def Let_def)
  then show ?case
    using add_rule_subset [of ?q acc] by (auto simp: p from_pairs_def split: if_splits)
qed

lemma intersect_pairs_covers:
  "r \<in> set acc \<or> (\<exists>(x, y)\<in>set ps. r = reg_rules_intersect_raw rs1 rs2 x y w0 \<and> is_valid_reg_rule r) \<Longrightarrow>
    \<exists>t\<in>set (intersect_pairs rs1 rs2 ps w acc). rule_contains t r"
proof (induction ps arbitrary: w acc r)
  case Nil
  then show ?case by (auto intro: rule_contains_refl)
next
  case (Cons p ps)
  obtain x y where p: "p = (x, y)" by (cases p)
  let ?q = "reg_rules_intersect_raw rs1 rs2 x y w"
  let ?acc = "if is_valid_reg_rule ?q then add_rule ?q acc else acc"
  have st: "intersect_pairs rs1 rs2 (p # ps) w acc = intersect_pairs rs1 rs2 ps (rule_wmm ?q) ?acc"
    by (simp add: p reg_rules_intersect_def Let_def)
  have old: "\<exists>t\<in>set ?acc. rule_contains t s" if "s \<in> set acc" for s
    using that add_rule_covers [of s ?q acc] by (auto intro: rule_contains_refl)
  consider "r \<in> set acc" | "r = reg_rules_intersect_raw rs1 rs2 x y w0" "is_valid_reg_rule r"
    | "\<exists>(x, y)\<in>set ps. r = reg_rules_intersect_raw rs1 rs2 x y w0 \<and> is_valid_reg_rule r"
    using Cons.prems p by auto
  then show ?case
  proof cases
    case 1
    from old [OF this] obtain t where t: "t \<in> set ?acc" "rule_contains t r" by blast
    from Cons.IH [of t ?acc "rule_wmm ?q"] t(1) show ?thesis
      unfolding st using rule_contains_trans t(2) by blast
  next
    case 2
    then have v: "is_valid_reg_rule ?q" using raw_wmm(1) by blast
    then obtain t where t: "t \<in> set ?acc" "rule_contains t ?q" using add_rule_covers [of ?q ?q acc] by auto
    have tr: "rule_contains t r" using t(2) raw_wmm(2) 2(1) by blast
    from Cons.IH [of t ?acc "rule_wmm ?q"] t(1) show ?thesis
      unfolding st using rule_contains_trans tr by blast
  next
    case 3
    with Cons.IH [of r ?acc "rule_wmm ?q"] show ?thesis unfolding st by blast
  qed
qed

lemma pairs_of_set: "(x, y) \<in> set (pairs_of n m) \<longleftrightarrow> x < n \<and> y < m"
  by (simp add: pairs_of_def)

text \<open>
  Property C6: the intersection of two regulatory domains permits only what both permit, and all of it:
  each of its rules is valid and at least as strict as a rule of each domain, and whenever the
  intersection of a rule of one with a rule of the other is valid, a rule of the result contains it.
\<close>

theorem regdom_intersect_exact:
  assumes "regdom_intersect mem wmm0 (Some d1) (Some d2) = Some rd"
  shows "(\<forall>r\<in>set (reg_rules rd). is_valid_reg_rule r \<and>
      (\<exists>r1\<in>set (reg_rules d1). \<exists>r2\<in>set (reg_rules d2). stricter r r1 \<and> stricter r r2)) \<and>
    (\<forall>x<length (reg_rules d1). \<forall>y<length (reg_rules d2).
      is_valid_reg_rule (reg_rules_intersect_raw (reg_rules d1) (reg_rules d2) x y wmm0) \<longrightarrow>
      (\<exists>r\<in>set (reg_rules rd).
        rule_contains r (reg_rules_intersect_raw (reg_rules d1) (reg_rules d2) x y wmm0)))"
proof -
  let ?ps = "pairs_of (length (reg_rules d1)) (length (reg_rules d2))"
  have rd: "reg_rules rd = intersect_pairs (reg_rules d1) (reg_rules d2) ?ps wmm0 []"
    using assms by (auto simp: regdom_intersect_def Let_def split: if_splits)
  have "is_valid_reg_rule r \<and> (\<exists>r1\<in>set (reg_rules d1). \<exists>r2\<in>set (reg_rules d2). stricter r r1 \<and> stricter r r2)"
    if "r \<in> set (reg_rules rd)" for r
  proof -
    from that intersect_pairs_from [of r "reg_rules d1" "reg_rules d2" ?ps wmm0 "[]"] rd
    have "from_pairs (reg_rules d1) (reg_rules d2) (set ?ps) r" by simp
    then obtain x y w where x: "(x, y) \<in> set ?ps" "is_valid_reg_rule r"
      "r = reg_rules_intersect_raw (reg_rules d1) (reg_rules d2) x y w"
      by (auto simp: from_pairs_def)
    have "reg_rules d1 ! x \<in> set (reg_rules d1)" "reg_rules d2 ! y \<in> set (reg_rules d2)"
      using x(1) by (simp_all add: pairs_of_set)
    with x raw_stricter show ?thesis by blast
  qed
  moreover have "\<exists>r\<in>set (reg_rules rd).
        rule_contains r (reg_rules_intersect_raw (reg_rules d1) (reg_rules d2) x y wmm0)"
    if "x < length (reg_rules d1)" "y < length (reg_rules d2)"
      "is_valid_reg_rule (reg_rules_intersect_raw (reg_rules d1) (reg_rules d2) x y wmm0)" for x y
    unfolding rd by (rule intersect_pairs_covers [where w0 = wmm0]) (use that in \<open>auto simp: pairs_of_set\<close>)
  ultimately show ?thesis by blast
qed

definition demo_rule :: "u32 \<Rightarrow> u32 \<Rightarrow> u32 \<Rightarrow> u32 \<Rightarrow> u32 \<Rightarrow> reg_rule" where
  "demo_rule s e bw eirp fl =
     \<lparr>rule_range = \<lparr>start_freq_khz = s, end_freq_khz = e, max_bandwidth_khz = bw\<rparr>,
      rule_power = \<lparr>pr_max_antenna_gain = 600, max_eirp = eirp\<rparr>,
      rule_wmm = \<lparr>wmm_client = [], wmm_ap = []\<rparr>, rule_flags = fl, rule_dfs_cac_ms = 0, has_wmm = False\<rparr>"

definition demo_rd :: "reg_rule list \<Rightarrow> regdomain" where
  "demo_rd rs = \<lparr>alpha2 = (0x55, 0x53), rd_dfs_region = 1, reg_rules = rs\<rparr>"

lemma demo_intersect:
  "regdom_intersect True \<lparr>wmm_client = [], wmm_ap = []\<rparr>
     (Some (demo_rd [demo_rule 5170000 5250000 80000 2300 0]))
     (Some (demo_rd [demo_rule 5150000 5230000 40000 2000 16])) =
   Some \<lparr>alpha2 = (0x39, 0x38), rd_dfs_region = 1, reg_rules = [demo_rule 5170000 5230000 40000 2000 16]\<rparr>"
  by code_simp

theorem regdom_intersect_exact_witness:
  "stricter (demo_rule 5170000 5230000 40000 2000 16) (demo_rule 5170000 5250000 80000 2300 0)"
  using regdom_intersect_exact [OF demo_intersect] by (simp add: demo_rd_def)

end
