(* ===== verification/Reg_Channel.thy ===== *)
theory Reg_Channel
  imports Reg_Domain
begin

unbundle bit_operations_syntax

text \<open>
  Model of the part of \<open>net/wireless/reg.c\<close> that applies regulatory rules to the channels of a device:
  the update after a hint, custom domains, HT40 flags, beacon hints, and the check of the channels in
  use. The value of \<open>jiffies\<close> is the argument \<open>now\<close>. A null pointer dereference is the value \<open>None\<close>.
\<close>

section \<open>Requests and devices\<close>

datatype reg_initiator =
  NL80211_REGDOM_SET_BY_CORE | NL80211_REGDOM_SET_BY_USER | NL80211_REGDOM_SET_BY_DRIVER
| NL80211_REGDOM_SET_BY_COUNTRY_IE

datatype environment_cap = ENVIRON_ANY | ENVIRON_INDOOR | ENVIRON_OUTDOOR

text \<open>\<open>cell_base_hint\<close>: \<open>user_reg_hint_type\<close> is \<open>NL80211_USER_REG_HINT_CELL_BASE\<close>.\<close>

record regulatory_request =
  rq_wiphy_idx :: int
  rq_initiator :: reg_initiator
  cell_base_hint :: bool
  rq_alpha2 :: "u8 \<times> u8"
  rq_dfs_region :: nat
  rq_intersect :: bool
  rq_processed :: bool
  country_ie_env :: environment_cap

definition REGULATORY_CUSTOM_REG :: u32 where "REGULATORY_CUSTOM_REG = 1"
definition REGULATORY_STRICT_REG :: u32 where "REGULATORY_STRICT_REG = 2"
definition REGULATORY_DISABLE_BEACON_HINTS :: u32 where "REGULATORY_DISABLE_BEACON_HINTS = 4"
definition REGULATORY_COUNTRY_IE_FOLLOW_POWER :: u32 where "REGULATORY_COUNTRY_IE_FOLLOW_POWER = 8"
definition REGULATORY_COUNTRY_IE_IGNORE :: u32 where "REGULATORY_COUNTRY_IE_IGNORE = 16"
definition REGULATORY_IGNORE_STALE_KICKOFF :: u32 where "REGULATORY_IGNORE_STALE_KICKOFF = 64"
definition REGULATORY_WIPHY_SELF_MANAGED :: u32 where "REGULATORY_WIPHY_SELF_MANAGED = 128"

text \<open>
  The regulatory part of a wiphy and its registered device. \<open>notified\<close> counts calls of the driver's
  \<open>reg_notifier\<close> by the initiator of the request passed, \<open>None\<close> for a null request.
\<close>

record reg_wiphy =
  rw_idx :: int
  regulatory_flags :: u32
  rw_bands :: bands
  rw_regd :: "regdomain option"
  requested_regd :: "regdomain option"
  notified :: "reg_initiator option list"

record reg_beacon =
  beacon_chan :: ieee80211_channel

section \<open>Applying a rule\<close>

text \<open>
  What \<open>freq_reg_info\<close> returns: an error pointer, a null pointer, or the rule and its index. In the port
  the body of \<open>__freq_reg_info\<close> is commented out and it returns a null pointer.
\<close>

datatype rule_ptr = Rule_err errno | Rule_null | Rule_at nat reg_rule

definition freq_reg_info :: "reg_wiphy \<Rightarrow> u32 \<Rightarrow> rule_ptr" where
  "freq_reg_info w center = Rule_null"

definition power_dbm :: "u32 \<Rightarrow> int" where "power_dbm p = int (unat (p div 100))"

definition IEEE80211_DFS_MIN_CAC_TIME_MS :: u32 where "IEEE80211_DFS_MIN_CAC_TIME_MS = 60000"

text \<open>\<open>core\<close> is \<open>cfg80211_regdomain\<close>; both domains are present when the function is called.\<close>

definition reg_get_regdomain :: "regdomain \<Rightarrow> regulatory_request \<Rightarrow> reg_wiphy \<Rightarrow> regdomain" where
  "reg_get_regdomain core lr w =
     (if rq_initiator lr \<noteq> NL80211_REGDOM_SET_BY_COUNTRY_IE \<and>
         rq_initiator lr \<noteq> NL80211_REGDOM_SET_BY_USER \<and> rw_regd w \<noteq> None
      then the (rw_regd w) else core)"

definition driver_strict :: "regulatory_request \<Rightarrow> reg_wiphy \<Rightarrow> bool" where
  "driver_strict lr w \<longleftrightarrow> rq_initiator lr = NL80211_REGDOM_SET_BY_DRIVER \<and> rq_wiphy_idx lr = rw_idx w \<and>
     flag_set (regulatory_flags w) REGULATORY_STRICT_REG"

definition handle_channel ::
  "u64 \<Rightarrow> regdomain \<Rightarrow> regulatory_request \<Rightarrow> reg_wiphy \<Rightarrow> reg_initiator \<Rightarrow> rule_ptr \<Rightarrow>
   ieee80211_channel \<Rightarrow> ieee80211_channel option"
where
  "handle_channel now core lr w initiator found ch =
     (case found of
        Rule_err e \<Rightarrow>
          Some (if initiator = NL80211_REGDOM_SET_BY_COUNTRY_IE \<and> e = ERANGE then ch
            else if driver_strict lr w
            then (let fl = orig_flags ch OR IEEE80211_CHAN_DISABLED in ch\<lparr>orig_flags := fl, chan_flags := fl\<rparr>)
            else ch\<lparr>chan_flags := chan_flags ch OR IEEE80211_CHAN_DISABLED\<rparr>)
      | Rule_null \<Rightarrow> None
      | Rule_at idx rule \<Rightarrow>
          let bw_flags = reg_rule_to_chan_bw_flags (reg_rules (reg_get_regdomain core lr w)) idx rule ch;
              gain = power_dbm (pr_max_antenna_gain (rule_power rule));
              eirp = power_dbm (max_eirp (rule_power rule));
              cac = (if rule_dfs_cac_ms rule \<noteq> 0 then rule_dfs_cac_ms rule
                     else IEEE80211_DFS_MIN_CAC_TIME_MS);
              rf = map_regdom_flags (rule_flags rule)
          in Some (if driver_strict lr w
             then (let fl = rf OR bw_flags;
                       c1 = ch\<lparr>chan_flags := fl, orig_flags := fl, max_antenna_gain := gain,
                               orig_mag := gain, max_reg_power := eirp, max_power := eirp,
                               orig_mpwr := eirp\<rparr>
                   in if is_radar c1 then c1\<lparr>dfs_cac_ms := cac\<rparr> else c1)
             else (let c1 = ch\<lparr>dfs_state := NL80211_DFS_USABLE, dfs_state_entered := now,
                               beacon_found := False, chan_flags := orig_flags ch OR bw_flags OR rf,
                               max_antenna_gain := min (orig_mag ch) gain, max_reg_power := eirp\<rparr>;
                       c2 = (if is_radar c1 then c1\<lparr>dfs_cac_ms := cac\<rparr> else c1)
                   in c2\<lparr>max_power :=
                        (if orig_mpwr c2 \<noteq> 0
                         then (if initiator = NL80211_REGDOM_SET_BY_COUNTRY_IE \<and>
                                  flag_set (regulatory_flags w) REGULATORY_COUNTRY_IE_FOLLOW_POWER
                               then eirp else min (orig_mpwr c2) eirp)
                         else eirp)\<rparr>)))"

fun opt_map :: "('a \<Rightarrow> 'b option) \<Rightarrow> 'a list \<Rightarrow> 'b list option" where
  "opt_map f [] = Some []"
| "opt_map f (x # xs) =
     (case f x of None \<Rightarrow> None | Some y \<Rightarrow> map_option (\<lambda>ys. y # ys) (opt_map f xs))"

definition handle_band ::
  "u64 \<Rightarrow> regdomain \<Rightarrow> regulatory_request \<Rightarrow> reg_wiphy \<Rightarrow> reg_initiator \<Rightarrow>
   ieee80211_supported_band option \<Rightarrow> ieee80211_supported_band option option"
where
  "handle_band now core lr w initiator sband =
     (case sband of
        None \<Rightarrow> Some None
      | Some sb \<Rightarrow>
          map_option (\<lambda>cs. Some (sb\<lparr>channels := cs\<rparr>))
            (opt_map (\<lambda>c. handle_channel now core lr w initiator
               (freq_reg_info w (MHZ_TO_KHZ (center_freq c))) c) (channels sb)))"

text \<open>
  The bandwidths tried by \<open>handle_channel_custom\<close>: 20 MHz and its halves down to \<open>min_bw\<close>. The callers
  pass 20 MHz; the test for 0 only matters for \<open>min_bw = 0\<close>, where the loop of the code would not end.
\<close>

function custom_rule :: "u32 \<Rightarrow> regdomain option \<Rightarrow> u32 \<Rightarrow> u32 \<Rightarrow> nat option" where
  "custom_rule center rd min_bw bw =
     (if bw \<ge> min_bw \<and> bw \<noteq> 0
      then (case freq_reg_info_regd center rd bw of
              Inr i \<Rightarrow> Some i
            | Inl e \<Rightarrow> custom_rule center rd min_bw (bw div 2))
      else None)"
  by pat_completeness auto
termination
proof (relation "measure (\<lambda>(c, rd, m, bw). unat bw)")
  fix center rd and min_bw bw :: u32
  assume "min_bw \<le> bw \<and> bw \<noteq> 0"
  then have "0 < unat bw" by (simp add: unat_gt_0)
  then show "((center, rd, min_bw, bw div 2), center, rd, min_bw, bw) \<in> measure (\<lambda>(c, rd, m, bw). unat bw)"
    by (simp add: unat_div)
qed simp

declare custom_rule.simps [simp del]

definition handle_channel_custom ::
  "u64 \<Rightarrow> u32 \<Rightarrow> regdomain \<Rightarrow> u32 \<Rightarrow> ieee80211_channel \<Rightarrow> ieee80211_channel"
where
  "handle_channel_custom now flags rd min_bw ch =
     (case custom_rule (MHZ_TO_KHZ (center_freq ch)) (Some rd) min_bw (MHZ_TO_KHZ 20) of
        None \<Rightarrow>
          (if flag_set flags REGULATORY_WIPHY_SELF_MANAGED
           then ch\<lparr>chan_flags := chan_flags ch OR IEEE80211_CHAN_DISABLED\<rparr>
           else (let fl = orig_flags ch OR IEEE80211_CHAN_DISABLED in ch\<lparr>orig_flags := fl, chan_flags := fl\<rparr>))
      | Some idx \<Rightarrow>
          let rule = reg_rules rd ! idx;
              bw_flags = reg_rule_to_chan_bw_flags (reg_rules rd) idx rule ch;
              rf = map_regdom_flags (rule_flags rule);
              eirp = power_dbm (max_eirp (rule_power rule));
              c1 = ch\<lparr>dfs_state_entered := now, dfs_state := NL80211_DFS_USABLE, beacon_found := False,
                     chan_flags := (if flag_set flags REGULATORY_WIPHY_SELF_MANAGED
                        then orig_flags ch OR bw_flags OR rf else chan_flags ch OR (rf OR bw_flags)),
                     max_antenna_gain := power_dbm (pr_max_antenna_gain (rule_power rule)),
                     max_reg_power := eirp, max_power := eirp\<rparr>;
              c2 = (if is_radar c1
                    then c1\<lparr>dfs_cac_ms := (if rule_dfs_cac_ms rule \<noteq> 0 then rule_dfs_cac_ms rule
                      else IEEE80211_DFS_MIN_CAC_TIME_MS)\<rparr>
                    else c1)
          in c2\<lparr>max_power := max_reg_power c2\<rparr>)"

definition handle_band_custom ::
  "u64 \<Rightarrow> u32 \<Rightarrow> regdomain \<Rightarrow> ieee80211_supported_band option \<Rightarrow> ieee80211_supported_band option"
where
  "handle_band_custom now flags rd sband =
     map_option (\<lambda>sb. sb\<lparr>channels :=
       map (handle_channel_custom now flags rd (MHZ_TO_KHZ 20)) (channels sb)\<rparr>) sband"

definition wiphy_apply_custom_regulatory :: "u64 \<Rightarrow> regdomain \<Rightarrow> reg_wiphy \<Rightarrow> reg_wiphy" where
  "wiphy_apply_custom_regulatory now rd w =
     (let w1 = w\<lparr>regulatory_flags := regulatory_flags w OR REGULATORY_CUSTOM_REG\<rparr>
      in w1\<lparr>rw_bands := \<lambda>b. handle_band_custom now (regulatory_flags w1) rd (rw_bands w1 b)\<rparr>)"

definition restore_custom_reg_settings :: "reg_wiphy \<Rightarrow> reg_wiphy" where
  "restore_custom_reg_settings w =
     w\<lparr>rw_bands := \<lambda>b. map_option (\<lambda>sb. sb\<lparr>channels :=
        map (\<lambda>c. c\<lparr>chan_flags := orig_flags c, max_antenna_gain := orig_mag c, max_power := orig_mpwr c,
                  beacon_found := False\<rparr>) (channels sb)\<rparr>) (rw_bands w b)\<rparr>"

section \<open>HT40 flags\<close>

definition is_ht40_allowed :: "ieee80211_channel option \<Rightarrow> bool" where
  "is_ht40_allowed c =
     (case c of
        None \<Rightarrow> False
      | Some ch \<Rightarrow>
          if is_disabled ch then False
          else \<not> chan_flags ch AND IEEE80211_CHAN_NO_HT40 = IEEE80211_CHAN_NO_HT40)"

text \<open>The loop over the channels keeps the last one with the frequency.\<close>

definition last_channel :: "ieee80211_channel list \<Rightarrow> u32 \<Rightarrow> ieee80211_channel option" where
  "last_channel cs f = find (\<lambda>c. center_freq c = f) (rev cs)"

definition set_flag :: "bool \<Rightarrow> u32 \<Rightarrow> u32 \<Rightarrow> u32" where
  "set_flag b m fl = (if b then fl OR m else fl AND NOT m)"

definition reg_process_ht_flags_channel ::
  "regdomain option \<Rightarrow> ieee80211_channel list \<Rightarrow> ieee80211_channel \<Rightarrow> ieee80211_channel"
where
  "reg_process_ht_flags_channel rd cs ch =
     (if \<not> is_ht40_allowed (Some ch)
      then ch\<lparr>chan_flags := chan_flags ch OR IEEE80211_CHAN_NO_HT40\<rparr>
      else let before = last_channel cs (center_freq ch - 20);
               aft = last_channel cs (center_freq ch + 20);
               fl = (case rd of
                       None \<Rightarrow> 0
                     | Some d \<Rightarrow>
                         (case freq_reg_info_regd (MHZ_TO_KHZ (center_freq ch)) rd (MHZ_TO_KHZ 20) of
                            Inl e \<Rightarrow> 0
                          | Inr i \<Rightarrow> rule_flags (reg_rules d ! i)));
               f1 = set_flag (\<not> is_ht40_allowed before \<or> flag_set fl NL80211_RRF_NO_HT40MINUS)
                      IEEE80211_CHAN_NO_HT40MINUS (chan_flags ch);
               f2 = set_flag (\<not> is_ht40_allowed aft \<or> flag_set fl NL80211_RRF_NO_HT40PLUS)
                      IEEE80211_CHAN_NO_HT40PLUS f1
           in ch\<lparr>chan_flags := f2\<rparr>)"

text \<open>The channels of a band are changed in place, one after the other.\<close>

fun ht_flags_loop :: "regdomain option \<Rightarrow> nat list \<Rightarrow> ieee80211_channel list \<Rightarrow> ieee80211_channel list" where
  "ht_flags_loop rd [] cs = cs"
| "ht_flags_loop rd (i # is) cs =
     ht_flags_loop rd is (cs[i := reg_process_ht_flags_channel rd cs (cs ! i)])"

definition reg_process_ht_flags_band ::
  "regdomain option \<Rightarrow> ieee80211_supported_band \<Rightarrow> ieee80211_supported_band"
where
  "reg_process_ht_flags_band rd sb =
     sb\<lparr>channels := ht_flags_loop rd [0..<length (channels sb)] (channels sb)\<rparr>"

definition reg_process_ht_flags :: "reg_wiphy \<Rightarrow> reg_wiphy" where
  "reg_process_ht_flags w =
     w\<lparr>rw_bands := \<lambda>b. map_option (reg_process_ht_flags_band (rw_regd w)) (rw_bands w b)\<rparr>"

section \<open>Beacon hints\<close>

definition reg_is_world_roaming :: "regdomain \<Rightarrow> regulatory_request option \<Rightarrow> reg_wiphy \<Rightarrow> bool" where
  "reg_is_world_roaming core lr w =
     (if is_world_regdom (alpha2 core) \<or> (case rw_regd w of None \<Rightarrow> False | Some wr \<Rightarrow> is_world_regdom (alpha2 wr)) then True
      else if (case lr of None \<Rightarrow> False | Some r \<Rightarrow> rq_initiator r \<noteq> NL80211_REGDOM_SET_BY_COUNTRY_IE) \<and>
        flag_set (regulatory_flags w) REGULATORY_CUSTOM_REG then True
      else False)"

definition handle_reg_beacon ::
  "regdomain \<Rightarrow> regulatory_request option \<Rightarrow> reg_wiphy \<Rightarrow> reg_beacon \<Rightarrow> ieee80211_channel \<Rightarrow> ieee80211_channel"
where
  "handle_reg_beacon core lr w b ch =
     (if center_freq ch \<noteq> center_freq (beacon_chan b) then ch
      else if beacon_found ch then ch
      else let c1 = ch\<lparr>beacon_found := True\<rparr> in
           if \<not> reg_is_world_roaming core lr w then c1
           else if flag_set (regulatory_flags w) REGULATORY_DISABLE_BEACON_HINTS then c1
           else c1\<lparr>chan_flags := chan_flags c1 AND NOT IEEE80211_CHAN_NO_IR\<rparr>)"

definition wiphy_update_new_beacon ::
  "regdomain \<Rightarrow> regulatory_request option \<Rightarrow> reg_beacon \<Rightarrow> reg_wiphy \<Rightarrow> reg_wiphy"
where
  "wiphy_update_new_beacon core lr b w =
     w\<lparr>rw_bands := (rw_bands w)(chan_band (beacon_chan b) :=
        map_option (\<lambda>sb. sb\<lparr>channels := map (handle_reg_beacon core lr w b) (channels sb)\<rparr>)
          (rw_bands w (chan_band (beacon_chan b))))\<rparr>"

definition wiphy_update_beacon_reg ::
  "regdomain \<Rightarrow> regulatory_request option \<Rightarrow> reg_beacon list \<Rightarrow> reg_wiphy \<Rightarrow> reg_wiphy"
where
  "wiphy_update_beacon_reg core lr bl w = fold (wiphy_update_new_beacon core lr) bl w"

definition reg_process_beacons ::
  "regdomain \<Rightarrow> regulatory_request option \<Rightarrow> reg_beacon list \<Rightarrow> reg_wiphy \<Rightarrow> reg_wiphy"
where
  "reg_process_beacons core lr bl w = (if lr = None then w else wiphy_update_beacon_reg core lr bl w)"

section \<open>Updating a device\<close>

definition reg_request_cell_base :: "regulatory_request \<Rightarrow> bool" where
  "reg_request_cell_base r = (if rq_initiator r \<noteq> NL80211_REGDOM_SET_BY_USER then False else cell_base_hint r)"

text \<open>The port is built without \<open>CONFIG_CFG80211_REG_CELLULAR_HINTS\<close>.\<close>

definition reg_dev_ignore_cell_hint :: "reg_wiphy \<Rightarrow> bool" where
  "reg_dev_ignore_cell_hint w = True"

definition wiphy_strict_alpha2_regd :: "reg_wiphy \<Rightarrow> bool" where
  "wiphy_strict_alpha2_regd w \<longleftrightarrow> flag_set (regulatory_flags w) REGULATORY_STRICT_REG \<and>
     \<not> flag_set (regulatory_flags w) REGULATORY_CUSTOM_REG"

definition ignore_reg_update :: "regulatory_request option \<Rightarrow> reg_wiphy \<Rightarrow> reg_initiator \<Rightarrow> bool" where
  "ignore_reg_update lr w initiator =
     (if flag_set (regulatory_flags w) REGULATORY_WIPHY_SELF_MANAGED then True
      else case lr of
        None \<Rightarrow> True
      | Some r \<Rightarrow>
          if initiator = NL80211_REGDOM_SET_BY_CORE \<and> flag_set (regulatory_flags w) REGULATORY_CUSTOM_REG
          then True
          else if wiphy_strict_alpha2_regd w \<and> rw_regd w = None \<and>
            initiator \<noteq> NL80211_REGDOM_SET_BY_COUNTRY_IE \<and> \<not> is_world_regdom (rq_alpha2 r) then True
          else if reg_request_cell_base r then reg_dev_ignore_cell_hint w
          else False)"

definition reg_call_notifier :: "regulatory_request option \<Rightarrow> reg_wiphy \<Rightarrow> reg_wiphy" where
  "reg_call_notifier r w = w\<lparr>notified := notified w @ [map_option rq_initiator r]\<rparr>"

definition bands_opt ::
  "(ieee80211_supported_band option \<Rightarrow> ieee80211_supported_band option option) \<Rightarrow> bands \<Rightarrow> bands option"
where
  "bands_opt f bs =
     (case (f (bs NL80211_BAND_2GHZ), f (bs NL80211_BAND_5GHZ), f (bs NL80211_BAND_60GHZ),
            f (bs NL80211_BAND_6GHZ)) of
        (Some a, Some b, Some c, Some d) \<Rightarrow>
          Some (\<lambda>x. case x of NL80211_BAND_2GHZ \<Rightarrow> a | NL80211_BAND_5GHZ \<Rightarrow> b
            | NL80211_BAND_60GHZ \<Rightarrow> c | NL80211_BAND_6GHZ \<Rightarrow> d)
      | _ \<Rightarrow> None)"

text \<open>The result is the last request with its DFS region set and the device.\<close>

definition wiphy_update_regulatory ::
  "u64 \<Rightarrow> regdomain \<Rightarrow> regulatory_request option \<Rightarrow> reg_beacon list \<Rightarrow> reg_initiator \<Rightarrow> reg_wiphy \<Rightarrow>
   (regulatory_request option \<times> reg_wiphy) option"
where
  "wiphy_update_regulatory now core lr bl initiator w =
     (if ignore_reg_update lr w initiator
      then Some (lr,
        if initiator = NL80211_REGDOM_SET_BY_CORE \<and> flag_set (regulatory_flags w) REGULATORY_CUSTOM_REG \<and>
          \<not> flag_set (regulatory_flags w) REGULATORY_WIPHY_SELF_MANAGED
        then reg_call_notifier lr w else w)
      else let r = (the lr)\<lparr>rq_dfs_region := rd_dfs_region core\<rparr> in
        case bands_opt (handle_band now core r w initiator) (rw_bands w) of
          None \<Rightarrow> None
        | Some bs \<Rightarrow>
            Some (Some r, reg_call_notifier (Some r) (reg_process_ht_flags
              (reg_process_beacons core (Some r) bl (w\<lparr>rw_bands := bs\<rparr>)))))"

section \<open>Channels in use\<close>

text \<open>
  \<open>op_get_channel\<close> is the result of the driver's \<open>get_channel\<close>, \<open>None\<close> when there is no such operation
  or it fails.
\<close>

definition reg_wdev_chan_valid ::
  "bool \<Rightarrow> wiphy \<Rightarrow> (wireless_dev \<Rightarrow> cfg80211_chan_def option) \<Rightarrow> wireless_dev \<Rightarrow> bool"
where
  "reg_wdev_chan_valid indoor w op_get_channel wdev =
     (if netdev_running wdev \<noteq> Some True then True
      else case wd_iftype wdev of
        NL80211_IFTYPE_AP \<Rightarrow>
          (if beacon_interval wdev = 0 then True
           else cfg80211_reg_can_beacon_relax indoor w (wd_chandef wdev) NL80211_IFTYPE_AP)
      | NL80211_IFTYPE_P2P_GO \<Rightarrow>
          (if beacon_interval wdev = 0 then True
           else cfg80211_reg_can_beacon_relax indoor w (wd_chandef wdev) NL80211_IFTYPE_P2P_GO)
      | NL80211_IFTYPE_ADHOC \<Rightarrow>
          (if ssid_len wdev = 0 then True
           else cfg80211_reg_can_beacon_relax indoor w (wd_chandef wdev) NL80211_IFTYPE_ADHOC)
      | t \<Rightarrow>
          if t = NL80211_IFTYPE_STATION \<or> t = NL80211_IFTYPE_P2P_CLIENT
          then (case bss_channel wdev of
                  None \<Rightarrow> True
                | Some ch \<Rightarrow>
                    cfg80211_chandef_usable (w_bands w)
                      (case op_get_channel wdev of
                         None \<Rightarrow> cfg80211_chandef_create ch NL80211_CHAN_NO_HT
                       | Some cd \<Rightarrow> cd)
                      IEEE80211_CHAN_DISABLED)
          else True)"

text \<open>The interfaces \<open>cfg80211_leave\<close> is called for.\<close>

definition reg_leave_invalid_chans ::
  "bool \<Rightarrow> wiphy \<Rightarrow> (wireless_dev \<Rightarrow> cfg80211_chan_def option) \<Rightarrow> wireless_dev list"
where
  "reg_leave_invalid_chans indoor w op_get_channel =
     filter (\<lambda>wdev. \<not> reg_wdev_chan_valid indoor w op_get_channel wdev) (wdev_list w)"

definition regulatory_pre_cac_allowed :: "regdomain \<Rightarrow> reg_wiphy \<Rightarrow> bool" where
  "regulatory_pre_cac_allowed core w =
     (case rw_regd w of
        None \<Rightarrow> rd_dfs_region core = NL80211_DFS_ETSI
      | Some d \<Rightarrow> rd_dfs_region core = rd_dfs_region d \<and> rd_dfs_region d = NL80211_DFS_ETSI)"

definition reg_get_dfs_region :: "regdomain \<Rightarrow> reg_wiphy option \<Rightarrow> nat" where
  "reg_get_dfs_region core w = rd_dfs_region core"

end
