(* ===== verification/Reg_Channel_Props.thy ===== *)
theory Reg_Channel_Props
  imports Reg_Channel Reg_Domain_Props Chandef_Props
begin

unbundle bit_operations_syntax

text \<open>
  What the regulatory update does to channels: under a custom domain an enabled channel is covered by a
  rule whose restrictions it has, the HT40 flags only leave directions that exist, and the update of a
  device without a custom domain dereferences a null pointer.
\<close>

section \<open>Custom domains\<close>

lemma freq_reg_info_loop_fits:
  "freq_reg_info_loop center bw rrs k found = Inr i \<Longrightarrow>
    k \<le> i \<and> i < k + length rrs \<and> bw_fits (rule_range (rrs ! (i - k))) center bw"
proof (induction rrs arbitrary: k found)
  case Nil
  then show ?case by simp
next
  case (Cons rr rrs)
  show ?case
  proof (cases "freq_reg_info_loop center bw (rr # rrs) k found = freq_reg_info_loop center bw rrs (k + 1)
      (found \<or> freq_in_rule_band (rule_range rr) center)")
    case True
    with Cons.IH [of "k + 1" "found \<or> freq_in_rule_band (rule_range rr) center"] Cons.prems
    show ?thesis by (auto simp: nth_Cons' Suc_le_eq)
  next
    case False
    with Cons.prems show ?thesis by (auto simp: Let_def split: if_splits)
  qed
qed

lemma custom_rule_fits:
  assumes "custom_rule center (Some rd) bw bw = Some i" "0 < bw"
  shows "i < length (reg_rules rd) \<and> bw_fits (rule_range (reg_rules rd ! i)) center bw"
proof -
  have lt: "\<not> bw \<le> bw div 2"
    using assms(2) by (simp add: word_le_nat_alt unat_div word_less_nat_alt)
  have "custom_rule center (Some rd) bw (bw div 2) = None"
    by (subst custom_rule.simps) (simp add: lt)
  then have "freq_reg_info_regd center (Some rd) bw = Inr i"
    using assms(1) by (subst (asm) custom_rule.simps) (auto split: if_splits sum.splits)
  then show ?thesis
    using freq_reg_info_loop_fits [of center bw "reg_rules rd" 0 False i]
    by (simp add: freq_reg_info_regd_def)
qed

text \<open>The restrictions of a rule on a channel.\<close>

definition flags_incl :: "u32 \<Rightarrow> u32 \<Rightarrow> bool" where
  "flags_incl m fl \<longleftrightarrow> m AND NOT fl = 0"

definition obeys :: "reg_rule \<Rightarrow> ieee80211_channel \<Rightarrow> bool" where
  "obeys rule c \<longleftrightarrow>
     bw_fits (rule_range rule) (MHZ_TO_KHZ (center_freq c)) (MHZ_TO_KHZ 20) \<and>
     flags_incl (map_regdom_flags (rule_flags rule)) (chan_flags c) \<and>
     max_power c = power_dbm (max_eirp (rule_power rule)) \<and>
     max_antenna_gain c = power_dbm (pr_max_antenna_gain (rule_power rule)) \<and>
     dfs_state c = NL80211_DFS_USABLE \<and>
     (is_radar c \<longrightarrow> dfs_cac_ms c \<noteq> 0)"

lemma flags_incl_or:
  "flags_incl a (b OR (c OR a))" "flags_incl a (b OR (a OR c))"
  unfolding flags_incl_def by (rule bit_eqI, auto simp: bit_and_iff bit_or_iff bit_not_iff)+

lemma or_disabled: "is_disabled (c\<lparr>chan_flags := x OR IEEE80211_CHAN_DISABLED\<rparr>)"
proof -
  have "bit ((x OR IEEE80211_CHAN_DISABLED) AND IEEE80211_CHAN_DISABLED) 0"
    by (simp add: bit_and_iff bit_or_iff IEEE80211_CHAN_DISABLED_def)
  then show ?thesis by (auto simp: is_disabled_def simp del: bit_0)
qed

lemma handle_channel_custom_sound:
  fixes j fl rd c
  defines "c' \<equiv> handle_channel_custom j fl rd (MHZ_TO_KHZ 20) c"
  shows "is_disabled c' \<or> (\<exists>rule\<in>set (reg_rules rd). obeys rule c')"
proof (cases "custom_rule (MHZ_TO_KHZ (center_freq c)) (Some rd) (MHZ_TO_KHZ 20) (MHZ_TO_KHZ 20)")
  case None
  then have "is_disabled c'"
    using or_disabled by (auto simp: c'_def handle_channel_custom_def Let_def is_disabled_def)
  then show ?thesis ..
next
  case (Some i)
  have fits: "i < length (reg_rules rd)"
    "bw_fits (rule_range (reg_rules rd ! i)) (MHZ_TO_KHZ (center_freq c)) (MHZ_TO_KHZ 20)"
    using custom_rule_fits [OF Some] by (simp_all add: MHZ_TO_KHZ_def)
  have "obeys (reg_rules rd ! i) c'"
    using Some fits(2)
    by (auto simp: c'_def handle_channel_custom_def Let_def obeys_def flags_incl_or or.assoc
        is_radar_def IEEE80211_DFS_MIN_CAC_TIME_MS_def)
  then show ?thesis using fits(1) nth_mem by blast
qed

text \<open>
  After \<open>wiphy_apply_custom_regulatory\<close> every channel of the device is disabled or lies, with
  its 20 MHz, in a rule of the domain whose restriction flags and power limits it has.
\<close>

theorem custom_regulatory_sound:
  assumes "rw_bands (wiphy_apply_custom_regulatory j rd w) b = Some sb" "c \<in> set (channels sb)"
  shows "is_disabled c \<or> (\<exists>rule\<in>set (reg_rules rd). obeys rule c)"
proof -
  obtain fl x where "c = handle_channel_custom j fl rd (MHZ_TO_KHZ 20) x"
    using assms by (auto simp: wiphy_apply_custom_regulatory_def handle_band_custom_def Let_def)
  then show ?thesis using handle_channel_custom_sound by blast
qed

definition demo_rw :: "u32 \<Rightarrow> ieee80211_channel list \<Rightarrow> reg_wiphy" where
  "demo_rw fl cs = \<lparr>rw_idx = 0, regulatory_flags = fl, rw_bands = demo_bands cs, rw_regd = None,
     requested_regd = None, notified = []\<rparr>"

theorem custom_regulatory_sound_witness:
  "\<exists>sb. rw_bands (wiphy_apply_custom_regulatory 5 (demo_rd [demo_rule 5170000 5250000 80000 2300 0])
      (demo_rw 0 [demo_channel 5180 0 NL80211_DFS_USABLE])) NL80211_BAND_5GHZ = Some sb \<and>
    (\<forall>c\<in>set (channels sb). is_disabled c \<or> obeys (demo_rule 5170000 5250000 80000 2300 0) c)"
proof -
  let ?w = "wiphy_apply_custom_regulatory 5 (demo_rd [demo_rule 5170000 5250000 80000 2300 0])
      (demo_rw 0 [demo_channel 5180 0 NL80211_DFS_USABLE])"
  obtain sb where sb: "rw_bands ?w NL80211_BAND_5GHZ = Some sb"
    by (simp add: wiphy_apply_custom_regulatory_def handle_band_custom_def Let_def demo_rw_def demo_bands_def)
  from custom_regulatory_sound [OF sb] sb show ?thesis by (auto simp: demo_rd_def)
qed

section \<open>HT40 flags\<close>

definition view :: "ieee80211_channel list \<Rightarrow> (u32 \<times> bool) list" where
  "view cs = map (\<lambda>c. (center_freq c, is_disabled c)) cs"

text \<open>What the flags of a channel promise about the channels 20 MHz away.\<close>

definition ht40_ok :: "(u32 \<times> bool) set \<Rightarrow> ieee80211_channel \<Rightarrow> bool" where
  "ht40_ok V c \<longleftrightarrow>
     (chan_flags c AND IEEE80211_CHAN_NO_HT40MINUS = 0 \<longrightarrow> (center_freq c - 20, False) \<in> V) \<and>
     (chan_flags c AND IEEE80211_CHAN_NO_HT40PLUS = 0 \<longrightarrow> (center_freq c + 20, False) \<in> V)"

lemma find_SomeD: "find P xs = Some x \<Longrightarrow> x \<in> set xs \<and> P x"
  by (induction xs) (auto split: if_splits)

lemma last_channel_allowed:
  assumes "is_ht40_allowed (last_channel cs f)"
  shows "(f, False) \<in> set (view cs)"
proof -
  from assms obtain c where c: "last_channel cs f = Some c" "\<not> is_disabled c"
    by (auto simp: is_ht40_allowed_def split: option.splits if_splits)
  from find_SomeD [OF c(1) [unfolded last_channel_def]] have "c \<in> set cs" "center_freq c = f" by simp_all
  with c(2) show ?thesis by (auto simp: view_def)
qed

lemma bit_flags:
  "bit IEEE80211_CHAN_NO_HT40MINUS n = (n = 5)" "bit IEEE80211_CHAN_NO_HT40PLUS n = (n = 4)"
  "bit IEEE80211_CHAN_DISABLED n = (n = 0)"
proof -
  have e: "IEEE80211_CHAN_NO_HT40MINUS = 2 ^ 5" "IEEE80211_CHAN_NO_HT40PLUS = 2 ^ 4"
    "IEEE80211_CHAN_DISABLED = 2 ^ 0"
    by (simp_all add: IEEE80211_CHAN_NO_HT40MINUS_def IEEE80211_CHAN_NO_HT40PLUS_def IEEE80211_CHAN_DISABLED_def)
  show "bit IEEE80211_CHAN_NO_HT40MINUS n = (n = 5)" "bit IEEE80211_CHAN_NO_HT40PLUS n = (n = 4)"
    "bit IEEE80211_CHAN_DISABLED n = (n = 0)"
    unfolding e bit_exp_iff by auto
qed

lemma and_flag_bit:
  "x AND IEEE80211_CHAN_NO_HT40MINUS = 0 \<longleftrightarrow> \<not> bit x 5"
  "x AND IEEE80211_CHAN_NO_HT40PLUS = 0 \<longleftrightarrow> \<not> bit x 4"
  "x AND IEEE80211_CHAN_DISABLED = 0 \<longleftrightarrow> \<not> bit x 0" for x :: u32
proof -
  have "(x AND m = 0) = (\<not> bit x k)" if "\<And>n. bit m n = (n = k)" "k < 32" for m k
  proof
    assume "x AND m = 0"
    then have "\<not> bit (x AND m) k" by simp
    then show "\<not> bit x k" using that by (simp add: bit_and_iff)
  next
    assume "\<not> bit x k"
    then show "x AND m = 0" by (intro bit_eqI) (auto simp: bit_and_iff that(1))
  qed
  from this [OF bit_flags(1)] this [OF bit_flags(2)] this [OF bit_flags(3)]
  show "x AND IEEE80211_CHAN_NO_HT40MINUS = 0 \<longleftrightarrow> \<not> bit x 5"
    "x AND IEEE80211_CHAN_NO_HT40PLUS = 0 \<longleftrightarrow> \<not> bit x 4"
    "x AND IEEE80211_CHAN_DISABLED = 0 \<longleftrightarrow> \<not> bit x 0" by simp_all
qed

lemma bit_set_flag:
  "k < 32 \<Longrightarrow> bit (set_flag b m x) k = (if bit m k then b else bit x k)"
  by (auto simp: set_flag_def bit_or_iff bit_and_iff bit_not_iff)

lemma ht_channel:
  fixes rd cs ch
  defines "c \<equiv> reg_process_ht_flags_channel rd cs ch"
  shows "center_freq c = center_freq ch" "is_disabled c = is_disabled ch" "ht40_ok (set (view cs)) c"
proof -
  show f: "center_freq c = center_freq ch"
    by (simp add: c_def reg_process_ht_flags_channel_def Let_def)
  show "is_disabled c = is_disabled ch"
    by (simp add: c_def reg_process_ht_flags_channel_def Let_def is_disabled_def and_flag_bit
        bit_set_flag bit_flags bit_or_iff IEEE80211_CHAN_NO_HT40_def)
  show "ht40_ok (set (view cs)) c"
    using last_channel_allowed [of cs "center_freq ch - 20"] last_channel_allowed [of cs "center_freq ch + 20"]
    unfolding ht40_ok_def f
    by (auto simp: c_def reg_process_ht_flags_channel_def Let_def and_flag_bit bit_set_flag bit_flags
        bit_or_iff IEEE80211_CHAN_NO_HT40_def)
qed

lemma ht_loop:
  "distinct is \<Longrightarrow> \<forall>i\<in>set is. i < length cs \<Longrightarrow>
    view (ht_flags_loop rd is cs) = view cs \<and>
    (\<forall>i<length cs. i \<notin> set is \<longrightarrow> ht_flags_loop rd is cs ! i = cs ! i) \<and>
    (\<forall>i\<in>set is. ht40_ok (set (view cs)) (ht_flags_loop rd is cs ! i))"
proof (induction "is" arbitrary: cs)
  case Nil
  then show ?case by simp
next
  case (Cons k ks)
  let ?c = "reg_process_ht_flags_channel rd cs (cs ! k)"
  let ?cs = "cs[k := ?c]"
  have k: "k < length cs" using Cons.prems by simp
  have v: "view ?cs = view cs"
    using k ht_channel(1,2) [of rd cs "cs ! k"] by (simp add: view_def map_update list_update_same_conv)
  have IH: "view (ht_flags_loop rd ks ?cs) = view ?cs"
    "\<forall>i<length ?cs. i \<notin> set ks \<longrightarrow> ht_flags_loop rd ks ?cs ! i = ?cs ! i"
    "\<forall>i\<in>set ks. ht40_ok (set (view ?cs)) (ht_flags_loop rd ks ?cs ! i)"
    using Cons.IH [of ?cs] Cons.prems by auto
  have "ht_flags_loop rd ks ?cs ! k = ?c" using IH(2) k Cons.prems(1) by simp
  then have "ht40_ok (set (view cs)) (ht_flags_loop rd ks ?cs ! k)"
    using ht_channel(3) [of cs rd "cs ! k"] by simp
  then show ?case using IH v Cons.prems(1) by auto
qed

text \<open>
  Property C21: after \<open>reg_process_ht_flags_band\<close> a channel on which HT40- or HT40+ is not forbidden has an
  enabled channel 20 MHz below or above it in the band.
\<close>

theorem ht40_flags_sound:
  assumes "c \<in> set (channels (reg_process_ht_flags_band rd sb))"
  shows "(chan_flags c AND IEEE80211_CHAN_NO_HT40MINUS = 0 \<longrightarrow>
      (\<exists>d\<in>set (channels (reg_process_ht_flags_band rd sb)).
        center_freq d = center_freq c - 20 \<and> \<not> is_disabled d)) \<and>
    (chan_flags c AND IEEE80211_CHAN_NO_HT40PLUS = 0 \<longrightarrow>
      (\<exists>d\<in>set (channels (reg_process_ht_flags_band rd sb)).
        center_freq d = center_freq c + 20 \<and> \<not> is_disabled d))"
proof -
  let ?cs = "channels sb" and ?is = "[0..<length (channels sb)]"
  let ?r = "ht_flags_loop rd ?is ?cs"
  have l: "view ?r = view ?cs" "\<forall>i\<in>set ?is. ht40_ok (set (view ?cs)) (?r ! i)"
    using ht_loop [of ?is ?cs rd] by auto
  have len: "length ?r = length ?cs" using l(1) by (metis length_map view_def)
  from assms obtain i where i: "i < length ?r" "c = ?r ! i"
    by (auto simp: reg_process_ht_flags_band_def in_set_conv_nth)
  with l len have "ht40_ok (set (view ?r)) c" by simp
  then show ?thesis by (auto simp: ht40_ok_def view_def reg_process_ht_flags_band_def)
qed

definition demo_sband :: ieee80211_supported_band where
  "demo_sband = the (demo_bands [demo_channel 5180 48 NL80211_DFS_AVAILABLE,
     demo_channel 5200 0 NL80211_DFS_USABLE, demo_channel 5220 0 NL80211_DFS_USABLE] NL80211_BAND_5GHZ)"

theorem ht40_flags_sound_witness:
  "\<exists>d\<in>set (channels (reg_process_ht_flags_band None demo_sband)). center_freq d = 5220 \<and> \<not> is_disabled d"
proof -
  let ?c = "channels (reg_process_ht_flags_band None demo_sband) ! 1"
  have c: "?c \<in> set (channels (reg_process_ht_flags_band None demo_sband))"
    by (rule nth_mem) code_simp
  have f: "center_freq ?c + 20 = 5220" "chan_flags ?c AND IEEE80211_CHAN_NO_HT40PLUS = 0" by code_simp+
  from ht40_flags_sound [OF c] f show ?thesis by simp
qed

section \<open>The update of a device\<close>

lemma opt_map_None: "x \<in> set xs \<Longrightarrow> f x = None \<Longrightarrow> opt_map f xs = None"
  by (induction xs) (auto split: option.splits)

text \<open>
  Property C32: unless a device is skipped by \<open>ignore_reg_update\<close>, applying the regulatory domain to any of
  its channels dereferences the null pointer that \<open>freq_reg_info\<close> returns.
\<close>

theorem regulatory_update_faults:
  assumes "\<not> ignore_reg_update lr w initiator" "rw_bands w b = Some sb" "channels sb \<noteq> []"
  shows "wiphy_update_regulatory j core lr bl initiator w = None"
proof -
  obtain c where c: "c \<in> set (channels sb)" using assms(3) by (cases "channels sb") auto
  have "handle_band j core r w initiator (rw_bands w b) = None" for r
    using opt_map_None [OF c, of "\<lambda>c. handle_channel j core r w initiator
      (freq_reg_info w (MHZ_TO_KHZ (center_freq c))) c"] assms(2)
    by (simp add: handle_band_def handle_channel_def freq_reg_info_def)
  then have "bands_opt (handle_band j core r w initiator) (rw_bands w) = None" for r
    by (cases b) (auto simp: bands_opt_def split: option.splits)
  with assms(1) show ?thesis by (simp add: wiphy_update_regulatory_def Let_def)
qed

definition new_core_request :: regulatory_request where
  "new_core_request = \<lparr>rq_wiphy_idx = 0, rq_initiator = NL80211_REGDOM_SET_BY_CORE, cell_base_hint = False,
     rq_alpha2 = (0x30, 0x30), rq_dfs_region = 0, rq_intersect = False, rq_processed = True,
     country_ie_env = ENVIRON_ANY\<rparr>"

theorem regulatory_update_faults_witness:
  "wiphy_update_regulatory 0 (demo_rd []) (Some new_core_request) [] NL80211_REGDOM_SET_BY_CORE
     (demo_rw 0 [demo_channel 5180 0 NL80211_DFS_USABLE]) = None"
  by (rule regulatory_update_faults [where b = NL80211_BAND_5GHZ and
        sb = "the (demo_bands [demo_channel 5180 0 NL80211_DFS_USABLE] NL80211_BAND_5GHZ)"])
    (simp_all add: ignore_reg_update_def demo_rw_def demo_bands_def flag_set_def wiphy_strict_alpha2_regd_def
      reg_request_cell_base_def new_core_request_def)

end
