(* ===== verification/Reg_Db.thy ===== *)
theory Reg_Db
  imports Reg_Domain
begin

unbundle bit_operations_syntax

text \<open>
  Model of the regulatory database parser of \<open>net/wireless/reg.c\<close>. The file is a list of bytes and a
  pointer into it an offset; a read outside the file is \<open>None\<close>. All numbers in the file are big-endian,
  all structures packed: the header has 8 bytes followed by countries of 4 bytes each.
\<close>

section \<open>Reading\<close>

definition rd8 :: "bytes \<Rightarrow> nat \<Rightarrow> nat option" where
  "rd8 d p = (if p < length d then Some (unat (d ! p)) else None)"

definition rd16 :: "bytes \<Rightarrow> nat \<Rightarrow> nat option" where
  "rd16 d p = (if p + 1 < length d then Some (256 * unat (d ! p) + unat (d ! (p + 1))) else None)"

definition rd32 :: "bytes \<Rightarrow> nat \<Rightarrow> nat option" where
  "rd32 d p =
     (case (rd16 d p, rd16 d (p + 2)) of
        (Some a, Some b) \<Rightarrow> Some (65536 * a + b)
      | _ \<Rightarrow> None)"

definition ecw2cw :: "nat \<Rightarrow> u16" where "ecw2cw ecw = of_nat (2 ^ ecw - 1)"

definition align2 :: "nat \<Rightarrow> nat" where "align2 n = (n + 1) div 2 * 2"

section \<open>Validation\<close>

text \<open>The loop of \<open>valid_wmm\<close>: one entry of 4 bytes after the other.\<close>

fun valid_wmm_loop :: "bytes \<Rightarrow> nat list \<Rightarrow> bool option" where
  "valid_wmm_loop d [] = Some True"
| "valid_wmm_loop d (p # ps) =
     (case (rd8 d p, rd8 d (p + 1)) of
        (Some ecw, Some ai) \<Rightarrow>
          if ecw2cw (ecw div 16) \<ge> ecw2cw (ecw mod 16) then Some False
          else if ai < 1 then Some False
          else valid_wmm_loop d ps
      | _ \<Rightarrow> None)"

definition valid_wmm :: "bytes \<Rightarrow> nat \<Rightarrow> bool option" where
  "valid_wmm d ptr = valid_wmm_loop d (map (\<lambda>i. ptr + 4 * i) [0..<8])"

definition valid_rule :: "bytes \<Rightarrow> nat \<Rightarrow> bool option" where
  "valid_rule d rule_ptr =
     (let rule = rule_ptr * 4 in
      if rule + 1 > length d then Some False
      else case rd8 d rule of
        None \<Rightarrow> None
      | Some len \<Rightarrow>
          if len < 16 then Some False
          else if len \<ge> 20
          then (case rd16 d (rule + 18) of
                  None \<Rightarrow> None
                | Some wp \<Rightarrow>
                    let wmm_ptr = wp * 4 in
                    if wmm_ptr + 32 > length d then Some False else valid_wmm d wmm_ptr)
          else Some True)"

fun valid_rules :: "bytes \<Rightarrow> nat list \<Rightarrow> bool option" where
  "valid_rules d [] = Some True"
| "valid_rules d (p # ps) =
     (case rd16 d p of
        None \<Rightarrow> None
      | Some rule_ptr \<Rightarrow>
          (case valid_rule d rule_ptr of
             Some True \<Rightarrow> valid_rules d ps
           | r \<Rightarrow> r))"

definition rule_ptrs :: "nat \<Rightarrow> nat \<Rightarrow> nat \<Rightarrow> nat list" where
  "rule_ptrs coll len n = map (\<lambda>i. coll + align2 len + 2 * i) [0..<n]"

definition valid_country :: "bytes \<Rightarrow> nat \<Rightarrow> bool option" where
  "valid_country d country =
     (case rd16 d (country + 2) of
        None \<Rightarrow> None
      | Some cp \<Rightarrow>
          let coll = cp * 4 in
          if coll + 2 > length d then Some False
          else case (rd8 d coll, rd8 d (coll + 1)) of
            (Some len, Some n_rules) \<Rightarrow>
              if coll + align2 len + n_rules * 2 > length d then Some False
              else if len < 3 then Some False
              else valid_rules d (rule_ptrs coll len n_rules)
          | _ \<Rightarrow> None)"

text \<open>The loop over the countries of \<open>valid_regdb\<close>.\<close>

function valid_countries :: "bytes \<Rightarrow> nat \<Rightarrow> bool option" where
  "valid_countries d country =
     (if country + 4 \<le> length d
      then (case rd16 d (country + 2) of
              None \<Rightarrow> None
            | Some cp \<Rightarrow>
                if cp = 0 then Some True
                else (case valid_country d country of
                        Some True \<Rightarrow> valid_countries d (country + 4)
                      | r \<Rightarrow> r))
      else Some True)"
  by pat_completeness auto
termination by (relation "measure (\<lambda>(d, c). length d - c)") auto

declare valid_countries.simps [simp del]

text \<open>In the port the signature check returns false before it looks at anything.\<close>

definition regdb_has_valid_signature :: "bytes \<Rightarrow> bool" where
  "regdb_has_valid_signature d = False"

definition FWDB_MAGIC :: nat where "FWDB_MAGIC = 0x52474442"
definition FWDB_VERSION :: nat where "FWDB_VERSION = 20"

definition valid_regdb :: "(bytes \<Rightarrow> bool) \<Rightarrow> bytes \<Rightarrow> bool option" where
  "valid_regdb signature d =
     (if length d < 8 then Some False
      else if rd32 d 0 \<noteq> Some FWDB_MAGIC then Some False
      else if rd32 d 4 \<noteq> Some FWDB_VERSION then Some False
      else if \<not> signature d then Some False
      else valid_countries d 8)"

section \<open>Reading a country\<close>

fun read_wmm_acs :: "bytes \<Rightarrow> nat list \<Rightarrow> wmm_ac list option" where
  "read_wmm_acs d [] = Some []"
| "read_wmm_acs d (p # ps) =
     (case (rd8 d p, rd8 d (p + 1), rd16 d (p + 2), read_wmm_acs d ps) of
        (Some ecw, Some ai, Some c, Some acs) \<Rightarrow>
          Some (\<lparr>cw_min = ecw2cw (ecw div 16), cw_max = ecw2cw (ecw mod 16), cot = of_nat (1000 * c),
                 aifsn = of_nat ai\<rparr> # acs)
      | _ \<Rightarrow> None)"

definition no_wmm :: wmm_rule where
  "no_wmm = \<lparr>wmm_client = replicate 4 \<lparr>cw_min = 0, cw_max = 0, cot = 0, aifsn = 0\<rparr>,
     wmm_ap = replicate 4 \<lparr>cw_min = 0, cw_max = 0, cot = 0, aifsn = 0\<rparr>\<rparr>"

text \<open>The WMM rule, or \<open>Some None\<close> when it is invalid.\<close>

definition set_wmm_rule :: "bytes \<Rightarrow> nat \<Rightarrow> wmm_rule option option" where
  "set_wmm_rule d rule =
     (case rd16 d (rule + 18) of
        None \<Rightarrow> None
      | Some wp \<Rightarrow>
          let w = wp * 4 in
          (case valid_wmm d w of
             None \<Rightarrow> None
           | Some False \<Rightarrow> Some None
           | Some True \<Rightarrow>
               (case (read_wmm_acs d (map (\<lambda>i. w + 4 * i) [0..<4]),
                      read_wmm_acs d (map (\<lambda>i. w + 16 + 4 * i) [0..<4])) of
                  (Some c, Some a) \<Rightarrow> Some (Some \<lparr>wmm_client = c, wmm_ap = a\<rparr>)
                | _ \<Rightarrow> None)))"

definition fwdb_rule_flags :: "nat \<Rightarrow> u32" where
  "fwdb_rule_flags fl =
     (if bit fl 0 then NL80211_RRF_NO_OFDM else 0) OR
     (if bit fl 1 then NL80211_RRF_NO_OUTDOOR else 0) OR
     (if bit fl 2 then NL80211_RRF_DFS else 0) OR
     (if bit fl 3 then NL80211_RRF_NO_IR else 0) OR
     (if bit fl 4 then NL80211_RRF_AUTO_BW else 0)"

definition read_rule :: "bytes \<Rightarrow> nat \<Rightarrow> reg_rule option" where
  "read_rule d rule =
     (case (rd8 d rule, rd8 d (rule + 1), rd16 d (rule + 2), rd32 d (rule + 4), rd32 d (rule + 8),
            rd32 d (rule + 12)) of
        (Some len, Some fl, Some eirp, Some s, Some e, Some bw) \<Rightarrow>
          (case (if len \<ge> 18 then rd16 d (rule + 16) else Some 0,
                 if len \<ge> 20 then set_wmm_rule d rule else Some None) of
             (Some cac, Some wmm) \<Rightarrow>
               Some \<lparr>rule_range = \<lparr>start_freq_khz = of_nat s, end_freq_khz = of_nat e,
                       max_bandwidth_khz = of_nat bw\<rparr>,
                     rule_power = \<lparr>pr_max_antenna_gain = 0, max_eirp = of_nat eirp\<rparr>,
                     rule_wmm = (case wmm of None \<Rightarrow> no_wmm | Some w \<Rightarrow> w),
                     rule_flags = fwdb_rule_flags fl,
                     rule_dfs_cac_ms = of_nat (1000 * cac),
                     has_wmm = (wmm \<noteq> None)\<rparr>
           | _ \<Rightarrow> None)
      | _ \<Rightarrow> None)"

fun read_rules :: "bytes \<Rightarrow> nat list \<Rightarrow> reg_rule list option" where
  "read_rules d [] = Some []"
| "read_rules d (p # ps) =
     (case rd16 d p of
        None \<Rightarrow> None
      | Some rp \<Rightarrow>
          (case (read_rule d (rp * 4), read_rules d ps) of
             (Some r, Some rs) \<Rightarrow> Some (r # rs)
           | _ \<Rightarrow> None))"

definition regdb_query_country :: "bytes \<Rightarrow> nat \<Rightarrow> regdomain option" where
  "regdb_query_country d country =
     (case (rd8 d country, rd8 d (country + 1), rd16 d (country + 2)) of
        (Some a, Some b, Some cp) \<Rightarrow>
          let coll = cp * 4 in
          (case (rd8 d coll, rd8 d (coll + 1), rd8 d (coll + 2)) of
             (Some len, Some n_rules, Some dfs) \<Rightarrow>
               map_option (\<lambda>rs. \<lparr>alpha2 = (of_nat a, of_nat b), rd_dfs_region = dfs, reg_rules = rs\<rparr>)
                 (read_rules d (rule_ptrs coll len n_rules))
           | _ \<Rightarrow> None)
      | _ \<Rightarrow> None)"

text \<open>
  The loop of \<open>query_regdb\<close>: \<open>Some None\<close> is \<open>-ENODATA\<close>. It has no bound: it ends at a country without
  collection, or reads past the end.
\<close>

function query_regdb_loop :: "bytes \<Rightarrow> u8 \<times> u8 \<Rightarrow> nat \<Rightarrow> regdomain option option" where
  "query_regdb_loop d a country =
     (case (rd8 d country, rd8 d (country + 1), rd16 d (country + 2)) of
        (Some x, Some y, Some cp) \<Rightarrow>
          if cp = 0 then Some None
          else if alpha2_equal a (of_nat x, of_nat y)
          then map_option Some (regdb_query_country d country)
          else query_regdb_loop d a (country + 4)
      | _ \<Rightarrow> None)"
  by pat_completeness auto
termination
  by (relation "measure (\<lambda>(d, a, c). length d - c)")
    (auto simp: rd8_def split: if_splits)

declare query_regdb_loop.simps [simp del]

definition query_regdb :: "bytes \<Rightarrow> u8 \<times> u8 \<Rightarrow> regdomain option option" where
  "query_regdb d a = query_regdb_loop d a 8"

end
