(* ===== verification/Reg_State.thy ===== *)
theory Reg_State
  imports Reg_Channel Reg_Db
begin

unbundle bit_operations_syntax

text \<open>
  Model of the global state of \<open>net/wireless/reg.c\<close>: the current and the last requested regulatory
  domain, the queues of requests and of beacon hints, and the functions that process them. The locks
  and RCU make each function atomic and are left out; freeing memory is left out. \<open>mem\<close> is the outcome
  of the allocations of a call, \<open>now\<close> the time. A null pointer dereference is \<open>None\<close>.
\<close>

section \<open>State\<close>

text \<open>The static \<open>world_regdom\<close>: rules in MHz, gain in dBi, power in dBm.\<close>

definition mk_rule :: "u32 \<Rightarrow> u32 \<Rightarrow> u32 \<Rightarrow> u32 \<Rightarrow> u32 \<Rightarrow> u32 \<Rightarrow> reg_rule" where
  "mk_rule s e bw gain eirp fl =
     \<lparr>rule_range = \<lparr>start_freq_khz = MHZ_TO_KHZ s, end_freq_khz = MHZ_TO_KHZ e,
        max_bandwidth_khz = MHZ_TO_KHZ bw\<rparr>,
      rule_power = \<lparr>pr_max_antenna_gain = gain * 100, max_eirp = eirp * 100\<rparr>,
      rule_wmm = no_wmm, rule_flags = fl, rule_dfs_cac_ms = 0, has_wmm = False\<rparr>"

definition world_regdom :: regdomain where
  "world_regdom = \<lparr>alpha2 = (0x30, 0x30), rd_dfs_region = NL80211_DFS_UNSET, reg_rules =
     [mk_rule 2402 2472 40 6 20 0,
      mk_rule 2457 2482 20 6 20 (NL80211_RRF_NO_IR OR NL80211_RRF_AUTO_BW),
      mk_rule 2474 2494 20 6 20 (NL80211_RRF_NO_IR OR NL80211_RRF_NO_OFDM),
      mk_rule 5170 5250 80 6 20 (NL80211_RRF_NO_IR OR NL80211_RRF_AUTO_BW),
      mk_rule 5250 5330 80 6 20 (NL80211_RRF_NO_IR OR NL80211_RRF_AUTO_BW OR NL80211_RRF_DFS),
      mk_rule 5490 5730 160 6 20 (NL80211_RRF_NO_IR OR NL80211_RRF_DFS),
      mk_rule 5735 5835 80 6 20 NL80211_RRF_NO_IR,
      mk_rule 57240 63720 2160 0 0 0]\<rparr>"

definition core_request_world :: regulatory_request where
  "core_request_world = \<lparr>rq_wiphy_idx = 0, rq_initiator = NL80211_REGDOM_SET_BY_CORE,
     cell_base_hint = False, rq_alpha2 = (0x30, 0x30), rq_dfs_region = NL80211_DFS_UNSET,
     rq_intersect = False, rq_processed = True, country_ie_env = ENVIRON_ANY\<rparr>"

datatype regdb_ptr = Regdb_null | Regdb_err errno | Regdb bytes

text \<open>
  \<open>reg_work\<close>, \<open>regdb_work\<close> and \<open>check_chans\<close> tell whether the work items \<open>reg_todo\<close>,
  \<open>reg_regdb_apply\<close> and \<open>reg_check_chans_work\<close> are scheduled; \<open>no_alpha2\<close> is the value "97".
\<close>

record reg_core =
  last_request :: "regulatory_request option"
  cfg80211_regdomain :: regdomain
  cfg80211_world_regdom :: regdomain
  user_alpha2 :: "u8 \<times> u8"
  cfg80211_user_regdom :: "regdomain option"
  reg_requests_list :: "regulatory_request list"
  reg_pending_beacons :: "reg_beacon list"
  reg_beacon_list :: "reg_beacon list"
  reg_is_indoor :: bool
  reg_is_indoor_portid :: u32
  reg_wiphys :: "reg_wiphy list"
  regdb :: regdb_ptr
  reg_regdb_apply_list :: "regdomain list"
  reg_work :: bool
  regdb_work :: bool
  check_chans :: bool

definition no_alpha2 :: "u8 \<times> u8" where "no_alpha2 = (0x39, 0x37)"

text \<open>The module parameter \<open>ieee80211_regdom\<close> is "00" and is not changed.\<close>

definition ieee80211_regdom :: "u8 \<times> u8" where "ieee80211_regdom = (0x30, 0x30)"

text \<open>The state after \<open>regulatory_init\<close>.\<close>

definition regulatory_init :: "reg_wiphy list \<Rightarrow> reg_core" where
  "regulatory_init ws =
     \<lparr>last_request = Some core_request_world, cfg80211_regdomain = world_regdom,
      cfg80211_world_regdom = world_regdom, user_alpha2 = no_alpha2, cfg80211_user_regdom = None,
      reg_requests_list = [], reg_pending_beacons = [], reg_beacon_list = [],
      reg_is_indoor = False, reg_is_indoor_portid = 0, reg_wiphys = ws, regdb = Regdb_null,
      reg_regdb_apply_list = [], reg_work = False, regdb_work = False, check_chans = False\<rparr>"

section \<open>Helpers\<close>

definition reset_regdomains :: "bool \<Rightarrow> regdomain \<Rightarrow> reg_core \<Rightarrow> reg_core" where
  "reset_regdomains full_reset rd s =
     (let s1 = s\<lparr>cfg80211_world_regdom := world_regdom, cfg80211_regdomain := rd\<rparr>
      in if \<not> full_reset then s1 else s1\<lparr>last_request := Some core_request_world\<rparr>)"

definition update_world_regdomain :: "regdomain \<Rightarrow> reg_core \<Rightarrow> reg_core" where
  "update_world_regdomain rd s = (reset_regdomains False rd s)\<lparr>cfg80211_world_regdom := rd\<rparr>"

definition regdom_changes :: "u8 \<times> u8 \<Rightarrow> reg_core \<Rightarrow> bool" where
  "regdom_changes a s \<longleftrightarrow> \<not> alpha2_equal (alpha2 (cfg80211_regdomain s)) a"

definition is_user_regdom_saved :: "reg_core \<Rightarrow> bool" where
  "is_user_regdom_saved s =
     (if user_alpha2 s = no_alpha2 then False
      else is_world_regdom (user_alpha2 s) \<or> is_an_alpha2 (user_alpha2 s))"

definition reg_is_valid_request :: "u8 \<times> u8 \<Rightarrow> reg_core \<Rightarrow> bool" where
  "reg_is_valid_request a s =
     (case last_request s of
        None \<Rightarrow> False
      | Some lr \<Rightarrow> if rq_processed lr then False else alpha2_equal (rq_alpha2 lr) a)"

definition lr_of :: "reg_core \<Rightarrow> regulatory_request" where
  "lr_of s = the (last_request s)"

definition wiphy_idx_to_wiphy :: "int \<Rightarrow> reg_core \<Rightarrow> reg_wiphy option" where
  "wiphy_idx_to_wiphy i s = find (\<lambda>w. rw_idx w = i) (reg_wiphys s)"

definition upd_wiphy :: "int \<Rightarrow> (reg_wiphy \<Rightarrow> reg_wiphy) \<Rightarrow> reg_core \<Rightarrow> reg_core" where
  "upd_wiphy i f s = s\<lparr>reg_wiphys := map (\<lambda>w. if rw_idx w = i then f w else w) (reg_wiphys s)\<rparr>"

definition WIPHY_IDX_INVALID :: int where "WIPHY_IDX_INVALID = - 1"

definition reg_check_channels :: "reg_core \<Rightarrow> reg_core" where
  "reg_check_channels s = s\<lparr>check_chans := True\<rparr>"

definition reg_set_request_processed :: "reg_core \<Rightarrow> reg_core" where
  "reg_set_request_processed s =
     (let s1 = s\<lparr>last_request := map_option (\<lambda>r. r\<lparr>rq_processed := True\<rparr>) (last_request s)\<rparr>
      in if reg_requests_list s \<noteq> [] then s1\<lparr>reg_work := True\<rparr> else s1)"

section \<open>Queueing requests\<close>

definition queue_regulatory_request :: "regulatory_request \<Rightarrow> reg_core \<Rightarrow> reg_core" where
  "queue_regulatory_request r s =
     (let a = rq_alpha2 r; r1 = r\<lparr>rq_alpha2 := (toupper_byte (fst a), toupper_byte (snd a))\<rparr>
      in s\<lparr>reg_requests_list := reg_requests_list s @ [r1], reg_work := True\<rparr>)"

definition new_request :: "int \<Rightarrow> reg_initiator \<Rightarrow> bool \<Rightarrow> u8 \<times> u8 \<Rightarrow> environment_cap \<Rightarrow> regulatory_request" where
  "new_request i ini cell a env = \<lparr>rq_wiphy_idx = i, rq_initiator = ini, cell_base_hint = cell,
     rq_alpha2 = a, rq_dfs_region = 0, rq_intersect = False, rq_processed = False, country_ie_env = env\<rparr>"

definition regulatory_hint_core :: "bool \<Rightarrow> u8 \<times> u8 \<Rightarrow> reg_core \<Rightarrow> errno option \<times> reg_core" where
  "regulatory_hint_core mem a s =
     (if \<not> mem then (Some ENOMEM, s)
      else (None, queue_regulatory_request
        (new_request WIPHY_IDX_INVALID NL80211_REGDOM_SET_BY_CORE False a ENVIRON_ANY) s))"

definition regulatory_hint_user ::
  "bool \<Rightarrow> (u8 \<times> u8) option \<Rightarrow> bool \<Rightarrow> reg_core \<Rightarrow> errno option \<times> reg_core" where
  "regulatory_hint_user mem a cell s =
     (case a of
        None \<Rightarrow> (Some EINVAL, s)
      | Some x \<Rightarrow>
          if \<not> mem then (Some ENOMEM, s)
          else (None, queue_regulatory_request
            (new_request WIPHY_IDX_INVALID NL80211_REGDOM_SET_BY_USER cell x ENVIRON_ANY) s))"

definition regulatory_hint_indoor :: "bool \<Rightarrow> u32 \<Rightarrow> reg_core \<Rightarrow> reg_core" where
  "regulatory_hint_indoor is_indoor portid s =
     (let s1 = s\<lparr>reg_is_indoor := is_indoor, reg_is_indoor_portid :=
                   (if is_indoor then if reg_is_indoor_portid s = 0 then portid else reg_is_indoor_portid s
                    else 0)\<rparr>
      in if \<not> is_indoor then reg_check_channels s1 else s1)"

definition IEEE80211_COUNTRY_IE_MIN_LEN :: nat where "IEEE80211_COUNTRY_IE_MIN_LEN = 6"

definition regulatory_hint_country_ie :: "bool \<Rightarrow> int \<Rightarrow> bytes \<Rightarrow> reg_core \<Rightarrow> reg_core" where
  "regulatory_hint_country_ie mem idx ie s =
     (if odd (length ie) then s
      else if length ie < IEEE80211_COUNTRY_IE_MIN_LEN then s
      else if \<not> mem then s
      else let env = (if ie ! 2 = 0x49 then ENVIRON_INDOOR
                      else if ie ! 2 = 0x4F then ENVIRON_OUTDOOR else ENVIRON_ANY) in
        case last_request s of
          None \<Rightarrow> s
        | Some lr \<Rightarrow>
            if rq_initiator lr = NL80211_REGDOM_SET_BY_COUNTRY_IE \<and> rq_wiphy_idx lr \<noteq> WIPHY_IDX_INVALID
            then s
            else queue_regulatory_request
              (new_request idx NL80211_REGDOM_SET_BY_COUNTRY_IE False (ie ! 0, ie ! 1) env) s)"

text \<open>In the port the body of \<open>regulatory_hint_disconnect\<close> is commented out.\<close>

definition regulatory_hint_disconnect :: "reg_core \<Rightarrow> reg_core" where
  "regulatory_hint_disconnect s = s"

section \<open>The database\<close>

definition call_crda :: "u8 \<times> u8 \<Rightarrow> errno option" where
  "call_crda a = Some ENODATA"

definition reg_schedule_apply :: "bool \<Rightarrow> regdomain \<Rightarrow> reg_core \<Rightarrow> errno option \<times> reg_core" where
  "reg_schedule_apply mem rd s =
     (if \<not> mem then (Some ENOMEM, s)
      else (None, s\<lparr>reg_regdb_apply_list := reg_regdb_apply_list s @ [rd], regdb_work := True\<rparr>))"

text \<open>In the port the file is never requested: without a database the result is \<open>-ENOMEM\<close>.\<close>

definition query_regdb_file :: "bool \<Rightarrow> u8 \<times> u8 \<Rightarrow> reg_core \<Rightarrow> (errno option \<times> reg_core) option" where
  "query_regdb_file mem a s =
     (case regdb s of
        Regdb_null \<Rightarrow> Some (Some ENOMEM, s)
      | Regdb_err e \<Rightarrow> Some (Some e, s)
      | Regdb d \<Rightarrow>
          (case query_regdb d a of
             None \<Rightarrow> None
           | Some None \<Rightarrow> Some (Some ENODATA, s)
           | Some (Some rd) \<Rightarrow> if \<not> mem then Some (Some ENOMEM, s) else Some (reg_schedule_apply mem rd s)))"

definition reg_query_database :: "bool \<Rightarrow> regulatory_request \<Rightarrow> reg_core \<Rightarrow> (bool \<times> reg_core) option" where
  "reg_query_database mem r s =
     (case query_regdb_file mem (rq_alpha2 r) s of
        None \<Rightarrow> None
      | Some (None, s1) \<Rightarrow> Some (True, s1)
      | Some (Some e, s1) \<Rightarrow> Some (call_crda (rq_alpha2 r) = None, s1))"

section \<open>Processing a request\<close>

datatype reg_request_treatment =
  REG_REQ_OK | REG_REQ_IGNORE | REG_REQ_INTERSECT | REG_REQ_ALREADY_SET | REG_REQ_EINVAL

text \<open>The core's requests: the body is commented out in the port.\<close>

definition reg_process_hint_core :: "regulatory_request \<Rightarrow> reg_core \<Rightarrow> reg_request_treatment" where
  "reg_process_hint_core r s = REG_REQ_IGNORE"

definition reg_ignore_cell_hint :: "regulatory_request \<Rightarrow> reg_request_treatment" where
  "reg_ignore_cell_hint r = REG_REQ_IGNORE"

definition process_hint_user_treatment :: "regulatory_request \<Rightarrow> reg_core \<Rightarrow> reg_request_treatment" where
  "process_hint_user_treatment r s =
     (let lr = lr_of s in
      if reg_request_cell_base r then reg_ignore_cell_hint r
      else if reg_request_cell_base lr then REG_REQ_IGNORE
      else if rq_initiator lr = NL80211_REGDOM_SET_BY_COUNTRY_IE then REG_REQ_INTERSECT
      else if rq_initiator lr = NL80211_REGDOM_SET_BY_USER \<and> rq_intersect lr then REG_REQ_IGNORE
      else if (rq_initiator lr = NL80211_REGDOM_SET_BY_CORE \<or> rq_initiator lr = NL80211_REGDOM_SET_BY_DRIVER \<or>
               rq_initiator lr = NL80211_REGDOM_SET_BY_USER) \<and> regdom_changes (rq_alpha2 lr) s
      then REG_REQ_IGNORE
      else if \<not> regdom_changes (rq_alpha2 r) s then REG_REQ_ALREADY_SET
      else REG_REQ_OK)"

definition reg_process_hint_user ::
  "bool \<Rightarrow> regulatory_request \<Rightarrow> reg_core \<Rightarrow> (reg_request_treatment \<times> reg_core) option" where
  "reg_process_hint_user mem r s =
     (let t = process_hint_user_treatment r s in
      if t = REG_REQ_IGNORE \<or> t = REG_REQ_ALREADY_SET then Some (REG_REQ_IGNORE, s)
      else let r1 = r\<lparr>rq_intersect := (t = REG_REQ_INTERSECT), rq_processed := False\<rparr> in
        case reg_query_database mem r1 s of
          None \<Rightarrow> None
        | Some (ok, s1) \<Rightarrow>
            if ok then Some (REG_REQ_OK, s1\<lparr>last_request := Some r1, user_alpha2 := rq_alpha2 r1\<rparr>)
            else Some (REG_REQ_IGNORE, s1))"

definition process_hint_driver_treatment :: "regulatory_request \<Rightarrow> reg_core \<Rightarrow> reg_request_treatment" where
  "process_hint_driver_treatment r s =
     (if rq_initiator (lr_of s) = NL80211_REGDOM_SET_BY_CORE
      then (if regdom_changes (rq_alpha2 r) s then REG_REQ_OK else REG_REQ_ALREADY_SET)
      else if rq_initiator (lr_of s) = NL80211_REGDOM_SET_BY_DRIVER \<and> \<not> regdom_changes (rq_alpha2 r) s
      then REG_REQ_ALREADY_SET
      else REG_REQ_INTERSECT)"

definition reg_process_hint_driver ::
  "bool \<Rightarrow> int \<Rightarrow> regulatory_request \<Rightarrow> reg_core \<Rightarrow> (reg_request_treatment \<times> reg_core) option" where
  "reg_process_hint_driver mem idx r s =
     (let t = process_hint_driver_treatment r s;
          copy = (t = REG_REQ_INTERSECT \<or> t = REG_REQ_ALREADY_SET)
      in if copy \<and> \<not> mem then Some (REG_REQ_IGNORE, s)
         else let s1 = (if copy then upd_wiphy idx (\<lambda>w. w\<lparr>rw_regd := Some (cfg80211_regdomain s)\<rparr>) s else s);
                  r1 = r\<lparr>rq_intersect := (t = REG_REQ_INTERSECT), rq_processed := False\<rparr>
              in if t = REG_REQ_ALREADY_SET
                 then Some (REG_REQ_ALREADY_SET, reg_set_request_processed (s1\<lparr>last_request := Some r1\<rparr>))
                 else case reg_query_database mem r1 s1 of
                        None \<Rightarrow> None
                      | Some (ok, s2) \<Rightarrow>
                          if ok then Some (REG_REQ_OK, s2\<lparr>last_request := Some r1\<rparr>)
                          else Some (REG_REQ_IGNORE, s2))"

definition process_hint_country_treatment ::
  "reg_wiphy \<Rightarrow> regulatory_request \<Rightarrow> reg_core \<Rightarrow> reg_request_treatment" where
  "process_hint_country_treatment w r s =
     (let lr = lr_of s; same = (if regdom_changes (rq_alpha2 r) s then REG_REQ_IGNORE else REG_REQ_ALREADY_SET)
      in if reg_request_cell_base lr then same
         else if flag_set (regulatory_flags w) REGULATORY_COUNTRY_IE_IGNORE then REG_REQ_IGNORE
         else if \<not> is_an_alpha2 (rq_alpha2 r) then REG_REQ_EINVAL
         else if rq_initiator lr \<noteq> NL80211_REGDOM_SET_BY_COUNTRY_IE then REG_REQ_OK
         else if map_option rw_idx (wiphy_idx_to_wiphy (rq_wiphy_idx lr) s) \<noteq> Some (rw_idx w) then same
         else if regdom_changes (rq_alpha2 r) s then REG_REQ_OK
         else REG_REQ_ALREADY_SET)"

text \<open>The value \<open>-EINVAL\<close> matches no case of the switch and processing goes on.\<close>

definition reg_process_hint_country_ie ::
  "bool \<Rightarrow> reg_wiphy \<Rightarrow> regulatory_request \<Rightarrow> reg_core \<Rightarrow> (reg_request_treatment \<times> reg_core) option" where
  "reg_process_hint_country_ie mem w r s =
     (let t = process_hint_country_treatment w r s in
      if t = REG_REQ_IGNORE \<or> t = REG_REQ_INTERSECT then Some (REG_REQ_IGNORE, s)
      else if t = REG_REQ_ALREADY_SET then Some (REG_REQ_ALREADY_SET, s)
      else let r1 = r\<lparr>rq_intersect := False, rq_processed := False\<rparr> in
        case reg_query_database mem r1 s of
          None \<Rightarrow> None
        | Some (ok, s1) \<Rightarrow>
            if ok then Some (REG_REQ_OK, s1\<lparr>last_request := Some r1\<rparr>) else Some (REG_REQ_IGNORE, s1))"

text \<open>\<open>wiphy_all_share_dfs_chan_state\<close> on the regulatory part of the devices.\<close>

definition dfs_of :: "reg_core \<Rightarrow> reg_wiphy \<Rightarrow> nat" where
  "dfs_of s w = (case rw_regd w of None \<Rightarrow> rd_dfs_region (cfg80211_regdomain s) | Some d \<Rightarrow> rd_dfs_region d)"

definition wiphy_all_share_dfs_chan_state :: "int \<Rightarrow> reg_core \<Rightarrow> reg_core" where
  "wiphy_all_share_dfs_chan_state idx s =
     upd_wiphy idx (\<lambda>w. fold (\<lambda>src dst.
        if rw_idx src = idx \<or> dfs_of s dst \<noteq> dfs_of s src then dst
        else dst\<lparr>rw_bands := share_dfs_bands (rw_bands dst) (rw_bands src)\<rparr>) (reg_wiphys s) w) s"

definition update_wiphy ::
  "u64 \<Rightarrow> reg_initiator \<Rightarrow> int \<Rightarrow> reg_core \<Rightarrow> reg_core option" where
  "update_wiphy now initiator idx s =
     (case wiphy_idx_to_wiphy idx s of
        None \<Rightarrow> Some s
      | Some w \<Rightarrow>
          map_option (\<lambda>(lr, w1). upd_wiphy idx (\<lambda>_. w1) (s\<lparr>last_request := lr\<rparr>))
            (wiphy_update_regulatory now (cfg80211_regdomain s) (last_request s) (reg_beacon_list s)
               initiator w))"

fun update_wiphys :: "u64 \<Rightarrow> reg_initiator \<Rightarrow> int list \<Rightarrow> reg_core \<Rightarrow> reg_core option" where
  "update_wiphys now initiator [] s = Some s"
| "update_wiphys now initiator (i # is) s =
     (case update_wiphy now initiator i s of
        None \<Rightarrow> None | Some s1 \<Rightarrow> update_wiphys now initiator is s1)"

definition update_all_wiphy_regulatory :: "u64 \<Rightarrow> reg_initiator \<Rightarrow> reg_core \<Rightarrow> reg_core option" where
  "update_all_wiphy_regulatory now initiator s =
     map_option reg_check_channels (update_wiphys now initiator (map rw_idx (reg_wiphys s)) s)"

definition reg_process_hint :: "u64 \<Rightarrow> bool \<Rightarrow> regulatory_request \<Rightarrow> reg_core \<Rightarrow> reg_core option" where
  "reg_process_hint now mem r s =
     (let wiphy = (if rq_wiphy_idx r \<noteq> WIPHY_IDX_INVALID then wiphy_idx_to_wiphy (rq_wiphy_idx r) s else None);
          res = (case rq_initiator r of
            NL80211_REGDOM_SET_BY_CORE \<Rightarrow> Some (reg_process_hint_core r s, s)
          | NL80211_REGDOM_SET_BY_USER \<Rightarrow> reg_process_hint_user mem r s
          | NL80211_REGDOM_SET_BY_DRIVER \<Rightarrow>
              (case wiphy of None \<Rightarrow> Some (REG_REQ_IGNORE, s)
               | Some w \<Rightarrow> reg_process_hint_driver mem (rw_idx w) r s)
          | NL80211_REGDOM_SET_BY_COUNTRY_IE \<Rightarrow>
              (case wiphy of None \<Rightarrow> Some (REG_REQ_IGNORE, s)
               | Some w \<Rightarrow> reg_process_hint_country_ie mem w r s))
      in case res of
           None \<Rightarrow> None
         | Some (t, s1) \<Rightarrow>
             (case wiphy of
                None \<Rightarrow> Some s1
              | Some w \<Rightarrow>
                  if t = REG_REQ_ALREADY_SET \<and> flag_set (regulatory_flags w) REGULATORY_STRICT_REG
                  then map_option (\<lambda>s2. reg_check_channels (wiphy_all_share_dfs_chan_state (rw_idx w) s2))
                         (update_wiphy now (rq_initiator r) (rw_idx w) s1)
                  else Some s1))"

definition notify_self_managed_wiphys :: "regulatory_request \<Rightarrow> reg_core \<Rightarrow> reg_core" where
  "notify_self_managed_wiphys r s =
     s\<lparr>reg_wiphys := map (\<lambda>w. if flag_set (regulatory_flags w) REGULATORY_WIPHY_SELF_MANAGED \<and>
        rq_initiator r = NL80211_REGDOM_SET_BY_USER then reg_call_notifier (Some r) w else w) (reg_wiphys s)\<rparr>"

definition reg_process_pending_hints :: "u64 \<Rightarrow> bool \<Rightarrow> reg_core \<Rightarrow> reg_core option" where
  "reg_process_pending_hints now mem s =
     (if (case last_request s of None \<Rightarrow> False | Some lr \<Rightarrow> \<not> rq_processed lr) then Some s
      else case reg_requests_list s of
        [] \<Rightarrow> Some s
      | r # rs \<Rightarrow>
          map_option (\<lambda>s2. if reg_requests_list s2 \<noteq> [] \<and>
              (case last_request s2 of None \<Rightarrow> False | Some lr \<Rightarrow> rq_processed lr) then s2\<lparr>reg_work := True\<rparr> else s2)
            (reg_process_hint now mem r (notify_self_managed_wiphys r (s\<lparr>reg_requests_list := rs\<rparr>))))"

definition reg_process_pending_beacon_hints :: "reg_core \<Rightarrow> reg_core" where
  "reg_process_pending_beacon_hints s =
     s\<lparr>reg_wiphys := map (fold (wiphy_update_new_beacon (cfg80211_regdomain s) (last_request s))
          (reg_pending_beacons s)) (reg_wiphys s),
       reg_beacon_list := reg_beacon_list s @ reg_pending_beacons s, reg_pending_beacons := []\<rparr>"

definition self_managed_hint :: "u64 \<Rightarrow> reg_wiphy \<Rightarrow> reg_wiphy" where
  "self_managed_hint now w =
     (case requested_regd w of
        None \<Rightarrow> w
      | Some rd \<Rightarrow>
          let w1 = w\<lparr>requested_regd := None, rw_regd := Some rd\<rparr> in
          reg_process_ht_flags (w1\<lparr>rw_bands :=
            \<lambda>b. handle_band_custom now (regulatory_flags w1) rd (rw_bands w1 b)\<rparr>))"

definition reg_process_self_managed_hints :: "u64 \<Rightarrow> reg_core \<Rightarrow> reg_core" where
  "reg_process_self_managed_hints now s =
     reg_check_channels (s\<lparr>reg_wiphys := map (self_managed_hint now) (reg_wiphys s)\<rparr>)"

text \<open>The work item; the flag is cleared before it runs.\<close>

definition reg_todo :: "u64 \<Rightarrow> bool \<Rightarrow> reg_core \<Rightarrow> reg_core option" where
  "reg_todo now mem s =
     map_option (\<lambda>s1. reg_process_self_managed_hints now (reg_process_pending_beacon_hints s1))
       (reg_process_pending_hints now mem (s\<lparr>reg_work := False\<rparr>))"

section \<open>Beacons found\<close>

definition freq_is_chan_12_13_14 :: "u32 \<Rightarrow> bool" where
  "freq_is_chan_12_13_14 freq \<longleftrightarrow>
     (freq = of_int (ieee80211_channel_to_frequency 12 NL80211_BAND_2GHZ) \<or>
      freq = of_int (ieee80211_channel_to_frequency 13 NL80211_BAND_2GHZ) \<or>
      freq = of_int (ieee80211_channel_to_frequency 14 NL80211_BAND_2GHZ))"

definition pending_reg_beacon :: "ieee80211_channel \<Rightarrow> reg_core \<Rightarrow> bool" where
  "pending_reg_beacon c s \<longleftrightarrow>
     (\<exists>b\<in>set (reg_pending_beacons s). center_freq c = center_freq (beacon_chan b))"

definition regulatory_hint_found_beacon ::
  "bool \<Rightarrow> ieee80211_channel \<Rightarrow> reg_core \<Rightarrow> errno option \<times> reg_core" where
  "regulatory_hint_found_beacon mem c s =
     (if beacon_found c \<or> is_radar c \<or>
         (chan_band c = NL80211_BAND_2GHZ \<and> \<not> freq_is_chan_12_13_14 (center_freq c)) then (None, s)
      else if pending_reg_beacon c s then (None, s)
      else if \<not> mem then (Some ENOMEM, s)
      else (None, s\<lparr>reg_pending_beacons := reg_pending_beacons s @ [\<lparr>beacon_chan = c\<rparr>], reg_work := True\<rparr>))"

section \<open>Setting a domain\<close>

definition reg_set_rd_core :: "regdomain \<Rightarrow> reg_core \<Rightarrow> errno option \<times> reg_core" where
  "reg_set_rd_core rd s =
     (if \<not> is_world_regdom (alpha2 rd) then (Some EINVAL, s) else (None, update_world_regdomain rd s))"

text \<open>\<open>wmm0\<close> is the content of a stack variable, see \<open>reg_rules_intersect_raw\<close>.\<close>

definition reg_set_rd_user ::
  "bool \<Rightarrow> wmm_rule \<Rightarrow> regdomain \<Rightarrow> regulatory_request \<Rightarrow> reg_core \<Rightarrow> errno option \<times> reg_core" where
  "reg_set_rd_user mem wmm0 rd r s =
     (if \<not> regdom_changes (alpha2 rd) s then (Some EALREADY, s)
      else if \<not> is_valid_rd rd then (Some EINVAL, s)
      else if \<not> rq_intersect r then (None, reset_regdomains False rd s)
      else case regdom_intersect mem wmm0 (Some rd) (Some (cfg80211_regdomain s)) of
             None \<Rightarrow> (Some EINVAL, s)
           | Some ird \<Rightarrow> (None, reset_regdomains False ird s))"

definition reg_set_rd_driver ::
  "bool \<Rightarrow> wmm_rule \<Rightarrow> regdomain \<Rightarrow> regulatory_request \<Rightarrow> reg_core \<Rightarrow> errno option \<times> reg_core" where
  "reg_set_rd_driver mem wmm0 rd r s =
     (if is_world_regdom (alpha2 rd) then (Some EINVAL, s)
      else if \<not> regdom_changes (alpha2 rd) s then (Some EALREADY, s)
      else if \<not> is_valid_rd rd then (Some EINVAL, s)
      else case wiphy_idx_to_wiphy (rq_wiphy_idx r) s of
             None \<Rightarrow> (Some ENODEV, s)
           | Some w \<Rightarrow>
               if \<not> rq_intersect r
               then (if rw_regd w \<noteq> None then (Some EALREADY, s)
                     else if \<not> mem then (Some ENOMEM, s)
                     else (None, reset_regdomains False rd
                             (upd_wiphy (rw_idx w) (\<lambda>w. w\<lparr>rw_regd := Some rd\<rparr>) s)))
               else case regdom_intersect mem wmm0 (Some rd) (Some (cfg80211_regdomain s)) of
                      None \<Rightarrow> (Some EINVAL, s)
                    | Some ird \<Rightarrow>
                        (None, reset_regdomains False ird
                           (upd_wiphy (rw_idx w) (\<lambda>w. w\<lparr>rw_regd := Some rd\<rparr>) s)))"

definition reg_set_rd_country_ie ::
  "regdomain \<Rightarrow> regulatory_request \<Rightarrow> reg_core \<Rightarrow> errno option \<times> reg_core" where
  "reg_set_rd_country_ie rd r s =
     (if \<not> is_alpha2_set (alpha2 rd) \<and> \<not> is_an_alpha2 (alpha2 rd) \<and> \<not> is_unknown_alpha2 (alpha2 rd)
      then (Some EINVAL, s)
      else if \<not> is_valid_rd rd then (Some EINVAL, s)
      else if wiphy_idx_to_wiphy (rq_wiphy_idx r) s = None then (Some ENODEV, s)
      else if rq_intersect r then (Some EINVAL, s)
      else (None, reset_regdomains False rd s))"

text \<open>The country code to restore, and the state with the user's code forgotten if asked.\<close>

definition restore_alpha2 :: "bool \<Rightarrow> reg_core \<Rightarrow> (u8 \<times> u8) \<times> reg_core" where
  "restore_alpha2 reset_user s =
     (if is_user_regdom_saved s
      then (if reset_user
            then (if \<not> is_world_regdom ieee80211_regdom then ieee80211_regdom else no_alpha2,
                  s\<lparr>user_alpha2 := no_alpha2\<rparr>)
            else (user_alpha2 s, s))
      else if \<not> is_world_regdom ieee80211_regdom then (ieee80211_regdom, s)
      else (no_alpha2, s))"

text \<open>
  \<open>restore_regulatory_settings\<close> up to the branch on \<open>cached\<close>: the domains and hints are reset. The
  result holds the country code and the requests stashed away.
\<close>

definition restore_begin :: "bool \<Rightarrow> reg_core \<Rightarrow> (u8 \<times> u8) \<times> regulatory_request list \<times> reg_core" where
  "restore_begin reset_user s =
     (let s1 = (if reg_is_indoor s \<and> reg_is_indoor_portid s = 0
                then reg_check_channels (s\<lparr>reg_is_indoor := False\<rparr>) else s);
          (a, s2) = restore_alpha2 reset_user (reset_regdomains True world_regdom s1);
          s3 = s2\<lparr>reg_requests_list := [], reg_pending_beacons := [], reg_beacon_list := [],
                  reg_wiphys := map (\<lambda>w.
                    if flag_set (regulatory_flags w) REGULATORY_WIPHY_SELF_MANAGED then w
                    else if flag_set (regulatory_flags w) REGULATORY_CUSTOM_REG
                    then restore_custom_reg_settings w else w) (reg_wiphys s2)\<rparr>
      in (a, reg_requests_list s2, s3))"

definition restore_end :: "regulatory_request list \<Rightarrow> reg_core \<Rightarrow> reg_core" where
  "restore_end stash s = s\<lparr>reg_requests_list := reg_requests_list s @ stash, reg_work := True\<rparr>"

text \<open>The branch that sends new hints, taken when \<open>cached\<close> is false.\<close>

definition restore_hints :: "bool \<Rightarrow> bool \<Rightarrow> reg_core \<Rightarrow> reg_core" where
  "restore_hints mem reset_user s =
     (let (a, stash, s1) = restore_begin reset_user s;
          s2 = snd (regulatory_hint_core mem (alpha2 (cfg80211_world_regdom s1)) s1);
          s3 = (if is_an_alpha2 a then snd (regulatory_hint_user mem (Some a) False s2) else s2)
      in restore_end stash s3)"

text \<open>
  \<open>set_regdom\<close>: \<open>rd = None\<close> stands for a null or error pointer. The result is \<open>None\<close> for a null pointer
  dereference in the update of a device.
\<close>

definition set_regdom ::
  "u64 \<Rightarrow> bool \<Rightarrow> wmm_rule \<Rightarrow> regdomain option \<Rightarrow> reg_core \<Rightarrow> (errno option \<times> reg_core) option" where
  "set_regdom now mem wmm0 rdp s =
     (case rdp of
        None \<Rightarrow> Some (Some ENODATA, s)
      | Some rd \<Rightarrow>
          if \<not> reg_is_valid_request (alpha2 rd) s then Some (Some EINVAL, s)
          else let lr = lr_of s;
                   user = (rq_initiator lr = NL80211_REGDOM_SET_BY_USER);
                   s0 = (if user then s\<lparr>cfg80211_user_regdom := (if mem then Some rd else None)\<rparr> else s);
                   (err, s1) = (case rq_initiator lr of
                       NL80211_REGDOM_SET_BY_CORE \<Rightarrow> reg_set_rd_core rd s0
                     | NL80211_REGDOM_SET_BY_USER \<Rightarrow> reg_set_rd_user mem wmm0 rd lr s0
                     | NL80211_REGDOM_SET_BY_DRIVER \<Rightarrow> reg_set_rd_driver mem wmm0 rd lr s0
                     | NL80211_REGDOM_SET_BY_COUNTRY_IE \<Rightarrow> reg_set_rd_country_ie rd lr s0)
               in case err of
                    Some e \<Rightarrow>
                      Some (Some e, if e = EALREADY then reg_set_request_processed s1
                                    else restore_hints mem user s1)
                  | None \<Rightarrow>
                      map_option (\<lambda>s2. (None, reg_set_request_processed s2))
                        (update_all_wiphy_regulatory now (rq_initiator lr) s1))"

definition restore_regulatory_settings ::
  "u64 \<Rightarrow> bool \<Rightarrow> wmm_rule \<Rightarrow> bool \<Rightarrow> bool \<Rightarrow> reg_core \<Rightarrow> reg_core option" where
  "restore_regulatory_settings now mem wmm0 reset_user cached s =
     (let (a, stash, s1) = restore_begin reset_user s in
      if cached \<and> (\<not> is_an_alpha2 a \<or> cfg80211_user_regdom s1 \<noteq> None)
      then (case update_all_wiphy_regulatory now NL80211_REGDOM_SET_BY_CORE
                   (reset_regdomains False (cfg80211_world_regdom s1) s1) of
              None \<Rightarrow> None
            | Some s2 \<Rightarrow>
                let s3 = reg_set_request_processed s2 in
                if is_an_alpha2 a \<and> mem
                then (let s4 = snd (regulatory_hint_user mem (Some a) False s3);
                          ureq = last (reg_requests_list s4);
                          s5 = notify_self_managed_wiphys ureq
                                 (s4\<lparr>reg_requests_list := butlast (reg_requests_list s4)\<rparr>)
                      in map_option (\<lambda>(e, s6). restore_end stash s6)
                           (set_regdom now mem wmm0 (cfg80211_user_regdom s5)
                              (s5\<lparr>last_request := Some ureq\<rparr>)))
                else Some (restore_end stash s3))
      else Some (restore_hints mem reset_user s))"

text \<open>The work item that applies the domains read from the database.\<close>

fun apply_domains :: "u64 \<Rightarrow> bool \<Rightarrow> wmm_rule \<Rightarrow> regdomain list \<Rightarrow> reg_core \<Rightarrow> reg_core option" where
  "apply_domains now mem wmm0 [] s = Some s"
| "apply_domains now mem wmm0 (rd # rds) s =
     (case set_regdom now mem wmm0 (Some rd) s of
        None \<Rightarrow> None
      | Some (e, s1) \<Rightarrow> apply_domains now mem wmm0 rds s1)"

definition reg_regdb_apply :: "u64 \<Rightarrow> bool \<Rightarrow> wmm_rule \<Rightarrow> reg_core \<Rightarrow> reg_core option" where
  "reg_regdb_apply now mem wmm0 s =
     apply_domains now mem wmm0 (reg_regdb_apply_list s)
       (s\<lparr>reg_regdb_apply_list := [], regdb_work := False\<rparr>)"

section \<open>Devices\<close>

definition regulatory_set_wiphy_regd :: "bool \<Rightarrow> int \<Rightarrow> regdomain \<Rightarrow> reg_core \<Rightarrow> errno option \<times> reg_core" where
  "regulatory_set_wiphy_regd mem idx rd s =
     (case wiphy_idx_to_wiphy idx s of
        None \<Rightarrow> (Some EINVAL, s)
      | Some w \<Rightarrow>
          if \<not> flag_set (regulatory_flags w) REGULATORY_WIPHY_SELF_MANAGED then (Some EPERM, s)
          else if \<not> is_valid_rd rd then (Some EINVAL, s)
          else if \<not> mem then (Some ENOMEM, s)
          else (None, (upd_wiphy idx (\<lambda>w. w\<lparr>requested_regd := Some rd\<rparr>) s)\<lparr>reg_work := True\<rparr>))"

definition wiphy_regulatory_register :: "u64 \<Rightarrow> int \<Rightarrow> reg_core \<Rightarrow> reg_core option" where
  "wiphy_regulatory_register now idx s =
     (let lr = lr_of s;
          s1 = upd_wiphy idx (\<lambda>w.
            if flag_set (regulatory_flags w) REGULATORY_WIPHY_SELF_MANAGED
            then (let w1 = w\<lparr>regulatory_flags := regulatory_flags w OR
                        (REGULATORY_DISABLE_BEACON_HINTS OR REGULATORY_COUNTRY_IE_IGNORE)\<rparr>
                  in if rq_initiator lr = NL80211_REGDOM_SET_BY_USER then reg_call_notifier (Some lr) w1 else w1)
            else w) s
      in map_option (wiphy_all_share_dfs_chan_state idx) (update_wiphy now (rq_initiator lr) idx s1))"

end
