(* ===== verification/Reg_State_Props.thy ===== *)
theory Reg_State_Props
  imports Reg_State
begin

text \<open>
  The reachable states of the regulatory core. Since the database is never loaded and the helper
  program never called, no request leads to a new domain: the world domain stays in force.
\<close>

section \<open>Steps\<close>

text \<open>
  The calls into the core and its work items. A step exists only where the model has a result.
\<close>

inductive reg_step :: "reg_core \<Rightarrow> reg_core \<Rightarrow> bool" where
  hint_user: "reg_step s (snd (regulatory_hint_user mem a cell s))"
| hint_country: "reg_step s (regulatory_hint_country_ie mem idx ie s)"
| hint_indoor: "reg_step s (regulatory_hint_indoor b portid s)"
| hint_disconnect: "reg_step s (regulatory_hint_disconnect s)"
| found_beacon: "reg_step s (snd (regulatory_hint_found_beacon mem c s))"
| set_domain: "set_regdom j mem w0 rd s = Some (e, s') \<Longrightarrow> reg_step s s'"
| todo: "reg_todo j mem s = Some s' \<Longrightarrow> reg_step s s'"
| regdb_apply: "reg_regdb_apply j mem w0 s = Some s' \<Longrightarrow> reg_step s s'"
| set_wiphy_regd: "reg_step s (snd (regulatory_set_wiphy_regd mem idx rd s))"
| register: "wiphy_regulatory_register j idx s = Some s' \<Longrightarrow> reg_step s s'"

inductive reg_reach :: "reg_wiphy list \<Rightarrow> reg_core \<Rightarrow> bool" for ws where
  init: "reg_reach ws (regulatory_init ws)"
| step: "reg_reach ws s \<Longrightarrow> reg_step s s' \<Longrightarrow> reg_reach ws s'"

section \<open>The invariant\<close>

text \<open>
  The core part of the state that stays as it is after initialisation, and the initiators of the queued
  requests: the driver's hint is commented out in the port, and the core's own hint is only sent from
  code that is not reached.
\<close>

definition queued_ok :: "regulatory_request \<Rightarrow> bool" where
  "queued_ok r \<longleftrightarrow> rq_initiator r = NL80211_REGDOM_SET_BY_USER \<or>
     rq_initiator r = NL80211_REGDOM_SET_BY_COUNTRY_IE"

definition reg_inv :: "reg_core \<Rightarrow> bool" where
  "reg_inv s \<longleftrightarrow> cfg80211_regdomain s = world_regdom \<and> last_request s = Some core_request_world \<and>
     regdb s = Regdb_null \<and> reg_regdb_apply_list s = [] \<and> user_alpha2 s = no_alpha2 \<and>
     list_all queued_ok (reg_requests_list s)"

named_theorems reg_preserved

lemma inv_init: "reg_inv (regulatory_init ws)"
  by (simp add: reg_inv_def regulatory_init_def)

lemma inv_queue [reg_preserved]:
  "reg_inv s \<Longrightarrow> queued_ok r \<Longrightarrow> reg_inv (queue_regulatory_request r s)"
  by (simp add: reg_inv_def queue_regulatory_request_def Let_def queued_ok_def)

lemma inv_check [reg_preserved]: "reg_inv s \<Longrightarrow> reg_inv (reg_check_channels s)"
  by (simp add: reg_inv_def reg_check_channels_def)

lemma inv_upd_wiphy [reg_preserved]: "reg_inv s \<Longrightarrow> reg_inv (upd_wiphy i f s)"
  by (simp add: reg_inv_def upd_wiphy_def)

lemma inv_share [reg_preserved]: "reg_inv s \<Longrightarrow> reg_inv (wiphy_all_share_dfs_chan_state i s)"
  by (simp add: wiphy_all_share_dfs_chan_state_def inv_upd_wiphy)

lemma update_regulatory_request:
  assumes "wiphy_update_regulatory j world_regdom (Some core_request_world) bl ini w = Some (lr, w')"
  shows "lr = Some core_request_world"
  using assms
  by (auto simp: wiphy_update_regulatory_def Let_def world_regdom_def core_request_world_def
      split: if_splits option.splits)

lemma inv_update_wiphy [reg_preserved]: "reg_inv s \<Longrightarrow> update_wiphy j ini i s = Some s' \<Longrightarrow> reg_inv s'"
  by (auto simp: update_wiphy_def reg_inv_def upd_wiphy_def dest: update_regulatory_request
      split: option.splits)

lemma no_database: "reg_inv s \<Longrightarrow> reg_query_database mem r s = Some (ok, s1) \<Longrightarrow> \<not> ok \<and> s1 = s"
  by (auto simp: reg_inv_def reg_query_database_def query_regdb_file_def call_crda_def)

lemma inv_hint_user: "reg_inv s \<Longrightarrow> reg_process_hint_user mem r s = Some (t, s') \<Longrightarrow> s' = s \<and> t = REG_REQ_IGNORE"
  by (auto simp: reg_process_hint_user_def Let_def split: if_splits option.splits dest: no_database)

lemma inv_hint_country:
  "reg_inv s \<Longrightarrow> reg_process_hint_country_ie mem w r s = Some (t, s') \<Longrightarrow> s' = s"
  by (auto simp: reg_process_hint_country_ie_def Let_def split: if_splits option.splits dest: no_database)

lemma inv_process_hint:
  assumes "reg_inv s" "queued_ok r" "reg_process_hint j mem r s = Some s'"
  shows "reg_inv s'"
proof -
  let ?w = "if rq_wiphy_idx r \<noteq> WIPHY_IDX_INVALID then wiphy_idx_to_wiphy (rq_wiphy_idx r) s else None"
  have fin: "reg_inv s'" if "s1 = s" and
    "(case ?w of None \<Rightarrow> Some s1 | Some w \<Rightarrow>
        if t = REG_REQ_ALREADY_SET \<and> flag_set (regulatory_flags w) REGULATORY_STRICT_REG
        then map_option (\<lambda>s2. reg_check_channels (wiphy_all_share_dfs_chan_state (rw_idx w) s2))
               (update_wiphy j (rq_initiator r) (rw_idx w) s1)
        else Some s1) = Some s'" for t s1
    using that assms(1)
    by (auto split: option.splits if_splits intro: inv_check inv_share inv_update_wiphy)
  show ?thesis
  proof (cases "rq_initiator r = NL80211_REGDOM_SET_BY_USER")
    case True
    then obtain t s1 where h: "reg_process_hint_user mem r s = Some (t, s1)"
      using assms(3) by (auto simp: reg_process_hint_def Let_def split: option.splits)
    have s1: "s1 = s" "t = REG_REQ_IGNORE" using inv_hint_user [OF assms(1) h] by auto
    show ?thesis
      using assms(3) h True s1 assms(1)
      by (auto simp: reg_process_hint_def Let_def split: option.splits if_splits)
  next
    case False
    with assms(2) have i: "rq_initiator r = NL80211_REGDOM_SET_BY_COUNTRY_IE" by (simp add: queued_ok_def)
    show ?thesis
    proof (cases ?w)
      case None
      then show ?thesis using assms(1,3) i by (simp add: reg_process_hint_def Let_def)
    next
      case (Some w)
      then obtain t s1 where h: "reg_process_hint_country_ie mem w r s = Some (t, s1)"
        using assms(3) i by (auto simp: reg_process_hint_def Let_def split: option.splits)
      have "s1 = s" by (rule inv_hint_country [OF assms(1) h])
      with h Some show ?thesis
        using assms(3) i by (intro fin [of s1 t]) (auto simp add: reg_process_hint_def Let_def split: if_splits)
    qed
  qed
qed

lemma inv_todo:
  assumes "reg_inv s" "reg_todo j mem s = Some s'"
  shows "reg_inv s'"
proof -
  from assms(2) obtain s1 where s1: "reg_process_pending_hints j mem (s\<lparr>reg_work := False\<rparr>) = Some s1"
    "s' = reg_process_self_managed_hints j (reg_process_pending_beacon_hints s1)"
    by (auto simp: reg_todo_def)
  have "reg_inv s1"
  proof (cases "reg_requests_list s")
    case Nil
    then show ?thesis using s1(1) assms(1)
      by (auto simp: reg_process_pending_hints_def reg_inv_def split: if_splits)
  next
    case (Cons r rs)
    have lr: "last_request s = Some core_request_world" "rq_processed core_request_world"
      using assms(1) by (simp_all add: reg_inv_def core_request_world_def)
    let ?s0 = "notify_self_managed_wiphys r (s\<lparr>reg_work := False, reg_requests_list := rs\<rparr>)"
    have q: "queued_ok r" "reg_inv ?s0"
      using assms(1) Cons by (simp_all add: reg_inv_def notify_self_managed_wiphys_def)
    obtain s2 where s2: "reg_process_hint j mem r ?s0 = Some s2"
      "s1 = (if reg_requests_list s2 \<noteq> [] \<and> (case last_request s2 of None \<Rightarrow> False | Some lr \<Rightarrow> rq_processed lr)
             then s2\<lparr>reg_work := True\<rparr> else s2)"
      using s1(1) Cons lr by (auto simp: reg_process_pending_hints_def)
    have "reg_inv s2" by (rule inv_process_hint [OF q(2,1) s2(1)])
    then show ?thesis using s2(2) by (simp add: reg_inv_def)
  qed
  then show ?thesis
    by (simp add: s1(2) reg_process_self_managed_hints_def reg_process_pending_beacon_hints_def
        reg_check_channels_def reg_inv_def)
qed

lemma inv_set_regdom:
  assumes "reg_inv s" "set_regdom j mem w0 rd s = Some (e, s')"
  shows "reg_inv s'"
proof -
  have "\<not> reg_is_valid_request a s" for a
    using assms(1) by (simp add: reg_inv_def reg_is_valid_request_def core_request_world_def)
  then show ?thesis
    using assms by (auto simp: set_regdom_def split: option.splits)
qed

lemma inv_register:
  assumes "reg_inv s" "wiphy_regulatory_register j i s = Some s'"
  shows "reg_inv s'"
proof -
  obtain f ini z where "update_wiphy j ini i (upd_wiphy i f s) = Some z"
    "s' = wiphy_all_share_dfs_chan_state i z"
    using assms(2) by (auto simp: wiphy_regulatory_register_def Let_def)
  then show ?thesis
    using inv_share inv_update_wiphy inv_upd_wiphy assms(1) by blast
qed

lemma inv_step: "reg_step s s' \<Longrightarrow> reg_inv s \<Longrightarrow> reg_inv s'"
proof (induction rule: reg_step.induct)
  case (hint_user s mem a cell)
  then show ?case
    by (auto simp: regulatory_hint_user_def queued_ok_def new_request_def split: option.splits intro!: inv_queue)
next
  case (hint_country s mem idx ie)
  then show ?case
    by (auto simp: regulatory_hint_country_ie_def Let_def queued_ok_def new_request_def
        split: option.splits intro!: inv_queue)
next
  case (found_beacon s mem c)
  then show ?case by (auto simp: regulatory_hint_found_beacon_def reg_inv_def)
next
  case (set_wiphy_regd s mem idx rd)
  then show ?case
    by (auto simp: regulatory_set_wiphy_regd_def reg_inv_def upd_wiphy_def split: option.splits)
next
  case (regdb_apply j mem w0 s s')
  then show ?case by (auto simp: reg_regdb_apply_def reg_inv_def)
next
  case (hint_indoor s b portid)
  then show ?case by (simp add: regulatory_hint_indoor_def reg_inv_def reg_check_channels_def Let_def)
next
  case (hint_disconnect s)
  then show ?case by (simp add: regulatory_hint_disconnect_def)
next
  case (set_domain j mem w0 rd s e s')
  then show ?case by (blast intro: inv_set_regdom)
next
  case (todo j mem s s')
  then show ?case by (blast intro: inv_todo)
next
  case (register j idx s s')
  then show ?case by (blast intro: inv_register)
qed

text \<open>
  Property C24: whatever hints users, access points and scans give and however the work items run, the
  regulatory domain of the port stays the static world domain, no request is ever in progress, and no
  database is loaded.
\<close>

theorem reg_world_forever:
  assumes "reg_reach ws s"
  shows "cfg80211_regdomain s = world_regdom \<and> last_request s = Some core_request_world \<and>
    regdb s = Regdb_null \<and> reg_regdb_apply_list s = []"
proof -
  from assms have "reg_inv s"
  proof induction
    case init
    show ?case by (rule inv_init)
  next
    case (step s s')
    then show ?case by (blast intro: inv_step)
  qed
  then show ?thesis by (simp add: reg_inv_def)
qed

theorem reg_world_forever_witness:
  "cfg80211_regdomain (the (reg_todo 0 True (snd (regulatory_hint_user True (Some (0x55, 0x53)) False
     (regulatory_init []))))) = world_regdom"
proof -
  let ?s1 = "snd (regulatory_hint_user True (Some (0x55, 0x53)) False (regulatory_init []))"
  have "reg_todo 0 True ?s1 \<noteq> None" by code_simp
  then obtain s2 where s2: "reg_todo 0 True ?s1 = Some s2" by blast
  have "reg_reach [] s2"
    by (rule reg_reach.step [OF reg_reach.step [OF reg_reach.init reg_step.hint_user] reg_step.todo [OF s2]])
  from reg_world_forever [OF this] s2 show ?thesis by simp
qed

end
