(* ===== verification/Reg_Db_Props.thy ===== *)
theory Reg_Db_Props
  imports Reg_Db
begin

text \<open>
  Memory safety of the database parser: what a file that passes validation guarantees for the reads of a
  query. A query stays inside a validated file of whole words up to the optional fields of a rule, and the
  length check of a rule covers its first byte only.
\<close>

section \<open>Reads of a longer file\<close>

text \<open>Bytes after the end of a file do not change what is read inside of it.\<close>

lemma rd8_append: "rd8 d p = Some x \<Longrightarrow> rd8 (d @ e) p = Some x"
  by (auto simp: rd8_def nth_append split: if_splits)

lemma rd16_append: "rd16 d p = Some x \<Longrightarrow> rd16 (d @ e) p = Some x"
  by (auto simp: rd16_def nth_append split: if_splits)

lemma rd8_bound: "(\<exists>x. rd8 d p = Some x) \<longleftrightarrow> p < length d"
  by (auto simp: rd8_def)

lemma rd16_bound: "(\<exists>x. rd16 d p = Some x) \<longleftrightarrow> p + 1 < length d"
  by (auto simp: rd16_def)

lemma rd32_bound: "(\<exists>x. rd32 d p = Some x) \<longleftrightarrow> p + 3 < length d"
  by (auto simp: rd32_def rd16_def split: option.splits)

lemma valid_wmm_loop_append: "valid_wmm_loop d ps = Some b \<Longrightarrow> valid_wmm_loop (d @ e) ps = Some b"
  by (induction d ps rule: valid_wmm_loop.induct)
    (auto simp: rd8_append split: option.splits if_splits)

lemma valid_wmm_append: "valid_wmm d p = Some b \<Longrightarrow> valid_wmm (d @ e) p = Some b"
  by (simp add: valid_wmm_def valid_wmm_loop_append)

lemma read_wmm_acs_inside:
  "(\<And>p. p \<in> set ps \<Longrightarrow> p + 4 \<le> length d) \<Longrightarrow> \<exists>acs. read_wmm_acs d ps = Some acs"
proof (induction ps)
  case (Cons p ps)
  from Cons.prems [of p] have p: "p + 4 \<le> length d" by simp
  obtain acs where "read_wmm_acs d ps = Some acs" using Cons by auto
  moreover obtain x y z where "rd8 d p = Some x" "rd8 d (p + 1) = Some y" "rd16 d (p + 2) = Some z"
    using p by (auto simp: rd8_def rd16_def)
  ultimately show ?case by auto
qed simp

section \<open>Rules\<close>

lemma align2_ge: "n \<le> align2 n"
  by (simp add: align2_def)

text \<open>A rule that passes validation can be read when 14 bytes follow the file.\<close>

lemma valid_rule_readable:
  assumes v: "valid_rule d rp = Some True" and "4 dvd length d" "14 \<le> length e"
  shows "\<exists>r. read_rule (d @ e) (rp * 4) = Some r"
proof -
  let ?r = "rp * 4"
  have in1: "?r < length d" using v by (auto simp: valid_rule_def Let_def split: if_splits)
  then have in4: "?r + 4 \<le> length d" using assms(2) by (elim dvdE) simp
  have "rd8 d ?r = Some (unat (d ! ?r))" using in1 by (simp add: rd8_def)
  then obtain len where len: "rd8 d ?r = Some len" by blast
  have len': "rd8 (d @ e) ?r = Some len" by (rule rd8_append [OF len])
  have b: "?r + 18 \<le> length (d @ e)" using in4 assms(3) by simp
  obtain f p s t w where fixed: "rd8 (d @ e) (?r + 1) = Some f" "rd16 (d @ e) (?r + 2) = Some p"
    "rd32 (d @ e) (?r + 4) = Some s" "rd32 (d @ e) (?r + 8) = Some t" "rd32 (d @ e) (?r + 12) = Some w"
    using b rd8_bound [of "d @ e" "?r + 1"] rd16_bound [of "d @ e" "?r + 2"]
      rd32_bound [of "d @ e" "?r + 4"] rd32_bound [of "d @ e" "?r + 8"] rd32_bound [of "d @ e" "?r + 12"]
    by auto
  obtain c where c: "rd16 (d @ e) (?r + 16) = Some c" using b rd16_bound [of "d @ e" "?r + 16"] by auto
  have "\<exists>m. set_wmm_rule (d @ e) ?r = Some m" if l20: "20 \<le> len"
  proof -
    obtain wp where wp: "rd16 d (?r + 18) = Some wp" "wp * 4 + 32 \<le> length d"
      "valid_wmm d (wp * 4) = Some True"
      using v l20 len in1 by (cases "rd16 d (?r + 18)") (auto simp: valid_rule_def Let_def split: if_splits)
    have "\<exists>a. read_wmm_acs (d @ e) (map (\<lambda>i. wp * 4 + 4 * i) [0..<4]) = Some a"
      by (rule read_wmm_acs_inside) (use wp(2) in auto)
    moreover have "\<exists>a. read_wmm_acs (d @ e) (map (\<lambda>i. wp * 4 + 16 + 4 * i) [0..<4]) = Some a"
      by (rule read_wmm_acs_inside) (use wp(2) in auto)
    ultimately show ?thesis
      using rd16_append [OF wp(1)] valid_wmm_append [OF wp(3)] by (auto simp: set_wmm_rule_def)
  qed
  then show ?thesis using len' fixed c by (auto simp: read_rule_def)
qed

lemma valid_rules_readable:
  "valid_rules d ps = Some True \<Longrightarrow> 4 dvd length d \<Longrightarrow> 14 \<le> length e \<Longrightarrow>
   \<exists>rs. read_rules (d @ e) ps = Some rs"
proof (induction d ps rule: valid_rules.induct)
  case (2 d p ps)
  obtain rp where rp: "rd16 d p = Some rp" "valid_rule d rp = Some True" "valid_rules d ps = Some True"
    using 2(2) by (auto split: option.splits bool.splits)
  obtain rs where "read_rules (d @ e) ps = Some rs" using 2(1) [OF rp(1,2)] rp(3) 2(3,4) by auto
  moreover obtain r where "read_rule (d @ e) (rp * 4) = Some r"
    using valid_rule_readable [OF rp(2) 2(3,4)] by blast
  ultimately show ?case using rd16_append [OF rp(1)] by simp
qed simp

section \<open>Countries\<close>

lemma valid_country_readable:
  assumes v: "valid_country d c = Some True" and "c + 4 \<le> length d" "4 dvd length d" "14 \<le> length e"
  shows "\<exists>r. regdb_query_country (d @ e) c = Some r"
proof -
  obtain cp where cp: "rd16 d (c + 2) = Some cp" using assms(2) rd16_bound [of d "c + 2"] by auto
  obtain len n where ln: "rd8 d (cp * 4) = Some len" "rd8 d (cp * 4 + 1) = Some n" "3 \<le> len"
    "cp * 4 + align2 len + n * 2 \<le> length d"
    "valid_rules d (rule_ptrs (cp * 4) len n) = Some True"
    using v cp by (auto simp: valid_country_def Let_def split: option.splits if_splits)
  obtain a b where ab: "rd8 (d @ e) c = Some a" "rd8 (d @ e) (c + 1) = Some b"
    using assms(2) rd8_bound [of "d @ e" c] rd8_bound [of "d @ e" "c + 1"] by auto
  obtain dfs where "rd8 (d @ e) (cp * 4 + 2) = Some dfs"
    using ln(3,4) align2_ge [of len] rd8_bound [of "d @ e" "cp * 4 + 2"] by auto
  with ab rd16_append [OF cp] rd8_append [OF ln(1)] rd8_append [OF ln(2)]
    valid_rules_readable [OF ln(5) assms(3,4)]
  show ?thesis by (auto simp: regdb_query_country_def)
qed

lemma valid_countries_readable:
  assumes "valid_countries d c = Some True" "4 dvd length d" "4 dvd c" "c \<le> length d" "n \<ge> 14"
  shows "query_regdb_loop (d @ replicate n 0) a c \<noteq> None"
  using assms
proof (induction d c rule: valid_countries.induct)
  case (1 d c)
  let ?e = "d @ replicate n 0"
  have b: "c + 4 \<le> length ?e" using 1(5,6) by simp
  obtain x y where xy: "rd8 ?e c = Some x" "rd8 ?e (c + 1) = Some y"
    using b rd8_bound [of ?e c] rd8_bound [of ?e "c + 1"] by auto
  show ?case
  proof (cases "c + 4 \<le> length d")
    case False
    then have "length d = c" using 1(3,4,5) by (elim dvdE) auto
    then have "rd16 ?e (c + 2) = Some 0" using 1(6) by (simp add: rd16_def nth_append)
    with xy show ?thesis by (subst query_regdb_loop.simps) simp
  next
    case True
    then obtain cp where cp: "rd16 d (c + 2) = Some cp" using rd16_bound [of d "c + 2"] by auto
    note cp' = rd16_append [OF cp, of "replicate n 0"]
    show ?thesis
    proof (cases "cp = 0")
      case True
      with xy cp' show ?thesis by (subst query_regdb_loop.simps) simp
    next
      case False
      have v: "valid_country d c = Some True" "valid_countries d (c + 4) = Some True"
        using 1(2) True cp False
        by (auto simp: valid_countries.simps [of d c] split: option.splits bool.splits)
      have "query_regdb_loop ?e a (c + 4) \<noteq> None"
        using 1(1) [OF True cp False v(1)] v(2) True 1(3-6) by simp
      moreover obtain r where "regdb_query_country ?e c = Some r"
        using valid_country_readable [OF v(1) True 1(3), of "replicate n 0"] 1(6) by auto
      ultimately show ?thesis
        using False xy cp' by (subst query_regdb_loop.simps) simp
    qed
  qed
qed


text \<open>
  A file with one country, one collection and one rule: the rule begins in the last word of the file, which
  holds its length, its flags and its power.
\<close>

definition regdb_cut :: bytes where
  "regdb_cut = [0x52, 0x47, 0x44, 0x42, 0, 0, 0, 20, 0x44, 0x45, 0, 4, 0, 0, 0, 0,
     4, 1, 0, 0, 0, 6, 0, 0, 16, 0, 0, 20]"

lemma regdb_cut_valid: "valid_regdb (\<lambda>_. True) regdb_cut = Some True"
proof -
  have "valid_rule regdb_cut 6 = Some True"
    by (simp add: valid_rule_def rd8_def regdb_cut_def)
  then have "valid_rules regdb_cut [20] = Some True"
    by (simp add: rd16_def regdb_cut_def)
  then have "valid_country regdb_cut 8 = Some True"
    by (simp add: valid_country_def rd16_def rd8_def align2_def rule_ptrs_def regdb_cut_def)
  then have "valid_countries regdb_cut 8 = Some True"
    by (subst valid_countries.simps) (simp add: valid_countries.simps [of _ 12] rd16_def regdb_cut_def)
  then show ?thesis
    by (simp add: valid_regdb_def rd32_def rd16_def regdb_cut_def FWDB_MAGIC_def FWDB_VERSION_def)
qed


text \<open>
  Validation does not protect the reads of a rule. A file is accepted whose rule has its length
  byte in the file and its mandatory fields behind the end; the query of its country reads them.
\<close>

theorem regdb_overread:
  "valid_regdb (\<lambda>_. True) regdb_cut = Some True \<and> query_regdb regdb_cut (0x44, 0x45) = None"
proof
  show "valid_regdb (\<lambda>_. True) regdb_cut = Some True" by (rule regdb_cut_valid)
  have "read_rule regdb_cut 24 = None"
    by (simp add: read_rule_def rd32_def rd16_def rd8_def regdb_cut_def)
  then have "regdb_query_country regdb_cut 8 = None"
    by (simp add: regdb_query_country_def rd16_def rd8_def align2_def rule_ptrs_def regdb_cut_def)
  then show "query_regdb regdb_cut (0x44, 0x45) = None"
    unfolding query_regdb_def
    by (subst query_regdb_loop.simps) (simp add: rd16_def rd8_def alpha2_equal_def regdb_cut_def)
qed

end
