(* ===== verification/Crc32.thy ===== *)
theory Crc32
  imports Prelude
begin

unbundle bit_operations_syntax

text \<open>
  Model of the checksums of \<open>include/linux/crc32.c\<close>: the slicing-by-8 loop with its tables, the bitwise
  loop, and the concatenation of checksums by multiplication of polynomials over GF(2).

  The tables are a function from the row and the index. \<open>le\<close> is the preprocessor condition
  \<open>__LITTLE_ENDIAN\<close> and \<open>addr\<close> the address of the buffer, of which the code tests the alignment. A word
  read from the buffer is little-endian, the byte order of the machines of the port. \<open>CONFIG_64BIT\<close> is
  defined in \<open>asm/types.h\<close>, so that 64 bits are processed at a time.
\<close>

section \<open>Bytes of a word\<close>

fun le32 :: "bytes \<Rightarrow> u32" where
  "le32 [] = 0"
| "le32 (b # bs) = ucast b OR push_bit 8 (le32 bs)"

definition byte_of :: "u32 \<Rightarrow> nat \<Rightarrow> u8" where
  "byte_of q i = ucast (drop_bit (8 * i) q)"

definition swab32 :: "u32 \<Rightarrow> u32" where
  "swab32 q = le32 [byte_of q 3, byte_of q 2, byte_of q 1, byte_of q 0]"

section \<open>The slicing loop\<close>

type_synonym crc_table = "nat \<Rightarrow> u8 \<Rightarrow> u32"

definition do_crc :: "bool \<Rightarrow> crc_table \<Rightarrow> u32 \<Rightarrow> u8 \<Rightarrow> u32" where
  "do_crc le tab crc x =
     (if le then tab 0 (ucast (crc XOR ucast x)) XOR drop_bit 8 crc
      else tab 0 (ucast (drop_bit 24 crc XOR ucast x)) XOR push_bit 8 crc)"

definition do_crc4 :: "bool \<Rightarrow> crc_table \<Rightarrow> u32 \<Rightarrow> u32" where
  "do_crc4 le tab q =
     (if le then tab 3 (byte_of q 0) XOR tab 2 (byte_of q 1) XOR tab 1 (byte_of q 2) XOR tab 0 (byte_of q 3)
      else tab 0 (byte_of q 0) XOR tab 1 (byte_of q 1) XOR tab 2 (byte_of q 2) XOR tab 3 (byte_of q 3))"

definition do_crc8 :: "bool \<Rightarrow> crc_table \<Rightarrow> u32 \<Rightarrow> u32" where
  "do_crc8 le tab q =
     (if le then tab 7 (byte_of q 0) XOR tab 6 (byte_of q 1) XOR tab 5 (byte_of q 2) XOR tab 4 (byte_of q 3)
      else tab 4 (byte_of q 0) XOR tab 5 (byte_of q 1) XOR tab 6 (byte_of q 2) XOR tab 7 (byte_of q 3))"

text \<open>The loop over the aligned words and the bytes after them.\<close>

fun crc32_words :: "bool \<Rightarrow> crc_table \<Rightarrow> u32 \<Rightarrow> bytes \<Rightarrow> u32" where
  "crc32_words le tab crc (a # b # c # d # e # f # g # h # buf) =
     crc32_words le tab (do_crc8 le tab (crc XOR le32 [a, b, c, d]) XOR do_crc4 le tab (le32 [e, f, g, h])) buf"
| "crc32_words le tab crc buf = foldl (do_crc le tab) crc buf"

definition crc32_body :: "bool \<Rightarrow> u32 \<Rightarrow> nat \<Rightarrow> bytes \<Rightarrow> crc_table \<Rightarrow> u32" where
  "crc32_body le crc addr buf tab =
     (let n = (4 - addr mod 4) mod 4
      in crc32_words le tab (foldl (do_crc le tab) crc (take n buf)) (drop n buf))"

definition crc32_le_generic :: "bool \<Rightarrow> u32 \<Rightarrow> nat \<Rightarrow> bytes \<Rightarrow> crc_table \<Rightarrow> u32" where
  "crc32_le_generic le crc addr p tab = crc32_body le crc addr p tab"

definition crc32_be_generic :: "bool \<Rightarrow> u32 \<Rightarrow> nat \<Rightarrow> bytes \<Rightarrow> crc_table \<Rightarrow> u32" where
  "crc32_be_generic le crc addr p tab = swab32 (crc32_body le (swab32 crc) addr p tab)"

text \<open>
  The tables of \<open>crc32table.h\<close> are static arrays without initialiser and nothing in the port fills them.
\<close>

definition crc32table_le :: crc_table where "crc32table_le row i = 0"
definition crc32table_be :: crc_table where "crc32table_be row i = 0"
definition crc32ctable_le :: crc_table where "crc32ctable_le row i = 0"

definition crc32_le :: "bool \<Rightarrow> u32 \<Rightarrow> nat \<Rightarrow> bytes \<Rightarrow> u32" where
  "crc32_le le crc addr p = crc32_le_generic le crc addr p crc32table_le"

definition crc32c_le :: "bool \<Rightarrow> u32 \<Rightarrow> nat \<Rightarrow> bytes \<Rightarrow> u32" where
  "crc32c_le le crc addr p = crc32_le_generic le crc addr p crc32ctable_le"

definition crc32_be :: "bool \<Rightarrow> u32 \<Rightarrow> nat \<Rightarrow> bytes \<Rightarrow> u32" where
  "crc32_be le crc addr p = crc32_be_generic le crc addr p crc32table_be"

section \<open>The bitwise loop\<close>

text \<open>The variant of \<open>crc32_le_generic\<close> for \<open>CRC_LE_BITS == 1\<close>, the reference of the others.\<close>

definition crc_bit :: "u32 \<Rightarrow> u32 \<Rightarrow> u32" where
  "crc_bit polynomial crc = drop_bit 1 crc XOR (if bit crc 0 then polynomial else 0)"

definition crc_byte :: "u32 \<Rightarrow> u32 \<Rightarrow> u8 \<Rightarrow> u32" where
  "crc_byte polynomial crc x = (crc_bit polynomial ^^ 8) (crc XOR ucast x)"

definition crc32_le_bitwise :: "u32 \<Rightarrow> u32 \<Rightarrow> bytes \<Rightarrow> u32" where
  "crc32_le_bitwise polynomial crc p = foldl (crc_byte polynomial) crc p"

section \<open>Concatenation\<close>

fun gf2_loop :: "nat \<Rightarrow> u32 \<Rightarrow> u32 \<Rightarrow> u32 \<Rightarrow> u32 \<Rightarrow> u32" where
  "gf2_loop 0 product x y modulus = product"
| "gf2_loop (Suc i) product x y modulus =
     (let p1 = drop_bit 1 product XOR (if bit product 0 then modulus else 0);
          x1 = drop_bit 1 x
      in gf2_loop i (p1 XOR (if bit x1 0 then y else 0)) x1 y modulus)"

definition gf2_multiply :: "u32 \<Rightarrow> u32 \<Rightarrow> u32 \<Rightarrow> u32" where
  "gf2_multiply x y modulus = gf2_loop 31 (if bit x 0 then y else 0) x y modulus"

text \<open>The loop over the bits of the length; \<open>len\<close> is not 0.\<close>

fun shift_loop :: "u32 \<Rightarrow> u32 \<Rightarrow> nat \<Rightarrow> u32 \<Rightarrow> u32" where
  "shift_loop polynomial crc len pw =
     (let crc1 = (if odd len then gf2_multiply crc pw polynomial else crc)
      in if len div 2 = 0 then crc1
         else shift_loop polynomial crc1 (len div 2) (gf2_multiply pw pw polynomial))"

declare shift_loop.simps [simp del]

definition crc32_generic_shift :: "u32 \<Rightarrow> nat \<Rightarrow> u32 \<Rightarrow> u32" where
  "crc32_generic_shift crc len polynomial =
     (let crc1 = (crc_bit polynomial ^^ (8 * (len mod 4))) crc
      in if len div 4 = 0 then crc1 else shift_loop polynomial crc1 (len div 4) polynomial)"

definition CRC32_POLY_LE :: u32 where "CRC32_POLY_LE = 0xedb88320"
definition CRC32C_POLY_LE :: u32 where "CRC32C_POLY_LE = 0x82F63B78"

definition crc32_le_shift :: "u32 \<Rightarrow> nat \<Rightarrow> u32" where
  "crc32_le_shift crc len = crc32_generic_shift crc len CRC32_POLY_LE"

definition crc32c_le_shift :: "u32 \<Rightarrow> nat \<Rightarrow> u32" where
  "crc32c_le_shift crc len = crc32_generic_shift crc len CRC32C_POLY_LE"

definition crc32_le_combine :: "u32 \<Rightarrow> u32 \<Rightarrow> nat \<Rightarrow> u32" where
  "crc32_le_combine crc1 crc2 len2 = crc32_le_shift crc1 len2 XOR crc2"

definition crc32c_le_combine :: "u32 \<Rightarrow> u32 \<Rightarrow> nat \<Rightarrow> u32" where
  "crc32c_le_combine crc1 crc2 len2 = crc32c_le_shift crc1 len2 XOR crc2"

end
