(* ===== verification/Crc32_Props.thy ===== *)
theory Crc32_Props
  imports Crc32
begin

unbundle bit_operations_syntax

text \<open>
  The step of the bitwise checksum is linear, and shifts a word whose low bits are zero. From these two
  facts follow the slicing loop (for the tables it was written for) and the logarithmic shift. Last, what
  the loop does with the tables of the port.
\<close>

section \<open>Linearity\<close>

lemma crc_bit_xor: "crc_bit P (a XOR b) = crc_bit P a XOR crc_bit P b"
  by (auto simp: crc_bit_def bit_xor_iff ac_simps xor_self_eq)

lemma crc_bit_zero [simp]: "crc_bit P 0 = 0"
  by (simp add: crc_bit_def)

lemma crc_bits_xor: "(crc_bit P ^^ n) (a XOR b) = (crc_bit P ^^ n) a XOR (crc_bit P ^^ n) b"
  by (induction n) (simp_all add: crc_bit_xor)

lemma crc_bits_zero [simp]: "(crc_bit P ^^ n) 0 = 0"
  by (induction n) simp_all

lemma crc_bits_shift: "take_bit n y = 0 \<Longrightarrow> (crc_bit P ^^ n) y = drop_bit n y"
proof (induction n arbitrary: y)
  case (Suc n)
  have low: "\<not> bit y i" if "i < Suc n" for i
    using Suc.prems that by (metis bit_0_eq bit_take_bit_iff bot_apply bot_bool_def)
  have "take_bit n (drop_bit 1 y) = 0"
    by (rule bit_word_eqI) (simp add: bit_take_bit_iff bit_drop_bit_eq low)
  then have "(crc_bit P ^^ n) (drop_bit 1 y) = drop_bit n (drop_bit 1 y)" by (rule Suc.IH)
  moreover have "crc_bit P y = drop_bit 1 y" using low [of 0] by (simp add: crc_bit_def)
  ultimately show ?case by (simp add: funpow_Suc_right del: funpow.simps)
qed simp

lemma split_word: "q = take_bit n q XOR push_bit n (drop_bit n q)" for q :: u32
  by (rule bit_word_eqI) (auto simp: bit_simps)

text \<open>The steps of a word, by its low bits and the rest.\<close>

lemma crc_bits_split: "(crc_bit P ^^ n) q = (crc_bit P ^^ n) (take_bit n q) XOR drop_bit n q"
proof -
  have "drop_bit n (push_bit n (drop_bit n q)) = drop_bit n q"
    by (rule bit_word_eqI) (auto simp: bit_simps dest: bit_imp_le_length)
  then show ?thesis
    by (subst (1) split_word [of q n]) (simp add: crc_bits_xor crc_bits_shift take_bit_push_bit)
qed

lemma crc_bits_add: "(crc_bit P ^^ (m + n)) a = (crc_bit P ^^ m) ((crc_bit P ^^ n) a)"
  by (simp add: funpow_add)

section \<open>The slicing loop\<close>

text \<open>The tables the loop is written for: row \<open>k\<close> holds the checksums of a byte and \<open>k\<close> zero bytes.\<close>

definition slice_table :: "u32 \<Rightarrow> crc_table" where
  "slice_table P row i = (crc_bit P ^^ (8 * Suc row)) (ucast i)"

lemma take8: "take_bit 8 q = (ucast (ucast q :: u8) :: u32)"
  by (rule bit_word_eqI) (auto simp: bit_simps)

lemma crc_bits8: "(crc_bit P ^^ (n + 8)) q = (crc_bit P ^^ (n + 8)) (ucast (ucast q :: u8)) XOR (crc_bit P ^^ n) (drop_bit 8 q)"
  by (subst (1) crc_bits_add, subst crc_bits_split, simp only: take8 crc_bits_xor crc_bits_add [symmetric])

lemma do_crc_slice: "do_crc True (slice_table P) crc x = crc_byte P crc x"
proof -
  have "drop_bit 8 (crc XOR ucast x) = drop_bit 8 crc"
    by (rule bit_word_eqI) (auto simp: bit_simps dest: bit_imp_le_length)
  then show ?thesis
    using crc_bits8 [of 0 P "crc XOR ucast x"] by (simp add: do_crc_def crc_byte_def slice_table_def)
qed

lemma top_byte: "ucast (byte_of q 3) = drop_bit 24 q"
  by (rule bit_word_eqI) (auto simp: byte_of_def bit_simps dest: bit_imp_le_length)

lemma crc_bits32:
  "(crc_bit P ^^ (n + 32)) q =
     (crc_bit P ^^ (n + 32)) (ucast (byte_of q 0)) XOR (crc_bit P ^^ (n + 24)) (ucast (byte_of q 1)) XOR
     (crc_bit P ^^ (n + 16)) (ucast (byte_of q 2)) XOR (crc_bit P ^^ (n + 8)) (ucast (byte_of q 3))"
  using crc_bits8 [of "n + 24" P q] crc_bits8 [of "n + 16" P "drop_bit 8 q"]
    crc_bits8 [of "n + 8" P "drop_bit 16 q"] top_byte [of q]
  by (simp add: byte_of_def ac_simps)

lemma do_crc4_slice: "do_crc4 True (slice_table P) q = (crc_bit P ^^ 32) q"
  using crc_bits32 [of 0 P q] by (simp add: do_crc4_def slice_table_def)

lemma do_crc8_slice: "do_crc8 True (slice_table P) q = (crc_bit P ^^ 64) q"
  using crc_bits32 [of 32 P q] by (simp add: do_crc8_def slice_table_def)

lemma le32_bits: "bit (le32 bs) i \<Longrightarrow> i < 8 * length bs"
proof (induction bs arbitrary: i)
  case (Cons b bs)
  have "i - 8 < 8 * length bs" if "bit (le32 bs) (i - 8)" by (rule Cons.IH [OF that])
  then show ?case using Cons.prems by (auto simp: bit_simps dest: bit_imp_le_length)
qed simp

lemma le32_cons: "le32 (b # bs) = ucast b XOR push_bit 8 (le32 bs)"
  by (rule bit_word_eqI) (auto simp: bit_simps dest: bit_imp_le_length)

text \<open>Up to four bytes at once.\<close>

lemma crc_bytes_word:
  "length bs \<le> 4 \<Longrightarrow> foldl (crc_byte P) crc bs = (crc_bit P ^^ (8 * length bs)) (crc XOR le32 bs)"
proof (induction bs arbitrary: crc)
  case (Cons b bs)
  have "i < 24" if "bit (le32 bs) i" for i
    using le32_bits [OF that] Cons.prems by simp
  then have "drop_bit 8 (push_bit 8 (le32 bs)) = le32 bs"
    by (intro bit_word_eqI) (auto simp: bit_simps)
  then have "(crc_bit P ^^ 8) (push_bit 8 (le32 bs)) = le32 bs"
    by (simp add: crc_bits_shift take_bit_push_bit)
  then have "(crc_bit P ^^ (8 * length bs + 8)) (crc XOR le32 (b # bs)) =
      (crc_bit P ^^ (8 * length bs)) (crc_byte P crc b XOR le32 bs)"
    by (simp only: crc_bits_add le32_cons crc_byte_def flip: crc_bits_xor xor.assoc)
      (simp add: crc_bits_xor)
  then show ?case using Cons by (simp add: ac_simps)
qed simp

lemma crc32_words_slice: "crc32_words True (slice_table P) crc buf = foldl (crc_byte P) crc buf"
proof (induction True "slice_table P" crc buf rule: crc32_words.induct)
  case (1 crc a b c d e f g h buf)
  have "foldl (crc_byte P) (foldl (crc_byte P) crc [a, b, c, d]) [e, f, g, h] =
      (crc_bit P ^^ 64) (crc XOR le32 [a, b, c, d]) XOR (crc_bit P ^^ 32) (le32 [e, f, g, h])"
    by (simp only: crc_bytes_word list.size) (simp add: crc_bits_xor del: le32.simps flip: crc_bits_add)
  with 1 show ?case by (simp add: do_crc4_slice do_crc8_slice del: le32.simps)
qed (simp_all add: do_crc_slice [abs_def])

text \<open>
  With the tables it is written for, the loop that takes eight bytes at a time computes the
  bitwise checksum, for every buffer, alignment and polynomial.
\<close>

theorem crc32_slicing:
  "crc32_le_generic True crc addr p (slice_table P) = crc32_le_bitwise P crc p"
  by (simp add: crc32_le_generic_def crc32_body_def crc32_words_slice do_crc_slice [abs_def]
      crc32_le_bitwise_def Let_def flip: foldl_append)

section \<open>Concatenation\<close>

lemma crc32_le_bitwise_xor:
  "crc32_le_bitwise P (a XOR b) p = (crc_bit P ^^ (8 * length p)) a XOR crc32_le_bitwise P b p"
proof (induction p arbitrary: a b)
  case (Cons x p)
  have "crc_byte P (a XOR b) x = (crc_bit P ^^ 8) a XOR crc_byte P b x"
    by (simp only: crc_byte_def xor.assoc crc_bits_xor)
  with Cons show ?case
    by (simp add: crc32_le_bitwise_def flip: crc_bits_add) (simp add: ac_simps)
qed (simp add: crc32_le_bitwise_def)

text \<open>The loop of the multiplication, by what it adds to the product.\<close>

primrec gf2_sum :: "nat \<Rightarrow> u32 \<Rightarrow> u32 \<Rightarrow> u32 \<Rightarrow> u32" where
  "gf2_sum 0 x y P = 0"
| "gf2_sum (Suc i) x y P =
     (crc_bit P ^^ i) (if bit (drop_bit 1 x) 0 then y else 0) XOR gf2_sum i (drop_bit 1 x) y P"

lemma gf2_loop_Suc:
  "gf2_loop (Suc i) product x y P =
     gf2_loop i (crc_bit P product XOR (if bit (drop_bit 1 x) 0 then y else 0)) (drop_bit 1 x) y P"
  by (simp add: crc_bit_def Let_def)

lemma gf2_loop_sum: "gf2_loop i product x y P = (crc_bit P ^^ i) product XOR gf2_sum i x y P"
proof (induction i arbitrary: product x)
  case (Suc i)
  then show ?case
    by (simp only: gf2_loop_Suc gf2_sum.simps crc_bits_xor funpow_Suc_right comp_apply xor.assoc)
qed simp

lemma crc_bits_commute: "(crc_bit P ^^ m) ((crc_bit P ^^ n) a) = (crc_bit P ^^ n) ((crc_bit P ^^ m) a)"
  by (simp add: add.commute flip: crc_bits_add)

lemma gf2_sum_steps: "gf2_sum i x ((crc_bit P ^^ n) y) P = (crc_bit P ^^ n) (gf2_sum i x y P)"
  by (induction i arbitrary: x) (auto simp: crc_bits_xor crc_bits_commute)

lemma gf2_multiply_steps: "gf2_multiply x ((crc_bit P ^^ n) y) P = (crc_bit P ^^ n) (gf2_multiply x y P)"
proof -
  have "(if bit x 0 then (crc_bit P ^^ n) y else 0) = (crc_bit P ^^ n) (if bit x 0 then y else 0)" by simp
  then show ?thesis
    by (simp only: gf2_multiply_def gf2_loop_sum gf2_sum_steps crc_bits_xor) (simp only: crc_bits_commute)
qed

text \<open>The top bit is the polynomial 1.\<close>

definition gf2_one :: u32 where "gf2_one = push_bit 31 1"

lemma gf2_one_bit [bit_simps]: "bit gf2_one n \<longleftrightarrow> n = 31"
  unfolding gf2_one_def bit_push_bit_iff by auto

lemma gf2_one_step:
  assumes "0 < j" "j \<le> 31"
  shows "drop_bit 1 (push_bit j (take_bit (32 - j) x)) XOR (if bit (drop_bit (32 - j) x) 0 then gf2_one else 0) =
    push_bit (j - 1) (take_bit (33 - j) x)"
proof -
  have top: "n < 31" if "bit x (Suc n - j)" "\<not> bit x (32 - j)" "n < 32" for n
    using that by (cases "n = 31") auto
  show ?thesis
    using assms by (intro bit_word_eqI) (auto simp: bit_simps less_diff_conv not_le less_Suc_eq intro: top)
qed

lemma gf2_loop_one:
  "i \<le> 31 \<Longrightarrow> gf2_loop i (push_bit i (take_bit (32 - i) x)) (drop_bit (31 - i) x) gf2_one P = x"
proof (induction i)
  case 0
  show ?case by (simp, rule bit_word_eqI) (simp add: bit_simps)
next
  case (Suc i)
  have a: "\<not> bit (push_bit (Suc i) (take_bit (32 - Suc i) x)) 0"
    unfolding bit_push_bit_iff by simp
  have b: "drop_bit 1 (drop_bit (31 - Suc i) x) = drop_bit (31 - i) x"
    using Suc.prems by (simp add: drop_bit_drop_bit Suc_diff_le [symmetric])
  have c: "drop_bit 1 (push_bit (Suc i) (take_bit (32 - Suc i) x)) XOR
      (if bit (drop_bit (31 - i) x) 0 then gf2_one else 0) = push_bit i (take_bit (32 - i) x)"
    using gf2_one_step [of "Suc i" x] Suc.prems by simp
  show ?case
    using Suc.IH Suc.prems by (simp only: gf2_loop.simps Let_def b) (simp only: a if_False xor.right_neutral c Suc_leD)
qed

lemma gf2_multiply_one: "gf2_multiply x gf2_one P = x"
proof -
  have "(if bit x 0 then gf2_one else 0) = push_bit 31 (take_bit 1 x)"
    by (rule bit_word_eqI) (auto simp: bit_simps bit_0)
  then show ?thesis using gf2_loop_one [of 31 x P] by (simp add: gf2_multiply_def)
qed

lemma gf2_multiply_power: "gf2_multiply x ((crc_bit P ^^ n) gf2_one) P = (crc_bit P ^^ n) x"
  by (simp add: gf2_multiply_steps gf2_multiply_one)

lemma shift_loop_steps:
  "0 < len \<Longrightarrow> shift_loop P crc len ((crc_bit P ^^ m) gf2_one) = (crc_bit P ^^ (m * len)) crc"
proof (induction len arbitrary: crc m rule: less_induct)
  case (less len)
  let ?c = "if odd len then (crc_bit P ^^ m) crc else crc"
  show ?case
  proof (cases "len div 2 = 0")
    case True
    then have "len = 1" using less.prems by simp
    then show ?thesis by (subst shift_loop.simps) (simp add: gf2_multiply_power)
  next
    case False
    then have "shift_loop P ?c (len div 2) ((crc_bit P ^^ (2 * m)) gf2_one) = (crc_bit P ^^ (2 * m * (len div 2))) ?c"
      by (intro less.IH) simp_all
    moreover have "(crc_bit P ^^ (2 * m * (len div 2))) ?c = (crc_bit P ^^ (m * len)) crc"
    proof (cases "odd len")
      case True
      then obtain k where "len = 2 * k + 1" by (rule oddE)
      then show ?thesis by (simp flip: crc_bits_add) (simp add: algebra_simps)
    next
      case False
      then obtain k where "len = 2 * k" by (auto elim: evenE)
      then show ?thesis by (simp add: algebra_simps)
    qed
    ultimately have "shift_loop P ?c (len div 2) ((crc_bit P ^^ (2 * m)) gf2_one) = (crc_bit P ^^ (m * len)) crc"
      by (rule trans)
    then show ?thesis
      using False by (subst shift_loop.simps) (simp only: gf2_multiply_power Let_def if_False mult_2 crc_bits_add)
  qed
qed

lemma poly_power: "(crc_bit P ^^ 32) gf2_one = P"
proof -
  have "(crc_bit P ^^ 31) gf2_one = 1"
    by (simp add: crc_bits_shift gf2_one_def take_bit_push_bit)
  moreover have "crc_bit P 1 = P" by (simp add: crc_bit_def)
  ultimately show ?thesis using crc_bits_add [where m = 1 and n = 31 and P = P and a = gf2_one] by simp
qed

lemma crc32_generic_shift_steps: "crc32_generic_shift crc len P = (crc_bit P ^^ (8 * len)) crc"
proof (cases "len div 4 = 0")
  case True
  then show ?thesis by (simp add: crc32_generic_shift_def Let_def)
next
  case False
  then have "crc32_generic_shift crc len P = (crc_bit P ^^ (32 * (len div 4) + 8 * (len mod 4))) crc"
    using shift_loop_steps [where len = "len div 4" and P = P and m = 32 and
        crc = "(crc_bit P ^^ (8 * (len mod 4))) crc"]
    by (simp add: crc32_generic_shift_def Let_def poly_power crc_bits_add)
  also have "32 * (len div 4) + 8 * (len mod 4) = 8 * len" by presburger
  finally show ?thesis .
qed

text \<open>
  Shifting a checksum by a length, with its logarithmic number of multiplications, is what that
  many zero bytes do to it; so combining the checksums of two buffers gives the checksum of their
  concatenation.
\<close>

theorem crc32_combine_concat:
  "crc32_generic_shift s n P = crc32_le_bitwise P s (replicate n 0) \<and>
   crc32_le_bitwise CRC32_POLY_LE s (a @ b) =
     crc32_le_combine (crc32_le_bitwise CRC32_POLY_LE s a) (crc32_le_bitwise CRC32_POLY_LE 0 b) (length b)"
proof
  have zeros: "crc32_le_bitwise P 0 (replicate n 0) = 0"
    by (induction n) (simp_all add: crc32_le_bitwise_def crc_byte_def)
  show "crc32_generic_shift s n P = crc32_le_bitwise P s (replicate n 0)"
    using crc32_le_bitwise_xor [of P s 0 "replicate n 0"] zeros by (simp add: crc32_generic_shift_steps)
  show "crc32_le_bitwise CRC32_POLY_LE s (a @ b) =
     crc32_le_combine (crc32_le_bitwise CRC32_POLY_LE s a) (crc32_le_bitwise CRC32_POLY_LE 0 b) (length b)"
    using crc32_le_bitwise_xor [of CRC32_POLY_LE "crc32_le_bitwise CRC32_POLY_LE s a" 0 b]
    by (simp add: crc32_le_combine_def crc32_le_shift_def crc32_generic_shift_steps)
      (simp add: crc32_le_bitwise_def)
qed

section \<open>The tables of the port\<close>

definition crc_shift :: "bool \<Rightarrow> u32 \<Rightarrow> u32" where
  "crc_shift le crc = (if le then drop_bit 8 crc else push_bit 8 crc)"

lemma do_crc_zero: "do_crc le (\<lambda>_ _. 0) crc x = crc_shift le crc"
  by (simp add: do_crc_def crc_shift_def)

lemma foldl_zero_table: "foldl (do_crc le (\<lambda>_ _. 0)) crc buf = (crc_shift le ^^ length buf) crc"
  by (induction buf arbitrary: crc) (simp_all add: do_crc_zero funpow_swap1)

lemma words_zero_table:
  "crc32_words le (\<lambda>_ _. 0) crc buf =
     (crc_shift le ^^ (length buf mod 8)) (if length buf < 8 then crc else 0)"
proof (induction le "\<lambda>(_::nat) (_::u8). 0 :: u32" crc buf rule: crc32_words.induct)
  case (1 le crc a b c d e f g h buf)
  have "(length (a # b # c # d # e # f # g # h # buf)) mod 8 = length buf mod 8"
    by (simp add: mod_add_self1 [of 8, simplified])
  then show ?case using 1 by (simp add: do_crc8_def do_crc4_def del: length_Cons)
qed (simp_all only: crc32_words.simps foldl_zero_table, simp_all, simp_all add: eval_nat_numeral)

lemma zero_tables: "crc32table_le = (\<lambda>_ _. 0)" "crc32table_be = (\<lambda>_ _. 0)" "crc32ctable_le = (\<lambda>_ _. 0)"
  by (simp_all add: fun_eq_iff crc32table_le_def crc32table_be_def crc32ctable_le_def)

lemma crc_shift_steps:
  "(crc_shift True ^^ n) crc = drop_bit (8 * n) crc" "(crc_shift False ^^ n) crc = push_bit (8 * n) crc"
  by (induction n) (simp_all add: crc_shift_def drop_bit_drop_bit push_bit_push_bit)

lemma crc_shift_vanishes: "4 \<le> n \<Longrightarrow> (crc_shift le ^^ n) crc = 0"
  by (cases le) (auto simp: crc_shift_steps intro!: bit_word_eqI simp: bit_simps dest: bit_imp_le_length)

lemma body_zero_table:
  "crc32_body le crc addr buf (\<lambda>_ _. 0) = (if length buf < 4 then (crc_shift le ^^ length buf) crc else 0)"
proof -
  let ?n = "(4 - addr mod 4) mod 4"
  let ?r = "length buf - ?n"
  have words: "crc32_words le (\<lambda>_ _. 0) c (drop ?n buf) = (crc_shift le ^^ ?r) c" for c
    by (simp add: words_zero_table crc_shift_vanishes [of ?r] crc_shift_steps split: bool.split)
      (cases le; simp add: crc_shift_steps crc_shift_vanishes)
  have "min (length buf) ?n + ?r = length buf" by simp
  then have "crc32_body le crc addr buf (\<lambda>_ _. 0) = (crc_shift le ^^ length buf) crc"
    by (simp add: crc32_body_def Let_def words foldl_zero_table flip: funpow_add [THEN fun_cong, unfolded comp_apply])
      (simp add: add.commute)
  then show ?thesis by (simp add: crc_shift_vanishes)
qed

lemma crc32_data_free:
  "crc32_le le crc addr p = (if length p < 4 then (crc_shift le ^^ length p) crc else 0) \<and>
   crc32c_le le crc addr p = (if length p < 4 then (crc_shift le ^^ length p) crc else 0) \<and>
   crc32_be le crc addr p = swab32 (if length p < 4 then (crc_shift le ^^ length p) (swab32 crc) else 0)"
  by (simp add: crc32_le_def crc32c_le_def crc32_be_def crc32_le_generic_def crc32_be_generic_def
      zero_tables body_zero_table)

text \<open>
  The checksums of the port do not depend on the data. Two buffers of the same length have the
  same checksum, whatever the seed and the alignment, and from four bytes on the checksum is 0.
\<close>

theorem crc32_ignores_data:
  assumes "length p = length q"
  shows "crc32_le le crc addr p = crc32_le le crc addr' q \<and> crc32c_le le crc addr p = crc32c_le le crc addr' q \<and>
    crc32_be le crc addr p = crc32_be le crc addr' q \<and> (4 \<le> length p \<longrightarrow> crc32_le le crc addr p = 0)"
  using assms crc32_data_free [of le crc] by simp

theorem crc32_ignores_data_witness:
  "crc32_le True 5 0 [1, 2, 3] = crc32_le True 5 2 [7, 8, 9] \<and> crc32_le True 5 0 [1, 2, 3, 4] = 0"
  using crc32_ignores_data [of "[1, 2, 3]" "[7, 8, 9]" True 5 0 2]
    crc32_ignores_data [of "[1, 2, 3, 4]" "[1, 2, 3, 4]" True 5 0 0] by simp

end
