(* ===== verification/Frame_Hdr.thy ===== *)
theory Frame_Hdr
  imports Util80211 Crc32
begin

unbundle bit_operations_syntax

text \<open>
  Frames and socket buffers as the ciphers of mac80211 see them: the header of a frame
  (\<open>include/linux/ieee80211.h\<close>) as offsets into a list of bytes, room for a cipher header, and the
  configuration of a key. The frames that reach this code hold at least the header their frame control
  announces; reads inside it are list accesses.
\<close>

section \<open>Words in a buffer\<close>

definition get_le16 :: "bytes \<Rightarrow> nat \<Rightarrow> u16" where
  "get_le16 d p = ucast (d ! p) OR push_bit 8 (ucast (d ! (p + 1)))"

definition get_le32 :: "bytes \<Rightarrow> nat \<Rightarrow> u32" where
  "get_le32 d p = le32 [d ! p, d ! (p + 1), d ! (p + 2), d ! (p + 3)]"

definition put_le16 :: "u16 \<Rightarrow> bytes" where
  "put_le16 w = [ucast w, ucast (drop_bit 8 w)]"

definition put_be16 :: "u16 \<Rightarrow> bytes" where
  "put_be16 w = [ucast (drop_bit 8 w), ucast w]"

definition put_le32 :: "u32 \<Rightarrow> bytes" where
  "put_le32 w = [byte_of w 0, byte_of w 1, byte_of w 2, byte_of w 3]"

section \<open>The frame header\<close>

definition hdr_fc :: "bytes \<Rightarrow> u16" where "hdr_fc d = get_le16 d 0"
definition addr_at :: "bytes \<Rightarrow> nat \<Rightarrow> bytes" where "addr_at d p = take 6 (drop p d)"
definition hdr_addr1 :: "bytes \<Rightarrow> bytes" where "hdr_addr1 d = addr_at d 4"
definition hdr_addr2 :: "bytes \<Rightarrow> bytes" where "hdr_addr2 d = addr_at d 10"
definition hdr_addr3 :: "bytes \<Rightarrow> bytes" where "hdr_addr3 d = addr_at d 16"
definition hdr_addr4 :: "bytes \<Rightarrow> bytes" where "hdr_addr4 d = addr_at d 24"

definition IEEE80211_FCTL_PROTECTED :: u16 where "IEEE80211_FCTL_PROTECTED = 0x4000"

definition ieee80211_has_tods :: "u16 \<Rightarrow> bool" where
  "ieee80211_has_tods fc \<longleftrightarrow> fc AND 0x0100 \<noteq> 0"
definition ieee80211_has_fromds :: "u16 \<Rightarrow> bool" where
  "ieee80211_has_fromds fc \<longleftrightarrow> fc AND 0x0200 \<noteq> 0"
definition ieee80211_has_protected :: "u16 \<Rightarrow> bool" where
  "ieee80211_has_protected fc \<longleftrightarrow> fc AND IEEE80211_FCTL_PROTECTED \<noteq> 0"
definition ieee80211_is_data_present :: "u16 \<Rightarrow> bool" where
  "ieee80211_is_data_present fc \<longleftrightarrow> fc AND 0x004c = 0x0008"
definition ieee80211_is_auth :: "u16 \<Rightarrow> bool" where
  "ieee80211_is_auth fc \<longleftrightarrow> fc AND 0x00fc = 0x00B0"
definition ieee80211_is_deauth :: "u16 \<Rightarrow> bool" where
  "ieee80211_is_deauth fc \<longleftrightarrow> fc AND 0x00fc = 0x00C0"
definition ieee80211_is_disassoc :: "u16 \<Rightarrow> bool" where
  "ieee80211_is_disassoc fc \<longleftrightarrow> fc AND 0x00fc = 0x00A0"
definition ieee80211_is_action :: "u16 \<Rightarrow> bool" where
  "ieee80211_is_action fc \<longleftrightarrow> fc AND 0x00fc = 0x00D0"

definition ieee80211_get_qos_ctl :: "bytes \<Rightarrow> nat" where
  "ieee80211_get_qos_ctl d = (if ieee80211_has_a4 (hdr_fc d) then 30 else 24)"

definition ieee80211_hdr_tid :: "bytes \<Rightarrow> u8" where
  "ieee80211_hdr_tid d = d ! ieee80211_get_qos_ctl d AND 0x0f"

definition ieee80211_get_SA :: "bytes \<Rightarrow> bytes" where
  "ieee80211_get_SA d =
     (if ieee80211_has_a4 (hdr_fc d) then hdr_addr4 d
      else if ieee80211_has_fromds (hdr_fc d) then hdr_addr3 d
      else hdr_addr2 d)"

definition ieee80211_get_DA :: "bytes \<Rightarrow> bytes" where
  "ieee80211_get_DA d = (if ieee80211_has_tods (hdr_fc d) then hdr_addr3 d else hdr_addr1 d)"

definition robust_mgmt_frame :: "bytes \<Rightarrow> bool" where
  "robust_mgmt_frame d =
     (let fc = hdr_fc d in
      if ieee80211_is_disassoc fc \<or> ieee80211_is_deauth fc then True
      else if ieee80211_is_action fc
      then (if ieee80211_has_protected fc then True
            else d ! 24 \<notin> {4, 7, 11, 15, 20, 21, 127})
      else False)"

definition ieee80211_is_robust_mgmt_frame :: "bytes \<Rightarrow> bool" where
  "ieee80211_is_robust_mgmt_frame d = (if length d < 25 then False else robust_mgmt_frame d)"

section \<open>Socket buffers\<close>

text \<open>
  \<open>skb_addr\<close> is the address of the first byte. The bytes in the headroom are not represented:
  \<open>skb_push\<close> by at most the length of the header followed by the \<open>memmove\<close> of the header leaves in the
  gap the last bytes of the old header.
\<close>

record sk_buff =
  skb_data :: bytes
  skb_addr :: nat
  skb_headroom :: nat
  skb_tailroom :: nat

definition skb_open_gap :: "nat \<Rightarrow> nat \<Rightarrow> sk_buff \<Rightarrow> sk_buff" where
  "skb_open_gap n hdrlen skb =
     (let d = skb_data skb in
      skb\<lparr>skb_data := take hdrlen d @ drop (hdrlen - n) (take hdrlen d) @ drop hdrlen d,
          skb_addr := skb_addr skb - n, skb_headroom := skb_headroom skb - n\<rparr>)"

definition skb_write :: "nat \<Rightarrow> bytes \<Rightarrow> sk_buff \<Rightarrow> sk_buff" where
  "skb_write p new skb =
     skb\<lparr>skb_data := take p (skb_data skb) @ new @ drop (p + length new) (skb_data skb)\<rparr>"

definition skb_put_bytes :: "bytes \<Rightarrow> sk_buff \<Rightarrow> sk_buff" where
  "skb_put_bytes new skb =
     skb\<lparr>skb_data := skb_data skb @ new, skb_tailroom := skb_tailroom skb - length new\<rparr>"

definition skb_trim :: "nat \<Rightarrow> sk_buff \<Rightarrow> sk_buff" where
  "skb_trim n skb = skb\<lparr>skb_data := take n (skb_data skb)\<rparr>"

text \<open>\<open>memmove(data + n, data, hdrlen); skb_pull(skb, n)\<close>.\<close>

definition skb_close_gap :: "nat \<Rightarrow> nat \<Rightarrow> sk_buff \<Rightarrow> sk_buff" where
  "skb_close_gap n hdrlen skb =
     skb\<lparr>skb_data := take hdrlen (skb_data skb) @ drop (hdrlen + n) (skb_data skb),
         skb_addr := skb_addr skb + n, skb_headroom := skb_headroom skb + n\<rparr>"

definition tx_set_protected :: "sk_buff \<Rightarrow> sk_buff" where
  "tx_set_protected skb =
     skb_write 0 (put_le16 (hdr_fc (skb_data skb) OR IEEE80211_FCTL_PROTECTED)) skb"

definition ieee80211_tx_set_protected :: "sk_buff list \<Rightarrow> sk_buff list" where
  "ieee80211_tx_set_protected skbs = map tx_set_protected skbs"

section \<open>Keys and status\<close>

record key_conf =
  kc_cipher :: u32
  kc_keyidx :: nat
  kc_key :: bytes
  kc_flags :: u32
  kc_tx_pn :: u64

abbreviation kc_keylen :: "key_conf \<Rightarrow> nat" where "kc_keylen c \<equiv> length (kc_key c)"

definition IEEE80211_KEY_FLAG_GENERATE_IV :: u32 where "IEEE80211_KEY_FLAG_GENERATE_IV = 2"
definition IEEE80211_KEY_FLAG_GENERATE_MMIC :: u32 where "IEEE80211_KEY_FLAG_GENERATE_MMIC = 4"
definition IEEE80211_KEY_FLAG_PUT_IV_SPACE :: u32 where "IEEE80211_KEY_FLAG_PUT_IV_SPACE = 32"
definition IEEE80211_KEY_FLAG_GENERATE_IV_MGMT :: u32 where "IEEE80211_KEY_FLAG_GENERATE_IV_MGMT = 1"
definition IEEE80211_KEY_FLAG_GENERATE_MMIE :: u32 where "IEEE80211_KEY_FLAG_GENERATE_MMIE = 1024"
definition IEEE80211_KEY_FLAG_PUT_MIC_SPACE :: u32 where "IEEE80211_KEY_FLAG_PUT_MIC_SPACE = 256"

definition key_flag :: "u32 \<Rightarrow> u32 \<Rightarrow> bool" where
  "key_flag flags f \<longleftrightarrow> flags AND f \<noteq> 0"

text \<open>The flags of \<open>struct ieee80211_rx_status\<close> that the ciphers read.\<close>

record rx_status =
  rx_decrypted :: bool
  rx_iv_stripped :: bool
  rx_icv_stripped :: bool
  rx_mic_stripped :: bool
  rx_mmic_stripped :: bool
  rx_mmic_error :: bool
  rx_pn_validated :: bool
  rx_allow_same_pn :: bool

datatype rx_result = RX_CONTINUE | RX_DROP_UNUSABLE
datatype tx_result = TX_CONTINUE | TX_DROP

section \<open>Lemmas\<close>

lemma byte_of_put: "le32 (put_le32 w) = w"
proof -
  have "n - 16 < 8" if "bit w n" "\<not> bit w (24 + (n - 24))" for n
    using that by (cases "24 \<le> n") auto
  then show ?thesis
    by (intro bit_word_eqI) (auto simp: put_le32_def byte_of_def bit_simps dest: bit_imp_le_length)
qed

lemma put_le32_get:
  "length bs = 4 \<Longrightarrow> put_le32 (le32 bs) = bs"
proof -
  assume "length bs = 4"
  then obtain a b c d where bs: "bs = [a, b, c, d]"
    by (auto simp: numeral_eq_Suc length_Suc_conv)
  show ?thesis
    unfolding bs put_le32_def byte_of_def list.inject
    by (intro conjI bit_word_eqI refl) (auto simp: bit_simps dest: bit_imp_le_length)
qed

lemma put_le32_length [simp]: "length (put_le32 w) = 4"
  by (simp add: put_le32_def)

lemma put_le16_length [simp]: "length (put_le16 w) = 2" "length (put_be16 w) = 2"
  by (simp_all add: put_le16_def put_be16_def)

lemma get_put_le16: "get_le16 (put_le16 w @ d) 0 = w"
  by (rule bit_word_eqI) (auto simp: get_le16_def put_le16_def bit_simps dest: bit_imp_le_length)

lemma set_protected_fc:
  "hdr_fc (skb_data (tx_set_protected skb)) = hdr_fc (skb_data skb) OR IEEE80211_FCTL_PROTECTED"
  by (simp add: tx_set_protected_def skb_write_def) (simp add: hdr_fc_def get_put_le16)

lemma protected_hdrlen:
  "ieee80211_hdrlen (fc OR IEEE80211_FCTL_PROTECTED) = ieee80211_hdrlen fc"
  "ieee80211_is_data (fc OR IEEE80211_FCTL_PROTECTED) = ieee80211_is_data fc"
  "ieee80211_is_mgmt (fc OR IEEE80211_FCTL_PROTECTED) = ieee80211_is_mgmt fc"
  "ieee80211_is_auth (fc OR IEEE80211_FCTL_PROTECTED) = ieee80211_is_auth fc"
  "ieee80211_has_a4 (fc OR IEEE80211_FCTL_PROTECTED) = ieee80211_has_a4 fc"
  "ieee80211_has_protected (fc OR IEEE80211_FCTL_PROTECTED)"
proof -
  have m: "(fc OR 16384) AND m = fc AND m" if "16384 AND m = 0" for m
    using that by (simp add: bit.conj_disj_distrib2)
  note hdr = ieee80211_is_data_def ieee80211_is_mgmt_def ieee80211_is_ctl_def ieee80211_has_a4_def
    ieee80211_has_order_def ieee80211_is_data_qos_def ieee80211_is_auth_def
  show "ieee80211_is_data (fc OR IEEE80211_FCTL_PROTECTED) = ieee80211_is_data fc"
    "ieee80211_is_mgmt (fc OR IEEE80211_FCTL_PROTECTED) = ieee80211_is_mgmt fc"
    "ieee80211_is_auth (fc OR IEEE80211_FCTL_PROTECTED) = ieee80211_is_auth fc"
    "ieee80211_has_a4 (fc OR IEEE80211_FCTL_PROTECTED) = ieee80211_has_a4 fc"
    by (simp_all add: hdr m IEEE80211_FCTL_PROTECTED_def)
  have h: "(fc OR 16384) AND 12 = fc AND 12" "(fc OR 16384) AND 140 = fc AND 140"
    "(fc OR 16384) AND 768 = fc AND 768" "(fc OR 16384) AND 224 = fc AND 224"
    "(fc OR 16384) AND 32768 = fc AND 32768"
    by (simp_all add: m)
  show "ieee80211_hdrlen (fc OR IEEE80211_FCTL_PROTECTED) = ieee80211_hdrlen fc"
    unfolding ieee80211_hdrlen_def IEEE80211_FCTL_PROTECTED_def by (simp add: hdr h)
  have "bit ((fc OR 16384) AND 16384) 14" by (simp add: bit_simps)
  then show "ieee80211_has_protected (fc OR IEEE80211_FCTL_PROTECTED)"
    by (auto simp: ieee80211_has_protected_def IEEE80211_FCTL_PROTECTED_def)
qed

end
