(* ===== verification/Arc4.thy ===== *)
theory Arc4
  imports Prelude "HOL-Library.Multiset"
begin

unbundle bit_operations_syntax

text \<open>
  Model of the stream cipher of \<open>include/crypto/arc4.c\<close>: the key schedule and the pipelined loop that reads
  the next two table entries before it writes a byte. It is compared with the textbook generator, and its
  state shown to stay a permutation, so that no index leaves the table.
\<close>

record arc4_ctx =
  arc4_S :: "u32 list"
  arc4_x :: u32
  arc4_y :: u32

section \<open>The code\<close>

text \<open>The swapping loop of \<open>arc4_setkey\<close>, over the indices that are left.\<close>

fun setkey_loop :: "bytes \<Rightarrow> nat list \<Rightarrow> u32 list \<Rightarrow> u32 \<Rightarrow> nat \<Rightarrow> u32 list" where
  "setkey_loop key [] S j k = S"
| "setkey_loop key (i # is) S j k =
     (let a = S ! i;
          j1 = (j + ucast (key ! k) + a) AND 0xff;
          S1 = S[i := S ! unat j1];
          S2 = S1[unat j1 := a];
          k1 = (if length key \<le> k + 1 then 0 else k + 1)
      in setkey_loop key is S2 j1 k1)"

definition arc4_setkey :: "bytes \<Rightarrow> arc4_ctx" where
  "arc4_setkey key = \<lparr>arc4_S = setkey_loop key [0..<256] (map of_nat [0..<256]) 0 0, arc4_x = 1, arc4_y = 0\<rparr>"

fun arc4_loop :: "u32 list \<Rightarrow> u32 \<Rightarrow> u32 \<Rightarrow> u32 \<Rightarrow> u32 \<Rightarrow> bytes \<Rightarrow> bytes \<times> arc4_ctx" where
  "arc4_loop S x y a b [] = ([], \<lparr>arc4_S = S, arc4_x = x, arc4_y = y\<rparr>)"
| "arc4_loop S x y a b (c # cs) =
     (let S1 = S[unat y := a];
          a1 = (a + b) AND 0xff;
          S2 = S1[unat x := b];
          x1 = (x + 1) AND 0xff;
          ta = S2 ! unat x1;
          ty = (y + ta) AND 0xff;
          tb = S2 ! unat ty;
          out = c XOR ucast (S2 ! unat a1)
      in if cs = [] then ([out], \<lparr>arc4_S = S2, arc4_x = x1, arc4_y = y\<rparr>)
         else (let (o1, ctx) = arc4_loop S2 x1 ty ta tb cs in (out # o1, ctx)))"

definition arc4_crypt :: "arc4_ctx \<Rightarrow> bytes \<Rightarrow> bytes \<times> arc4_ctx" where
  "arc4_crypt ctx input =
     (if input = [] then ([], ctx)
      else (let S = arc4_S ctx;
                x = arc4_x ctx;
                a = S ! unat x;
                y = (arc4_y ctx + a) AND 0xff;
                b = S ! unat y
            in arc4_loop S x y a b input))"

section \<open>The textbook cipher\<close>

definition rc4_swap :: "u32 list \<Rightarrow> u32 \<Rightarrow> u32 \<Rightarrow> u32 list" where
  "rc4_swap S i j = S[unat i := S ! unat j, unat j := S ! unat i]"

text \<open>The key schedule by index: \<open>j\<close> grows by the entry and the key byte at the index.\<close>

primrec rc4_schedule :: "bytes \<Rightarrow> nat \<Rightarrow> u32 list \<times> u32" where
  "rc4_schedule key 0 = (map of_nat [0..<256], 0)"
| "rc4_schedule key (Suc i) =
     (let (S, j) = rc4_schedule key i;
          j1 = (j + S ! i + ucast (key ! (i mod length key))) AND 0xff
      in (rc4_swap S (of_nat i) j1, j1))"

fun rc4_stream :: "nat \<Rightarrow> u32 list \<Rightarrow> u32 \<Rightarrow> u32 \<Rightarrow> bytes \<times> u32 list \<times> u32 \<times> u32" where
  "rc4_stream 0 S i j = ([], S, i, j)"
| "rc4_stream (Suc n) S i j =
     (let i1 = (i + 1) AND 0xff;
          j1 = (j + S ! unat i1) AND 0xff;
          S1 = rc4_swap S i1 j1;
          k = S1 ! unat ((S1 ! unat i1 + S1 ! unat j1) AND 0xff);
          (ks, r) = rc4_stream n S1 i1 j1
      in (ucast k # ks, r))"

section \<open>The state\<close>

definition arc4_wf :: "arc4_ctx \<Rightarrow> bool" where
  "arc4_wf ctx \<longleftrightarrow> mset (arc4_S ctx) = mset (map of_nat [0..<256]) \<and> arc4_x ctx < 256 \<and> arc4_y ctx < 256"

definition perm256 :: "u32 list \<Rightarrow> bool" where
  "perm256 S \<longleftrightarrow> mset S = mset (map of_nat [0..<256])"

lemma perm256_length: "perm256 S \<Longrightarrow> length S = 256"
  unfolding perm256_def by (metis diff_zero length_map length_upt size_mset)

lemma perm256_entry:
  assumes "perm256 S" "i < 256"
  shows "unat (S ! i) < 256"
proof -
  have "set S = of_nat ` {0..<256}"
    using assms(1) unfolding perm256_def by (metis set_mset_mset set_map set_upt)
  moreover have "S ! i \<in> set S" using assms perm256_length by simp
  ultimately show ?thesis by (auto simp: unat_of_nat)
qed

lemma mask_less: "unat (w AND 0xff) < 256" for w :: u32
proof -
  have "mask 8 = (0xff :: u32)" by (simp add: mask_eq_exp_minus_1)
  then have "w AND 0xff = take_bit 8 w" by (simp add: take_bit_eq_mask)
  then show ?thesis using take_bit_nat_less_exp [of 8 "unat w"] by (simp add: unsigned_take_bit_eq)
qed

lemma small_mask: "w < 256 \<Longrightarrow> w AND 0xff = w" for w :: u32
proof -
  assume "w < 256"
  then have "unat (take_bit 8 w) = unat w"
    by (simp add: unsigned_take_bit_eq take_bit_nat_eq_self_iff word_less_nat_alt)
  then have "take_bit 8 w = w" by (rule word_unat_eq_iff [THEN iffD2])
  moreover have "mask 8 = (0xff :: u32)" by (simp add: mask_eq_exp_minus_1)
  ultimately show ?thesis by (simp add: take_bit_eq_mask)
qed

lemma perm256_swap: "perm256 S \<Longrightarrow> unat i < 256 \<Longrightarrow> unat j < 256 \<Longrightarrow> perm256 (rc4_swap S i j)"
  by (simp add: perm256_def rc4_swap_def mset_swap perm256_length [unfolded perm256_def])

text \<open>The two assignments of the loop are the swap.\<close>

lemma loop_swap:
  assumes "unat x < length S" "unat y < length S"
  shows "S[unat y := S ! unat x, unat x := S ! unat y] = rc4_swap S x y"
  using assms by (cases "unat x = unat y") (auto simp: rc4_swap_def list_update_swap)

lemma swap_nth:
  assumes "unat x < length S" "unat y < length S"
  shows "rc4_swap S x y ! unat x = S ! unat y" "rc4_swap S x y ! unat y = S ! unat x"
  using assms by (cases "unat x = unat y"; simp add: rc4_swap_def)+

section \<open>The loop is the textbook generator\<close>

lemma arc4_loop_rc4:
  assumes "perm256 S" "x = (i + 1) AND 0xff" "y = (j + S ! unat x) AND 0xff" "cs \<noteq> []"
    "rc4_stream (length cs) S i j = (ks, S', i', j')"
  shows "arc4_loop S x y (S ! unat x) (S ! unat y) cs =
      (map2 (XOR) cs ks, \<lparr>arc4_S = S', arc4_x = (i' + 1) AND 0xff, arc4_y = j'\<rparr>) \<and>
    perm256 S' \<and> unat i' < 256 \<and> unat j' < 256 \<and> length ks = length cs"
  using assms
proof (induction cs arbitrary: S x y i j ks S' i' j')
  case (Cons c cs)
  have b: "unat x < 256" "unat y < 256" using Cons.prems(2,3) by (simp_all add: mask_less)
  have l: "length S = 256" using perm256_length [OF Cons.prems(1)] .
  let ?S = "rc4_swap S x y"
  have sw: "S[unat y := S ! unat x, unat x := S ! unat y] = ?S" using b l by (simp add: loop_swap)
  have perm: "perm256 ?S" using Cons.prems(1) b by (simp add: perm256_swap)
  obtain ks1 where st: "rc4_stream (length cs) ?S x y = (ks1, S', i', j')"
    "ks = ucast (?S ! unat ((?S ! unat x + ?S ! unat y) AND 0xff)) # ks1"
    using Cons.prems(2,3,5) by (auto simp: Let_def split: prod.splits)
  have sum: "(?S ! unat x + ?S ! unat y) AND 0xff = (S ! unat x + S ! unat y) AND 0xff"
    using b l by (simp add: swap_nth add.commute)
  show ?case
  proof (cases "cs = []")
    case True
    then show ?thesis using st sum sw perm b by (auto simp: Let_def)
  next
    case False
    from Cons.IH [OF perm refl refl False st(1)] show ?thesis
      using False st(2) sum by (simp add: Let_def sw)
  qed
qed simp

text \<open>The key schedule, with the running key index of the code.\<close>

lemma schedule_perm: "perm256 (fst (rc4_schedule key n)) \<and> unat (snd (rc4_schedule key n)) < 256" if "n \<le> 256" for n
  using that
proof (induction n)
  case (Suc n)
  then show ?case
    by (auto simp: Let_def mask_less unat_of_nat split: prod.splits intro!: perm256_swap)
qed (simp add: perm256_def)

lemma setkey_loop_schedule:
  assumes "key \<noteq> []" "m + n = 256" "rc4_schedule key m = (S, j)"
  shows "setkey_loop key [m..<256] S j (m mod length key) = fst (rc4_schedule key 256)"
  using assms
proof (induction n arbitrary: m S j)
  case (Suc n)
  then have m: "m < 256" by simp
  let ?j = "(j + S ! m + ucast (key ! (m mod length key))) AND 0xff"
  have perm: "perm256 S" using schedule_perm [of m key] Suc.prems m by simp
  have um: "unat (of_nat m :: u32) = m" using m by (simp add: unat_of_nat)
  have sw: "S[m := S ! unat ?j, unat ?j := S ! m] = rc4_swap S (of_nat m) ?j" by (simp add: rc4_swap_def um)
  have k: "(if length key \<le> m mod length key + 1 then 0 else m mod length key + 1) = Suc m mod length key"
    using Suc.prems(1) by (simp add: mod_Suc le_eq_less_or_eq)
      (metis Suc_lessI length_greater_0_conv mod_less_divisor not_less_eq)
  have "rc4_schedule key (Suc m) = (rc4_swap S (of_nat m) ?j, ?j)"
    using Suc.prems(3) by (simp add: Let_def)
  from Suc.IH [OF Suc.prems(1) _ this] Suc.prems(2)
  have ih: "setkey_loop key [Suc m..<256] (rc4_swap S (of_nat m) ?j) ?j (Suc m mod length key) =
      fst (rc4_schedule key 256)" by simp
  have j: "(j + ucast (key ! (m mod length key)) + S ! m) AND 0xff = ?j" by (simp add: ac_simps)
  show ?case
    using ih by (simp only: upt_conv_Cons [OF m] setkey_loop.simps Let_def j sw k)
qed simp

text \<open>
  Property C36: the key schedule and the pipelined loop are the textbook stream cipher: the output is the
  input combined with its key stream, and the state of the cipher remains a permutation of the 256 values
  with both indices in range, so that every access stays inside the table.
\<close>

theorem arc4_is_rc4:
  assumes "key \<noteq> []"
  shows "arc4_S (arc4_setkey key) = fst (rc4_schedule key 256) \<and> arc4_wf (arc4_setkey key) \<and>
    (arc4_wf ctx \<longrightarrow>
      (let (ks, S, i, j) = rc4_stream (length input) (arc4_S ctx) (arc4_x ctx - 1) (arc4_y ctx)
       in arc4_crypt ctx input =
            (map2 (XOR) input ks, \<lparr>arc4_S = S, arc4_x = (i + 1) AND 0xff, arc4_y = j\<rparr>)) \<and>
      arc4_wf (snd (arc4_crypt ctx input)) \<and> length (fst (arc4_crypt ctx input)) = length input)"
proof -
  have S: "arc4_S (arc4_setkey key) = fst (rc4_schedule key 256)"
    using setkey_loop_schedule [OF assms, of 0 256 "map of_nat [0..<256]" 0] by (simp add: arc4_setkey_def)
  then have "arc4_wf (arc4_setkey key)"
    using schedule_perm [of 256 key] by (simp add: arc4_wf_def perm256_def) (simp add: arc4_setkey_def)
  moreover have "(let (ks, S, i, j) = rc4_stream (length input) (arc4_S ctx) (arc4_x ctx - 1) (arc4_y ctx)
       in arc4_crypt ctx input =
            (map2 (XOR) input ks, \<lparr>arc4_S = S, arc4_x = (i + 1) AND 0xff, arc4_y = j\<rparr>)) \<and>
      arc4_wf (snd (arc4_crypt ctx input)) \<and> length (fst (arc4_crypt ctx input)) = length input"
    if wf: "arc4_wf ctx"
  proof (cases "input = []")
    case True
    then show ?thesis using wf by (simp add: arc4_crypt_def small_mask arc4_wf_def)
  next
    case False
    have x: "arc4_x ctx = (arc4_x ctx - 1 + 1) AND 0xff" using wf by (simp add: arc4_wf_def small_mask)
    have perm: "perm256 (arc4_S ctx)" using wf by (simp add: arc4_wf_def perm256_def)
    obtain ks S i j where st: "rc4_stream (length input) (arc4_S ctx) (arc4_x ctx - 1) (arc4_y ctx) = (ks, S, i, j)"
      by (metis prod_cases4)
    from arc4_loop_rc4 [OF perm x refl False st] False mask_less [of "i + 1"] st show ?thesis
      by (auto simp: arc4_crypt_def Let_def arc4_wf_def perm256_def word_less_nat_alt)
  qed
  ultimately show ?thesis using S by blast
qed

theorem arc4_is_rc4_witness:
  "arc4_wf (snd (arc4_crypt (arc4_setkey [1, 2, 3]) [7, 7]))"
  using arc4_is_rc4 [of "[1, 2, 3]" "arc4_setkey [1, 2, 3]" "[7, 7]"] by simp

end
