(* ===== verification/Wep.thy ===== *)
theory Wep
  imports Frame_Hdr Arc4
begin

unbundle bit_operations_syntax

text \<open>
  Model of \<open>net/mac80211/wep.c\<close>: initialisation vectors, the encryption of a buffer with its integrity
  check value, and of frames. \<open>le\<close> is the preprocessor condition of the checksum (theory Crc32). Work on
  a frame returns its new state beside the result, also where it fails; \<open>mem\<close> says whether
  \<open>skb_linearize\<close> finds memory.
\<close>

section \<open>Initialisation vectors\<close>

definition ieee80211_wep_weak_iv :: "u32 \<Rightarrow> nat \<Rightarrow> bool" where
  "ieee80211_wep_weak_iv iv keylen =
     (if iv AND 0xff00 = 0xff00
      then (let B = unat (drop_bit 16 iv AND 0xff) in 3 \<le> B \<and> B < 3 + keylen)
      else False)"

definition wep_next_iv :: "u32 \<Rightarrow> nat \<Rightarrow> u32" where
  "wep_next_iv wep_iv keylen =
     (let iv = wep_iv + 1 in if ieee80211_wep_weak_iv iv keylen then iv + 0x0100 else iv)"

definition ieee80211_wep_get_iv :: "u32 \<Rightarrow> nat \<Rightarrow> nat \<Rightarrow> bytes \<times> u32" where
  "ieee80211_wep_get_iv wep_iv keylen keyidx =
     (let iv = wep_next_iv wep_iv keylen
      in ([ucast (drop_bit 16 iv AND 0xff), ucast (drop_bit 8 iv AND 0xff), ucast (iv AND 0xff),
           push_bit 6 (of_nat keyidx)], iv))"

text \<open>
  \<open>hw\<close> is the flags of the key in the hardware. The result is the offset behind the header, or \<open>None\<close> for
  a null pointer.
\<close>

definition ieee80211_wep_add_iv ::
  "u32 \<Rightarrow> sk_buff \<Rightarrow> nat \<Rightarrow> nat \<Rightarrow> u32 option \<Rightarrow> nat option \<times> u32 \<times> sk_buff" where
  "ieee80211_wep_add_iv wep_iv skb keylen keyidx hw =
     (let skb1 = tx_set_protected skb in
      if skb_headroom skb1 < 4 then (None, wep_iv, skb1)
      else (let h = ieee80211_hdrlen (hdr_fc (skb_data skb1));
                skb2 = skb_open_gap 4 h skb1
            in if (case hw of None \<Rightarrow> False | Some f \<Rightarrow> key_flag f IEEE80211_KEY_FLAG_PUT_IV_SPACE)
               then (Some h, wep_iv, skb2)
               else (let (iv, wep_iv1) = ieee80211_wep_get_iv wep_iv keylen keyidx
                     in (Some h, wep_iv1, skb_write h iv skb2))))"

definition ieee80211_wep_remove_iv :: "sk_buff \<Rightarrow> sk_buff" where
  "ieee80211_wep_remove_iv skb =
     skb_close_gap 4 (ieee80211_hdrlen (hdr_fc (skb_data skb))) skb"

section \<open>Buffers\<close>

definition wep_icv :: "bool \<Rightarrow> nat \<Rightarrow> bytes \<Rightarrow> bytes" where
  "wep_icv le addr data = put_le32 (NOT (crc32_le le (- 1) addr data))"

text \<open>The data with the integrity check value behind it, encrypted in place.\<close>

definition ieee80211_wep_encrypt_data :: "bool \<Rightarrow> nat \<Rightarrow> bytes \<Rightarrow> bytes \<Rightarrow> bytes" where
  "ieee80211_wep_encrypt_data le addr rc4key data =
     fst (arc4_crypt (arc4_setkey rc4key) (data @ wep_icv le addr data))"

text \<open>The decrypted buffer, and whether the check value matches. The buffer ends with the check value.\<close>

definition ieee80211_wep_decrypt_data :: "bool \<Rightarrow> nat \<Rightarrow> bytes \<Rightarrow> bytes \<Rightarrow> bytes \<times> bool" where
  "ieee80211_wep_decrypt_data le addr rc4key buf =
     (let plain = fst (arc4_crypt (arc4_setkey rc4key) buf);
          n = length buf - 4
      in (plain, wep_icv le addr (take n plain) = take 4 (drop n plain)))"

section \<open>Frames\<close>

text \<open>The result is true for 0 and false for -1.\<close>

definition ieee80211_wep_encrypt ::
  "bool \<Rightarrow> u32 \<Rightarrow> sk_buff \<Rightarrow> bytes \<Rightarrow> nat \<Rightarrow> u32 option \<Rightarrow> bool \<times> u32 \<times> sk_buff" where
  "ieee80211_wep_encrypt le wep_iv skb key keyidx hw =
     (if skb_tailroom skb < 4 then (False, wep_iv, skb)
      else case ieee80211_wep_add_iv wep_iv skb (length key) keyidx hw of
        (None, wep_iv1, skb1) \<Rightarrow> (False, wep_iv1, skb1)
      | (Some iv, wep_iv1, skb1) \<Rightarrow>
          (let p = iv + 4;
               d = skb_data skb1;
               rc4key = take 3 (drop iv d) @ key;
               enc = ieee80211_wep_encrypt_data le (skb_addr skb1 + p) rc4key (drop p d)
           in (True, wep_iv1,
               skb_put_bytes (drop (length d - p) enc)
                 (skb1\<lparr>skb_data := take p d @ take (length d - p) enc\<rparr>))))"

definition wep_encrypt_skb ::
  "bool \<Rightarrow> key_conf \<Rightarrow> u32 option \<Rightarrow> u32 \<Rightarrow> sk_buff \<Rightarrow> bool \<times> u32 \<times> sk_buff" where
  "wep_encrypt_skb le conf hw wep_iv skb =
     (case hw of
        None \<Rightarrow> ieee80211_wep_encrypt le wep_iv skb (kc_key conf) (kc_keyidx conf) hw
      | Some f \<Rightarrow>
          if key_flag f IEEE80211_KEY_FLAG_GENERATE_IV \<or> key_flag f IEEE80211_KEY_FLAG_PUT_IV_SPACE
          then (let (r, wep_iv1, skb1) = ieee80211_wep_add_iv wep_iv skb (kc_keylen conf) (kc_keyidx conf) hw
                in (r \<noteq> None, wep_iv1, skb1))
          else (True, wep_iv, skb))"

fun wep_encrypt_skbs ::
  "bool \<Rightarrow> key_conf \<Rightarrow> u32 option \<Rightarrow> u32 \<Rightarrow> sk_buff list \<Rightarrow> tx_result \<times> u32 \<times> sk_buff list" where
  "wep_encrypt_skbs le conf hw wep_iv [] = (TX_CONTINUE, wep_iv, [])"
| "wep_encrypt_skbs le conf hw wep_iv (skb # skbs) =
     (case wep_encrypt_skb le conf hw wep_iv skb of
        (False, wep_iv1, skb1) \<Rightarrow> (TX_DROP, wep_iv1, skb1 # skbs)
      | (True, wep_iv1, skb1) \<Rightarrow>
          (let (r, wep_iv2, skbs1) = wep_encrypt_skbs le conf hw wep_iv1 skbs in (r, wep_iv2, skb1 # skbs1)))"

definition ieee80211_crypto_wep_encrypt ::
  "bool \<Rightarrow> key_conf \<Rightarrow> u32 option \<Rightarrow> u32 \<Rightarrow> sk_buff list \<Rightarrow> tx_result \<times> u32 \<times> sk_buff list" where
  "ieee80211_crypto_wep_encrypt le conf hw wep_iv skbs =
     wep_encrypt_skbs le conf hw wep_iv (ieee80211_tx_set_protected skbs)"

definition ieee80211_wep_decrypt :: "bool \<Rightarrow> sk_buff \<Rightarrow> key_conf option \<Rightarrow> bool \<times> sk_buff" where
  "ieee80211_wep_decrypt le skb key =
     (let d = skb_data skb;
          fc = hdr_fc d;
          h = ieee80211_hdrlen fc
      in if \<not> ieee80211_has_protected fc then (False, skb)
         else if length d < h + 4 + 4 then (False, skb)
         else case key of
           None \<Rightarrow> (False, skb)
         | Some conf \<Rightarrow>
             if unat (drop_bit 6 (d ! (h + 3))) \<noteq> kc_keyidx conf then (False, skb)
             else (let rc4key = take 3 (drop h d) @ kc_key conf;
                       (plain, ok) = ieee80211_wep_decrypt_data le (skb_addr skb + h + 4) rc4key (drop (h + 4) d);
                       skb1 = skb_trim (length d - 4) (skb\<lparr>skb_data := take (h + 4) d @ plain\<rparr>)
                   in (ok, skb_close_gap 4 h skb1)))"

definition ieee80211_crypto_wep_decrypt ::
  "bool \<Rightarrow> bool \<Rightarrow> rx_status \<Rightarrow> key_conf option \<Rightarrow> sk_buff \<Rightarrow> rx_result \<times> sk_buff" where
  "ieee80211_crypto_wep_decrypt le mem status key skb =
     (let fc = hdr_fc (skb_data skb) in
      if \<not> ieee80211_is_data fc \<and> \<not> ieee80211_is_auth fc then (RX_CONTINUE, skb)
      else if \<not> rx_decrypted status
      then (if \<not> mem then (RX_DROP_UNUSABLE, skb)
            else (let (ok, skb1) = ieee80211_wep_decrypt le skb key
                  in (if ok then RX_CONTINUE else RX_DROP_UNUSABLE, skb1)))
      else if \<not> rx_iv_stripped status
      then (if length (skb_data skb) < ieee80211_hdrlen fc + 4 then (RX_DROP_UNUSABLE, skb)
            else (let skb1 = ieee80211_wep_remove_iv skb
                  in if rx_icv_stripped status then (RX_CONTINUE, skb1)
                     else (RX_CONTINUE, skb_trim (length (skb_data skb1) - 4) skb1)))
      else (RX_CONTINUE, skb))"

end
