(* ===== verification/Wep_Props.thy ===== *)
theory Wep_Props
  imports Wep Crc32_Props
begin

unbundle bit_operations_syntax

text \<open>
  WEP: decryption undoes encryption, for buffers and for whole frames; the integrity check of the port
  accepts every change of the data.
\<close>

section \<open>The cipher is its own inverse\<close>

text \<open>What \<open>arc4_crypt\<close> does after a key schedule: the input is combined with a key stream.\<close>

definition wep_keystream :: "bytes \<Rightarrow> nat \<Rightarrow> bytes" where
  "wep_keystream key n = fst (rc4_stream n (arc4_S (arc4_setkey key)) 0 0)"

lemma setkey_wf: "key \<noteq> [] \<Longrightarrow> arc4_wf (arc4_setkey key)"
  using setkey_loop_schedule [of key 0 256 "map of_nat [0..<256]" 0] schedule_perm [of 256 key]
  by (simp add: arc4_wf_def perm256_def) (simp add: arc4_setkey_def)

lemma crypt_xor:
  assumes "key \<noteq> []"
  shows "fst (arc4_crypt (arc4_setkey key) p) = map2 (XOR) p (wep_keystream key (length p)) \<and>
    (p \<noteq> [] \<longrightarrow> length (wep_keystream key (length p)) = length p)"
proof (cases "p = []")
  case False
  let ?c = "arc4_setkey key"
  have x: "arc4_x ?c = (0 + 1) AND 0xff" "arc4_y ?c = 0" by (simp_all add: arc4_setkey_def)
  have perm: "perm256 (arc4_S ?c)" using setkey_wf [OF assms] by (simp add: arc4_wf_def perm256_def)
  obtain ks S i j where st: "rc4_stream (length p) (arc4_S ?c) 0 0 = (ks, S, i, j)" by (metis prod_cases4)
  from arc4_loop_rc4 [OF perm x(1) refl False st] False st x show ?thesis
    by (auto simp: arc4_crypt_def Let_def wep_keystream_def)
qed (simp add: arc4_crypt_def)

lemma map2_xor_twice: "length p = length ks \<Longrightarrow> map2 (XOR) (map2 (XOR) p ks) ks = p" for p ks :: bytes
  by (induction p ks rule: list_induct2) (simp_all add: xor.assoc)

lemma crypt_length [simp]: "key \<noteq> [] \<Longrightarrow> length (fst (arc4_crypt (arc4_setkey key) p)) = length p"
  using crypt_xor [of key p] by (cases "p = []") (auto simp: arc4_crypt_def)

lemma crypt_twice:
  assumes "key \<noteq> []"
  shows "fst (arc4_crypt (arc4_setkey key) (fst (arc4_crypt (arc4_setkey key) p))) = p"
proof (cases "p = []")
  case False
  let ?q = "fst (arc4_crypt (arc4_setkey key) p)"
  have q: "?q = map2 (XOR) p (wep_keystream key (length p))" "length (wep_keystream key (length p)) = length p"
    using crypt_xor [OF assms, of p] False by simp_all
  then have "length ?q = length p" by simp
  then have "fst (arc4_crypt (arc4_setkey key) ?q) = map2 (XOR) ?q (wep_keystream key (length p))"
    using crypt_xor [OF assms, of ?q] by metis
  then show ?thesis using q map2_xor_twice by metis
qed (simp add: arc4_crypt_def)

section \<open>Buffers\<close>

lemma wep_icv_length [simp]: "length (wep_icv le addr data) = 4"
  by (simp add: wep_icv_def)

lemma encrypt_data_length [simp]:
  "key \<noteq> [] \<Longrightarrow> length (ieee80211_wep_encrypt_data le addr key data) = length data + 4"
  by (simp add: ieee80211_wep_encrypt_data_def)

text \<open>The address of the buffer does not matter: the checksum does not depend on the alignment.\<close>

lemma wep_icv_addr: "wep_icv le addr data = wep_icv le addr' data"
  using crc32_data_free [of le "- 1" _ data] by (simp add: wep_icv_def crc32_le_def crc32_le_generic_def zero_tables body_zero_table)

lemma decrypt_encrypt_data:
  assumes "key \<noteq> []"
  shows "ieee80211_wep_decrypt_data le addr' key (ieee80211_wep_encrypt_data le addr key data) =
    (data @ wep_icv le addr data, True)"
  using assms wep_icv_addr [of le addr data addr']
  by (simp add: ieee80211_wep_decrypt_data_def Let_def ieee80211_wep_encrypt_data_def crypt_twice)

section \<open>Frames\<close>

lemma set_protected_length: "2 \<le> length (skb_data skb) \<Longrightarrow> length (skb_data (tx_set_protected skb)) = length (skb_data skb)"
  by (simp add: tx_set_protected_def skb_write_def)

lemma write_same: "length new = n \<Longrightarrow> take 0 xs @ new @ drop n (new @ ys) = new @ ys"
  by simp

lemma set_protected_idem:
  "skb_data (tx_set_protected (tx_set_protected skb)) = skb_data (tx_set_protected skb)"
proof -
  have "hdr_fc (skb_data (tx_set_protected skb)) OR IEEE80211_FCTL_PROTECTED =
      hdr_fc (skb_data skb) OR IEEE80211_FCTL_PROTECTED"
    by (simp add: set_protected_fc or.assoc)
  then show ?thesis
    by (subst (1) tx_set_protected_def) (simp add: skb_write_def, simp add: tx_set_protected_def skb_write_def)
qed

lemma hdrlen_ge: "10 \<le> ieee80211_hdrlen fc"
  by (simp add: ieee80211_hdrlen_def Let_def)

text \<open>The frame with the vector and the encrypted rest, and what decryption makes of it.\<close>

lemma wep_encrypt_frame:
  assumes "ieee80211_wep_encrypt le wep_iv skb key keyidx None = (True, wep_iv1, skb1)"
    and d: "D = skb_data (tx_set_protected skb)" and h: "h = ieee80211_hdrlen (hdr_fc D)" "h \<le> length D"
    and key: "rc4key = take 3 (fst (ieee80211_wep_get_iv wep_iv (length key) keyidx)) @ key"
  shows "\<exists>addr. skb_data skb1 = take h D @ fst (ieee80211_wep_get_iv wep_iv (length key) keyidx) @
    ieee80211_wep_encrypt_data le addr rc4key (drop h D)"
proof -
  obtain iv wi where iv: "ieee80211_wep_get_iv wep_iv (length key) keyidx = (iv, wi)" by fastforce
  then have l: "length iv = 4" by (auto simp: ieee80211_wep_get_iv_def Let_def)
  then have k: "rc4key \<noteq> []" using key iv by auto
  have sum: "min (length D) h = h" using h(2) by simp
  have "h + length iv = h + 4" using l by simp
  have gap: "skb_data (skb_write h iv (skb_open_gap 4 h (tx_set_protected skb))) = take h D @ iv @ drop h D"
    using h(2) hdrlen_ge [of "hdr_fc D"] l
    by (simp add: skb_write_def skb_open_gap_def Let_def d [symmetric] h(1) [symmetric])
  have hd: "\<not> skb_headroom (tx_set_protected skb) < 4" "\<not> skb_tailroom skb < 4"
    using assms(1) by (auto simp: ieee80211_wep_encrypt_def ieee80211_wep_add_iv_def Let_def split: if_splits)
  have "ieee80211_wep_add_iv wep_iv skb (length key) keyidx None =
      (Some h, wi, skb_write h iv (skb_open_gap 4 h (tx_set_protected skb)))"
    using hd h(1) d by (simp add: ieee80211_wep_add_iv_def Let_def iv)
  then show ?thesis
    using assms(1) hd(2) h(2) l k key iv
    by (auto simp: ieee80211_wep_encrypt_def Let_def gap skb_put_bytes_def)
qed

lemma iv_fields:
  assumes "keyidx < 4" "ieee80211_wep_get_iv wep_iv n keyidx = (iv, wi)"
  shows "length iv = 4" "unat (drop_bit 6 (iv ! 3)) = keyidx"
proof -
  have "iv ! 3 = push_bit 6 (of_nat keyidx)" using assms(2) by (auto simp: ieee80211_wep_get_iv_def Let_def)
  moreover have "keyidx = 0 \<or> keyidx = 1 \<or> keyidx = 2 \<or> keyidx = 3" using assms(1) by auto
  ultimately show "unat (drop_bit 6 (iv ! 3)) = keyidx" by auto
  show "length iv = 4" using assms(2) by (auto simp: ieee80211_wep_get_iv_def Let_def)
qed

text \<open>
  A frame that is encrypted by the transmit handler is accepted by the receive handler with the
  same key and comes out as it was, with the Protected bit set.
\<close>

theorem wep_roundtrip:
  assumes tx: "ieee80211_crypto_wep_encrypt le conf None wep_iv [skb] = (TX_CONTINUE, wep_iv1, [skb1])"
    and fc: "ieee80211_is_data (hdr_fc (skb_data skb)) \<or> ieee80211_is_auth (hdr_fc (skb_data skb))"
    and len: "ieee80211_hdrlen (hdr_fc (skb_data skb)) \<le> length (skb_data skb)"
    and conf: "kc_keyidx conf < 4"
    and air: "skb_data rx = skb_data skb1" and status: "\<not> rx_decrypted status"
  shows "\<exists>rx1. ieee80211_crypto_wep_decrypt le True status (Some conf) rx = (RX_CONTINUE, rx1) \<and>
    skb_data rx1 = skb_data (tx_set_protected skb)"
proof -
  let ?D = "skb_data (tx_set_protected skb)"
  let ?h = "ieee80211_hdrlen (hdr_fc ?D)"
  have D: "skb_data (tx_set_protected (tx_set_protected skb)) = ?D" by (rule set_protected_idem)
  have h: "?h = ieee80211_hdrlen (hdr_fc (skb_data skb))" by (simp add: set_protected_fc protected_hdrlen)
  have l: "length ?D = length (skb_data skb)"
    using len hdrlen_ge [of "hdr_fc (skb_data skb)"] by (intro set_protected_length) simp
  have hl: "?h \<le> length ?D" "10 \<le> ?h" using len l h hdrlen_ge by simp_all
  obtain iv wi where iv: "ieee80211_wep_get_iv wep_iv (length (kc_key conf)) (kc_keyidx conf) = (iv, wi)"
    by fastforce
  note ivf = iv_fields [OF conf iv]
  let ?key = "take 3 iv @ kc_key conf"
  have k: "?key \<noteq> []" using ivf(1) by auto
  have "ieee80211_wep_encrypt le wep_iv (tx_set_protected skb) (kc_key conf) (kc_keyidx conf) None = (True, wep_iv1, skb1)"
    using tx by (auto simp: ieee80211_crypto_wep_encrypt_def ieee80211_tx_set_protected_def wep_encrypt_skb_def
        split: prod.splits bool.splits)
  from wep_encrypt_frame [OF this D [symmetric] refl hl(1) refl] iv
  obtain addr where f: "skb_data rx = take ?h ?D @ iv @ ieee80211_wep_encrypt_data le addr ?key (drop ?h ?D)"
    using air by auto
  have fcr: "hdr_fc (skb_data rx) = hdr_fc ?D"
    using hl by (simp add: f hdr_fc_def get_le16_def nth_append)
  have p: "ieee80211_has_protected (hdr_fc ?D)" by (simp add: set_protected_fc protected_hdrlen)
  have idx: "skb_data rx ! (?h + 3) = iv ! 3" using hl ivf(1) by (simp add: f nth_append)
  have parts: "take 3 (drop ?h (skb_data rx)) = take 3 iv"
    "drop (?h + 4) (skb_data rx) = ieee80211_wep_encrypt_data le addr ?key (drop ?h ?D)"
    "take (?h + 4) (skb_data rx) = take ?h ?D @ iv"
    "length (skb_data rx) = length ?D + 8"
    using hl ivf(1) k by (simp_all add: f)
  have "ieee80211_wep_decrypt le rx (Some conf) = (True, skb_close_gap 4 ?h
      (rx\<lparr>skb_data := take ?h ?D @ iv @ drop ?h ?D\<rparr>))"
    using hl ivf p idx parts
    by (simp add: ieee80211_wep_decrypt_def Let_def fcr decrypt_encrypt_data [OF k] skb_trim_def)
  moreover have "skb_data (skb_close_gap 4 ?h (rx\<lparr>skb_data := take ?h ?D @ iv @ drop ?h ?D\<rparr>)) = ?D"
    using hl ivf(1) by (simp add: skb_close_gap_def)
  moreover have "ieee80211_is_data (hdr_fc ?D) \<or> ieee80211_is_auth (hdr_fc ?D)"
    using fc by (simp add: set_protected_fc protected_hdrlen)
  ultimately show ?thesis
    using status by (auto simp: ieee80211_crypto_wep_decrypt_def Let_def fcr)
qed

definition demo_frame :: sk_buff where
  "demo_frame = \<lparr>skb_data = [8, 0] @ replicate 22 7 @ [1, 2, 3], skb_addr = 100, skb_headroom = 8, skb_tailroom = 4\<rparr>"

definition demo_wep_conf :: key_conf where
  "demo_wep_conf = \<lparr>kc_cipher = 0, kc_keyidx = 1, kc_key = [1, 2, 3, 4, 5], kc_flags = 0, kc_tx_pn = 0\<rparr>"

definition demo_status :: rx_status where
  "demo_status = \<lparr>rx_decrypted = False, rx_iv_stripped = False, rx_icv_stripped = False, rx_mic_stripped = False,
     rx_mmic_stripped = False, rx_mmic_error = False, rx_pn_validated = False, rx_allow_same_pn = False\<rparr>"

theorem wep_roundtrip_witness:
  "\<exists>w s rx1. ieee80211_crypto_wep_encrypt True demo_wep_conf None 5 [demo_frame] = (TX_CONTINUE, w, [s]) \<and>
     ieee80211_crypto_wep_decrypt True True demo_status (Some demo_wep_conf) s = (RX_CONTINUE, rx1) \<and>
     skb_data rx1 = [8, 64] @ replicate 22 7 @ [1, 2, 3]"
proof -
  have fc: "hdr_fc (skb_data demo_frame) = 8"
    by (simp add: demo_frame_def hdr_fc_def get_le16_def)
  have p: "skb_data (tx_set_protected demo_frame) = [8, 64] @ replicate 22 7 @ [1, 2, 3]"
    by (simp add: tx_set_protected_def skb_write_def fc put_le16_def IEEE80211_FCTL_PROTECTED_def)
      (simp add: demo_frame_def)
  have "\<exists>w s. ieee80211_crypto_wep_encrypt True demo_wep_conf None 5 [demo_frame] = (TX_CONTINUE, w, [s])"
    by (simp add: ieee80211_crypto_wep_encrypt_def ieee80211_tx_set_protected_def wep_encrypt_skb_def
        ieee80211_wep_encrypt_def ieee80211_wep_add_iv_def Let_def tx_set_protected_def skb_write_def
        demo_frame_def split: prod.split)
  then obtain w s where tx: "ieee80211_crypto_wep_encrypt True demo_wep_conf None 5 [demo_frame] = (TX_CONTINUE, w, [s])"
    by blast
  have "\<exists>rx1. ieee80211_crypto_wep_decrypt True True demo_status (Some demo_wep_conf) s = (RX_CONTINUE, rx1) \<and>
      skb_data rx1 = skb_data (tx_set_protected demo_frame)"
    by (rule wep_roundtrip [OF tx _ _ _ refl])
      (simp_all add: fc ieee80211_is_data_def ieee80211_hdrlen_def ieee80211_has_a4_def ieee80211_is_data_qos_def
        demo_wep_conf_def demo_status_def, simp add: demo_frame_def)
  with tx show ?thesis unfolding p by blast
qed

section \<open>The integrity check of the port\<close>

lemma map2_xor_comm:
  "length a = length b \<Longrightarrow> length b = length c \<Longrightarrow>
   map2 (XOR) (map2 (XOR) a b) c = map2 (XOR) (map2 (XOR) a c) b" for a b c :: bytes
  by (induction a b c rule: list_induct3) (simp_all add: ac_simps)

lemma map2_xor_append:
  "length a = length m \<Longrightarrow> map2 (XOR) (a @ b) (m @ n) = map2 (XOR) a m @ map2 (XOR) b n" for a m :: bytes
  by (induction a m rule: list_induct2) simp_all

lemma crypt_masked:
  assumes "key \<noteq> []" "length m = length p"
  shows "fst (arc4_crypt (arc4_setkey key) (map2 (XOR) p m)) = map2 (XOR) (fst (arc4_crypt (arc4_setkey key) p)) m"
proof (cases "p = []")
  case False
  let ?k = "wep_keystream key (length p)"
  have "length ?k = length p" "fst (arc4_crypt (arc4_setkey key) p) = map2 (XOR) p ?k"
    using crypt_xor [OF assms(1), of p] False by simp_all
  moreover have "fst (arc4_crypt (arc4_setkey key) (map2 (XOR) p m)) = map2 (XOR) (map2 (XOR) p m) ?k"
    using crypt_xor [OF assms(1), of "map2 (XOR) p m"] assms(2) by simp
  ultimately show ?thesis using assms(2) by (simp add: map2_xor_comm)
qed (simp add: arc4_crypt_def)

text \<open>
  Whatever bits of the data of an encrypted buffer are flipped on the way, the check value of
  the port still matches and the changed data is accepted.
\<close>

theorem wep_accepts_changes:
  assumes "key \<noteq> []" "length flips = length data"
  shows "ieee80211_wep_decrypt_data le addr key
      (map2 (XOR) (ieee80211_wep_encrypt_data le addr key data) (flips @ replicate 4 0)) =
    (map2 (XOR) data flips @ wep_icv le addr data, True)"
proof -
  have icv: "wep_icv le addr (map2 (XOR) data flips) = wep_icv le addr data"
    using crc32_data_free [of le "- 1" addr] assms(2) by (simp add: wep_icv_def)
  have z: "map2 (XOR) w (replicate 4 0) = w" if "length w = 4" for w :: bytes
    using that by (auto simp: numeral_eq_Suc length_Suc_conv)
  have "fst (arc4_crypt (arc4_setkey key) (map2 (XOR) (ieee80211_wep_encrypt_data le addr key data) (flips @ replicate 4 0))) =
      map2 (XOR) data flips @ wep_icv le addr data"
    using assms
    by (simp add: ieee80211_wep_encrypt_data_def crypt_masked crypt_twice map2_xor_append z)
  then show ?thesis
    using assms icv by (simp add: ieee80211_wep_decrypt_data_def Let_def)
qed

theorem wep_accepts_changes_witness:
  "snd (ieee80211_wep_decrypt_data True 0 [1, 2, 3]
     (map2 (XOR) (ieee80211_wep_encrypt_data True 0 [1, 2, 3] [10, 20]) ([255, 1] @ replicate 4 0)))"
  using wep_accepts_changes [of "[1, 2, 3]" "[255, 1]" "[10, 20]" True 0] by simp

end
