(* ===== verification/Tkip.thy ===== *)
theory Tkip
  imports Wep
begin

unbundle bit_operations_syntax

text \<open>
  Model of TKIP: the Michael integrity code (\<open>net/mac80211/michael.c\<close>), the key mixing with its cached
  first phase and the treatment of a buffer (\<open>net/mac80211/tkip.c\<close>), and the handlers for frames
  (\<open>net/mac80211/wpa.c\<close>). The notification of a failure and the upload of a key to the hardware leave the
  program; that they happen is part of the results.
\<close>

section \<open>The Michael code\<close>

record michael_mic_ctx =
  mic_l :: u32
  mic_r :: u32

definition rol32 :: "u32 \<Rightarrow> nat \<Rightarrow> u32" where
  "rol32 w s = push_bit (s mod 32) w OR drop_bit ((32 - s mod 32) mod 32) w"

definition ror32 :: "u32 \<Rightarrow> nat \<Rightarrow> u32" where
  "ror32 w s = drop_bit (s mod 32) w OR push_bit ((32 - s mod 32) mod 32) w"

definition ror16 :: "u16 \<Rightarrow> nat \<Rightarrow> u16" where
  "ror16 w s = drop_bit (s mod 16) w OR push_bit ((16 - s mod 16) mod 16) w"

definition michael_block :: "michael_mic_ctx \<Rightarrow> u32 \<Rightarrow> michael_mic_ctx" where
  "michael_block m val =
     (let l = mic_l m XOR val;
          r = mic_r m XOR rol32 l 17;
          l = l + r;
          r = r XOR (drop_bit 8 (l AND 0xff00ff00) OR push_bit 8 (l AND 0x00ff00ff));
          l = l + r;
          r = r XOR rol32 l 3;
          l = l + r;
          r = r XOR ror32 l 2;
          l = l + r
      in \<lparr>mic_l = l, mic_r = r\<rparr>)"

definition michael_mic_hdr :: "bytes \<Rightarrow> bytes \<Rightarrow> michael_mic_ctx" where
  "michael_mic_hdr key d =
     (let da = ieee80211_get_DA d;
          sa = ieee80211_get_SA d;
          tid = (if ieee80211_is_data_qos (hdr_fc d) then ieee80211_hdr_tid d else 0);
          m = \<lparr>mic_l = get_le32 key 0, mic_r = get_le32 key 4\<rparr>;
          m = michael_block m (get_le32 da 0);
          m = michael_block m (ucast (get_le16 da 4) OR push_bit 16 (ucast (get_le16 sa 0)));
          m = michael_block m (get_le32 sa 2)
      in michael_block m (ucast tid))"

text \<open>The blocks of the data, and the last block with the padding byte and the bytes left.\<close>

fun michael_data :: "michael_mic_ctx \<Rightarrow> bytes \<Rightarrow> michael_mic_ctx" where
  "michael_data m (a # b # c # e # data) = michael_data (michael_block m (le32 [a, b, c, e])) data"
| "michael_data m left =
     michael_block (michael_block m (foldr (\<lambda>x val. push_bit 8 val OR ucast x) left 0x5a)) 0"

definition michael_mic :: "bytes \<Rightarrow> bytes \<Rightarrow> bytes \<Rightarrow> bytes" where
  "michael_mic key d data =
     (let m = michael_data (michael_mic_hdr key d) data in put_le32 (mic_l m) @ put_le32 (mic_r m))"

section \<open>Key mixing\<close>

definition tkip_sbox :: "u16 list" where
  "tkip_sbox =
    [0xC6A5, 0xF884, 0xEE99, 0xF68D, 0xFF0D, 0xD6BD, 0xDEB1, 0x9154, 0x6050, 0x0203,
     0xCEA9, 0x567D, 0xE719, 0xB562, 0x4DE6, 0xEC9A, 0x8F45, 0x1F9D, 0x8940, 0xFA87,
     0xEF15, 0xB2EB, 0x8EC9, 0xFB0B, 0x41EC, 0xB367, 0x5FFD, 0x45EA, 0x23BF, 0x53F7,
     0xE496, 0x9B5B, 0x75C2, 0xE11C, 0x3DAE, 0x4C6A, 0x6C5A, 0x7E41, 0xF502, 0x834F,
     0x685C, 0x51F4, 0xD134, 0xF908, 0xE293, 0xAB73, 0x6253, 0x2A3F, 0x080C, 0x9552,
     0x4665, 0x9D5E, 0x3028, 0x37A1, 0x0A0F, 0x2FB5, 0x0E09, 0x2436, 0x1B9B, 0xDF3D,
     0xCD26, 0x4E69, 0x7FCD, 0xEA9F, 0x121B, 0x1D9E, 0x5874, 0x342E, 0x362D, 0xDCB2,
     0xB4EE, 0x5BFB, 0xA4F6, 0x764D, 0xB761, 0x7DCE, 0x527B, 0xDD3E, 0x5E71, 0x1397,
     0xA6F5, 0xB968, 0x0000, 0xC12C, 0x4060, 0xE31F, 0x79C8, 0xB6ED, 0xD4BE, 0x8D46,
     0x67D9, 0x724B, 0x94DE, 0x98D4, 0xB0E8, 0x854A, 0xBB6B, 0xC52A, 0x4FE5, 0xED16,
     0x86C5, 0x9AD7, 0x6655, 0x1194, 0x8ACF, 0xE910, 0x0406, 0xFE81, 0xA0F0, 0x7844,
     0x25BA, 0x4BE3, 0xA2F3, 0x5DFE, 0x80C0, 0x058A, 0x3FAD, 0x21BC, 0x7048, 0xF104,
     0x63DF, 0x77C1, 0xAF75, 0x4263, 0x2030, 0xE51A, 0xFD0E, 0xBF6D, 0x814C, 0x1814,
     0x2635, 0xC32F, 0xBEE1, 0x35A2, 0x88CC, 0x2E39, 0x9357, 0x55F2, 0xFC82, 0x7A47,
     0xC8AC, 0xBAE7, 0x322B, 0xE695, 0xC0A0, 0x1998, 0x9ED1, 0xA37F, 0x4466, 0x547E,
     0x3BAB, 0x0B83, 0x8CCA, 0xC729, 0x6BD3, 0x283C, 0xA779, 0xBCE2, 0x161D, 0xAD76,
     0xDB3B, 0x6456, 0x744E, 0x141E, 0x92DB, 0x0C0A, 0x486C, 0xB8E4, 0x9F5D, 0xBD6E,
     0x43EF, 0xC4A6, 0x39A8, 0x31A4, 0xD337, 0xF28B, 0xD532, 0x8B43, 0x6E59, 0xDAB7,
     0x018C, 0xB164, 0x9CD2, 0x49E0, 0xD8B4, 0xACFA, 0xF307, 0xCF25, 0xCAAF, 0xF48E,
     0x47E9, 0x1018, 0x6FD5, 0xF088, 0x4A6F, 0x5C72, 0x3824, 0x57F1, 0x73C7, 0x9751,
     0xCB23, 0xA17C, 0xE89C, 0x3E21, 0x96DD, 0x61DC, 0x0D86, 0x0F85, 0xE090, 0x7C42,
     0x71C4, 0xCCAA, 0x90D8, 0x0605, 0xF701, 0x1C12, 0xC2A3, 0x6A5F, 0xAEF9, 0x69D0,
     0x1791, 0x9958, 0x3A27, 0x27B9, 0xD938, 0xEB13, 0x2BB3, 0x2233, 0xD2BB, 0xA970,
     0x0789, 0x33A7, 0x2DB6, 0x3C22, 0x1592, 0xC920, 0x8749, 0xAAFF, 0x5078, 0xA57A,
     0x038F, 0x59F8, 0x0980, 0x1A17, 0x65DA, 0xD731, 0x84C6, 0xD0B8, 0x82C3, 0x29B0,
     0x5A77, 0x1E11, 0x7BCB, 0xA8FC, 0x6DD6, 0x2C3A]"

definition swab16 :: "u16 \<Rightarrow> u16" where
  "swab16 w = push_bit 8 w OR drop_bit 8 w"

definition tkipS :: "u16 \<Rightarrow> u16" where
  "tkipS val = tkip_sbox ! unat (val AND 0xff) XOR swab16 (tkip_sbox ! unat (drop_bit 8 val))"

datatype tkip_state = TKIP_STATE_NOT_INIT | TKIP_STATE_PHASE1_DONE | TKIP_STATE_PHASE1_HW_UPLOADED

text \<open>The five words of the first phase as a tuple.\<close>

type_synonym p1k = "u16 \<times> u16 \<times> u16 \<times> u16 \<times> u16"

record tkip_ctx =
  ctx_p1k :: p1k
  p1k_iv32 :: u32
  ctx_state :: tkip_state

record tkip_ctx_rx =
  rx_ctx :: tkip_ctx
  rx_iv32 :: u32
  rx_iv16 :: u16

definition write_tkip_iv :: "u16 \<Rightarrow> bytes" where
  "write_tkip_iv iv16 =
     [ucast (drop_bit 8 iv16), (ucast (drop_bit 8 iv16) OR 0x20) AND 0x7f, ucast (iv16 AND 0xff)]"

definition phase1_round :: "bytes \<Rightarrow> nat \<Rightarrow> p1k \<Rightarrow> p1k" where
  "phase1_round tk i p =
     (let (p0, p1, p2, p3, p4) = p;
          j = 2 * (i mod 2);
          p0 = p0 + tkipS (p4 XOR get_le16 tk (0 + j));
          p1 = p1 + tkipS (p0 XOR get_le16 tk (4 + j));
          p2 = p2 + tkipS (p1 XOR get_le16 tk (8 + j));
          p3 = p3 + tkipS (p2 XOR get_le16 tk (12 + j));
          p4 = p4 + (tkipS (p3 XOR get_le16 tk (0 + j)) + of_nat i)
      in (p0, p1, p2, p3, p4))"

definition phase1_key :: "bytes \<Rightarrow> bytes \<Rightarrow> u32 \<Rightarrow> p1k" where
  "phase1_key tk ta iv32 =
     fold (phase1_round tk) [0..<8]
       (ucast (iv32 AND 0xFFFF), ucast (drop_bit 16 iv32), get_le16 ta 0, get_le16 ta 2, get_le16 ta 4)"

definition tkip_mixing_phase1 :: "bytes \<Rightarrow> bytes \<Rightarrow> u32 \<Rightarrow> tkip_ctx" where
  "tkip_mixing_phase1 tk ta iv32 =
     \<lparr>ctx_p1k = phase1_key tk ta iv32, p1k_iv32 = iv32, ctx_state = TKIP_STATE_PHASE1_DONE\<rparr>"

definition tkip_mixing_phase2 :: "bytes \<Rightarrow> tkip_ctx \<Rightarrow> u16 \<Rightarrow> bytes" where
  "tkip_mixing_phase2 tk ctx iv16 =
     (let (p0, p1, p2, p3, p4) = ctx_p1k ctx;
          p5 = p4 + iv16;
          p0 = p0 + tkipS (p5 XOR get_le16 tk 0);
          p1 = p1 + tkipS (p0 XOR get_le16 tk 2);
          p2 = p2 + tkipS (p1 XOR get_le16 tk 4);
          p3 = p3 + tkipS (p2 XOR get_le16 tk 6);
          p4 = p4 + tkipS (p3 XOR get_le16 tk 8);
          p5 = p5 + tkipS (p4 XOR get_le16 tk 10);
          p0 = p0 + ror16 (p5 XOR get_le16 tk 12) 1;
          p1 = p1 + ror16 (p0 XOR get_le16 tk 14) 1;
          p2 = p2 + ror16 p1 1;
          p3 = p3 + ror16 p2 1;
          p4 = p4 + ror16 p3 1;
          p5 = p5 + ror16 p4 1
      in write_tkip_iv iv16 @ [ucast (drop_bit 1 (p5 XOR get_le16 tk 0) AND 0xFF)] @
         put_le16 p0 @ put_le16 p1 @ put_le16 p2 @ put_le16 p3 @ put_le16 p4 @ put_le16 p5)"

section \<open>Keys and buffers\<close>

record tkip_key =
  tk_conf :: key_conf
  tk_tx :: tkip_ctx
  tk_rx :: "tkip_ctx_rx list"
  mic_failures :: u32

definition encr_key :: "tkip_key \<Rightarrow> bytes" where "encr_key key = drop 0 (kc_key (tk_conf key))"
definition tx_mic_key :: "tkip_key \<Rightarrow> bytes" where "tx_mic_key key = drop 16 (kc_key (tk_conf key))"
definition rx_mic_key :: "tkip_key \<Rightarrow> bytes" where "rx_mic_key key = drop 24 (kc_key (tk_conf key))"

definition TKIP_PN_TO_IV16 :: "u64 \<Rightarrow> u16" where "TKIP_PN_TO_IV16 pn = ucast (pn AND 0xffff)"
definition TKIP_PN_TO_IV32 :: "u64 \<Rightarrow> u32" where "TKIP_PN_TO_IV32 pn = ucast (drop_bit 16 pn AND 0xffffffff)"

definition ieee80211_tkip_add_iv :: "key_conf \<Rightarrow> u64 \<Rightarrow> bytes" where
  "ieee80211_tkip_add_iv conf pn =
     write_tkip_iv (TKIP_PN_TO_IV16 pn) @ [push_bit 6 (of_nat (kc_keyidx conf)) OR 0x20] @
     put_le32 (TKIP_PN_TO_IV32 pn)"

definition ieee80211_compute_tkip_p1k :: "bytes \<Rightarrow> tkip_key \<Rightarrow> u32 \<Rightarrow> tkip_key" where
  "ieee80211_compute_tkip_p1k vif_addr key iv32 =
     (if p1k_iv32 (tk_tx key) \<noteq> iv32 \<or> ctx_state (tk_tx key) = TKIP_STATE_NOT_INIT
      then key\<lparr>tk_tx := tkip_mixing_phase1 (encr_key key) vif_addr iv32\<rparr> else key)"

definition ieee80211_get_tkip_p1k_iv :: "bytes \<Rightarrow> tkip_key \<Rightarrow> u32 \<Rightarrow> p1k \<times> tkip_key" where
  "ieee80211_get_tkip_p1k_iv vif_addr key iv32 =
     (let key1 = ieee80211_compute_tkip_p1k vif_addr key iv32 in (ctx_p1k (tk_tx key1), key1))"

definition ieee80211_get_tkip_rx_p1k :: "tkip_key \<Rightarrow> bytes \<Rightarrow> u32 \<Rightarrow> p1k" where
  "ieee80211_get_tkip_rx_p1k key ta iv32 = ctx_p1k (tkip_mixing_phase1 (encr_key key) ta iv32)"

definition ieee80211_get_tkip_p2k :: "bytes \<Rightarrow> tkip_key \<Rightarrow> bytes \<Rightarrow> bytes \<times> tkip_key" where
  "ieee80211_get_tkip_p2k vif_addr key d =
     (let data = drop (ieee80211_hdrlen (hdr_fc d)) d;
          iv32 = get_le32 data 4;
          iv16 = ucast (data ! 2) OR push_bit 8 (ucast (data ! 0));
          key1 = ieee80211_compute_tkip_p1k vif_addr key iv32
      in (tkip_mixing_phase2 (encr_key key1) (tk_tx key1) iv16, key1))"

text \<open>\<open>pos\<close> is the offset of the payload in the frame, \<open>addr\<close> the address of the frame.\<close>

definition ieee80211_tkip_encrypt_data ::
  "bool \<Rightarrow> bytes \<Rightarrow> tkip_key \<Rightarrow> nat \<Rightarrow> bytes \<Rightarrow> nat \<Rightarrow> bytes \<times> tkip_key" where
  "ieee80211_tkip_encrypt_data le vif_addr key addr d pos =
     (let (rc4key, key1) = ieee80211_get_tkip_p2k vif_addr key d
      in (take pos d @ ieee80211_wep_encrypt_data le (addr + pos) rc4key (drop pos d), key1))"

datatype tkip_res = TKIP_DECRYPT_OK | TKIP_DECRYPT_NO_EXT_IV | TKIP_DECRYPT_INVALID_KEYIDX | TKIP_DECRYPT_REPLAY

text \<open>The replay test.\<close>

definition tkip_replayed :: "tkip_ctx_rx \<Rightarrow> u32 \<Rightarrow> u16 \<Rightarrow> bool" where
  "tkip_replayed r iv32 iv16 \<longleftrightarrow>
     iv32 < rx_iv32 r \<or>
     (iv32 = rx_iv32 r \<and>
      (iv16 < rx_iv16 r \<or>
       (iv16 = rx_iv16 r \<and>
        (rx_iv32 r \<noteq> 0 \<or> rx_iv16 r \<noteq> 0 \<or> ctx_state (rx_ctx r) \<noteq> TKIP_STATE_NOT_INIT))))"

text \<open>
  \<open>hw\<close> says that the driver takes the keys of the first phase and has this key. The result has the vector
  that is recorded when it is OK, the key and the payload. The error of the check value is -1, the number
  of \<open>TKIP_DECRYPT_NO_EXT_IV\<close>.
\<close>

definition ieee80211_tkip_decrypt_data ::
  "bool \<Rightarrow> bool \<Rightarrow> tkip_key \<Rightarrow> nat \<Rightarrow> bytes \<Rightarrow> bytes \<Rightarrow> bool \<Rightarrow> nat \<Rightarrow>
   tkip_res \<times> (u32 \<times> u16) option \<times> tkip_key \<times> bytes" where
  "ieee80211_tkip_decrypt_data le hw key addr payload ta only_iv queue =
     (if length payload < 12 then (TKIP_DECRYPT_NO_EXT_IV, None, key, payload)
      else (let iv16 = push_bit 8 (ucast (payload ! 0)) OR ucast (payload ! 2);
                keyid = payload ! 3;
                iv32 = get_le32 payload 4;
                r = tk_rx key ! queue
            in if keyid AND 0x20 = 0 then (TKIP_DECRYPT_NO_EXT_IV, None, key, payload)
               else if unat (drop_bit 6 keyid) \<noteq> kc_keyidx (tk_conf key)
               then (TKIP_DECRYPT_INVALID_KEYIDX, None, key, payload)
               else if tkip_replayed r iv32 iv16 then (TKIP_DECRYPT_REPLAY, None, key, payload)
               else if only_iv
               then (TKIP_DECRYPT_OK, Some (iv32, iv16),
                     key\<lparr>tk_rx := (tk_rx key)[queue :=
                       r\<lparr>rx_ctx := (rx_ctx r)\<lparr>ctx_state := TKIP_STATE_PHASE1_HW_UPLOADED\<rparr>\<rparr>]\<rparr>, payload)
               else (let c1 = (if ctx_state (rx_ctx r) = TKIP_STATE_NOT_INIT \<or> rx_iv32 r \<noteq> iv32
                               then tkip_mixing_phase1 (encr_key key) ta iv32 else rx_ctx r);
                         c2 = (if hw \<and> ctx_state c1 \<noteq> TKIP_STATE_PHASE1_HW_UPLOADED
                               then c1\<lparr>ctx_state := TKIP_STATE_PHASE1_HW_UPLOADED\<rparr> else c1);
                         rc4key = tkip_mixing_phase2 (encr_key key) c2 iv16;
                         (plain, ok) = ieee80211_wep_decrypt_data le (addr + 8) rc4key (drop 8 payload)
                     in (if ok then TKIP_DECRYPT_OK else TKIP_DECRYPT_NO_EXT_IV,
                         if ok then Some (iv32, iv16) else None,
                         key\<lparr>tk_rx := (tk_rx key)[queue := r\<lparr>rx_ctx := c2\<rparr>]\<rparr>,
                         take 8 payload @ plain))))"

section \<open>Handlers for frames\<close>

text \<open>\<open>hw\<close> is the flags of the key in the hardware, \<open>frag\<close> that the frame is not fragmented in software,
  \<open>failure\<close> the flag that asks for a wrong code.\<close>

definition ieee80211_tx_h_michael_mic_add ::
  "tkip_key option \<Rightarrow> u32 option \<Rightarrow> bool \<Rightarrow> bool \<Rightarrow> sk_buff \<Rightarrow> tx_result \<times> u32 option \<times> sk_buff" where
  "ieee80211_tx_h_michael_mic_add key hw frag failure skb =
     (let d = skb_data skb;
          h = ieee80211_hdrlen (hdr_fc d)
      in case key of
           None \<Rightarrow> (TX_CONTINUE, hw, skb)
         | Some k \<Rightarrow>
             if kc_cipher (tk_conf k) \<noteq> WLAN_CIPHER_SUITE_TKIP \<or> length d < 24 \<or>
                \<not> ieee80211_is_data_present (hdr_fc d)
             then (TX_CONTINUE, hw, skb)
             else if length d < h then (TX_DROP, hw, skb)
             else (let hw1 = (if failure then None else hw);
                       flags = kc_flags (tk_conf k);
                       tail = 8 + (if hw1 = None then 4 else 0)
                   in if hw1 \<noteq> None \<and> frag \<and>
                         \<not> key_flag flags (IEEE80211_KEY_FLAG_GENERATE_MMIC OR IEEE80211_KEY_FLAG_PUT_MIC_SPACE)
                      then (TX_CONTINUE, hw1, skb)
                      else if skb_tailroom skb < tail \<or> skb_headroom skb < 8 then (TX_DROP, hw1, skb)
                      else if key_flag flags IEEE80211_KEY_FLAG_PUT_MIC_SPACE
                      then (TX_CONTINUE, hw1, skb_put_bytes (replicate 8 0) skb)
                      else (let mic = michael_mic (tx_mic_key k) d (drop h d);
                                mic1 = (if failure then mic[0 := mic ! 0 + 1] else mic)
                            in (TX_CONTINUE, hw1, skb_put_bytes mic1 skb))))"

text \<open>
  The result, whether a failure is reported, and the new key and frame. \<open>iv\<close> is the vector that the
  decryption recorded.
\<close>

definition ieee80211_rx_h_michael_mic_verify ::
  "bool \<Rightarrow> bool \<Rightarrow> rx_status \<Rightarrow> tkip_key option \<Rightarrow> nat \<Rightarrow> u32 \<times> u16 \<Rightarrow> sk_buff \<Rightarrow>
   rx_result \<times> bool \<times> tkip_key option \<times> sk_buff" where
  "ieee80211_rx_h_michael_mic_verify mem is_ap status key queue iv skb =
     (let d = skb_data skb;
          h = ieee80211_hdrlen (hdr_fc d);
          update_iv = map_option (\<lambda>k. k\<lparr>tk_rx := (tk_rx k)[queue :=
            (tk_rx k ! queue)\<lparr>rx_iv32 := fst iv, rx_iv16 := snd iv\<rparr>]\<rparr>);
          mic_fail = map_option (\<lambda>k. k\<lparr>mic_failures := mic_failures k + 1\<rparr>)
      in if \<not> ieee80211_is_data_present (hdr_fc d) then (RX_CONTINUE, False, key, skb)
         else if rx_mmic_stripped status \<or> rx_iv_stripped status
         then (if rx_mmic_error status then (RX_DROP_UNUSABLE, True, key, skb)
               else if \<not> rx_iv_stripped status \<and>
                       (case key of None \<Rightarrow> False | Some k \<Rightarrow> kc_cipher (tk_conf k) = WLAN_CIPHER_SUITE_TKIP)
               then (RX_CONTINUE, False, update_iv key, skb)
               else (RX_CONTINUE, False, key, skb))
         else case key of
           None \<Rightarrow> (RX_CONTINUE, False, key, skb)
         | Some k \<Rightarrow>
             if kc_cipher (tk_conf k) \<noteq> WLAN_CIPHER_SUITE_TKIP \<or> \<not> rx_decrypted status
             then (RX_CONTINUE, False, key, skb)
             else if is_ap \<and> kc_keyidx (tk_conf k) \<noteq> 0 then (RX_DROP_UNUSABLE, False, key, skb)
             else if rx_mmic_error status then (RX_DROP_UNUSABLE, True, mic_fail key, skb)
             else if length d < h + 8 then (RX_DROP_UNUSABLE, False, key, skb)
             else if \<not> mem then (RX_DROP_UNUSABLE, False, key, skb)
             else (let n = length d - h - 8;
                       mic = michael_mic (rx_mic_key k) d (take n (drop h d))
                   in if mic \<noteq> take 8 (drop (h + n) d) then (RX_DROP_UNUSABLE, True, mic_fail key, skb)
                      else (RX_CONTINUE, False, update_iv key, skb_trim (length d - 8) skb)))"

text \<open>The result is true for 0 and false for -1.\<close>

definition tkip_encrypt_skb ::
  "bool \<Rightarrow> bytes \<Rightarrow> u32 option \<Rightarrow> tkip_key \<Rightarrow> sk_buff \<Rightarrow> bool \<times> tkip_key \<times> sk_buff" where
  "tkip_encrypt_skb le vif_addr hw key skb =
     (let has = (\<lambda>f. case hw of None \<Rightarrow> False | Some fl \<Rightarrow> key_flag fl f) in
      if hw \<noteq> None \<and> \<not> has IEEE80211_KEY_FLAG_GENERATE_IV \<and> \<not> has IEEE80211_KEY_FLAG_PUT_IV_SPACE
      then (True, key, skb)
      else (let h = ieee80211_hdrlen (hdr_fc (skb_data skb));
                tail = (if hw \<noteq> None then 0 else 4)
            in if skb_tailroom skb < tail \<or> skb_headroom skb < 8 then (False, key, skb)
               else (let skb1 = skb_open_gap 8 h skb in
                     if has IEEE80211_KEY_FLAG_PUT_IV_SPACE then (True, key, skb1)
                     else (let pn = kc_tx_pn (tk_conf key) + 1;
                               key1 = key\<lparr>tk_conf := (tk_conf key)\<lparr>kc_tx_pn := pn\<rparr>\<rparr>;
                               skb2 = skb_write h (ieee80211_tkip_add_iv (tk_conf key1) pn) skb1
                           in if hw \<noteq> None then (True, key1, skb2)
                              else (let (d, key2) = ieee80211_tkip_encrypt_data le vif_addr key1
                                          (skb_addr skb2) (skb_data skb2) (h + 8)
                                    in (True, key2,
                                        skb2\<lparr>skb_data := d, skb_tailroom := skb_tailroom skb2 - 4\<rparr>))))))"

fun tkip_encrypt_skbs ::
  "bool \<Rightarrow> bytes \<Rightarrow> u32 option \<Rightarrow> tkip_key \<Rightarrow> sk_buff list \<Rightarrow> tx_result \<times> tkip_key \<times> sk_buff list" where
  "tkip_encrypt_skbs le vif_addr hw key [] = (TX_CONTINUE, key, [])"
| "tkip_encrypt_skbs le vif_addr hw key (skb # skbs) =
     (case tkip_encrypt_skb le vif_addr hw key skb of
        (False, key1, skb1) \<Rightarrow> (TX_DROP, key1, skb1 # skbs)
      | (True, key1, skb1) \<Rightarrow>
          (let (r, key2, skbs1) = tkip_encrypt_skbs le vif_addr hw key1 skbs in (r, key2, skb1 # skbs1)))"

definition ieee80211_crypto_tkip_encrypt ::
  "bool \<Rightarrow> bytes \<Rightarrow> u32 option \<Rightarrow> tkip_key \<Rightarrow> sk_buff list \<Rightarrow> tx_result \<times> tkip_key \<times> sk_buff list" where
  "ieee80211_crypto_tkip_encrypt le vif_addr hw key skbs =
     tkip_encrypt_skbs le vif_addr hw key (ieee80211_tx_set_protected skbs)"

text \<open>\<open>sta\<close> is the address of the sender, when it is known.\<close>

definition ieee80211_crypto_tkip_decrypt ::
  "bool \<Rightarrow> bool \<Rightarrow> bool \<Rightarrow> rx_status \<Rightarrow> bytes option \<Rightarrow> tkip_key \<Rightarrow> nat \<Rightarrow> sk_buff \<Rightarrow>
   rx_result \<times> (u32 \<times> u16) option \<times> tkip_key \<times> sk_buff" where
  "ieee80211_crypto_tkip_decrypt le mem hw status sta key queue skb =
     (let d = skb_data skb;
          h = ieee80211_hdrlen (hdr_fc d)
      in if \<not> ieee80211_is_data (hdr_fc d) then (RX_CONTINUE, None, key, skb)
         else case sta of
           None \<Rightarrow> (RX_DROP_UNUSABLE, None, key, skb)
         | Some ta \<Rightarrow>
             if h \<le> length d \<and> length d - h < 12 then (RX_DROP_UNUSABLE, None, key, skb)
             else if \<not> mem then (RX_DROP_UNUSABLE, None, key, skb)
             else (let (res, iv, key1, payload) = ieee80211_tkip_decrypt_data le hw key (skb_addr skb + h)
                         (drop h d) ta (rx_decrypted status) queue;
                       skb1 = skb\<lparr>skb_data := take h d @ payload\<rparr>
                   in if res \<noteq> TKIP_DECRYPT_OK then (RX_DROP_UNUSABLE, iv, key1, skb1)
                      else (let skb2 = (if rx_icv_stripped status then skb1 else skb_trim (length d - 4) skb1)
                            in (RX_CONTINUE, iv, key1, skb_close_gap 8 h skb2))))"

end
