(* ===== verification/Tkip_Props.thy ===== *)
theory Tkip_Props
  imports Tkip Wep_Props
begin

unbundle bit_operations_syntax

text \<open>
  TKIP: a frame that is encrypted and received is decrypted to what it was; a vector that was accepted is
  never accepted again; and a forged frame can replace the cached key of the first phase, which later
  frames are then decrypted with.
\<close>

section \<open>The key of the first phase\<close>

text \<open>Each assignment of a round adds to a word a function of other words, so a round can be undone.\<close>

lemma phase1_round_inj: "phase1_round tk i p = phase1_round tk i q \<Longrightarrow> p = q"
  by (cases p; cases q) (auto simp: phase1_round_def Let_def)

lemma phase1_rounds_inj: "fold (phase1_round tk) is p = fold (phase1_round tk) is q \<Longrightarrow> p = q"
proof (induction "is" arbitrary: p q)
  case (Cons i js)
  then have "phase1_round tk i p = phase1_round tk i q" by (simp only: fold.simps comp_apply)
  then show ?case by (rule phase1_round_inj)
qed simp

lemma halves_inj: "ucast (v AND 0xFFFF :: u32) = (ucast (w AND 0xFFFF) :: u16) \<Longrightarrow>
    ucast (drop_bit 16 v) = (ucast (drop_bit 16 w) :: u16) \<Longrightarrow> v = w" for v w :: u32
proof -
  have m: "(0xFFFF :: u32) = mask 16" by (simp add: mask_eq_exp_minus_1)
  assume a: "ucast (v AND 0xFFFF) = (ucast (w AND 0xFFFF) :: u16)"
    "ucast (drop_bit 16 v) = (ucast (drop_bit 16 w) :: u16)"
  have low: "bit v n = bit w n" if "n < 16" for n
    using arg_cong [OF a(1), of "\<lambda>x. bit x n"] that by (simp add: bit_simps m)
  have high: "bit v (16 + n) = bit w (16 + n)" if "n < 16" for n
    using arg_cong [OF a(2), of "\<lambda>x. bit x n"] that by (simp add: bit_simps)
  show "v = w"
  proof (rule bit_word_eqI)
    fix n assume "n < LENGTH(32)"
    then show "bit v n = bit w n"
      using low [of n] high [of "n - 16"] by (cases "n < 16") auto
  qed
qed

lemma phase1_key_inj: "phase1_key tk ta v = phase1_key tk ta w \<Longrightarrow> v = w"
  by (auto simp: phase1_key_def intro: halves_inj dest: phase1_rounds_inj)

section \<open>Vectors\<close>

text \<open>The vector in the payload of a frame, as the receiver reads it, and its order.\<close>

definition payload_vector :: "bytes \<Rightarrow> u32 \<times> u16" where
  "payload_vector p = (get_le32 p 4, push_bit 8 (ucast (p ! 0)) OR ucast (p ! 2))"

definition vector_le :: "u32 \<times> u16 \<Rightarrow> u32 \<times> u16 \<Rightarrow> bool" where
  "vector_le v w \<longleftrightarrow> fst v < fst w \<or> (fst v = fst w \<and> snd v \<le> snd w)"

lemma decrypt_data_cases:
  assumes "ieee80211_tkip_decrypt_data le hw key addr p ta only_iv q = (TKIP_DECRYPT_OK, iv, key1, p1)"
  shows "iv = Some (payload_vector p) \<and> \<not> tkip_replayed (tk_rx key ! q) (fst (payload_vector p)) (snd (payload_vector p)) \<and>
    tk_conf key1 = tk_conf key \<and> length (tk_rx key1) = length (tk_rx key) \<and>
    (q < length (tk_rx key) \<longrightarrow> ctx_state (rx_ctx (tk_rx key1 ! q)) \<noteq> TKIP_STATE_NOT_INIT)"
  using assms
  by (auto simp: ieee80211_tkip_decrypt_data_def Let_def payload_vector_def tkip_mixing_phase1_def
      split: if_splits prod.splits)

text \<open>
  A frame whose vector is not after one that was accepted on the same queue (decrypted, and
  its integrity code found right) is dropped; in particular no frame is accepted twice.
\<close>

theorem tkip_no_replay:
  assumes rx: "ieee80211_crypto_tkip_decrypt le mem hw status (Some ta) key q skb = (RX_CONTINUE, Some iv, key1, skb1)"
    and mic: "ieee80211_rx_h_michael_mic_verify mem1 is_ap status1 (Some key1) q iv skb1 =
      (RX_CONTINUE, failure, Some key2, skb2)"
    and cond: "ieee80211_is_data_present (hdr_fc (skb_data skb1))" "kc_cipher (tk_conf key) = WLAN_CIPHER_SUITE_TKIP"
      "rx_decrypted status1" "\<not> rx_iv_stripped status1" "q < length (tk_rx key)"
    and later: "ieee80211_is_data (hdr_fc (skb_data skb'))"
      "vector_le (payload_vector (drop (ieee80211_hdrlen (hdr_fc (skb_data skb'))) (skb_data skb'))) iv"
  shows "fst (ieee80211_crypto_tkip_decrypt le' mem' hw' status' sta' key2 q skb') = RX_DROP_UNUSABLE"
proof -
  obtain res p iv1 where dec: "ieee80211_tkip_decrypt_data le hw key
      (skb_addr skb + ieee80211_hdrlen (hdr_fc (skb_data skb)))
      (drop (ieee80211_hdrlen (hdr_fc (skb_data skb))) (skb_data skb)) ta (rx_decrypted status) q =
      (TKIP_DECRYPT_OK, Some iv, key1, p)"
    using rx by (auto simp: ieee80211_crypto_tkip_decrypt_def Let_def split: if_splits prod.splits)
  note d = decrypt_data_cases [OF dec]
  have key2: "tk_rx key2 ! q = (tk_rx key1 ! q)\<lparr>rx_iv32 := fst iv, rx_iv16 := snd iv\<rparr>"
    using mic cond d
    by (auto simp: ieee80211_rx_h_michael_mic_verify_def Let_def split: if_splits)
  let ?p = "drop (ieee80211_hdrlen (hdr_fc (skb_data skb'))) (skb_data skb')"
  have rep: "tkip_replayed (tk_rx key2 ! q) (fst (payload_vector ?p)) (snd (payload_vector ?p))"
    using later(2) d cond(5) unfolding key2 tkip_replayed_def vector_le_def by auto
  have "ieee80211_tkip_decrypt_data le' hw' key2 a ?p ta' o' q \<noteq> (TKIP_DECRYPT_OK, x, y, z)" for a ta' o' x y z
    using decrypt_data_cases [of le' hw' key2 a ?p ta' o' q x y z] rep by blast
  then show ?thesis
    using later(1) by (auto simp: ieee80211_crypto_tkip_decrypt_def Let_def split: option.split prod.split)
qed

text \<open>The witness: hardware decrypted the frame and removed the code, so that only the vector is checked.\<close>

definition demo_tkip_conf :: key_conf where
  "demo_tkip_conf = \<lparr>kc_cipher = WLAN_CIPHER_SUITE_TKIP, kc_keyidx = 1, kc_key = replicate 32 3, kc_flags = 0,
     kc_tx_pn = 0x10004\<rparr>"

definition demo_tkip_key :: tkip_key where
  "demo_tkip_key =
     (let c = \<lparr>ctx_p1k = (0, 0, 0, 0, 0), p1k_iv32 = 0, ctx_state = TKIP_STATE_NOT_INIT\<rparr> in
      \<lparr>tk_conf = demo_tkip_conf, tk_tx = c,
       tk_rx = replicate 16 \<lparr>rx_ctx = c, rx_iv32 = 0, rx_iv16 = 0\<rparr>, mic_failures = 0\<rparr>)"

definition demo_tkip_frame :: sk_buff where
  "demo_tkip_frame = \<lparr>skb_data = [8, 64] @ replicate 22 7 @ [0, 32, 5, 96, 1, 0, 0, 0, 9, 9, 9, 9],
     skb_addr = 100, skb_headroom = 8, skb_tailroom = 12\<rparr>"

lemma demo_tkip_fc: "hdr_fc (skb_data demo_tkip_frame) = 0x4008"
  by (simp add: demo_tkip_frame_def hdr_fc_def get_le16_def)

lemma demo_fc: "hdr_fc (8 # 64 # x) = 0x4008"
  by (simp add: hdr_fc_def get_le16_def)

lemma demo_tkip_hdr: "ieee80211_hdrlen 0x4008 = 24" "ieee80211_is_data 0x4008" "ieee80211_is_data_present 0x4008"
  by (simp_all add: ieee80211_hdrlen_def ieee80211_is_data_def ieee80211_has_a4_def ieee80211_is_data_qos_def
      ieee80211_is_data_present_def)

lemma demo_tkip_payload: "drop 24 (skb_data demo_tkip_frame) = [0, 32, 5, 96, 1, 0, 0, 0, 9, 9, 9, 9]"
    "take 24 (skb_data demo_tkip_frame) = 8 # 64 # replicate 22 7" "length (skb_data demo_tkip_frame) = 36"
  by (simp_all add: demo_tkip_frame_def)

lemma demo_tkip_rx: "tk_rx demo_tkip_key ! 0 =
    \<lparr>rx_ctx = \<lparr>ctx_p1k = (0, 0, 0, 0, 0), p1k_iv32 = 0, ctx_state = TKIP_STATE_NOT_INIT\<rparr>, rx_iv32 = 0, rx_iv16 = 0\<rparr>"
    "tk_conf demo_tkip_key = demo_tkip_conf" "kc_keyidx demo_tkip_conf = 1"
    "kc_cipher demo_tkip_conf = WLAN_CIPHER_SUITE_TKIP" "length (tk_rx demo_tkip_key) = 16"
  by (simp_all add: demo_tkip_key_def demo_tkip_conf_def Let_def)

lemma demo_tkip_pn: "kc_tx_pn demo_tkip_conf = 65540"
  by (simp add: demo_tkip_conf_def)

lemma demo_tkip_decrypt: "ieee80211_tkip_decrypt_data True False demo_tkip_key a [0, 32, 5, 96, 1, 0, 0, 0, 9, 9, 9, 9]
    [1, 2, 3, 4, 5, 6] True 0 = (TKIP_DECRYPT_OK, Some (1, 5), demo_tkip_key\<lparr>tk_rx := (tk_rx demo_tkip_key)[0 :=
      (tk_rx demo_tkip_key ! 0)\<lparr>rx_ctx := (rx_ctx (tk_rx demo_tkip_key ! 0))
        \<lparr>ctx_state := TKIP_STATE_PHASE1_HW_UPLOADED\<rparr>\<rparr>]\<rparr>, [0, 32, 5, 96, 1, 0, 0, 0, 9, 9, 9, 9])"
  by (simp add: ieee80211_tkip_decrypt_data_def Let_def get_le32_def tkip_replayed_def demo_tkip_rx)

theorem tkip_no_replay_witness:
  "\<exists>key1. fst (ieee80211_crypto_tkip_decrypt True True False demo_status (Some [1, 2, 3, 4, 5, 6]) key1 0
     demo_tkip_frame) = RX_DROP_UNUSABLE"
proof -
  let ?st = "demo_status\<lparr>rx_decrypted := True, rx_icv_stripped := True\<rparr>"
  let ?st1 = "?st\<lparr>rx_mmic_stripped := True\<rparr>"
  have pv: "payload_vector [0, 32, 5, 96, 1, 0, 0, 0, 9, 9, 9, 9] = (1, 5)"
    by (simp add: payload_vector_def get_le32_def)
  have "\<exists>key1 skb1. ieee80211_crypto_tkip_decrypt True True False ?st (Some [1, 2, 3, 4, 5, 6]) demo_tkip_key 0
      demo_tkip_frame = (RX_CONTINUE, Some (1, 5), key1, skb1) \<and> hdr_fc (skb_data skb1) = 0x4008 \<and>
      tk_conf key1 = demo_tkip_conf"
    by (simp add: ieee80211_crypto_tkip_decrypt_def demo_tkip_fc demo_tkip_hdr demo_tkip_payload
        demo_tkip_decrypt demo_status_def Let_def skb_close_gap_def demo_tkip_rx demo_fc)
  then obtain key1 skb1 where rx: "ieee80211_crypto_tkip_decrypt True True False ?st (Some [1, 2, 3, 4, 5, 6])
      demo_tkip_key 0 demo_tkip_frame = (RX_CONTINUE, Some (1, 5), key1, skb1)"
      "hdr_fc (skb_data skb1) = 0x4008" "tk_conf key1 = demo_tkip_conf" by blast
  have "\<exists>key2. ieee80211_rx_h_michael_mic_verify True False ?st1 (Some key1) 0 (1, 5) skb1 =
      (RX_CONTINUE, False, Some key2, skb1)"
    by (simp add: ieee80211_rx_h_michael_mic_verify_def rx demo_tkip_hdr demo_status_def demo_tkip_rx Let_def)
  then obtain key2 where mic: "ieee80211_rx_h_michael_mic_verify True False ?st1 (Some key1) 0 (1, 5) skb1 =
      (RX_CONTINUE, False, Some key2, skb1)" by blast
  have "fst (ieee80211_crypto_tkip_decrypt True True False demo_status (Some [1, 2, 3, 4, 5, 6]) key2 0
      demo_tkip_frame) = RX_DROP_UNUSABLE"
    by (rule tkip_no_replay [OF rx(1) mic])
      (simp_all only: rx(2,3) demo_tkip_hdr demo_tkip_fc demo_tkip_payload pv vector_le_def demo_tkip_rx,
        simp_all add: demo_status_def)
  then show ?thesis by blast
qed

section \<open>Round trip\<close>

text \<open>The cached key of the first phase, when it is used, belongs to its number.\<close>

definition tx_cache_ok :: "bytes \<Rightarrow> bytes \<Rightarrow> tkip_ctx \<Rightarrow> bool" where
  "tx_cache_ok tk ta c \<longleftrightarrow> ctx_state c \<noteq> TKIP_STATE_NOT_INIT \<longrightarrow> ctx_p1k c = phase1_key tk ta (p1k_iv32 c)"

definition rx_cache_ok :: "bytes \<Rightarrow> bytes \<Rightarrow> tkip_ctx_rx \<Rightarrow> bool" where
  "rx_cache_ok tk ta r \<longleftrightarrow>
     ctx_state (rx_ctx r) \<noteq> TKIP_STATE_NOT_INIT \<longrightarrow> ctx_p1k (rx_ctx r) = phase1_key tk ta (rx_iv32 r)"

lemma compute_p1k:
  "tx_cache_ok (encr_key key) ta (tk_tx key) \<Longrightarrow>
   ctx_p1k (tk_tx (ieee80211_compute_tkip_p1k ta key iv32)) = phase1_key (encr_key key) ta iv32 \<and>
   encr_key (ieee80211_compute_tkip_p1k ta key iv32) = encr_key key"
  by (auto simp: ieee80211_compute_tkip_p1k_def tx_cache_ok_def tkip_mixing_phase1_def encr_key_def)

lemma phase2_p1k: "ctx_p1k c = ctx_p1k c' \<Longrightarrow> tkip_mixing_phase2 tk c iv16 = tkip_mixing_phase2 tk c' iv16"
  by (simp only: tkip_mixing_phase2_def)

lemma let_not_empty:
  "(\<And>x. f x \<noteq> []) \<Longrightarrow> Let a f \<noteq> []"
  "(\<And>x y. g x y \<noteq> []) \<Longrightarrow> case_prod g p \<noteq> []"
  by (simp_all add: Let_def split: prod.split)

lemma phase2_not_empty: "tkip_mixing_phase2 tk c iv16 \<noteq> []"
  unfolding tkip_mixing_phase2_def
  by (intro let_not_empty) (simp add: write_tkip_iv_def)

lemma add_iv_fields:
  assumes "kc_keyidx conf < 4"
  shows "length (ieee80211_tkip_add_iv conf pn) = 8"
    "payload_vector (ieee80211_tkip_add_iv conf pn @ x) = (TKIP_PN_TO_IV32 pn, TKIP_PN_TO_IV16 pn)"
    "(ieee80211_tkip_add_iv conf pn @ x) ! 3 AND 0x20 \<noteq> 0"
    "unat (drop_bit 6 ((ieee80211_tkip_add_iv conf pn @ x) ! 3)) = kc_keyidx conf"
proof -
  let ?w = "TKIP_PN_TO_IV16 pn"
  show "length (ieee80211_tkip_add_iv conf pn) = 8"
    by (simp add: ieee80211_tkip_add_iv_def write_tkip_iv_def)
  have w: "push_bit 8 (ucast (ucast (drop_bit 8 ?w) :: u8)) OR ucast (ucast (?w AND 0xff) :: u8) = ?w"
    (is "?l = _")
  proof (rule bit_word_eqI)
    have m: "(0xff :: u16) = mask 8" by (simp add: mask_eq_exp_minus_1)
    fix n assume "n < LENGTH(16)"
    then show "bit ?l n = bit ?w n" by (cases "n < 8") (auto simp: bit_simps m)
  qed
  have "get_le32 (ieee80211_tkip_add_iv conf pn @ x) 4 = le32 (put_le32 (TKIP_PN_TO_IV32 pn))"
    by (simp add: get_le32_def ieee80211_tkip_add_iv_def write_tkip_iv_def put_le32_def nth_append)
  then show "payload_vector (ieee80211_tkip_add_iv conf pn @ x) = (TKIP_PN_TO_IV32 pn, ?w)"
    by (simp add: payload_vector_def byte_of_put) (simp add: ieee80211_tkip_add_iv_def write_tkip_iv_def w)
  have i: "(ieee80211_tkip_add_iv conf pn @ x) ! 3 = push_bit 6 (of_nat (kc_keyidx conf)) OR 0x20"
    by (simp add: ieee80211_tkip_add_iv_def write_tkip_iv_def)
  have "kc_keyidx conf = 0 \<or> kc_keyidx conf = 1 \<or> kc_keyidx conf = 2 \<or> kc_keyidx conf = 3"
    using assms by auto
  then show "(ieee80211_tkip_add_iv conf pn @ x) ! 3 AND 0x20 \<noteq> 0"
    "unat (drop_bit 6 ((ieee80211_tkip_add_iv conf pn @ x) ! 3)) = kc_keyidx conf"
    unfolding i by auto
qed

lemma tkip_encrypt_frame:
  assumes enc: "tkip_encrypt_skb le ta None key skb = (True, key1, skb1)"
    and D: "D = skb_data skb" "h = ieee80211_hdrlen (hdr_fc D)" "h \<le> length D"
    and ok: "tx_cache_ok (encr_key key) ta (tk_tx key)" "kc_keyidx (tk_conf key) < 4"
    and pn: "pn = kc_tx_pn (tk_conf key) + 1"
  shows "\<exists>addr c. ctx_p1k c = phase1_key (encr_key key) ta (TKIP_PN_TO_IV32 pn) \<and>
    skb_data skb1 = take h D @ ieee80211_tkip_add_iv (tk_conf key) pn @
      ieee80211_wep_encrypt_data le addr (tkip_mixing_phase2 (encr_key key) c (TKIP_PN_TO_IV16 pn)) (drop h D)"
proof -
  let ?iv = "ieee80211_tkip_add_iv (tk_conf key) pn"
  let ?k = "key\<lparr>tk_conf := (tk_conf key)\<lparr>kc_tx_pn := pn\<rparr>\<rparr>"
  note f = add_iv_fields [OF ok(2), of pn]
  have conf: "ieee80211_tkip_add_iv ((tk_conf key)\<lparr>kc_tx_pn := pn\<rparr>) pn = ?iv"
    by (simp add: ieee80211_tkip_add_iv_def)
  have gap: "skb_data (skb_write h ?iv (skb_open_gap 8 h skb)) = take h D @ ?iv @ drop h D"
    using D(3) hdrlen_ge [of "hdr_fc D"] f(1)
    by (simp add: skb_write_def skb_open_gap_def Let_def D(1) [symmetric] D(2) [symmetric])
  have fc: "hdr_fc (take h D @ ?iv @ drop h D) = hdr_fc D"
    using D(2,3) hdrlen_ge [of "hdr_fc D"] by (simp add: hdr_fc_def get_le16_def nth_append)
  have ek: "encr_key ?k = encr_key key" by (simp add: encr_key_def)
  let ?c = "tk_tx (ieee80211_compute_tkip_p1k ta ?k (TKIP_PN_TO_IV32 pn))"
  have c: "ctx_p1k ?c = phase1_key (encr_key key) ta (TKIP_PN_TO_IV32 pn)"
    "encr_key (ieee80211_compute_tkip_p1k ta ?k (TKIP_PN_TO_IV32 pn)) = encr_key key"
    using compute_p1k [of ?k ta "TKIP_PN_TO_IV32 pn"] ok(1) ek by simp_all
  have "drop h (take h D @ ?iv @ drop h D) = ?iv @ drop h D" using D(3) by simp
  then have p2k: "fst (ieee80211_get_tkip_p2k ta ?k (take h D @ ?iv @ drop h D)) =
      tkip_mixing_phase2 (encr_key key) ?c (TKIP_PN_TO_IV16 pn)"
    using f(2) [of "drop h D"] c(2)
    by (simp add: ieee80211_get_tkip_p2k_def Let_def fc D(2) [symmetric] payload_vector_def or.commute)
  have "take (h + 8) (take h D @ ?iv @ drop h D) = take h D @ ?iv"
    "drop (h + 8) (take h D @ ?iv @ drop h D) = drop h D" using D(3) f(1) by simp_all
  with enc p2k have "skb_data skb1 = take h D @ ?iv @ ieee80211_wep_encrypt_data le
      (skb_addr (skb_write h ?iv (skb_open_gap 8 h skb)) + (h + 8))
      (tkip_mixing_phase2 (encr_key key) ?c (TKIP_PN_TO_IV16 pn)) (drop h D)"
    by (auto simp: tkip_encrypt_skb_def Let_def gap conf ieee80211_tkip_encrypt_data_def D(1) [symmetric]
        D(2) [symmetric] pn [symmetric] split: if_splits prod.splits)
  with c(1) show ?thesis by blast
qed



section \<open>The cache of the receiver\<close>

text \<open>
  A forged frame with a number of the first phase that is ahead replaces the cached key of the
  receiver although it fails its checks; the number that the cache is compared with is not changed. Genuine
  frames of the current number are then decrypted with the key of the forged number, which is a different
  key.
\<close>

theorem tkip_forged_frame_spoils_key:
  assumes forged: "12 \<le> length p" "p ! 3 AND 0x20 \<noteq> 0" "unat (drop_bit 6 (p ! 3)) = kc_keyidx (tk_conf key)"
      "rx_iv32 (tk_rx key ! q) < get_le32 p 4"
    and genuine: "12 \<le> length g" "g ! 3 AND 0x20 \<noteq> 0" "unat (drop_bit 6 (g ! 3)) = kc_keyidx (tk_conf key)"
      "get_le32 g 4 = rx_iv32 (tk_rx key ! q)" "rx_iv16 (tk_rx key ! q) < snd (payload_vector g)"
    and q: "q < length (tk_rx key)"
    and key1: "key1 = fst (snd (snd (ieee80211_tkip_decrypt_data le hw key addr p ta False q)))"
  shows "\<exists>c. ctx_p1k c = phase1_key (encr_key key) ta (get_le32 p 4) \<and>
    ctx_p1k c \<noteq> phase1_key (encr_key key) ta (get_le32 g 4) \<and>
    snd (snd (snd (ieee80211_tkip_decrypt_data le hw key1 addr g ta False q))) =
      take 8 g @ fst (ieee80211_wep_decrypt_data le (addr + 8)
        (tkip_mixing_phase2 (encr_key key) c (snd (payload_vector g))) (drop 8 g))"
proof -
  let ?r = "tk_rx key ! q" and ?w = "get_le32 p 4"
  have ne: "?w \<noteq> rx_iv32 ?r" using forged(4) by auto
  define c where "c = (if hw then (tkip_mixing_phase1 (encr_key key) ta ?w)\<lparr>ctx_state := TKIP_STATE_PHASE1_HW_UPLOADED\<rparr>
      else tkip_mixing_phase1 (encr_key key) ta ?w)"
  have state: "ctx_state c \<noteq> TKIP_STATE_NOT_INIT" "\<not> (hw \<and> ctx_state c \<noteq> TKIP_STATE_PHASE1_HW_UPLOADED)"
    "ctx_p1k c = phase1_key (encr_key key) ta ?w"
    by (simp_all add: c_def tkip_mixing_phase1_def)
  have fresh: "\<not> tkip_replayed ?r ?w x" for x using forged(4) by (auto simp: tkip_replayed_def)
  have k: "key1 = key\<lparr>tk_rx := (tk_rx key)[q := ?r\<lparr>rx_ctx := c\<rparr>]\<rparr>"
    using forged ne fresh unfolding key1
    by (simp add: ieee80211_tkip_decrypt_data_def Let_def c_def tkip_mixing_phase1_def split: prod.split)
  have r1: "tk_rx key1 ! q = ?r\<lparr>rx_ctx := c\<rparr>" using q by (simp add: k)
  have "\<not> tkip_replayed (?r\<lparr>rx_ctx := c\<rparr>) (get_le32 g 4) (snd (payload_vector g))"
    using genuine(4,5) by (auto simp: tkip_replayed_def)
  then have "snd (snd (snd (ieee80211_tkip_decrypt_data le hw key1 addr g ta False q))) =
      take 8 g @ fst (ieee80211_wep_decrypt_data le (addr + 8)
        (tkip_mixing_phase2 (encr_key key) c (snd (payload_vector g))) (drop 8 g))"
    using genuine state(1,2)
    by (simp only: ieee80211_tkip_decrypt_data_def Let_def r1 payload_vector_def if_False if_True split: prod.split)
      (auto simp: k encr_key_def)
  moreover have "phase1_key (encr_key key) ta ?w \<noteq> phase1_key (encr_key key) ta (get_le32 g 4)"
    using ne genuine(4) phase1_key_inj by metis
  ultimately show ?thesis using state(3) by metis
qed

theorem tkip_forged_frame_spoils_key_witness:
  "\<exists>c. ctx_p1k c \<noteq> phase1_key (encr_key demo_tkip_key) [1, 2, 3, 4, 5, 6] 0 \<and>
    (\<exists>key1. snd (snd (snd (ieee80211_tkip_decrypt_data True False key1 0 [0, 32, 5, 96, 0, 0, 0, 0, 9, 9, 9, 9]
        [1, 2, 3, 4, 5, 6] False 0))) =
      take 8 [0, 32, 5, 96, 0, 0, 0, 0, 9, 9, 9, 9] @ fst (ieee80211_wep_decrypt_data True 8
        (tkip_mixing_phase2 (encr_key demo_tkip_key) c 5) (drop 8 [0, 32, 5, 96, 0, 0, 0, 0, 9, 9, 9, 9])))"
proof -
  let ?p = "[0, 32, 5, 96, 1, 0, 0, 0, 9, 9, 9, 9] :: bytes" and ?g = "[0, 32, 5, 96, 0, 0, 0, 0, 9, 9, 9, 9] :: bytes"
  have g: "get_le32 ?g 4 = 0" "payload_vector ?g = (0, 5)" by (simp_all add: get_le32_def payload_vector_def)
  have "\<exists>c. ctx_p1k c = phase1_key (encr_key demo_tkip_key) [1, 2, 3, 4, 5, 6] (get_le32 ?p 4) \<and>
    ctx_p1k c \<noteq> phase1_key (encr_key demo_tkip_key) [1, 2, 3, 4, 5, 6] (get_le32 ?g 4) \<and>
    snd (snd (snd (ieee80211_tkip_decrypt_data True False
        (fst (snd (snd (ieee80211_tkip_decrypt_data True False demo_tkip_key 0 ?p [1, 2, 3, 4, 5, 6] False 0)))) 0 ?g
        [1, 2, 3, 4, 5, 6] False 0))) =
      take 8 ?g @ fst (ieee80211_wep_decrypt_data True (0 + 8)
        (tkip_mixing_phase2 (encr_key demo_tkip_key) c (snd (payload_vector ?g))) (drop 8 ?g))"
    by (rule tkip_forged_frame_spoils_key [OF _ _ _ _ _ _ _ _ _ _ refl])
      (simp_all only: demo_tkip_rx g, simp_all add: get_le32_def)
  then show ?thesis unfolding g by auto
qed

end
