(* ===== verification/Wpa.thy ===== *)
theory Wpa
  imports Frame_Hdr
begin

unbundle bit_operations_syntax

text \<open>
  Model of the AES ciphers of \<open>net/mac80211/wpa.c\<close>: CCMP, GCMP, the protection of management frames (BIP)
  and the cipher schemes of hardware, with the calls of \<open>aead_api.c\<close>, \<open>aes_cmac.c\<close> and \<open>aes_gmac.c\<close>.

  The AES algorithms are not in the repository: an authenticated cipher is a record of two functions and a
  code a function, arguments of the handlers. \<open>mem\<close> says whether memory is found. The result \<open>None\<close> is a read
  outside of an array. Where decryption fails the frame is returned unchanged; it is dropped in all cases.
\<close>

section \<open>Packet numbers\<close>

text \<open>\<open>memcmp\<close> on buffers of the same length: its sign.\<close>

fun memcmp :: "bytes \<Rightarrow> bytes \<Rightarrow> int" where
  "memcmp (x # xs) (y # ys) = (if x < y then - 1 else if y < x then 1 else memcmp xs ys)"
| "memcmp xs ys = 0"

definition pn_bytes :: "u64 \<Rightarrow> bytes" where
  "pn_bytes pn64 = [ucast (drop_bit 40 pn64), ucast (drop_bit 32 pn64), ucast (drop_bit 24 pn64),
     ucast (drop_bit 16 pn64), ucast (drop_bit 8 pn64), ucast pn64]"

definition ccmp_pn2hdr :: "bytes \<Rightarrow> nat \<Rightarrow> bytes" where
  "ccmp_pn2hdr pn key_id = [pn ! 5, pn ! 4, 0, 0x20 OR push_bit 6 (of_nat key_id), pn ! 3, pn ! 2, pn ! 1, pn ! 0]"

definition ccmp_hdr2pn :: "bytes \<Rightarrow> bytes" where
  "ccmp_hdr2pn hdr = [hdr ! 7, hdr ! 6, hdr ! 5, hdr ! 4, hdr ! 1, hdr ! 0]"

definition gcmp_pn2hdr :: "bytes \<Rightarrow> nat \<Rightarrow> bytes" where
  "gcmp_pn2hdr pn key_id = [pn ! 5, pn ! 4, 0, 0x20 OR push_bit 6 (of_nat key_id), pn ! 3, pn ! 2, pn ! 1, pn ! 0]"

definition gcmp_hdr2pn :: "bytes \<Rightarrow> bytes" where
  "gcmp_hdr2pn hdr = [hdr ! 7, hdr ! 6, hdr ! 5, hdr ! 4, hdr ! 1, hdr ! 0]"

definition bip_ipn_set64 :: "u64 \<Rightarrow> bytes" where
  "bip_ipn_set64 pn = [ucast pn, ucast (drop_bit 8 pn), ucast (drop_bit 16 pn), ucast (drop_bit 24 pn),
     ucast (drop_bit 32 pn), ucast (drop_bit 40 pn)]"

definition bip_ipn_swap :: "bytes \<Rightarrow> bytes" where
  "bip_ipn_swap s = [s ! 5, s ! 4, s ! 3, s ! 2, s ! 1, s ! 0]"

section \<open>Nonces and additional data\<close>

text \<open>
  The array \<open>aad\<close> has two bytes of length and 30 bytes of data; the length is taken from the frame header.
\<close>

definition aad_data :: "bytes \<Rightarrow> u16 \<Rightarrow> u8 \<Rightarrow> bytes" where
  "aad_data d mask_fc qos_tid =
     put_le16 mask_fc @ take 18 (drop 4 d) @ [d ! 22 AND 0x0f, 0] @
     (if ieee80211_has_a4 (hdr_fc d) then hdr_addr4 d @ [qos_tid, 0] else qos_tid # replicate 7 0)"

definition aad_read :: "nat \<Rightarrow> bytes \<Rightarrow> bytes option" where
  "aad_read n aad = (if n \<le> length aad then Some (take n aad) else None)"

definition ccmp_special_blocks :: "bytes \<Rightarrow> bytes \<Rightarrow> bytes \<times> nat \<times> bytes" where
  "ccmp_special_blocks d pn =
     (let fc = hdr_fc d;
          mgmt = ieee80211_is_mgmt fc;
          mask_fc = fc AND NOT (0x0800 OR 0x1000 OR 0x2000);
          mask_fc = (if mgmt then mask_fc else mask_fc AND NOT 0x0070);
          mask_fc = mask_fc OR IEEE80211_FCTL_PROTECTED;
          len_a = ieee80211_hdrlen fc - 2;
          qos_tid = (if ieee80211_is_data_qos fc then ieee80211_hdr_tid d else 0)
      in ([1, qos_tid OR push_bit 4 (of_bool mgmt)] @ hdr_addr2 d @ take 6 pn, len_a, aad_data d mask_fc qos_tid))"

definition gcmp_special_blocks :: "bytes \<Rightarrow> bytes \<Rightarrow> bytes \<times> nat \<times> bytes" where
  "gcmp_special_blocks d pn =
     (let fc = hdr_fc d;
          mask_fc = fc AND NOT (0x0800 OR 0x1000 OR 0x2000);
          mask_fc = (if \<not> ieee80211_is_mgmt fc then mask_fc AND NOT 0x0070 else mask_fc);
          mask_fc = mask_fc OR IEEE80211_FCTL_PROTECTED;
          qos_tid = (if ieee80211_is_data_qos fc then ieee80211_hdr_tid d else 0)
      in (hdr_addr2 d @ take 6 pn @ [0, 0, 0, 1], ieee80211_hdrlen fc - 2, aad_data d mask_fc qos_tid))"

definition bip_aad :: "bytes \<Rightarrow> bytes" where
  "bip_aad d = put_le16 (hdr_fc d AND NOT (0x0800 OR 0x1000 OR 0x2000)) @ take 18 (drop 4 d)"

section \<open>The authenticated cipher\<close>

text \<open>Nonce, additional data and data, with the code beside the data.\<close>

record aead =
  aead_enc :: "bytes \<Rightarrow> bytes \<Rightarrow> bytes \<Rightarrow> bytes \<times> bytes"
  aead_dec :: "bytes \<Rightarrow> bytes \<Rightarrow> bytes \<Rightarrow> bytes \<Rightarrow> bytes option"

definition aead_encrypt :: "aead \<Rightarrow> bool \<Rightarrow> bytes \<Rightarrow> bytes \<Rightarrow> bytes \<Rightarrow> errno + bytes \<times> bytes" where
  "aead_encrypt tfm mem b_0 aad data = (if \<not> mem then Inl ENOMEM else Inr (aead_enc tfm b_0 aad data))"

definition aead_decrypt :: "aead \<Rightarrow> bool \<Rightarrow> bytes \<Rightarrow> bytes \<Rightarrow> bytes \<Rightarrow> bytes \<Rightarrow> errno + bytes" where
  "aead_decrypt tfm mem b_0 aad data mic =
     (if data = [] then Inl EINVAL
      else if \<not> mem then Inl ENOMEM
      else case aead_dec tfm b_0 aad data mic of None \<Rightarrow> Inl EIO | Some p \<Rightarrow> Inr p)"

record aead_key =
  ak_conf :: key_conf
  ak_rx_pn :: "bytes list"
  ak_replays :: u32

section \<open>CCMP and GCMP\<close>

definition hw_has :: "u32 option \<Rightarrow> u32 \<Rightarrow> bool" where
  "hw_has hw f = (case hw of None \<Rightarrow> False | Some fl \<Rightarrow> key_flag fl f)"

text \<open>
  The part of \<open>ccmp_encrypt_skb\<close> and \<open>gcmp_encrypt_skb\<close> up to the cipher: the packet number is written
  in front of the payload. \<open>Inr\<close> goes on with the cipher, at the offset \<open>h + 8\<close>.
\<close>

definition aead_tx_header ::
  "(bytes \<Rightarrow> nat \<Rightarrow> bytes) \<Rightarrow> nat \<Rightarrow> u32 option \<Rightarrow> aead_key \<Rightarrow> sk_buff \<Rightarrow>
   (bool \<times> aead_key \<times> sk_buff) + (bytes \<times> nat \<times> aead_key \<times> sk_buff)" where
  "aead_tx_header pn2hdr mic_len hw key skb =
     (let d = skb_data skb in
      if hw \<noteq> None \<and> \<not> hw_has hw IEEE80211_KEY_FLAG_GENERATE_IV \<and> \<not> hw_has hw IEEE80211_KEY_FLAG_PUT_IV_SPACE \<and>
         \<not> (hw_has hw IEEE80211_KEY_FLAG_GENERATE_IV_MGMT \<and> ieee80211_is_mgmt (hdr_fc d))
      then Inl (True, key, skb)
      else (let h = ieee80211_hdrlen (hdr_fc d);
                tail = (if hw \<noteq> None then 0 else mic_len)
            in if skb_tailroom skb < tail \<or> skb_headroom skb < 8 then Inl (False, key, skb)
               else (let skb1 = skb_open_gap 8 h skb in
                     if hw_has hw IEEE80211_KEY_FLAG_PUT_IV_SPACE then Inl (True, key, skb1)
                     else (let pn64 = kc_tx_pn (ak_conf key) + 1;
                               pn = pn_bytes pn64;
                               key1 = key\<lparr>ak_conf := (ak_conf key)\<lparr>kc_tx_pn := pn64\<rparr>\<rparr>;
                               skb2 = skb_write h (pn2hdr pn (kc_keyidx (ak_conf key))) skb1
                           in if hw \<noteq> None then Inl (True, key1, skb2) else Inr (pn, h, key1, skb2)))))"

definition ccmp_encrypt_skb ::
  "aead \<Rightarrow> bool \<Rightarrow> nat \<Rightarrow> u32 option \<Rightarrow> aead_key \<Rightarrow> sk_buff \<Rightarrow> (bool \<times> aead_key \<times> sk_buff) option" where
  "ccmp_encrypt_skb tfm mem mic_len hw key skb =
     (case aead_tx_header ccmp_pn2hdr mic_len hw key skb of
        Inl r \<Rightarrow> Some r
      | Inr (pn, h, key1, skb1) \<Rightarrow>
          (let d = skb_data skb1;
               (b_0, n, aad) = ccmp_special_blocks d pn
           in case aad_read n aad of
                None \<Rightarrow> None
              | Some a \<Rightarrow>
                  (case aead_encrypt tfm mem b_0 a (drop (h + 8) d) of
                     Inl e \<Rightarrow> Some (False, key1, skb_put_bytes (replicate mic_len 0) skb1)
                   | Inr (c, mic) \<Rightarrow>
                       Some (True, key1, skb_put_bytes mic (skb1\<lparr>skb_data := take (h + 8) d @ c\<rparr>)))))"

definition gcmp_encrypt_skb ::
  "aead \<Rightarrow> bool \<Rightarrow> u32 option \<Rightarrow> aead_key \<Rightarrow> sk_buff \<Rightarrow> (bool \<times> aead_key \<times> sk_buff) option" where
  "gcmp_encrypt_skb tfm mem hw key skb =
     (case aead_tx_header gcmp_pn2hdr 16 hw key skb of
        Inl r \<Rightarrow> Some r
      | Inr (pn, h, key1, skb1) \<Rightarrow>
          (let d = skb_data skb1;
               (j_0, n, aad) = gcmp_special_blocks d pn
           in case aad_read n aad of
                None \<Rightarrow> None
              | Some a \<Rightarrow>
                  (case aead_encrypt tfm mem j_0 a (drop (h + 8) d) of
                     Inl e \<Rightarrow> Some (False, key1, skb_put_bytes (replicate 16 0) skb1)
                   | Inr (c, mic) \<Rightarrow>
                       Some (True, key1, skb_put_bytes mic (skb1\<lparr>skb_data := take (h + 8) d @ c\<rparr>)))))"

fun encrypt_skbs ::
  "(aead_key \<Rightarrow> sk_buff \<Rightarrow> (bool \<times> aead_key \<times> sk_buff) option) \<Rightarrow> aead_key \<Rightarrow> sk_buff list \<Rightarrow>
   (tx_result \<times> aead_key \<times> sk_buff list) option" where
  "encrypt_skbs enc key [] = Some (TX_CONTINUE, key, [])"
| "encrypt_skbs enc key (skb # skbs) =
     (case enc key skb of
        None \<Rightarrow> None
      | Some (False, key1, skb1) \<Rightarrow> Some (TX_DROP, key1, skb1 # skbs)
      | Some (True, key1, skb1) \<Rightarrow>
          map_option (\<lambda>(r, key2, skbs1). (r, key2, skb1 # skbs1)) (encrypt_skbs enc key1 skbs))"

definition ieee80211_crypto_ccmp_encrypt where
  "ieee80211_crypto_ccmp_encrypt tfm mem mic_len hw key skbs =
     encrypt_skbs (ccmp_encrypt_skb tfm mem mic_len hw) key (ieee80211_tx_set_protected skbs)"

definition ieee80211_crypto_gcmp_encrypt where
  "ieee80211_crypto_gcmp_encrypt tfm mem hw key skbs =
     encrypt_skbs (gcmp_encrypt_skb tfm mem hw) key (ieee80211_tx_set_protected skbs)"

text \<open>
  Reception, the same code twice: \<open>hdr2pn\<close> and \<open>blocks\<close> are those of the cipher. \<open>sta\<close> says that the
  sender is known.
\<close>

definition aead_rx ::
  "(bytes \<Rightarrow> bytes) \<Rightarrow> (bytes \<Rightarrow> bytes \<Rightarrow> bytes \<times> nat \<times> bytes) \<Rightarrow> aead \<Rightarrow> bool \<Rightarrow> nat \<Rightarrow> rx_status \<Rightarrow> bool \<Rightarrow>
   nat \<Rightarrow> aead_key \<Rightarrow> sk_buff \<Rightarrow> (rx_result \<times> aead_key \<times> sk_buff) option" where
  "aead_rx hdr2pn blocks tfm mem mic_len0 status sta queue key skb =
     (let d = skb_data skb;
          h = ieee80211_hdrlen (hdr_fc d)
      in if \<not> ieee80211_is_data (hdr_fc d) \<and> \<not> ieee80211_is_robust_mgmt_frame d
         then Some (RX_CONTINUE, key, skb)
         else if rx_decrypted status \<and> length d < h + 8 then Some (RX_DROP_UNUSABLE, key, skb)
         else if \<not> rx_decrypted status \<and> \<not> mem then Some (RX_DROP_UNUSABLE, key, skb)
         else (let mic_len = (if rx_decrypted status \<and> rx_mic_stripped status then 0 else mic_len0);
                   finish = (\<lambda>key1 skb1. Some (RX_CONTINUE, key1,
                     skb_close_gap 8 h (skb_trim (length (skb_data skb1) - mic_len) skb1)))
               in if \<not> sta \<or> length d < h + 8 + mic_len then Some (RX_DROP_UNUSABLE, key, skb)
                  else if rx_pn_validated status then finish key skb
                  else (let pn = hdr2pn (drop h d);
                            res = memcmp pn (ak_rx_pn key ! queue);
                            key1 = key\<lparr>ak_rx_pn := (ak_rx_pn key)[queue := pn]\<rparr>
                        in if res < 0 \<or> (res = 0 \<and> \<not> rx_allow_same_pn status)
                           then Some (RX_DROP_UNUSABLE, key\<lparr>ak_replays := ak_replays key + 1\<rparr>, skb)
                           else if rx_decrypted status then finish key1 skb
                           else (let (b_0, n, aad) = blocks d pn;
                                     data = take (length d - h - 8 - mic_len) (drop (h + 8) d);
                                     mic = drop (length d - mic_len) d
                                 in case aad_read n aad of
                                      None \<Rightarrow> None
                                    | Some a \<Rightarrow>
                                        (case aead_decrypt tfm mem b_0 a data mic of
                                           Inl e \<Rightarrow> Some (RX_DROP_UNUSABLE, key, skb)
                                         | Inr p \<Rightarrow>
                                             finish key1 (skb\<lparr>skb_data := take (h + 8) d @ p @ mic\<rparr>))))))"

definition ieee80211_crypto_ccmp_decrypt where
  "ieee80211_crypto_ccmp_decrypt tfm mem mic_len status sta queue key skb =
     aead_rx ccmp_hdr2pn ccmp_special_blocks tfm mem mic_len status sta queue key skb"

definition ieee80211_crypto_gcmp_decrypt where
  "ieee80211_crypto_gcmp_decrypt tfm mem status sta queue key skb =
     aead_rx gcmp_hdr2pn gcmp_special_blocks tfm mem 16 status sta queue key skb"

section \<open>Cipher schemes of hardware\<close>

record cipher_scheme =
  cs_hdr_len :: nat
  cs_pn_len :: nat
  cs_pn_off :: nat
  cs_mic_len :: nat

definition ieee80211_crypto_cs_encrypt ::
  "nat \<Rightarrow> bool \<Rightarrow> u32 option \<Rightarrow> sk_buff \<Rightarrow> tx_result \<times> sk_buff" where
  "ieee80211_crypto_cs_encrypt iv_len mem hw skb =
     (if hw \<noteq> None \<and> \<not> hw_has hw IEEE80211_KEY_FLAG_PUT_IV_SPACE then (TX_CONTINUE, skb)
      else if skb_headroom skb < iv_len \<and> \<not> mem then (TX_DROP, skb)
      else (TX_CONTINUE, skb_open_gap iv_len (ieee80211_hdrlen (hdr_fc (skb_data skb))) skb))"

text \<open>The number is little-endian: the comparison starts at the last byte.\<close>

definition ieee80211_crypto_cs_pn_compare :: "bytes \<Rightarrow> bytes \<Rightarrow> nat \<Rightarrow> int" where
  "ieee80211_crypto_cs_pn_compare pn1 pn2 len = memcmp (rev (take len pn1)) (rev (take len pn2))"

definition ieee80211_crypto_cs_decrypt ::
  "bool \<Rightarrow> rx_status \<Rightarrow> cipher_scheme option \<Rightarrow> aead_key \<Rightarrow> sk_buff \<Rightarrow>
   (rx_result \<times> aead_key \<times> sk_buff) option" where
  "ieee80211_crypto_cs_decrypt mem status scheme key skb =
     (let d = skb_data skb;
          h = ieee80211_hdrlen (hdr_fc d)
      in case scheme of
           None \<Rightarrow> Some (RX_DROP_UNUSABLE, key, skb)
         | Some cs \<Rightarrow>
             if \<not> rx_decrypted status then Some (RX_DROP_UNUSABLE, key, skb)
             else if \<not> ieee80211_is_data (hdr_fc d) then Some (RX_CONTINUE, key, skb)
             else if length d < h + cs_hdr_len cs then Some (RX_DROP_UNUSABLE, key, skb)
             else (let tid = (if ieee80211_is_data_qos (hdr_fc d) then unat (ieee80211_hdr_tid d) else 0) in
                   if \<not> mem then Some (RX_DROP_UNUSABLE, key, skb)
                   else if length d < h + cs_pn_off cs + cs_pn_len cs then None
                   else (let rx_pn = ak_rx_pn key ! tid;
                             skb_pn = take (cs_pn_len cs) (drop (h + cs_pn_off cs) d)
                         in if ieee80211_crypto_cs_pn_compare skb_pn rx_pn (cs_pn_len cs) \<le> 0
                            then Some (RX_DROP_UNUSABLE, key, skb)
                            else (let key1 = key\<lparr>ak_rx_pn := (ak_rx_pn key)[tid :=
                                        skb_pn @ drop (cs_pn_len cs) rx_pn]\<rparr>;
                                      skb1 = (if length d < cs_mic_len cs then skb
                                              else skb_trim (length d - cs_mic_len cs) skb)
                                  in Some (RX_CONTINUE, key1, skb_close_gap (cs_hdr_len cs) h skb1)))))"

fun hw_encrypt_skbs :: "bool \<Rightarrow> nat \<Rightarrow> bool \<Rightarrow> u32 option \<Rightarrow> sk_buff list \<Rightarrow> tx_result \<times> sk_buff list" where
  "hw_encrypt_skbs scheme iv_len mem hw [] = (TX_CONTINUE, [])"
| "hw_encrypt_skbs scheme iv_len mem hw (skb # skbs) =
     (if hw = None then (TX_DROP, skb # skbs)
      else (let (r, skb1) = (if scheme then ieee80211_crypto_cs_encrypt iv_len mem hw skb else (TX_CONTINUE, skb))
            in if r \<noteq> TX_CONTINUE then (r, skb1 # skbs)
               else (let (r1, skbs1) = hw_encrypt_skbs scheme iv_len mem hw skbs in (r1, skb1 # skbs1))))"

definition ieee80211_crypto_hw_encrypt ::
  "bool \<Rightarrow> nat \<Rightarrow> bool \<Rightarrow> u32 option \<Rightarrow> sk_buff list \<Rightarrow> tx_result \<times> sk_buff list" where
  "ieee80211_crypto_hw_encrypt scheme iv_len mem hw skbs =
     (let (r, skbs1) = hw_encrypt_skbs scheme iv_len mem hw skbs
      in if r \<noteq> TX_CONTINUE then (r, skbs1) else (TX_CONTINUE, ieee80211_tx_set_protected skbs1))"

definition ieee80211_crypto_hw_decrypt ::
  "bool \<Rightarrow> rx_status \<Rightarrow> cipher_scheme option \<Rightarrow> aead_key \<Rightarrow> sk_buff \<Rightarrow>
   (rx_result \<times> aead_key \<times> sk_buff) option" where
  "ieee80211_crypto_hw_decrypt mem status scheme key skb =
     (if scheme \<noteq> None then ieee80211_crypto_cs_decrypt mem status scheme key skb
      else Some (RX_DROP_UNUSABLE, key, skb))"

section \<open>Protection of management frames\<close>

definition WLAN_EID_MMIE :: u8 where "WLAN_EID_MMIE = 76"

record bip_key =
  bk_conf :: key_conf
  bk_rx_pn :: bytes
  bk_replays :: u32
  bk_icverrors :: u32

text \<open>
  The element that ends a management frame, without its code, which has \<open>n\<close> bytes.
\<close>

definition mmie_head :: "nat \<Rightarrow> nat \<Rightarrow> u64 \<Rightarrow> bytes" where
  "mmie_head n keyidx pn64 = [WLAN_EID_MMIE, of_nat (8 + n)] @ put_le16 (of_nat keyidx) @ bip_ipn_set64 pn64"

text \<open>
  \<open>code\<close> is the authentication code of a frame: additional data, nonce and the body with the code of the
  element replaced by zeros.
\<close>

definition bip_code_of :: "(bytes \<Rightarrow> bytes \<Rightarrow> bytes \<Rightarrow> bytes) \<Rightarrow> nat \<Rightarrow> bytes \<Rightarrow> bytes \<Rightarrow> bytes" where
  "bip_code_of code n d ipn =
     take n (code (bip_aad d) (hdr_addr2 d @ ipn) (take (length d - 24 - n) (drop 24 d) @ replicate n 0))"

definition bip_encrypt ::
  "(bytes \<Rightarrow> bytes \<Rightarrow> bytes \<Rightarrow> bytes) \<Rightarrow> bool \<Rightarrow> nat \<Rightarrow> bool \<Rightarrow> bool \<Rightarrow> bip_key \<Rightarrow> sk_buff list \<Rightarrow>
   tx_result \<times> bip_key \<times> sk_buff list" where
  "bip_encrypt code mem n skip hw key skbs =
     (case skbs of
        [skb] \<Rightarrow>
          if skip then (TX_CONTINUE, key, skbs)
          else if skb_tailroom skb < 10 + n then (TX_DROP, key, skbs)
          else (let pn64 = kc_tx_pn (bk_conf key) + 1;
                    key1 = key\<lparr>bk_conf := (bk_conf key)\<lparr>kc_tx_pn := pn64\<rparr>\<rparr>;
                    head = mmie_head n (kc_keyidx (bk_conf key)) pn64;
                    d = skb_data skb @ head @ replicate n 0
                in if hw then (TX_CONTINUE, key1, [skb_put_bytes (head @ replicate n 0) skb])
                   else if \<not> mem then (TX_DROP, key1, [skb_put_bytes (head @ replicate n 0) skb])
                   else (TX_CONTINUE, key1,
                     [skb_put_bytes (head @ bip_code_of code n d (bip_ipn_swap (bip_ipn_set64 pn64))) skb]))
      | _ \<Rightarrow> (TX_DROP, key, skbs))"

definition bip_decrypt ::
  "(bytes \<Rightarrow> bytes \<Rightarrow> bytes \<Rightarrow> bytes) \<Rightarrow> bool \<Rightarrow> nat \<Rightarrow> rx_status \<Rightarrow> bip_key \<Rightarrow> sk_buff \<Rightarrow>
   rx_result \<times> bip_key \<times> sk_buff" where
  "bip_decrypt code mem n status key skb =
     (let d = skb_data skb in
      if \<not> ieee80211_is_mgmt (hdr_fc d) then (RX_CONTINUE, key, skb)
      else if length d < 24 + (10 + n) then (RX_DROP_UNUSABLE, key, skb)
      else (let mmie = drop (length d - (10 + n)) d in
            if mmie ! 0 \<noteq> WLAN_EID_MMIE \<or> mmie ! 1 \<noteq> of_nat (8 + n) then (RX_DROP_UNUSABLE, key, skb)
            else (let ipn = bip_ipn_swap (take 6 (drop 4 mmie)) in
                  if memcmp ipn (bk_rx_pn key) \<le> 0
                  then (RX_DROP_UNUSABLE, key\<lparr>bk_replays := bk_replays key + 1\<rparr>, skb)
                  else (let ok = (key\<lparr>bk_rx_pn := ipn\<rparr>); out = skb_trim (length d - (10 + n)) skb in
                        if rx_decrypted status then (RX_CONTINUE, ok, out)
                        else if \<not> mem then (RX_DROP_UNUSABLE, key, skb)
                        else if bip_code_of code n d ipn \<noteq> drop 10 mmie
                        then (RX_DROP_UNUSABLE, key\<lparr>bk_icverrors := bk_icverrors key + 1\<rparr>, skb)
                        else (RX_CONTINUE, ok, out)))))"

text \<open>
  The codes: CMAC of the concatenation, and GMAC with a nonce. CMAC needs no memory. \<open>hw\<close> is the flags of
  the key in the hardware.
\<close>

definition cmac_code :: "(bytes \<Rightarrow> bytes) \<Rightarrow> bytes \<Rightarrow> bytes \<Rightarrow> bytes \<Rightarrow> bytes" where
  "cmac_code cmac aad nonce body = cmac (aad @ body)"

definition ieee80211_crypto_aes_cmac_encrypt where
  "ieee80211_crypto_aes_cmac_encrypt cmac (hw :: u32 option) key skbs =
     bip_encrypt (cmac_code cmac) True 8
       (hw \<noteq> None \<and> \<not> key_flag (kc_flags (bk_conf key)) IEEE80211_KEY_FLAG_GENERATE_MMIE) (hw \<noteq> None) key skbs"

definition ieee80211_crypto_aes_cmac_256_encrypt where
  "ieee80211_crypto_aes_cmac_256_encrypt cmac (hw :: u32 option) key skbs =
     bip_encrypt (cmac_code cmac) True 16 (hw \<noteq> None) False key skbs"

definition ieee80211_crypto_aes_gmac_encrypt where
  "ieee80211_crypto_aes_gmac_encrypt gmac mem (hw :: u32 option) key skbs =
     bip_encrypt gmac mem 16 (hw \<noteq> None) False key skbs"

definition ieee80211_crypto_aes_cmac_decrypt where
  "ieee80211_crypto_aes_cmac_decrypt cmac status key skb = bip_decrypt (cmac_code cmac) True 8 status key skb"

definition ieee80211_crypto_aes_cmac_256_decrypt where
  "ieee80211_crypto_aes_cmac_256_decrypt cmac status key skb = bip_decrypt (cmac_code cmac) True 16 status key skb"

definition ieee80211_crypto_aes_gmac_decrypt where
  "ieee80211_crypto_aes_gmac_decrypt gmac mem status key skb = bip_decrypt gmac mem 16 status key skb"

end
