(* ===== verification/Wpa_Props.thy ===== *)
theory Wpa_Props
  imports Wpa Wep_Props
begin

unbundle bit_operations_syntax

text \<open>
  The AES ciphers: no packet number is accepted twice, decryption undoes encryption, and what the arrays and
  checks of the code do at the boundaries.

  Replay protection is stated once, as the contract of a receiver that keeps the last accepted number, and
  holds for CCMP, GCMP and the protection of management frames.
\<close>

section \<open>Replay protection as a contract\<close>

text \<open>The frames of a run that a receiver accepts.\<close>

fun accepted :: "('f \<Rightarrow> 'k \<Rightarrow> 'k) \<Rightarrow> ('f \<Rightarrow> 'k \<Rightarrow> bool) \<Rightarrow> 'k \<Rightarrow> 'f list \<Rightarrow> 'f list" where
  "accepted next acc k [] = []"
| "accepted next acc k (f # fs) = (if acc f k then [f] else []) @ accepted next acc (next f k) fs"

locale replay_protected =
  fixes inv :: "'k \<Rightarrow> bool" and "next" :: "'f \<Rightarrow> 'k \<Rightarrow> 'k" and acc :: "'f \<Rightarrow> 'k \<Rightarrow> bool"
    and number :: "'f \<Rightarrow> nat" and last_number :: "'k \<Rightarrow> nat"
  assumes keeps: "inv k \<Longrightarrow> inv (next f k)"
    and forward: "inv k \<Longrightarrow> last_number k \<le> last_number (next f k)"
    and fresh: "inv k \<Longrightarrow> acc f k \<Longrightarrow> last_number k < number f"
    and recorded: "inv k \<Longrightarrow> acc f k \<Longrightarrow> last_number (next f k) = number f"
begin

lemma accepted_after: "inv k \<Longrightarrow> f \<in> set (accepted next acc k fs) \<Longrightarrow> last_number k < number f"
proof (induction fs arbitrary: k)
  case (Cons g gs)
  then show ?case
    using keeps [of k g] forward [of k g] fresh [of k g] by (fastforce split: if_splits)
qed simp

lemma accepted_increase: "inv k \<Longrightarrow> sorted_wrt (<) (map number (accepted next acc k fs))"
proof (induction fs arbitrary: k)
  case (Cons g gs)
  have "number g < number f" if "acc g k" "f \<in> set (accepted next acc (next g k) gs)" for f
    using accepted_after [OF keeps [OF Cons.prems] that(2)] recorded [OF Cons.prems that(1)] by simp
  then show ?case using Cons.IH [OF keeps [OF Cons.prems]] by auto
qed simp

lemma never_twice: "inv k \<Longrightarrow> distinct (map number (accepted next acc k fs))"
  using accepted_increase strict_sorted_iff by blast

end

section \<open>Packet numbers as numbers\<close>

fun number_of :: "bytes \<Rightarrow> nat" where
  "number_of [] = 0"
| "number_of (b # bs) = unat b * 256 ^ length bs + number_of bs"

lemma number_of_bound: "number_of bs < 256 ^ length bs"
proof (induction bs)
  case (Cons b bs)
  have "unat b < 256" using unsigned_less [where ?'a = nat, of b] by simp
  then have "unat b \<le> 255" by simp
  then have "unat b * 256 ^ length bs \<le> 255 * 256 ^ length bs" by (rule mult_le_mono1)
  from add_le_less_mono [OF this Cons.IH] show ?case by simp
qed simp

lemma number_of_less:
  assumes "length xs = length ys" "x < y"
  shows "number_of (x # xs) < number_of (y # ys)"
proof -
  have "Suc (unat x) \<le> unat y" using assms(2) by (simp add: word_less_nat_alt)
  then have "Suc (unat x) * 256 ^ length xs \<le> unat y * 256 ^ length xs" by (rule mult_le_mono1)
  from add_less_le_mono [OF number_of_bound [of xs] this] assms(1) show ?thesis
    by (simp add: add.commute trans_less_add1)
qed

lemma memcmp_number:
  "length xs = length ys \<Longrightarrow> (memcmp xs ys < 0 \<longleftrightarrow> number_of xs < number_of ys) \<and> (memcmp xs ys = 0 \<longleftrightarrow> number_of xs = number_of ys)"
proof (induction xs ys rule: list_induct2)
  case (Cons x xs y ys)
  consider "x < y" | "y < x" | "x = y" by fastforce
  then show ?case
    using number_of_less [of xs ys x y] number_of_less [of ys xs y x] Cons by cases auto
qed simp

lemma memcmp_order:
  assumes "length xs = length ys"
  shows "memcmp xs ys \<le> 0 \<longleftrightarrow> number_of xs \<le> number_of ys"
    "memcmp xs ys < 0 \<longleftrightarrow> number_of xs < number_of ys" "memcmp xs ys = 0 \<longleftrightarrow> number_of xs = number_of ys"
  using memcmp_number [OF assms] by auto

section \<open>CCMP and GCMP\<close>

text \<open>
  A received frame with what the driver and the station table say about it. The key remembers one number for
  each of 17 queues.
\<close>

record rx_frame =
  rf_mem :: bool
  rf_status :: rx_status
  rf_sta :: bool
  rf_queue :: nat
  rf_skb :: sk_buff

definition aead_key_ok :: "aead_key \<Rightarrow> bool" where
  "aead_key_ok k \<longleftrightarrow> length (ak_rx_pn k) = 17 \<and> (\<forall>pn \<in> set (ak_rx_pn k). length pn = 6)"

definition frame_pn :: "bytes \<Rightarrow> bytes" where
  "frame_pn d = ccmp_hdr2pn (drop (ieee80211_hdrlen (hdr_fc d)) d)"

definition needs_key :: "bytes \<Rightarrow> bool" where
  "needs_key d \<longleftrightarrow> ieee80211_is_data (hdr_fc d) \<or> ieee80211_is_robust_mgmt_frame d"

text \<open>
  The key after a frame, and whether the frame was accepted on queue \<open>q\<close> with its number checked: the
  driver neither says that it checked the number itself nor that the number may repeat.
\<close>

definition key_after :: "(rx_frame \<Rightarrow> aead_key \<Rightarrow> (rx_result \<times> aead_key \<times> sk_buff) option) \<Rightarrow> rx_frame \<Rightarrow> aead_key \<Rightarrow> aead_key" where
  "key_after rx f k = (case rx f k of None \<Rightarrow> k | Some (_, k1, _) \<Rightarrow> k1)"

definition checked_on :: "nat \<Rightarrow> (rx_frame \<Rightarrow> aead_key \<Rightarrow> (rx_result \<times> aead_key \<times> sk_buff) option) \<Rightarrow> rx_frame \<Rightarrow> aead_key \<Rightarrow> bool" where
  "checked_on q rx f k \<longleftrightarrow>
     (case rx f k of None \<Rightarrow> False | Some (r, _, _) \<Rightarrow> r = RX_CONTINUE) \<and> needs_key (skb_data (rf_skb f)) \<and>
     rf_queue f = q \<and> \<not> rx_pn_validated (rf_status f) \<and> \<not> rx_allow_same_pn (rf_status f)"

definition ccmp_rx :: "aead \<Rightarrow> nat \<Rightarrow> rx_frame \<Rightarrow> aead_key \<Rightarrow> (rx_result \<times> aead_key \<times> sk_buff) option" where
  "ccmp_rx tfm mic_len f k =
     ieee80211_crypto_ccmp_decrypt tfm (rf_mem f) mic_len (rf_status f) (rf_sta f) (rf_queue f) k (rf_skb f)"

definition gcmp_rx :: "aead \<Rightarrow> rx_frame \<Rightarrow> aead_key \<Rightarrow> (rx_result \<times> aead_key \<times> sk_buff) option" where
  "gcmp_rx tfm f k =
     ieee80211_crypto_gcmp_decrypt tfm (rf_mem f) (rf_status f) (rf_sta f) (rf_queue f) k (rf_skb f)"

lemma pn_length [simp]: "length (ccmp_hdr2pn x) = 6" "length (frame_pn d) = 6" "gcmp_hdr2pn = ccmp_hdr2pn"
  by (simp_all add: ccmp_hdr2pn_def frame_pn_def gcmp_hdr2pn_def fun_eq_iff)

text \<open>What the receive handlers do to the key: nothing, a counted replay, or the new number.\<close>

lemma aead_rx_key:
  assumes "aead_rx hdr2pn blocks tfm mem n status sta queue key skb = Some (r, key1, skb1)"
    and pn: "pn = hdr2pn (drop (ieee80211_hdrlen (hdr_fc (skb_data skb))) (skb_data skb))"
  shows "ak_rx_pn key1 = ak_rx_pn key \<and>
      (r = RX_CONTINUE \<longrightarrow> \<not> needs_key (skb_data skb) \<or> rx_pn_validated status) \<or>
    ak_rx_pn key1 = (ak_rx_pn key)[queue := pn] \<and> r = RX_CONTINUE \<and>
      (0 < memcmp pn (ak_rx_pn key ! queue) \<or> memcmp pn (ak_rx_pn key ! queue) = 0 \<and> rx_allow_same_pn status)"
  using assms(1) unfolding aead_rx_def Let_def pn [symmetric] needs_key_def
  by (auto split: if_splits option.splits sum.splits prod.splits)

lemma key_after_cases:
  assumes rx: "\<And>f k. rx f k = aead_rx ccmp_hdr2pn blocks tfm (rf_mem f) n (rf_status f) (rf_sta f) (rf_queue f) k (rf_skb f)"
  shows "ak_rx_pn (key_after rx (f :: rx_frame) k) = ak_rx_pn k \<and> \<not> checked_on q rx f k \<or>
    ak_rx_pn (key_after rx f k) = (ak_rx_pn k)[rf_queue f := frame_pn (skb_data (rf_skb f))] \<and>
      0 \<le> memcmp (frame_pn (skb_data (rf_skb f))) (ak_rx_pn k ! rf_queue f) \<and>
      (checked_on q rx f k \<longrightarrow>
        rf_queue f = q \<and> 0 < memcmp (frame_pn (skb_data (rf_skb f))) (ak_rx_pn k ! rf_queue f))"
proof (cases "rx f k")
  case (Some r)
  then obtain res k1 s1 where r: "rx f k = Some (res, k1, s1)" by (cases r) auto
  from aead_rx_key [OF this [unfolded rx] refl] r show ?thesis
    by (auto simp: key_after_def checked_on_def frame_pn_def)
qed (simp add: key_after_def checked_on_def)

text \<open>The handlers are receivers that keep the last number of each queue.\<close>

definition key_ok_on :: "nat \<Rightarrow> aead_key \<Rightarrow> bool" where
  "key_ok_on q k \<longleftrightarrow> q < 17 \<and> aead_key_ok k"

lemma aead_replay_protected:
  assumes rx: "\<And>f k. rx f k = aead_rx ccmp_hdr2pn blocks tfm (rf_mem f) n (rf_status f) (rf_sta f) (rf_queue f) k (rf_skb f)"
  shows "replay_protected (key_ok_on q) (key_after rx) (checked_on q rx)
    (\<lambda>f. number_of (frame_pn (skb_data (rf_skb f)))) (\<lambda>k. number_of (ak_rx_pn k ! q))"
proof
  fix k :: aead_key and f :: rx_frame
  assume "key_ok_on q k"
  then have k: "aead_key_ok k" and q: "q < 17" by (simp_all add: key_ok_on_def)
  note cases = key_after_cases [of rx blocks tfm n f k q, OF rx]
  let ?pn = "frame_pn (skb_data (rf_skb f))"
  have len: "length (ak_rx_pn k) = 17" "i < 17 \<Longrightarrow> length (ak_rx_pn k ! i) = 6" for i
    using k by (auto simp: aead_key_ok_def)
  show "key_ok_on q (key_after rx f k)"
    using cases k q by (auto simp: key_ok_on_def aead_key_ok_def dest!: set_update_subset_insert [THEN subsetD])
  have m: "i < 17 \<Longrightarrow> length ?pn = length (ak_rx_pn k ! i)" for i using len(2) by simp
  show "number_of (ak_rx_pn k ! q) \<le> number_of (ak_rx_pn (key_after rx f k) ! q)"
    using cases memcmp_order [OF m [OF q]] len(1) q by (cases "rf_queue f = q") (auto simp: not_le)
  {
    assume c: "checked_on q rx f k"
    with cases have "rf_queue f = q" "0 < memcmp ?pn (ak_rx_pn k ! q)"
      "ak_rx_pn (key_after rx f k) = (ak_rx_pn k)[q := ?pn]" by auto
    then show "number_of (ak_rx_pn k ! q) < number_of ?pn"
      "number_of (ak_rx_pn (key_after rx f k) ! q) = number_of ?pn"
      using memcmp_order [OF m [OF q]] len(1) q by auto
  }
qed

interpretation ccmp: replay_protected "key_ok_on q" "key_after (ccmp_rx tfm n)" "checked_on q (ccmp_rx tfm n)"
  "\<lambda>f. number_of (frame_pn (skb_data (rf_skb f)))" "\<lambda>k. number_of (ak_rx_pn k ! q)" for tfm n q
  by (intro aead_replay_protected) (auto simp: ccmp_rx_def ieee80211_crypto_ccmp_decrypt_def)

interpretation gcmp: replay_protected "key_ok_on q" "key_after (gcmp_rx tfm)" "checked_on q (gcmp_rx tfm)"
  "\<lambda>f. number_of (frame_pn (skb_data (rf_skb f)))" "\<lambda>k. number_of (ak_rx_pn k ! q)" for tfm q
  by (intro aead_replay_protected) (auto simp: gcmp_rx_def ieee80211_crypto_gcmp_decrypt_def)


section \<open>Decryption undoes encryption\<close>

lemma pn_header:
  "length (ccmp_pn2hdr pn i) = 8" "gcmp_pn2hdr = ccmp_pn2hdr" "length pn = 6 \<Longrightarrow> ccmp_hdr2pn (ccmp_pn2hdr pn i @ x) = pn"
  "length (pn_bytes w) = 6"
  by (auto simp: ccmp_pn2hdr_def gcmp_pn2hdr_def ccmp_hdr2pn_def pn_bytes_def fun_eq_iff numeral_eq_Suc length_Suc_conv)

text \<open>Nonce and additional data are read from the header alone.\<close>

lemma addr_prefix: "p + 6 \<le> length H \<Longrightarrow> addr_at (H @ x) p = addr_at H p"
  by (simp add: addr_at_def)

lemma hdr_fc_prefix: "2 \<le> length H \<Longrightarrow> hdr_fc (H @ x) = hdr_fc H"
  by (auto simp: hdr_fc_def get_le16_def nth_append)

lemma qos_is_data: "ieee80211_is_data_qos fc \<Longrightarrow> ieee80211_is_data fc"
proof -
  assume "ieee80211_is_data_qos fc"
  then have "(fc AND 0x008C) AND 0x000c = 0x0088 AND 0x000c" by (simp add: ieee80211_is_data_qos_def)
  then have "fc AND (0x008C AND 0x000c) = 0x0088 AND 0x000c" by (simp only: and.assoc)
  then show ?thesis by (simp add: ieee80211_is_data_def)
qed

definition whole_header :: "bytes \<Rightarrow> bool" where
  "whole_header H \<longleftrightarrow> length H = ieee80211_hdrlen (hdr_fc H) \<and>
     (ieee80211_is_data (hdr_fc H) \<or> ieee80211_is_mgmt (hdr_fc H) \<and> \<not> ieee80211_has_a4 (hdr_fc H))"

lemma whole_header_lengths:
  assumes "whole_header H"
  shows "24 \<le> length H" "ieee80211_has_a4 (hdr_fc H) \<Longrightarrow> 30 \<le> length H"
    "ieee80211_is_data_qos (hdr_fc H) \<Longrightarrow> ieee80211_get_qos_ctl H < length H"
  using assms qos_is_data [of "hdr_fc H"]
  by (auto simp: whole_header_def ieee80211_hdrlen_def Let_def ieee80211_get_qos_ctl_def split: if_splits)

lemma blocks_prefix:
  assumes "whole_header H"
  shows "ccmp_special_blocks (H @ x) pn = ccmp_special_blocks H pn" "gcmp_special_blocks (H @ x) pn = gcmp_special_blocks H pn"
proof -
  note l = whole_header_lengths [OF assms]
  have fc: "hdr_fc (H @ x) = hdr_fc H" using l(1) by (simp add: hdr_fc_prefix)
  have tid: "ieee80211_is_data_qos (hdr_fc H) \<Longrightarrow> ieee80211_hdr_tid (H @ x) = ieee80211_hdr_tid H"
    using l(3) by (simp add: ieee80211_hdr_tid_def ieee80211_get_qos_ctl_def fc nth_append)
  have a: "hdr_addr2 (H @ x) = hdr_addr2 H" "take 18 (drop 4 (H @ x)) = take 18 (drop 4 H)" "(H @ x) ! 22 = H ! 22"
    "ieee80211_has_a4 (hdr_fc H) \<Longrightarrow> hdr_addr4 (H @ x) = hdr_addr4 H"
    using l by (simp_all add: hdr_addr2_def hdr_addr4_def addr_prefix nth_append)
  have aad: "aad_data (H @ x) m t = aad_data H m t" for m t
    using a by (simp add: aad_data_def fc)
  show "ccmp_special_blocks (H @ x) pn = ccmp_special_blocks H pn" "gcmp_special_blocks (H @ x) pn = gcmp_special_blocks H pn"
    unfolding ccmp_special_blocks_def gcmp_special_blocks_def Let_def fc a aad using tid by simp_all
qed

lemma aad_length:
  assumes "whole_header H"
  shows "length (aad_data H m t) = 30"
  using whole_header_lengths(1,2) [OF assms] by (auto simp: aad_data_def hdr_addr4_def addr_at_def)

lemma tx_header_software:
  assumes "aead_tx_header ccmp_pn2hdr n None key skb = Inr (pn, h, key1, skb1)"
    and "ieee80211_hdrlen (hdr_fc (skb_data skb)) \<le> length (skb_data skb)"
  shows "h = ieee80211_hdrlen (hdr_fc (skb_data skb))" "pn = pn_bytes (kc_tx_pn (ak_conf key) + 1)"
    "skb_data skb1 = take h (skb_data skb) @ ccmp_pn2hdr pn (kc_keyidx (ak_conf key)) @ drop h (skb_data skb)"
  using assms hdrlen_ge [of "hdr_fc (skb_data skb)"]
  by (auto simp: aead_tx_header_def Let_def hw_has_def skb_write_def skb_open_gap_def pn_header split: if_splits)

lemma tx_header_no_hardware: "aead_tx_header pn2hdr n None key skb \<noteq> Inl (True, key1, skb1)"
  by (auto simp: aead_tx_header_def Let_def hw_has_def)

text \<open>The encrypted frame, given as its parts.\<close>

definition sealed_frame :: "(bytes \<Rightarrow> bytes \<Rightarrow> bytes \<times> nat \<times> bytes) \<Rightarrow> aead \<Rightarrow> bytes \<Rightarrow> nat \<Rightarrow> bytes \<Rightarrow> bytes \<Rightarrow> bytes" where
  "sealed_frame blocks tfm pn idx H p =
     (let (b_0, n, aad) = blocks H pn; (c, mic) = aead_enc tfm b_0 (take n aad) p
      in H @ ccmp_pn2hdr pn idx @ c @ mic)"

text \<open>Both ciphers are one function of their header and their blocks.\<close>

definition aead_encrypt_skb where
  "aead_encrypt_skb blocks tfm mem n hw key skb =
     (case aead_tx_header ccmp_pn2hdr n hw key skb of
        Inl r \<Rightarrow> Some r
      | Inr (pn, h, key1, skb1) \<Rightarrow>
          (let d = skb_data skb1;
               (b_0, n1, aad) = blocks d pn
           in case aad_read n1 aad of
                None \<Rightarrow> None
              | Some a \<Rightarrow>
                  (case aead_encrypt tfm mem b_0 a (drop (h + 8) d) of
                     Inl e \<Rightarrow> Some (False, key1, skb_put_bytes (replicate n 0) skb1)
                   | Inr (c, mic) \<Rightarrow>
                       Some (True, key1, skb_put_bytes mic (skb1\<lparr>skb_data := take (h + 8) d @ c\<rparr>)))))"

lemma ciphers_are_aead:
  "ccmp_encrypt_skb tfm mem n hw key skb = aead_encrypt_skb ccmp_special_blocks tfm mem n hw key skb"
  "gcmp_encrypt_skb tfm mem hw key skb = aead_encrypt_skb gcmp_special_blocks tfm mem 16 hw key skb"
  by (simp_all only: ccmp_encrypt_skb_def gcmp_encrypt_skb_def aead_encrypt_skb_def pn_header)

definition header_blocks :: "(bytes \<Rightarrow> bytes \<Rightarrow> bytes \<times> nat \<times> bytes) \<Rightarrow> bool" where
  "header_blocks blocks \<longleftrightarrow> (\<forall>H pn. whole_header H \<longrightarrow> (\<forall>x. blocks (H @ x) pn = blocks H pn) \<and>
     fst (snd (blocks H pn)) = length H - 2 \<and> length (snd (snd (blocks H pn))) = 30)"

lemma header_blocksI: "header_blocks ccmp_special_blocks" "header_blocks gcmp_special_blocks"
  by (auto simp: header_blocks_def blocks_prefix)
    (auto simp: ccmp_special_blocks_def gcmp_special_blocks_def Let_def aad_length whole_header_def)

lemma encrypt_skb_sealed:
  assumes "aead_encrypt_skb blocks tfm True n None key skb = Some (True, key1, skb1)"
    and H: "H = take (ieee80211_hdrlen (hdr_fc (skb_data skb))) (skb_data skb)" "whole_header H"
    and blocks: "header_blocks blocks"
  shows "skb_data skb1 = sealed_frame blocks tfm (pn_bytes (kc_tx_pn (ak_conf key) + 1)) (kc_keyidx (ak_conf key)) H
      (drop (ieee80211_hdrlen (hdr_fc (skb_data skb))) (skb_data skb)) \<and> length H \<le> 32"
proof -
  let ?h = "ieee80211_hdrlen (hdr_fc (skb_data skb))" and ?pn = "pn_bytes (kc_tx_pn (ak_conf key) + 1)"
    and ?hdr = "ccmp_pn2hdr (pn_bytes (kc_tx_pn (ak_conf key) + 1)) (kc_keyidx (ak_conf key))"
  let ?p = "drop ?h (skb_data skb)"
  have "hdr_fc H = hdr_fc (skb_data skb)"
    using whole_header_lengths(1) [OF H(2)] hdr_fc_prefix [of H ?p] by (simp add: H(1))
  then have len: "length H = ?h" "?h \<le> length (skb_data skb)" using H by (auto simp: whole_header_def)
  from assms(1) tx_header_no_hardware obtain pn h k s
    where t: "aead_tx_header ccmp_pn2hdr n None key skb = Inr (pn, h, k, s)"
    by (auto simp: aead_encrypt_skb_def split: sum.splits)
  note th = tx_header_software [OF t len(2)]
  have s: "skb_data s = H @ ?hdr @ ?p" using th by (simp add: H(1))
  have cut: "take (?h + 8) (H @ ?hdr @ ?p) = H @ ?hdr" "drop (?h + 8) (H @ ?hdr @ ?p) = ?p"
    using len by (simp_all add: pn_header)
  obtain b m a where b: "blocks H ?pn = (b, m, a)" by (metis prod_cases3)
  with blocks H(2) have bs: "blocks (H @ x) ?pn = (b, m, a)" "m = ?h - 2" "length a = 30" for x
    using len(1) unfolding header_blocks_def by (metis, (metis fst_conv snd_conv)+)
  have m: "m \<le> 30" using assms(1) t th(1,2)
    by (auto simp: aead_encrypt_skb_def s bs aad_read_def Let_def split: if_splits)
  obtain c mic where e: "aead_enc tfm b (take m a) ?p = (c, mic)" by fastforce
  have "skb_data skb1 = H @ ?hdr @ c @ mic"
    using assms(1) t th(1,2) m
    by (auto simp: aead_encrypt_skb_def s bs aad_read_def Let_def aead_encrypt_def cut e [unfolded bs(2)] skb_put_bytes_def
        simp del: take_append drop_append drop_drop)
  moreover have "length H \<le> 32" using m bs(2) len(1) by linarith
  ultimately show ?thesis by (simp add: sealed_frame_def b e)
qed

text \<open>With room and memory encryption succeeds, unless the additional data does not fit its array.\<close>

lemma encrypt_skb_result:
  assumes H: "H = take (ieee80211_hdrlen (hdr_fc (skb_data skb))) (skb_data skb)" "whole_header H"
    and room: "n \<le> skb_tailroom skb" "8 \<le> skb_headroom skb" and blocks: "header_blocks blocks"
  shows "(aead_encrypt_skb blocks tfm True n None key skb = None \<longleftrightarrow> 32 < length H) \<and>
    (length H \<le> 32 \<longrightarrow> (\<exists>key1 skb1. aead_encrypt_skb blocks tfm True n None key skb = Some (True, key1, skb1)))"
proof -
  let ?h = "ieee80211_hdrlen (hdr_fc (skb_data skb))" and ?pn = "pn_bytes (kc_tx_pn (ak_conf key) + 1)"
  have "hdr_fc H = hdr_fc (skb_data skb)"
    using whole_header_lengths(1) [OF H(2)] hdr_fc_prefix [of H "drop ?h (skb_data skb)"] by (simp add: H(1))
  then have len: "length H = ?h" "?h \<le> length (skb_data skb)" using H by (auto simp: whole_header_def)
  obtain h k s where t: "aead_tx_header ccmp_pn2hdr n None key skb = Inr (?pn, h, k, s)"
    using room by (simp add: aead_tx_header_def Let_def hw_has_def)
  note th = tx_header_software [OF t len(2)]
  obtain b m a where b: "blocks H ?pn = (b, m, a)" by (metis prod_cases3)
  with blocks H(2) have bs: "blocks (H @ x) ?pn = (b, m, a)" "m = length H - 2" "length a = 30" for x
    unfolding header_blocks_def by (metis, (metis fst_conv snd_conv)+)
  have s: "blocks (skb_data s) ?pn = (b, m, a)" using th bs(1) by (simp add: H(1))
  have "aad_read m a = (if length H \<le> 32 then Some (take m a) else None)"
    using whole_header_lengths(1) [OF H(2)] bs(2,3) by (auto simp: aad_read_def)
  then show ?thesis
    by (auto simp: aead_encrypt_skb_def t s Let_def aead_encrypt_def split: prod.splits)
qed

definition aead_ok :: "aead \<Rightarrow> nat \<Rightarrow> bool" where
  "aead_ok tfm n \<longleftrightarrow> (\<forall>b a p c mic. aead_enc tfm b a p = (c, mic) \<longrightarrow>
     length c = length p \<and> length mic = n \<and> aead_dec tfm b a c mic = Some p)"

lemma receive_sealed:
  assumes rx: "skb_data rx = sealed_frame blocks tfm pn idx H p" and pn: "length pn = 6"
    and H: "whole_header H" "length H \<le> 32" "needs_key (skb_data rx)"
    and blocks: "header_blocks blocks" and cipher: "aead_ok tfm n"
    and p: "p \<noteq> []" and status: "\<not> rx_decrypted status" "\<not> rx_pn_validated status"
    and new: "length (ak_rx_pn r ! q) = 6" "number_of (ak_rx_pn r ! q) < number_of pn"
  shows "\<exists>rx1. aead_rx ccmp_hdr2pn blocks tfm True n status True q r rx =
      Some (RX_CONTINUE, r\<lparr>ak_rx_pn := (ak_rx_pn r)[q := pn]\<rparr>, rx1) \<and> skb_data rx1 = H @ p"
proof -
  obtain b m a where b: "blocks H pn = (b, m, a)" by (metis prod_cases3)
  obtain c mic where e: "aead_enc tfm b (take m a) p = (c, mic)" by fastforce
  with cipher have c: "length c = length p" "length mic = n" "aead_dec tfm b (take m a) c mic = Some p"
    by (simp_all add: aead_ok_def)
  let ?hdr = "ccmp_pn2hdr pn idx"
  have d: "skb_data rx = H @ ?hdr @ c @ mic" by (simp add: rx sealed_frame_def b e)
  from blocks H(1) b have bs: "blocks (H @ x) pn = (b, m, a)" "m = length H - 2" "length a = 30" for x
    unfolding header_blocks_def by (metis, (metis fst_conv snd_conv)+)
  have fc: "hdr_fc (skb_data rx) = hdr_fc H"
    using whole_header_lengths(1) [OF H(1)] by (simp add: d hdr_fc_prefix)
  have h: "ieee80211_hdrlen (hdr_fc (skb_data rx)) = length H" using H(1) by (simp add: fc whole_header_def)
  have rp: "ccmp_hdr2pn (drop (length H) (skb_data rx)) = pn" by (simp add: d pn_header(3) [OF pn])
  have cmp: "\<not> memcmp pn (ak_rx_pn r ! q) < 0" "memcmp pn (ak_rx_pn r ! q) \<noteq> 0"
    using memcmp_order [of pn "ak_rx_pn r ! q"] pn new by simp_all
  have parts: "take (length (skb_data rx) - length H - 8 - n) (drop (length H + 8) (skb_data rx)) = c"
    "drop (length (skb_data rx) - n) (skb_data rx) = mic" "take (length H + 8) (skb_data rx) = H @ ?hdr"
    "\<not> length (skb_data rx) < length H + 8 + n"
    using c by (simp_all add: d pn_header)
  have "skb_data (skb_close_gap 8 (length H) (skb_trim (length ((H @ ?hdr) @ p @ mic) - n)
      (rx\<lparr>skb_data := (H @ ?hdr) @ p @ mic\<rparr>))) = H @ p"
    using c(2) by (simp add: skb_close_gap_def skb_trim_def pn_header)
  moreover have "aead_rx ccmp_hdr2pn blocks tfm True n status True q r rx =
      Some (RX_CONTINUE, r\<lparr>ak_rx_pn := (ak_rx_pn r)[q := pn]\<rparr>, skb_close_gap 8 (length H)
        (skb_trim (length ((H @ ?hdr) @ p @ mic) - n) (rx\<lparr>skb_data := (H @ ?hdr) @ p @ mic\<rparr>)))"
  proof -
    have "blocks (skb_data rx) pn = (b, m, a)" using bs(1) [of "?hdr @ c @ mic"] by (simp only: d)
    moreover have "aad_read m a = Some (take m a)" using H(2) bs(2,3) by (simp add: aad_read_def)
    moreover have "c \<noteq> []" using c(1) p by auto
    ultimately show ?thesis
      using H(3) status cmp c(3) parts(4)
      unfolding aead_rx_def Let_def h rp needs_key_def
      by (auto simp add: aead_decrypt_def parts simp del: diff_diff_left drop_drop)
  qed
  ultimately show ?thesis by blast
qed

definition robust_subtype :: "u16 \<Rightarrow> bool" where
  "robust_subtype fc \<longleftrightarrow> ieee80211_is_deauth fc \<or> ieee80211_is_disassoc fc \<or> ieee80211_is_action fc"

lemma robust_subtype_mgmt: "robust_subtype fc \<Longrightarrow> ieee80211_is_mgmt fc"
proof -
  assume "robust_subtype fc"
  then have "fc AND 0xfc = 0xC0 \<or> fc AND 0xfc = 0xA0 \<or> fc AND 0xfc = 0xD0"
    by (simp add: robust_subtype_def ieee80211_is_deauth_def ieee80211_is_disassoc_def ieee80211_is_action_def)
  then have "(fc AND 0xfc) AND 0x0c = 0" by auto
  then have "fc AND (0xfc AND 0x0c) = 0" by (simp only: and.assoc)
  then show ?thesis by (simp add: ieee80211_is_mgmt_def)
qed

lemma robust_subtype_protected: "robust_subtype (fc OR IEEE80211_FCTL_PROTECTED) = robust_subtype fc"
proof -
  have "(fc OR 16384) AND 0xfc = fc AND 0xfc" by (simp add: bit.conj_disj_distrib2)
  then show ?thesis
    by (simp add: robust_subtype_def ieee80211_is_deauth_def ieee80211_is_disassoc_def ieee80211_is_action_def
        IEEE80211_FCTL_PROTECTED_def)
qed

lemma robust_frame:
  "robust_subtype (hdr_fc d) \<Longrightarrow> ieee80211_has_protected (hdr_fc d) \<Longrightarrow> 25 \<le> length d \<Longrightarrow> ieee80211_is_robust_mgmt_frame d"
  by (auto simp: ieee80211_is_robust_mgmt_frame_def robust_mgmt_frame_def robust_subtype_def Let_def)

lemma protected_header:
  assumes fc: "fc = hdr_fc (skb_data skb)" "ieee80211_is_data fc \<or> robust_subtype fc \<and> \<not> ieee80211_has_a4 fc"
    and len: "ieee80211_hdrlen (hdr_fc (skb_data (tx_set_protected skb))) \<le> length (skb_data (tx_set_protected skb))"
  shows "whole_header (take (ieee80211_hdrlen (hdr_fc (skb_data (tx_set_protected skb)))) (skb_data (tx_set_protected skb)))"
    "hdr_fc (take (ieee80211_hdrlen (hdr_fc (skb_data (tx_set_protected skb)))) (skb_data (tx_set_protected skb))) =
      hdr_fc (skb_data (tx_set_protected skb))"
proof -
  let ?D = "skb_data (tx_set_protected skb)"
  let ?h = "ieee80211_hdrlen (hdr_fc ?D)"
  show f: "hdr_fc (take ?h ?D) = hdr_fc ?D"
    using hdrlen_ge [of "hdr_fc ?D"] len hdr_fc_prefix [of "take ?h ?D" "drop ?h ?D"] by simp
  show "whole_header (take ?h ?D)"
    using len fc(2) robust_subtype_mgmt [of fc] unfolding whole_header_def f
    by (auto simp: set_protected_fc protected_hdrlen fc(1))
qed

lemma aead_roundtrip:
  assumes tx: "encrypt_skbs (aead_encrypt_skb blocks tfm True n None) s (ieee80211_tx_set_protected [skb]) =
      Some (TX_CONTINUE, s1, [skb1])"
    and blocks: "header_blocks blocks" and cipher: "aead_ok tfm n"
    and fc: "fc = hdr_fc (skb_data skb)" "ieee80211_is_data fc \<or> robust_subtype fc \<and> \<not> ieee80211_has_a4 fc"
    and len: "ieee80211_hdrlen fc < length (skb_data skb)"
    and air: "skb_data rx = skb_data skb1" and status: "\<not> rx_decrypted status" "\<not> rx_pn_validated status"
    and pn: "pn = pn_bytes (kc_tx_pn (ak_conf s) + 1)"
    and new: "length (ak_rx_pn r ! q) = 6" "number_of (ak_rx_pn r ! q) < number_of pn"
  shows "\<exists>rx1. aead_rx ccmp_hdr2pn blocks tfm True n status True q r rx =
      Some (RX_CONTINUE, r\<lparr>ak_rx_pn := (ak_rx_pn r)[q := pn]\<rparr>, rx1) \<and>
    skb_data rx1 = skb_data (tx_set_protected skb)"
proof -
  let ?D = "skb_data (tx_set_protected skb)"
  let ?h = "ieee80211_hdrlen (hdr_fc ?D)"
  have h: "?h = ieee80211_hdrlen fc" by (simp add: set_protected_fc protected_hdrlen fc)
  have l: "length ?D = length (skb_data skb)" "?h < length ?D"
    using len hdrlen_ge [of fc] by (simp_all add: set_protected_length h)
  note H = protected_header(1) [OF fc less_imp_le [OF l(2)]] and f = protected_header(2) [OF fc less_imp_le [OF l(2)]]
  have "aead_encrypt_skb blocks tfm True n None s (tx_set_protected skb) = Some (True, s1, skb1)"
    using tx by (auto simp: ieee80211_tx_set_protected_def split: option.splits bool.splits prod.splits)
  from encrypt_skb_sealed [OF this refl H blocks] air pn
  have s: "skb_data rx = sealed_frame blocks tfm pn (kc_keyidx (ak_conf s)) (take ?h ?D) (drop ?h ?D)"
    "length (take ?h ?D) \<le> 32" by simp_all
  obtain y where y: "skb_data rx = take ?h ?D @ ccmp_pn2hdr pn (kc_keyidx (ak_conf s)) @ y"
    using s(1) by (auto simp: sealed_frame_def split: prod.splits)
  have rf: "hdr_fc (skb_data rx) = hdr_fc ?D" "25 \<le> length (skb_data rx)"
    using whole_header_lengths(1) [OF H] f unfolding y by (simp_all add: hdr_fc_prefix pn_header min_def)
  have "needs_key (skb_data rx)"
    using fc(2) rf(2) robust_frame [of "skb_data rx"] protected_hdrlen(6)
    unfolding needs_key_def rf(1) set_protected_fc protected_hdrlen robust_subtype_protected fc(1) [symmetric] by blast
  moreover have "length pn = 6" "drop ?h ?D \<noteq> []" using l(2) by (simp_all add: pn pn_header)
  ultimately show ?thesis
    using receive_sealed [OF s(1) _ H s(2) _ blocks cipher _ status new] by simp
qed

text \<open>
  Property C17: a frame with a body that CCMP encrypts is decrypted by a receiver with the same key whose
  last number on the queue is smaller: the result is the frame with the Protected bit set, and the number is
  remembered. The cipher is any that keeps lengths and undoes itself.
\<close>

theorem ccmp_roundtrip:
  assumes tx: "ieee80211_crypto_ccmp_encrypt tfm True n None s [skb] = Some (TX_CONTINUE, s1, [skb1])"
    and cipher: "aead_ok tfm n"
    and frame: "fc = hdr_fc (skb_data skb)" "ieee80211_is_data fc \<or> robust_subtype fc \<and> \<not> ieee80211_has_a4 fc"
      "ieee80211_hdrlen fc < length (skb_data skb)"
    and air: "skb_data rx = skb_data skb1" and status: "\<not> rx_decrypted status" "\<not> rx_pn_validated status"
    and pn: "pn = pn_bytes (kc_tx_pn (ak_conf s) + 1)"
    and new: "length (ak_rx_pn r ! q) = 6" "number_of (ak_rx_pn r ! q) < number_of pn"
  shows "\<exists>rx1. ieee80211_crypto_ccmp_decrypt tfm True n status True q r rx =
      Some (RX_CONTINUE, r\<lparr>ak_rx_pn := (ak_rx_pn r)[q := pn]\<rparr>, rx1) \<and>
    skb_data rx1 = skb_data (tx_set_protected skb)"
  using aead_roundtrip [OF _ header_blocksI(1) cipher frame air status pn new] tx
  by (simp add: ieee80211_crypto_ccmp_encrypt_def ieee80211_crypto_ccmp_decrypt_def ciphers_are_aead [abs_def])

text \<open>
  A cipher for the witnesses: the data is combined with a byte, the code is the sum of all bytes.
\<close>

definition demo_sum :: "bytes \<Rightarrow> bytes" where "demo_sum x = replicate 8 (fold (+) x 0)"

definition demo_aead :: aead where
  "demo_aead = \<lparr>aead_enc = \<lambda>b a p. (map ((XOR) 90) p, demo_sum (b @ a @ p)),
     aead_dec = \<lambda>b a c mic. let p = map ((XOR) 90) c in if mic = demo_sum (b @ a @ p) then Some p else None\<rparr>"

lemma demo_aead_ok: "aead_ok demo_aead 8"
proof -
  have "map ((XOR) 90 \<circ> (XOR) (90 :: u8)) p = p" for p
    by (induction p) (simp_all flip: xor.assoc)
  then show ?thesis by (auto simp: aead_ok_def demo_aead_def demo_sum_def Let_def)
qed

definition demo_aead_key :: aead_key where
  "demo_aead_key = \<lparr>ak_conf = \<lparr>kc_cipher = 0, kc_keyidx = 1, kc_key = [], kc_flags = 0, kc_tx_pn = 6\<rparr>,
     ak_rx_pn = replicate 17 [0, 0, 0, 0, 0, 6], ak_replays = 0\<rparr>"

definition demo_data_frame :: sk_buff where
  "demo_data_frame = \<lparr>skb_data = [8, 0] @ replicate 22 7 @ [1, 2, 3], skb_addr = 100, skb_headroom = 8, skb_tailroom = 8\<rparr>"

lemma demo_data_fc: "hdr_fc (skb_data demo_data_frame) = 8" "skb_data (tx_set_protected demo_data_frame) = [8, 64] @ replicate 22 7 @ [1, 2, 3]"
proof -
  show fc: "hdr_fc (skb_data demo_data_frame) = 8" by (simp add: demo_data_frame_def hdr_fc_def get_le16_def)
  show "skb_data (tx_set_protected demo_data_frame) = [8, 64] @ replicate 22 7 @ [1, 2, 3]"
    by (simp add: tx_set_protected_def skb_write_def fc put_le16_def IEEE80211_FCTL_PROTECTED_def)
      (simp add: demo_data_frame_def)
qed

lemma fc_8: "ieee80211_hdrlen 8 = 24" "ieee80211_is_data 8"
  by (simp_all add: ieee80211_is_data_def ieee80211_hdrlen_def ieee80211_has_a4_def ieee80211_is_data_qos_def)

lemma demo_data_hdr:
  "ieee80211_hdrlen (hdr_fc (skb_data (tx_set_protected demo_data_frame))) = 24"
  "whole_header (take 24 (skb_data (tx_set_protected demo_data_frame)))"
  "skb_tailroom (tx_set_protected demo_data_frame) = 8" "skb_headroom (tx_set_protected demo_data_frame) = 8"
proof -
  have fc: "hdr_fc ([8, 64] @ x) = 0x4008" for x by (simp add: hdr_fc_def get_le16_def)
  have m: "ieee80211_hdrlen 0x4008 = 24" "ieee80211_is_data 0x4008"
    using protected_hdrlen(1,2) [of 8] fc_8 by (simp_all add: IEEE80211_FCTL_PROTECTED_def)
  show "ieee80211_hdrlen (hdr_fc (skb_data (tx_set_protected demo_data_frame))) = 24"
    "whole_header (take 24 (skb_data (tx_set_protected demo_data_frame)))"
    unfolding demo_data_fc(2) whole_header_def using fc [of "replicate 22 7"] m fc [of "replicate 22 7 @ [1, 2, 3]"] by simp_all
  show "skb_tailroom (tx_set_protected demo_data_frame) = 8" "skb_headroom (tx_set_protected demo_data_frame) = 8"
    by (simp_all add: tx_set_protected_def skb_write_def demo_data_frame_def)
qed

theorem ccmp_roundtrip_witness:
  "\<exists>s1 skb1 r1 rx1. ieee80211_crypto_ccmp_encrypt demo_aead True 8 None demo_aead_key [demo_data_frame] =
      Some (TX_CONTINUE, s1, [skb1]) \<and>
    ieee80211_crypto_ccmp_decrypt demo_aead True 8 demo_status True 0 demo_aead_key skb1 = Some (RX_CONTINUE, r1, rx1) \<and>
    skb_data rx1 = [8, 64] @ replicate 22 7 @ [1, 2, 3]"
proof -
  have "\<exists>s1 skb1. ieee80211_crypto_ccmp_encrypt demo_aead True 8 None demo_aead_key [demo_data_frame] = Some (TX_CONTINUE, s1, [skb1])"
    using encrypt_skb_result [OF refl _ _ _ header_blocksI(1), of "tx_set_protected demo_data_frame" 8 demo_aead demo_aead_key]
    by (auto simp: ieee80211_crypto_ccmp_encrypt_def ieee80211_tx_set_protected_def ciphers_are_aead demo_data_hdr min_def
        split: if_splits)
  then obtain s1 skb1 where tx: "ieee80211_crypto_ccmp_encrypt demo_aead True 8 None demo_aead_key [demo_data_frame] =
      Some (TX_CONTINUE, s1, [skb1])" by blast
  have "\<exists>rx1. ieee80211_crypto_ccmp_decrypt demo_aead True 8 demo_status True 0 demo_aead_key skb1 =
      Some (RX_CONTINUE, demo_aead_key\<lparr>ak_rx_pn := (ak_rx_pn demo_aead_key)[0 := pn_bytes (kc_tx_pn (ak_conf demo_aead_key) + 1)]\<rparr>, rx1) \<and>
      skb_data rx1 = skb_data (tx_set_protected demo_data_frame)"
    by (rule ccmp_roundtrip [OF tx demo_aead_ok refl _ _ refl _ _ refl])
      (simp_all add: demo_data_fc(1) fc_8 demo_status_def demo_aead_key_def pn_bytes_def, simp add: demo_data_frame_def)
  with tx show ?thesis unfolding demo_data_fc(2) by blast
qed

lemma encrypt_one_none:
  "ieee80211_crypto_ccmp_encrypt tfm True n hw s [skb] = None \<longleftrightarrow>
     aead_encrypt_skb ccmp_special_blocks tfm True n hw s (tx_set_protected skb) = None"
  "ieee80211_crypto_gcmp_encrypt tfm True hw s [skb] = None \<longleftrightarrow>
     aead_encrypt_skb gcmp_special_blocks tfm True 16 hw s (tx_set_protected skb) = None"
  by (auto simp: ieee80211_crypto_ccmp_encrypt_def ieee80211_crypto_gcmp_encrypt_def ieee80211_tx_set_protected_def
      ciphers_are_aead split: option.splits bool.splits)

text \<open>
  The 30 bytes of additional data are enough except for data frames with four addresses, a QoS
  field and an HT field: for these, and only these, CCMP and GCMP read four bytes behind the array.
\<close>

theorem aad_overread:
  assumes "fc = hdr_fc (skb_data skb)" "ieee80211_is_data fc \<or> robust_subtype fc \<and> \<not> ieee80211_has_a4 fc"
    "ieee80211_hdrlen fc \<le> length (skb_data skb)" "n \<le> skb_tailroom skb" "16 \<le> skb_tailroom skb" "8 \<le> skb_headroom skb"
  shows "(ieee80211_crypto_ccmp_encrypt tfm True n None s [skb] = None \<longleftrightarrow>
      ieee80211_is_data_qos fc \<and> ieee80211_has_a4 fc \<and> ieee80211_has_order fc) \<and>
    (ieee80211_crypto_gcmp_encrypt tfm True None s [skb] = None \<longleftrightarrow>
      ieee80211_is_data_qos fc \<and> ieee80211_has_a4 fc \<and> ieee80211_has_order fc)"
proof -
  let ?skb = "tx_set_protected skb"
  let ?h = "ieee80211_hdrlen (hdr_fc (skb_data ?skb))"
  have h: "?h = ieee80211_hdrlen fc" by (simp add: set_protected_fc protected_hdrlen assms(1))
  have "\<not> (ieee80211_is_data fc \<and> ieee80211_is_mgmt fc)"
    by (auto simp: ieee80211_is_data_def ieee80211_is_mgmt_def)
  then have big: "32 < ?h \<longleftrightarrow> ieee80211_is_data_qos fc \<and> ieee80211_has_a4 fc \<and> ieee80211_has_order fc"
    unfolding h using assms(2) robust_subtype_mgmt [of fc] qos_is_data [of fc] by (auto simp: ieee80211_hdrlen_def Let_def)
  have l: "length (skb_data ?skb) = length (skb_data skb)" "?h \<le> length (skb_data ?skb)"
    using assms(3) hdrlen_ge [of fc] by (simp_all add: set_protected_length h)
  have H: "whole_header (take ?h (skb_data ?skb))" "length (take ?h (skb_data ?skb)) = ?h"
    using l(2) protected_header [OF assms(1,2)] by simp_all
  have "n \<le> skb_tailroom ?skb" "16 \<le> skb_tailroom ?skb" "8 \<le> skb_headroom ?skb"
    using assms by (simp_all add: tx_set_protected_def skb_write_def)
  from encrypt_skb_result [OF refl H(1) this(1,3) header_blocksI(1), of tfm s]
    encrypt_skb_result [OF refl H(1) this(2,3) header_blocksI(2), of tfm s]
  show ?thesis
    unfolding encrypt_one_none H(2) big by (intro conjI) (rule conjunct1, assumption)+
qed

definition demo_long_frame :: sk_buff where
  "demo_long_frame = \<lparr>skb_data = [0x88, 0x83] @ replicate 40 7, skb_addr = 100, skb_headroom = 8, skb_tailroom = 16\<rparr>"

theorem aad_overread_witness:
  "ieee80211_crypto_ccmp_encrypt demo_aead True 8 None demo_aead_key [demo_long_frame] = None"
proof -
  have fc: "hdr_fc (skb_data demo_long_frame) = 0x8388" by (simp add: demo_long_frame_def hdr_fc_def get_le16_def)
  have h: "ieee80211_is_data_qos 0x8388" "ieee80211_has_a4 0x8388" "ieee80211_has_order 0x8388"
    by (simp_all add: ieee80211_is_data_qos_def ieee80211_has_a4_def ieee80211_has_order_def)
  then have "ieee80211_is_data 0x8388" "ieee80211_hdrlen 0x8388 = 36"
    using qos_is_data by (simp_all add: ieee80211_hdrlen_def)
  then show ?thesis
    using aad_overread [OF fc [symmetric], of 8 demo_aead demo_aead_key] h by (simp add: demo_long_frame_def)
qed


theorem gcmp_roundtrip:
  assumes tx: "ieee80211_crypto_gcmp_encrypt tfm True None s [skb] = Some (TX_CONTINUE, s1, [skb1])"
    and cipher: "aead_ok tfm 16"
    and frame: "fc = hdr_fc (skb_data skb)" "ieee80211_is_data fc \<or> robust_subtype fc \<and> \<not> ieee80211_has_a4 fc"
      "ieee80211_hdrlen fc < length (skb_data skb)"
    and air: "skb_data rx = skb_data skb1" and status: "\<not> rx_decrypted status" "\<not> rx_pn_validated status"
    and pn: "pn = pn_bytes (kc_tx_pn (ak_conf s) + 1)"
    and new: "length (ak_rx_pn r ! q) = 6" "number_of (ak_rx_pn r ! q) < number_of pn"
  shows "\<exists>rx1. ieee80211_crypto_gcmp_decrypt tfm True status True q r rx =
      Some (RX_CONTINUE, r\<lparr>ak_rx_pn := (ak_rx_pn r)[q := pn]\<rparr>, rx1) \<and>
    skb_data rx1 = skb_data (tx_set_protected skb)"
  using aead_roundtrip [OF _ header_blocksI(2) cipher frame air status pn new] tx
  by (simp add: ieee80211_crypto_gcmp_encrypt_def ieee80211_crypto_gcmp_decrypt_def ciphers_are_aead [abs_def] pn_length)

section \<open>Management frames\<close>

text \<open>What \<open>bip_decrypt\<close> reads at the end of a frame.\<close>

definition mmie_ipn :: "nat \<Rightarrow> bytes \<Rightarrow> bytes" where
  "mmie_ipn n d = bip_ipn_swap (take 6 (drop 4 (drop (length d - (10 + n)) d)))"

record mgmt_rx =
  mr_mem :: bool
  mr_status :: rx_status
  mr_skb :: sk_buff

definition bip_rx :: "(bytes \<Rightarrow> bytes \<Rightarrow> bytes \<Rightarrow> bytes) \<Rightarrow> nat \<Rightarrow> mgmt_rx \<Rightarrow> bip_key \<Rightarrow> rx_result \<times> bip_key \<times> sk_buff" where
  "bip_rx code n f k = bip_decrypt code (mr_mem f) n (mr_status f) k (mr_skb f)"

definition bip_accepts :: "(bytes \<Rightarrow> bytes \<Rightarrow> bytes \<Rightarrow> bytes) \<Rightarrow> nat \<Rightarrow> mgmt_rx \<Rightarrow> bip_key \<Rightarrow> bool" where
  "bip_accepts code n f k \<longleftrightarrow> fst (bip_rx code n f k) = RX_CONTINUE \<and> ieee80211_is_mgmt (hdr_fc (skb_data (mr_skb f)))"

definition bip_key_after :: "(bytes \<Rightarrow> bytes \<Rightarrow> bytes \<Rightarrow> bytes) \<Rightarrow> nat \<Rightarrow> mgmt_rx \<Rightarrow> bip_key \<Rightarrow> bip_key" where
  "bip_key_after code n f k = fst (snd (bip_rx code n f k))"

lemma swap_length [simp]: "length (bip_ipn_swap x) = 6" "length (mmie_ipn n d) = 6" "length (bip_ipn_set64 w) = 6"
  by (simp_all add: bip_ipn_swap_def mmie_ipn_def bip_ipn_set64_def)

lemma bip_cases:
  "bk_rx_pn (bip_key_after code n (f :: mgmt_rx) k) = bk_rx_pn k \<and> \<not> bip_accepts code n f k \<or>
   bk_rx_pn (bip_key_after code n f k) = mmie_ipn n (skb_data (mr_skb f)) \<and>
     0 < memcmp (mmie_ipn n (skb_data (mr_skb f))) (bk_rx_pn k)"
  by (auto simp: bip_key_after_def bip_accepts_def bip_rx_def bip_decrypt_def mmie_ipn_def Let_def)

interpretation bip: replay_protected "\<lambda>k. length (bk_rx_pn k) = 6" "bip_key_after code n" "bip_accepts code n"
  "\<lambda>f. number_of (mmie_ipn n (skb_data (mr_skb f)))" "\<lambda>k. number_of (bk_rx_pn k)" for code n
proof
  fix k :: bip_key and f :: mgmt_rx
  assume k: "length (bk_rx_pn k) = 6"
  let ?p = "mmie_ipn n (skb_data (mr_skb f))"
  have o: "\<not> memcmp ?p (bk_rx_pn k) \<le> 0 \<longleftrightarrow> number_of (bk_rx_pn k) < number_of ?p"
    using memcmp_order(1) [of ?p "bk_rx_pn k"] k by auto
  note c = bip_cases [of code n f k]
  show "length (bk_rx_pn (bip_key_after code n f k)) = 6" using c k by auto
  show "number_of (bk_rx_pn k) \<le> number_of (bk_rx_pn (bip_key_after code n f k))" using c o by auto
  show "bip_accepts code n f k \<Longrightarrow> number_of (bk_rx_pn k) < number_of ?p" using c o by auto
  show "bip_accepts code n f k \<Longrightarrow> number_of (bk_rx_pn (bip_key_after code n f k)) = number_of ?p" using c by auto
qed

text \<open>
  The packet numbers of the management frames that a key accepts strictly increase, whatever
  the code and its length (8 bytes for CMAC, 16 bytes for CMAC of 256 bits and GMAC).
\<close>

theorem bip_no_replay:
  assumes "length (bk_rx_pn k) = 6"
  shows "sorted_wrt (<) (map (\<lambda>f. number_of (mmie_ipn n (skb_data (mr_skb f))))
      (accepted (bip_key_after code n) (bip_accepts code n) k fs))"
  using assms by (rule bip.accepted_increase)

lemma mmie_head_fields:
  "length (mmie_head n idx pn) = 10" "mmie_head n idx pn ! 0 = WLAN_EID_MMIE" "mmie_head n idx pn ! 1 = of_nat (8 + n)"
  "take 6 (drop 4 (mmie_head n idx pn)) = bip_ipn_set64 pn"
  by (simp_all add: mmie_head_def put_le16_def bip_ipn_set64_def)

lemma bip_code_of_element:
  assumes "24 \<le> length d" "length e = 10" "length m = n" "length m' = n"
  shows "bip_code_of code n (d @ e @ m) ipn = bip_code_of code n (d @ e @ m') ipn"
proof -
  have "hdr_fc (d @ x) = hdr_fc d" "hdr_addr2 (d @ x) = hdr_addr2 d" "take 18 (drop 4 (d @ x)) = take 18 (drop 4 d)" for x
    using assms(1) by (simp_all add: hdr_fc_prefix hdr_addr2_def addr_prefix)
  moreover have "take (length (d @ e @ m) - 24 - n) (drop 24 (d @ e @ m)) = drop 24 d @ e" if "length m = n" for m
    using assms(1,2) that by simp
  ultimately show ?thesis
    using assms(3,4) unfolding bip_code_of_def bip_aad_def by (simp only:)
qed

text \<open>
  Property C28: a management frame to which the transmit handler appends the protecting element is accepted
  by a receiver with the same key whose last number is smaller, and the element is removed again.
\<close>

theorem bip_roundtrip:
  assumes tx: "bip_encrypt code mem n False False s [skb] = (TX_CONTINUE, s1, [skb1])"
    and frame: "ieee80211_is_mgmt (hdr_fc (skb_data skb))" "24 \<le> length (skb_data skb)"
    and code: "\<And>a b c. n \<le> length (code a b c)"
    and air: "skb_data rx = skb_data skb1"
    and ipn: "ipn = bip_ipn_swap (bip_ipn_set64 (kc_tx_pn (bk_conf s) + 1))"
    and new: "length (bk_rx_pn r) = 6" "number_of (bk_rx_pn r) < number_of ipn"
  shows "\<exists>rx1. bip_decrypt code True n status r rx = (RX_CONTINUE, r\<lparr>bk_rx_pn := ipn\<rparr>, rx1) \<and>
    skb_data rx1 = skb_data skb"
proof -
  let ?d = "skb_data skb" and ?e = "mmie_head n (kc_keyidx (bk_conf s)) (kc_tx_pn (bk_conf s) + 1)"
  let ?m = "bip_code_of code n (?d @ ?e @ replicate n 0) ipn"
  have rx: "skb_data rx = ?d @ ?e @ ?m"
    using tx air ipn by (auto simp: bip_encrypt_def Let_def skb_put_bytes_def split: if_splits)
  have m: "length ?m = n" unfolding bip_code_of_def length_take by (rule min_absorb2) (rule code)
  note e = mmie_head_fields [of n "kc_keyidx (bk_conf s)" "kc_tx_pn (bk_conf s) + 1"]
  have code_rx: "bip_code_of code n (skb_data rx) ipn = ?m"
    unfolding rx by (rule bip_code_of_element) (use frame m e in simp_all)
  have len: "length (skb_data rx) = length ?d + (10 + n)" using m e(1) by (simp add: rx)
  have tail: "drop (length (skb_data rx) - (10 + n)) (skb_data rx) = ?e @ ?m"
    "take (length (skb_data rx) - (10 + n)) (skb_data rx) = ?d" unfolding len by (simp_all add: rx)
  have fields: "(?e @ ?m) ! 0 = WLAN_EID_MMIE" "(?e @ ?m) ! 1 = of_nat (8 + n)" "drop 10 (?e @ ?m) = ?m"
    "take 6 (drop 4 (?e @ ?m)) = bip_ipn_set64 (kc_tx_pn (bk_conf s) + 1)"
    using e by (simp_all add: nth_append)
  have fc: "hdr_fc (skb_data rx) = hdr_fc ?d" using frame(2) by (simp add: rx hdr_fc_prefix)
  have "\<not> memcmp ipn (bk_rx_pn r) \<le> 0"
    using memcmp_order(1) [of ipn "bk_rx_pn r"] new ipn by simp
  then have "bip_decrypt code True n status r rx =
      (RX_CONTINUE, r\<lparr>bk_rx_pn := ipn\<rparr>, skb_trim (length (skb_data rx) - (10 + n)) rx)"
    using frame len
    unfolding bip_decrypt_def Let_def fc tail fields ipn [symmetric] code_rx by simp
  then show ?thesis using tail(2) by (simp add: skb_trim_def)
qed

definition demo_bip_key :: bip_key where
  "demo_bip_key = \<lparr>bk_conf = \<lparr>kc_cipher = 0, kc_keyidx = 4, kc_key = [], kc_flags = 0, kc_tx_pn = 6\<rparr>,
     bk_rx_pn = [0, 0, 0, 0, 0, 6], bk_replays = 0, bk_icverrors = 0\<rparr>"

definition demo_deauth :: sk_buff where
  "demo_deauth = \<lparr>skb_data = [0xC0, 0] @ replicate 22 7 @ [1, 0], skb_addr = 0, skb_headroom = 0, skb_tailroom = 18\<rparr>"

theorem bip_roundtrip_witness:
  "\<exists>s1 skb1 r1 rx1. bip_encrypt (\<lambda>a b c. demo_sum (a @ b @ c)) True 8 False False demo_bip_key [demo_deauth] =
      (TX_CONTINUE, s1, [skb1]) \<and>
    bip_decrypt (\<lambda>a b c. demo_sum (a @ b @ c)) True 8 demo_status demo_bip_key skb1 = (RX_CONTINUE, r1, rx1) \<and>
    skb_data rx1 = skb_data demo_deauth"
proof -
  let ?code = "\<lambda>a b c. demo_sum (a @ b @ c)"
  have fc: "ieee80211_is_mgmt (hdr_fc (skb_data demo_deauth))" "24 \<le> length (skb_data demo_deauth)"
    by (simp_all add: demo_deauth_def hdr_fc_def get_le16_def ieee80211_is_mgmt_def)
  have "\<exists>s1 skb1. bip_encrypt ?code True 8 False False demo_bip_key [demo_deauth] = (TX_CONTINUE, s1, [skb1])"
    by (simp add: bip_encrypt_def Let_def demo_deauth_def)
  then obtain s1 skb1 where tx: "bip_encrypt ?code True 8 False False demo_bip_key [demo_deauth] = (TX_CONTINUE, s1, [skb1])"
    by blast
  from bip_roundtrip [OF tx fc _ refl refl, of demo_bip_key demo_status] tx show ?thesis
    by (simp add: demo_sum_def demo_bip_key_def bip_ipn_swap_def bip_ipn_set64_def) blast
qed

theorem bip_no_replay_witness:
  "sorted_wrt (<) (map (\<lambda>f. number_of (mmie_ipn 8 (skb_data (mr_skb f))))
      (accepted (bip_key_after (\<lambda>a b c. demo_sum (a @ b @ c)) 8) (bip_accepts (\<lambda>a b c. demo_sum (a @ b @ c)) 8)
        demo_bip_key (replicate 2 \<lparr>mr_mem = True, mr_status = demo_status, mr_skb = demo_deauth\<rparr>)))"
  by (rule bip_no_replay) (simp add: demo_bip_key_def)

end
