(* ===== verification/Radiotap.thy ===== *)
theory Radiotap
  imports Crc32
begin

unbundle bit_operations_syntax

text \<open>
  Model of the parser of radiotap headers, \<open>net/wireless/radiotap.c\<close>. A header is a list of bytes and a
  pointer into it an offset; the presence words are followed by the fields. The iterator is a record with
  the fields of \<open>struct ieee80211_radiotap_iterator\<close>.

  \<open>rt_next_ns_data\<close> is \<open>None\<close> until the code assigns it. An operation may return, go round its loop, read
  outside of the buffer or use the unassigned pointer.
\<close>

section \<open>Reads\<close>

definition rd_le16 :: "bytes \<Rightarrow> nat \<Rightarrow> nat option" where
  "rd_le16 d p = (if p + 2 \<le> length d then Some (unat (d ! p) + 256 * unat (d ! (p + 1))) else None)"

definition rd_le32 :: "bytes \<Rightarrow> nat \<Rightarrow> u32 option" where
  "rd_le32 d p = (if p + 4 \<le> length d then Some (le32 (take 4 (drop p d))) else None)"

section \<open>Namespaces\<close>

text \<open>Alignment and size of the fields of a namespace, with \<open>n_bits\<close> the length of the list.\<close>

record rt_namespace =
  align_size :: "(nat \<times> nat) list"
  ns_oui :: u32
  ns_subns :: u8

datatype rt_ns = NS_RADIOTAP | NS_VENDOR rt_namespace | NS_NULL

text \<open>Entry 18 of the table is missing in the code, and so it is 0.\<close>

definition rtap_namespace_sizes :: "(nat \<times> nat) list" where
  "rtap_namespace_sizes =
    [(8, 8), (1, 1), (1, 1), (2, 4), (2, 2), (1, 1), (1, 1), (2, 2), (2, 2), (2, 2), (1, 1), (1, 1), (1, 1), (1, 1),
     (2, 2), (2, 2), (1, 1), (1, 1), (0, 0), (1, 3), (4, 8), (2, 12)]"

definition find_ns :: "rt_namespace list \<Rightarrow> u32 \<Rightarrow> u8 \<Rightarrow> rt_ns" where
  "find_ns vns oui subns =
     (case find (\<lambda>ns. ns_oui ns = oui \<and> ns_subns ns = subns) vns of
        None \<Rightarrow> NS_NULL | Some ns \<Rightarrow> NS_VENDOR ns)"

section \<open>The iterator\<close>

record rt_iter =
  rt_max_length :: nat
  rt_ns :: rt_ns
  rt_arg :: nat
  rt_next_ns_data :: "nat option"
  rt_next_bitmap :: nat
  rt_this_arg :: nat
  rt_this_arg_index :: nat
  rt_this_arg_size :: nat
  rt_is_radiotap_ns :: bool
  rt_arg_index :: nat
  rt_shifter :: u32
  rt_reset_on_ext :: bool

datatype rt_out = RtOverread | RtUninit | RtReturn "errno option" rt_iter | RtContinue rt_iter

text \<open>The search for the first word without the extension bit; \<open>L\<close> is the length of the header.\<close>

function skip_bitmaps :: "bytes \<Rightarrow> nat \<Rightarrow> nat \<Rightarrow> (errno + nat) option" where
  "skip_bitmaps d L p =
     (case rd_le32 d p of
        None \<Rightarrow> None
      | Some w \<Rightarrow>
          if \<not> bit w 31 then Some (Inr (p + 4))
          else if p + 4 + 4 > L then Some (Inl EINVAL)
          else skip_bitmaps d L (p + 4))"
  by pat_completeness auto
termination by (relation "measure (\<lambda>(d, L, p). L - p)") auto

text \<open>\<open>max_length\<close> is compared with a \<open>size_t\<close> first. The fields that the code leaves unset are 0.\<close>

definition ieee80211_radiotap_iterator_init :: "bytes \<Rightarrow> int \<Rightarrow> (errno + rt_iter) option" where
  "ieee80211_radiotap_iterator_init d max_length =
     (if 0 \<le> max_length \<and> max_length < 8 then Some (Inl EINVAL)
      else if length d < 8 then None
      else if d ! 0 \<noteq> 0 then Some (Inl EINVAL)
      else (case (rd_le16 d 2, rd_le32 d 4) of
          (Some it_len, Some present) \<Rightarrow>
            if max_length < int it_len then Some (Inl EINVAL)
            else (let mk = (\<lambda>arg. \<lparr>rt_max_length = it_len, rt_ns = NS_RADIOTAP, rt_arg = arg, rt_next_ns_data = None,
                        rt_next_bitmap = 8, rt_this_arg = arg, rt_this_arg_index = 0, rt_this_arg_size = 0,
                        rt_is_radiotap_ns = True, rt_arg_index = 0, rt_shifter = present, rt_reset_on_ext = False\<rparr>)
                  in if \<not> bit present 31 then Some (Inr (mk 8))
                     else if 8 + 4 > it_len then Some (Inl EINVAL)
                     else map_option (map_sum id mk) (skip_bitmaps d it_len 8))
        | _ \<Rightarrow> None))"

section \<open>The next field\<close>

text \<open>The code at the label \<open>next_entry\<close>, and the return that follows it.\<close>

definition rt_next_entry :: "bool \<Rightarrow> rt_iter \<Rightarrow> rt_out" where
  "rt_next_entry hit it =
     (let it1 = it\<lparr>rt_shifter := drop_bit 1 (rt_shifter it), rt_arg_index := rt_arg_index it + 1\<rparr>
      in if hit then RtReturn None it1 else RtContinue it1)"

text \<open>From the assignment of the field to the end of the loop body.\<close>

definition rt_take_field :: "bytes \<Rightarrow> nat \<Rightarrow> rt_iter \<Rightarrow> rt_out" where
  "rt_take_field d sz it =
     (let i = rt_arg_index it mod 32;
          it1 = it\<lparr>rt_this_arg_index := rt_arg_index it, rt_this_arg := rt_arg it, rt_this_arg_size := sz,
                   rt_arg := rt_arg it + sz\<rparr>
      in if rt_arg it1 > rt_max_length it1 then RtReturn (Some EINVAL) it1
         else if i = 30 then rt_next_entry (rt_ns it1 = NS_NULL)
                (it1\<lparr>rt_reset_on_ext := True, rt_is_radiotap_ns := False, rt_this_arg_index := 30\<rparr>)
         else if i = 29 then rt_next_entry False
                (it1\<lparr>rt_reset_on_ext := True, rt_ns := NS_RADIOTAP, rt_is_radiotap_ns := True\<rparr>)
         else if i = 31 then
           (case rd_le32 d (rt_next_bitmap it1) of
              None \<Rightarrow> RtOverread
            | Some w \<Rightarrow> RtContinue (it1\<lparr>rt_shifter := w, rt_next_bitmap := rt_next_bitmap it1 + 4,
                rt_arg_index := (if rt_reset_on_ext it1 then 0 else rt_arg_index it1 + 1),
                rt_reset_on_ext := False\<rparr>))
         else rt_next_entry True it1)"

text \<open>Alignment, and the namespace that a vendor field starts.\<close>

definition rt_align_field :: "bytes \<Rightarrow> rt_namespace list \<Rightarrow> nat \<Rightarrow> nat \<Rightarrow> rt_iter \<Rightarrow> rt_out" where
  "rt_align_field d vns align sz it =
     (let pad = rt_arg it AND (align - 1);
          arg = (if pad \<noteq> 0 then rt_arg it + (align - pad) else rt_arg it);
          it1 = it\<lparr>rt_arg := arg\<rparr>
      in if rt_arg_index it mod 32 = 30 then
           if arg + sz > rt_max_length it then RtReturn (Some EINVAL) it1
           else if length d < arg + 6 then RtOverread
           else (let oui = push_bit 16 (ucast (d ! arg)) OR push_bit 8 (ucast (d ! (arg + 1))) OR ucast (d ! (arg + 2));
                     ns = find_ns vns oui (d ! (arg + 3));
                     vnslen = unat (d ! (arg + 4)) + 256 * unat (d ! (arg + 5));
                     it2 = it1\<lparr>rt_ns := ns, rt_next_ns_data := Some (arg + sz + vnslen)\<rparr>
                 in rt_take_field d (if ns = NS_NULL then sz + vnslen else sz) it2)
         else rt_take_field d sz it1)"

definition rt_skip_ns :: "rt_iter \<Rightarrow> rt_out" where
  "rt_skip_ns it =
     (case rt_next_ns_data it of
        None \<Rightarrow> RtUninit
      | Some p \<Rightarrow> rt_next_entry False (it\<lparr>rt_arg := p, rt_ns := NS_NULL\<rparr>))"

definition rt_step :: "bytes \<Rightarrow> rt_namespace list \<Rightarrow> rt_iter \<Rightarrow> rt_out" where
  "rt_step d vns it =
     (let i = rt_arg_index it mod 32;
          table = (case rt_ns it of NS_RADIOTAP \<Rightarrow> rtap_namespace_sizes | NS_VENDOR ns \<Rightarrow> align_size ns | NS_NULL \<Rightarrow> [])
      in if i = 31 \<and> \<not> bit (rt_shifter it) 0 then RtReturn (Some ENOENT) it
         else if \<not> bit (rt_shifter it) 0 then rt_next_entry False it
         else if i = 29 \<or> i = 31 then rt_align_field d vns 1 0 it
         else if i = 30 then rt_align_field d vns 2 6 it
         else if rt_ns it = NS_NULL \<or> rt_arg_index it \<ge> length table then
           (if rt_ns it = NS_RADIOTAP then RtReturn (Some ENOENT) it else rt_skip_ns it)
         else (let (align, sz) = table ! rt_arg_index it
               in if align = 0 then rt_skip_ns it else rt_align_field d vns align sz it))"

fun rt_loop :: "nat \<Rightarrow> bytes \<Rightarrow> rt_namespace list \<Rightarrow> rt_iter \<Rightarrow> rt_out" where
  "rt_loop 0 d vns it = RtContinue it"
| "rt_loop (Suc fuel) d vns it =
     (case rt_step d vns it of RtContinue it1 \<Rightarrow> rt_loop fuel d vns it1 | out \<Rightarrow> out)"

text \<open>A presence word takes 32 rounds.\<close>

definition ieee80211_radiotap_iterator_next :: "bytes \<Rightarrow> rt_namespace list \<Rightarrow> rt_iter \<Rightarrow> rt_out" where
  "ieee80211_radiotap_iterator_next d vns it = rt_loop (8 * rt_max_length it + 33) d vns it"

text \<open>The fields a caller visits, up to a number of calls, and how the last call ended.\<close>

fun rt_visit :: "nat \<Rightarrow> bytes \<Rightarrow> rt_namespace list \<Rightarrow> rt_iter \<Rightarrow> (nat \<times> nat \<times> nat) list \<times> rt_out" where
  "rt_visit 0 d vns it = ([], RtContinue it)"
| "rt_visit (Suc n) d vns it =
     (case ieee80211_radiotap_iterator_next d vns it of
        RtReturn None it1 \<Rightarrow>
          (let (fs, out) = rt_visit n d vns it1
           in ((rt_this_arg_index it1, rt_this_arg it1, rt_this_arg_size it1) # fs, out))
      | out \<Rightarrow> ([], out))"

end
