(* ===== verification/Radiotap_Props.thy ===== *)
theory Radiotap_Props
  imports Radiotap
begin

text \<open>
  Safety of the parser of radiotap headers: after a successful initialisation no read leaves the header,
  every field handed to the caller lies inside of it, and the visit ends.
\<close>

section \<open>The presence words\<close>

text \<open>From \<open>p\<close> on there are presence words inside the header up to one without the extension bit.\<close>

function bitmaps :: "bytes \<Rightarrow> nat \<Rightarrow> nat \<Rightarrow> bool" where
  "bitmaps d L p \<longleftrightarrow>
     (if L < p + 4 then False else case rd_le32 d p of None \<Rightarrow> False | Some w \<Rightarrow> bit w 31 \<longrightarrow> bitmaps d L (p + 4))"
  by pat_completeness auto
termination by (relation "measure (\<lambda>(d, L, p). L - p)") auto

declare bitmaps.simps [simp del] skip_bitmaps.simps [simp del]

lemma skip_bitmaps_ok:
  "L \<le> length d \<Longrightarrow> p + 4 \<le> L \<Longrightarrow> skip_bitmaps d L p \<noteq> None \<and> (skip_bitmaps d L p = Some (Inr q) \<longrightarrow> bitmaps d L p)"
proof (induction d L p rule: skip_bitmaps.induct)
  case (1 d L p)
  then show ?case
    by (subst (1 2) skip_bitmaps.simps, subst bitmaps.simps) (auto simp: rd_le32_def)
qed

section \<open>One round\<close>

definition rt_inv :: "bytes \<Rightarrow> rt_iter \<Rightarrow> bool" where
  "rt_inv d it \<longleftrightarrow> rt_max_length it \<le> length d \<and>
     (bit (rt_shifter it) (31 - rt_arg_index it mod 32) \<longrightarrow> bitmaps d (rt_max_length it) (rt_next_bitmap it)) \<and>
     (rt_ns it \<noteq> NS_RADIOTAP \<longrightarrow> rt_next_ns_data it \<noteq> None)"

definition rounds_left :: "rt_iter \<Rightarrow> nat" where
  "rounds_left it = 8 * (rt_max_length it - rt_next_bitmap it) + (32 - rt_arg_index it mod 32)"

text \<open>What a round may do, compared with the iterator before it.\<close>

definition moved_on :: "bytes \<Rightarrow> rt_iter \<Rightarrow> rt_iter \<Rightarrow> bool" where
  "moved_on d it it1 \<longleftrightarrow> rt_inv d it1 \<and> rounds_left it1 < rounds_left it \<and> rt_max_length it1 = rt_max_length it"

definition field_inside :: "rt_iter \<Rightarrow> bool" where
  "field_inside it \<longleftrightarrow> rt_this_arg it + rt_this_arg_size it \<le> rt_max_length it"

fun safe_out :: "bytes \<Rightarrow> rt_iter \<Rightarrow> rt_out \<Rightarrow> bool" where
  "safe_out d it RtOverread \<longleftrightarrow> False"
| "safe_out d it RtUninit \<longleftrightarrow> True"
| "safe_out d it (RtReturn None it1) \<longleftrightarrow> moved_on d it it1 \<and> field_inside it1"
| "safe_out d it (RtReturn (Some e) it1) \<longleftrightarrow> e = ENOENT \<or> e = EINVAL"
| "safe_out d it (RtContinue it1) \<longleftrightarrow> moved_on d it it1"

lemma next_entry_moves:
  assumes "rt_inv d it" "rt_arg_index it1 = rt_arg_index it" "rt_shifter it1 = rt_shifter it"
    "rt_next_bitmap it1 = rt_next_bitmap it" "rt_max_length it1 = rt_max_length it"
    "rt_ns it1 \<noteq> NS_RADIOTAP \<longrightarrow> rt_next_ns_data it1 \<noteq> None" "rt_arg_index it mod 32 \<noteq> 31"
    and hit: "hit \<longrightarrow> field_inside it1"
  shows "safe_out d it (rt_next_entry hit it1)"
proof -
  let ?i = "rt_arg_index it mod 32"
  let ?it = "it1\<lparr>rt_shifter := drop_bit 1 (rt_shifter it1), rt_arg_index := rt_arg_index it1 + 1\<rparr>"
  have "?i < 32" by simp
  with assms(7) have i: "?i < 31" by linarith
  then have m: "(rt_arg_index it + 1) mod 32 = ?i + 1" by (simp add: mod_Suc)
  have "1 + (31 - (?i + 1)) = 31 - ?i" using i by simp
  then have b: "bit (drop_bit 1 s) (31 - (?i + 1)) = bit s (31 - ?i)" for s :: u32
    by (metis bit_drop_bit_eq comp_apply)
  have f: "rt_max_length ?it = rt_max_length it" "rt_shifter ?it = drop_bit 1 (rt_shifter it)"
    "rt_arg_index ?it = rt_arg_index it + 1" "rt_next_bitmap ?it = rt_next_bitmap it" "rt_ns ?it = rt_ns it1"
    "rt_next_ns_data ?it = rt_next_ns_data it1"
    using assms(2-5) by simp_all
  have "rt_inv d ?it" using assms(1,6) unfolding rt_inv_def f m b by blast
  moreover have "rounds_left ?it < rounds_left it" unfolding rounds_left_def f m using i by linarith
  moreover have "field_inside ?it = field_inside it1" by (simp add: field_inside_def)
  ultimately show ?thesis
    using assms(5) hit by (simp add: rt_next_entry_def Let_def moved_on_def)
qed

text \<open>The iterator between the start of a round and the assignment of the field.\<close>

definition in_round :: "bytes \<Rightarrow> rt_iter \<Rightarrow> rt_iter \<Rightarrow> bool" where
  "in_round d it it1 \<longleftrightarrow> rt_inv d it \<and> bit (rt_shifter it) 0 \<and> rt_arg_index it1 = rt_arg_index it \<and>
     rt_shifter it1 = rt_shifter it \<and> rt_next_bitmap it1 = rt_next_bitmap it \<and> rt_max_length it1 = rt_max_length it \<and>
     (rt_ns it1 \<noteq> NS_RADIOTAP \<longrightarrow> rt_next_ns_data it1 \<noteq> None)"

lemma take_field_safe: "in_round d it it1 \<Longrightarrow> safe_out d it (rt_take_field d sz it1)"
proof -
  assume r: "in_round d it it1"
  then have i: "rt_arg_index it1 = rt_arg_index it" by (simp add: in_round_def)
  let ?f = "it1\<lparr>rt_this_arg_index := rt_arg_index it1, rt_this_arg := rt_arg it1, rt_this_arg_size := sz,
    rt_arg := rt_arg it1 + sz\<rparr>"
  consider (long) "rt_max_length it1 < rt_arg it1 + sz" | (short) "rt_arg it1 + sz \<le> rt_max_length it1" "rt_arg_index it mod 32 \<noteq> 31"
    | (ext) "rt_arg it1 + sz \<le> rt_max_length it1" "rt_arg_index it mod 32 = 31" by linarith
  then show ?thesis
  proof cases
    case long
    then show ?thesis by (simp add: rt_take_field_def Let_def)
  next
    case short
    have "safe_out d it (rt_next_entry hit g)"
      if "g = ?f\<lparr>rt_reset_on_ext := True, rt_is_radiotap_ns := False, rt_this_arg_index := 30\<rparr> \<or>
        g = ?f\<lparr>rt_reset_on_ext := True, rt_ns := NS_RADIOTAP, rt_is_radiotap_ns := True\<rparr> \<or> g = ?f" for g hit
      using that short(1) r
      by (intro next_entry_moves [OF _ _ _ _ _ _ short(2)]) (elim disjE; simp add: in_round_def field_inside_def)+
    moreover have "\<not> rt_arg ?f > rt_max_length ?f" using short(1) by simp
    ultimately show ?thesis unfolding rt_take_field_def Let_def i by (simp only: short(2) if_False split: if_split) simp
  next
    case ext
    then have "bitmaps d (rt_max_length it) (rt_next_bitmap it)" "rt_max_length it \<le> length d"
      using r by (auto simp: in_round_def rt_inv_def)
    then obtain w where w: "rd_le32 d (rt_next_bitmap it) = Some w" "rt_next_bitmap it + 4 \<le> rt_max_length it"
      "bit w 31 \<Longrightarrow> bitmaps d (rt_max_length it) (rt_next_bitmap it + 4)"
      by (subst (asm) bitmaps.simps) (auto split: if_splits option.splits)
    let ?g = "?f\<lparr>rt_shifter := w, rt_next_bitmap := rt_next_bitmap it + 4,
        rt_arg_index := (if rt_reset_on_ext it1 then 0 else rt_arg_index it + 1), rt_reset_on_ext := False\<rparr>"
    have z: "rt_arg_index ?g mod 32 = 0" using ext(2) by (simp add: mod_Suc)
    have "rt_inv d ?g" unfolding rt_inv_def z using r w(3) by (auto simp: in_round_def rt_inv_def)
    moreover have "rounds_left ?g < rounds_left it"
      unfolding rounds_left_def z ext(2) using w(2) r by (simp add: in_round_def)
    moreover have "rt_take_field d sz it1 = RtContinue ?g"
      using ext r w(1) unfolding rt_take_field_def Let_def i by (simp add: in_round_def)
    ultimately show ?thesis using r by (simp add: moved_on_def in_round_def)
  qed
qed

lemma align_field_safe:
  assumes "rt_inv d it" "bit (rt_shifter it) 0" "rt_arg_index it mod 32 = 30 \<longrightarrow> sz = 6"
  shows "safe_out d it (rt_align_field d vns align sz it)"
proof -
  have len: "rt_max_length it \<le> length d" using assms(1) by (simp add: rt_inv_def)
  have r: "safe_out d it (rt_take_field d s (it\<lparr>rt_arg := a\<rparr>))"
    "safe_out d it (rt_take_field d s (it\<lparr>rt_arg := a, rt_ns := ns, rt_next_ns_data := Some p\<rparr>))" for a s ns p
    using assms(1,2) by (auto intro!: take_field_safe simp: in_round_def rt_inv_def)
  show ?thesis
  proof (cases "rt_arg_index it mod 32 = 30")
    case True
    with assms(3) len show ?thesis
      unfolding rt_align_field_def Let_def by (simp only: r if_True simp_thms split: if_split) simp
  next
    case False
    then show ?thesis unfolding rt_align_field_def Let_def by (simp only: r if_False)
  qed
qed

lemma skip_ns_safe:
  assumes "rt_inv d it" "rt_arg_index it mod 32 \<noteq> 31"
  shows "safe_out d it (rt_skip_ns it)"
  using assms by (auto simp: rt_skip_ns_def field_inside_def intro!: next_entry_moves split: option.split)

lemma step_safe: "rt_inv d it \<Longrightarrow> safe_out d it (rt_step d vns it)"
proof -
  assume inv: "rt_inv d it"
  consider (absent) "\<not> bit (rt_shifter it) 0" | (special) "bit (rt_shifter it) 0" "rt_arg_index it mod 32 \<in> {29, 30, 31}"
    | (plain) "bit (rt_shifter it) 0" "rt_arg_index it mod 32 \<notin> {29, 30, 31}" by blast
  then show ?thesis
  proof cases
    case absent
    then show ?thesis
      using inv next_entry_moves [OF inv refl refl refl refl _ _, of False] unfolding rt_step_def Let_def
      by (simp add: rt_inv_def)
  next
    case special
    then show ?thesis
      unfolding rt_step_def Let_def by (auto intro!: align_field_safe inv)
  next
    case plain
    then show ?thesis
      unfolding rt_step_def Let_def
      by (auto intro!: align_field_safe skip_ns_safe inv split: prod.split)
  qed
qed

section \<open>All rounds\<close>

lemma loop_safe:
  "rt_inv d it \<Longrightarrow> rounds_left it < fuel \<Longrightarrow>
   safe_out d it (rt_loop fuel d vns it) \<and> (\<forall>it1. rt_loop fuel d vns it \<noteq> RtContinue it1)"
proof (induction fuel arbitrary: it)
  case (Suc fuel)
  show ?case
  proof (cases "rt_step d vns it")
    case (RtContinue it1)
    then have m: "moved_on d it it1" using step_safe [OF Suc.prems(1), of vns] by simp
    then have inv1: "rt_inv d it1" and left: "rounds_left it1 < fuel"
      using Suc.prems(2) by (auto simp: moved_on_def)
    from Suc.IH [OF this] have ih: "safe_out d it1 (rt_loop fuel d vns it1)" "\<forall>it2. rt_loop fuel d vns it1 \<noteq> RtContinue it2"
      by simp_all
    have "safe_out d it (rt_loop fuel d vns it1)"
      using ih m by (cases "(d, it1, rt_loop fuel d vns it1)" rule: safe_out.cases) (auto simp: moved_on_def)
    then show ?thesis using RtContinue ih(2) by simp
  qed (use step_safe [OF Suc.prems(1), of vns] in auto)
qed simp

lemma enough_rounds: "rounds_left it < 8 * rt_max_length it + 33"
proof -
  have "8 * (rt_max_length it - rt_next_bitmap it) \<le> 8 * rt_max_length it" by simp
  then show ?thesis unfolding rounds_left_def by linarith
qed

lemma next_safe:
  assumes "rt_inv d it"
  shows "safe_out d it (ieee80211_radiotap_iterator_next d vns it)"
    "ieee80211_radiotap_iterator_next d vns it \<noteq> RtContinue it1"
  using loop_safe [OF assms enough_rounds] unfolding ieee80211_radiotap_iterator_next_def by blast+

lemma visit_safe:
  "rt_inv d it \<Longrightarrow> rounds_left it < n \<Longrightarrow> rt_visit n d vns it = (fs, out) \<Longrightarrow>
   (\<forall>(i, a, s) \<in> set fs. a + s \<le> rt_max_length it) \<and>
   (out = RtUninit \<or> (\<exists>it1. out = RtReturn (Some ENOENT) it1 \<or> out = RtReturn (Some EINVAL) it1))"
proof (induction n arbitrary: it fs)
  case (Suc n)
  note nx = next_safe [OF Suc.prems(1), of vns]
  show ?case
  proof (cases "ieee80211_radiotap_iterator_next d vns it")
    case (RtReturn e it1)
    show ?thesis
    proof (cases e)
      case None
      with RtReturn nx(1) have m: "moved_on d it it1" "field_inside it1" by simp_all
      then have inv: "rt_inv d it1" "rounds_left it1 < n" "rt_max_length it1 = rt_max_length it"
        using Suc.prems(2) by (auto simp: moved_on_def)
      obtain fs1 where v: "rt_visit n d vns it1 = (fs1, out)"
        "fs = (rt_this_arg_index it1, rt_this_arg it1, rt_this_arg_size it1) # fs1"
        using Suc.prems(3) RtReturn None by (auto split: prod.splits)
      from Suc.IH [OF inv(1,2) v(1)] m(2) inv(3) show ?thesis by (auto simp: v(2) field_inside_def)
    next
      case (Some x)
      have "out = RtReturn (Some x) it1" "fs = []" using Suc.prems(3) RtReturn Some by simp_all
      moreover have "x = ENOENT \<or> x = EINVAL" using nx(1) RtReturn Some by simp
      ultimately show ?thesis by auto
    qed
  qed (use nx Suc.prems in auto)
qed simp

lemma init_inv:
  assumes "0 \<le> n" "n \<le> int (length d)"
  shows "ieee80211_radiotap_iterator_init d n \<noteq> None"
    "ieee80211_radiotap_iterator_init d n = Some (Inr it) \<Longrightarrow> rt_inv d it"
proof -
  have "ieee80211_radiotap_iterator_init d n \<noteq> None \<and> (ieee80211_radiotap_iterator_init d n = Some (Inr it) \<longrightarrow> rt_inv d it)"
  proof (cases "n < 8")
    case False
    then have l: "\<not> length d < 8" using assms(2) by linarith
    then obtain L w where r: "rd_le16 d 2 = Some L" "rd_le32 d 4 = Some w" by (simp add: rd_le16_def rd_le32_def)
    show ?thesis
    proof (cases "n < int L")
      case False
      then have len: "L \<le> length d" using assms(2) by linarith
      show ?thesis
      proof (cases "bit w 31 \<and> \<not> L < 12")
        case True
        with skip_bitmaps_ok [OF len, of 8] obtain s where "skip_bitmaps d L 8 = Some s" "\<And>q. s = Inr q \<Longrightarrow> bitmaps d L 8" by auto
        with False True len l r assms(1) \<open>\<not> n < 8\<close> show ?thesis
          by (cases s) (auto simp: ieee80211_radiotap_iterator_init_def Let_def rt_inv_def)
      next
        case bitmap: False
        with False len l r assms(1) \<open>\<not> n < 8\<close> show ?thesis
          by (auto simp: ieee80211_radiotap_iterator_init_def Let_def rt_inv_def)
      qed
    qed (use l r in \<open>simp add: ieee80211_radiotap_iterator_init_def\<close>)
  qed (use assms(1) in \<open>simp add: ieee80211_radiotap_iterator_init_def\<close>)
  then show "ieee80211_radiotap_iterator_init d n \<noteq> None"
    "ieee80211_radiotap_iterator_init d n = Some (Inr it) \<Longrightarrow> rt_inv d it" by blast+
qed


section \<open>The fields of a plain header\<close>

lemma loop_fuel:
  "rt_inv d it \<Longrightarrow> rounds_left it < f \<Longrightarrow> rounds_left it < g \<Longrightarrow> rt_loop f d vns it = rt_loop g d vns it"
proof (induction f arbitrary: it g)
  case (Suc f)
  from Suc.prems(3) obtain h where g: "g = Suc h" by (cases g) auto
  show ?case
  proof (cases "rt_step d vns it")
    case (RtContinue it1)
    then have "moved_on d it it1" using step_safe [OF Suc.prems(1), of vns] by simp
    then have "rt_inv d it1" "rounds_left it1 < f" "rounds_left it1 < h"
      using Suc.prems(2,3) g by (auto simp: moved_on_def)
    from Suc.IH [OF this] show ?thesis by (simp add: g RtContinue)
  qed (simp_all add: g)
qed simp

text \<open>So a call is one round and the call after it.\<close>

lemma next_unfold:
  assumes "rt_inv d it"
  shows "ieee80211_radiotap_iterator_next d vns it =
    (case rt_step d vns it of RtContinue it1 \<Rightarrow> ieee80211_radiotap_iterator_next d vns it1 | out \<Rightarrow> out)"
proof (cases "rt_step d vns it")
  case (RtContinue it1)
  then have m: "moved_on d it it1" using step_safe [OF assms, of vns] by simp
  then have "rounds_left it1 < 8 * rt_max_length it + 32"
    using enough_rounds [of it] by (simp add: moved_on_def)
  then have "rt_loop (8 * rt_max_length it + 32) d vns it1 = ieee80211_radiotap_iterator_next d vns it1"
    unfolding ieee80211_radiotap_iterator_next_def using m by (intro loop_fuel enough_rounds) (auto simp: moved_on_def)
  moreover have "8 * rt_max_length it + 33 = Suc (8 * rt_max_length it + 32)" by simp
  ultimately show ?thesis unfolding ieee80211_radiotap_iterator_next_def by (simp only: rt_loop.simps RtContinue rt_out.case)
qed (simp_all add: ieee80211_radiotap_iterator_next_def numeral_eq_Suc)

text \<open>
  The layout of the documentation: the fields follow each other in the order of their bits, each at the next
  offset that its alignment divides.
\<close>

definition aligned :: "nat \<Rightarrow> nat \<Rightarrow> nat" where
  "aligned al a = (a + al - 1) div al * al"

fun field_layout :: "u32 \<Rightarrow> nat \<Rightarrow> nat list \<Rightarrow> (nat \<times> nat \<times> nat) list" where
  "field_layout w a [] = []"
| "field_layout w a (i # is) =
     (if bit w i
      then (let (al, s) = rtap_namespace_sizes ! i; p = aligned al a in (i, p, s) # field_layout w (p + s) is)
      else field_layout w a is)"

fun layout_end :: "nat \<Rightarrow> (nat \<times> nat \<times> nat) list \<Rightarrow> nat" where
  "layout_end a [] = a"
| "layout_end a ((i, p, s) # fs) = layout_end (p + s) fs"

lemma aligned_pad:
  assumes "al \<in> {1, 2, 4, 8}"
  shows "(if a AND (al - 1) \<noteq> 0 then a + (al - (a AND (al - 1))) else a) = aligned al a"
proof -
  obtain k where k: "al = 2 ^ k" using assms that [of 0] that [of 1] that [of 2] that [of 3] by auto
  have "al - 1 = mask k" by (simp add: k mask_eq_exp_minus_1)
  then have m: "a AND (al - 1) = a mod al" by (simp only: k take_bit_eq_mask [symmetric] take_bit_eq_mod)
  have pos: "0 < al" using assms by auto
  define q r where "q = a div al" and "r = a mod al"
  then have a: "a = q * al + r" and r: "r < al" using pos by simp_all
  show ?thesis
  proof (cases "r = 0")
    case True
    have "(al - 1 + q * al) div al = q" by (subst div_mult_self1) (use pos in simp_all)
    moreover have "a + al - 1 = al - 1 + q * al" using a True pos by simp
    ultimately have "aligned al a = q * al" by (simp only: aligned_def)
    moreover have "a = q * al" using a True by simp
    moreover have "a AND (al - 1) = 0" using m True r_def by simp
    ultimately show ?thesis by metis
  next
    case False
    have "(r - 1 + Suc q * al) div al = Suc q" by (subst div_mult_self1) (use pos r in simp_all)
    moreover have "a + al - 1 = r - 1 + Suc q * al" using a False pos by simp
    ultimately have "aligned al a = Suc q * al" by (simp only: aligned_def)
    moreover have "a + (al - r) = Suc q * al" using a r by simp
    moreover have "a AND (al - 1) = r" using m r_def by simp
    ultimately show ?thesis using False by metis
  qed
qed

lemma sizes_entry: "i < 22 \<Longrightarrow> i \<noteq> 18 \<Longrightarrow> fst (rtap_namespace_sizes ! i) \<in> {1, 2, 4, 8}"
proof -
  assume "i < 22" "i \<noteq> 18"
  then have "i \<in> set ([0..<18] @ [19, 20, 21])" by auto
  moreover have "\<forall>i \<in> set ([0..<18] @ [19, 20, 21]). fst (rtap_namespace_sizes ! i) \<in> {1, 2, 4, 8}"
    by (simp add: rtap_namespace_sizes_def upt_rec)
  ultimately show ?thesis by blast
qed

text \<open>A round at bit \<open>i\<close> of the only presence word.\<close>

definition at_bit :: "u32 \<Rightarrow> nat \<Rightarrow> rt_iter \<Rightarrow> bool" where
  "at_bit w i it \<longleftrightarrow> rt_arg_index it = i \<and> rt_shifter it = drop_bit i w \<and> rt_ns it = NS_RADIOTAP"

lemma aligned_ge: "al \<in> {1, 2, 4, 8} \<Longrightarrow> a \<le> aligned al a"
  using aligned_pad [of al a] by (auto split: if_splits)

lemma layout_ge:
  assumes "\<not> bit w 18" "\<And>i. 22 \<le> i \<Longrightarrow> \<not> bit w i"
  shows "a \<le> layout_end a (field_layout w a is)"
proof (induction "is" arbitrary: a)
  case (Cons i js)
  have "a \<le> aligned (fst (rtap_namespace_sizes ! i)) a" if "bit w i"
    using assms that sizes_entry by (intro aligned_ge) (metis not_le)
  then show ?case
    by (auto simp: Let_def split: prod.splits intro!: order_trans [OF _ Cons.IH] trans_le_add1)
      (use Cons.IH in blast)?
qed simp

lemma round_absent:
  assumes "at_bit w i it" "\<not> bit w i" "i \<noteq> 31" "i < 32"
  shows "\<exists>it1. rt_step d vns it = RtContinue it1 \<and> at_bit w (i + 1) it1 \<and> rt_arg it1 = rt_arg it"
  using assms by (auto simp: rt_step_def at_bit_def Let_def rt_next_entry_def bit_drop_bit_eq drop_bit_drop_bit add.commute)

lemma round_present:
  assumes "at_bit w i it" "bit w i" "i < 22" "i \<noteq> 18" "rtap_namespace_sizes ! i = (al, s)"
    "aligned al (rt_arg it) + s \<le> rt_max_length it"
  shows "\<exists>it1. rt_step d vns it = RtReturn None it1 \<and> at_bit w (i + 1) it1 \<and> rt_arg it1 = aligned al (rt_arg it) + s \<and>
    rt_this_arg_index it1 = i \<and> rt_this_arg it1 = aligned al (rt_arg it) \<and> rt_this_arg_size it1 = s"
proof -
  have al: "al \<in> {1, 2, 4, 8}" using sizes_entry [OF assms(3,4)] assms(5) by simp
  have "rt_step d vns it = rt_align_field d vns al s it"
    using assms(1-5) al by (auto simp: rt_step_def at_bit_def Let_def bit_drop_bit_eq rtap_namespace_sizes_def)
  also have "\<dots> = rt_take_field d s (it\<lparr>rt_arg := aligned al (rt_arg it)\<rparr>)"
    using assms(1,3) unfolding rt_align_field_def Let_def aligned_pad [OF al] by (simp add: at_bit_def)
  also have "\<dots> = rt_next_entry True (it\<lparr>rt_this_arg_index := i, rt_this_arg := aligned al (rt_arg it), rt_this_arg_size := s,
      rt_arg := aligned al (rt_arg it) + s\<rparr>)"
    using assms(1,3,6) unfolding rt_take_field_def Let_def by (simp add: at_bit_def)
  finally show ?thesis
    using assms(1) by (simp add: rt_next_entry_def Let_def at_bit_def drop_bit_drop_bit add.commute)
qed

text \<open>From bit \<open>i\<close> on, a visit yields the layout of the bits that are left.\<close>

lemma visit_layout:
  assumes w: "\<not> bit w 18" "\<And>i. 22 \<le> i \<Longrightarrow> \<not> bit w i"
  shows "rt_inv d it \<Longrightarrow> at_bit w i it \<Longrightarrow> i \<le> 31 \<Longrightarrow> rounds_left it < n \<Longrightarrow>
    layout_end (rt_arg it) (field_layout w (rt_arg it) [i..<22]) \<le> rt_max_length it \<Longrightarrow>
    \<exists>it1. rt_visit n d vns it = (field_layout w (rt_arg it) [i..<22], RtReturn (Some ENOENT) it1)"
proof (induction "31 - i" arbitrary: i it n)
  case 0
  then have i: "i = 31" by simp
  with 0 w(2) [of 31] have "rt_step d vns it = RtReturn (Some ENOENT) it"
    by (simp add: rt_step_def at_bit_def bit_drop_bit_eq)
  then have "ieee80211_radiotap_iterator_next d vns it = RtReturn (Some ENOENT) it"
    using next_unfold [OF 0(2)] by simp
  moreover from 0 obtain m where "n = Suc m" by (cases n) auto
  ultimately show ?case by (simp add: i)
next
  case (Suc k)
  from Suc.prems(4) obtain m where n: "n = Suc m" by (cases n) auto
  have i: "i < 31" "k = 31 - (i + 1)" using Suc.hyps(2) by simp_all
  show ?case
  proof (cases "bit w i")
    case False
    then obtain it1 where s: "rt_step d vns it = RtContinue it1" "at_bit w (i + 1) it1" "rt_arg it1 = rt_arg it"
      using round_absent [OF Suc.prems(2)] i by fastforce
    with step_safe [OF Suc.prems(1), of vns] have m: "moved_on d it it1" by simp
    have lay: "field_layout w a [i..<22] = field_layout w a [i + 1..<22]" for a
      using False by (cases "i < 22") (simp_all add: upt_rec)
    have "rt_visit n d vns it = rt_visit n d vns it1"
      by (simp add: n next_unfold [OF Suc.prems(1), of vns] s(1))
    moreover have "\<exists>it2. rt_visit n d vns it1 = (field_layout w (rt_arg it1) [i + 1..<22], RtReturn (Some ENOENT) it2)"
      using m Suc.prems i s(3) lay by (intro Suc.hyps(1) [OF i(2) _ s(2)]) (auto simp: moved_on_def)
    ultimately show ?thesis by (simp add: lay s(3))
  next
    case True
    then have i22: "i < 22" "i \<noteq> 18" using w by (metis not_le, metis)
    obtain al sz where e: "rtap_namespace_sizes ! i = (al, sz)" by fastforce
    let ?p = "aligned al (rt_arg it)"
    have lay: "field_layout w (rt_arg it) [i..<22] = (i, ?p, sz) # field_layout w (?p + sz) [i + 1..<22]"
      using True i22 by (subst upt_rec) (simp add: e Let_def)
    let ?rest = "field_layout w (?p + sz) [i + 1..<22]"
    have le: "layout_end (?p + sz) ?rest \<le> rt_max_length it" using Suc.prems(5) by (simp add: lay)
    then have "?p + sz \<le> rt_max_length it" using layout_ge [OF w, of "?p + sz" "[i + 1..<22]"] by (rule order_trans [rotated])
    from round_present [OF Suc.prems(2) True i22 e this] obtain it1
      where s: "rt_step d vns it = RtReturn None it1" "at_bit w (i + 1) it1" "rt_arg it1 = ?p + sz"
        "rt_this_arg_index it1 = i" "rt_this_arg it1 = ?p" "rt_this_arg_size it1 = sz" by blast
    with step_safe [OF Suc.prems(1), of vns] have mv: "moved_on d it it1" by simp
    have "\<exists>it2. rt_visit m d vns it1 = (field_layout w (rt_arg it1) [i + 1..<22], RtReturn (Some ENOENT) it2)"
      using mv Suc.prems(4) i s(3) le n by (intro Suc.hyps(1) [OF i(2) _ s(2)]) (auto simp: moved_on_def)
    then show ?thesis
      by (auto simp: n next_unfold [OF Suc.prems(1), of vns] s lay)
  qed
qed

text \<open>
  Property C35: for a header with one presence word of known fields, the visit hands out exactly the fields
  whose bits are set, in the order of the bits, at the offsets and with the sizes of the documented layout,
  and ends with \<open>ENOENT\<close>.
\<close>

theorem radiotap_visits_layout:
  assumes init: "ieee80211_radiotap_iterator_init d n = Some (Inr it)" and n: "0 \<le> n" "n \<le> int (length d)"
    and w: "rd_le32 d 4 = Some w" "\<not> bit w 18" "\<And>i. 22 \<le> i \<Longrightarrow> \<not> bit w i"
    and fits: "layout_end 8 (field_layout w 8 [0..<22]) \<le> rt_max_length it"
  shows "\<exists>it1. rt_visit (8 * rt_max_length it + 33) d vns it = (field_layout w 8 [0..<22], RtReturn (Some ENOENT) it1)"
proof -
  have "at_bit w 0 it \<and> rt_arg it = 8"
    using init w(1,3) by (auto simp: ieee80211_radiotap_iterator_init_def at_bit_def Let_def split: if_splits option.splits)
  then show ?thesis
    using visit_layout [OF w(2,3) init_inv(2) [OF n init], of 0] enough_rounds fits by simp
qed

definition demo_header :: bytes where
  "demo_header = [0, 0, 26, 0, 0x0f, 0, 0, 0, 1, 2, 3, 4, 5, 6, 7, 8, 9, 10, 0, 0, 0, 0, 0, 0, 0, 0]"

lemma demo_init: "\<exists>it. ieee80211_radiotap_iterator_init demo_header 26 = Some (Inr it) \<and> rt_max_length it = 26"
  by (simp add: demo_header_def ieee80211_radiotap_iterator_init_def rd_le16_def rd_le32_def Let_def)

lemma bit_15: "bit (0xf :: u32) i \<longleftrightarrow> i < 4"
proof -
  have "(0xf :: u32) = mask 4" by (simp add: mask_eq_exp_minus_1)
  then show ?thesis by (simp only: bit_mask_iff) auto
qed

theorem radiotap_visits_layout_witness:
  "\<exists>it it1. ieee80211_radiotap_iterator_init demo_header 26 = Some (Inr it) \<and>
     rt_visit (8 * 26 + 33) demo_header [] it = ([(0, 8, 8), (1, 16, 1), (2, 17, 1), (3, 18, 4)], RtReturn (Some ENOENT) it1)"
proof -
  from demo_init obtain it where it: "ieee80211_radiotap_iterator_init demo_header 26 = Some (Inr it)" "rt_max_length it = 26"
    by blast
  have w: "rd_le32 demo_header 4 = Some 0xf" by (simp add: demo_header_def rd_le32_def)
  have f: "field_layout 0xf 8 [0..<22] = [(0, 8, 8), (1, 16, 1), (2, 17, 1), (3, 18, 4)]"
    by (simp add: upt_rec bit_15 rtap_namespace_sizes_def aligned_def del: bit_numeral_iff)
  have b: "\<not> bit (0xf :: u32) 18" "\<And>i. 22 \<le> i \<Longrightarrow> \<not> bit (0xf :: u32) i" by (simp_all only: bit_15)
  have "\<exists>it1. rt_visit (8 * rt_max_length it + 33) demo_header [] it = (field_layout 0xf 8 [0..<22], RtReturn (Some ENOENT) it1)"
    by (rule radiotap_visits_layout [OF it(1) _ _ w b]) (simp_all add: demo_header_def f it(2))
  with it show ?thesis unfolding f by auto
qed


section \<open>The entry that is missing\<close>

text \<open>Bit 18 in the first presence word makes the code follow a pointer that nothing assigned.\<close>

theorem radiotap_follows_unset_pointer:
  "\<exists>it. ieee80211_radiotap_iterator_init [0, 0, 8, 0, 0, 0, 4, 0] 8 = Some (Inr it) \<and>
     ieee80211_radiotap_iterator_next [0, 0, 8, 0, 0, 0, 4, 0] vns it = RtUninit"
proof -
  have n: "rt_loop (numeral k) d vns it = (case rt_step d vns it of RtContinue it1 \<Rightarrow> rt_loop (pred_numeral k) d vns it1 | out \<Rightarrow> out)"
    for k d it by (simp add: numeral_eq_Suc)
  show ?thesis
    by (simp add: ieee80211_radiotap_iterator_init_def rd_le16_def rd_le32_def Let_def
        ieee80211_radiotap_iterator_next_def n rt_step_def rt_next_entry_def rt_skip_ns_def rtap_namespace_sizes_def)
qed

end
