(* ===== verification/Nlattr.thy ===== *)
theory Nlattr
  imports Crc32
begin

unbundle bit_operations_syntax

text \<open>
  Model of netlink attributes, \<open>lib/nlattr.c\<close> with the helpers of \<open>include/net/netlink.h\<close>: the stream of
  attributes of a message, its validation against a policy, the table of parsed attributes, and the
  functions that write attributes into a socket buffer.

  A stream is a list of bytes. The result \<open>None\<close> is a read outside of an attribute or of an array of policies.
  The extended error report is not modelled.
\<close>

section \<open>Attributes\<close>

text \<open>Position in the stream, the type field with its flags, and the payload.\<close>

record nlattr =
  nla_pos :: nat
  nla_ftype :: u16
  nla_payload :: bytes

definition NLA_F_NESTED :: u16 where "NLA_F_NESTED = 0x8000"
definition NLA_F_NET_BYTEORDER :: u16 where "NLA_F_NET_BYTEORDER = 0x4000"

definition NLA_ALIGN :: "nat \<Rightarrow> nat" where "NLA_ALIGN n = (n + 3) div 4 * 4"

definition nla_type :: "nlattr \<Rightarrow> nat" where
  "nla_type a = unat (nla_ftype a AND NOT (NLA_F_NESTED OR NLA_F_NET_BYTEORDER))"

abbreviation nla_len :: "nlattr \<Rightarrow> nat" where "nla_len a \<equiv> length (nla_payload a)"

definition nla_attr_size :: "nat \<Rightarrow> nat" where "nla_attr_size n = 4 + n"
definition nla_total_size :: "nat \<Rightarrow> nat" where "nla_total_size n = NLA_ALIGN (nla_attr_size n)"
definition nla_padlen :: "nat \<Rightarrow> nat" where "nla_padlen n = nla_total_size n - nla_attr_size n"

definition u16_at :: "bytes \<Rightarrow> nat \<Rightarrow> u16" where
  "u16_at d p = ucast (d ! p) OR push_bit 8 (ucast (d ! (p + 1)))"

definition u16_bytes :: "u16 \<Rightarrow> bytes" where
  "u16_bytes w = [ucast w, ucast (drop_bit 8 w)]"

text \<open>Whether the attribute at the start of the remaining bytes fits into them.\<close>

definition nla_ok :: "bytes \<Rightarrow> bool" where
  "nla_ok d \<longleftrightarrow> 4 \<le> length d \<and> 4 \<le> unat (u16_at d 0) \<and> unat (u16_at d 0) \<le> length d"

text \<open>The attributes of \<open>nla_for_each_attr\<close>, and the number of bytes that remain, which may be negative.\<close>

function nla_stream :: "nat \<Rightarrow> bytes \<Rightarrow> nlattr list \<times> int" where
  "nla_stream p d =
     (if nla_ok d
      then (let l = unat (u16_at d 0);
                tot = NLA_ALIGN l;
                a = \<lparr>nla_pos = p, nla_ftype = u16_at d 2, nla_payload = take (l - 4) (drop 4 d)\<rparr>
            in if length d \<le> tot then ([a], int (length d) - int tot)
               else (let (as, rem) = nla_stream (p + tot) (drop tot d) in (a # as, rem)))
      else ([], int (length d)))"
  by pat_completeness auto
termination
  by (relation "measure (\<lambda>(p, d). length d)") (auto simp: nla_ok_def NLA_ALIGN_def)

declare nla_stream.simps [simp del]

section \<open>Policies\<close>

datatype nla_kind =
    NLA_UNSPEC | NLA_U8 | NLA_U16 | NLA_U32 | NLA_U64 | NLA_STRING | NLA_FLAG | NLA_MSECS | NLA_NESTED
  | NLA_NESTED_ARRAY | NLA_NUL_STRING | NLA_BINARY | NLA_S8 | NLA_S16 | NLA_S32 | NLA_S64 | NLA_BITFIELD32
  | NLA_REJECT | NLA_EXACT_LEN | NLA_EXACT_LEN_WARN | NLA_MIN_LEN

datatype nla_policy_validation =
    NLA_VALIDATE_NONE | NLA_VALIDATE_RANGE | NLA_VALIDATE_MIN | NLA_VALIDATE_MAX | NLA_VALIDATE_FUNCTION

text \<open>
  The union of a policy: a nested policy, the valid flags of a bit field, a message, the limits of an integer,
  a function, or the first type that is checked strictly (of entry 0). Every entry uses one member of it.
\<close>

datatype nla_policy = Nla_policy (pol_type: nla_kind) (pol_validation: nla_policy_validation) (pol_len: nat)
    (pol_data: pol_data)
  and pol_data = PD_none | PD_policy "nla_policy list" | PD_flags u32 | PD_message | PD_range int int
    | PD_validate "bytes \<Rightarrow> errno option" | PD_start nat

definition strict_start_type :: "nla_policy \<Rightarrow> nat" where
  "strict_start_type p = (case pol_data p of PD_start n \<Rightarrow> n | _ \<Rightarrow> 0)"

definition nla_attr_len :: "nla_kind \<Rightarrow> nat" where
  "nla_attr_len k = (case k of NLA_U8 \<Rightarrow> 1 | NLA_U16 \<Rightarrow> 2 | NLA_U32 \<Rightarrow> 4 | NLA_U64 \<Rightarrow> 8
     | NLA_S8 \<Rightarrow> 1 | NLA_S16 \<Rightarrow> 2 | NLA_S32 \<Rightarrow> 4 | NLA_S64 \<Rightarrow> 8 | _ \<Rightarrow> 0)"

definition nla_attr_minlen :: "nla_kind \<Rightarrow> nat" where
  "nla_attr_minlen k = (case k of NLA_U8 \<Rightarrow> 1 | NLA_U16 \<Rightarrow> 2 | NLA_U32 \<Rightarrow> 4 | NLA_U64 \<Rightarrow> 8 | NLA_MSECS \<Rightarrow> 8
     | NLA_NESTED \<Rightarrow> 4 | NLA_S8 \<Rightarrow> 1 | NLA_S16 \<Rightarrow> 2 | NLA_S32 \<Rightarrow> 4 | NLA_S64 \<Rightarrow> 8 | _ \<Rightarrow> 0)"

definition NL_VALIDATE_TRAILING :: u32 where "NL_VALIDATE_TRAILING = 1"
definition NL_VALIDATE_MAXTYPE :: u32 where "NL_VALIDATE_MAXTYPE = 2"
definition NL_VALIDATE_UNSPEC :: u32 where "NL_VALIDATE_UNSPEC = 4"
definition NL_VALIDATE_STRICT_ATTRS :: u32 where "NL_VALIDATE_STRICT_ATTRS = 8"
definition NL_VALIDATE_NESTED :: u32 where "NL_VALIDATE_NESTED = 16"
definition NL_VALIDATE_STRICT :: u32 where
  "NL_VALIDATE_STRICT = NL_VALIDATE_TRAILING OR NL_VALIDATE_MAXTYPE OR NL_VALIDATE_UNSPEC OR
     NL_VALIDATE_STRICT_ATTRS OR NL_VALIDATE_NESTED"

definition nl_flag :: "u32 \<Rightarrow> u32 \<Rightarrow> bool" where "nl_flag v f \<longleftrightarrow> v AND f \<noteq> 0"

section \<open>Values\<close>

text \<open>\<open>nla_get_u8\<close> and the others: an unsigned or signed integer of \<open>n\<close> bytes, little-endian as the machine.\<close>

fun le_nat :: "bytes \<Rightarrow> nat" where
  "le_nat [] = 0"
| "le_nat (b # bs) = unat b + 256 * le_nat bs"

definition nla_get_u :: "nat \<Rightarrow> bytes \<Rightarrow> int option" where
  "nla_get_u n d = (if n \<le> length d then Some (int (le_nat (take n d))) else None)"

definition nla_get_s :: "nat \<Rightarrow> bytes \<Rightarrow> int option" where
  "nla_get_s n d = map_option (\<lambda>x. if x < 2 ^ (8 * n - 1) then x else x - 2 ^ (8 * n)) (nla_get_u n d)"

definition validate_nla_bitfield32 :: "bytes \<Rightarrow> u32 option \<Rightarrow> errno option option" where
  "validate_nla_bitfield32 d valid =
     (case valid of
        None \<Rightarrow> Some (Some EINVAL)
      | Some m \<Rightarrow>
          if length d < 8 then None
          else (let bf_value = le32 (take 4 d); selector = le32 (take 4 (drop 4 d))
                in if selector AND NOT m \<noteq> 0 then Some (Some EINVAL)
                   else if bf_value AND NOT m \<noteq> 0 then Some (Some EINVAL)
                   else if bf_value AND NOT selector \<noteq> 0 then Some (Some EINVAL)
                   else Some None))"

text \<open>A value of 64 bits without a sign is compared with the limits converted to the same type.\<close>

definition nla_validate_int_range :: "nla_policy \<Rightarrow> bytes \<Rightarrow> errno option option" where
  "nla_validate_int_range pt d =
     (let lo = pol_validation pt \<in> {NLA_VALIDATE_RANGE, NLA_VALIDATE_MIN};
          hi = pol_validation pt \<in> {NLA_VALIDATE_RANGE, NLA_VALIDATE_MAX};
          (mn, mx) = (case pol_data pt of PD_range a b \<Rightarrow> (a, b) | _ \<Rightarrow> (0, 0));
          check = (\<lambda>v a b. Some (if lo \<and> v < a \<or> hi \<and> v > b then Some ERANGE else None));
          value = (case pol_type pt of
             NLA_U8 \<Rightarrow> nla_get_u 1 d | NLA_U16 \<Rightarrow> nla_get_u 2 d | NLA_U32 \<Rightarrow> nla_get_u 4 d | NLA_U64 \<Rightarrow> nla_get_u 8 d
           | NLA_S8 \<Rightarrow> nla_get_s 1 d | NLA_S16 \<Rightarrow> nla_get_s 2 d | NLA_S32 \<Rightarrow> nla_get_s 4 d | _ \<Rightarrow> nla_get_s 8 d)
      in if pol_type pt \<notin> {NLA_U8, NLA_U16, NLA_U32, NLA_U64, NLA_S8, NLA_S16, NLA_S32, NLA_S64}
         then Some (Some EINVAL)
         else (case value of
                 None \<Rightarrow> None
               | Some v \<Rightarrow> if pol_type pt = NLA_U64 then check v (mn mod 2 ^ 64) (mx mod 2 ^ 64) else check v mn mx))"

section \<open>Validation\<close>

text \<open>The loops that stop at the first error.\<close>

fun first_err :: "('a \<Rightarrow> errno option option) \<Rightarrow> 'a list \<Rightarrow> errno option option" where
  "first_err f [] = Some None"
| "first_err f (x # xs) =
     (case f x of None \<Rightarrow> None | Some (Some e) \<Rightarrow> Some (Some e) | Some None \<Rightarrow> first_err f xs)"

lemma first_err_cong [fundef_cong]:
  "xs = ys \<Longrightarrow> (\<And>x. x \<in> set ys \<Longrightarrow> f x = g x) \<Longrightarrow> first_err f xs = first_err g ys"
  by (induction xs arbitrary: ys) (auto split: option.split)

text \<open>
  \<open>nested v m p d\<close> is \<open>__nla_validate\<close> with the flags \<open>v\<close>, the largest type \<open>m\<close> and the policy \<open>p\<close>, to which the
  functions below are mutually recursive.
\<close>

type_synonym nla_validator = "u32 \<Rightarrow> nat \<Rightarrow> nla_policy list \<Rightarrow> bytes \<Rightarrow> errno option option"

definition nla_validate_array :: "nla_validator \<Rightarrow> bytes \<Rightarrow> nat \<Rightarrow> nla_policy list \<Rightarrow> u32 \<Rightarrow> errno option option" where
  "nla_validate_array nested d maxtype policy validate =
     first_err (\<lambda>entry.
         if nla_len entry = 0 then Some None
         else if nla_len entry < 4 then Some (Some ERANGE)
         else nested validate maxtype policy (nla_payload entry))
       (fst (nla_stream 0 d))"

text \<open>The switch over the type, with the policies that lead to the error \<open>err\<close>.\<close>

definition validate_nla_kind :: "nla_validator \<Rightarrow> nlattr \<Rightarrow> nla_policy \<Rightarrow> u32 \<Rightarrow> errno option option" where
  "validate_nla_kind nested nla pt validate =
     (let attrlen = nla_len nla;
          d = nla_payload nla;
          err = (\<lambda>b. Some (if b then Some ERANGE else None));
          is_string = (if attrlen < 1 then Some (Some ERANGE)
            else if pol_len pt \<noteq> 0
            then err ((if d ! (attrlen - 1) = 0 then attrlen - 1 else attrlen) > pol_len pt)
            else Some None)
      in case pol_type pt of
           NLA_EXACT_LEN \<Rightarrow> err (attrlen \<noteq> pol_len pt)
         | NLA_REJECT \<Rightarrow> Some (Some EINVAL)
         | NLA_FLAG \<Rightarrow> err (attrlen > 0)
         | NLA_BITFIELD32 \<Rightarrow>
             if attrlen \<noteq> 8 then Some (Some ERANGE)
             else validate_nla_bitfield32 d (case pol_data pt of PD_flags m \<Rightarrow> Some m | _ \<Rightarrow> None)
         | NLA_NUL_STRING \<Rightarrow>
             (let minlen = (if pol_len pt \<noteq> 0 then min attrlen (pol_len pt + 1) else attrlen)
              in if minlen = 0 \<or> 0 \<notin> set (take minlen d) then Some (Some EINVAL) else is_string)
         | NLA_STRING \<Rightarrow> is_string
         | NLA_BINARY \<Rightarrow> err (pol_len pt \<noteq> 0 \<and> attrlen > pol_len pt)
         | NLA_NESTED \<Rightarrow>
             if attrlen = 0 then Some None
             else if attrlen < 4 then Some (Some ERANGE)
             else (case pol_data pt of PD_policy p \<Rightarrow> nested validate (pol_len pt) p d | _ \<Rightarrow> Some None)
         | NLA_NESTED_ARRAY \<Rightarrow>
             if attrlen = 0 then Some None
             else if attrlen < 4 then Some (Some ERANGE)
             else (case pol_data pt of
                     PD_policy p \<Rightarrow> nla_validate_array nested d (pol_len pt) p validate | _ \<Rightarrow> Some None)
         | NLA_UNSPEC \<Rightarrow>
             if nl_flag validate NL_VALIDATE_UNSPEC then Some (Some EINVAL) else err (attrlen < pol_len pt)
         | NLA_MIN_LEN \<Rightarrow> err (attrlen < pol_len pt)
         | k \<Rightarrow> err (attrlen < (if pol_len pt \<noteq> 0 then pol_len pt else nla_attr_minlen k)))"

definition validate_nla_further :: "nla_policy \<Rightarrow> bytes \<Rightarrow> errno option option" where
  "validate_nla_further pt d =
     (case pol_validation pt of
        NLA_VALIDATE_NONE \<Rightarrow> Some None
      | NLA_VALIDATE_FUNCTION \<Rightarrow> (case pol_data pt of PD_validate f \<Rightarrow> Some (f d) | _ \<Rightarrow> Some None)
      | _ \<Rightarrow> nla_validate_int_range pt d)"

definition validate_nla ::
  "nla_validator \<Rightarrow> nlattr \<Rightarrow> nat \<Rightarrow> nla_policy list \<Rightarrow> u32 \<Rightarrow> errno option option" where
  "validate_nla nested nla maxtype policy validate0 =
     (if policy = [] then None
      else (let start = strict_start_type (policy ! 0);
                type = nla_type nla;
                attrlen = nla_len nla;
                validate = (if start \<noteq> 0 \<and> type \<ge> start then validate0 OR NL_VALIDATE_STRICT else validate0)
            in if type = 0 \<or> type > maxtype then Some None
               else if length policy \<le> type then None
               else (let pt = policy ! type;
                         k = pol_type pt;
                         is_nested = (nla_ftype nla AND NLA_F_NESTED \<noteq> 0)
                     in if (nla_attr_len k \<noteq> 0 \<and> attrlen \<noteq> nla_attr_len k \<or> k = NLA_EXACT_LEN_WARN \<and> attrlen \<noteq> pol_len pt) \<and>
                           nl_flag validate NL_VALIDATE_STRICT_ATTRS
                        then Some (Some EINVAL)
                        else if nl_flag validate NL_VALIDATE_NESTED \<and> (k = NLA_NESTED \<or> k = NLA_NESTED_ARRAY) \<and> \<not> is_nested
                        then Some (Some EINVAL)
                        else if nl_flag validate NL_VALIDATE_NESTED \<and> k \<noteq> NLA_NESTED \<and> k \<noteq> NLA_NESTED_ARRAY \<and>
                          k \<noteq> NLA_UNSPEC \<and> is_nested
                        then Some (Some EINVAL)
                        else (case validate_nla_kind nested nla pt validate of
                                Some None \<Rightarrow> validate_nla_further pt (nla_payload nla)
                              | r \<Rightarrow> r))))"

text \<open>The loop over a stream, with the table of the attributes stored so far, and what follows it.\<close>

fun nla_parse_loop ::
  "nla_validator \<Rightarrow> nat \<Rightarrow> nla_policy list option \<Rightarrow> u32 \<Rightarrow> nlattr list \<Rightarrow> (nat \<rightharpoonup> nlattr) \<Rightarrow>
   (errno option \<times> (nat \<rightharpoonup> nlattr)) option" where
  "nla_parse_loop nested maxtype policy validate [] tb = Some (None, tb)"
| "nla_parse_loop nested maxtype policy validate (nla # attrs) tb =
     (let type = nla_type nla in
      if type = 0 \<or> type > maxtype
      then (if nl_flag validate NL_VALIDATE_MAXTYPE then Some (Some EINVAL, tb)
            else nla_parse_loop nested maxtype policy validate attrs tb)
      else (case (case policy of None \<Rightarrow> Some None | Some p \<Rightarrow> validate_nla nested nla maxtype p validate) of
              None \<Rightarrow> None
            | Some (Some e) \<Rightarrow> Some (Some e, tb)
            | Some None \<Rightarrow> nla_parse_loop nested maxtype policy validate attrs (tb(type \<mapsto> nla))))"

definition nla_validate_parse ::
  "nla_validator \<Rightarrow> bytes \<Rightarrow> nat \<Rightarrow> nla_policy list option \<Rightarrow> u32 \<Rightarrow> (errno option \<times> (nat \<rightharpoonup> nlattr)) option" where
  "nla_validate_parse nested d maxtype policy validate =
     (let (attrs, rem) = nla_stream 0 d
      in case nla_parse_loop nested maxtype policy validate attrs Map.empty of
           None \<Rightarrow> None
         | Some (Some e, tb) \<Rightarrow> Some (Some e, tb)
         | Some (None, tb) \<Rightarrow>
             if rem > 0 \<and> nl_flag validate NL_VALIDATE_TRAILING then Some (Some EINVAL, tb) else Some (None, tb))"

text \<open>Payloads are shorter than the stream they are in, so that the recursion ends.\<close>

definition nla_head :: "nat \<Rightarrow> bytes \<Rightarrow> nlattr" where
  "nla_head p d = \<lparr>nla_pos = p, nla_ftype = u16_at d 2, nla_payload = take (unat (u16_at d 0) - 4) (drop 4 d)\<rparr>"

lemma stream_fst:
  "fst (nla_stream p d) =
     (if nla_ok d
      then nla_head p d # fst (nla_stream (p + NLA_ALIGN (unat (u16_at d 0))) (drop (NLA_ALIGN (unat (u16_at d 0))) d))
      else [])"
proof -
  have "\<not> nla_ok []" by (simp add: nla_ok_def)
  then have "fst (nla_stream q []) = []" for q by (subst nla_stream.simps) simp
  then show ?thesis
    by (subst nla_stream.simps) (auto simp: Let_def nla_head_def split: prod.split)
qed

lemma stream_payload: "a \<in> set (fst (nla_stream p d)) \<Longrightarrow> nla_len a + 4 \<le> length d"
proof (induction "length d" arbitrary: p d rule: less_induct)
  case less
  let ?tot = "NLA_ALIGN (unat (u16_at d 0))"
  have ok: "nla_ok d" using less.prems by (subst (asm) stream_fst) (auto split: if_splits)
  then have small: "length (drop ?tot d) < length d" by (auto simp: nla_ok_def NLA_ALIGN_def)
  consider "a = nla_head p d" | "a \<in> set (fst (nla_stream (p + ?tot) (drop ?tot d)))"
    using less.prems ok by (subst (asm) stream_fst) auto
  then show ?case
  proof cases
    case 1
    then show ?thesis using ok by (simp add: nla_head_def nla_ok_def min_def)
  next
    case 2
    then show ?thesis using less.hyps [OF small 2] small by linarith
  qed
qed

lemma validate_array_cong:
  assumes "\<And>b. length b < length d \<Longrightarrow> f v m p b = g v m p b"
  shows "nla_validate_array f d m p v = nla_validate_array g d m p v"
proof -
  have "nla_len a < length d" if "a \<in> set (fst (nla_stream 0 d))" for a using stream_payload [OF that] by simp
  then show ?thesis unfolding nla_validate_array_def by (intro first_err_cong refl) (simp add: assms)
qed

lemma validate_nla_cong:
  assumes "\<And>v m p b. length b \<le> nla_len a \<Longrightarrow> f v m p b = g v m p b"
  shows "validate_nla f a m p v = validate_nla g a m p v"
proof -
  have "validate_nla_kind f a pt w = validate_nla_kind g a pt w" for pt w
  proof -
    have n: "f v m p (nla_payload a) = g v m p (nla_payload a)" for v m p by (rule assms) simp
    have ar: "nla_validate_array f (nla_payload a) m p v = nla_validate_array g (nla_payload a) m p v" for m p v
      by (rule validate_array_cong) (use assms in simp)
    show ?thesis by (simp only: validate_nla_kind_def Let_def n ar)
  qed
  then show ?thesis by (simp only: validate_nla_def)
qed

lemma parse_loop_cong:
  "(\<And>a v m p b. a \<in> set attrs \<Longrightarrow> length b \<le> nla_len a \<Longrightarrow> f v m p b = g v m p b) \<Longrightarrow>
   nla_parse_loop f m p v attrs tb = nla_parse_loop g m p v attrs tb"
proof (induction attrs arbitrary: tb)
  case (Cons a attrs)
  have "validate_nla f a m q v = validate_nla g a m q v" for q
    by (rule validate_nla_cong) (rule Cons.prems [of a], simp_all)
  moreover have "nla_parse_loop f m p v attrs tb = nla_parse_loop g m p v attrs tb" for tb
    by (rule Cons.IH) (rule Cons.prems, auto)
  ultimately show ?case by (simp only: nla_parse_loop.simps)
qed simp

lemma validate_parse_cong [fundef_cong]:
  assumes "d = d'" "m = m'" "p = p'" "v = v'" "\<And>v m p b. length b < length d' \<Longrightarrow> f v m p b = g v m p b"
  shows "nla_validate_parse f d m p v = nla_validate_parse g d' m' p' v'"
proof -
  have "nla_parse_loop f m p v (fst (nla_stream 0 d)) tb = nla_parse_loop g m p v (fst (nla_stream 0 d)) tb" for tb
    by (intro parse_loop_cong assms(5)) (use stream_payload [of _ 0 d] assms(1) in fastforce)
  then show ?thesis using assms(1-4) unfolding nla_validate_parse_def by (cases "nla_stream 0 d") auto
qed

function nla_validate_rec :: nla_validator where
  "nla_validate_rec v m p d = map_option fst (nla_validate_parse nla_validate_rec d m (Some p) v)"
  by pat_completeness auto
termination by (relation "measure (\<lambda>(v, m, p, d). length d)") auto

declare nla_validate_rec.simps [simp del]

section \<open>Parsing\<close>

definition nla_validate :: "bytes \<Rightarrow> nat \<Rightarrow> nla_policy list option \<Rightarrow> u32 \<Rightarrow> errno option option" where
  "nla_validate d maxtype policy validate =
     map_option fst (nla_validate_parse nla_validate_rec d maxtype policy validate)"

definition nla_parse ::
  "nat \<Rightarrow> bytes \<Rightarrow> nla_policy list option \<Rightarrow> u32 \<Rightarrow> (errno option \<times> (nat \<rightharpoonup> nlattr)) option" where
  "nla_parse maxtype d policy validate = nla_validate_parse nla_validate_rec d maxtype policy validate"

definition nla_parse_nested ::
  "nat \<Rightarrow> nlattr \<Rightarrow> nla_policy list option \<Rightarrow> (errno option \<times> (nat \<rightharpoonup> nlattr)) option" where
  "nla_parse_nested maxtype nla policy =
     (if nla_ftype nla AND NLA_F_NESTED = 0 then Some (Some EINVAL, Map.empty)
      else nla_parse maxtype (nla_payload nla) policy NL_VALIDATE_STRICT)"

definition nla_find :: "bytes \<Rightarrow> nat \<Rightarrow> nlattr option" where
  "nla_find d attrtype = find (\<lambda>a. nla_type a = attrtype) (fst (nla_stream 0 d))"

definition nla_find_nested :: "nlattr \<Rightarrow> nat \<Rightarrow> nlattr option" where
  "nla_find_nested nla attrtype = nla_find (nla_payload nla) attrtype"

definition nla_policy_len :: "nla_policy list \<Rightarrow> nat" where
  "nla_policy_len p =
     (\<Sum>pt \<leftarrow> p. if pol_len pt \<noteq> 0 then nla_total_size (pol_len pt)
              else if nla_attr_len (pol_type pt) \<noteq> 0 then nla_total_size (nla_attr_len (pol_type pt))
              else if nla_attr_minlen (pol_type pt) \<noteq> 0 then nla_total_size (nla_attr_minlen (pol_type pt))
              else 0)"

section \<open>Copies and comparisons\<close>

text \<open>The length of a string attribute without the byte 0 at its end.\<close>

definition nla_srclen :: "bytes \<Rightarrow> nat" where
  "nla_srclen d = (if d \<noteq> [] \<and> last d = 0 then length d - 1 else length d)"

text \<open>The new contents of the destination, of which nothing is written if its size is 0.\<close>

definition nla_strlcpy :: "nlattr \<Rightarrow> nat \<Rightarrow> nat \<times> bytes option" where
  "nla_strlcpy nla dstsize =
     (let d = nla_payload nla;
          srclen = nla_srclen d;
          len = (if srclen \<ge> dstsize then dstsize - 1 else srclen)
      in (srclen, if dstsize > 0 then Some (take len d @ replicate (dstsize - len) 0) else None))"

definition nla_strdup :: "bool \<Rightarrow> nlattr \<Rightarrow> bytes option" where
  "nla_strdup mem nla = (if mem then Some (take (nla_srclen (nla_payload nla)) (nla_payload nla) @ [0]) else None)"

definition nla_memcpy :: "nlattr \<Rightarrow> nat \<Rightarrow> nat \<times> bytes" where
  "nla_memcpy src count =
     (let minlen = min count (nla_len src)
      in (minlen, take minlen (nla_payload src) @ replicate (count - minlen) 0))"

fun byte_compare :: "bytes \<Rightarrow> bytes \<Rightarrow> int" where
  "byte_compare (x # xs) (y # ys) = (if x < y then - 1 else if y < x then 1 else byte_compare xs ys)"
| "byte_compare xs ys = 0"

definition nla_memcmp :: "nlattr \<Rightarrow> bytes \<Rightarrow> int" where
  "nla_memcmp nla data =
     (let d = int (nla_len nla) - int (length data)
      in if d = 0 then byte_compare (nla_payload nla) data else d)"

definition nla_strcmp :: "nlattr \<Rightarrow> bytes \<Rightarrow> int" where
  "nla_strcmp nla str =
     (let d = int (nla_srclen (nla_payload nla)) - int (length str)
      in if d = 0 then byte_compare (take (length str) (nla_payload nla)) str else d)"

end
