(* ===== verification/Nla_Put.thy ===== *)
theory Nla_Put
  imports Nlattr
begin

unbundle bit_operations_syntax

text \<open>
  Model of the functions of \<open>lib/nlattr.c\<close> that write attributes into a socket buffer, and of the nesting of
  attributes (\<open>include/net/netlink.h\<close>). A buffer is the address of its data, the data, and the bytes that
  happen to be in the room behind it. The result \<open>None\<close> is the panic of \<open>skb_put\<close>.
\<close>

record nl_skb =
  nl_addr :: nat
  nl_data :: bytes
  nl_tail :: bytes

definition nl_skb_put :: "nl_skb \<Rightarrow> nat \<Rightarrow> nl_skb option" where
  "nl_skb_put skb n =
     (if length (nl_tail skb) < n then None
      else Some (skb\<lparr>nl_data := nl_data skb @ take n (nl_tail skb), nl_tail := drop n (nl_tail skb)\<rparr>))"

definition nl_write :: "nat \<Rightarrow> bytes \<Rightarrow> nl_skb \<Rightarrow> nl_skb" where
  "nl_write p new skb = skb\<lparr>nl_data := take p (nl_data skb) @ new @ drop (p + length new) (nl_data skb)\<rparr>"

text \<open>\<open>nlmsg_trim\<close>: what is cut off stays in memory.\<close>

definition nlmsg_trim :: "nl_skb \<Rightarrow> nat \<Rightarrow> nl_skb" where
  "nlmsg_trim skb n = skb\<lparr>nl_data := take n (nl_data skb), nl_tail := drop n (nl_data skb) @ nl_tail skb\<rparr>"

section \<open>Reservation\<close>

text \<open>The length and the type are stored in 16 bits. The result is the position of the attribute.\<close>

definition nla_reserve_raw :: "nl_skb \<Rightarrow> u16 \<Rightarrow> nat \<Rightarrow> (nat \<times> nl_skb) option" where
  "nla_reserve_raw skb attrtype attrlen =
     (let p = length (nl_data skb);
          l = (of_nat (nla_attr_size attrlen) :: u16)
      in map_option (\<lambda>skb1. (p, nl_write (p + unat l) (replicate (nla_padlen attrlen) 0)
                                 (nl_write p (u16_bytes l @ u16_bytes attrtype) skb1)))
           (nl_skb_put skb (nla_total_size attrlen)))"

definition nla_reserve :: "nl_skb \<Rightarrow> u16 \<Rightarrow> nat \<Rightarrow> (errno + nat \<times> nl_skb) option" where
  "nla_reserve skb attrtype attrlen =
     (if length (nl_tail skb) < nla_total_size attrlen then Some (Inl EMSGSIZE)
      else map_option Inr (nla_reserve_raw skb attrtype attrlen))"

definition nla_need_padding_for_64bit :: "nl_skb \<Rightarrow> bool" where
  "nla_need_padding_for_64bit skb \<longleftrightarrow> (nl_addr skb + length (nl_data skb)) mod 8 = 0"

definition nla_align_64bit :: "nl_skb \<Rightarrow> u16 \<Rightarrow> (errno option \<times> nl_skb) option" where
  "nla_align_64bit skb padattr =
     (if nla_need_padding_for_64bit skb
      then (case nla_reserve skb padattr 0 of
              None \<Rightarrow> None | Some (Inl e) \<Rightarrow> Some (Some EMSGSIZE, skb) | Some (Inr (p, skb1)) \<Rightarrow> Some (None, skb1))
      else Some (None, skb))"

definition nla_total_size_64bit :: "nat \<Rightarrow> nat" where
  "nla_total_size_64bit n = NLA_ALIGN (nla_attr_size n) + NLA_ALIGN (nla_attr_size 0)"

definition nla_reserve_64bit_raw :: "nl_skb \<Rightarrow> u16 \<Rightarrow> nat \<Rightarrow> u16 \<Rightarrow> (nat \<times> nl_skb) option" where
  "nla_reserve_64bit_raw skb attrtype attrlen padattr =
     (if nla_need_padding_for_64bit skb
      then (case nla_align_64bit skb padattr of
              None \<Rightarrow> None | Some (e, skb1) \<Rightarrow> nla_reserve_raw skb1 attrtype attrlen)
      else nla_reserve_raw skb attrtype attrlen)"

definition nla_reserve_64bit :: "nl_skb \<Rightarrow> u16 \<Rightarrow> nat \<Rightarrow> u16 \<Rightarrow> (errno + nat \<times> nl_skb) option" where
  "nla_reserve_64bit skb attrtype attrlen padattr =
     (let len = (if nla_need_padding_for_64bit skb then nla_total_size_64bit attrlen else nla_total_size attrlen)
      in if length (nl_tail skb) < len then Some (Inl EMSGSIZE)
         else map_option Inr (nla_reserve_64bit_raw skb attrtype attrlen padattr))"

definition nla_reserve_nohdr_raw :: "nl_skb \<Rightarrow> nat \<Rightarrow> (nat \<times> nl_skb) option" where
  "nla_reserve_nohdr_raw skb attrlen =
     map_option (\<lambda>skb1. (length (nl_data skb),
         nl_write (length (nl_data skb)) (replicate (NLA_ALIGN attrlen) 0) skb1))
       (nl_skb_put skb (NLA_ALIGN attrlen))"

definition nla_reserve_nohdr :: "nl_skb \<Rightarrow> nat \<Rightarrow> (errno + nat \<times> nl_skb) option" where
  "nla_reserve_nohdr skb attrlen =
     (if length (nl_tail skb) < NLA_ALIGN attrlen then Some (Inl EMSGSIZE)
      else map_option Inr (nla_reserve_nohdr_raw skb attrlen))"

section \<open>Writing\<close>

definition nla_put_raw :: "nl_skb \<Rightarrow> u16 \<Rightarrow> bytes \<Rightarrow> nl_skb option" where
  "nla_put_raw skb attrtype d =
     map_option (\<lambda>(p, skb1). nl_write (p + 4) d skb1) (nla_reserve_raw skb attrtype (length d))"

definition nla_put :: "nl_skb \<Rightarrow> u16 \<Rightarrow> bytes \<Rightarrow> (errno + nl_skb) option" where
  "nla_put skb attrtype d =
     (if length (nl_tail skb) < nla_total_size (length d) then Some (Inl EMSGSIZE)
      else map_option Inr (nla_put_raw skb attrtype d))"

definition nla_put_64bit :: "nl_skb \<Rightarrow> u16 \<Rightarrow> bytes \<Rightarrow> u16 \<Rightarrow> (errno + nl_skb) option" where
  "nla_put_64bit skb attrtype d padattr =
     (let len = (if nla_need_padding_for_64bit skb then nla_total_size_64bit (length d) else nla_total_size (length d))
      in if length (nl_tail skb) < len then Some (Inl EMSGSIZE)
         else map_option (\<lambda>(p, skb1). Inr (nl_write (p + 4) d skb1))
           (nla_reserve_64bit_raw skb attrtype (length d) padattr))"

definition nla_put_nohdr :: "nl_skb \<Rightarrow> bytes \<Rightarrow> (errno + nl_skb) option" where
  "nla_put_nohdr skb d =
     (if length (nl_tail skb) < NLA_ALIGN (length d) then Some (Inl EMSGSIZE)
      else map_option (\<lambda>(p, skb1). Inr (nl_write p d skb1)) (nla_reserve_nohdr_raw skb (length d)))"

definition nla_append :: "nl_skb \<Rightarrow> bytes \<Rightarrow> (errno + nl_skb) option" where
  "nla_append skb d =
     (if length (nl_tail skb) < NLA_ALIGN (length d) then Some (Inl EMSGSIZE)
      else map_option (\<lambda>skb1. Inr (nl_write (length (nl_data skb)) d skb1)) (nl_skb_put skb (length d)))"

definition nla_put_u8 :: "nl_skb \<Rightarrow> u16 \<Rightarrow> u8 \<Rightarrow> (errno + nl_skb) option" where
  "nla_put_u8 skb attrtype v = nla_put skb attrtype [v]"

definition nla_put_u16 :: "nl_skb \<Rightarrow> u16 \<Rightarrow> u16 \<Rightarrow> (errno + nl_skb) option" where
  "nla_put_u16 skb attrtype v = nla_put skb attrtype (u16_bytes v)"

definition nla_put_u32 :: "nl_skb \<Rightarrow> u16 \<Rightarrow> u32 \<Rightarrow> (errno + nl_skb) option" where
  "nla_put_u32 skb attrtype v = nla_put skb attrtype [byte_of v 0, byte_of v 1, byte_of v 2, byte_of v 3]"

section \<open>Nesting\<close>

text \<open>The start of a container is its position; a null pointer is \<open>None\<close> inside of the result.\<close>

definition nla_nest_start_noflag :: "nl_skb \<Rightarrow> u16 \<Rightarrow> (nat option \<times> nl_skb) option" where
  "nla_nest_start_noflag skb attrtype =
     (case nla_put skb attrtype [] of
        None \<Rightarrow> None
      | Some (Inl e) \<Rightarrow> Some (None, skb)
      | Some (Inr skb1) \<Rightarrow> Some (Some (length (nl_data skb)), skb1))"

definition nla_nest_start :: "nl_skb \<Rightarrow> u16 \<Rightarrow> (nat option \<times> nl_skb) option" where
  "nla_nest_start skb attrtype = nla_nest_start_noflag skb (attrtype OR NLA_F_NESTED)"

definition nla_nest_end :: "nl_skb \<Rightarrow> nat \<Rightarrow> nat \<times> nl_skb" where
  "nla_nest_end skb start =
     (let skb1 = nl_write start (u16_bytes (of_nat (length (nl_data skb) - start))) skb
      in (length (nl_data skb1), skb1))"

definition nla_nest_cancel :: "nl_skb \<Rightarrow> nat \<Rightarrow> nl_skb" where
  "nla_nest_cancel skb start = nlmsg_trim skb start"

end
