(* ===== verification/Nlattr_Props.thy ===== *)
theory Nlattr_Props
  imports Nla_Put
begin

unbundle bit_operations_syntax

text \<open>
  Netlink attributes: what is written is parsed back, nested or not; a validated table holds attributes that
  lie inside the message and conform to their policies; strict validation accepts nothing that liberal
  validation rejects; validation reads nothing outside of the attributes.
\<close>

section \<open>Sizes and the header\<close>

lemma align_bounds: "n \<le> NLA_ALIGN n" "NLA_ALIGN n < n + 4"
  unfolding NLA_ALIGN_def by presburger+

lemma u16_at_bytes: "u16_at (u16_bytes w @ d) 0 = w" "u16_at (a # b # u16_bytes w @ d) 2 = w"
  by (rule bit_word_eqI; auto simp: u16_at_def u16_bytes_def bit_simps dest: bit_imp_le_length)+

lemma u16_bytes_length [simp]: "length (u16_bytes w) = 2"
  by (simp add: u16_bytes_def)

text \<open>The bytes of an attribute, and its place in a stream.\<close>

definition attr_bytes :: "u16 \<Rightarrow> bytes \<Rightarrow> bytes" where
  "attr_bytes t b = u16_bytes (of_nat (4 + length b)) @ u16_bytes t @ b @ replicate (nla_padlen (length b)) 0"

lemma attr_bytes_length: "length (attr_bytes t b) = nla_total_size (length b)"
  using align_bounds(1) [of "4 + length b"]
  by (simp add: attr_bytes_def nla_padlen_def nla_total_size_def nla_attr_size_def)

definition fits :: "u16 \<times> bytes \<Rightarrow> bool" where "fits x \<longleftrightarrow> length (snd x) + 4 < 65536"

lemma len_field: "n + 4 < 65536 \<Longrightarrow> unat (of_nat (4 + n) :: u16) = 4 + n"
  by (simp only: unsigned_of_nat) (simp add: take_bit_nat_eq_self_iff)

lemma stream_nil [simp]: "nla_stream p [] = ([], 0)"
  by (subst nla_stream.simps) (simp add: nla_ok_def)

lemma stream_attr:
  assumes "fits (t, b)"
  shows "nla_stream p (attr_bytes t b @ d) =
    (\<lparr>nla_pos = p, nla_ftype = t, nla_payload = b\<rparr> # fst (nla_stream (p + nla_total_size (length b)) d),
     snd (nla_stream (p + nla_total_size (length b)) d))"
proof -
  let ?d = "attr_bytes t b @ d"
  have w0: "u16_at ?d 0 = of_nat (4 + length b)" unfolding attr_bytes_def append_assoc by (rule u16_at_bytes)
  have "u16_bytes (of_nat (4 + length b)) = [ucast (of_nat (4 + length b) :: u16), ucast (drop_bit 8 (of_nat (4 + length b) :: u16))]"
    by (simp add: u16_bytes_def)
  then have w2: "u16_at ?d 2 = t" by (simp add: attr_bytes_def u16_at_bytes(2) del: of_nat_add)
  have l: "unat (u16_at ?d 0) = 4 + length b" unfolding w0 using assms by (intro len_field) (simp add: fits_def)
  have len: "length ?d = nla_total_size (length b) + length d" by (simp add: attr_bytes_length)
  have tot: "NLA_ALIGN (4 + length b) = nla_total_size (length b)" by (simp add: nla_total_size_def nla_attr_size_def)
  have ok: "nla_ok ?d" unfolding nla_ok_def l len using align_bounds(1) [of "4 + length b"] tot by simp
  have pay: "take (4 + length b - 4) (drop 4 ?d) = b" by (simp add: attr_bytes_def)
  have rest: "drop (nla_total_size (length b)) ?d = d" by (simp add: attr_bytes_length)
  define e where "e = ?d"
  note facts = ok l pay rest w2 len [unfolded attr_bytes_length]
  show ?thesis
    using facts unfolding e_def [symmetric]
    by (subst nla_stream.simps) (auto simp: tot Let_def split: prod.split)
qed

section \<open>Writing and parsing\<close>

lemma write_behind:
  "nl_data skb = D @ T \<Longrightarrow> nl_data (nl_write (length D + k) new skb) = D @ take k T @ new @ drop (k + length new) T"
  by (simp add: nl_write_def add.commute add.left_commute)

lemma write_frame [simp]: "nl_tail (nl_write p new skb) = nl_tail skb" "nl_addr (nl_write p new skb) = nl_addr skb"
  by (simp_all add: nl_write_def)

lemma put_result:
  assumes "fits (t, b)" "nla_total_size (length b) \<le> length (nl_tail skb)"
  shows "\<exists>skb1. nla_put skb t b = Some (Inr skb1) \<and> nl_data skb1 = nl_data skb @ attr_bytes t b \<and>
    nl_tail skb1 = drop (nla_total_size (length b)) (nl_tail skb) \<and> nl_addr skb1 = nl_addr skb"
proof -
  let ?tot = "nla_total_size (length b)" and ?n = "length b" and ?D = "nl_data skb" and ?p = "length (nl_data skb)"
  define l where "l = (of_nat (4 + length b) :: u16)"
  define T where "T = take ?tot (nl_tail skb)"
  have lT: "length T = ?tot" using assms(2) by (simp add: T_def)
  have size: "?tot = 4 + ?n + nla_padlen ?n"
    using align_bounds(1) [of "4 + ?n"] by (simp add: nla_padlen_def nla_total_size_def nla_attr_size_def)
  have l: "unat l = 4 + ?n" unfolding l_def by (rule len_field) (use assms(1) in \<open>simp add: fits_def\<close>)
  define s0 where "s0 = skb\<lparr>nl_data := ?D @ T, nl_tail := drop ?tot (nl_tail skb)\<rparr>"
  define s1 where "s1 = nl_write ?p (u16_bytes l @ u16_bytes t) s0"
  define s2 where "s2 = nl_write (?p + unat l) (replicate (nla_padlen ?n) 0) s1"
  define s3 where "s3 = nl_write (?p + 4) b s2"
  have d1: "nl_data s1 = ?D @ u16_bytes l @ u16_bytes t @ drop 4 T"
    using write_behind [of s0 ?D T 0 "u16_bytes l @ u16_bytes t"] by (simp add: s0_def s1_def)
  have d2: "nl_data s2 = ?D @ u16_bytes l @ u16_bytes t @ take ?n (drop 4 T) @ replicate (nla_padlen ?n) 0"
    using write_behind [OF d1, of "unat l" "replicate (nla_padlen ?n) 0"] lT size
    by (simp add: s2_def l)
  have "length (take ?n (drop 4 T)) = ?n" using lT size by simp
  then have d3: "nl_data s3 = ?D @ attr_bytes t b"
    using write_behind [OF d2, of 4 b] by (simp add: s3_def attr_bytes_def l_def del: of_nat_add)
  have "nl_skb_put skb ?tot = Some s0" using assms(2) by (simp add: nl_skb_put_def s0_def T_def)
  then have "nla_put skb t b = Some (Inr s3)"
    using assms(2)
    by (simp add: nla_put_def nla_put_raw_def nla_reserve_raw_def Let_def s1_def s2_def s3_def nla_attr_size_def l_def del: of_nat_add)
  moreover have "nl_tail s3 = drop ?tot (nl_tail skb)" "nl_addr s3 = nl_addr skb"
    by (simp_all add: s3_def s2_def s1_def s0_def)
  ultimately show ?thesis using d3 by blast
qed

fun put_all :: "nl_skb \<Rightarrow> (u16 \<times> bytes) list \<Rightarrow> (errno + nl_skb) option" where
  "put_all skb [] = Some (Inr skb)"
| "put_all skb ((t, b) # xs) =
     (case nla_put skb t b of Some (Inr skb1) \<Rightarrow> put_all skb1 xs | r \<Rightarrow> r)"

definition attrs_bytes :: "(u16 \<times> bytes) list \<Rightarrow> bytes" where
  "attrs_bytes xs = concat (map (\<lambda>(t, b). attr_bytes t b) xs)"

lemma put_all_result:
  "list_all fits xs \<Longrightarrow> length (attrs_bytes xs) \<le> length (nl_tail skb) \<Longrightarrow>
   \<exists>skb1. put_all skb xs = Some (Inr skb1) \<and> nl_data skb1 = nl_data skb @ attrs_bytes xs \<and>
     nl_tail skb1 = drop (length (attrs_bytes xs)) (nl_tail skb)"
proof (induction xs arbitrary: skb)
  case (Cons x xs)
  obtain t b where x: "x = (t, b)" by fastforce
  have room: "nla_total_size (length b) \<le> length (nl_tail skb)"
    using Cons.prems(2) by (simp add: x attrs_bytes_def attr_bytes_length)
  from put_result [OF _ this, of t] Cons.prems(1) x obtain s where s: "nla_put skb t b = Some (Inr s)"
    "nl_data s = nl_data skb @ attr_bytes t b" "nl_tail s = drop (nla_total_size (length b)) (nl_tail skb)" by auto
  with Cons.prems Cons.IH [of s] show ?case
    by (auto simp: x attrs_bytes_def attr_bytes_length add.commute)
qed (simp add: attrs_bytes_def)

lemma stream_attrs:
  "list_all fits xs \<Longrightarrow>
   map (\<lambda>a. (nla_ftype a, nla_payload a)) (fst (nla_stream p (attrs_bytes xs))) = xs \<and> snd (nla_stream p (attrs_bytes xs)) = 0"
proof (induction xs arbitrary: p)
  case (Cons x xs)
  obtain t b where x: "x = (t, b)" by fastforce
  with Cons stream_attr [of t b p "attrs_bytes xs"] show ?case by (simp add: attrs_bytes_def)
qed (simp add: attrs_bytes_def)

text \<open>Without a policy every attribute of a known type is stored, later ones over earlier ones.\<close>

lemma parse_loop_stores:
  "\<not> nl_flag v NL_VALIDATE_MAXTYPE \<Longrightarrow>
   nla_parse_loop f m None v as tb =
     Some (None, tb ++ map_of (rev (map (\<lambda>a. (nla_type a, a)) (filter (\<lambda>a. nla_type a \<noteq> 0 \<and> nla_type a \<le> m) as))))"
  by (induction as arbitrary: tb) (auto simp: Let_def map_add_upd_left map_add_def fun_eq_iff split: option.split)

definition attr_type :: "u16 \<Rightarrow> nat" where
  "attr_type t = unat (t AND NOT (NLA_F_NESTED OR NLA_F_NET_BYTEORDER))"

lemma map_of_payload:
  "P t \<Longrightarrow> map_option nla_payload (map_of (rev (map (\<lambda>a. (nla_type a, a)) (filter (\<lambda>a. P (nla_type a)) as))) t) =
   map_of (rev (map (\<lambda>(t, b). (attr_type t, b)) (map (\<lambda>a. (nla_ftype a, nla_payload a)) as))) t"
proof (induction "as" rule: rev_induct)
  case (snoc a as)
  then show ?case by (simp add: nla_type_def attr_type_def) blast
qed simp

text \<open>
  Property C30: attributes written one after the other with \<open>nla_put\<close> are parsed back: without a policy the table
  holds for each type the payload of the last attribute of that type, whatever the room behind the data held.
\<close>

theorem nla_put_parse:
  assumes "list_all fits xs" "length (attrs_bytes xs) \<le> length (nl_tail skb)" "\<not> nl_flag v NL_VALIDATE_MAXTYPE"
  shows "\<exists>skb1 tb. put_all skb xs = Some (Inr skb1) \<and>
    nla_parse m (drop (length (nl_data skb)) (nl_data skb1)) None v = Some (None, tb) \<and>
    (\<forall>t. 0 < t \<and> t \<le> m \<longrightarrow>
       map_option nla_payload (tb t) = map_of (rev (map (\<lambda>(t, b). (attr_type t, b)) xs)) t)"
proof -
  from put_all_result [OF assms(1,2)] obtain skb1 where skb1: "put_all skb xs = Some (Inr skb1)"
    "nl_data skb1 = nl_data skb @ attrs_bytes xs" by blast
  obtain as r where st: "nla_stream 0 (attrs_bytes xs) = (as, r)" by fastforce
  with stream_attrs [OF assms(1), of 0] have as: "map (\<lambda>a. (nla_ftype a, nla_payload a)) as = xs" "r = 0" by simp_all
  let ?tb = "map_of (rev (map (\<lambda>a. (nla_type a, a)) (filter (\<lambda>a. nla_type a \<noteq> 0 \<and> nla_type a \<le> m) as)))"
  have "nla_parse m (attrs_bytes xs) None v = Some (None, ?tb)"
    by (simp add: nla_parse_def nla_validate_parse_def st as(2) parse_loop_stores [OF assms(3)])
  moreover have "map_option nla_payload (?tb t) = map_of (rev (map (\<lambda>(t, b). (attr_type t, b)) xs)) t"
    if "0 < t" "t \<le> m" for t
    using map_of_payload [of "\<lambda>t. t \<noteq> 0 \<and> t \<le> m" t as] that unfolding as(1) by simp
  ultimately show ?thesis using skb1 by auto
qed

theorem nla_put_parse_witness:
  "\<exists>skb1 tb. put_all \<lparr>nl_addr = 0, nl_data = [9], nl_tail = replicate 40 7\<rparr> [(1, [10, 11]), (2, [12]), (1, [13])] = Some (Inr skb1) \<and>
    nla_parse 5 (drop 1 (nl_data skb1)) None 0 = Some (None, tb) \<and> map_option nla_payload (tb 1) = Some [13]"
proof -
  let ?s = "\<lparr>nl_addr = 0, nl_data = [9 :: u8], nl_tail = replicate 40 7\<rparr>"
  have "length (attrs_bytes [(1, [10, 11]), (2, [12]), (1, [13])]) = 24"
    by (simp add: attrs_bytes_def attr_bytes_length nla_total_size_def nla_attr_size_def NLA_ALIGN_def)
  then obtain s tb where s: "put_all ?s [(1, [10, 11]), (2, [12]), (1, [13])] = Some (Inr s)"
    "nla_parse 5 (drop 1 (nl_data s)) None 0 = Some (None, tb)"
    "map_option nla_payload (tb 1) = map_of (rev (map (\<lambda>(t, b). (attr_type t, b)) [(1, [10, 11]), (2, [12]), (1, [13])])) 1"
    using nla_put_parse [of "[(1, [10, 11]), (2, [12]), (1, [13])]" ?s 0 5] by (auto simp: fits_def nl_flag_def)
  have "attr_type 1 = 1" by (simp add: attr_type_def NLA_F_NESTED_def NLA_F_NET_BYTEORDER_def)
  with s show ?thesis by auto
qed

section \<open>Nesting\<close>

lemma attrs_bytes_aligned: "length (attrs_bytes xs) mod 4 = 0"
proof (induction xs)
  case (Cons x xs)
  then show ?case
    by (cases x) (simp add: attrs_bytes_def attr_bytes_length nla_total_size_def NLA_ALIGN_def mod_add_left_eq [symmetric])
qed (simp add: attrs_bytes_def)

text \<open>
  Property C37: attributes written between \<open>nla_nest_start\<close> and \<open>nla_nest_end\<close> are read back as one attribute with
  the flag of nesting, whose payload is the stream of exactly these attributes.
\<close>

theorem nla_nest_parse:
  assumes start: "nla_nest_start skb t = Some (Some p, s1)" and inner: "put_all s1 xs = Some (Inr s2)"
    and nest: "nla_nest_end s2 p = (n, s3)"
    and fit: "list_all fits xs" "length (attrs_bytes xs) + 4 < 65536" "length (attrs_bytes xs) \<le> length (nl_tail s1)"
  shows "\<exists>a. nla_stream 0 (drop (length (nl_data skb)) (nl_data s3)) = ([a], 0) \<and> nla_ftype a = t OR NLA_F_NESTED \<and>
    map (\<lambda>a. (nla_ftype a, nla_payload a)) (fst (nla_stream 0 (nla_payload a))) = xs"
proof -
  let ?t = "t OR NLA_F_NESTED" and ?D = "nl_data skb" and ?b = "attrs_bytes xs"
  have room: "nla_total_size (length []) \<le> length (nl_tail skb)"
    using start by (auto simp: nla_nest_start_def nla_nest_start_noflag_def nla_put_def split: if_splits)
  from put_result [of ?t "[]" skb, OF _ room] start
  have s1: "nl_data s1 = ?D @ attr_bytes ?t []" "p = length ?D"
    by (auto simp: fits_def nla_nest_start_def nla_nest_start_noflag_def)
  from put_all_result [OF fit(1,3)] inner have s2: "nl_data s2 = ?D @ attr_bytes ?t [] @ ?b" using s1(1) by auto
  have p0: "nla_padlen 0 = 0" by (simp add: nla_padlen_def nla_total_size_def nla_attr_size_def NLA_ALIGN_def)
  have e: "attr_bytes ?t [] = u16_bytes 4 @ u16_bytes ?t"
    by (simp add: attr_bytes_def nla_padlen_def nla_total_size_def nla_attr_size_def NLA_ALIGN_def)
  have "NLA_ALIGN (4 + length ?b) = 4 + length ?b"
    using attrs_bytes_aligned [of xs] unfolding NLA_ALIGN_def by presburger
  then have pad: "nla_padlen (length ?b) = 0" "nla_total_size (length ?b) = 4 + length ?b"
    by (simp_all add: nla_padlen_def nla_total_size_def nla_attr_size_def)
  have len: "length (nl_data s2) - length ?D = 4 + length ?b" by (simp add: s2 e)
  have "nl_data s3 = ?D @ u16_bytes (of_nat (4 + length ?b)) @ drop 2 (attr_bytes ?t [] @ ?b)"
    using nest write_behind [OF s2, of 0 "u16_bytes (of_nat (4 + length ?b))"] unfolding nla_nest_end_def s1(2) len Let_def
    by (auto simp: numeral_2_eq_2 simp del: of_nat_add)
  then have s3: "drop (length ?D) (nl_data s3) = attr_bytes ?t ?b" by (simp add: attr_bytes_def pad p0)
  have "fits (?t, ?b)" using fit(2) by (simp add: fits_def)
  from stream_attr [OF this, of 0 "[]"] show ?thesis
    using stream_attrs [OF fit(1), of 0] unfolding s3 by simp
qed

theorem nla_nest_parse_witness:
  "\<exists>s1 s2 n s3 a. nla_nest_start \<lparr>nl_addr = 0, nl_data = [9], nl_tail = replicate 40 7\<rparr> 3 = Some (Some 1, s1) \<and>
    put_all s1 [(1, [10])] = Some (Inr s2) \<and> nla_nest_end s2 1 = (n, s3) \<and>
    nla_stream 0 (drop 1 (nl_data s3)) = ([a], 0) \<and>
    map (\<lambda>a. (nla_ftype a, nla_payload a)) (fst (nla_stream 0 (nla_payload a))) = [(1, [10])]"
proof -
  let ?s = "\<lparr>nl_addr = 0, nl_data = [9 :: u8], nl_tail = replicate 40 7\<rparr>"
  have sz: "nla_total_size 0 = 4" "length (attrs_bytes [(1, [10])]) = 8"
    by (simp_all add: attrs_bytes_def attr_bytes_length nla_total_size_def nla_attr_size_def NLA_ALIGN_def)
  obtain s1 where p1: "nla_put ?s (3 OR NLA_F_NESTED) [] = Some (Inr s1)" "nl_tail s1 = drop 4 (nl_tail ?s)"
    using put_result [of "3 OR NLA_F_NESTED" "[]" ?s] by (auto simp: fits_def sz)
  then have s1: "nla_nest_start ?s 3 = Some (Some 1, s1)" by (simp add: nla_nest_start_def nla_nest_start_noflag_def)
  have fit: "list_all fits [(1, [10])]" by (simp add: fits_def)
  obtain s2 where s2: "put_all s1 [(1, [10])] = Some (Inr s2)"
    using put_all_result [OF fit, of s1] p1(2) sz by auto
  obtain n s3 where s3: "nla_nest_end s2 1 = (n, s3)" by fastforce
  from nla_nest_parse [OF s1 s2 s3 fit] sz p1(2) s1 s2 s3 show ?thesis by auto
qed

text \<open>The length of a container is stored in 16 bits too, and nothing tests that it fits.\<close>

lemma nest_end_truncates:
  assumes "p \<le> length (nl_data skb)"
  shows "unat (u16_at (drop p (nl_data (snd (nla_nest_end skb p)))) 0) = (length (nl_data skb) - p) mod 65536"
proof -
  have "drop p (nl_data (snd (nla_nest_end skb p))) = u16_bytes (of_nat (length (nl_data skb) - p)) @ drop (p + 2) (nl_data skb)"
    using assms by (simp add: nla_nest_end_def nl_write_def)
  then show ?thesis by (simp only: u16_at_bytes unsigned_of_nat) (simp add: take_bit_nat_def)
qed

section \<open>Validated tables\<close>

lemma stream_inside:
  "a \<in> set (fst (nla_stream p d)) \<Longrightarrow> p \<le> nla_pos a \<and> nla_pos a - p + 4 + nla_len a \<le> length d \<and>
     nla_payload a = take (nla_len a) (drop (nla_pos a - p + 4) d)"
proof (induction "length d" arbitrary: p d rule: less_induct)
  case less
  let ?tot = "NLA_ALIGN (unat (u16_at d 0))"
  have ok: "nla_ok d" using less.prems by (subst (asm) stream_fst) (auto split: if_splits)
  then have small: "length (drop ?tot d) < length d" by (auto simp: nla_ok_def NLA_ALIGN_def)
  consider "a = nla_head p d" | "a \<in> set (fst (nla_stream (p + ?tot) (drop ?tot d)))"
    using less.prems ok by (subst (asm) stream_fst) auto
  then show ?case
  proof cases
    case 1
    then show ?thesis using ok by (simp add: nla_head_def nla_ok_def min_def)
  next
    case 2
    note ih = less.hyps [OF small 2]
    then have "nla_pos a - p = ?tot + (nla_pos a - (p + ?tot))" by linarith
    then show ?thesis using ih by (auto simp: add.commute add.left_commute)
  qed
qed

lemma loop_result:
  "nla_parse_loop f m p v as tb = Some (None, tb') \<Longrightarrow> tb' t = Some a \<Longrightarrow>
   tb t = Some a \<or> a \<in> set as \<and> nla_type a = t \<and> 0 < t \<and> t \<le> m \<and>
     (\<forall>ps. p = Some ps \<longrightarrow> validate_nla f a m ps v = Some None)"
proof (induction "as" arbitrary: tb)
  case (Cons b bs)
  show ?case
  proof (cases "nla_type b = 0 \<or> nla_type b > m")
    case True
    with Cons show ?thesis by (auto simp: Let_def split: if_splits)
  next
    case False
    then have v: "(case p of None \<Rightarrow> Some None | Some ps \<Rightarrow> validate_nla f b m ps v) = Some None"
      and r: "nla_parse_loop f m p v bs (tb(nla_type b \<mapsto> b)) = Some (None, tb')"
      using Cons.prems(1) by (auto simp: Let_def split: option.splits)
    from Cons.IH [OF r Cons.prems(2)] v False show ?thesis by (auto split: if_splits option.splits)
  qed
qed simp

text \<open>The value of an integer attribute, as its policy names the type.\<close>

definition int_value :: "nla_kind \<Rightarrow> bytes \<Rightarrow> int option" where
  "int_value k d = (if k \<in> {NLA_S8, NLA_S16, NLA_S32, NLA_S64} then nla_get_s (nla_attr_len k) d else nla_get_u (nla_attr_len k) d)"

definition int_kinds :: "nla_kind set" where
  "int_kinds = {NLA_U8, NLA_U16, NLA_U32, NLA_U64, NLA_S8, NLA_S16, NLA_S32, NLA_S64}"

text \<open>What a user of the table may rely on.\<close>

definition conforms :: "nla_policy \<Rightarrow> nlattr \<Rightarrow> bool" where
  "conforms pt a \<longleftrightarrow>
     (case pol_type pt of
        NLA_EXACT_LEN \<Rightarrow> nla_len a = pol_len pt
      | NLA_FLAG \<Rightarrow> nla_len a = 0
      | NLA_REJECT \<Rightarrow> False
      | NLA_BITFIELD32 \<Rightarrow> nla_len a = 8
      | NLA_NUL_STRING \<Rightarrow> 0 \<in> set (nla_payload a) \<and> (pol_len pt \<noteq> 0 \<longrightarrow> nla_srclen (nla_payload a) \<le> pol_len pt)
      | NLA_STRING \<Rightarrow> 0 < nla_len a \<and> (pol_len pt \<noteq> 0 \<longrightarrow> nla_srclen (nla_payload a) \<le> pol_len pt)
      | NLA_BINARY \<Rightarrow> pol_len pt \<noteq> 0 \<longrightarrow> nla_len a \<le> pol_len pt
      | NLA_NESTED \<Rightarrow> nla_len a = 0 \<or> 4 \<le> nla_len a
      | NLA_NESTED_ARRAY \<Rightarrow> nla_len a = 0 \<or> 4 \<le> nla_len a
      | k \<Rightarrow> (if pol_len pt \<noteq> 0 then pol_len pt \<le> nla_len a else nla_attr_minlen k \<le> nla_len a)) \<and>
     (pol_validation pt = NLA_VALIDATE_RANGE \<and> pol_type pt \<in> int_kinds - {NLA_U64} \<longrightarrow>
       (case (pol_data pt, int_value (pol_type pt) (nla_payload a)) of
          (PD_range mn mx, Some x) \<Rightarrow> mn \<le> x \<and> x \<le> mx | (_, x) \<Rightarrow> x \<noteq> None))"

lemma srclen_if: "d \<noteq> [] \<Longrightarrow> (if d ! (length d - 1) = 0 then length d - 1 else length d) = nla_srclen d"
  by (simp add: nla_srclen_def last_conv_nth)

lemma range_conforms:
  assumes "nla_validate_int_range pt d = Some None" "pol_validation pt = NLA_VALIDATE_RANGE" "pol_type pt \<in> int_kinds - {NLA_U64}"
  shows "case (pol_data pt, int_value (pol_type pt) d) of (PD_range mn mx, Some x) \<Rightarrow> mn \<le> x \<and> x \<le> mx | (_, x) \<Rightarrow> x \<noteq> None"
  using assms
  by (cases "pol_type pt")
    (auto simp: nla_validate_int_range_def int_value_def nla_attr_len_def int_kinds_def Let_def
      split: option.splits if_splits pol_data.splits)

lemma kind_conforms:
  assumes "validate_nla_kind f a pt v = Some None" "validate_nla_further pt (nla_payload a) = Some None"
  shows "conforms pt a"
proof -
  have r: "pol_validation pt = NLA_VALIDATE_RANGE \<and> pol_type pt \<in> int_kinds - {NLA_U64} \<longrightarrow>
       (case (pol_data pt, int_value (pol_type pt) (nla_payload a)) of
          (PD_range mn mx, Some x) \<Rightarrow> mn \<le> x \<and> x \<le> mx | (_, x) \<Rightarrow> x \<noteq> None)"
    by (intro impI, elim conjE, rule range_conforms) (use assms(2) in \<open>simp_all add: validate_nla_further_def\<close>)
  show ?thesis
    unfolding conforms_def
  proof (intro conjI r)
    show "case pol_type pt of
        NLA_EXACT_LEN \<Rightarrow> nla_len a = pol_len pt
      | NLA_FLAG \<Rightarrow> nla_len a = 0
      | NLA_REJECT \<Rightarrow> False
      | NLA_BITFIELD32 \<Rightarrow> nla_len a = 8
      | NLA_NUL_STRING \<Rightarrow> 0 \<in> set (nla_payload a) \<and> (pol_len pt \<noteq> 0 \<longrightarrow> nla_srclen (nla_payload a) \<le> pol_len pt)
      | NLA_STRING \<Rightarrow> 0 < nla_len a \<and> (pol_len pt \<noteq> 0 \<longrightarrow> nla_srclen (nla_payload a) \<le> pol_len pt)
      | NLA_BINARY \<Rightarrow> pol_len pt \<noteq> 0 \<longrightarrow> nla_len a \<le> pol_len pt
      | NLA_NESTED \<Rightarrow> nla_len a = 0 \<or> 4 \<le> nla_len a
      | NLA_NESTED_ARRAY \<Rightarrow> nla_len a = 0 \<or> 4 \<le> nla_len a
      | k \<Rightarrow> (if pol_len pt \<noteq> 0 then pol_len pt \<le> nla_len a else nla_attr_minlen k \<le> nla_len a)"
      using assms(1) unfolding validate_nla_kind_def Let_def
      by (cases "pol_type pt")
        (auto simp: nla_srclen_def last_conv_nth nla_attr_minlen_def Suc_le_eq split: if_splits dest: in_set_takeD)
  qed
qed

lemma nla_conforms:
  assumes "validate_nla f a m ps v = Some None" "0 < nla_type a" "nla_type a \<le> m"
  shows "nla_type a < length ps \<and> conforms (ps ! nla_type a) a"
proof -
  obtain w where "validate_nla_kind f a (ps ! nla_type a) w = Some None" "nla_type a < length ps"
    "validate_nla_further (ps ! nla_type a) (nla_payload a) = Some None"
    using assms unfolding validate_nla_def Let_def by (auto split: if_splits option.splits)
  with kind_conforms show ?thesis by blast
qed

text \<open>
  Property C18: when parsing succeeds, each entry of the table is an attribute of its type, lies inside the
  message and conforms to its policy: sizes, strings and integer ranges are as the policy says.
\<close>

theorem nla_parse_sound:
  assumes "nla_parse m d (Some ps) v = Some (None, tb)" "tb t = Some a"
  shows "nla_type a = t \<and> 0 < t \<and> t \<le> m \<and> t < length ps \<and> conforms (ps ! t) a \<and>
    nla_pos a + 4 + nla_len a \<le> length d \<and> nla_payload a = take (nla_len a) (drop (nla_pos a + 4) d)"
proof -
  have "nla_parse_loop nla_validate_rec m (Some ps) v (fst (nla_stream 0 d)) Map.empty = Some (None, tb)"
    using assms(1)
    by (auto simp: nla_parse_def nla_validate_parse_def split: prod.splits option.splits if_splits)
  from loop_result [OF this assms(2)] have a: "a \<in> set (fst (nla_stream 0 d))" "nla_type a = t" "0 < t" "t \<le> m"
    "validate_nla nla_validate_rec a m ps v = Some None" by auto
  with stream_inside [OF a(1)] nla_conforms [OF a(5)] show ?thesis by simp
qed

section \<open>Strict and liberal validation\<close>

lemma flags_mono: "v AND NOT w = 0 \<Longrightarrow> nl_flag v f \<Longrightarrow> nl_flag w f" for v w :: u32
proof -
  assume a: "v AND NOT w = 0" and f: "nl_flag v f"
  obtain n where n: "bit (v AND f) n" using f unfolding nl_flag_def by (metis bit_eqI bit_0_eq bot_apply bot_bool_def)
  moreover have "\<not> bit (v AND NOT w) n" by (simp add: a)
  ultimately have "bit (w AND f) n" by (auto simp: bit_simps dest: bit_imp_le_length)
  then show ?thesis by (auto simp: nl_flag_def)
qed

lemma flags_or_mono: "v AND NOT w = 0 \<Longrightarrow> (v OR s) AND NOT (w OR s) = 0" for v w s :: u32
proof -
  assume a: "v AND NOT w = 0"
  have "\<not> bit ((v OR s) AND NOT (w OR s)) n" for n
  proof -
    have "\<not> bit (v AND NOT w) n" by (simp add: a)
    then show ?thesis by (auto simp: bit_simps)
  qed
  then show ?thesis by (metis bit_eqI bit_0_eq bot_apply bot_bool_def)
qed

lemma first_err_ok: "first_err f xs = Some None \<longleftrightarrow> (\<forall>x \<in> set xs. f x = Some None)"
  by (induction xs) (auto split: option.splits)

text \<open>A validator that accepts with more flags what it accepts with less, for streams below a length.\<close>

definition liberal_below :: "nat \<Rightarrow> nla_validator \<Rightarrow> bool" where
  "liberal_below n f \<longleftrightarrow> (\<forall>v w m p d. v AND NOT w = 0 \<longrightarrow> length d < n \<longrightarrow> f w m p d = Some None \<longrightarrow> f v m p d = Some None)"

lemma array_liberal:
  "liberal_below n f \<Longrightarrow> length d < n \<Longrightarrow> v AND NOT w = 0 \<Longrightarrow> nla_validate_array f d m p w = Some None \<Longrightarrow>
   nla_validate_array f d m p v = Some None"
  unfolding nla_validate_array_def first_err_ok liberal_below_def
  by (auto split: if_splits) (meson add_lessD1 le_less_trans stream_payload)

lemma kind_liberal:
  assumes "liberal_below n f" "nla_len a < n" "v AND NOT w = 0" "validate_nla_kind f a pt w = Some None"
  shows "validate_nla_kind f a pt v = Some None"
proof -
  have u: "nl_flag v NL_VALIDATE_UNSPEC \<longrightarrow> nl_flag w NL_VALIDATE_UNSPEC" using flags_mono [OF assms(3)] by blast
  have f: "f w m p (nla_payload a) = Some None \<Longrightarrow> f v m p (nla_payload a) = Some None" for m p
    using assms(1-3) unfolding liberal_below_def by blast
  show ?thesis
    using assms(4) u f array_liberal [OF assms(1,2,3)] unfolding validate_nla_kind_def Let_def
    by (cases "pol_type pt"; cases "pol_data pt") (simp_all split: if_splits)
qed

definition strict_at :: "nlattr \<Rightarrow> nla_policy list \<Rightarrow> u32 \<Rightarrow> u32" where
  "strict_at a ps v =
     (if strict_start_type (ps ! 0) \<noteq> 0 \<and> nla_type a \<ge> strict_start_type (ps ! 0) then v OR NL_VALIDATE_STRICT else v)"

text \<open>Acceptance of an attribute, written as one formula.\<close>

definition wrong_len :: "nlattr \<Rightarrow> nla_policy \<Rightarrow> bool" where
  "wrong_len a pt \<longleftrightarrow> nla_attr_len (pol_type pt) \<noteq> 0 \<and> nla_len a \<noteq> nla_attr_len (pol_type pt) \<or>
     pol_type pt = NLA_EXACT_LEN_WARN \<and> nla_len a \<noteq> pol_len pt"

definition wrong_nesting :: "nlattr \<Rightarrow> nla_policy \<Rightarrow> bool" where
  "wrong_nesting a pt \<longleftrightarrow>
     (if pol_type pt = NLA_NESTED \<or> pol_type pt = NLA_NESTED_ARRAY then nla_ftype a AND NLA_F_NESTED = 0
      else pol_type pt \<noteq> NLA_UNSPEC \<and> nla_ftype a AND NLA_F_NESTED \<noteq> 0)"

lemma validate_nla_ok:
  "validate_nla f a m ps v = Some None \<longleftrightarrow> ps \<noteq> [] \<and>
     (nla_type a = 0 \<or> m < nla_type a \<or>
      nla_type a < length ps \<and>
      \<not> (wrong_len a (ps ! nla_type a) \<and> nl_flag (strict_at a ps v) NL_VALIDATE_STRICT_ATTRS) \<and>
      \<not> (wrong_nesting a (ps ! nla_type a) \<and> nl_flag (strict_at a ps v) NL_VALIDATE_NESTED) \<and>
      validate_nla_kind f a (ps ! nla_type a) (strict_at a ps v) = Some None \<and>
      validate_nla_further (ps ! nla_type a) (nla_payload a) = Some None)"
proof -
  have c: "(case validate_nla_kind f a pt V of Some None \<Rightarrow> r | x \<Rightarrow> x) = Some None \<longleftrightarrow>
    validate_nla_kind f a pt V = Some None \<and> r = Some None" for pt V r
    by (auto split: option.splits)
  have i: "(if b then Some (Some e) else r) = Some None \<longleftrightarrow> \<not> b \<and> r = Some None"
    "(if b then None else r) = Some None \<longleftrightarrow> \<not> b \<and> r = Some None"
    "(if b then Some None else r) = Some None \<longleftrightarrow> b \<or> r = Some None" for b e and r :: "errno option option"
    by auto
  have n: "\<not> (wrong_nesting a pt \<and> b) \<longleftrightarrow>
      \<not> (b \<and> (pol_type pt = NLA_NESTED \<or> pol_type pt = NLA_NESTED_ARRAY) \<and> \<not> nla_ftype a AND NLA_F_NESTED \<noteq> 0) \<and>
      \<not> (b \<and> pol_type pt \<noteq> NLA_NESTED \<and> pol_type pt \<noteq> NLA_NESTED_ARRAY \<and> pol_type pt \<noteq> NLA_UNSPEC \<and>
         nla_ftype a AND NLA_F_NESTED \<noteq> 0)" for pt b
    unfolding wrong_nesting_def by (cases "pol_type pt") auto
  show ?thesis
    unfolding n validate_nla_def Let_def strict_at_def [of a ps v, symmetric] wrong_len_def i c
    by (simp only: not_le conj_assoc disj_assoc)
qed

lemma nla_liberal:
  assumes "liberal_below n f" "nla_len a < n" "v AND NOT w = 0" "validate_nla f a m ps w = Some None"
  shows "validate_nla f a m ps v = Some None"
proof -
  have VW: "strict_at a ps v AND NOT (strict_at a ps w) = 0"
    using flags_or_mono [OF assms(3)] assms(3) by (simp add: strict_at_def)
  show ?thesis
    using assms(4) kind_liberal [OF assms(1,2) VW] flags_mono [OF VW] unfolding validate_nla_ok by blast
qed

lemma loop_liberal:
  "liberal_below n f \<Longrightarrow> v AND NOT w = 0 \<Longrightarrow> \<forall>a \<in> set as. nla_len a < n \<Longrightarrow>
   nla_parse_loop f m p w as tb = Some (None, tb') \<Longrightarrow> nla_parse_loop f m p v as tb = Some (None, tb')"
proof (induction "as" arbitrary: tb)
  case (Cons a as)
  note ih = Cons.IH [OF Cons.prems(1,2)]
  show ?case
  proof (cases "nla_type a = 0 \<or> m < nla_type a")
    case True
    then have "\<not> nl_flag w NL_VALIDATE_MAXTYPE" "nla_parse_loop f m p w as tb = Some (None, tb')"
      using Cons.prems(4) by (auto simp: Let_def split: if_splits)
    with True ih [of tb] Cons.prems(3) flags_mono [OF Cons.prems(2)] show ?thesis by (auto simp: Let_def)
  next
    case False
    have "nla_parse_loop f m p w as (tb(nla_type a \<mapsto> a)) = Some (None, tb')"
      "(case p of None \<Rightarrow> Some None | Some ps \<Rightarrow> validate_nla f a m ps w) = Some None"
      using False Cons.prems(4) by (auto simp: Let_def split: option.splits)
    moreover from this(2) have "(case p of None \<Rightarrow> Some None | Some ps \<Rightarrow> validate_nla f a m ps v) = Some None"
      using nla_liberal [OF Cons.prems(1) _ Cons.prems(2)] Cons.prems(3) by (cases p) simp_all
    moreover have "nla_parse_loop f m p v as (tb(nla_type a \<mapsto> a)) = Some (None, tb')"
      by (rule ih [OF _ calculation(1)]) (use Cons.prems(3) in simp)
    ultimately show ?thesis using False by (simp add: Let_def)
  qed
qed simp

lemma parse_liberal:
  assumes "liberal_below (length d) f" "v AND NOT w = 0" "nla_validate_parse f d m p w = Some (None, tb)"
  shows "nla_validate_parse f d m p v = Some (None, tb)"
proof -
  obtain as r where st: "nla_stream 0 d = (as, r)" by fastforce
  have "\<forall>a \<in> set as. nla_len a < length d" using stream_payload [of _ 0 d] st by fastforce
  from loop_liberal [OF assms(1,2) this, of m p Map.empty tb] show ?thesis
    using assms(3) flags_mono [OF assms(2), of NL_VALIDATE_TRAILING]
    by (auto simp: nla_validate_parse_def st split: option.splits if_splits)
qed

lemma rec_liberal: "liberal_below n nla_validate_rec"
proof (induction n)
  case (Suc n)
  have "nla_validate_rec v m p d = Some None"
    if "v AND NOT w = 0" "length d < Suc n" "nla_validate_rec w m p d = Some None" for v w m p d
  proof -
    have "liberal_below (length d) nla_validate_rec" using Suc that(2) by (auto simp: liberal_below_def)
    with parse_liberal [OF this that(1)] that(3) show ?thesis
      unfolding nla_validate_rec.simps [of _ m p d] by fastforce
  qed
  then show ?case unfolding liberal_below_def by blast
qed (simp add: liberal_below_def)

text \<open>
  A message that validation accepts with some flags is accepted with fewer flags, with the same table.
  So whatever the strict parser of new commands accepts, the liberal parser of old commands accepts.
\<close>

theorem nla_strict_implies_liberal:
  assumes "nla_parse m d p w = Some (None, tb)" "v AND NOT w = 0"
  shows "nla_parse m d p v = Some (None, tb)"
  using parse_liberal [OF rec_liberal assms(2)] assms(1) by (simp add: nla_parse_def)

section \<open>Reads\<close>

text \<open>
  A policy that validation can use without reading outside of it or of an attribute: an integer with limits has
  at least the length of its type, and a nested policy has an entry for each type up to its limit.
\<close>

definition int_ok :: "nla_policy \<Rightarrow> bool" where
  "int_ok p \<longleftrightarrow> (pol_type p \<in> int_kinds \<and> pol_validation p \<in> {NLA_VALIDATE_RANGE, NLA_VALIDATE_MIN, NLA_VALIDATE_MAX} \<longrightarrow>
     pol_len p = 0 \<or> nla_attr_len (pol_type p) \<le> pol_len p)"

fun pol_ok :: "nla_policy \<Rightarrow> bool" where
  "pol_ok (Nla_policy k x n (PD_policy ps)) \<longleftrightarrow>
     int_ok (Nla_policy k x n (PD_policy ps)) \<and>
     (k = NLA_NESTED \<or> k = NLA_NESTED_ARRAY \<longrightarrow> n < length ps \<and> (\<forall>p \<in> set ps. pol_ok p))"
| "pol_ok p \<longleftrightarrow> int_ok p"

lemma pol_ok_int: "pol_ok p \<Longrightarrow> int_ok p"
  by (induction p rule: pol_ok.induct) auto

lemma pol_ok_nested:
  "pol_ok p \<Longrightarrow> pol_type p = NLA_NESTED \<or> pol_type p = NLA_NESTED_ARRAY \<Longrightarrow> pol_data p = PD_policy ps \<Longrightarrow>
   pol_len p < length ps \<and> (\<forall>p \<in> set ps. pol_ok p)"
  by (cases p) auto

definition total_below :: "nat \<Rightarrow> nla_validator \<Rightarrow> bool" where
  "total_below n f \<longleftrightarrow> (\<forall>v m p d. m < length p \<and> (\<forall>x \<in> set p. pol_ok x) \<longrightarrow> length d < n \<longrightarrow> f v m p d \<noteq> None)"

lemma first_err_total: "(\<And>x. x \<in> set xs \<Longrightarrow> f x \<noteq> None) \<Longrightarrow> first_err f xs \<noteq> None"
  by (induction xs) (auto split: option.splits)

lemma array_total:
  assumes "total_below n f" "length d < n" "m < length p" "\<forall>x \<in> set p. pol_ok x"
  shows "nla_validate_array f d m p v \<noteq> None"
  unfolding nla_validate_array_def
proof (rule first_err_total)
  fix a assume "a \<in> set (fst (nla_stream 0 d))"
  then have "nla_len a < n" using stream_payload assms(2) by fastforce
  then have "f v m p (nla_payload a) \<noteq> None" using assms unfolding total_below_def by blast
  then show "(if nla_len a = 0 then Some None else if nla_len a < 4 then Some (Some ERANGE) else f v m p (nla_payload a)) \<noteq> None"
    by simp
qed

lemma kind_total:
  assumes "total_below n f" "nla_len a < n" "pol_ok pt"
  shows "validate_nla_kind f a pt v \<noteq> None"
proof -
  have "f v (pol_len pt) p (nla_payload a) \<noteq> None \<and> nla_validate_array f (nla_payload a) (pol_len pt) p v \<noteq> None"
    if "pol_data pt = PD_policy p" "pol_type pt = NLA_NESTED \<or> pol_type pt = NLA_NESTED_ARRAY" for p
    using pol_ok_nested [OF assms(3) that(2,1)] assms(1,2) array_total [OF assms(1,2)]
    unfolding total_below_def by blast
  then show ?thesis
    unfolding validate_nla_kind_def Let_def validate_nla_bitfield32_def
    by (cases "pol_type pt") (auto split: pol_data.split option.split)
qed

lemma further_total:
  assumes "validate_nla_kind f a pt v = Some None" "int_ok pt"
  shows "validate_nla_further pt (nla_payload a) \<noteq> None"
proof (cases "pol_validation pt \<in> {NLA_VALIDATE_RANGE, NLA_VALIDATE_MIN, NLA_VALIDATE_MAX} \<and> pol_type pt \<in> int_kinds")
  case True
  then have k: "nla_attr_len (pol_type pt) = nla_attr_minlen (pol_type pt)"
    "nla_attr_len (pol_type pt) \<le> (if pol_len pt \<noteq> 0 then pol_len pt else nla_attr_minlen (pol_type pt))"
    using assms(2) unfolding int_ok_def int_kinds_def
    by (auto simp: nla_attr_len_def nla_attr_minlen_def)
  have "(if pol_len pt \<noteq> 0 then pol_len pt else nla_attr_minlen (pol_type pt)) \<le> nla_len a"
    using True assms(1) unfolding validate_nla_kind_def Let_def int_kinds_def
    by (cases "pol_type pt") (simp_all split: if_splits)
  with k have len: "nla_attr_len (pol_type pt) \<le> nla_len a" by simp
  have "nla_validate_int_range pt (nla_payload a) \<noteq> None"
    using True len unfolding int_kinds_def nla_validate_int_range_def Let_def
    by (cases "pol_type pt") (simp_all add: nla_attr_len_def nla_get_u_def nla_get_s_def split: pol_data.splits)
  then show ?thesis by (simp add: validate_nla_further_def split: nla_policy_validation.split pol_data.split)
next
  case False
  then show ?thesis
    by (cases "pol_validation pt")
      (auto simp: validate_nla_further_def nla_validate_int_range_def int_kinds_def Let_def split: pol_data.splits)
qed

lemma nla_total:
  assumes "total_below n f" "nla_len a < n" "m < length ps" "\<forall>x \<in> set ps. pol_ok x"
  shows "validate_nla f a m ps v \<noteq> None"
proof (cases "nla_type a = 0 \<or> m < nla_type a")
  case True
  then show ?thesis using assms(3) unfolding validate_nla_def Let_def by (auto)
next
  case False
  then have ok: "pol_ok (ps ! nla_type a)" "nla_type a < length ps" using assms(3,4) by simp_all
  have n: "ps \<noteq> []" using assms(3) by auto
  have k: "validate_nla_kind f a (ps ! nla_type a) w \<noteq> None" for w by (rule kind_total [OF assms(1,2) ok(1)])
  have t: "(case validate_nla_kind f a (ps ! nla_type a) w of
      Some None \<Rightarrow> validate_nla_further (ps ! nla_type a) (nla_payload a) | r \<Rightarrow> r) \<noteq> None" for w
    using k [of w] further_total [OF _ pol_ok_int [OF ok(1)]] by (auto split: option.split)
  have i: "(if b then Some (Some e) else r) = None \<longleftrightarrow> \<not> b \<and> r = None" for b e and r :: "errno option option" by simp
  have f: "(nla_type a = 0 \<or> m < nla_type a) = False" "(ps = []) = False" "(length ps \<le> nla_type a) = False"
    using False n ok(2) by simp_all
  show ?thesis
    unfolding validate_nla_def Let_def f if_False i using t by blast
qed

lemma loop_total:
  "total_below n f \<Longrightarrow> \<forall>ps. p = Some ps \<longrightarrow> m < length ps \<and> (\<forall>x \<in> set ps. pol_ok x) \<Longrightarrow> \<forall>a \<in> set as. nla_len a < n \<Longrightarrow>
   nla_parse_loop f m p v as tb \<noteq> None"
proof (induction "as" arbitrary: tb)
  case (Cons a as)
  note ih = Cons.IH [OF Cons.prems(1,2)]
  have "(case p of None \<Rightarrow> Some None | Some ps \<Rightarrow> validate_nla f a m ps v) \<noteq> None"
    using nla_total [OF Cons.prems(1)] Cons.prems(2,3) by (cases p) simp_all
  moreover have "nla_parse_loop f m p v as tb \<noteq> None" for tb by (rule ih) (use Cons.prems(3) in simp)
  ultimately show ?case by (auto simp: Let_def split: option.splits)
qed simp

lemma parse_total:
  assumes "total_below (length d) f" "\<forall>ps. p = Some ps \<longrightarrow> m < length ps \<and> (\<forall>x \<in> set ps. pol_ok x)"
  shows "nla_validate_parse f d m p v \<noteq> None"
proof -
  obtain as r where st: "nla_stream 0 d = (as, r)" by fastforce
  have "\<forall>a \<in> set as. nla_len a < length d" using stream_payload [of _ 0 d] st by fastforce
  from loop_total [OF assms this, of v Map.empty] show ?thesis
    by (auto simp: nla_validate_parse_def st split: option.splits)
qed

lemma rec_total: "total_below n nla_validate_rec"
proof (induction n)
  case (Suc n)
  have "nla_validate_rec v m p d \<noteq> None"
    if "m < length p \<and> (\<forall>x \<in> set p. pol_ok x)" "length d < Suc n" for v m p d
  proof -
    have "total_below (length d) nla_validate_rec" using Suc that(2) by (auto simp: total_below_def)
    from parse_total [OF this, of "Some p" m v] that(1) show ?thesis unfolding nla_validate_rec.simps [of v m p d] by simp
  qed
  then show ?case unfolding total_below_def by blast
qed (simp add: total_below_def)

text \<open>
  Property C27: under a policy with an entry for each type, at every level of nesting, and integers that are at least
  as long as their type, parsing reads nothing outside of the attributes and policies, whatever the message holds.
\<close>

theorem nla_parse_no_overread:
  assumes "\<forall>ps. p = Some ps \<longrightarrow> m < length ps \<and> list_all pol_ok ps"
  shows "nla_parse m d p v \<noteq> None"
  using parse_total [OF rec_total, of p m d v] assms by (simp add: nla_parse_def list_all_iff)

section \<open>A policy and a message\<close>

text \<open>An integer of 32 bits between 1 and 10, and a nested attribute with one string of at most 4 characters.\<close>

definition demo_policy :: "nla_policy list" where
  "demo_policy =
     [Nla_policy NLA_UNSPEC NLA_VALIDATE_NONE 0 PD_none,
      Nla_policy NLA_U32 NLA_VALIDATE_RANGE 0 (PD_range 1 10),
      Nla_policy NLA_NESTED NLA_VALIDATE_NONE 1
        (PD_policy [Nla_policy NLA_UNSPEC NLA_VALIDATE_NONE 0 PD_none, Nla_policy NLA_STRING NLA_VALIDATE_NONE 4 PD_none])]"

definition demo_message :: bytes where
  "demo_message = [8, 0, 1, 0, 7, 0, 0, 0,  12, 0, 2, 128, 6, 0, 1, 0, 65, 66, 0, 0]"

lemma demo_int: "nla_validate_int_range (demo_policy ! 1) [7, 0, 0, 0] = Some None"
  by (simp add: demo_policy_def nla_validate_int_range_def nla_get_u_def Let_def)

lemma demo_streams:
  "nla_stream 0 demo_message =
     ([\<lparr>nla_pos = 0, nla_ftype = 1, nla_payload = [7, 0, 0, 0]\<rparr>,
       \<lparr>nla_pos = 8, nla_ftype = 0x8002, nla_payload = [6, 0, 1, 0, 65, 66, 0, 0]\<rparr>], 0)"
  "nla_stream 0 [6, 0, 1, 0, 65, 66, 0, 0] = ([\<lparr>nla_pos = 0, nla_ftype = 1, nla_payload = [65, 66]\<rparr>], 0)"
  by (simp_all add: demo_message_def nla_stream.simps nla_ok_def u16_at_def NLA_ALIGN_def Let_def)

lemma demo_types:
  "nla_type \<lparr>nla_pos = 0, nla_ftype = 1, nla_payload = b\<rparr> = 1"
  "nla_type \<lparr>nla_pos = 8, nla_ftype = 0x8002, nla_payload = b\<rparr> = 2"
  by (simp_all add: nla_type_def NLA_F_NESTED_def NLA_F_NET_BYTEORDER_def)

lemma demo_parse:
  "nla_parse 2 demo_message (Some demo_policy) NL_VALIDATE_STRICT =
     Some (None, [1 \<mapsto> \<lparr>nla_pos = 0, nla_ftype = 1, nla_payload = [7, 0, 0, 0]\<rparr>,
                  2 \<mapsto> \<lparr>nla_pos = 8, nla_ftype = 0x8002, nla_payload = [6, 0, 1, 0, 65, 66, 0, 0]\<rparr>])"
proof -
  have "nla_validate_rec NL_VALIDATE_STRICT 1
      [Nla_policy NLA_UNSPEC NLA_VALIDATE_NONE 0 PD_none, Nla_policy NLA_STRING NLA_VALIDATE_NONE 4 PD_none]
      [6, 0, 1, 0, 65, 66, 0, 0] = Some None"
    by (simp add: nla_validate_rec.simps nla_validate_parse_def demo_streams demo_types Let_def validate_nla_def
        strict_start_type_def nla_attr_len_def NLA_F_NESTED_def validate_nla_kind_def validate_nla_further_def)
  with demo_int show ?thesis
    by (simp add: nla_parse_def nla_validate_parse_def demo_streams demo_types Let_def validate_nla_def demo_policy_def
        strict_start_type_def nla_attr_len_def nla_attr_minlen_def NLA_F_NESTED_def validate_nla_kind_def validate_nla_further_def)
qed

theorem nla_parse_sound_witness:
  "nla_parse 2 demo_message (Some demo_policy) NL_VALIDATE_STRICT \<noteq> None \<and>
   conforms (demo_policy ! 1) \<lparr>nla_pos = 0, nla_ftype = 1, nla_payload = [7, 0, 0, 0]\<rparr>"
proof (intro conjI)
  have "[1 \<mapsto> \<lparr>nla_pos = 0, nla_ftype = 1, nla_payload = [7, 0, 0, 0]\<rparr>,
         2 \<mapsto> \<lparr>nla_pos = 8, nla_ftype = 0x8002, nla_payload = [6, 0, 1, 0, 65, 66, 0, 0]\<rparr>] (1 :: nat) =
       Some \<lparr>nla_pos = 0, nla_ftype = 1, nla_payload = [7, 0, 0, 0 :: u8]\<rparr>" by simp
  from nla_parse_sound [OF demo_parse this]
  show "conforms (demo_policy ! 1) \<lparr>nla_pos = 0, nla_ftype = 1, nla_payload = [7, 0, 0, 0]\<rparr>" by (elim conjE)
qed (simp add: demo_parse)

theorem nla_strict_implies_liberal_witness:
  "\<exists>tb. nla_parse 2 demo_message (Some demo_policy) 0 = Some (None, tb) \<and> tb 1 \<noteq> None"
  using nla_strict_implies_liberal [OF demo_parse, of 0] by simp

theorem nla_parse_no_overread_witness: "nla_parse 2 (255 # demo_message) (Some demo_policy) NL_VALIDATE_STRICT \<noteq> None"
  by (rule nla_parse_no_overread) (simp add: demo_policy_def int_ok_def)

end
