(* ===== verification/Tx_Queue.thy ===== *)
theory Tx_Queue
  imports Prelude
begin

unbundle bit_operations_syntax

text \<open>
  Model of the transmit queues of mac80211: the reasons for which a queue is stopped
  (\<open>net/mac80211/util.c\<close>, \<open>_ieee80211_wake_txqs\<close> to \<open>ieee80211_wake_vif_queues\<close>), and the frames that wait for a
  stopped queue (\<open>ieee80211_tx_frags\<close> to \<open>ieee80211_tx_pending\<close> in \<open>net/mac80211/tx.c\<close>).

  Each operation holds \<open>queue_stop_reason_lock\<close> and is atomic here, but for the tasklet, which gives up the lock
  around each frame: \<open>tx_dequeue\<close> and \<open>tx_pending_skb\<close> are its steps. The frames handed to the driver
  (\<open>drv_tx\<close>) are appended to \<open>drv_sent\<close>, those freed to \<open>tx_freed\<close>.
\<close>

section \<open>State\<close>

datatype queue_stop_reason =
    STOP_DRIVER | STOP_PS | STOP_CSA | STOP_AGGREGATION | STOP_SUSPEND | STOP_SKB_ADD | STOP_OFFCHANNEL
  | STOP_FLUSH | STOP_TDLS_TEARDOWN | STOP_RESERVE_TID

definition IEEE80211_NUM_ACS :: nat where "IEEE80211_NUM_ACS = 4"
definition IEEE80211_INVAL_HW_QUEUE :: nat where "IEEE80211_INVAL_HW_QUEUE = 0xff"
definition IEEE80211_MAX_QUEUE_MAP :: u64 where "IEEE80211_MAX_QUEUE_MAP = 0xffff"

text \<open>An interface: whether it has a network device, the hardware queue of each access category, and its cab queue.\<close>

record tx_iface =
  if_dev :: bool
  if_hw_queue :: "nat \<Rightarrow> nat"
  if_cab_queue :: nat

text \<open>A frame: its hardware queue, whether \<open>control.vif\<close> is set, and the two flags that are read here.\<close>

record tx_frame =
  fr_id :: nat
  fr_hw_queue :: nat
  fr_vif :: bool
  fr_offchan_ok :: bool
  fr_processing :: bool

record tx_local =
  hw_queues :: nat
  op_wake_tx_queue :: bool
  op_flush :: bool
  hw_queue_control :: bool
  interfaces :: "tx_iface list"
  queue_stop_reasons :: "nat \<Rightarrow> queue_stop_reason set"
  q_stop_reasons :: "nat \<Rightarrow> queue_stop_reason \<Rightarrow> int"
  pending :: "nat \<Rightarrow> tx_frame list"
  subqueue_stopped :: "nat \<Rightarrow> nat \<Rightarrow> bool"
  txqs_stopped :: "nat \<Rightarrow> nat \<Rightarrow> bool"
  tx_pending_tasklet :: bool
  wake_txqs_tasklet :: bool
  drv_sent :: "tx_frame list"
  tx_freed :: "tx_frame list"

definition n_acs :: "tx_local \<Rightarrow> nat" where
  "n_acs l = (if hw_queues l < IEEE80211_NUM_ACS then 1 else IEEE80211_NUM_ACS)"

section \<open>Stopping and waking a queue\<close>

text \<open>The access category \<open>ac\<close> of interface \<open>i\<close> is found by the loops, and satisfies \<open>P\<close>.\<close>

definition on_iface :: "tx_local \<Rightarrow> (tx_iface \<Rightarrow> nat \<Rightarrow> bool) \<Rightarrow> nat \<Rightarrow> nat \<Rightarrow> bool" where
  "on_iface l P i ac \<longleftrightarrow> i < length (interfaces l) \<and> ac < n_acs l \<and> P (interfaces l ! i) ac"

definition stop_queue :: "nat \<Rightarrow> queue_stop_reason \<Rightarrow> bool \<Rightarrow> tx_local \<Rightarrow> tx_local" where
  "stop_queue queue reason refcounted l =
     (if hw_queues l \<le> queue then l
      else let n = (if refcounted then q_stop_reasons l queue reason + 1 else 1);
               l1 = l\<lparr>q_stop_reasons := (q_stop_reasons l)(queue := (q_stop_reasons l queue)(reason := n))\<rparr>
      in if reason \<in> queue_stop_reasons l1 queue then l1
         else let l2 = l1\<lparr>queue_stop_reasons := (queue_stop_reasons l1)(queue := insert reason (queue_stop_reasons l1 queue))\<rparr>;
                  hit = on_iface l (\<lambda>s ac. if_dev s \<and> (if_hw_queue s ac = queue \<or> if_cab_queue s = queue))
              in if op_wake_tx_queue l2
                 then l2\<lparr>txqs_stopped := (\<lambda>i ac. txqs_stopped l2 i ac \<or> hit i ac)\<rparr>
                 else l2\<lparr>subqueue_stopped := (\<lambda>i ac. subqueue_stopped l2 i ac \<or> hit i ac)\<rparr>)"

definition propagate_queue_wake :: "nat \<Rightarrow> tx_local \<Rightarrow> tx_local" where
  "propagate_queue_wake queue l =
     (if op_wake_tx_queue l then l
      else let hit = on_iface l (\<lambda>s ac. if_dev s \<and>
             \<not> (if_cab_queue s \<noteq> IEEE80211_INVAL_HW_QUEUE \<and> queue_stop_reasons l (if_cab_queue s) \<noteq> {}) \<and>
             (if_hw_queue s ac = queue \<or>
              if_cab_queue s = queue \<and> queue_stop_reasons l (if_hw_queue s ac) = {} \<and> pending l (if_hw_queue s ac) = []))
           in l\<lparr>subqueue_stopped := (\<lambda>i ac. subqueue_stopped l i ac \<and> \<not> hit i ac)\<rparr>)"

text \<open>\<open>_ieee80211_wake_txqs\<close>, without the flags of the intermediate queues of stations.\<close>

definition wake_txqs :: "tx_local \<Rightarrow> tx_local" where
  "wake_txqs l =
     l\<lparr>txqs_stopped := (\<lambda>i ac. txqs_stopped l i ac \<and>
         \<not> on_iface l (\<lambda>s ac. list_ex (\<lambda>q. queue_stop_reasons l q = {} \<and> (if_hw_queue s ac = q \<or> if_cab_queue s = q))
              [0..<hw_queues l]) i ac)\<rparr>"

definition ieee80211_wake_txqs :: "tx_local \<Rightarrow> tx_local" where
  "ieee80211_wake_txqs l = wake_txqs (l\<lparr>wake_txqs_tasklet := False\<rparr>)"

definition wake_queue :: "nat \<Rightarrow> queue_stop_reason \<Rightarrow> bool \<Rightarrow> tx_local \<Rightarrow> tx_local" where
  "wake_queue queue reason refcounted l =
     (if hw_queues l \<le> queue then l
      else if reason \<notin> queue_stop_reasons l queue then l
      else let n = (if \<not> refcounted then 0 else max 0 (q_stop_reasons l queue reason - 1));
               l1 = l\<lparr>q_stop_reasons := (q_stop_reasons l)(queue := (q_stop_reasons l queue)(reason := n)),
                      queue_stop_reasons := (if n = 0
                        then (queue_stop_reasons l)(queue := queue_stop_reasons l queue - {reason})
                        else queue_stop_reasons l)\<rparr>
      in if queue_stop_reasons l1 queue \<noteq> {} then l1
         else let l2 = (if pending l1 queue = [] then propagate_queue_wake queue l1 else l1\<lparr>tx_pending_tasklet := True\<rparr>)
              in if op_wake_tx_queue l2
                 then (if reason = STOP_DRIVER then l2\<lparr>wake_txqs_tasklet := True\<rparr> else wake_txqs l2)
                 else l2)"

definition ieee80211_stop_queue :: "nat \<Rightarrow> tx_local \<Rightarrow> tx_local" where
  "ieee80211_stop_queue queue l = stop_queue queue STOP_DRIVER False l"

definition ieee80211_wake_queue :: "nat \<Rightarrow> tx_local \<Rightarrow> tx_local" where
  "ieee80211_wake_queue queue l = wake_queue queue STOP_DRIVER False l"

definition ieee80211_queue_stopped :: "nat \<Rightarrow> tx_local \<Rightarrow> bool" where
  "ieee80211_queue_stopped queue l = (if hw_queues l \<le> queue then True else STOP_DRIVER \<in> queue_stop_reasons l queue)"

section \<open>Several queues\<close>

definition set_queues :: "u64 \<Rightarrow> tx_local \<Rightarrow> nat list" where
  "set_queues queues l = filter (bit queues) [0..<hw_queues l]"

definition stop_queues_by_reason :: "u64 \<Rightarrow> queue_stop_reason \<Rightarrow> bool \<Rightarrow> tx_local \<Rightarrow> tx_local" where
  "stop_queues_by_reason queues reason refcounted l =
     fold (\<lambda>q. stop_queue q reason refcounted) (set_queues queues l) l"

definition wake_queues_by_reason :: "u64 \<Rightarrow> queue_stop_reason \<Rightarrow> bool \<Rightarrow> tx_local \<Rightarrow> tx_local" where
  "wake_queues_by_reason queues reason refcounted l =
     fold (\<lambda>q. wake_queue q reason refcounted) (set_queues queues l) l"

definition ieee80211_stop_queues :: "tx_local \<Rightarrow> tx_local" where
  "ieee80211_stop_queues l = stop_queues_by_reason IEEE80211_MAX_QUEUE_MAP STOP_DRIVER False l"

definition ieee80211_wake_queues :: "tx_local \<Rightarrow> tx_local" where
  "ieee80211_wake_queues l = wake_queues_by_reason IEEE80211_MAX_QUEUE_MAP STOP_DRIVER False l"

definition get_vif_queues :: "tx_local \<Rightarrow> tx_iface option \<Rightarrow> u64" where
  "get_vif_queues l sdata =
     (case sdata of
        Some s \<Rightarrow> if hw_queue_control l
          then (let m = foldl (\<lambda>m ac. m OR push_bit (if_hw_queue s ac) 1) 0 [0..<IEEE80211_NUM_ACS]
                in if if_cab_queue s \<noteq> IEEE80211_INVAL_HW_QUEUE then m OR push_bit (if_cab_queue s) 1 else m)
          else push_bit (hw_queues l) 1 - 1
      | None \<Rightarrow> push_bit (hw_queues l) 1 - 1)"

definition stop_vif_queues :: "tx_iface option \<Rightarrow> queue_stop_reason \<Rightarrow> tx_local \<Rightarrow> tx_local" where
  "stop_vif_queues sdata reason l = stop_queues_by_reason (get_vif_queues l sdata) reason True l"

definition wake_vif_queues :: "tx_iface option \<Rightarrow> queue_stop_reason \<Rightarrow> tx_local \<Rightarrow> tx_local" where
  "wake_vif_queues sdata reason l = wake_queues_by_reason (get_vif_queues l sdata) reason True l"

text \<open>\<open>drv_flush\<close> is a call of the driver.\<close>

definition flush_queues :: "(tx_local \<Rightarrow> tx_local) \<Rightarrow> tx_iface option \<Rightarrow> u64 \<Rightarrow> tx_local \<Rightarrow> tx_local" where
  "flush_queues drv_flush sdata queues l =
     (if \<not> op_flush l then l
      else let qs = (if queues = 0 \<or> \<not> hw_queue_control l then get_vif_queues l sdata else queues)
      in wake_queues_by_reason qs STOP_FLUSH False (drv_flush (stop_queues_by_reason qs STOP_FLUSH False l)))"

section \<open>Frames\<close>

definition add_pending_skb :: "tx_frame \<Rightarrow> tx_local \<Rightarrow> tx_local" where
  "add_pending_skb skb l =
     (if \<not> fr_vif skb then l\<lparr>tx_freed := tx_freed l @ [skb]\<rparr>
      else let q = fr_hw_queue skb;
               l1 = stop_queue q STOP_SKB_ADD False l;
               l2 = l1\<lparr>pending := (pending l1)(q := pending l1 q @ [skb])\<rparr>
           in wake_queue q STOP_SKB_ADD False l2)"

fun add_pending_loop :: "tx_frame list \<Rightarrow> tx_local \<Rightarrow> tx_local" where
  "add_pending_loop [] l = l"
| "add_pending_loop (skb # skbs) l =
     (if \<not> fr_vif skb then add_pending_loop skbs (l\<lparr>tx_freed := tx_freed l @ [skb]\<rparr>)
      else let q = fr_hw_queue skb;
               l1 = stop_queue q STOP_SKB_ADD False l
           in add_pending_loop skbs (l1\<lparr>pending := (pending l1)(q := pending l1 q @ [skb])\<rparr>))"

definition add_pending_skbs :: "tx_frame list \<Rightarrow> tx_local \<Rightarrow> tx_local" where
  "add_pending_skbs skbs l =
     fold (\<lambda>q. wake_queue q STOP_SKB_ADD False) [0..<hw_queues l] (add_pending_loop skbs l)"

text \<open>The fragments of a frame. The result says whether they were sent (or dropped) and not queued.\<close>

fun tx_frags :: "bool \<Rightarrow> tx_frame list \<Rightarrow> tx_local \<Rightarrow> bool \<times> tx_local" where
  "tx_frags txpending [] l = (True, l)"
| "tx_frags txpending (skb # skbs) l =
     (let q = fr_hw_queue skb;
          stopped = (queue_stop_reasons l q \<noteq> {} \<or> \<not> txpending \<and> pending l q \<noteq> [])
      in if stopped \<and> fr_offchan_ok skb \<and> queue_stop_reasons l q - {STOP_OFFCHANNEL} \<noteq> {}
         then (True, l\<lparr>tx_freed := tx_freed l @ skb # skbs\<rparr>)
         else if stopped \<and> \<not> fr_offchan_ok skb
         then (False, l\<lparr>pending := (pending l)(q :=
                 if txpending then (skb # skbs) @ pending l q else pending l q @ skb # skbs)\<rparr>)
         else tx_frags txpending skbs (l\<lparr>drv_sent := drv_sent l @ [skb\<lparr>fr_vif := True\<rparr>]\<rparr>))"

text \<open>
  A frame marked for processing goes through the transmit handlers; \<open>handlers skb\<close> is the list of fragments
  that come out, or \<open>None\<close> when they drop the frame or keep it elsewhere.
\<close>

definition tx_pending_skb :: "(tx_frame \<Rightarrow> tx_frame list option) \<Rightarrow> tx_frame \<Rightarrow> tx_local \<Rightarrow> bool \<times> tx_local" where
  "tx_pending_skb handlers skb l =
     (if fr_processing skb
      then (case handlers skb of None \<Rightarrow> (True, l) | Some skbs \<Rightarrow> tx_frags True skbs l)
      else tx_frags True [skb] l)"

text \<open>One round of the loop of the tasklet up to where it gives up the lock.\<close>

definition tx_dequeue :: "nat \<Rightarrow> tx_local \<Rightarrow> tx_frame option \<times> tx_local" where
  "tx_dequeue i l =
     (case pending l i of
        [] \<Rightarrow> (None, l)
      | skb # skbs \<Rightarrow>
          let l1 = l\<lparr>pending := (pending l)(i := skbs)\<rparr>
          in if fr_vif skb then (Some skb, l1) else (None, l1\<lparr>tx_freed := tx_freed l1 @ [skb]\<rparr>))"

lemma frags_pending: "fst (tx_frags True skbs l) \<Longrightarrow> pending (snd (tx_frags True skbs l)) = pending l"
  by (induction skbs arbitrary: l) (auto simp: Let_def split: if_splits)

lemma pending_skb_pending: "fst (tx_pending_skb h skb l) \<Longrightarrow> pending (snd (tx_pending_skb h skb l)) = pending l"
  using frags_pending by (auto simp: tx_pending_skb_def simp del: tx_frags.simps split: option.splits if_splits)

text \<open>The loop over the frames of one queue, when no other operation comes in between.\<close>

function tx_drain :: "(tx_frame \<Rightarrow> tx_frame list option) \<Rightarrow> nat \<Rightarrow> tx_local \<Rightarrow> tx_local" where
  "tx_drain handlers i l =
     (if pending l i = [] then l
      else case tx_dequeue i l of
        (None, l1) \<Rightarrow> tx_drain handlers i l1
      | (Some skb, l1) \<Rightarrow>
          let (txok, l2) = tx_pending_skb handlers skb l1
          in if txok then tx_drain handlers i l2 else l2)"
  by pat_completeness auto
termination
proof (relation "measure (\<lambda>(h, i, l). length (pending l i))", goal_cases)
  case (2 handlers i l a l1)
  then show ?case by (auto simp: tx_dequeue_def Let_def split: list.splits if_splits)
next
  case (3 handlers i l a l1 skb txok r l2)
  then have "pending l2 = pending l1" using pending_skb_pending [of handlers skb l1] by (metis fst_conv snd_conv)
  with 3 show ?case by (auto simp: tx_dequeue_def Let_def split: list.splits if_splits)
qed simp

declare tx_drain.simps [simp del]

definition tx_pending_queue :: "(tx_frame \<Rightarrow> tx_frame list option) \<Rightarrow> nat \<Rightarrow> tx_local \<Rightarrow> tx_local" where
  "tx_pending_queue handlers i l =
     (if queue_stop_reasons l i \<noteq> {} \<or> pending l i = [] then l
      else let l1 = tx_drain handlers i l
           in if pending l1 i = [] then propagate_queue_wake i l1 else l1)"

definition ieee80211_tx_pending :: "(tx_frame \<Rightarrow> tx_frame list option) \<Rightarrow> tx_local \<Rightarrow> tx_local" where
  "ieee80211_tx_pending handlers l =
     fold (tx_pending_queue handlers) [0..<hw_queues l] (l\<lparr>tx_pending_tasklet := False\<rparr>)"

end
