(* ===== verification/Tx_Ba.thy ===== *)
theory Tx_Ba
  imports Tx_Queue Reorder Jiffies Chandef
begin

unbundle bit_operations_syntax

text \<open>
  Model of the block-ack sessions of the transmit side: \<open>net/mac80211/agg-tx.c\<close>, the work of a station that drives
  them (\<open>ieee80211_ba_session_work\<close> and \<open>ieee80211_sta_tear_down_BA_sessions\<close> in \<open>net/mac80211/ht.c\<close>) and the test of
  the transmit path (\<open>ieee80211_tx_prep_agg\<close> in \<open>net/mac80211/tx.c\<close>).

  One station and the device are one state. In the port the calls of the driver (\<open>drv_ampdu_action\<close>) are commented out
  and the variable \<open>ret\<close> that took their result has no value: it is an argument. The splice of the frames of a session
  into the queue of the device is commented out too, so they stay with the session; those a session still has when
  it is freed are appended to \<open>leaked\<close>. The result \<open>None\<close> is the use of a session that is null or was freed.
\<close>

section \<open>Sessions\<close>

datatype agg_bit =
    HT_AGG_STATE_DRV_READY | HT_AGG_STATE_RESPONSE_RECEIVED | HT_AGG_STATE_OPERATIONAL | HT_AGG_STATE_STOPPING
  | HT_AGG_STATE_WANT_START | HT_AGG_STATE_WANT_STOP | HT_AGG_STATE_START_CB | HT_AGG_STATE_STOP_CB

datatype ieee80211_agg_stop_reason =
    AGG_STOP_DECLINED | AGG_STOP_LOCAL_REQUEST | AGG_STOP_PEER_REQUEST | AGG_STOP_DESTROY_STA

datatype txq_info_flag = IEEE80211_TXQ_STOP | IEEE80211_TXQ_AMPDU | IEEE80211_TXQ_NO_AMSDU | IEEE80211_TXQ_STOP_NETIF_TX

record tid_ampdu_tx =
  session_timer :: "u64 option"
  addba_resp_timer :: "u64 option"
  agg_pending :: "tx_frame list"
  agg_state :: "agg_bit set"
  last_tx :: u64
  agg_tx_timeout :: u16
  dialog_token :: u8
  stop_initiator :: u8
  tx_stop :: bool
  tx_buf_size :: u16
  tx_amsdu :: bool

text \<open>The action frames sent.\<close>

datatype ba_frame = Addba_req (req_tid: nat) (req_token: u8) (req_capab: u16) (req_timeout: u16) (req_ssn: u16)
  | Delba (delba_params: u16) (delba_reason: u16)

record tx_ba =
  ba_local :: tx_local
  agg_queue_stop :: "nat \<Rightarrow> int"
  vif_hw_queue :: "nat \<Rightarrow> nat"
  vif_type :: nl80211_iftype
  op_ampdu_action :: bool
  hw_ampdu_aggregation :: bool
  hw_tx_ampdu_setup_in_hw :: bool
  max_tx_aggregation_subframes :: u16
  ba_sent :: "ba_frame list"
  sta_rx :: sta_ampdu
  rx_timer_expired :: "nat \<Rightarrow> bool"
  rx_stop_requested :: "nat \<Rightarrow> bool"
  rx_manage_offl :: "nat \<Rightarrow> bool"
  reserved_tid :: nat
  tid_tx :: "nat \<Rightarrow> tid_ampdu_tx option"
  tid_start_tx :: "nat \<Rightarrow> tid_ampdu_tx option"
  last_addba_req_time :: "nat \<Rightarrow> u64"
  addba_req_num :: "nat \<Rightarrow> u8"
  dialog_token_allocator :: u8
  sta_txq :: "nat \<Rightarrow> txq_info_flag set option"
  tid_seq :: "nat \<Rightarrow> u16"
  ampdu_work :: bool
  leaked :: "tx_frame list"

definition IEEE80211_NUM_TIDS :: nat where "IEEE80211_NUM_TIDS = 16"
definition IEEE80211_FIRST_TSPEC_TSID :: nat where "IEEE80211_FIRST_TSPEC_TSID = 8"
definition HT_AGG_MAX_RETRIES :: u8 where "HT_AGG_MAX_RETRIES = 15"
definition HT_AGG_BURST_RETRIES :: u8 where "HT_AGG_BURST_RETRIES = 3"
definition HT_AGG_RETRIES_PERIOD :: u64 where "HT_AGG_RETRIES_PERIOD = 15 * HZ"
definition ADDBA_RESP_INTERVAL :: u64 where "ADDBA_RESP_INTERVAL = HZ"
definition WLAN_BACK_RECIPIENT :: u16 where "WLAN_BACK_RECIPIENT = 0"
definition WLAN_BACK_INITIATOR :: u16 where "WLAN_BACK_INITIATOR = 1"
definition WLAN_REASON_UNSPECIFIED :: u16 where "WLAN_REASON_UNSPECIFIED = 1"
definition WLAN_REASON_QSTA_LEAVE_QBSS :: u16 where "WLAN_REASON_QSTA_LEAVE_QBSS = 36"
definition WLAN_REASON_QSTA_NOT_USE :: u16 where "WLAN_REASON_QSTA_NOT_USE = 37"
definition WLAN_REASON_QSTA_TIMEOUT :: u16 where "WLAN_REASON_QSTA_TIMEOUT = 39"
definition IEEE80211_MAX_AMPDU_BUF_HT :: u16 where "IEEE80211_MAX_AMPDU_BUF_HT = 0x40"
definition IEEE80211_AMPDU_TX_START_IMMEDIATE :: int where "IEEE80211_AMPDU_TX_START_IMMEDIATE = 1"
definition STA_MAX_TX_BUFFER :: nat where "STA_MAX_TX_BUFFER = 64"

definition TU_TO_JIFFIES :: "u16 \<Rightarrow> u64" where "TU_TO_JIFFIES x = usecs_to_jiffies (ucast x * 1024)"

section \<open>Frames\<close>

definition send_addba_request :: "nat \<Rightarrow> u8 \<Rightarrow> u16 \<Rightarrow> u16 \<Rightarrow> u16 \<Rightarrow> tx_ba \<Rightarrow> tx_ba" where
  "send_addba_request tid token start_seq_num agg_size timeout s =
     (let capab = 1 OR 2 OR push_bit 2 (of_nat tid) OR push_bit 6 agg_size
      in s\<lparr>ba_sent := ba_sent s @ [Addba_req tid token capab timeout (push_bit 4 start_seq_num)]\<rparr>)"

definition send_delba :: "nat \<Rightarrow> u16 \<Rightarrow> u16 \<Rightarrow> tx_ba \<Rightarrow> tx_ba" where
  "send_delba tid initiator reason_code s =
     s\<lparr>ba_sent := ba_sent s @ [Delba (push_bit 11 initiator OR push_bit 12 (of_nat tid)) reason_code]\<rparr>"

section \<open>Queues\<close>

definition ieee802_1d_to_ac :: "nat list" where "ieee802_1d_to_ac = [2, 3, 3, 2, 1, 1, 0, 0]"

definition ieee80211_ac_from_tid :: "nat \<Rightarrow> nat" where "ieee80211_ac_from_tid tid = ieee802_1d_to_ac ! (tid mod 8)"

definition agg_queue :: "nat \<Rightarrow> tx_ba \<Rightarrow> nat" where
  "agg_queue tid s = vif_hw_queue s (ieee80211_ac_from_tid tid)"

definition stop_queue_agg :: "nat \<Rightarrow> tx_ba \<Rightarrow> tx_ba" where
  "stop_queue_agg tid s =
     (let queue = agg_queue tid s; n = agg_queue_stop s queue + 1;
          s1 = s\<lparr>agg_queue_stop := (agg_queue_stop s)(queue := n)\<rparr>
      in if n = 1 then s1\<lparr>ba_local := stop_queue queue STOP_AGGREGATION False (ba_local s1)\<rparr> else s1)"

definition wake_queue_agg :: "nat \<Rightarrow> tx_ba \<Rightarrow> tx_ba" where
  "wake_queue_agg tid s =
     (let queue = agg_queue tid s; n = agg_queue_stop s queue - 1;
          s1 = s\<lparr>agg_queue_stop := (agg_queue_stop s)(queue := n)\<rparr>
      in if n = 0 then s1\<lparr>ba_local := wake_queue queue STOP_AGGREGATION False (ba_local s1)\<rparr> else s1)"

definition agg_stop_txq :: "nat \<Rightarrow> tx_ba \<Rightarrow> tx_ba" where
  "agg_stop_txq tid s = s\<lparr>sta_txq := (sta_txq s)(tid := map_option (insert IEEE80211_TXQ_STOP) (sta_txq s tid))\<rparr>"

definition agg_start_txq :: "nat \<Rightarrow> bool \<Rightarrow> tx_ba \<Rightarrow> tx_ba" where
  "agg_start_txq tid enable s =
     s\<lparr>sta_txq := (sta_txq s)(tid := map_option (\<lambda>f.
         (if enable then insert IEEE80211_TXQ_AMPDU f else f - {IEEE80211_TXQ_AMPDU}) - {IEEE80211_TXQ_STOP}) (sta_txq s tid))\<rparr>"

text \<open>The splice itself is commented out.\<close>

definition agg_splice_packets :: "nat \<Rightarrow> tx_ba \<Rightarrow> tx_ba" where "agg_splice_packets tid s = stop_queue_agg tid s"
definition agg_splice_finish :: "nat \<Rightarrow> tx_ba \<Rightarrow> tx_ba" where "agg_splice_finish tid s = wake_queue_agg tid s"

definition assign_tid_tx :: "nat \<Rightarrow> tid_ampdu_tx option \<Rightarrow> tx_ba \<Rightarrow> tx_ba" where
  "assign_tid_tx tid t s = s\<lparr>tid_tx := (tid_tx s)(tid := t)\<rparr>"

definition kfree_tid_tx :: "tid_ampdu_tx \<Rightarrow> tx_ba \<Rightarrow> tx_ba" where
  "kfree_tid_tx t s = s\<lparr>leaked := leaked s @ agg_pending t\<rparr>"

text \<open>A change of the session of a TID, which exists.\<close>

definition upd_tid_tx :: "nat \<Rightarrow> (tid_ampdu_tx \<Rightarrow> tid_ampdu_tx) \<Rightarrow> tx_ba \<Rightarrow> tx_ba" where
  "upd_tid_tx tid f s = s\<lparr>tid_tx := (tid_tx s)(tid := map_option f (tid_tx s tid))\<rparr>"

definition set_agg :: "agg_bit \<Rightarrow> tid_ampdu_tx \<Rightarrow> tid_ampdu_tx" where
  "set_agg b t = t\<lparr>agg_state := insert b (agg_state t)\<rparr>"

definition clear_agg :: "agg_bit \<Rightarrow> tid_ampdu_tx \<Rightarrow> tid_ampdu_tx" where
  "clear_agg b t = t\<lparr>agg_state := agg_state t - {b}\<rparr>"

definition remove_tid_tx :: "nat \<Rightarrow> tid_ampdu_tx \<Rightarrow> tx_ba \<Rightarrow> tx_ba" where
  "remove_tid_tx tid t s =
     kfree_tid_tx t (agg_start_txq tid False (agg_splice_finish tid (assign_tid_tx tid None (agg_splice_packets tid s))))"

section \<open>Starting and stopping\<close>

definition start_tx_ba_session :: "bool \<Rightarrow> nat \<Rightarrow> u16 \<Rightarrow> tx_ba \<Rightarrow> errno option \<times> tx_ba" where
  "start_tx_ba_session kzalloc_ok tid timeout s =
     (if reserved_tid s = tid then (Some EINVAL, s)
      else if \<not> ht_supported (sta_rx s) then (Some EINVAL, s)
      else if \<not> op_ampdu_action s then (Some EINVAL, s)
      else if tid \<ge> IEEE80211_NUM_TIDS \<or> \<not> hw_ampdu_aggregation s \<or> hw_tx_ampdu_setup_in_hw s then (Some EINVAL, s)
      else if tid \<ge> IEEE80211_FIRST_TSPEC_TSID then (Some EINVAL, s)
      else if vif_type s \<notin> {NL80211_IFTYPE_STATION, NL80211_IFTYPE_MESH_POINT, NL80211_IFTYPE_AP_VLAN_T, NL80211_IFTYPE_AP,
          NL80211_IFTYPE_ADHOC} then (Some EINVAL, s)
      else if block_ba (sta_rx s) then (Some EINVAL, s)
      else if vif_type s = NL80211_IFTYPE_ADHOC \<and> \<not> ht_supported (sta_rx s) then (Some EINVAL, s)
      else if addba_req_num s tid > HT_AGG_MAX_RETRIES then (Some EBUSY, s)
      else if addba_req_num s tid > HT_AGG_BURST_RETRIES \<and>
          time_before jiffies (last_addba_req_time s tid + HT_AGG_RETRIES_PERIOD) then (Some EBUSY, s)
      else if tid_tx s tid \<noteq> None \<or> tid_start_tx s tid \<noteq> None then (Some EAGAIN, s)
      else if \<not> kzalloc_ok then (Some ENOMEM, s)
      else let token = dialog_token_allocator s + 1;
               t = \<lparr>session_timer = None, addba_resp_timer = None, agg_pending = [], agg_state = {HT_AGG_STATE_WANT_START},
                    last_tx = 0, agg_tx_timeout = timeout, dialog_token = token, stop_initiator = 0, tx_stop = False,
                    tx_buf_size = 0, tx_amsdu = False\<rparr>
           in (None, s\<lparr>dialog_token_allocator := token, tid_start_tx := (tid_start_tx s)(tid \<mapsto> t), ampdu_work := True\<rparr>))"

text \<open>The request to the peer, with the timer for its response.\<close>

definition tx_ba_session_request :: "u16 \<Rightarrow> nat \<Rightarrow> tx_ba \<Rightarrow> tx_ba" where
  "tx_ba_session_request start_ssn tid s =
     (let s1 = upd_tid_tx tid (\<lambda>t. t\<lparr>addba_resp_timer := Some (jiffies + ADDBA_RESP_INTERVAL)\<rparr>) s;
          s2 = s1\<lparr>last_addba_req_time := (last_addba_req_time s1)(tid := jiffies),
                  addba_req_num := (addba_req_num s1)(tid := addba_req_num s1 tid + 1)\<rparr>;
          bsize = (if has_he (sta_rx s2) then max_tx_aggregation_subframes s2 else IEEE80211_MAX_AMPDU_BUF_HT)
      in case tid_tx s2 tid of
           None \<Rightarrow> s2
         | Some t \<Rightarrow> send_addba_request tid (dialog_token t) start_ssn bsize (agg_tx_timeout t) s2)"

text \<open>The part of the work that makes a session live. \<open>ret\<close> is the variable without a value.\<close>

definition tx_ba_session_handle_start :: "int \<Rightarrow> nat \<Rightarrow> tx_ba \<Rightarrow> tx_ba option" where
  "tx_ba_session_handle_start ret tid s =
     (case tid_tx s tid of
        None \<Rightarrow> None
      | Some t0 \<Rightarrow>
          let s1 = agg_stop_txq tid (upd_tid_tx tid (clear_agg HT_AGG_STATE_WANT_START) s);
              start_ssn = drop_bit 4 (tid_seq s1 tid)
          in if ret = IEEE80211_AMPDU_TX_START_IMMEDIATE
             then Some (tx_ba_session_request start_ssn tid (upd_tid_tx tid (set_agg HT_AGG_STATE_DRV_READY) s1))
             else if ret \<noteq> 0
             then Some (kfree_tid_tx t0
                    (agg_start_txq tid False (agg_splice_finish tid (assign_tid_tx tid None (agg_splice_packets tid s1)))))
             else Some (tx_ba_session_request start_ssn tid s1))"

definition stop_tx_ba_session_locked :: "nat \<Rightarrow> ieee80211_agg_stop_reason \<Rightarrow> tx_ba \<Rightarrow> errno option \<times> tx_ba" where
  "stop_tx_ba_session_locked tid reason s =
     (let s1 = (case tid_start_tx s tid of None \<Rightarrow> s | Some t \<Rightarrow> kfree_tid_tx t (s\<lparr>tid_start_tx := (tid_start_tx s)(tid := None)\<rparr>))
      in case tid_tx s1 tid of
           None \<Rightarrow> (Some ENOENT, s1)
         | Some t \<Rightarrow>
             if HT_AGG_STATE_STOPPING \<in> agg_state t
             then (if reason \<noteq> AGG_STOP_DESTROY_STA then (Some EALREADY, s1) else (None, s1))
             else if HT_AGG_STATE_WANT_START \<in> agg_state t
             then (None, kfree_tid_tx t (assign_tid_tx tid None s1))
             else (None, upd_tid_tx tid (\<lambda>t. (clear_agg HT_AGG_STATE_OPERATIONAL (set_agg HT_AGG_STATE_STOPPING t))
                    \<lparr>addba_resp_timer := None, session_timer := None,
                     stop_initiator := (if reason = AGG_STOP_PEER_REQUEST then ucast WLAN_BACK_RECIPIENT else ucast WLAN_BACK_INITIATOR),
                     tx_stop := (reason = AGG_STOP_LOCAL_REQUEST)\<rparr>)
                    (agg_stop_txq tid s1)))"

definition stop_tx_ba_session :: "nat \<Rightarrow> tx_ba \<Rightarrow> errno option \<times> tx_ba" where
  "stop_tx_ba_session tid s =
     (if \<not> op_ampdu_action s then (Some EINVAL, s)
      else if tid \<ge> IEEE80211_NUM_TIDS then (Some EINVAL, s)
      else case tid_tx s tid of
             None \<Rightarrow> (Some ENOENT, s)
           | Some t \<Rightarrow>
               if HT_AGG_STATE_STOPPING \<in> agg_state t then (None, s)
               else (None, (upd_tid_tx tid (set_agg HT_AGG_STATE_WANT_STOP) s)\<lparr>ampdu_work := True\<rparr>))"

text \<open>The timers of the session of a TID expire.\<close>

definition sta_addba_resp_timer_expired :: "nat \<Rightarrow> tx_ba \<Rightarrow> tx_ba" where
  "sta_addba_resp_timer_expired tid s =
     (case tid_tx s tid of
        None \<Rightarrow> s
      | Some t \<Rightarrow>
          let s1 = upd_tid_tx tid (\<lambda>t. t\<lparr>addba_resp_timer := None\<rparr>) s
          in if HT_AGG_STATE_RESPONSE_RECEIVED \<in> agg_state t then s1 else snd (stop_tx_ba_session tid s1))"

definition sta_tx_agg_session_timer_expired :: "nat \<Rightarrow> tx_ba \<Rightarrow> tx_ba" where
  "sta_tx_agg_session_timer_expired tid s =
     (case tid_tx s tid of
        None \<Rightarrow> s
      | Some t \<Rightarrow>
          let s1 = upd_tid_tx tid (\<lambda>t. t\<lparr>session_timer := None\<rparr>) s
          in if HT_AGG_STATE_STOPPING \<in> agg_state t then s1
             else let timeout = last_tx t + TU_TO_JIFFIES (agg_tx_timeout t)
                  in if time_before jiffies timeout
                     then upd_tid_tx tid (\<lambda>t. t\<lparr>session_timer := Some timeout\<rparr>) s1
                     else snd (stop_tx_ba_session tid s1))"

section \<open>Answers of the driver and of the peer\<close>

definition agg_tx_operational :: "nat \<Rightarrow> tx_ba \<Rightarrow> tx_ba" where
  "agg_tx_operational tid s =
     agg_start_txq tid True (agg_splice_finish tid (upd_tid_tx tid (set_agg HT_AGG_STATE_OPERATIONAL) (agg_splice_packets tid s)))"

definition start_tx_ba_cb :: "nat \<Rightarrow> tid_ampdu_tx \<Rightarrow> tx_ba \<Rightarrow> tx_ba" where
  "start_tx_ba_cb tid t s =
     (if HT_AGG_STATE_DRV_READY \<in> agg_state t then s
      else let s1 = upd_tid_tx tid (set_agg HT_AGG_STATE_DRV_READY) s
           in if HT_AGG_STATE_RESPONSE_RECEIVED \<in> agg_state t then agg_tx_operational tid s1 else s1)"

definition stop_tx_ba_cb :: "nat \<Rightarrow> tid_ampdu_tx \<Rightarrow> tx_ba \<Rightarrow> tx_ba" where
  "stop_tx_ba_cb tid t s =
     (if HT_AGG_STATE_STOPPING \<notin> agg_state t then s
      else let s1 = remove_tid_tx tid t s
           in if ucast (stop_initiator t) = WLAN_BACK_INITIATOR \<and> tx_stop t
              then send_delba tid WLAN_BACK_INITIATOR WLAN_REASON_QSTA_NOT_USE s1 else s1)"

definition ba_cb_irqsafe :: "agg_bit \<Rightarrow> nat \<Rightarrow> tx_ba \<Rightarrow> tx_ba" where
  "ba_cb_irqsafe b tid s =
     (if tid \<ge> IEEE80211_NUM_TIDS \<or> tid_tx s tid = None then s
      else (upd_tid_tx tid (set_agg b) s)\<lparr>ampdu_work := True\<rparr>)"

definition start_tx_ba_cb_irqsafe :: "nat \<Rightarrow> tx_ba \<Rightarrow> tx_ba" where
  "start_tx_ba_cb_irqsafe tid s = ba_cb_irqsafe HT_AGG_STATE_START_CB tid s"

definition stop_tx_ba_cb_irqsafe :: "nat \<Rightarrow> tx_ba \<Rightarrow> tx_ba" where
  "stop_tx_ba_cb_irqsafe tid s = ba_cb_irqsafe HT_AGG_STATE_STOP_CB tid s"

definition process_addba_resp :: "u16 \<Rightarrow> u8 \<Rightarrow> u16 \<Rightarrow> u16 \<Rightarrow> tx_ba \<Rightarrow> tx_ba" where
  "process_addba_resp capab token status timeout s =
     (let amsdu = (capab AND 1 \<noteq> 0);
          tid = unat (drop_bit 2 (capab AND 0x3C));
          bsize = min (drop_bit 6 (capab AND 0xFFC0)) (max_tx_aggregation_subframes s);
          s0 = (if amsdu then s else s\<lparr>sta_txq := (sta_txq s)(tid := map_option (insert IEEE80211_TXQ_NO_AMSDU) (sta_txq s tid))\<rparr>)
      in case tid_tx s0 tid of
           None \<Rightarrow> s0
         | Some t \<Rightarrow>
             if token \<noteq> dialog_token t then s0
             else let s1 = upd_tid_tx tid (\<lambda>t. t\<lparr>addba_resp_timer := None\<rparr>) s0
             in if HT_AGG_STATE_WANT_STOP \<in> agg_state t \<or> HT_AGG_STATE_STOPPING \<in> agg_state t then s1
             else if status = WLAN_STATUS_SUCCESS \<and> bsize \<noteq> 0
             then (if HT_AGG_STATE_RESPONSE_RECEIVED \<in> agg_state t then s1
                   else let s2 = upd_tid_tx tid (\<lambda>t. (set_agg HT_AGG_STATE_RESPONSE_RECEIVED t)
                                   \<lparr>tx_buf_size := bsize, tx_amsdu := amsdu\<rparr>) s1;
                            s3 = (if HT_AGG_STATE_DRV_READY \<in> agg_state t then agg_tx_operational tid s2 else s2);
                            s4 = s3\<lparr>addba_req_num := (addba_req_num s3)(tid := 0)\<rparr>
                        in upd_tid_tx tid (\<lambda>t. if timeout \<noteq> 0
                             then t\<lparr>agg_tx_timeout := timeout, session_timer := Some (jiffies + TU_TO_JIFFIES timeout), last_tx := jiffies\<rparr>
                             else t\<lparr>agg_tx_timeout := timeout\<rparr>) s4)
             else snd (stop_tx_ba_session_locked tid AGG_STOP_DECLINED s1))"

definition process_delba :: "u16 \<Rightarrow> tx_ba \<Rightarrow> tx_ba" where
  "process_delba params s =
     (let tid = unat (drop_bit 12 (params AND 0xF000)); initiator = drop_bit 11 (params AND 0x0800)
      in if initiator = WLAN_BACK_INITIATOR
         then s\<lparr>sta_rx := ieee80211_stop_rx_ba_session_locked (sta_rx s) tid False 0 True\<rparr>
         else snd (stop_tx_ba_session_locked tid AGG_STOP_PEER_REQUEST s))"

section \<open>The work of a station\<close>

definition rx_work :: "(nat \<Rightarrow> bool) \<Rightarrow> bool \<Rightarrow> nat \<Rightarrow> tx_ba \<Rightarrow> tx_ba" where
  "rx_work kmalloc_ok hw_reorders tid s =
     (let stop = (\<lambda>r reason tx. ieee80211_stop_rx_ba_session_locked r tid True reason tx);
          blocked = block_ba (sta_rx s);
          s1 = (if rx_timer_expired s tid
                then s\<lparr>rx_timer_expired := (rx_timer_expired s)(tid := False), sta_rx := stop (sta_rx s) WLAN_REASON_QSTA_TIMEOUT True\<rparr>
                else s);
          s2 = (if rx_stop_requested s1 tid
                then s1\<lparr>rx_stop_requested := (rx_stop_requested s1)(tid := False),
                        sta_rx := stop (sta_rx s1) WLAN_REASON_UNSPECIFIED True\<rparr>
                else s1);
          s3 = (if \<not> blocked \<and> rx_manage_offl s2 tid
                then s2\<lparr>rx_manage_offl := (rx_manage_offl s2)(tid := False),
                        sta_rx := ieee80211_start_rx_ba_session_locked jiffies hw_reorders (kmalloc_ok tid) (sta_rx s2) 0 0 0 1
                          (of_nat tid) IEEE80211_MAX_AMPDU_BUF_HT False True\<rparr>
                else s2)
      in if rx_manage_offl s3 (tid + IEEE80211_NUM_TIDS)
         then s3\<lparr>rx_manage_offl := (rx_manage_offl s3)(tid + IEEE80211_NUM_TIDS := False), sta_rx := stop (sta_rx s3) 0 False\<rparr>
         else s3)"

definition tx_work_cbs :: "bool \<Rightarrow> nat \<Rightarrow> tx_ba \<Rightarrow> tx_ba option" where
  "tx_work_cbs blocked tid s =
     (case tid_tx s tid of
        None \<Rightarrow> Some s
      | Some t0 \<Rightarrow>
          let s1 = (if \<not> blocked \<and> HT_AGG_STATE_START_CB \<in> agg_state t0
                    then start_tx_ba_cb tid (clear_agg HT_AGG_STATE_START_CB t0) (upd_tid_tx tid (clear_agg HT_AGG_STATE_START_CB) s)
                    else s)
          in case tid_tx s1 tid of
               None \<Rightarrow> None
             | Some t1 \<Rightarrow>
                 let s2 = (if HT_AGG_STATE_WANT_STOP \<in> agg_state t1
                           then snd (stop_tx_ba_session_locked tid AGG_STOP_LOCAL_REQUEST (upd_tid_tx tid (clear_agg HT_AGG_STATE_WANT_STOP) s1))
                           else s1)
                 in case tid_tx s2 tid of
                      None \<Rightarrow> None
                    | Some t2 \<Rightarrow>
                        if HT_AGG_STATE_STOP_CB \<in> agg_state t2
                        then Some (stop_tx_ba_cb tid (clear_agg HT_AGG_STATE_STOP_CB t2) (upd_tid_tx tid (clear_agg HT_AGG_STATE_STOP_CB) s2))
                        else Some s2)"

definition tx_work :: "int \<Rightarrow> bool \<Rightarrow> nat \<Rightarrow> tx_ba \<Rightarrow> tx_ba option" where
  "tx_work ret blocked tid s =
     (case tid_start_tx s tid of
        Some t \<Rightarrow>
          if \<not> blocked
          then (let s1 = s\<lparr>tid_start_tx := (tid_start_tx s)(tid := None)\<rparr>;
                    s2 = (if tid_tx s1 tid \<noteq> None then kfree_tid_tx t s1 else assign_tid_tx tid (Some t) s1)
                in tx_ba_session_handle_start ret tid s2)
          else tx_work_cbs blocked tid s
      | None \<Rightarrow> tx_work_cbs blocked tid s)"

fun opt_fold :: "('b \<Rightarrow> 'a \<Rightarrow> 'a option) \<Rightarrow> 'b list \<Rightarrow> 'a \<Rightarrow> 'a option" where
  "opt_fold f [] s = Some s"
| "opt_fold f (x # xs) s = (case f x s of None \<Rightarrow> None | Some t \<Rightarrow> opt_fold f xs t)"

definition ieee80211_ba_session_work :: "(nat \<Rightarrow> bool) \<Rightarrow> bool \<Rightarrow> (nat \<Rightarrow> int) \<Rightarrow> tx_ba \<Rightarrow> tx_ba option" where
  "ieee80211_ba_session_work kmalloc_ok hw_reorders ret s =
     (let blocked = block_ba (sta_rx s)
      in opt_fold (\<lambda>tid s. tx_work (ret tid) blocked tid (rx_work kmalloc_ok hw_reorders tid s))
           [0..<IEEE80211_NUM_TIDS] (s\<lparr>ampdu_work := False\<rparr>))"

definition sta_tear_down_BA_sessions :: "ieee80211_agg_stop_reason \<Rightarrow> tx_ba \<Rightarrow> tx_ba" where
  "sta_tear_down_BA_sessions reason s =
     (let s1 = fold (\<lambda>tid s. s\<lparr>sta_rx := ieee80211_stop_rx_ba_session_locked (sta_rx s) tid True WLAN_REASON_QSTA_LEAVE_QBSS
                (reason \<noteq> AGG_STOP_DESTROY_STA \<and> reason \<noteq> AGG_STOP_PEER_REQUEST)\<rparr>) [0..<IEEE80211_NUM_TIDS] s;
          s2 = fold (\<lambda>tid s. snd (stop_tx_ba_session_locked tid reason s)) [0..<IEEE80211_NUM_TIDS] s1
      in if reason = AGG_STOP_DESTROY_STA
         then fold (\<lambda>tid s. case tid_tx s tid of
                  None \<Rightarrow> s
                | Some t \<Rightarrow> if HT_AGG_STATE_STOP_CB \<in> agg_state t
                    then stop_tx_ba_cb tid (clear_agg HT_AGG_STATE_STOP_CB t) (upd_tid_tx tid (clear_agg HT_AGG_STATE_STOP_CB) s)
                    else s)
                [0..<IEEE80211_NUM_TIDS] (s2\<lparr>ampdu_work := False\<rparr>)
         else s2)"

section \<open>Sending\<close>

text \<open>
  Whether the frame was queued at the session of its TID, and whether it is to be aggregated. A frame beyond the
  limit of the queue is freed.
\<close>

definition tx_prep_agg :: "nat \<Rightarrow> tx_frame \<Rightarrow> tx_ba \<Rightarrow> (bool \<times> bool) \<times> tx_ba" where
  "tx_prep_agg tid skb s =
     (case tid_tx s tid of
        None \<Rightarrow> ((False, False), s)
      | Some t \<Rightarrow>
          if HT_AGG_STATE_OPERATIONAL \<in> agg_state t
          then ((False, True), upd_tid_tx tid (\<lambda>t. t\<lparr>last_tx := jiffies\<rparr>) s)
          else if HT_AGG_STATE_WANT_START \<in> agg_state t then ((False, False), s)
          else if sta_txq s tid = None
          then (let q = agg_pending t @ [skb\<lparr>fr_vif := True, fr_processing := True\<rparr>]
                in if length q > STA_MAX_TX_BUFFER
                   then ((True, False), (upd_tid_tx tid (\<lambda>t. t\<lparr>agg_pending := tl q\<rparr>) s)
                          \<lparr>ba_local := (ba_local s)\<lparr>tx_freed := tx_freed (ba_local s) @ [hd q]\<rparr>\<rparr>)
                   else ((True, False), upd_tid_tx tid (\<lambda>t. t\<lparr>agg_pending := q\<rparr>) s))
          else ((False, False), s))"

end
