(* ===== verification/Tx_Queue_Props.thy ===== *)
theory Tx_Queue_Props
  imports Tx_Queue
begin

text \<open>
  The transmit queues: the bits of the stop reasons agree with their counters, the subqueues of the network
  devices are stopped exactly while a reason or a waiting frame holds them, frames leave in the order in which they
  came, and none waits without a tasklet that will send it.
\<close>

section \<open>Operations\<close>

datatype tx_op =
    Op_stop nat queue_stop_reason bool | Op_wake nat queue_stop_reason bool
  | Op_stop_queues u64 queue_stop_reason bool | Op_wake_queues u64 queue_stop_reason bool
  | Op_send "tx_frame list" | Op_add_pending tx_frame | Op_add_pendings "tx_frame list"
  | Op_tx_pending | Op_wake_txqs

fun tx_step :: "(tx_frame \<Rightarrow> tx_frame list option) \<Rightarrow> tx_op \<Rightarrow> tx_local \<Rightarrow> tx_local" where
  "tx_step h (Op_stop q r c) l = stop_queue q r c l"
| "tx_step h (Op_wake q r c) l = wake_queue q r c l"
| "tx_step h (Op_stop_queues qs r c) l = stop_queues_by_reason qs r c l"
| "tx_step h (Op_wake_queues qs r c) l = wake_queues_by_reason qs r c l"
| "tx_step h (Op_send skbs) l = snd (tx_frags False skbs l)"
| "tx_step h (Op_add_pending skb) l = add_pending_skb skb l"
| "tx_step h (Op_add_pendings skbs) l = add_pending_skbs skbs l"
| "tx_step h Op_tx_pending l = ieee80211_tx_pending h l"
| "tx_step h Op_wake_txqs l = ieee80211_wake_txqs l"

definition tx_run :: "(tx_frame \<Rightarrow> tx_frame list option) \<Rightarrow> tx_op list \<Rightarrow> tx_local \<Rightarrow> tx_local" where
  "tx_run h ops l = fold (tx_step h) ops l"

text \<open>What callers observe: the fragments of one frame share their queue and flags; \<open>ok\<close> is a condition on frames.\<close>

definition op_ok :: "(tx_frame \<Rightarrow> bool) \<Rightarrow> tx_op \<Rightarrow> bool" where
  "op_ok ok x = (case x of
     Op_send skbs \<Rightarrow> \<forall>skb \<in> set skbs. ok skb \<and> fr_hw_queue skb = fr_hw_queue (hd skbs) \<and>
       fr_offchan_ok skb = fr_offchan_ok (hd skbs)
   | Op_add_pending skb \<Rightarrow> ok skb
   | Op_add_pendings skbs \<Rightarrow> \<forall>skb \<in> set skbs. ok skb
   | _ \<Rightarrow> True)"

section \<open>Frame conditions\<close>

lemma stop_frame [simp]:
  "hw_queues (stop_queue q r c l) = hw_queues l" "interfaces (stop_queue q r c l) = interfaces l"
  "op_wake_tx_queue (stop_queue q r c l) = op_wake_tx_queue l" "pending (stop_queue q r c l) = pending l"
  "drv_sent (stop_queue q r c l) = drv_sent l" "tx_freed (stop_queue q r c l) = tx_freed l"
  "tx_pending_tasklet (stop_queue q r c l) = tx_pending_tasklet l"
  by (simp_all add: stop_queue_def Let_def)

lemma stop_reasons:
  "queue_stop_reasons (stop_queue q r c l) =
     (if q < hw_queues l then (queue_stop_reasons l)(q := insert r (queue_stop_reasons l q)) else queue_stop_reasons l)"
  by (auto simp: stop_queue_def Let_def insert_absorb fun_upd_idem)

lemma propagate_frame [simp]:
  "hw_queues (propagate_queue_wake q l) = hw_queues l" "interfaces (propagate_queue_wake q l) = interfaces l"
  "op_wake_tx_queue (propagate_queue_wake q l) = op_wake_tx_queue l" "pending (propagate_queue_wake q l) = pending l"
  "drv_sent (propagate_queue_wake q l) = drv_sent l" "tx_freed (propagate_queue_wake q l) = tx_freed l"
  "tx_pending_tasklet (propagate_queue_wake q l) = tx_pending_tasklet l"
  "queue_stop_reasons (propagate_queue_wake q l) = queue_stop_reasons l"
  "q_stop_reasons (propagate_queue_wake q l) = q_stop_reasons l"
  by (simp_all add: propagate_queue_wake_def Let_def)

lemma wake_txqs_frame [simp]:
  "hw_queues (wake_txqs l) = hw_queues l" "interfaces (wake_txqs l) = interfaces l"
  "op_wake_tx_queue (wake_txqs l) = op_wake_tx_queue l" "pending (wake_txqs l) = pending l"
  "drv_sent (wake_txqs l) = drv_sent l" "tx_freed (wake_txqs l) = tx_freed l"
  "tx_pending_tasklet (wake_txqs l) = tx_pending_tasklet l"
  "queue_stop_reasons (wake_txqs l) = queue_stop_reasons l" "q_stop_reasons (wake_txqs l) = q_stop_reasons l"
  "subqueue_stopped (wake_txqs l) = subqueue_stopped l"
  by (simp_all add: wake_txqs_def)

lemma wake_frame [simp]:
  "hw_queues (wake_queue q r c l) = hw_queues l" "interfaces (wake_queue q r c l) = interfaces l"
  "op_wake_tx_queue (wake_queue q r c l) = op_wake_tx_queue l" "pending (wake_queue q r c l) = pending l"
  "drv_sent (wake_queue q r c l) = drv_sent l" "tx_freed (wake_queue q r c l) = tx_freed l"
  by (simp_all add: wake_queue_def Let_def)

lemma frags_frame [simp]:
  "hw_queues (snd (tx_frags t skbs l)) = hw_queues l" "interfaces (snd (tx_frags t skbs l)) = interfaces l"
  "op_wake_tx_queue (snd (tx_frags t skbs l)) = op_wake_tx_queue l"
  "queue_stop_reasons (snd (tx_frags t skbs l)) = queue_stop_reasons l"
  "q_stop_reasons (snd (tx_frags t skbs l)) = q_stop_reasons l"
  "subqueue_stopped (snd (tx_frags t skbs l)) = subqueue_stopped l"
  "txqs_stopped (snd (tx_frags t skbs l)) = txqs_stopped l"
  "tx_pending_tasklet (snd (tx_frags t skbs l)) = tx_pending_tasklet l"
  by (induction t skbs l rule: tx_frags.induct; simp add: Let_def)+

section \<open>A rule for invariants\<close>

text \<open>
  All operations are made of five changes of the state. A predicate that these keep is kept by every operation.
\<close>

locale tx_invariant =
  fixes I :: "tx_local \<Rightarrow> bool" and ok :: "tx_frame \<Rightarrow> bool" and h :: "tx_frame \<Rightarrow> tx_frame list option"
  assumes I_stop: "I l \<Longrightarrow> I (stop_queue q r c l)"
    and I_wake: "I l \<Longrightarrow> I (wake_queue q r c l)"
    and I_free: "I l \<Longrightarrow> I (l\<lparr>tx_freed := x\<rparr>)"
    and I_append: "I l \<Longrightarrow> ok skb \<Longrightarrow> fr_vif skb \<Longrightarrow> q = fr_hw_queue skb \<Longrightarrow>
      q < hw_queues l \<longrightarrow> queue_stop_reasons l q \<noteq> {} \<Longrightarrow>
      I (l\<lparr>pending := (pending l)(q := pending l q @ [skb])\<rparr>)"
    and I_frags: "I l \<Longrightarrow> \<forall>skb \<in> set skbs. ok skb \<and> fr_hw_queue skb = fr_hw_queue (hd skbs) \<and>
        fr_offchan_ok skb = fr_offchan_ok (hd skbs) \<Longrightarrow>
      I (snd (tx_frags False skbs l))"
    and I_pending: "I l \<Longrightarrow> I (ieee80211_tx_pending h l)"
    and I_wake_txqs: "I l \<Longrightarrow> I (ieee80211_wake_txqs l)"
begin

lemma I_stop_fold: "I l \<Longrightarrow> I (fold (\<lambda>q. stop_queue q r c) qs l)"
  by (induction qs arbitrary: l) (auto intro: I_stop)

lemma I_wake_fold: "I l \<Longrightarrow> I (fold (\<lambda>q. wake_queue q r c) qs l)"
  by (induction qs arbitrary: l) (auto intro: I_wake)

lemma I_add: "I l \<Longrightarrow> ok skb \<Longrightarrow> fr_vif skb \<Longrightarrow> q = fr_hw_queue skb \<Longrightarrow>
    I (stop_queue q STOP_SKB_ADD False l \<lparr>pending := (pending l)(q := pending l q @ [skb])\<rparr>)"
  using I_append [OF I_stop, of l skb q q STOP_SKB_ADD False] by (auto simp: stop_reasons)

lemma I_add_loop: "I l \<Longrightarrow> \<forall>skb \<in> set skbs. ok skb \<Longrightarrow> I (add_pending_loop skbs l)"
proof (induction skbs arbitrary: l)
  case (Cons skb skbs)
  then show ?case using I_free I_add [OF Cons.prems(1)] by (simp add: Let_def stop_frame)
qed simp

lemma I_step: "I l \<Longrightarrow> op_ok ok x \<Longrightarrow> I (tx_step h x l)"
proof (cases x)
  case (Op_add_pending skb)
  assume "I l" "op_ok ok x"
  with Op_add_pending show ?thesis
    using I_wake [OF I_add, of l skb] I_free by (simp add: op_ok_def add_pending_skb_def Let_def stop_frame)
qed (auto simp: op_ok_def stop_queues_by_reason_def wake_queues_by_reason_def add_pending_skbs_def
    intro: I_stop I_wake I_stop_fold I_wake_fold I_frags I_pending I_wake_txqs I_add_loop)

lemma I_run: "I l \<Longrightarrow> list_all (op_ok ok) ops \<Longrightarrow> I (tx_run h ops l)"
  unfolding tx_run_def by (induction ops arbitrary: l) (auto intro: I_step)

end

section \<open>Reasons and counters\<close>

definition counts_ok :: "tx_local \<Rightarrow> bool" where
  "counts_ok l \<longleftrightarrow> (\<forall>q r. (r \<in> queue_stop_reasons l q \<longleftrightarrow> 0 < q_stop_reasons l q r) \<and> 0 \<le> q_stop_reasons l q r \<and>
     (hw_queues l \<le> q \<longrightarrow> queue_stop_reasons l q = {}))"

lemma counts_stop: "counts_ok l \<Longrightarrow> counts_ok (stop_queue q r c l)"
  unfolding counts_ok_def stop_queue_def Let_def by (auto simp: le_less)

lemma wake_reasons:
  "queue_stop_reasons (wake_queue q r c l) =
     (if q < hw_queues l \<and> r \<in> queue_stop_reasons l q \<and> (\<not> c \<or> q_stop_reasons l q r \<le> 1)
      then (queue_stop_reasons l)(q := queue_stop_reasons l q - {r}) else queue_stop_reasons l)"
  "q_stop_reasons (wake_queue q r c l) =
     (if q < hw_queues l \<and> r \<in> queue_stop_reasons l q
      then (q_stop_reasons l)(q := (q_stop_reasons l q)(r := if \<not> c then 0 else max 0 (q_stop_reasons l q r - 1)))
      else q_stop_reasons l)"
  by (simp_all add: wake_queue_def Let_def max_def)

lemma counts_wake: "counts_ok l \<Longrightarrow> counts_ok (wake_queue q r c l)"
  unfolding counts_ok_def wake_reasons by (auto simp: max_def)

lemma dequeue_frame [simp]:
  "hw_queues (snd (tx_dequeue i l)) = hw_queues l" "interfaces (snd (tx_dequeue i l)) = interfaces l"
  "op_wake_tx_queue (snd (tx_dequeue i l)) = op_wake_tx_queue l"
  "queue_stop_reasons (snd (tx_dequeue i l)) = queue_stop_reasons l"
  "q_stop_reasons (snd (tx_dequeue i l)) = q_stop_reasons l"
  "subqueue_stopped (snd (tx_dequeue i l)) = subqueue_stopped l"
  "tx_pending_tasklet (snd (tx_dequeue i l)) = tx_pending_tasklet l"
  "drv_sent (snd (tx_dequeue i l)) = drv_sent l"
  by (simp_all add: tx_dequeue_def Let_def split: list.split)

lemma pending_skb_frame [simp]:
  "hw_queues (snd (tx_pending_skb h skb l)) = hw_queues l" "interfaces (snd (tx_pending_skb h skb l)) = interfaces l"
  "op_wake_tx_queue (snd (tx_pending_skb h skb l)) = op_wake_tx_queue l"
  "queue_stop_reasons (snd (tx_pending_skb h skb l)) = queue_stop_reasons l"
  "q_stop_reasons (snd (tx_pending_skb h skb l)) = q_stop_reasons l"
  "subqueue_stopped (snd (tx_pending_skb h skb l)) = subqueue_stopped l"
  "tx_pending_tasklet (snd (tx_pending_skb h skb l)) = tx_pending_tasklet l"
  unfolding tx_pending_skb_def by (simp_all del: tx_frags.simps split: option.split)

text \<open>A relation between two states that each part of the loop keeps is kept by the whole loop.\<close>

lemma drain_rule:
  assumes "\<And>l. R l l" "\<And>a b c. R a b \<Longrightarrow> R b c \<Longrightarrow> R a c"
    "\<And>l. R l (snd (tx_dequeue i l))" "\<And>skb l. R l (snd (tx_pending_skb h skb l))"
  shows "R l (tx_drain h i l)"
  using assms(3,4)
proof (induction h i l rule: tx_drain.induct)
  case (1 h i l)
  obtain x l1 where d: "tx_dequeue i l = (x, l1)" by fastforce
  have r1: "R l l1" using "1.prems"(1) [of l] d by simp
  show ?case
  proof (cases "pending l i = []")
    case True
    then show ?thesis by (subst tx_drain.simps) (simp add: assms(1))
  next
    case False
    show ?thesis
    proof (cases x)
      case None
      have "R l1 (tx_drain h i l1)" by (rule "1.IH"(1) [OF False]) (use d None "1.prems" in auto)
      with r1 have "R l (tx_drain h i l1)" by (rule assms(2))
      then show ?thesis using False None by (subst tx_drain.simps) (simp add: d)
    next
      case (Some skb)
      obtain k l2 where p: "tx_pending_skb h skb l1 = (k, l2)" by fastforce
      have r2: "R l l2" using assms(2) [OF r1] "1.prems"(2) [of l1 skb] p by simp
      have "R l2 (tx_drain h i l2)" if k by (rule "1.IH"(2) [OF False]) (use d Some p that "1.prems" in auto)
      then have "R l (if k then tx_drain h i l2 else l2)" using r2 assms(2) by auto
      then show ?thesis using False Some by (subst tx_drain.simps) (simp add: d p)
    qed
  qed
qed

lemma drain_frame [simp]:
  "hw_queues (tx_drain h i l) = hw_queues l" "interfaces (tx_drain h i l) = interfaces l"
  "op_wake_tx_queue (tx_drain h i l) = op_wake_tx_queue l"
  "queue_stop_reasons (tx_drain h i l) = queue_stop_reasons l" "q_stop_reasons (tx_drain h i l) = q_stop_reasons l"
  "subqueue_stopped (tx_drain h i l) = subqueue_stopped l"
  "tx_pending_tasklet (tx_drain h i l) = tx_pending_tasklet l"
proof -
  let ?R = "\<lambda>a b. hw_queues b = hw_queues a \<and> interfaces b = interfaces a \<and> op_wake_tx_queue b = op_wake_tx_queue a \<and>
    queue_stop_reasons b = queue_stop_reasons a \<and> q_stop_reasons b = q_stop_reasons a \<and>
    subqueue_stopped b = subqueue_stopped a \<and> tx_pending_tasklet b = tx_pending_tasklet a"
  have "?R l (tx_drain h i l)" by (rule drain_rule) simp_all
  then show "hw_queues (tx_drain h i l) = hw_queues l" "interfaces (tx_drain h i l) = interfaces l"
    "op_wake_tx_queue (tx_drain h i l) = op_wake_tx_queue l"
    "queue_stop_reasons (tx_drain h i l) = queue_stop_reasons l" "q_stop_reasons (tx_drain h i l) = q_stop_reasons l"
    "subqueue_stopped (tx_drain h i l) = subqueue_stopped l"
    "tx_pending_tasklet (tx_drain h i l) = tx_pending_tasklet l" by blast+
qed

text \<open>The loops only add frames to the other queues.\<close>

lemma frags_other: "pending l q \<noteq> [] \<Longrightarrow> pending (snd (tx_frags t skbs l)) q \<noteq> []"
  by (induction t skbs l rule: tx_frags.induct) (auto simp: Let_def)

lemma drain_other: "q \<noteq> i \<Longrightarrow> pending l q \<noteq> [] \<Longrightarrow> pending (tx_drain h i l) q \<noteq> []"
  using drain_rule [of "\<lambda>a b. pending a q \<noteq> [] \<longrightarrow> pending b q \<noteq> []" i h l] frags_other
  by (auto simp: tx_dequeue_def tx_pending_skb_def Let_def simp del: tx_frags.simps split: list.splits option.splits)

lemma queue_frame [simp]:
  "hw_queues (tx_pending_queue h i l) = hw_queues l" "interfaces (tx_pending_queue h i l) = interfaces l"
  "op_wake_tx_queue (tx_pending_queue h i l) = op_wake_tx_queue l"
  "queue_stop_reasons (tx_pending_queue h i l) = queue_stop_reasons l"
  "q_stop_reasons (tx_pending_queue h i l) = q_stop_reasons l"
  "tx_pending_tasklet (tx_pending_queue h i l) = tx_pending_tasklet l"
  by (simp_all add: tx_pending_queue_def Let_def)

lemma queues_rule:
  assumes "\<And>l i. P l \<Longrightarrow> i < n \<Longrightarrow> P (tx_pending_queue h i l)" "P l"
  shows "P (fold (tx_pending_queue h) [0..<n] l)"
proof -
  have "P (fold (tx_pending_queue h) is l)" if "set is \<subseteq> {0..<n}" "P l" for "is" l
    using that by (induction "is" arbitrary: l) (auto intro: assms(1))
  from this [of "[0..<n]" l] assms(2) show ?thesis by simp
qed

lemma counts_pending: "counts_ok l \<Longrightarrow> counts_ok (ieee80211_tx_pending h l)"
  unfolding ieee80211_tx_pending_def by (rule queues_rule) (simp_all add: counts_ok_def)

interpretation counts: tx_invariant counts_ok ok h for ok h
proof
  show "counts_ok (ieee80211_tx_pending h l)" if "counts_ok l" for l by (rule counts_pending [OF that])
qed (simp_all add: counts_stop counts_wake, simp_all add: counts_ok_def ieee80211_wake_txqs_def)

section \<open>Subqueues of network devices\<close>

text \<open>An access category of an interface is held by a reason, or frames of its queues wait.\<close>

definition held :: "tx_local \<Rightarrow> tx_iface \<Rightarrow> nat \<Rightarrow> bool" where
  "held l s ac \<longleftrightarrow> queue_stop_reasons l (if_hw_queue s ac) \<noteq> {} \<or> queue_stop_reasons l (if_cab_queue s) \<noteq> {}"

definition waiting :: "tx_local \<Rightarrow> tx_iface \<Rightarrow> nat \<Rightarrow> bool" where
  "waiting l s ac \<longleftrightarrow> pending l (if_hw_queue s ac) \<noteq> [] \<or> pending l (if_cab_queue s) \<noteq> []"

text \<open>A driver without intermediate queues, and interfaces whose queues exist.\<close>

definition queues_exist :: "tx_local \<Rightarrow> bool" where
  "queues_exist l \<longleftrightarrow> \<not> op_wake_tx_queue l \<and> hw_queues l \<le> IEEE80211_INVAL_HW_QUEUE \<and>
     (\<forall>s \<in> set (interfaces l). (\<forall>ac < n_acs l. if_hw_queue s ac < hw_queues l) \<and>
        (if_cab_queue s = IEEE80211_INVAL_HW_QUEUE \<or> if_cab_queue s < hw_queues l))"

definition iface_at :: "tx_local \<Rightarrow> nat \<Rightarrow> nat \<Rightarrow> bool" where
  "iface_at l i ac \<longleftrightarrow> i < length (interfaces l) \<and> ac < n_acs l \<and> if_dev (interfaces l ! i)"

definition sub_ok :: "tx_local \<Rightarrow> bool" where
  "sub_ok l \<longleftrightarrow> counts_ok l \<and> queues_exist l \<and>
     (\<forall>i ac. iface_at l i ac \<longrightarrow>
        (held l (interfaces l ! i) ac \<longrightarrow> subqueue_stopped l i ac) \<and>
        (subqueue_stopped l i ac \<longrightarrow> held l (interfaces l ! i) ac \<or> waiting l (interfaces l ! i) ac))"

lemma exist_cong:
  "hw_queues m = hw_queues l \<Longrightarrow> interfaces m = interfaces l \<Longrightarrow> op_wake_tx_queue m = op_wake_tx_queue l \<Longrightarrow>
   queues_exist m = queues_exist l \<and> iface_at m = iface_at l"
  by (simp add: queues_exist_def n_acs_def iface_at_def fun_eq_iff)

text \<open>After \<open>propagate_queue_wake\<close> nothing is stopped without a cause, if only its queue was.\<close>

lemma propagate_ok:
  assumes "counts_ok l" "queues_exist l" "queue_stop_reasons l q = {}" "pending l q = []"
    "\<And>i ac. iface_at l i ac \<Longrightarrow> held l (interfaces l ! i) ac \<Longrightarrow> subqueue_stopped l i ac"
    "\<And>i ac. iface_at l i ac \<Longrightarrow> subqueue_stopped l i ac \<Longrightarrow> held l (interfaces l ! i) ac \<or> waiting l (interfaces l ! i) ac \<or>
       if_hw_queue (interfaces l ! i) ac = q \<or> if_cab_queue (interfaces l ! i) = q"
  shows "sub_ok (propagate_queue_wake q l)"
proof -
  have inval: "queue_stop_reasons l IEEE80211_INVAL_HW_QUEUE = {}" using assms(1,2) by (auto simp: counts_ok_def queues_exist_def)
  have wake: "\<not> op_wake_tx_queue l" using assms(2) by (simp add: queues_exist_def)
  have e: "queues_exist (propagate_queue_wake q l) = queues_exist l \<and> iface_at (propagate_queue_wake q l) = iface_at l"
    by (rule exist_cong) simp_all
  have "counts_ok (propagate_queue_wake q l)" using assms(1) by (simp add: counts_ok_def)
  moreover have "(held l (interfaces l ! i) ac \<longrightarrow> subqueue_stopped (propagate_queue_wake q l) i ac) \<and>
      (subqueue_stopped (propagate_queue_wake q l) i ac \<longrightarrow> held l (interfaces l ! i) ac \<or> waiting l (interfaces l ! i) ac)"
    if "iface_at l i ac" for i ac
    using assms(5,6) [OF that] assms(3,4) inval that wake
    by (auto simp: propagate_queue_wake_def Let_def on_iface_def iface_at_def held_def waiting_def)
  ultimately show ?thesis using assms(2) e by (simp add: sub_ok_def held_def waiting_def)
qed

lemma sub_stop: "sub_ok l \<Longrightarrow> sub_ok (stop_queue q r c l)"
proof -
  assume l: "sub_ok l"
  have e: "queues_exist (stop_queue q r c l) = queues_exist l \<and> iface_at (stop_queue q r c l) = iface_at l"
    by (rule exist_cong) simp_all
  have st: "subqueue_stopped (stop_queue q r c l) = (\<lambda>i ac. subqueue_stopped l i ac \<or>
      q < hw_queues l \<and> r \<notin> queue_stop_reasons l q \<and>
      on_iface l (\<lambda>s ac. if_dev s \<and> (if_hw_queue s ac = q \<or> if_cab_queue s = q)) i ac)"
    using l by (auto simp: stop_queue_def Let_def sub_ok_def queues_exist_def fun_eq_iff)
  have "(held (stop_queue q r c l) (interfaces l ! i) ac \<longrightarrow> subqueue_stopped (stop_queue q r c l) i ac) \<and>
      (subqueue_stopped (stop_queue q r c l) i ac \<longrightarrow>
        held (stop_queue q r c l) (interfaces l ! i) ac \<or> waiting l (interfaces l ! i) ac)"
    if "iface_at l i ac" for i ac
    using l that unfolding st by (auto simp: sub_ok_def held_def stop_reasons on_iface_def iface_at_def)
  then show ?thesis using l e counts_stop [of l q r c] by (simp add: sub_ok_def waiting_def)
qed

text \<open>More frames may wait.\<close>

lemma sub_more:
  assumes "sub_ok l" "\<And>q. pending l q \<noteq> [] \<Longrightarrow> pending m q \<noteq> []" "hw_queues m = hw_queues l" "interfaces m = interfaces l"
    "op_wake_tx_queue m = op_wake_tx_queue l" "queue_stop_reasons m = queue_stop_reasons l"
    "q_stop_reasons m = q_stop_reasons l" "subqueue_stopped m = subqueue_stopped l"
  shows "sub_ok m"
proof -
  have "queues_exist m = queues_exist l \<and> iface_at m = iface_at l" by (rule exist_cong) (use assms in simp_all)
  with assms show ?thesis by (simp add: sub_ok_def counts_ok_def held_def waiting_def) blast
qed

lemma sub_wake: "sub_ok l \<Longrightarrow> sub_ok (wake_queue q r c l)"
proof -
  assume l: "sub_ok l"
  define n where "n = (if \<not> c then 0 else max 0 (q_stop_reasons l q r - 1))"
  define l1 where "l1 = l\<lparr>q_stop_reasons := (q_stop_reasons l)(q := (q_stop_reasons l q)(r := n)),
    queue_stop_reasons := (if n = 0 then (queue_stop_reasons l)(q := queue_stop_reasons l q - {r}) else queue_stop_reasons l)\<rparr>"
  have e: "queues_exist l1 = queues_exist l \<and> iface_at l1 = iface_at l" by (rule exist_cong) (simp_all add: l1_def)
  have nw: "\<not> op_wake_tx_queue l1" "\<not> op_wake_tx_queue l" using l by (simp_all add: sub_ok_def queues_exist_def l1_def)
  show ?thesis
  proof (cases "q < hw_queues l \<and> r \<in> queue_stop_reasons l q")
    case False
    then show ?thesis using l by (auto simp: wake_queue_def)
  next
    case True
    have u: "wake_queue q r c l = (if queue_stop_reasons l1 q \<noteq> {} then l1
        else if pending l1 q = [] then propagate_queue_wake q l1 else l1\<lparr>tx_pending_tasklet := True\<rparr>)"
      using True nw unfolding wake_queue_def Let_def n_def [symmetric] l1_def [symmetric] by auto
    have cnt: "counts_ok l1" using counts_wake [of l q r c] l u True by (auto simp: sub_ok_def counts_ok_def split: if_splits)
    have stopped: "iface_at l i ac \<Longrightarrow> held l1 (interfaces l ! i) ac \<Longrightarrow> subqueue_stopped l1 i ac" for i ac
      using l by (auto simp: sub_ok_def held_def l1_def split: if_splits)
    have cause: "iface_at l i ac \<Longrightarrow> subqueue_stopped l1 i ac \<Longrightarrow> held l1 (interfaces l ! i) ac \<or> waiting l1 (interfaces l ! i) ac \<or>
        (if_hw_queue (interfaces l ! i) ac = q \<or> if_cab_queue (interfaces l ! i) = q) \<and> queue_stop_reasons l1 q = {}" for i ac
    proof -
      assume a: "iface_at l i ac" "subqueue_stopped l1 i ac"
      have "queue_stop_reasons l x \<noteq> {} \<Longrightarrow> queue_stop_reasons l1 x \<noteq> {} \<or> x = q \<and> queue_stop_reasons l1 q = {}" for x
        by (cases "x = q") (simp_all add: l1_def)
      moreover have "held l (interfaces l ! i) ac \<or> waiting l (interfaces l ! i) ac"
        using l a by (simp add: sub_ok_def l1_def)
      moreover have "waiting l1 (interfaces l ! i) ac = waiting l (interfaces l ! i) ac" by (simp add: waiting_def l1_def)
      ultimately show ?thesis unfolding held_def by blast
    qed
    have i: "interfaces l1 = interfaces l" by (simp add: l1_def)
    show ?thesis
    proof (cases "queue_stop_reasons l1 q = {} \<and> pending l1 q = []")
      case w: True
      have "sub_ok (propagate_queue_wake q l1)"
        by (rule propagate_ok) (use cnt e l w stopped cause i in \<open>auto simp: sub_ok_def\<close>)
      then show ?thesis using w by (simp add: u)
    next
      case w: False
      then have "iface_at l i ac \<Longrightarrow> subqueue_stopped l1 i ac \<Longrightarrow> held l1 (interfaces l ! i) ac \<or> waiting l1 (interfaces l ! i) ac" for i ac
        using cause [of i ac] by (auto simp: waiting_def)
      with cnt e l stopped i have "sub_ok l1" by (simp add: sub_ok_def)
      then have "sub_ok (l1\<lparr>tx_pending_tasklet := b\<rparr>)" for b
        by (rule sub_more) simp_all
      with \<open>sub_ok l1\<close> show ?thesis using w by (simp add: u)
    qed
  qed
qed

lemma sub_queue: "sub_ok l \<Longrightarrow> sub_ok (tx_pending_queue h i l)"
proof -
  assume l: "sub_ok l"
  let ?m = "tx_drain h i l"
  show ?thesis
  proof (cases "queue_stop_reasons l i \<noteq> {} \<or> pending l i = []")
    case True
    then show ?thesis using l by (simp add: tx_pending_queue_def)
  next
    case False
    show ?thesis
    proof (cases "pending ?m i = []")
      case w: True
      have e: "queues_exist ?m = queues_exist l \<and> iface_at ?m = iface_at l" by (rule exist_cong) simp_all
      have "sub_ok (propagate_queue_wake i ?m)"
      proof (rule propagate_ok)
        show "counts_ok ?m" using l by (simp add: sub_ok_def counts_ok_def)
        show "held ?m (interfaces ?m ! j) ac \<or> waiting ?m (interfaces ?m ! j) ac \<or>
            if_hw_queue (interfaces ?m ! j) ac = i \<or> if_cab_queue (interfaces ?m ! j) = i"
          if "iface_at ?m j ac" "subqueue_stopped ?m j ac" for j ac
          using l that e drain_other [of _ i l h] by (simp add: sub_ok_def held_def waiting_def) blast
      qed (use l e w False in \<open>auto simp: sub_ok_def held_def\<close>)
      then show ?thesis using w False by (simp add: tx_pending_queue_def)
    next
      case w: False
      have "pending l q \<noteq> [] \<Longrightarrow> pending ?m q \<noteq> []" for q using w drain_other [of q i l h] by (cases "q = i") simp_all
      then have "sub_ok ?m" by (rule sub_more [OF l]) simp_all
      then show ?thesis using w False by (simp add: tx_pending_queue_def)
    qed
  qed
qed

lemma sub_pending: "sub_ok l \<Longrightarrow> sub_ok (ieee80211_tx_pending h l)"
  unfolding ieee80211_tx_pending_def
  by (rule queues_rule) (auto intro: sub_queue sub_more)

interpretation subqueues: tx_invariant sub_ok ok h for ok h
proof
  show "sub_ok (snd (tx_frags False skbs l))" if "sub_ok l" for l skbs
    by (rule sub_more [OF that]) (simp_all add: frags_other)
  show "sub_ok (l\<lparr>pending := (pending l)(q := pending l q @ [skb])\<rparr>)" if "sub_ok l" for l q skb
    by (rule sub_more [OF that]) simp_all
  show "sub_ok (l\<lparr>tx_freed := x\<rparr>)" "sub_ok (ieee80211_wake_txqs l)" if "sub_ok l" for l x
    by (rule sub_more [OF that]; simp add: ieee80211_wake_txqs_def)+
qed (simp_all add: sub_stop sub_wake sub_pending)

lemma step_frame: "hw_queues (tx_step h x l) = hw_queues l \<and> interfaces (tx_step h x l) = interfaces l"
proof -
  have f: "hw_queues (fold (\<lambda>q. stop_queue q r c) qs l) = hw_queues l \<and> interfaces (fold (\<lambda>q. stop_queue q r c) qs l) = interfaces l"
    "hw_queues (fold (\<lambda>q. wake_queue q r c) qs l) = hw_queues l \<and> interfaces (fold (\<lambda>q. wake_queue q r c) qs l) = interfaces l"
    for qs r c l by (induction qs arbitrary: l) simp_all
  have a: "hw_queues (add_pending_loop skbs l) = hw_queues l \<and> interfaces (add_pending_loop skbs l) = interfaces l" for skbs l
    by (induction skbs arbitrary: l) (simp_all add: Let_def)
  have "hw_queues (ieee80211_tx_pending h l) = hw_queues l \<and> interfaces (ieee80211_tx_pending h l) = interfaces l"
    unfolding ieee80211_tx_pending_def by (rule queues_rule) simp_all
  then show ?thesis
    by (cases x) (simp_all add: f a stop_queues_by_reason_def wake_queues_by_reason_def add_pending_skb_def add_pending_skbs_def
      ieee80211_wake_txqs_def Let_def)
qed

lemma run_frame:
  "hw_queues (tx_run h ops l) = hw_queues l" "interfaces (tx_run h ops l) = interfaces l"
  unfolding tx_run_def by (induction ops arbitrary: l; simp add: step_frame)+


section \<open>Order of the frames\<close>

text \<open>The frames of a queue that obey its stop, as their identities.\<close>

definition ids :: "nat \<Rightarrow> tx_frame list \<Rightarrow> nat list" where
  "ids q fs = map fr_id (filter (\<lambda>f. fr_hw_queue f = q \<and> \<not> fr_offchan_ok f) fs)"

lemma ids_simps [simp]:
  "ids q [] = []" "ids q (f # fs) = (if fr_hw_queue f = q \<and> \<not> fr_offchan_ok f then fr_id f # ids q fs else ids q fs)"
  "ids q (fs @ gs) = ids q fs @ ids q gs"
  by (simp_all add: ids_def)

definition view :: "tx_frame \<Rightarrow> nat \<times> nat \<times> bool" where
  "view f = (fr_id f, fr_hw_queue f, fr_offchan_ok f)"

lemma ids_view: "map view fs = map view gs \<Longrightarrow> ids q fs = ids q gs"
proof (induction fs arbitrary: gs)
  case (Cons f fs)
  then obtain g gs' where "gs = g # gs'" "view f = view g" "map view fs = map view gs'" by auto
  with Cons.IH [OF this(3)] show ?case by (auto simp: view_def)
qed simp

text \<open>Waiting frames are in their own queue; the transmit handlers pass each frame on as one fragment.\<close>

definition pend_ok :: "tx_local \<Rightarrow> bool" where
  "pend_ok l \<longleftrightarrow> (\<forall>q. \<forall>f \<in> set (pending l q). fr_hw_queue f = q \<and> fr_vif f)"

definition passes_on :: "(tx_frame \<Rightarrow> tx_frame list option) \<Rightarrow> bool" where
  "passes_on h \<longleftrightarrow> (\<forall>f. case h f of Some [g] \<Rightarrow> view g = view f \<and> fr_vif g | _ \<Rightarrow> False)"

lemma passes_onD: "passes_on h \<Longrightarrow> \<exists>g. h f = Some [g] \<and> view g = view f"
proof -
  assume "passes_on h"
  then have "case h f of Some [g] \<Rightarrow> view g = view f \<and> fr_vif g | _ \<Rightarrow> False" by (simp add: passes_on_def)
  then show ?thesis by (auto split: option.splits list.splits)
qed

definition accepted :: "tx_op \<Rightarrow> tx_frame list" where
  "accepted x = (case x of Op_send skbs \<Rightarrow> skbs | Op_add_pending skb \<Rightarrow> [skb] | Op_add_pendings skbs \<Rightarrow> skbs | _ \<Rightarrow> [])"

lemma frags_true: "queue_stop_reasons l (fr_hw_queue g) = {} \<Longrightarrow>
    tx_frags True [g] l = (True, l\<lparr>drv_sent := drv_sent l @ [g\<lparr>fr_vif := True\<rparr>]\<rparr>)"
  by (simp add: Let_def)

lemma drain_all:
  "pend_ok l \<Longrightarrow> passes_on h \<Longrightarrow> queue_stop_reasons l i = {} \<Longrightarrow>
   pending (tx_drain h i l) = (pending l)(i := []) \<and>
   map view (drv_sent (tx_drain h i l)) = map view (drv_sent l) @ map view (pending l i)"
proof (induction "length (pending l i)" arbitrary: l)
  case 0
  then show ?case by (subst tx_drain.simps, subst tx_drain.simps) (simp add: fun_upd_idem)
next
  case (Suc n)
  then obtain f fs where p: "pending l i = f # fs" by (cases "pending l i") auto
  then have f: "fr_hw_queue f = i" "fr_vif f" using Suc.prems(1) unfolding pend_ok_def by (metis list.set_intros(1))+
  define l1 where "l1 = l\<lparr>pending := (pending l)(i := fs)\<rparr>"
  have d: "tx_dequeue i l = (Some f, l1)" using p f by (simp add: tx_dequeue_def l1_def)
  obtain g where g: "view g = view f" "tx_pending_skb h f l1 = (True, l1\<lparr>drv_sent := drv_sent l1 @ [g]\<rparr>)"
  proof (cases "fr_processing f")
    case True
    obtain g where "h f = Some [g]" "view g = view f" using passes_onD [OF Suc.prems(2), of f] by blast
    moreover from this(2) have "queue_stop_reasons l1 (fr_hw_queue g) = {}"
      using f Suc.prems(3) by (simp add: view_def l1_def)
    ultimately show thesis using True that [of "g\<lparr>fr_vif := True\<rparr>"]
      by (simp add: tx_pending_skb_def frags_true view_def del: tx_frags.simps)
  next
    case False
    have "queue_stop_reasons l1 (fr_hw_queue f) = {}" using f Suc.prems(3) by (simp add: l1_def)
    with False that [of "f\<lparr>fr_vif := True\<rparr>"] show thesis
      by (simp add: tx_pending_skb_def frags_true view_def del: tx_frags.simps)
  qed
  define l2 where "l2 = l1\<lparr>drv_sent := drv_sent l1 @ [g]\<rparr>"
  have "n = length (pending l2 i)" using Suc.hyps(2) p by (simp add: l2_def l1_def)
  moreover have "set (pending l2 q) \<subseteq> set (pending l q)" for q using p by (auto simp: l2_def l1_def)
  with Suc.prems(1) have "pend_ok l2" unfolding pend_ok_def by blast
  moreover have "queue_stop_reasons l2 i = {}" using Suc.prems(3) by (simp add: l2_def l1_def)
  ultimately have ih: "pending (tx_drain h i l2) = (pending l2)(i := []) \<and>
    map view (drv_sent (tx_drain h i l2)) = map view (drv_sent l2) @ map view (pending l2 i)"
    using Suc.hyps(1) Suc.prems(2) by blast
  have "tx_drain h i l = tx_drain h i l2" using p d g(2) by (subst tx_drain.simps) (simp add: l2_def)
  with ih show ?case using g(1) p by (simp add: l2_def l1_def)
qed

lemma queue_all:
  assumes "pend_ok l" "passes_on h"
  shows "pending (tx_pending_queue h i l) = (if queue_stop_reasons l i = {} then (pending l)(i := []) else pending l)"
    "ids q (drv_sent (tx_pending_queue h i l)) @ ids q (pending (tx_pending_queue h i l) q) =
     ids q (drv_sent l) @ ids q (pending l q)"
proof -
  show "pending (tx_pending_queue h i l) = (if queue_stop_reasons l i = {} then (pending l)(i := []) else pending l)"
    using drain_all [OF assms, of i] by (auto simp: tx_pending_queue_def Let_def fun_upd_idem)
  have other: "ids q (pending l i) = []" if "q \<noteq> i"
    using assms(1) that by (auto simp: ids_def pend_ok_def filter_empty_conv)
  show "ids q (drv_sent (tx_pending_queue h i l)) @ ids q (pending (tx_pending_queue h i l) q) =
     ids q (drv_sent l) @ ids q (pending l q)"
  proof (cases "queue_stop_reasons l i = {} \<and> pending l i \<noteq> []")
    case True
    with drain_all [OF assms, of i] have d: "pending (tx_drain h i l) = (pending l)(i := [])"
      "map view (drv_sent (tx_drain h i l)) = map view (drv_sent l @ pending l i)" by auto
    from ids_view [OF d(2)] have "ids q (drv_sent (tx_drain h i l)) = ids q (drv_sent l) @ ids q (pending l i)" by simp
    with True d(1) other show ?thesis by (cases "q = i") (simp_all add: tx_pending_queue_def)
  next
    case False
    then show ?thesis by (auto simp: tx_pending_queue_def)
  qed
qed

text \<open>The fragments of a frame are all sent, all queued behind the waiting ones, or dropped.\<close>

lemma frags_regular:
  assumes "\<forall>skb \<in> set skbs. fr_hw_queue skb = x \<and> \<not> fr_offchan_ok skb"
  shows "tx_frags False skbs l =
    (if skbs = [] then (True, l)
     else if queue_stop_reasons l x \<noteq> {} \<or> pending l x \<noteq> [] then (False, l\<lparr>pending := (pending l)(x := pending l x @ skbs)\<rparr>)
     else (True, l\<lparr>drv_sent := drv_sent l @ map (\<lambda>s. s\<lparr>fr_vif := True\<rparr>) skbs\<rparr>))"
  using assms
proof (induction skbs arbitrary: l)
  case (Cons skb skbs)
  let ?l = "l\<lparr>drv_sent := drv_sent l @ [skb\<lparr>fr_vif := True\<rparr>]\<rparr>"
  show ?case using Cons.prems Cons.IH [of ?l] by (cases "skbs = []") (auto simp: Let_def)
qed simp

lemma frags_offchan:
  assumes "\<forall>skb \<in> set skbs. fr_offchan_ok skb"
  shows "pending (snd (tx_frags False skbs l)) = pending l \<and> ids q (drv_sent (snd (tx_frags False skbs l))) = ids q (drv_sent l)"
  using assms
proof (induction skbs arbitrary: l)
  case (Cons skb skbs)
  show ?case using Cons.prems Cons.IH [of "l\<lparr>drv_sent := drv_sent l @ [skb\<lparr>fr_vif := True\<rparr>]\<rparr>"] by (simp add: Let_def)
qed simp

lemma ids_vif [simp]: "ids q (map (\<lambda>s. s\<lparr>fr_vif := True\<rparr>) skbs) = ids q skbs"
  by (rule ids_view) (simp add: view_def)

lemma ids_none: "\<forall>f \<in> set fs. fr_hw_queue f = q \<longrightarrow> fr_offchan_ok f \<Longrightarrow> ids q fs = []"
  by (auto simp: ids_def filter_empty_conv)

lemma add_loop_pending:
  "\<forall>skb \<in> set skbs. fr_vif skb \<Longrightarrow>
   pending (add_pending_loop skbs l) q = pending l q @ filter (\<lambda>f. fr_hw_queue f = q) skbs \<and>
   drv_sent (add_pending_loop skbs l) = drv_sent l"
  by (induction skbs arbitrary: l) (auto simp: Let_def)

lemma ids_filter: "ids q (filter (\<lambda>f. fr_hw_queue f = q) fs) = ids q fs"
  by (induction fs) simp_all

lemma stop_wake_folds:
  "pending (fold (\<lambda>q. stop_queue q r c) qs l) = pending l" "drv_sent (fold (\<lambda>q. stop_queue q r c) qs l) = drv_sent l"
  "pending (fold (\<lambda>q. wake_queue q r c) qs l) = pending l" "drv_sent (fold (\<lambda>q. wake_queue q r c) qs l) = drv_sent l"
  by (induction qs arbitrary: l; simp)+

lemma pending_fifo:
  assumes "pend_ok l" "passes_on h"
  shows "pend_ok (ieee80211_tx_pending h l) \<and>
    ids q (drv_sent (ieee80211_tx_pending h l)) @ ids q (pending (ieee80211_tx_pending h l) q) =
      ids q (drv_sent l) @ ids q (pending l q)"
  unfolding ieee80211_tx_pending_def
  by (rule queues_rule [where P = "\<lambda>m. pend_ok m \<and>
        ids q (drv_sent m) @ ids q (pending m q) = ids q (drv_sent l) @ ids q (pending l q)"])
    (use assms queue_all in \<open>auto simp: pend_ok_def\<close>)

lemma step_fifo:
  assumes "pend_ok l" "passes_on h" "op_ok fr_vif x"
  shows "pend_ok (tx_step h x l) \<and> ids q (drv_sent (tx_step h x l)) @ ids q (pending (tx_step h x l) q) =
    ids q (drv_sent l) @ ids q (pending l q) @ ids q (accepted x)"
proof (cases x)
  case (Op_send skbs)
  then have a: "\<forall>skb \<in> set skbs. fr_hw_queue skb = fr_hw_queue (hd skbs) \<and> fr_offchan_ok skb = fr_offchan_ok (hd skbs)"
    "\<forall>skb \<in> set skbs. fr_vif skb" using assms(3) by (auto simp: op_ok_def)
  show ?thesis
  proof (cases "fr_offchan_ok (hd skbs)")
    case True
    with a(1) have o: "\<forall>skb \<in> set skbs. fr_offchan_ok skb" by simp
    then have "ids q skbs = []" by (intro ids_none) simp
    with frags_offchan [OF o] assms(1) Op_send show ?thesis by (simp add: accepted_def pend_ok_def)
  next
    case False
    with a(1) have r: "\<forall>skb \<in> set skbs. fr_hw_queue skb = fr_hw_queue (hd skbs) \<and> \<not> fr_offchan_ok skb" by simp
    have n: "ids q skbs = []" if "q \<noteq> fr_hw_queue (hd skbs)" using that r by (intro ids_none) auto
    consider "skbs = []" | "skbs \<noteq> []" "queue_stop_reasons l (fr_hw_queue (hd skbs)) \<noteq> {} \<or> pending l (fr_hw_queue (hd skbs)) \<noteq> []"
      | "skbs \<noteq> []" "queue_stop_reasons l (fr_hw_queue (hd skbs)) = {}" "pending l (fr_hw_queue (hd skbs)) = []" by blast
    then show ?thesis
    proof cases
      case 1
      with Op_send assms(1) show ?thesis by (simp add: accepted_def)
    next
      case 2
      then have m: "snd (tx_frags False skbs l) = l\<lparr>pending := (pending l)(fr_hw_queue (hd skbs) := pending l (fr_hw_queue (hd skbs)) @ skbs)\<rparr>"
        using frags_regular [OF r, of l] by simp
      have "pend_ok (snd (tx_frags False skbs l))" unfolding m using assms(1) a r by (simp add: pend_ok_def ball_Un)
      with n Op_send show ?thesis by (simp add: m accepted_def)
    next
      case 3
      then have m: "snd (tx_frags False skbs l) = l\<lparr>drv_sent := drv_sent l @ map (\<lambda>s. s\<lparr>fr_vif := True\<rparr>) skbs\<rparr>"
        using frags_regular [OF r, of l] by simp
      have "pend_ok (snd (tx_frags False skbs l))" unfolding m using assms(1) by (simp add: pend_ok_def)
      with n 3(3) Op_send show ?thesis by (cases "q = fr_hw_queue (hd skbs)") (simp_all add: m accepted_def)
    qed
  qed
next
  case (Op_add_pending skb)
  with assms show ?thesis by (auto simp: op_ok_def accepted_def add_pending_skb_def Let_def pend_ok_def)
next
  case (Op_add_pendings skbs)
  with assms add_loop_pending [of skbs l] show ?thesis
    by (auto simp: op_ok_def accepted_def add_pending_skbs_def pend_ok_def stop_wake_folds ids_filter)
next
  case Op_tx_pending
  with pending_fifo [OF assms(1,2)] show ?thesis by (simp add: accepted_def)
qed (use assms(1) in \<open>simp_all add: accepted_def stop_queues_by_reason_def wake_queues_by_reason_def stop_wake_folds pend_ok_def
    ieee80211_wake_txqs_def\<close>)

lemma run_fifo:
  "pend_ok l \<Longrightarrow> passes_on h \<Longrightarrow> list_all (op_ok fr_vif) ops \<Longrightarrow>
   pend_ok (tx_run h ops l) \<and> ids q (drv_sent (tx_run h ops l)) @ ids q (pending (tx_run h ops l) q) =
     ids q (drv_sent l) @ ids q (pending l q) @ ids q (concat (map accepted ops))"
proof (induction ops arbitrary: l)
  case (Cons x ops)
  with step_fifo [OF Cons.prems(1,2), of x q] show ?case by (simp add: tx_run_def)
qed (simp add: tx_run_def)


section \<open>Waiting frames are sent\<close>

definition served :: "(tx_frame \<Rightarrow> tx_frame list option) \<Rightarrow> tx_local \<Rightarrow> bool" where
  "served h l \<longleftrightarrow> passes_on h \<and> pend_ok l \<and>
     (\<forall>q < hw_queues l. queue_stop_reasons l q = {} \<and> pending l q \<noteq> [] \<longrightarrow> tx_pending_tasklet l)"

lemma pending_drains:
  assumes "pend_ok l" "passes_on h" "q < hw_queues l" "queue_stop_reasons l q = {}"
  shows "pending (ieee80211_tx_pending h l) q = []"
proof -
  have "pend_ok (fold (tx_pending_queue h) is m) \<and> queue_stop_reasons (fold (tx_pending_queue h) is m) = queue_stop_reasons m \<and>
      (\<forall>x. pending m x = [] \<or> x \<in> set is \<and> queue_stop_reasons m x = {} \<longrightarrow> pending (fold (tx_pending_queue h) is m) x = [])"
    if "pend_ok m" for "is" m
    using that
  proof (induction "is" arbitrary: m)
    case (Cons i "is")
    have "pend_ok (tx_pending_queue h i m)"
      using Cons.prems queue_all(1) [OF Cons.prems assms(2), of i] by (simp add: pend_ok_def)
    note ih = Cons.IH [OF this]
    have "\<forall>x. pending m x = [] \<or> x \<in> set (i # is) \<and> queue_stop_reasons m x = {} \<longrightarrow>
        pending (tx_pending_queue h i m) x = [] \<or> x \<in> set is \<and> queue_stop_reasons (tx_pending_queue h i m) x = {}"
      using queue_all(1) [OF Cons.prems assms(2), of i] by auto
    with ih show ?case unfolding fold_simps(2) queue_frame(4) by blast
  qed simp
  note all = this
  have "pend_ok (l\<lparr>tx_pending_tasklet := False\<rparr>)" using assms(1) by (simp add: pend_ok_def)
  from all [OF this, of "[0..<hw_queues l]", THEN conjunct2, THEN conjunct2, rule_format, of q] assms(3,4)
  show ?thesis by (simp add: ieee80211_tx_pending_def)
qed

lemma frags_unstopped:
  "queue_stop_reasons l q = {} \<Longrightarrow> pending l q = [] \<Longrightarrow> pending (snd (tx_frags False skbs l)) q = []"
  by (induction skbs arbitrary: l) (auto simp: Let_def)

lemma served_wake: "served h l \<Longrightarrow> served h (wake_queue q r c l)"
proof -
  assume l: "served h l"
  have "tx_pending_tasklet (wake_queue q r c l)"
    if x: "x < hw_queues l" "queue_stop_reasons (wake_queue q r c l) x = {}" "pending l x \<noteq> []" for x
  proof (cases "queue_stop_reasons l x = {}")
    case True
    then have "tx_pending_tasklet l" using l x by (simp add: served_def)
    then show ?thesis by (simp add: wake_queue_def Let_def)
  next
    case False
    then have "q < hw_queues l \<and> r \<in> queue_stop_reasons l q \<and> (\<not> c \<or> q_stop_reasons l q r \<le> 1)" "x = q" "queue_stop_reasons l q - {r} = {}"
      using x(2) by (auto simp: wake_reasons split: if_splits)
    moreover from this(1) have "c \<Longrightarrow> max 0 (q_stop_reasons l q r - 1) = 0" by simp
    ultimately show ?thesis using x(3) by (cases c) (simp_all add: wake_queue_def Let_def)
  qed
  with l show ?thesis by (simp add: served_def pend_ok_def)
qed

interpretation service: tx_invariant "served h" fr_vif h for h
proof
  show "served h (stop_queue q r c l)" if "served h l" for l q r c
    using that by (auto simp: served_def pend_ok_def stop_reasons split: if_splits)
  show "served h (wake_queue q r c l)" if "served h l" for l q r c by (rule served_wake [OF that])
  show "served h (snd (tx_frags False skbs l))"
    if "served h l" "\<forall>skb \<in> set skbs. fr_vif skb \<and> fr_hw_queue skb = fr_hw_queue (hd skbs) \<and> fr_offchan_ok skb = fr_offchan_ok (hd skbs)"
    for l skbs
  proof -
    have "pend_ok (snd (tx_frags False skbs l))"
      using step_fifo [of l h "Op_send skbs" 0] that by (simp add: served_def op_ok_def)
    moreover have "pending l q \<noteq> []" if "q < hw_queues l" "queue_stop_reasons l q = {}"
        "pending (snd (tx_frags False skbs l)) q \<noteq> []" for q
      using that(2,3) frags_unstopped by blast
    ultimately show ?thesis using that(1) by (auto simp: served_def)
  qed
  show "served h (ieee80211_tx_pending h l)" if "served h l" for l
  proof -
    have "hw_queues (ieee80211_tx_pending h l) = hw_queues l \<and> queue_stop_reasons (ieee80211_tx_pending h l) = queue_stop_reasons l"
      unfolding ieee80211_tx_pending_def by (rule queues_rule) simp_all
    with that pending_drains [of l h] pending_fifo [of l h 0] show ?thesis by (auto simp: served_def)
  qed
qed (auto simp: served_def pend_ok_def ieee80211_wake_txqs_def)


section \<open>A device with one interface\<close>

text \<open>
  Four queues, with the cab queue of the interface on queue 3. Frame 1 is sent, queue 0 is stopped twice with
  counting, frames 2 and 3 wait, one stop is taken back, then the other, and the tasklet runs.
\<close>

definition demo_local :: tx_local where
  "demo_local = \<lparr>hw_queues = 4, op_wake_tx_queue = False, op_flush = False, hw_queue_control = False,
     interfaces = [\<lparr>if_dev = True, if_hw_queue = id, if_cab_queue = 3\<rparr>],
     queue_stop_reasons = (\<lambda>_. {}), q_stop_reasons = (\<lambda>_ _. 0), pending = (\<lambda>_. []),
     subqueue_stopped = (\<lambda>_ _. False), txqs_stopped = (\<lambda>_ _. False), tx_pending_tasklet = False,
     wake_txqs_tasklet = False, drv_sent = [], tx_freed = []\<rparr>"

definition demo_frame :: "nat \<Rightarrow> tx_frame" where
  "demo_frame n = \<lparr>fr_id = n, fr_hw_queue = 0, fr_vif = True, fr_offchan_ok = False, fr_processing = False\<rparr>"

definition demo_ops :: "tx_op list" where
  "demo_ops = [Op_send [demo_frame 1], Op_stop 0 STOP_PS True, Op_stop 0 STOP_PS True, Op_send [demo_frame 2, demo_frame 3],
     Op_wake 0 STOP_PS True, Op_add_pending (demo_frame 4), Op_wake 0 STOP_PS True, Op_send [demo_frame 5]]"

lemma demo_local_ok: "sub_ok demo_local" "served (\<lambda>f. Some [f\<lparr>fr_vif := True\<rparr>]) demo_local"
  by (auto simp: demo_local_def sub_ok_def counts_ok_def queues_exist_def iface_at_def held_def IEEE80211_INVAL_HW_QUEUE_def
      n_acs_def IEEE80211_NUM_ACS_def served_def passes_on_def view_def pend_ok_def)

lemma demo_ops_ok: "list_all (op_ok fr_vif) demo_ops" "list_all (op_ok (\<lambda>_. True)) demo_ops"
  by (simp_all add: demo_ops_def op_ok_def demo_frame_def)




section \<open>Two anomalies\<close>

text \<open>
  A driver with intermediate queues: waking any queue also resumes an access category whose own queue is stopped, if
  the cab queue of its interface is not, because \<open>_ieee80211_wake_txqs\<close> looks for either of the two.
\<close>

lemma wake_resumes_stopped:
  assumes "op_wake_tx_queue l" "i < length (interfaces l)" "ac < n_acs l" "if_cab_queue (interfaces l ! i) < hw_queues l"
    "queue_stop_reasons l (if_cab_queue (interfaces l ! i)) = {}" "q < hw_queues l" "queue_stop_reasons l q = {r}" "r \<noteq> STOP_DRIVER"
  shows "\<not> txqs_stopped (wake_queue q r False l) i ac"
  using assms by (auto simp: wake_queue_def Let_def wake_txqs_def on_iface_def n_acs_def list_ex_iff propagate_queue_wake_def)

text \<open>
  While the tasklet has given up the lock to send the last waiting frame, a frame sent by another thread finds nothing
  waiting and overtakes it.
\<close>

lemma tasklet_overtaken:
  assumes "pending l q = [f]" "queue_stop_reasons l q = {}" "fr_vif f" "fr_hw_queue f = q" "\<not> fr_processing f"
    "fr_hw_queue g = q" "\<not> fr_offchan_ok g"
  shows "drv_sent (snd (tx_pending_skb h f (snd (tx_frags False [g] (snd (tx_dequeue q l)))))) =
    drv_sent l @ [g\<lparr>fr_vif := True\<rparr>, f\<lparr>fr_vif := True\<rparr>]"
  using assms by (simp add: tx_dequeue_def tx_pending_skb_def Let_def)

end
