(* ===== verification/Tx_Ba_Props.thy ===== *)
theory Tx_Ba_Props
  imports Tx_Ba Tx_Queue_Props
begin

unbundle bit_operations_syntax

text \<open>
  The block-ack sessions of the transmit side: whatever happens in whatever order, the work of a station never uses a
  freed session, each queue is stopped for aggregation only inside of an operation, a session is operational when
  driver and peer have both agreed, and the intermediate queue of a TID is stopped exactly while a session that is
  not operational exists; in the port such a queue can stay stopped for ever.
\<close>

section \<open>Operations\<close>

datatype ba_op =
    Ba_start bool nat u16 | Ba_stop nat | Ba_start_cb nat | Ba_stop_cb nat | Ba_resp_timer nat | Ba_session_timer nat
  | Ba_addba_resp u16 u8 u16 u16 | Ba_delba u16 | Ba_work "nat \<Rightarrow> bool" bool "nat \<Rightarrow> int"
  | Ba_tear_down ieee80211_agg_stop_reason | Ba_tx nat tx_frame

fun session_op :: "ba_op \<Rightarrow> tx_ba \<Rightarrow> tx_ba option" where
  "session_op (Ba_start k tid timeout) s = Some (snd (start_tx_ba_session k tid timeout s))"
| "session_op (Ba_stop tid) s = Some (snd (stop_tx_ba_session tid s))"
| "session_op (Ba_start_cb tid) s = Some (start_tx_ba_cb_irqsafe tid s)"
| "session_op (Ba_stop_cb tid) s = Some (stop_tx_ba_cb_irqsafe tid s)"
| "session_op (Ba_resp_timer tid) s = Some (sta_addba_resp_timer_expired tid s)"
| "session_op (Ba_session_timer tid) s = Some (sta_tx_agg_session_timer_expired tid s)"
| "session_op (Ba_addba_resp capab token status timeout) s = Some (process_addba_resp capab token status timeout s)"
| "session_op (Ba_delba params) s = Some (process_delba params s)"
| "session_op (Ba_work k hw ret) s = ieee80211_ba_session_work k hw ret s"
| "session_op (Ba_tear_down reason) s = Some (sta_tear_down_BA_sessions reason s)"
| "session_op (Ba_tx tid skb) s = Some (snd (tx_prep_agg tid skb s))"

definition session_run :: "ba_op list \<Rightarrow> tx_ba \<Rightarrow> tx_ba option" where
  "session_run ops s = opt_fold session_op ops s"

lemma opt_fold_rule:
  "(\<And>x s. x \<in> set xs \<Longrightarrow> P s \<Longrightarrow> \<exists>t. f x s = Some t \<and> P t) \<Longrightarrow> P s \<Longrightarrow> \<exists>t. opt_fold f xs s = Some t \<and> P t"
proof (induction xs arbitrary: s)
  case (Cons x xs)
  then obtain t where "f x s = Some t" "P t" by (metis list.set_intros(1))
  with Cons.IH [of t] Cons.prems(1) show ?case by (metis list.set_intros(2) opt_fold.simps(2) option.simps(5))
qed simp

lemma fold_rule: "(\<And>x s. x \<in> set xs \<Longrightarrow> P s \<Longrightarrow> P (f x s)) \<Longrightarrow> P s \<Longrightarrow> P (fold f xs s)"
  by (induction xs arbitrary: s) simp_all

lemma opt_fold_append: "opt_fold f (xs @ ys) s = (case opt_fold f xs s of None \<Rightarrow> None | Some t \<Rightarrow> opt_fold f ys t)"
  by (induction xs arbitrary: s) (simp_all split: option.split)

section \<open>The invariant\<close>

text \<open>No queue is stopped for aggregation between two operations.\<close>

definition balanced :: "tx_ba \<Rightarrow> bool" where
  "balanced s \<longleftrightarrow> counts_ok (ba_local s) \<and> (\<forall>q. agg_queue_stop s q = 0 \<and> STOP_AGGREGATION \<notin> queue_stop_reasons (ba_local s) q)"

definition session_ok :: "tid_ampdu_tx \<Rightarrow> txq_info_flag set option \<Rightarrow> bool" where
  "session_ok t txq \<longleftrightarrow> HT_AGG_STATE_WANT_START \<notin> agg_state t \<and>
     (HT_AGG_STATE_OPERATIONAL \<in> agg_state t \<longrightarrow>
       HT_AGG_STATE_DRV_READY \<in> agg_state t \<and> HT_AGG_STATE_RESPONSE_RECEIVED \<in> agg_state t) \<and>
     (HT_AGG_STATE_OPERATIONAL \<in> agg_state t \<or> HT_AGG_STATE_STOPPING \<in> agg_state t \<or>
       HT_AGG_STATE_DRV_READY \<notin> agg_state t \<or> HT_AGG_STATE_RESPONSE_RECEIVED \<notin> agg_state t) \<and>
     (case txq of None \<Rightarrow> True
      | Some f \<Rightarrow> (IEEE80211_TXQ_STOP \<in> f \<longleftrightarrow> HT_AGG_STATE_OPERATIONAL \<notin> agg_state t) \<and>
          (HT_AGG_STATE_OPERATIONAL \<in> agg_state t \<longrightarrow> IEEE80211_TXQ_AMPDU \<in> f))"

definition view_ok :: "tid_ampdu_tx option \<Rightarrow> tid_ampdu_tx option \<Rightarrow> txq_info_flag set option \<Rightarrow> bool" where
  "view_ok start session txq \<longleftrightarrow>
     (case start of None \<Rightarrow> True
      | Some t \<Rightarrow> agg_state t = {HT_AGG_STATE_WANT_START} \<and> agg_pending t = [] \<and> session = None) \<and>
     (case session of
        None \<Rightarrow> (case txq of None \<Rightarrow> True | Some f \<Rightarrow> IEEE80211_TXQ_STOP \<notin> f \<and> IEEE80211_TXQ_AMPDU \<notin> f)
      | Some t \<Rightarrow> session_ok t txq)"

definition tid_ok :: "tx_ba \<Rightarrow> nat \<Rightarrow> bool" where
  "tid_ok s tid \<longleftrightarrow> view_ok (tid_start_tx s tid) (tid_tx s tid) (sta_txq s tid)"

definition ba_inv :: "tx_ba \<Rightarrow> bool" where
  "ba_inv s \<longleftrightarrow> balanced s \<and> (\<forall>tid. tid_ok s tid)"

section \<open>One TID\<close>

lemma ba_invI:
  assumes "ba_inv s" "balanced s'" "view_ok (tid_start_tx s' tid) (tid_tx s' tid) (sta_txq s' tid)"
    "\<And>x. x \<noteq> tid \<Longrightarrow> tid_start_tx s' x = tid_start_tx s x \<and> tid_tx s' x = tid_tx s x \<and> sta_txq s' x = sta_txq s x"
  shows "ba_inv s'"
  unfolding ba_inv_def
proof (intro conjI allI)
  fix x
  show "tid_ok s' x" using assms by (cases "x = tid") (auto simp: tid_ok_def ba_inv_def)
qed (rule assms(2))

lemma ba_invD: "ba_inv s \<Longrightarrow> balanced s \<and> view_ok (tid_start_tx s tid) (tid_tx s tid) (sta_txq s tid)"
  by (simp add: ba_inv_def tid_ok_def)

lemma view_start: "view_ok (Some t0) x q \<Longrightarrow> x = None"
  by (simp add: view_ok_def)

lemma view_session: "view_ok x (Some t) q \<longleftrightarrow> x = None \<and> session_ok t q"
  by (cases x) (auto simp: view_ok_def)

lemma upd_fields [simp]:
  "tid_start_tx (upd_tid_tx tid f s) = tid_start_tx s" "sta_txq (upd_tid_tx tid f s) = sta_txq s"
  "tid_tx (upd_tid_tx tid f s) = (tid_tx s)(tid := map_option f (tid_tx s tid))"
  "ba_local (upd_tid_tx tid f s) = ba_local s" "agg_queue_stop (upd_tid_tx tid f s) = agg_queue_stop s"
  "vif_hw_queue (upd_tid_tx tid f s) = vif_hw_queue s" "sta_rx (upd_tid_tx tid f s) = sta_rx s"
  by (simp_all add: upd_tid_tx_def)

lemma assign_fields [simp]:
  "tid_start_tx (assign_tid_tx tid t s) = tid_start_tx s" "sta_txq (assign_tid_tx tid t s) = sta_txq s"
  "tid_tx (assign_tid_tx tid t s) = (tid_tx s)(tid := t)"
  "ba_local (assign_tid_tx tid t s) = ba_local s" "agg_queue_stop (assign_tid_tx tid t s) = agg_queue_stop s"
  "vif_hw_queue (assign_tid_tx tid t s) = vif_hw_queue s" "sta_rx (assign_tid_tx tid t s) = sta_rx s"
  by (simp_all add: assign_tid_tx_def)

lemma kfree_fields [simp]:
  "tid_start_tx (kfree_tid_tx t s) = tid_start_tx s" "sta_txq (kfree_tid_tx t s) = sta_txq s"
  "tid_tx (kfree_tid_tx t s) = tid_tx s"
  "ba_local (kfree_tid_tx t s) = ba_local s" "agg_queue_stop (kfree_tid_tx t s) = agg_queue_stop s"
  "vif_hw_queue (kfree_tid_tx t s) = vif_hw_queue s" "sta_rx (kfree_tid_tx t s) = sta_rx s"
  by (simp_all add: kfree_tid_tx_def)

lemma txq_fields [simp]:
  "tid_start_tx (agg_stop_txq tid s) = tid_start_tx s" "tid_tx (agg_stop_txq tid s) = tid_tx s"
  "ba_local (agg_stop_txq tid s) = ba_local s" "agg_queue_stop (agg_stop_txq tid s) = agg_queue_stop s"
  "vif_hw_queue (agg_stop_txq tid s) = vif_hw_queue s" "sta_rx (agg_stop_txq tid s) = sta_rx s"
  "tid_start_tx (agg_start_txq tid b s) = tid_start_tx s" "tid_tx (agg_start_txq tid b s) = tid_tx s"
  "ba_local (agg_start_txq tid b s) = ba_local s" "agg_queue_stop (agg_start_txq tid b s) = agg_queue_stop s"
  "vif_hw_queue (agg_start_txq tid b s) = vif_hw_queue s" "sta_rx (agg_start_txq tid b s) = sta_rx s"
  by (simp_all add: agg_stop_txq_def agg_start_txq_def)

lemma splice_fields [simp]:
  "tid_start_tx (agg_splice_packets tid s) = tid_start_tx s" "tid_tx (agg_splice_packets tid s) = tid_tx s"
  "sta_txq (agg_splice_packets tid s) = sta_txq s" "sta_rx (agg_splice_packets tid s) = sta_rx s"
  "tid_start_tx (agg_splice_finish tid s) = tid_start_tx s" "tid_tx (agg_splice_finish tid s) = tid_tx s"
  "sta_txq (agg_splice_finish tid s) = sta_txq s" "sta_rx (agg_splice_finish tid s) = sta_rx s"
  by (simp_all add: agg_splice_packets_def agg_splice_finish_def stop_queue_agg_def wake_queue_agg_def Let_def)

text \<open>The reference count is back at zero when the splice is finished.\<close>

lemma balanced_cong:
  "ba_local s' = ba_local s \<Longrightarrow> agg_queue_stop s' = agg_queue_stop s \<Longrightarrow> balanced s' = balanced s"
  by (simp add: balanced_def)

lemma balanced_splice:
  assumes "balanced s" "ba_local s' = ba_local (agg_splice_packets tid s)"
    "agg_queue_stop s' = agg_queue_stop (agg_splice_packets tid s)" "vif_hw_queue s' = vif_hw_queue s"
  shows "balanced (agg_splice_finish tid s')"
proof -
  let ?q = "agg_queue tid s"
  have q: "agg_queue tid s' = ?q" by (simp add: agg_queue_def assms(4))
  have a: "agg_queue_stop (agg_splice_finish tid s') = agg_queue_stop s"
    using assms(1,3) q by (auto simp: agg_splice_finish_def agg_splice_packets_def wake_queue_agg_def stop_queue_agg_def Let_def
        balanced_def fun_eq_iff)
  have l: "ba_local (agg_splice_finish tid s') = wake_queue ?q STOP_AGGREGATION False (stop_queue ?q STOP_AGGREGATION False (ba_local s))"
    using assms q by (simp add: agg_splice_finish_def agg_splice_packets_def wake_queue_agg_def stop_queue_agg_def Let_def balanced_def)
  have "counts_ok (ba_local (agg_splice_finish tid s'))"
    unfolding l using assms(1) by (intro counts_wake counts_stop) (simp add: balanced_def)
  moreover have "STOP_AGGREGATION \<notin> queue_stop_reasons (ba_local (agg_splice_finish tid s')) x" for x
    unfolding l using assms(1) by (auto simp: balanced_def wake_reasons stop_reasons split: if_splits)
  ultimately show ?thesis using assms(1) a by (simp add: balanced_def)
qed

text \<open>A change of one session that keeps the bits, or sets ones that the invariant does not read.\<close>

lemma inv_upd:
  assumes "ba_inv s" "\<And>t. session_ok t (sta_txq s tid) \<Longrightarrow> tid_tx s tid = Some t \<Longrightarrow> session_ok (f t) (sta_txq s tid)"
  shows "ba_inv (upd_tid_tx tid f s)"
proof (rule ba_invI [OF assms(1), where tid = tid])
  show "balanced (upd_tid_tx tid f s)" using ba_invD [OF assms(1)] by (simp add: balanced_cong [OF upd_fields(4,5)])
  show "view_ok (tid_start_tx (upd_tid_tx tid f s) tid) (tid_tx (upd_tid_tx tid f s) tid) (sta_txq (upd_tid_tx tid f s) tid)"
    using ba_invD [OF assms(1), of tid] assms(2) by (cases "tid_tx s tid") (auto simp: view_session)
qed simp

definition inert :: "agg_bit \<Rightarrow> bool" where
  "inert b \<longleftrightarrow> b \<in> {HT_AGG_STATE_WANT_STOP, HT_AGG_STATE_START_CB, HT_AGG_STATE_STOP_CB}"

lemma session_bits:
  "session_ok (set_agg b t) q = session_ok t q" "session_ok (clear_agg b t) q = session_ok t q" if "inert b"
  using that by (auto simp: session_ok_def set_agg_def clear_agg_def inert_def split: option.splits)

lemma session_same: "agg_state t' = agg_state t \<Longrightarrow> session_ok t' q = session_ok t q"
  by (cases q) (simp_all add: session_ok_def)

lemma session_stopping:
  assumes "session_ok t q" "agg_state t' = insert HT_AGG_STATE_STOPPING (agg_state t) - {HT_AGG_STATE_OPERATIONAL}"
  shows "session_ok t' (map_option (insert IEEE80211_TXQ_STOP) q)"
proof -
  have "x \<in> agg_state t' \<longleftrightarrow> (x = HT_AGG_STATE_STOPPING \<or> x \<in> agg_state t) \<and> x \<noteq> HT_AGG_STATE_OPERATIONAL" for x
    by (simp add: assms(2))
  then show ?thesis using assms(1) unfolding session_ok_def by (cases q) simp_all
qed

lemma session_ready:
  assumes "session_ok t q" "HT_AGG_STATE_RESPONSE_RECEIVED \<notin> agg_state t" "agg_state t' = insert HT_AGG_STATE_DRV_READY (agg_state t)"
  shows "session_ok t' q"
  using assms(1,2) unfolding session_ok_def assms(3) by (cases q) simp_all

lemma session_response:
  assumes "session_ok t q" "HT_AGG_STATE_DRV_READY \<notin> agg_state t" "agg_state t' = insert HT_AGG_STATE_RESPONSE_RECEIVED (agg_state t)"
  shows "session_ok t' q"
  using assms(1,2) unfolding session_ok_def assms(3) by (cases q) simp_all

lemma session_amsdu: "session_ok t (map_option (insert IEEE80211_TXQ_NO_AMSDU) q) = session_ok t q"
  by (cases q) (simp_all add: session_ok_def)

lemma view_amsdu: "view_ok x y (map_option (insert IEEE80211_TXQ_NO_AMSDU) q) = view_ok x y q"
  by (cases y; cases q) (simp_all add: view_ok_def session_amsdu flip: option.map)

lemma session_started: "session_ok t' (map_option (insert IEEE80211_TXQ_STOP) q)" if "agg_state t' = {}"
  using that by (cases q) (simp_all add: session_ok_def)

lemma inv_upd_same:
  assumes "ba_inv s" "\<And>t. agg_state (f t) = agg_state t"
  shows "ba_inv (upd_tid_tx tid f s)"
  by (rule inv_upd [OF assms(1)]) (rule session_same [THEN iffD2, OF assms(2)])

lemma inv_other:
  assumes "ba_inv s" "ba_local s' = ba_local s" "agg_queue_stop s' = agg_queue_stop s"
    "tid_start_tx s' = tid_start_tx s" "tid_tx s' = tid_tx s" "sta_txq s' = sta_txq s"
  shows "ba_inv s'"
  using assms by (simp add: ba_inv_def tid_ok_def balanced_def)

lemma inv_stop: "ba_inv s \<Longrightarrow> ba_inv (snd (stop_tx_ba_session tid s))"
proof -
  assume s: "ba_inv s"
  have "ba_inv ((upd_tid_tx tid (set_agg HT_AGG_STATE_WANT_STOP) s)\<lparr>ampdu_work := True\<rparr>)"
    by (rule inv_other [OF inv_upd [OF s]]) (simp_all add: session_bits inert_def)
  with s show ?thesis by (auto simp: stop_tx_ba_session_def split: option.split)
qed

lemma inv_cb: "ba_inv s \<Longrightarrow> inert b \<Longrightarrow> ba_inv (ba_cb_irqsafe b tid s)"
proof -
  assume s: "ba_inv s" and b: "inert b"
  have "ba_inv ((upd_tid_tx tid (set_agg b) s)\<lparr>ampdu_work := True\<rparr>)"
    by (rule inv_other [OF inv_upd [OF s]]) (simp_all add: session_bits b)
  with s show ?thesis by (simp add: ba_cb_irqsafe_def)
qed

lemma if_rule: "(c \<Longrightarrow> P a) \<Longrightarrow> (\<not> c \<Longrightarrow> P b) \<Longrightarrow> P (if c then a else b)"
  by simp

lemma start_result:
  "snd (start_tx_ba_session k tid timeout s) = s \<or>
   tid_tx s tid = None \<and> (\<exists>t n. snd (start_tx_ba_session k tid timeout s) =
      s\<lparr>dialog_token_allocator := n, tid_start_tx := (tid_start_tx s)(tid \<mapsto> t), ampdu_work := True\<rparr> \<and>
      agg_state t = {HT_AGG_STATE_WANT_START} \<and> agg_pending t = [])"
proof -
  define n where "n = dialog_token_allocator s + 1"
  define t where "t = \<lparr>session_timer = None, addba_resp_timer = None, agg_pending = [], agg_state = {HT_AGG_STATE_WANT_START},
      last_tx = 0, agg_tx_timeout = timeout, dialog_token = n, stop_initiator = 0, tx_stop = False, tx_buf_size = 0, tx_amsdu = False\<rparr>"
  define s' where "s' = s\<lparr>dialog_token_allocator := n, tid_start_tx := (tid_start_tx s)(tid \<mapsto> t), ampdu_work := True\<rparr>"
  have "snd (start_tx_ba_session k tid timeout s) = s \<or> tid_tx s tid = None \<and> snd (start_tx_ba_session k tid timeout s) = s'"
    unfolding start_tx_ba_session_def Let_def n_def [symmetric] t_def [symmetric] s'_def [symmetric]
    by (rule if_rule [where P = "\<lambda>r. snd r = s \<or> tid_tx s tid = None \<and> snd r = s'"], simp only: snd_conv simp_thms)+
      (simp only: snd_conv, blast)
  moreover have "agg_state t = {HT_AGG_STATE_WANT_START}" "agg_pending t = []" by (simp_all add: t_def)
  ultimately show ?thesis unfolding s'_def by blast
qed

lemma inv_start: "ba_inv s \<Longrightarrow> ba_inv (snd (start_tx_ba_session k tid timeout s))"
proof -
  assume s: "ba_inv s"
  consider "snd (start_tx_ba_session k tid timeout s) = s"
    | t n where "tid_tx s tid = None" "snd (start_tx_ba_session k tid timeout s) =
      s\<lparr>dialog_token_allocator := n, tid_start_tx := (tid_start_tx s)(tid \<mapsto> t), ampdu_work := True\<rparr>"
      "agg_state t = {HT_AGG_STATE_WANT_START}" "agg_pending t = []"
    using start_result [of k tid timeout s] by blast
  then show ?thesis
  proof cases
    case 2
    show ?thesis unfolding 2(2)
      by (rule ba_invI [OF s, where tid = tid])
        (use ba_invD [OF s, of tid] 2 in \<open>simp_all add: balanced_def view_ok_def\<close>)
  qed (simp add: s)
qed

lemma inv_stop_locked: "ba_inv s \<Longrightarrow> ba_inv (snd (stop_tx_ba_session_locked tid reason s))"
proof -
  assume s: "ba_inv s"
  define s1 where "s1 = (case tid_start_tx s tid of None \<Rightarrow> s
    | Some t \<Rightarrow> kfree_tid_tx t (s\<lparr>tid_start_tx := (tid_start_tx s)(tid := None)\<rparr>))"
  have s1: "ba_inv s1"
  proof (rule ba_invI [OF s, where tid = tid])
    show "balanced s1" using ba_invD [OF s] by (simp add: s1_def balanced_def split: option.split)
    show "view_ok (tid_start_tx s1 tid) (tid_tx s1 tid) (sta_txq s1 tid)"
      using ba_invD [OF s, of tid] by (auto simp: s1_def view_ok_def split: option.split option.splits)
  qed (simp add: s1_def split: option.split)
  show ?thesis
  proof (cases "tid_tx s1 tid")
    case None
    then show ?thesis using s1 by (simp add: stop_tx_ba_session_locked_def s1_def)
  next
    case (Some t)
    define f where "f = (\<lambda>t. (clear_agg HT_AGG_STATE_OPERATIONAL (set_agg HT_AGG_STATE_STOPPING t))
        \<lparr>addba_resp_timer := None, session_timer := None,
         stop_initiator := (if reason = AGG_STOP_PEER_REQUEST then ucast WLAN_BACK_RECIPIENT else ucast WLAN_BACK_INITIATOR),
         tx_stop := (reason = AGG_STOP_LOCAL_REQUEST)\<rparr>)"
    have t: "session_ok t (sta_txq s1 tid)" "tid_start_tx s1 tid = None" using ba_invD [OF s1, of tid] Some by (simp_all add: view_session)
    have "ba_inv (upd_tid_tx tid f (agg_stop_txq tid s1))"
    proof (rule ba_invI [OF s1, where tid = tid])
      show "balanced (upd_tid_tx tid f (agg_stop_txq tid s1))" using ba_invD [OF s1] by (simp add: balanced_def)
      show "view_ok (tid_start_tx (upd_tid_tx tid f (agg_stop_txq tid s1)) tid)
          (tid_tx (upd_tid_tx tid f (agg_stop_txq tid s1)) tid) (sta_txq (upd_tid_tx tid f (agg_stop_txq tid s1)) tid)"
        using session_stopping [OF t(1), of "f t"] t Some
        by (simp add: view_session f_def agg_stop_txq_def clear_agg_def set_agg_def)
    qed (simp add: agg_stop_txq_def)
    with Some s1 t show ?thesis
      by (simp add: stop_tx_ba_session_locked_def s1_def [symmetric] f_def [symmetric] session_ok_def)
  qed
qed

lemma inv_operational:
  assumes "balanced s" "\<And>x. x \<noteq> tid \<Longrightarrow> tid_ok s x" "tid_start_tx s tid = None" "tid_tx s tid = Some t"
    "HT_AGG_STATE_WANT_START \<notin> agg_state t" "HT_AGG_STATE_DRV_READY \<in> agg_state t" "HT_AGG_STATE_RESPONSE_RECEIVED \<in> agg_state t"
  shows "ba_inv (agg_tx_operational tid s)"
proof -
  let ?f = "set_agg HT_AGG_STATE_OPERATIONAL"
  let ?s = "agg_tx_operational tid s"
  have "balanced (agg_splice_finish tid (upd_tid_tx tid ?f (agg_splice_packets tid s)))"
    by (rule balanced_splice [OF assms(1)]) (simp_all add: agg_splice_packets_def stop_queue_agg_def Let_def)
  then have "balanced ?s" by (simp add: agg_tx_operational_def balanced_def)
  moreover have "tid_ok ?s x" for x
  proof (cases "x = tid")
    case True
    have "sta_txq ?s tid = map_option (\<lambda>f. insert IEEE80211_TXQ_AMPDU f - {IEEE80211_TXQ_STOP}) (sta_txq s tid)"
      by (simp add: agg_tx_operational_def agg_start_txq_def)
    moreover have "tid_tx ?s tid = Some (?f t)" "tid_start_tx ?s tid = None"
      using assms(3,4) by (simp_all add: agg_tx_operational_def)
    ultimately show ?thesis
      using True assms(5-7) by (simp add: tid_ok_def view_session session_ok_def set_agg_def split: option.split)
  next
    case False
    then have "tid_start_tx ?s x = tid_start_tx s x" "tid_tx ?s x = tid_tx s x" "sta_txq ?s x = sta_txq s x"
      by (simp_all add: agg_tx_operational_def agg_start_txq_def)
    then show ?thesis using assms(2) [OF False] by (simp add: tid_ok_def)
  qed
  ultimately show ?thesis by (simp add: ba_inv_def)
qed

lemma inv_remove:
  assumes "ba_inv s" "tid_start_tx s tid = None"
  shows "ba_inv (agg_start_txq tid False (agg_splice_finish tid (assign_tid_tx tid None (agg_splice_packets tid s))))"
    (is "ba_inv ?s")
proof (rule ba_invI [OF assms(1), where tid = tid])
  have "balanced (agg_splice_finish tid (assign_tid_tx tid None (agg_splice_packets tid s)))"
    by (rule balanced_splice [of s]) (use ba_invD [OF assms(1)] in \<open>simp_all add: agg_splice_packets_def stop_queue_agg_def Let_def\<close>)
  then show "balanced ?s" by (simp add: balanced_def)
  show "view_ok (tid_start_tx ?s tid) (tid_tx ?s tid) (sta_txq ?s tid)"
    using assms(2) by (simp add: view_ok_def agg_start_txq_def split: option.split)
qed (simp add: agg_start_txq_def)

lemma inv_freed: "ba_inv s \<Longrightarrow> ba_inv (kfree_tid_tx t s)"
  by (rule inv_other) simp_all

lemma inv_resp_timer: "ba_inv s \<Longrightarrow> ba_inv (sta_addba_resp_timer_expired tid s)"
proof -
  assume s: "ba_inv s"
  have "ba_inv (upd_tid_tx tid (\<lambda>t. t\<lparr>addba_resp_timer := None\<rparr>) s)"
    by (rule inv_upd_same [OF s]) simp
  with s inv_stop show ?thesis by (simp add: sta_addba_resp_timer_expired_def Let_def split: option.split)
qed

lemma inv_session_timer: "ba_inv s \<Longrightarrow> ba_inv (sta_tx_agg_session_timer_expired tid s)"
proof -
  assume s: "ba_inv s"
  have a: "ba_inv (upd_tid_tx tid (\<lambda>t. t\<lparr>session_timer := x\<rparr>) s)" if "ba_inv s" for x s
    by (rule inv_upd_same [OF that]) simp
  show ?thesis
    using s a [OF s] a [OF a [OF s]] inv_stop
    by (simp add: sta_tx_agg_session_timer_expired_def Let_def split: option.split)
qed

lemma inv_start_cb:
  assumes "ba_inv s" "tid_tx s tid = Some t"
  shows "ba_inv (start_tx_ba_cb tid t s) \<and> tid_tx (start_tx_ba_cb tid t s) tid \<noteq> None"
proof -
  let ?s = "upd_tid_tx tid (set_agg HT_AGG_STATE_DRV_READY) s"
  have t: "session_ok t (sta_txq s tid)" "tid_start_tx s tid = None" using ba_invD [OF assms(1), of tid] assms(2) by (simp_all add: view_session)
  have "ba_inv (agg_tx_operational tid ?s)" if "HT_AGG_STATE_RESPONSE_RECEIVED \<in> agg_state t"
  proof (rule inv_operational)
    show "balanced ?s" using ba_invD [OF assms(1)] by (simp add: balanced_def)
    show "tid_ok ?s x" if "x \<noteq> tid" for x using assms(1) that by (simp add: ba_inv_def tid_ok_def)
    show "tid_tx ?s tid = Some (set_agg HT_AGG_STATE_DRV_READY t)" using assms(2) by simp
  qed (use t that in \<open>simp_all add: session_ok_def set_agg_def\<close>)
  moreover have "ba_inv ?s" if "HT_AGG_STATE_RESPONSE_RECEIVED \<notin> agg_state t"
    by (rule inv_upd [OF assms(1)]) (rule session_ready, use that assms(2) in \<open>simp_all add: set_agg_def\<close>)
  ultimately show ?thesis using assms by (simp add: start_tx_ba_cb_def agg_tx_operational_def Let_def)
qed

lemma inv_stop_cb:
  assumes "ba_inv s" "tid_tx s tid = Some t0"
  shows "ba_inv (stop_tx_ba_cb tid t s)"
proof -
  have "tid_start_tx s tid = None" using ba_invD [OF assms(1), of tid] assms(2) by (simp add: view_session)
  from inv_freed [OF inv_remove [OF assms(1) this]] have r: "ba_inv (remove_tid_tx tid t s)" by (simp add: remove_tid_tx_def)
  then have "ba_inv (send_delba tid i c (remove_tid_tx tid t s))" for i c
    by (rule inv_other) (simp_all add: send_delba_def)
  with r assms(1) show ?thesis by (simp add: stop_tx_ba_cb_def Let_def)
qed

lemma inv_request: "ba_inv s \<Longrightarrow> ba_inv (tx_ba_session_request sn tid s)"
proof -
  assume s: "ba_inv s"
  have u: "ba_inv (upd_tid_tx tid (\<lambda>t. t\<lparr>addba_resp_timer := Some (jiffies + ADDBA_RESP_INTERVAL)\<rparr>) s)"
    by (rule inv_upd_same [OF s]) simp
  show ?thesis
    by (rule inv_other [OF u]) (simp_all add: tx_ba_session_request_def Let_def send_addba_request_def split: option.split)
qed

lemma inv_handle_start:
  assumes "balanced s" "\<And>x. x \<noteq> tid \<Longrightarrow> tid_ok s x" "tid_start_tx s tid = None" "tid_tx s tid = Some t"
    "agg_state t = {HT_AGG_STATE_WANT_START}"
  shows "\<exists>s'. tx_ba_session_handle_start ret tid s = Some s' \<and> ba_inv s'"
proof -
  define s1 where "s1 = agg_stop_txq tid (upd_tid_tx tid (clear_agg HT_AGG_STATE_WANT_START) s)"
  have s1: "ba_inv s1" unfolding ba_inv_def
  proof (intro conjI allI)
    show "balanced s1" using assms(1) by (simp add: s1_def balanced_def)
    fix x
    show "tid_ok s1 x"
      using assms(2) [of x] assms(3-5) session_started [of "clear_agg HT_AGG_STATE_WANT_START t"]
      by (cases "x = tid") (simp_all add: tid_ok_def s1_def agg_stop_txq_def view_session clear_agg_def)
  qed
  have t1: "tid_tx s1 tid = Some (clear_agg HT_AGG_STATE_WANT_START t)" "tid_start_tx s1 tid = None"
    using assms(3,4) by (simp_all add: s1_def)
  have "ba_inv (upd_tid_tx tid (set_agg HT_AGG_STATE_DRV_READY) s1)"
  proof (rule inv_upd [OF s1])
    fix u assume u: "session_ok u (sta_txq s1 tid)" "tid_tx s1 tid = Some u"
    then have "u = clear_agg HT_AGG_STATE_WANT_START t" using t1(1) by simp
    then have "agg_state u = {}" by (simp add: clear_agg_def assms(5))
    then show "session_ok (set_agg HT_AGG_STATE_DRV_READY u) (sta_txq s1 tid)"
      by (intro session_ready [OF u(1)]) (simp_all add: set_agg_def)
  qed
  note all = inv_request [OF this] inv_request [OF s1] inv_freed [OF inv_remove [OF s1 t1(2)]]
  note defs = tx_ba_session_handle_start_def Let_def s1_def [symmetric] assms(4) option.case
  consider "ret = IEEE80211_AMPDU_TX_START_IMMEDIATE" | "ret \<noteq> IEEE80211_AMPDU_TX_START_IMMEDIATE" "ret \<noteq> 0"
    | "ret \<noteq> IEEE80211_AMPDU_TX_START_IMMEDIATE" "\<not> ret \<noteq> 0" by blast
  then show ?thesis
  proof cases
    case 1
    show ?thesis unfolding defs if_P [OF 1] using all(1) by blast
  next
    case 2
    show ?thesis unfolding defs if_not_P [OF 2(1)] if_P [OF 2(2)] using all(3) by blast
  next
    case 3
    show ?thesis unfolding defs if_not_P [OF 3(1)] if_not_P [OF 3(2)] using all(2) by blast
  qed
qed

lemma inv_addba_resp: "ba_inv s \<Longrightarrow> ba_inv (process_addba_resp capab token status timeout s)"
proof -
  assume s: "ba_inv s"
  define amsdu where "amsdu = (capab AND 1 \<noteq> 0)"
  define tid where "tid = unat (drop_bit 2 (capab AND 0x3C))"
  define bsize where "bsize = min (drop_bit 6 (capab AND 0xFFC0)) (max_tx_aggregation_subframes s)"
  define s0 where "s0 = (if amsdu then s else s\<lparr>sta_txq := (sta_txq s)(tid := map_option (insert IEEE80211_TXQ_NO_AMSDU) (sta_txq s tid))\<rparr>)"
  have s0: "ba_inv s0"
    by (rule ba_invI [OF s, where tid = tid])
      (use ba_invD [OF s, of tid] in \<open>simp_all add: s0_def balanced_def view_amsdu\<close>)
  define s1 where "s1 = upd_tid_tx tid (\<lambda>t. t\<lparr>addba_resp_timer := None\<rparr>) s0"
  have s1: "ba_inv s1" unfolding s1_def by (rule inv_upd_same [OF s0]) simp
  show ?thesis
  proof (cases "tid_tx s0 tid")
    case None
    then show ?thesis using s0
      unfolding process_addba_resp_def Let_def amsdu_def [symmetric] tid_def [symmetric] bsize_def [symmetric] s0_def [symmetric] by simp
  next
    case (Some t)
    define f where "f = (\<lambda>t. (set_agg HT_AGG_STATE_RESPONSE_RECEIVED t)\<lparr>tx_buf_size := bsize, tx_amsdu := amsdu\<rparr>)"
    define s3 where "s3 = (if HT_AGG_STATE_DRV_READY \<in> agg_state t then agg_tx_operational tid (upd_tid_tx tid f s1) else upd_tid_tx tid f s1)"
    have t1: "tid_tx s1 tid = Some (t\<lparr>addba_resp_timer := None\<rparr>)" using Some by (simp add: s1_def)
    have t: "session_ok (t\<lparr>addba_resp_timer := None\<rparr>) (sta_txq s1 tid)" "tid_start_tx s1 tid = None"
      using ba_invD [OF s1, of tid] t1 by (simp_all add: view_session)
    have "ba_inv s3"
    proof (cases "HT_AGG_STATE_DRV_READY \<in> agg_state t")
      case True
      have "ba_inv (agg_tx_operational tid (upd_tid_tx tid f s1))"
      proof (rule inv_operational)
        show "balanced (upd_tid_tx tid f s1)" using ba_invD [OF s1] by (simp add: balanced_def)
        show "tid_ok (upd_tid_tx tid f s1) x" if "x \<noteq> tid" for x using s1 that by (simp add: ba_inv_def tid_ok_def)
        show "tid_tx (upd_tid_tx tid f s1) tid = Some (f (t\<lparr>addba_resp_timer := None\<rparr>))" using t1 by simp
      qed (use t True in \<open>simp_all add: session_ok_def set_agg_def f_def\<close>)
      then show ?thesis using True by (simp add: s3_def)
    next
      case False
      have "ba_inv (upd_tid_tx tid f s1)"
        by (rule inv_upd [OF s1]) (rule session_response, use t1 False in \<open>auto simp: set_agg_def f_def\<close>)
      then show ?thesis using False by (simp add: s3_def)
    qed
    then have s4: "ba_inv (s3\<lparr>addba_req_num := x\<rparr>)" for x by (rule inv_other) simp_all
    have "ba_inv (upd_tid_tx tid (\<lambda>t. if timeout \<noteq> 0
          then t\<lparr>agg_tx_timeout := timeout, session_timer := Some (jiffies + TU_TO_JIFFIES timeout), last_tx := jiffies\<rparr>
          else t\<lparr>agg_tx_timeout := timeout\<rparr>) (s3\<lparr>addba_req_num := x\<rparr>))" for x
      by (rule inv_upd_same [OF s4]) simp
    then show ?thesis
      using Some s0 s1 inv_stop_locked [OF s1]
      unfolding process_addba_resp_def Let_def amsdu_def [symmetric] tid_def [symmetric] bsize_def [symmetric] s0_def [symmetric]
        s1_def [symmetric] f_def [symmetric]
      by (simp add: s3_def)
  qed
qed

lemma stop_locked_keeps:
  assumes "ba_inv s" "tid_tx s tid = Some t"
  shows "tid_tx (snd (stop_tx_ba_session_locked tid reason s)) tid \<noteq> None"
proof -
  have "tid_start_tx s tid = None" "HT_AGG_STATE_WANT_START \<notin> agg_state t"
    using ba_invD [OF assms(1), of tid] assms(2) by (simp_all add: view_session session_ok_def)
  with assms(2) show ?thesis by (simp add: stop_tx_ba_session_locked_def)
qed

lemma inv_cbs:
  assumes "ba_inv s"
  shows "\<exists>s'. tx_work_cbs blocked tid s = Some s' \<and> ba_inv s'"
proof (cases "tid_tx s tid")
  case None
  then show ?thesis using assms by (simp add: tx_work_cbs_def)
next
  case (Some t0)
  have clear: "ba_inv (upd_tid_tx tid (clear_agg b) s)" if "ba_inv s" "inert b" for b s
    by (rule inv_upd [OF that(1)]) (simp add: session_bits that)
  define s1 where "s1 = (if \<not> blocked \<and> HT_AGG_STATE_START_CB \<in> agg_state t0
    then start_tx_ba_cb tid (clear_agg HT_AGG_STATE_START_CB t0) (upd_tid_tx tid (clear_agg HT_AGG_STATE_START_CB) s) else s)"
  have i: "inert HT_AGG_STATE_START_CB" "inert HT_AGG_STATE_WANT_STOP" "inert HT_AGG_STATE_STOP_CB" by (simp_all add: inert_def)
  have "ba_inv s1 \<and> tid_tx s1 tid \<noteq> None"
    unfolding s1_def using assms Some inv_start_cb [OF clear [OF assms i(1)]] by simp
  then obtain t1 where s1: "ba_inv s1" "tid_tx s1 tid = Some t1" by blast
  define s2 where "s2 = (if HT_AGG_STATE_WANT_STOP \<in> agg_state t1
    then snd (stop_tx_ba_session_locked tid AGG_STOP_LOCAL_REQUEST (upd_tid_tx tid (clear_agg HT_AGG_STATE_WANT_STOP) s1)) else s1)"
  have "ba_inv s2" unfolding s2_def using s1(1) inv_stop_locked [OF clear [OF s1(1) i(2)]] by simp
  moreover have "tid_tx s2 tid \<noteq> None"
    unfolding s2_def using s1(2) stop_locked_keeps [OF clear [OF s1(1) i(2)]] by simp
  ultimately obtain t2 where s2: "ba_inv s2" "tid_tx s2 tid = Some t2" by blast
  have "ba_inv (stop_tx_ba_cb tid (clear_agg HT_AGG_STATE_STOP_CB t2) (upd_tid_tx tid (clear_agg HT_AGG_STATE_STOP_CB) s2))"
    by (rule inv_stop_cb [OF clear [OF s2(1) i(3)]]) (simp add: s2(2))
  then show ?thesis
    unfolding tx_work_cbs_def Let_def Some option.case s1_def [symmetric] s1(2) s2_def [symmetric] s2(2) using s2(1) by simp
qed

lemma inv_work:
  assumes "ba_inv s"
  shows "\<exists>s'. tx_work ret blocked tid s = Some s' \<and> ba_inv s'"
proof (cases "tid_start_tx s tid = None \<or> blocked")
  case True
  then show ?thesis using inv_cbs [OF assms] by (auto simp: tx_work_def split: option.split)
next
  case False
  then obtain t where t: "tid_start_tx s tid = Some t" and b: "\<not> blocked" by (cases "tid_start_tx s tid") auto
  have v: "tid_tx s tid = None" "agg_state t = {HT_AGG_STATE_WANT_START}" using ba_invD [OF assms, of tid] t by (simp_all add: view_ok_def)
  define s1 where "s1 = assign_tid_tx tid (Some t) (s\<lparr>tid_start_tx := (tid_start_tx s)(tid := None)\<rparr>)"
  have "\<exists>s'. tx_ba_session_handle_start ret tid s1 = Some s' \<and> ba_inv s'"
  proof (rule inv_handle_start)
    show "balanced s1" using ba_invD [OF assms] by (simp add: s1_def balanced_def)
    show "tid_ok s1 x" if "x \<noteq> tid" for x using assms that by (simp add: s1_def ba_inv_def tid_ok_def)
    show "tid_tx s1 tid = Some t" by (simp add: s1_def)
    show "tid_start_tx s1 tid = None" by (simp add: s1_def)
  qed (rule v(2))
  with t b v(1) show ?thesis by (simp add: tx_work_def s1_def)
qed

lemma inv_rx_work:
  assumes "ba_inv s"
  shows "ba_inv (rx_work k hw tid s)"
  by (rule inv_other [OF assms]) (simp_all add: rx_work_def Let_def)

lemma inv_session_work:
  assumes "ba_inv s"
  shows "\<exists>s'. ieee80211_ba_session_work k hw ret s = Some s' \<and> ba_inv s'"
  unfolding ieee80211_ba_session_work_def Let_def
proof (rule opt_fold_rule [where P = ba_inv])
  show "ba_inv (s\<lparr>ampdu_work := False\<rparr>)" by (rule inv_other [OF assms]) simp_all
qed (rule inv_work, rule inv_rx_work)

lemma inv_tear_down: "ba_inv s \<Longrightarrow> ba_inv (sta_tear_down_BA_sessions reason s)"
proof -
  assume s: "ba_inv s"
  define s1 where "s1 = fold (\<lambda>tid s. s\<lparr>sta_rx := ieee80211_stop_rx_ba_session_locked (sta_rx s) tid True WLAN_REASON_QSTA_LEAVE_QBSS
    (reason \<noteq> AGG_STOP_DESTROY_STA \<and> reason \<noteq> AGG_STOP_PEER_REQUEST)\<rparr>) [0..<IEEE80211_NUM_TIDS] s"
  have "ba_inv s1" unfolding s1_def by (rule fold_rule [where P = ba_inv]) (rule inv_other, assumption, simp_all add: s)
  then have "ba_inv (fold (\<lambda>tid s. snd (stop_tx_ba_session_locked tid reason s)) [0..<IEEE80211_NUM_TIDS] s1)"
    by (rule fold_rule [rotated]) (rule inv_stop_locked)
  moreover define s2 where "s2 = fold (\<lambda>tid s. snd (stop_tx_ba_session_locked tid reason s)) [0..<IEEE80211_NUM_TIDS] s1"
  ultimately have s2: "ba_inv s2" by simp
  have "ba_inv (fold (\<lambda>tid s. case tid_tx s tid of
                  None \<Rightarrow> s
                | Some t \<Rightarrow> if HT_AGG_STATE_STOP_CB \<in> agg_state t
                    then stop_tx_ba_cb tid (clear_agg HT_AGG_STATE_STOP_CB t) (upd_tid_tx tid (clear_agg HT_AGG_STATE_STOP_CB) s)
                    else s)
                [0..<IEEE80211_NUM_TIDS] (s2\<lparr>ampdu_work := False\<rparr>))"
  proof (rule fold_rule)
    show "ba_inv (s2\<lparr>ampdu_work := False\<rparr>)" by (rule inv_other [OF s2]) simp_all
    fix tid and s :: tx_ba
    assume s: "ba_inv s"
    have "ba_inv (upd_tid_tx tid (clear_agg HT_AGG_STATE_STOP_CB) s)"
      by (rule inv_upd [OF s]) (simp add: session_bits inert_def)
    then have "ba_inv (stop_tx_ba_cb tid (clear_agg HT_AGG_STATE_STOP_CB t) (upd_tid_tx tid (clear_agg HT_AGG_STATE_STOP_CB) s))"
      if "tid_tx s tid = Some t" for t by (rule inv_stop_cb) (simp add: that)
    with s show "ba_inv (case tid_tx s tid of
                  None \<Rightarrow> s
                | Some t \<Rightarrow> if HT_AGG_STATE_STOP_CB \<in> agg_state t
                    then stop_tx_ba_cb tid (clear_agg HT_AGG_STATE_STOP_CB t) (upd_tid_tx tid (clear_agg HT_AGG_STATE_STOP_CB) s)
                    else s)" by (simp split: option.split)
  qed
  with s2 show ?thesis
    unfolding sta_tear_down_BA_sessions_def Let_def s1_def [symmetric] s2_def [symmetric] by simp
qed

lemma inv_tx: "ba_inv s \<Longrightarrow> ba_inv (snd (tx_prep_agg tid skb s))"
proof -
  assume s: "ba_inv s"
  have u: "ba_inv (upd_tid_tx tid (\<lambda>t. t\<lparr>last_tx := x\<rparr>) s)" "ba_inv (upd_tid_tx tid (\<lambda>t. t\<lparr>agg_pending := q\<rparr>) s)" for x q
    by (rule inv_upd_same [OF s]; simp)+
  have "ba_inv (s'\<lparr>ba_local := (ba_local s')\<lparr>tx_freed := x\<rparr>\<rparr>)" if "ba_inv s'" for s' x
    using that by (auto simp: ba_inv_def tid_ok_def balanced_def counts_ok_def)
  from this [OF u(2)] u s show ?thesis by (simp add: tx_prep_agg_def Let_def split: option.split)
qed

lemma inv_delba:
  assumes "ba_inv s"
  shows "ba_inv (process_delba params s)"
proof -
  have "ba_inv (s\<lparr>sta_rx := x\<rparr>)" for x by (rule inv_other [OF assms]) simp_all
  then show ?thesis using inv_stop_locked [OF assms] by (simp add: process_delba_def Let_def)
qed

lemma inv_session_op: "ba_inv s \<Longrightarrow> \<exists>s'. session_op x s = Some s' \<and> ba_inv s'"
  by (cases x) (simp_all add: inv_start inv_stop inv_cb inert_def inv_resp_timer inv_session_timer inv_addba_resp inv_delba
    inv_session_work inv_tear_down inv_tx start_tx_ba_cb_irqsafe_def stop_tx_ba_cb_irqsafe_def)


section \<open>A queue that stays stopped\<close>

text \<open>Operations on one TID leave the others alone.\<close>

definition same_at :: "nat \<Rightarrow> tx_ba \<Rightarrow> tx_ba \<Rightarrow> bool" where
  "same_at x s s' \<longleftrightarrow> tid_start_tx s' x = tid_start_tx s x \<and> tid_tx s' x = tid_tx s x \<and> sta_txq s' x = sta_txq s x"

lemma txq_at [simp]:
  "sta_txq (agg_stop_txq tid s) = (sta_txq s)(tid := map_option (insert IEEE80211_TXQ_STOP) (sta_txq s tid))"
  "sta_txq (agg_start_txq tid b s) = (sta_txq s)(tid := map_option (\<lambda>f.
     (if b then insert IEEE80211_TXQ_AMPDU f else f - {IEEE80211_TXQ_AMPDU}) - {IEEE80211_TXQ_STOP}) (sta_txq s tid))"
  by (simp_all add: agg_stop_txq_def agg_start_txq_def)

lemma delba_fields [simp]:
  "tid_start_tx (send_delba tid i r s) = tid_start_tx s" "tid_tx (send_delba tid i r s) = tid_tx s"
  "sta_txq (send_delba tid i r s) = sta_txq s"
  by (simp_all add: send_delba_def)

lemma other_stop: "x \<noteq> tid \<Longrightarrow> same_at x s (snd (stop_tx_ba_session tid s))"
  by (simp add: same_at_def stop_tx_ba_session_def split: option.split)

lemma other_stop_locked: "x \<noteq> tid \<Longrightarrow> same_at x s (snd (stop_tx_ba_session_locked tid reason s))"
  by (simp add: same_at_def stop_tx_ba_session_locked_def split: option.split)

lemma other_request: "x \<noteq> tid \<Longrightarrow> same_at x s (tx_ba_session_request sn tid s)"
  by (simp add: same_at_def tx_ba_session_request_def Let_def send_addba_request_def split: option.split)

lemma other_start_cb: "x \<noteq> tid \<Longrightarrow> same_at x s (start_tx_ba_cb tid t s)"
  by (simp add: same_at_def start_tx_ba_cb_def agg_tx_operational_def Let_def)

lemma other_stop_cb: "x \<noteq> tid \<Longrightarrow> same_at x s (stop_tx_ba_cb tid t s)"
  by (simp add: same_at_def stop_tx_ba_cb_def remove_tid_tx_def Let_def)

lemma same_trans: "same_at x a b \<Longrightarrow> same_at x b c \<Longrightarrow> same_at x a c"
  by (simp add: same_at_def)

lemma same_upd: "x \<noteq> tid \<Longrightarrow> same_at x s (upd_tid_tx tid f s)"
  by (simp add: same_at_def)

lemma other_handle_start: "x \<noteq> tid \<Longrightarrow> tx_ba_session_handle_start ret tid s = Some s' \<Longrightarrow> same_at x s s'"
  using other_request [of x tid]
  by (auto simp: tx_ba_session_handle_start_def Let_def same_at_def split: option.splits if_splits)

lemma other_cbs:
  assumes "x \<noteq> tid" "tx_work_cbs blocked tid s = Some s'"
  shows "same_at x s s'"
proof (cases "tid_tx s tid")
  case None
  then show ?thesis using assms(2) by (simp add: tx_work_cbs_def same_at_def)
next
  case (Some t0)
  define s1 where "s1 = (if \<not> blocked \<and> HT_AGG_STATE_START_CB \<in> agg_state t0
    then start_tx_ba_cb tid (clear_agg HT_AGG_STATE_START_CB t0) (upd_tid_tx tid (clear_agg HT_AGG_STATE_START_CB) s) else s)"
  have 1: "same_at x s s1"
    using same_trans [OF same_upd [OF assms(1)] other_start_cb [OF assms(1)]] by (simp add: s1_def same_at_def)
  obtain t1 where t1: "tid_tx s1 tid = Some t1"
    using assms(2) unfolding tx_work_cbs_def Some option.case Let_def s1_def [symmetric] by (auto split: option.splits)
  define s2 where "s2 = (if HT_AGG_STATE_WANT_STOP \<in> agg_state t1
    then snd (stop_tx_ba_session_locked tid AGG_STOP_LOCAL_REQUEST (upd_tid_tx tid (clear_agg HT_AGG_STATE_WANT_STOP) s1)) else s1)"
  have 2: "same_at x s1 s2"
    using same_trans [OF same_upd [OF assms(1)] other_stop_locked [OF assms(1)]] by (simp add: s2_def same_at_def)
  obtain t2 where t2: "tid_tx s2 tid = Some t2"
    using assms(2) unfolding tx_work_cbs_def Some option.case Let_def s1_def [symmetric] t1 s2_def [symmetric] by (auto split: option.splits)
  have 3: "s' = (if HT_AGG_STATE_STOP_CB \<in> agg_state t2
      then stop_tx_ba_cb tid (clear_agg HT_AGG_STATE_STOP_CB t2) (upd_tid_tx tid (clear_agg HT_AGG_STATE_STOP_CB) s2) else s2)"
    using assms(2) unfolding tx_work_cbs_def Some option.case Let_def s1_def [symmetric] t1 s2_def [symmetric] t2
    by (simp split: if_splits)
  have "same_at x s2 s'"
    using same_trans [OF same_upd [OF assms(1)] other_stop_cb [OF assms(1)]] by (simp add: 3 same_at_def)
  with 1 2 show ?thesis by (blast intro: same_trans)
qed

lemma other_work:
  assumes "x \<noteq> tid" "tx_work ret blocked tid s = Some s'"
  shows "same_at x s s'"
proof (cases "tid_start_tx s tid = None \<or> blocked")
  case True
  then have "tx_work_cbs blocked tid s = Some s'" using assms(2) by (auto simp: tx_work_def split: option.splits)
  then show ?thesis by (rule other_cbs [OF assms(1)])
next
  case False
  then obtain t where t: "tid_start_tx s tid = Some t" "\<not> blocked" by (cases "tid_start_tx s tid") auto
  define s1 where "s1 = s\<lparr>tid_start_tx := (tid_start_tx s)(tid := None)\<rparr>"
  define s2 where "s2 = (if tid_tx s1 tid \<noteq> None then kfree_tid_tx t s1 else assign_tid_tx tid (Some t) s1)"
  have "tx_ba_session_handle_start ret tid s2 = Some s'" using assms(2) t by (simp add: tx_work_def Let_def s1_def s2_def split: if_splits)
  from other_handle_start [OF assms(1) this] have "same_at x s2 s'" .
  moreover have "same_at x s s2" using assms(1) by (simp add: same_at_def s2_def s1_def)
  ultimately show ?thesis by (blast intro: same_trans)
qed

text \<open>A session the driver has not answered and is not answering, with its queue stopped.\<close>

definition dead_session :: "nat \<Rightarrow> tx_ba \<Rightarrow> bool" where
  "dead_session x s \<longleftrightarrow> tid_start_tx s x = None \<and>
     (case tid_tx s x of None \<Rightarrow> False
      | Some t \<Rightarrow> agg_state t \<inter> {HT_AGG_STATE_WANT_START, HT_AGG_STATE_DRV_READY, HT_AGG_STATE_START_CB, HT_AGG_STATE_STOP_CB,
          HT_AGG_STATE_OPERATIONAL} = {}) \<and>
     (case sta_txq s x of None \<Rightarrow> False | Some f \<Rightarrow> IEEE80211_TXQ_STOP \<in> f)"

lemma dead_same: "same_at x s s' \<Longrightarrow> dead_session x s \<Longrightarrow> dead_session x s'"
  by (simp add: same_at_def dead_session_def)

lemma dead_cases:
  assumes "dead_session x s"
  obtains t f where "tid_start_tx s x = None" "tid_tx s x = Some t" "sta_txq s x = Some f" "IEEE80211_TXQ_STOP \<in> f"
    "HT_AGG_STATE_WANT_START \<notin> agg_state t" "HT_AGG_STATE_DRV_READY \<notin> agg_state t" "HT_AGG_STATE_START_CB \<notin> agg_state t"
    "HT_AGG_STATE_STOP_CB \<notin> agg_state t" "HT_AGG_STATE_OPERATIONAL \<notin> agg_state t"
  using assms by (auto simp: dead_session_def split: option.splits)

lemma deadI:
  assumes "tid_start_tx s x = None" "tid_tx s x = Some t" "sta_txq s x = Some f" "IEEE80211_TXQ_STOP \<in> f"
    "HT_AGG_STATE_WANT_START \<notin> agg_state t" "HT_AGG_STATE_DRV_READY \<notin> agg_state t" "HT_AGG_STATE_START_CB \<notin> agg_state t"
    "HT_AGG_STATE_STOP_CB \<notin> agg_state t" "HT_AGG_STATE_OPERATIONAL \<notin> agg_state t"
  shows "dead_session x s"
  using assms by (simp add: dead_session_def)

lemma dead_upd:
  assumes "dead_session x s"
    "\<And>t. agg_state (f t) \<subseteq> agg_state t \<union> {HT_AGG_STATE_WANT_STOP, HT_AGG_STATE_STOPPING, HT_AGG_STATE_RESPONSE_RECEIVED}"
  shows "dead_session x (upd_tid_tx tid f s)"
proof (cases "x = tid")
  case True
  from assms(1) show ?thesis
  proof (rule dead_cases)
    fix t q
    assume t: "tid_start_tx s x = None" "tid_tx s x = Some t" "sta_txq s x = Some q" "IEEE80211_TXQ_STOP \<in> q"
      "HT_AGG_STATE_WANT_START \<notin> agg_state t" "HT_AGG_STATE_DRV_READY \<notin> agg_state t" "HT_AGG_STATE_START_CB \<notin> agg_state t"
      "HT_AGG_STATE_STOP_CB \<notin> agg_state t" "HT_AGG_STATE_OPERATIONAL \<notin> agg_state t"
    show ?thesis
      by (rule deadI [where t = "f t" and f = q]) (use t True assms(2) [of t] in auto)
  qed
next
  case False
  then show ?thesis using dead_same [OF same_upd [OF False] assms(1)] by simp
qed

lemma dead_stop_locked:
  assumes "dead_session x s"
  shows "dead_session x (snd (stop_tx_ba_session_locked tid reason s))"
proof (cases "x = tid")
  case True
  from assms show ?thesis
  proof (rule dead_cases)
    fix t f
    assume t: "tid_start_tx s x = None" "tid_tx s x = Some t" "sta_txq s x = Some f" "IEEE80211_TXQ_STOP \<in> f"
      "HT_AGG_STATE_WANT_START \<notin> agg_state t"
    have "dead_session x (agg_stop_txq tid s)" using assms t True by (simp add: dead_session_def)
    then have "dead_session x (upd_tid_tx tid (\<lambda>t. (clear_agg HT_AGG_STATE_OPERATIONAL (set_agg HT_AGG_STATE_STOPPING t))
        \<lparr>addba_resp_timer := None, session_timer := None,
         stop_initiator := (if reason = AGG_STOP_PEER_REQUEST then ucast WLAN_BACK_RECIPIENT else ucast WLAN_BACK_INITIATOR),
         tx_stop := (reason = AGG_STOP_LOCAL_REQUEST)\<rparr>) (agg_stop_txq tid s))"
      by (rule dead_upd) (auto simp: clear_agg_def set_agg_def)
    then show ?thesis using assms t True by (simp add: stop_tx_ba_session_locked_def)
  qed
qed (rule dead_same [OF other_stop_locked assms])

lemma dead_other:
  assumes "dead_session x s" "tid_start_tx s' = tid_start_tx s" "tid_tx s' = tid_tx s" "sta_txq s' = sta_txq s"
  shows "dead_session x s'"
  using assms by (simp add: dead_session_def)

lemma dead_stop: "dead_session x s \<Longrightarrow> dead_session x (snd (stop_tx_ba_session tid s))"
proof -
  assume d: "dead_session x s"
  have u: "dead_session x (upd_tid_tx tid (set_agg HT_AGG_STATE_WANT_STOP) s)"
    by (rule dead_upd [OF d]) (auto simp: set_agg_def)
  have "dead_session x ((upd_tid_tx tid (set_agg HT_AGG_STATE_WANT_STOP) s)\<lparr>ampdu_work := True\<rparr>)"
    by (rule dead_other [OF u]) simp_all
  with d show ?thesis by (simp add: stop_tx_ba_session_def split: option.split)
qed

lemma dead_start: "dead_session x s \<Longrightarrow> dead_session x (snd (start_tx_ba_session k tid timeout s))"
proof -
  assume d: "dead_session x s"
  from start_result [of k tid timeout s] show ?thesis
  proof (elim disjE conjE exE)
    fix t n
    assume "tid_tx s tid = None" and r: "snd (start_tx_ba_session k tid timeout s) =
      s\<lparr>dialog_token_allocator := n, tid_start_tx := (tid_start_tx s)(tid \<mapsto> t), ampdu_work := True\<rparr>"
    then have "x \<noteq> tid" using d by (auto elim: dead_cases)
    then have "same_at x s (snd (start_tx_ba_session k tid timeout s))" by (simp add: r same_at_def)
    then show ?thesis by (rule dead_same [OF _ d])
  qed (simp add: d)
qed

lemma dead_timers:
  assumes "dead_session x s"
  shows "dead_session x (sta_addba_resp_timer_expired tid s)" "dead_session x (sta_tx_agg_session_timer_expired tid s)"
proof -
  have a: "dead_session x (upd_tid_tx tid (\<lambda>t. t\<lparr>addba_resp_timer := None\<rparr>) s)" by (rule dead_upd [OF assms]) auto
  have b: "dead_session x (upd_tid_tx tid (\<lambda>t. t\<lparr>session_timer := y\<rparr>) s)" if "dead_session x s" for y s
    by (rule dead_upd [OF that]) auto
  show "dead_session x (sta_addba_resp_timer_expired tid s)"
    using assms a dead_stop [OF a] by (simp add: sta_addba_resp_timer_expired_def Let_def split: option.split)
  show "dead_session x (sta_tx_agg_session_timer_expired tid s)"
    using assms b [OF assms] b [OF b [OF assms]] dead_stop [OF b [OF assms]]
    by (simp add: sta_tx_agg_session_timer_expired_def Let_def split: option.split)
qed

lemma dead_cb: "dead_session x s \<Longrightarrow> tid \<noteq> x \<Longrightarrow> dead_session x (ba_cb_irqsafe b tid s)"
  using dead_same [of x s "ba_cb_irqsafe b tid s"] by (simp add: same_at_def ba_cb_irqsafe_def)

lemma dead_addba_resp: "dead_session x s \<Longrightarrow> dead_session x (process_addba_resp capab token status timeout s)"
proof -
  assume d: "dead_session x s"
  define amsdu where "amsdu = (capab AND 1 \<noteq> 0)"
  define tid where "tid = unat (drop_bit 2 (capab AND 0x3C))"
  define bsize where "bsize = min (drop_bit 6 (capab AND 0xFFC0)) (max_tx_aggregation_subframes s)"
  define s0 where "s0 = (if amsdu then s else s\<lparr>sta_txq := (sta_txq s)(tid := map_option (insert IEEE80211_TXQ_NO_AMSDU) (sta_txq s tid))\<rparr>)"
  define s1 where "s1 = upd_tid_tx tid (\<lambda>t. t\<lparr>addba_resp_timer := None\<rparr>) s0"
  define f where "f = (\<lambda>t. (set_agg HT_AGG_STATE_RESPONSE_RECEIVED t)\<lparr>tx_buf_size := bsize, tx_amsdu := amsdu\<rparr>)"
  define g where "g = (\<lambda>t :: tid_ampdu_tx. if timeout \<noteq> 0
    then t\<lparr>agg_tx_timeout := timeout, session_timer := Some (jiffies + TU_TO_JIFFIES timeout), last_tx := jiffies\<rparr>
    else t\<lparr>agg_tx_timeout := timeout\<rparr>)"
  note defs = process_addba_resp_def Let_def amsdu_def [symmetric] tid_def [symmetric] bsize_def [symmetric] s0_def [symmetric]
    s1_def [symmetric] f_def [symmetric] g_def [symmetric]
  have s0: "dead_session x s0" using d by (auto simp: s0_def dead_session_def split: option.splits)
  then have s1: "dead_session x s1" unfolding s1_def by (rule dead_upd) auto
  show ?thesis
  proof (cases "tid_tx s0 tid")
    case None
    then show ?thesis using s0 unfolding defs by simp
  next
    case (Some t)
    define s3 where "s3 = (if HT_AGG_STATE_DRV_READY \<in> agg_state t then agg_tx_operational tid (upd_tid_tx tid f s1) else upd_tid_tx tid f s1)"
    have "dead_session x s3"
    proof (cases "x = tid")
      case True
      then have "HT_AGG_STATE_DRV_READY \<notin> agg_state t" using s0 Some by (auto elim: dead_cases)
      moreover have "dead_session x (upd_tid_tx tid f s1)" by (rule dead_upd [OF s1]) (auto simp: f_def set_agg_def)
      ultimately show ?thesis by (simp add: s3_def)
    next
      case False
      then have "same_at x s1 s3" by (simp add: s3_def same_at_def agg_tx_operational_def)
      then show ?thesis by (rule dead_same [OF _ s1])
    qed
    then have "dead_session x (s3\<lparr>addba_req_num := y\<rparr>)" for y by (rule dead_other) simp_all
    then have "dead_session x (upd_tid_tx tid g (s3\<lparr>addba_req_num := y\<rparr>))" for y by (rule dead_upd) (auto simp: g_def)
    then show ?thesis using Some s0 s1 dead_stop_locked [OF s1] unfolding defs by (simp add: s3_def)
  qed
qed

lemma dead_work:
  assumes "dead_session x s" "tx_work ret blocked tid s = Some s'"
  shows "dead_session x s'"
proof (cases "x = tid")
  case False
  from dead_same [OF other_work [OF False assms(2)] assms(1)] show ?thesis .
next
  case True
  from assms(1) obtain t f where t: "tid_start_tx s x = None" "tid_tx s x = Some t" "HT_AGG_STATE_START_CB \<notin> agg_state t"
    "HT_AGG_STATE_STOP_CB \<notin> agg_state t" by (rule dead_cases)
  define s2 where "s2 = (if HT_AGG_STATE_WANT_STOP \<in> agg_state t
    then snd (stop_tx_ba_session_locked tid AGG_STOP_LOCAL_REQUEST (upd_tid_tx tid (clear_agg HT_AGG_STATE_WANT_STOP) s)) else s)"
  have "dead_session x (upd_tid_tx tid (clear_agg HT_AGG_STATE_WANT_STOP) s)"
    by (rule dead_upd [OF assms(1)]) (auto simp: clear_agg_def)
  with dead_stop_locked [OF this] assms(1) have s2: "dead_session x s2" by (simp add: s2_def)
  then obtain t2 f2 where t2: "tid_tx s2 x = Some t2" "HT_AGG_STATE_STOP_CB \<notin> agg_state t2" by (rule dead_cases)
  have "tx_work ret blocked tid s = Some s2"
    using t True t2 by (simp add: tx_work_def tx_work_cbs_def s2_def)
  with s2 assms(2) show ?thesis by simp
qed

lemma dead_session_work:
  assumes "ba_inv s" "dead_session x s"
  shows "\<exists>s'. opt_fold (\<lambda>tid s. tx_work (ret tid) blocked tid (rx_work k hw tid s)) tids s = Some s' \<and> ba_inv s' \<and> dead_session x s'"
proof (rule opt_fold_rule [where P = "\<lambda>s. ba_inv s \<and> dead_session x s"])
  fix tid and s :: tx_ba
  assume s: "ba_inv s \<and> dead_session x s"
  have "dead_session x (rx_work k hw tid s)" by (rule dead_other [of x s]) (use s in \<open>simp_all add: rx_work_def Let_def\<close>)
  with inv_work [OF inv_rx_work, of s "ret tid" blocked tid k hw tid] s dead_work
  show "\<exists>t. tx_work (ret tid) blocked tid (rx_work k hw tid s) = Some t \<and> ba_inv t \<and> dead_session x t" by blast
qed (use assms in simp)

lemma dead_tear_down: "dead_session x s \<Longrightarrow> dead_session x (sta_tear_down_BA_sessions reason s)"
proof -
  assume d: "dead_session x s"
  define s1 where "s1 = fold (\<lambda>tid s. s\<lparr>sta_rx := ieee80211_stop_rx_ba_session_locked (sta_rx s) tid True WLAN_REASON_QSTA_LEAVE_QBSS
    (reason \<noteq> AGG_STOP_DESTROY_STA \<and> reason \<noteq> AGG_STOP_PEER_REQUEST)\<rparr>) [0..<IEEE80211_NUM_TIDS] s"
  have "dead_session x s1" unfolding s1_def
    by (rule fold_rule [where P = "dead_session x"]) (rule dead_other, assumption, simp_all add: d)
  then have "dead_session x (fold (\<lambda>tid s. snd (stop_tx_ba_session_locked tid reason s)) [0..<IEEE80211_NUM_TIDS] s1)"
    by (rule fold_rule [where P = "dead_session x", rotated]) (rule dead_stop_locked)
  moreover define s2 where "s2 = fold (\<lambda>tid s. snd (stop_tx_ba_session_locked tid reason s)) [0..<IEEE80211_NUM_TIDS] s1"
  ultimately have s2: "dead_session x s2" by simp
  have "dead_session x (fold (\<lambda>tid s. case tid_tx s tid of
                  None \<Rightarrow> s
                | Some t \<Rightarrow> if HT_AGG_STATE_STOP_CB \<in> agg_state t
                    then stop_tx_ba_cb tid (clear_agg HT_AGG_STATE_STOP_CB t) (upd_tid_tx tid (clear_agg HT_AGG_STATE_STOP_CB) s)
                    else s)
                [0..<IEEE80211_NUM_TIDS] (s2\<lparr>ampdu_work := False\<rparr>))"
  proof (rule fold_rule [where P = "dead_session x"])
    show "dead_session x (s2\<lparr>ampdu_work := False\<rparr>)" by (rule dead_other [OF s2]) simp_all
    fix tid and s :: tx_ba
    assume s: "dead_session x s"
    show "dead_session x (case tid_tx s tid of
                  None \<Rightarrow> s
                | Some t \<Rightarrow> if HT_AGG_STATE_STOP_CB \<in> agg_state t
                    then stop_tx_ba_cb tid (clear_agg HT_AGG_STATE_STOP_CB t) (upd_tid_tx tid (clear_agg HT_AGG_STATE_STOP_CB) s)
                    else s)"
    proof (cases "x = tid")
      case True
      from s show ?thesis by (rule dead_cases) (use True s in simp)
    next
      case False
      from dead_same [OF same_trans [OF same_upd [OF False] other_stop_cb [OF False]] s] s show ?thesis
        by (simp split: option.split)
    qed
  qed
  with s2 show ?thesis
    unfolding sta_tear_down_BA_sessions_def Let_def s1_def [symmetric] s2_def [symmetric] by simp
qed

lemma dead_tx: "dead_session x s \<Longrightarrow> dead_session x (snd (tx_prep_agg tid skb s))"
proof -
  assume d: "dead_session x s"
  have u: "dead_session x (upd_tid_tx tid (\<lambda>t. t\<lparr>last_tx := y\<rparr>) s)" "dead_session x (upd_tid_tx tid (\<lambda>t. t\<lparr>agg_pending := q\<rparr>) s)" for y q
    by (rule dead_upd [OF d]; auto)+
  have "dead_session x (s'\<lparr>ba_local := l\<rparr>)" if "dead_session x s'" for s' l by (rule dead_other [OF that]) simp_all
  from this [OF u(2)] u d show ?thesis by (simp add: tx_prep_agg_def Let_def split: option.split)
qed

lemma dead_step:
  assumes "ba_inv s" "dead_session x s" "op \<noteq> Ba_start_cb x" "op \<noteq> Ba_stop_cb x"
  shows "\<exists>s'. session_op op s = Some s' \<and> ba_inv s' \<and> dead_session x s'"
proof (cases op)
  case (Ba_work k hw ret)
  have "ba_inv (s\<lparr>ampdu_work := False\<rparr>)" by (rule inv_other [OF assms(1)]) simp_all
  moreover have "dead_session x (s\<lparr>ampdu_work := False\<rparr>)" by (rule dead_other [OF assms(2)]) simp_all
  ultimately show ?thesis using dead_session_work Ba_work by (simp add: ieee80211_ba_session_work_def Let_def)
next
  case (Ba_delba params)
  have "dead_session x (s\<lparr>sta_rx := r\<rparr>)" for r by (rule dead_other [OF assms(2)]) simp_all
  with Ba_delba inv_session_op [OF assms(1), of op] dead_stop_locked [OF assms(2)] show ?thesis by (simp add: process_delba_def Let_def)
qed (use assms inv_session_op [OF assms(1), of op] dead_start dead_stop dead_timers dead_addba_resp dead_tear_down dead_tx
    dead_cb [OF assms(2)] in \<open>simp_all add: start_tx_ba_cb_irqsafe_def stop_tx_ba_cb_irqsafe_def\<close>)

text \<open>The work starts the session of the TID, and the driver leaves it at that.\<close>

lemma work_starts_dead:
  assumes "ba_inv s" "tid_start_tx s x \<noteq> None" "sta_txq s x = Some f"
  shows "\<exists>s'. tx_work 0 False x s = Some s' \<and> ba_inv s' \<and> dead_session x s'"
proof -
  obtain t where t: "tid_start_tx s x = Some t" using assms(2) by auto
  have a: "tid_tx s x = None" "agg_state t = {HT_AGG_STATE_WANT_START}"
    using ba_invD [OF assms(1), of x] t by (simp_all add: view_ok_def)
  obtain s' where s': "tx_work 0 False x s = Some s'" "ba_inv s'" using inv_work [OF assms(1), of 0 False x] by blast
  define s1 where "s1 = assign_tid_tx x (Some t) (s\<lparr>tid_start_tx := (tid_start_tx s)(x := None)\<rparr>)"
  define s2 where "s2 = agg_stop_txq x (upd_tid_tx x (clear_agg HT_AGG_STATE_WANT_START) s1)"
  have "tx_work 0 False x s = tx_ba_session_handle_start 0 x s1" using t a by (simp add: tx_work_def Let_def s1_def)
  also have "\<dots> = Some (tx_ba_session_request (drop_bit 4 (tid_seq s2 x)) x s2)"
    by (simp add: tx_ba_session_handle_start_def Let_def s1_def s2_def IEEE80211_AMPDU_TX_START_IMMEDIATE_def)
  finally have r: "s' = tx_ba_session_request (drop_bit 4 (tid_seq s2 x)) x s2" using s'(1) by simp
  have d: "dead_session x s2" using assms(3) a by (simp add: dead_session_def s2_def s1_def clear_agg_def)
  have "dead_session x (upd_tid_tx x (\<lambda>t. t\<lparr>addba_resp_timer := Some (jiffies + ADDBA_RESP_INTERVAL)\<rparr>) s2)"
    by (rule dead_upd [OF d]) auto
  then have "dead_session x s'"
    unfolding r tx_ba_session_request_def Let_def send_addba_request_def by (rule dead_other) (simp_all split: option.split)
  with s' show ?thesis by blast
qed

lemma work_reaches_dead:
  assumes "ba_inv s" "x < IEEE80211_NUM_TIDS" "tid_start_tx s x \<noteq> None" "sta_txq s x = Some f" "\<not> block_ba (sta_rx s)" "ret x = 0"
  shows "\<exists>s'. ieee80211_ba_session_work k hw ret s = Some s' \<and> ba_inv s' \<and> dead_session x s'"
proof -
  let ?w = "\<lambda>tid s. tx_work (ret tid) False tid (rx_work k hw tid s)"
  let ?P = "\<lambda>s. ba_inv s \<and> tid_start_tx s x \<noteq> None \<and> sta_txq s x = Some f"
  have split: "[0..<IEEE80211_NUM_TIDS] = [0..<x] @ x # [Suc x..<IEEE80211_NUM_TIDS]"
    using assms(2) by (metis le_add_same_cancel1 less_imp_le upt_add_eq_append upt_conv_Cons le_add_diff_inverse zero_le)
  have rx: "?P (rx_work k hw tid s)" if "?P s" for tid s
    using that inv_rx_work [of s k hw tid] by (simp add: rx_work_def Let_def)
  have "ba_inv (s\<lparr>ampdu_work := False\<rparr>)" by (rule inv_other [OF assms(1)]) simp_all
  with assms(3,4) have P0: "?P (s\<lparr>ampdu_work := False\<rparr>)" by simp
  have "\<exists>t. opt_fold ?w [0..<x] (s\<lparr>ampdu_work := False\<rparr>) = Some t \<and> ?P t"
  proof (rule opt_fold_rule [where P = ?P, OF _ P0])
    fix tid and s :: tx_ba
    assume "tid \<in> set [0..<x]" "?P s"
    from \<open>?P s\<close> obtain s' where s': "?w tid s = Some s'" "ba_inv s'" using inv_work rx by blast
    have "x \<noteq> tid" using \<open>tid \<in> set [0..<x]\<close> by simp
    from other_work [OF this s'(1)] rx [OF \<open>?P s\<close>, of tid] s' show "\<exists>t. ?w tid s = Some t \<and> ?P t" by (simp add: same_at_def)
  qed
  then obtain s1 where s1: "opt_fold ?w [0..<x] (s\<lparr>ampdu_work := False\<rparr>) = Some s1" "?P s1" by blast
  from work_starts_dead [of "rx_work k hw x s1" x f] rx [OF s1(2)]
  obtain s2 where s2: "?w x s1 = Some s2" "ba_inv s2" "dead_session x s2" using assms(6) by auto
  from dead_session_work [OF s2(2,3)] obtain s3 where
    s3: "opt_fold ?w [Suc x..<IEEE80211_NUM_TIDS] s2 = Some s3" "ba_inv s3" "dead_session x s3" by blast
  have "ieee80211_ba_session_work k hw ret s = Some s3"
    unfolding ieee80211_ba_session_work_def Let_def split using assms(5) s1(1) s2(1) s3(1) by (simp add: opt_fold_append)
  with s3 show ?thesis by blast
qed


section \<open>Established in either order\<close>

text \<open>The start callback as the work runs it.\<close>

definition start_cb :: "nat \<Rightarrow> tx_ba \<Rightarrow> tx_ba" where
  "start_cb tid s = (case tid_tx s tid of None \<Rightarrow> s | Some t \<Rightarrow> start_tx_ba_cb tid t s)"

text \<open>Its parts commute: the queues on the one side, the session on the other.\<close>

definition run_txq :: "nat \<Rightarrow> tx_ba \<Rightarrow> tx_ba" where
  "run_txq tid s = agg_start_txq tid True (agg_splice_finish tid (agg_splice_packets tid s))"

definition no_amsdu :: "bool \<Rightarrow> nat \<Rightarrow> tx_ba \<Rightarrow> tx_ba" where
  "no_amsdu amsdu tid s = (if amsdu then s
     else s\<lparr>sta_txq := (sta_txq s)(tid := map_option (insert IEEE80211_TXQ_NO_AMSDU) (sta_txq s tid))\<rparr>)"

definition answered :: "nat \<Rightarrow> tx_ba \<Rightarrow> tx_ba" where
  "answered tid s = s\<lparr>addba_req_num := (addba_req_num s)(tid := 0)\<rparr>"

lemma splice_form: "agg_splice_finish tid (agg_splice_packets tid s) = s\<lparr>ba_local :=
    (if agg_queue_stop s (agg_queue tid s) = 0
     then wake_queue (agg_queue tid s) STOP_AGGREGATION False (stop_queue (agg_queue tid s) STOP_AGGREGATION False (ba_local s))
     else ba_local s)\<rparr>"
  by (simp add: agg_splice_finish_def agg_splice_packets_def stop_queue_agg_def wake_queue_agg_def agg_queue_def Let_def fun_upd_idem)

lemma run_txq_form: "run_txq tid s = s\<lparr>ba_local := ba_local (agg_splice_finish tid (agg_splice_packets tid s)),
    sta_txq := (sta_txq s)(tid := map_option (\<lambda>f. insert IEEE80211_TXQ_AMPDU f - {IEEE80211_TXQ_STOP}) (sta_txq s tid))\<rparr>"
  by (simp add: run_txq_def splice_form agg_start_txq_def)

lemma splice_local:
  "ba_local (agg_splice_finish tid (agg_splice_packets tid (upd_tid_tx tid f s))) = ba_local (agg_splice_finish tid (agg_splice_packets tid s))"
  "ba_local (agg_splice_finish tid (agg_splice_packets tid (s\<lparr>sta_txq := x\<rparr>))) = ba_local (agg_splice_finish tid (agg_splice_packets tid s))"
  by (simp_all add: splice_form upd_tid_tx_def agg_queue_def)

lemma run_txq_upd: "run_txq tid (upd_tid_tx tid f s) = upd_tid_tx tid f (run_txq tid s)"
  unfolding run_txq_form splice_local by (simp add: upd_tid_tx_def)

lemma packets_upd: "upd_tid_tx tid f (agg_splice_packets tid s) = agg_splice_packets tid (upd_tid_tx tid f s)"
  by (simp add: upd_tid_tx_def agg_splice_packets_def stop_queue_agg_def agg_queue_def Let_def)

lemma operational_run: "agg_tx_operational tid s = upd_tid_tx tid (set_agg HT_AGG_STATE_OPERATIONAL) (run_txq tid s)"
proof -
  have "agg_tx_operational tid s = run_txq tid (upd_tid_tx tid (set_agg HT_AGG_STATE_OPERATIONAL) s)"
    by (simp add: agg_tx_operational_def run_txq_def packets_upd)
  then show ?thesis by (simp add: run_txq_upd)
qed

lemma run_txq_other: "run_txq tid (no_amsdu a tid s) = no_amsdu a tid (run_txq tid s)"
proof -
  have "(\<lambda>f. insert IEEE80211_TXQ_AMPDU f - {IEEE80211_TXQ_STOP}) \<circ> insert IEEE80211_TXQ_NO_AMSDU =
      insert IEEE80211_TXQ_NO_AMSDU \<circ> (\<lambda>f. insert IEEE80211_TXQ_AMPDU f - {IEEE80211_TXQ_STOP})" by auto
  then have "map_option (\<lambda>f. insert IEEE80211_TXQ_AMPDU f - {IEEE80211_TXQ_STOP}) (map_option (insert IEEE80211_TXQ_NO_AMSDU) q) =
      map_option (insert IEEE80211_TXQ_NO_AMSDU) (map_option (\<lambda>f. insert IEEE80211_TXQ_AMPDU f - {IEEE80211_TXQ_STOP}) q)" for q
    by (simp add: option.map_comp)
  then show ?thesis by (simp add: run_txq_form splice_local no_amsdu_def)
qed

lemma answered_other: "upd_tid_tx tid f (answered tid s) = answered tid (upd_tid_tx tid f s)"
  "run_txq tid (answered tid s) = answered tid (run_txq tid s)"
  by (simp_all add: answered_def upd_tid_tx_def run_txq_def splice_form agg_start_txq_def agg_queue_def)

lemma no_amsdu_upd: "no_amsdu a tid (upd_tid_tx tid f s) = upd_tid_tx tid f (no_amsdu a tid s)"
  by (simp add: no_amsdu_def upd_tid_tx_def)

lemma upd_upd: "upd_tid_tx tid f (upd_tid_tx tid g s) = upd_tid_tx tid (f \<circ> g) s"
  by (simp add: upd_tid_tx_def option.map_comp)

lemma answer_fields [simp]:
  "tid_tx (run_txq tid s) = tid_tx s" "tid_tx (no_amsdu a tid s) = tid_tx s" "tid_tx (answered tid s) = tid_tx s"
  "max_tx_aggregation_subframes (upd_tid_tx tid f s) = max_tx_aggregation_subframes s"
  by (simp_all add: run_txq_def no_amsdu_def answered_def upd_tid_tx_def)

lemma resp_form:
  assumes "tid_tx s tid = Some t" "agg_state t \<subseteq> {HT_AGG_STATE_DRV_READY}" "tid = unat (drop_bit 2 (capab AND 0x3C))"
    "token = dialog_token t" "bsize = min (drop_bit 6 (capab AND 0xFFC0)) (max_tx_aggregation_subframes s)" "bsize \<noteq> 0"
  shows "process_addba_resp capab token WLAN_STATUS_SUCCESS timeout s =
    answered tid (upd_tid_tx tid ((\<lambda>t. if timeout \<noteq> 0
        then t\<lparr>agg_tx_timeout := timeout, session_timer := Some (jiffies + TU_TO_JIFFIES timeout), last_tx := jiffies\<rparr>
        else t\<lparr>agg_tx_timeout := timeout\<rparr>) \<circ>
      (if HT_AGG_STATE_DRV_READY \<in> agg_state t then set_agg HT_AGG_STATE_OPERATIONAL else id) \<circ>
      (\<lambda>t. (set_agg HT_AGG_STATE_RESPONSE_RECEIVED t)\<lparr>tx_buf_size := bsize, tx_amsdu := capab AND 1 \<noteq> 0\<rparr>) \<circ>
      (\<lambda>t. t\<lparr>addba_resp_timer := None\<rparr>))
      (no_amsdu (capab AND 1 \<noteq> 0) tid ((if HT_AGG_STATE_DRV_READY \<in> agg_state t then run_txq tid else id) s)))"
proof -
  have st: "HT_AGG_STATE_WANT_STOP \<notin> agg_state t" "HT_AGG_STATE_STOPPING \<notin> agg_state t" "HT_AGG_STATE_RESPONSE_RECEIVED \<notin> agg_state t"
    using assms(2) by auto
  define s0 where "s0 = no_amsdu (capab AND 1 \<noteq> 0) tid s"
  have s0: "tid_tx s0 tid = Some t" using assms(1) by (simp add: s0_def)
  show ?thesis
    unfolding process_addba_resp_def Let_def assms(3) [symmetric] assms(5) [symmetric] no_amsdu_def [symmetric] s0_def [symmetric] s0
      option.case
    using st assms(4,6) s0
    by (simp add: operational_run answered_def [symmetric] upd_upd answered_other run_txq_upd run_txq_other s0_def comp_assoc)
qed

text \<open>
  Property C38: the driver and the peer may answer in either order. For a session that was requested and not answered,
  the callback of the driver followed by a successful response of the peer, and the response followed by the callback,
  give the same state of station and device, and in it the session is operational, the buffer size is the smaller of
  that of the response and that of the device, the number of requests counted against the station is zero, and the
  intermediate queue, if there is one, runs with aggregation.
\<close>

theorem ba_answers_commute:
  assumes "tid_tx s tid = Some t" "agg_state t = {}" "tid = unat (drop_bit 2 (capab AND 0x3C))" "token = dialog_token t"
    "bsize = min (drop_bit 6 (capab AND 0xFFC0)) (max_tx_aggregation_subframes s)" "bsize \<noteq> 0"
  shows "let resp = process_addba_resp capab token WLAN_STATUS_SUCCESS timeout; s' = resp (start_cb tid s)
    in start_cb tid (resp s) = s' \<and> addba_req_num s' tid = 0 \<and>
       map_option agg_state (tid_tx s' tid) =
         Some {HT_AGG_STATE_DRV_READY, HT_AGG_STATE_RESPONSE_RECEIVED, HT_AGG_STATE_OPERATIONAL} \<and>
       map_option tx_buf_size (tid_tx s' tid) = Some bsize \<and>
       (case sta_txq s' tid of None \<Rightarrow> True | Some f \<Rightarrow> IEEE80211_TXQ_AMPDU \<in> f \<and> IEEE80211_TXQ_STOP \<notin> f)"
proof -
  define resp where "resp = process_addba_resp capab token WLAN_STATUS_SUCCESS timeout"
  define f where "f = (\<lambda>t. (set_agg HT_AGG_STATE_RESPONSE_RECEIVED t)\<lparr>tx_buf_size := bsize, tx_amsdu := capab AND 1 \<noteq> 0\<rparr>) \<circ>
      (\<lambda>t. t\<lparr>addba_resp_timer := None\<rparr>)"
  define g where "g = (\<lambda>t :: tid_ampdu_tx. if timeout \<noteq> 0
        then t\<lparr>agg_tx_timeout := timeout, session_timer := Some (jiffies + TU_TO_JIFFIES timeout), last_tx := jiffies\<rparr>
        else t\<lparr>agg_tx_timeout := timeout\<rparr>)"
  let ?d = "set_agg HT_AGG_STATE_DRV_READY" and ?o = "set_agg HT_AGG_STATE_OPERATIONAL" and ?a = "capab AND 1 \<noteq> 0"
  have first: "resp s = answered tid (upd_tid_tx tid (g \<circ> f) (no_amsdu ?a tid s))"
    using resp_form [OF assms(1) _ assms(3-6), of timeout] assms(2) by (simp add: resp_def f_def g_def comp_assoc)
  have cb: "start_cb tid s = upd_tid_tx tid ?d s" using assms(1,2) by (simp add: start_cb_def start_tx_ba_cb_def)
  have t: "tid_tx (upd_tid_tx tid ?d s) tid = Some (?d t)" "agg_state (?d t) = {HT_AGG_STATE_DRV_READY}"
    "token = dialog_token (?d t)" using assms(1,2,4) by (simp_all add: set_agg_def)
  have m: "bsize = min (drop_bit 6 (capab AND 0xFFC0)) (max_tx_aggregation_subframes (upd_tid_tx tid ?d s))"
    unfolding answer_fields by (rule assms(5))
  have "resp (start_cb tid s) = answered tid (upd_tid_tx tid (g \<circ> ?o \<circ> f) (no_amsdu ?a tid (run_txq tid (upd_tid_tx tid ?d s))))"
    using resp_form [OF t(1) _ assms(3) t(3) m assms(6), of timeout] t(2) by (simp add: resp_def f_def g_def cb comp_assoc)
  then have second: "resp (start_cb tid s) = answered tid (upd_tid_tx tid (g \<circ> ?o \<circ> f \<circ> ?d) (no_amsdu ?a tid (run_txq tid s)))"
    by (simp add: run_txq_upd no_amsdu_upd upd_upd)
  have st: "agg_state ((g \<circ> f) t) = {HT_AGG_STATE_RESPONSE_RECEIVED}" using assms(2) by (simp add: g_def f_def set_agg_def)
  have ex: "tid_tx (resp s) tid = Some ((g \<circ> f) t)" using assms(1) by (simp add: first)
  have "start_cb tid (resp s) = agg_tx_operational tid (upd_tid_tx tid ?d (resp s))"
    unfolding start_cb_def ex by (simp add: start_tx_ba_cb_def st [unfolded comp_def])
  also have "\<dots> = answered tid (upd_tid_tx tid (?o \<circ> ?d \<circ> g \<circ> f) (no_amsdu ?a tid (run_txq tid s)))"
    by (simp add: first operational_run answered_other run_txq_upd run_txq_other upd_upd comp_assoc)
  also have "?o \<circ> ?d \<circ> g \<circ> f = g \<circ> ?o \<circ> f \<circ> ?d"
    by (simp add: fun_eq_iff g_def f_def set_agg_def insert_commute)
  finally have same: "start_cb tid (resp s) = resp (start_cb tid s)" using second by (simp only: comp_def)
  have s': "tid_tx (resp (start_cb tid s)) tid = Some ((g \<circ> ?o \<circ> f \<circ> ?d) t)" using assms(1) by (simp add: second)
  have q: "sta_txq (resp (start_cb tid s)) tid = map_option (if ?a then id else insert IEEE80211_TXQ_NO_AMSDU)
      (map_option (\<lambda>f. insert IEEE80211_TXQ_AMPDU f - {IEEE80211_TXQ_STOP}) (sta_txq s tid))"
    by (simp add: second answered_def no_amsdu_def run_txq_form option.map_id)
  show ?thesis
    unfolding resp_def [symmetric] Let_def
  proof (intro conjI)
    show "addba_req_num (resp (start_cb tid s)) tid = 0" by (simp add: second answered_def)
    show "map_option agg_state (tid_tx (resp (start_cb tid s)) tid) =
         Some {HT_AGG_STATE_DRV_READY, HT_AGG_STATE_RESPONSE_RECEIVED, HT_AGG_STATE_OPERATIONAL}"
      using assms(2) unfolding s' by (auto simp: g_def f_def set_agg_def)
    show "map_option tx_buf_size (tid_tx (resp (start_cb tid s)) tid) = Some bsize"
      unfolding s' by (simp add: g_def f_def set_agg_def)
    show "case sta_txq (resp (start_cb tid s)) tid of None \<Rightarrow> True | Some f \<Rightarrow> IEEE80211_TXQ_AMPDU \<in> f \<and> IEEE80211_TXQ_STOP \<notin> f"
      unfolding q by (cases "sta_txq s tid") auto
  qed (rule same)
qed

section \<open>A station\<close>

definition demo_station :: tx_ba where
  "demo_station = \<lparr>ba_local = demo_local, agg_queue_stop = (\<lambda>_. 0), vif_hw_queue = id, vif_type = NL80211_IFTYPE_STATION,
     op_ampdu_action = True, hw_ampdu_aggregation = True, hw_tx_ampdu_setup_in_hw = False, max_tx_aggregation_subframes = 64,
     ba_sent = [], sta_rx = \<lparr>tid_rx = (\<lambda>_. None), tid_rx_token = (\<lambda>_. 0), agg_session_valid = (\<lambda>_. False),
       unexpected_agg = (\<lambda>_. False), ht_supported = True, ht_delay_ba = False, has_he = False, block_ba = False,
       max_rx_aggregation_subframes = 64, sent_delba = [], sent_addba_resp = [], iface_queue = []\<rparr>,
     rx_timer_expired = (\<lambda>_. False), rx_stop_requested = (\<lambda>_. False), rx_manage_offl = (\<lambda>_. False), reserved_tid = 16,
     tid_tx = (\<lambda>_. None), tid_start_tx = (\<lambda>_. None), last_addba_req_time = (\<lambda>_. 0), addba_req_num = (\<lambda>_. 0),
     dialog_token_allocator = 0, sta_txq = (\<lambda>_. Some {}), tid_seq = (\<lambda>_. 16), ampdu_work = False, leaked = []\<rparr>"

lemma demo_station_ok: "ba_inv demo_station"
  by (simp add: ba_inv_def demo_station_def balanced_def demo_local_def counts_ok_def tid_ok_def view_ok_def)



definition demo_session :: tid_ampdu_tx where
  "demo_session = \<lparr>session_timer = None, addba_resp_timer = Some 1001, agg_pending = [], agg_state = {}, last_tx = 0,
     agg_tx_timeout = 100, dialog_token = 1, stop_initiator = 0, tx_stop = False, tx_buf_size = 0, tx_amsdu = False\<rparr>"

theorem ba_answers_commute_witness:
  "start_cb 3 (process_addba_resp 0x100D 1 WLAN_STATUS_SUCCESS 5 (assign_tid_tx 3 (Some demo_session) demo_station)) =
   process_addba_resp 0x100D 1 WLAN_STATUS_SUCCESS 5 (start_cb 3 (assign_tid_tx 3 (Some demo_session) demo_station))"
proof -
  have tid: "3 = unat (drop_bit 2 ((0x100D :: u16) AND 0x3C))" by code_simp
  have bsize: "64 = min (drop_bit 6 ((0x100D :: u16) AND 0xFFC0)) 64" by code_simp
  have m: "max_tx_aggregation_subframes (assign_tid_tx 3 (Some demo_session) demo_station) = 64"
    by (simp add: assign_tid_tx_def demo_station_def)
  have "(64 :: u16) = min (drop_bit 6 ((0x100D :: u16) AND 0xFFC0)) (max_tx_aggregation_subframes (assign_tid_tx 3 (Some demo_session) demo_station))"
    unfolding m by (rule bsize)
  note bsize = this
  have t: "tid_tx (assign_tid_tx 3 (Some demo_session) demo_station) 3 = Some demo_session" by simp
  have d: "agg_state demo_session = {}" "1 = dialog_token demo_session" by (simp_all add: demo_session_def)
  show ?thesis using ba_answers_commute [OF t d(1) tid d(2) bsize, of 5] unfolding Let_def by simp
qed

end
