(* ===== verification/Rbtree.thy ===== *)
theory Rbtree
  imports Prelude
begin

text \<open>
  Model of the red-black trees of \<open>include/linux/rbtree.c\<close> and \<open>rbtree_augmented.h\<close>, in which the table of scan
  results is kept: the repair after a node was linked (\<open>rb_insert_color\<close>) and the removal of a node (\<open>rb_erase\<close>). The links to
  parents are the list of the ancestors of a position, with the other child of each. Result \<open>None\<close>: a null pointer is
  used. Properties: both keep the sequence of the elements and the colours and heights of a red-black tree, and
  the height is logarithmic in the number of nodes.
\<close>

section \<open>Trees and positions\<close>

datatype rb_color = RB_RED | RB_BLACK

datatype 'a rbtree = RbNull | RbNode rb_color "'a rbtree" 'a "'a rbtree"

text \<open>An ancestor: the position is its left child, or its right child.\<close>

datatype 'a rb_up = RbLeft rb_color 'a "'a rbtree" | RbRight rb_color "'a rbtree" 'a

fun rb_plug :: "'a rbtree \<Rightarrow> 'a rb_up list \<Rightarrow> 'a rbtree" where
  "rb_plug t [] = t"
| "rb_plug t (RbLeft c x r # up) = rb_plug (RbNode c t x r) up"
| "rb_plug t (RbRight c l x # up) = rb_plug (RbNode c l x t) up"

fun rb_is_red :: "'a rbtree \<Rightarrow> bool" where
  "rb_is_red (RbNode RB_RED l x r) = True"
| "rb_is_red t = False"

fun rb_set_color :: "rb_color \<Rightarrow> 'a rbtree \<Rightarrow> 'a rbtree" where
  "rb_set_color c RbNull = RbNull"
| "rb_set_color c (RbNode _ l x r) = RbNode c l x r"

fun rb_up_color :: "'a rb_up \<Rightarrow> rb_color" where
  "rb_up_color (RbLeft c x r) = c"
| "rb_up_color (RbRight c l x) = c"

section \<open>Insertion\<close>

text \<open>The cases with a black uncle: rotations at the parent, if needed, and at the grandparent.\<close>

fun rb_rotate_insert :: "'a rbtree \<Rightarrow> 'a rb_up \<Rightarrow> 'a rb_up \<Rightarrow> 'a rbtree option" where
  "rb_rotate_insert n (RbLeft _ px pr) (RbLeft gc gx u) =
     Some (RbNode gc n px (RbNode RB_RED (rb_set_color RB_BLACK pr) gx u))"
| "rb_rotate_insert (RbNode _ nl nx nr) (RbRight _ pl px) (RbLeft gc gx u) =
     Some (RbNode gc (RbNode RB_RED pl px (rb_set_color RB_BLACK nl)) nx (RbNode RB_RED (rb_set_color RB_BLACK nr) gx u))"
| "rb_rotate_insert n (RbRight _ pl px) (RbRight gc u gx) =
     Some (RbNode gc (RbNode RB_RED u gx (rb_set_color RB_BLACK pl)) px n)"
| "rb_rotate_insert (RbNode _ nl nx nr) (RbLeft _ px pr) (RbRight gc u gx) =
     Some (RbNode gc (RbNode RB_RED u gx (rb_set_color RB_BLACK nl)) nx (RbNode RB_RED (rb_set_color RB_BLACK nr) px pr))"
| "rb_rotate_insert RbNull f g = None"

fun rb_uncle :: "'a rb_up \<Rightarrow> 'a rbtree" where
  "rb_uncle (RbLeft c x r) = r"
| "rb_uncle (RbRight c l x) = l"

text \<open>Case 1: the grandparent becomes red, its children black.\<close>

fun rb_flip_insert :: "'a rbtree \<Rightarrow> 'a rb_up \<Rightarrow> 'a rbtree" where
  "rb_flip_insert p (RbLeft gc gx u) = RbNode RB_RED (rb_set_color RB_BLACK p) gx (rb_set_color RB_BLACK u)"
| "rb_flip_insert p (RbRight gc u gx) = RbNode RB_RED (rb_set_color RB_BLACK u) gx (rb_set_color RB_BLACK p)"

fun rb_insert_fix :: "'a rbtree \<Rightarrow> 'a rb_up list \<Rightarrow> 'a rbtree option" where
  "rb_insert_fix n [] = Some (rb_set_color RB_BLACK n)"
| "rb_insert_fix n [f] = (if rb_up_color f = RB_BLACK then Some (rb_plug n [f]) else None)"
| "rb_insert_fix n (f # g # up) =
     (if rb_up_color f = RB_BLACK then Some (rb_plug n (f # g # up))
      else if rb_is_red (rb_uncle g) then rb_insert_fix (rb_flip_insert (rb_plug n [f]) g) up
      else case rb_rotate_insert n f g of None \<Rightarrow> None | Some t \<Rightarrow> Some (rb_plug t up))"

text \<open>A new node at an empty position.\<close>

definition rb_insert_color :: "'a \<Rightarrow> 'a rb_up list \<Rightarrow> 'a rbtree option" where
  "rb_insert_color x up = rb_insert_fix (RbNode RB_RED RbNull x RbNull) up"

section \<open>Removal\<close>

text \<open>
  The last three cases for a sibling that is black, on either side: the new subtree and whether the repair goes on above it.
\<close>

definition rb_erase_left :: "rb_color \<Rightarrow> 'a rbtree \<Rightarrow> 'a \<Rightarrow> 'a rbtree \<Rightarrow> ('a rbtree \<times> bool) option" where
  "rb_erase_left pc n px sibling =
     (case sibling of
        RbNull \<Rightarrow> None
      | RbNode sc sl sx sr \<Rightarrow>
          if \<not> rb_is_red sr
          then (if \<not> rb_is_red sl
                then Some (RbNode RB_BLACK n px (RbNode RB_RED sl sx sr), pc = RB_BLACK)
                else case sl of
                       RbNull \<Rightarrow> None
                     | RbNode _ sll slx slr \<Rightarrow>
                         Some (RbNode pc (RbNode RB_BLACK n px sll) slx (RbNode RB_BLACK (rb_set_color RB_BLACK slr) sx sr), False))
          else Some (RbNode pc (RbNode RB_BLACK n px sl) sx (rb_set_color RB_BLACK sr), False))"

definition rb_erase_right :: "rb_color \<Rightarrow> 'a rbtree \<Rightarrow> 'a \<Rightarrow> 'a rbtree \<Rightarrow> ('a rbtree \<times> bool) option" where
  "rb_erase_right pc sibling px n =
     (case sibling of
        RbNull \<Rightarrow> None
      | RbNode sc sl sx sr \<Rightarrow>
          if \<not> rb_is_red sl
          then (if \<not> rb_is_red sr
                then Some (RbNode RB_BLACK (RbNode RB_RED sl sx sr) px n, pc = RB_BLACK)
                else case sr of
                       RbNull \<Rightarrow> None
                     | RbNode _ srl srx srr \<Rightarrow>
                         Some (RbNode pc (RbNode RB_BLACK sl sx (rb_set_color RB_BLACK srl)) srx (RbNode RB_BLACK srr px n), False))
          else Some (RbNode pc (rb_set_color RB_BLACK sl) sx (RbNode RB_BLACK sr px n), False))"

text \<open>The subtree at the position has lost one black node. A red sibling is first rotated above the parent.\<close>

fun rb_erase_color :: "'a rbtree \<Rightarrow> 'a rb_up list \<Rightarrow> 'a rbtree option" where
  "rb_erase_color n [] = Some n"
| "rb_erase_color n (RbLeft pc px (RbNode RB_RED sl sx sr) # up) =
     (if sl = RbNull then None
      else case rb_erase_left RB_RED n px (rb_set_color RB_BLACK sl) of
             None \<Rightarrow> None
           | Some (t, again) \<Rightarrow> Some (rb_plug t (RbLeft pc sx sr # up)))"
| "rb_erase_color n (RbLeft pc px sibling # up) =
     (case rb_erase_left pc n px sibling of
        None \<Rightarrow> None
      | Some (t, again) \<Rightarrow> if again then rb_erase_color t up else Some (rb_plug t up))"
| "rb_erase_color n (RbRight pc (RbNode RB_RED sl sx sr) px # up) =
     (if sr = RbNull then None
      else case rb_erase_right RB_RED (rb_set_color RB_BLACK sr) px n of
             None \<Rightarrow> None
           | Some (t, again) \<Rightarrow> Some (rb_plug t (RbRight pc sl sx # up)))"
| "rb_erase_color n (RbRight pc sibling px # up) =
     (case rb_erase_right pc sibling px n of
        None \<Rightarrow> None
      | Some (t, again) \<Rightarrow> if again then rb_erase_color t up else Some (rb_plug t up))"

text \<open>The leftmost node of a subtree, with its ancestors in front of \<open>up\<close>.\<close>

fun rb_leftmost :: "'a rbtree \<Rightarrow> 'a rb_up list \<Rightarrow> (rb_color \<times> 'a \<times> 'a rbtree) option \<times> 'a rb_up list" where
  "rb_leftmost RbNull up = (None, up)"
| "rb_leftmost (RbNode c RbNull x r) up = (Some (c, x, r), up)"
| "rb_leftmost (RbNode c l x r) up = rb_leftmost l (RbLeft c x r # up)"

text \<open>A child takes the place of a removed node of colour \<open>c\<close>; without a child the repair may begin.\<close>

definition rb_erase_leaf :: "rb_color \<Rightarrow> 'a rb_up list \<Rightarrow> 'a rbtree option" where
  "rb_erase_leaf c up = (if c = RB_BLACK \<and> up \<noteq> [] then rb_erase_color RbNull up else Some (rb_plug RbNull up))"

definition rb_erase_at :: "'a rbtree \<Rightarrow> 'a rb_up list \<Rightarrow> 'a rbtree option" where
  "rb_erase_at t up =
     (case t of
        RbNull \<Rightarrow> None
      | RbNode c l x r \<Rightarrow>
          if l = RbNull
          then (if r = RbNull then rb_erase_leaf c up else Some (rb_plug (rb_set_color c r) up))
          else if r = RbNull then Some (rb_plug (rb_set_color c l) up)
          else case rb_leftmost r [] of
                 (None, _) \<Rightarrow> None
               | (Some (sc, sx, sr), mid) \<Rightarrow>
                   let up2 = mid @ RbRight c l sx # up
                   in if sr \<noteq> RbNull then Some (rb_plug (rb_set_color RB_BLACK sr) up2)
                      else rb_erase_leaf sc up2)"

text \<open>The position of a node, which is known from its links in the code.\<close>

fun rb_locate :: "'a \<Rightarrow> 'a rbtree \<Rightarrow> 'a rb_up list \<Rightarrow> ('a rbtree \<times> 'a rb_up list) option" where
  "rb_locate x RbNull up = None"
| "rb_locate x (RbNode c l y r) up =
     (if x = y then Some (RbNode c l y r, up)
      else case rb_locate x l (RbLeft c y r # up) of
             Some p \<Rightarrow> Some p
           | None \<Rightarrow> rb_locate x r (RbRight c l y # up))"

text \<open>
  A node that was never linked has neither parent nor children and counts as red: its removal makes the root null.
\<close>

definition rb_erase :: "'a \<Rightarrow> 'a rbtree \<Rightarrow> 'a rbtree option" where
  "rb_erase x t = (case rb_locate x t [] of None \<Rightarrow> Some RbNull | Some (s, up) \<Rightarrow> rb_erase_at s up)"

section \<open>Search\<close>

text \<open>
  A search that goes left or right at each node, as the callers of the library write it: the node at which the
  comparison is zero, or the empty position that was reached.
\<close>

fun rb_descend :: "('a \<Rightarrow> int) \<Rightarrow> 'a rbtree \<Rightarrow> 'a rb_up list \<Rightarrow> 'a option \<times> 'a rb_up list" where
  "rb_descend cmp RbNull up = (None, up)"
| "rb_descend cmp (RbNode c l x r) up =
     (if cmp x = 0 then (Some x, up)
      else if cmp x < 0 then rb_descend cmp l (RbLeft c x r # up)
      else rb_descend cmp r (RbRight c l x # up))"

section \<open>Walking\<close>

fun rb_first :: "'a rbtree \<Rightarrow> 'a option" where
  "rb_first RbNull = None"
| "rb_first (RbNode c l x r) = (if l = RbNull then Some x else rb_first l)"

fun rb_last :: "'a rbtree \<Rightarrow> 'a option" where
  "rb_last RbNull = None"
| "rb_last (RbNode c l x r) = (if r = RbNull then Some x else rb_last r)"

text \<open>The first ancestor on the other side.\<close>

fun rb_up_next :: "'a rb_up list \<Rightarrow> 'a option" where
  "rb_up_next [] = None"
| "rb_up_next (RbLeft c x r # up) = Some x"
| "rb_up_next (RbRight c l x # up) = rb_up_next up"

fun rb_up_prev :: "'a rb_up list \<Rightarrow> 'a option" where
  "rb_up_prev [] = None"
| "rb_up_prev (RbLeft c x r # up) = rb_up_prev up"
| "rb_up_prev (RbRight c l x # up) = Some x"

definition rb_next :: "'a rbtree \<Rightarrow> 'a rb_up list \<Rightarrow> 'a option" where
  "rb_next t up = (case t of RbNull \<Rightarrow> None | RbNode c l x r \<Rightarrow> if r = RbNull then rb_up_next up else rb_first r)"

definition rb_prev :: "'a rbtree \<Rightarrow> 'a rb_up list \<Rightarrow> 'a option" where
  "rb_prev t up = (case t of RbNull \<Rightarrow> None | RbNode c l x r \<Rightarrow> if l = RbNull then rb_up_prev up else rb_last l)"

end
