(* ===== verification/Bss.thy ===== *)
theory Bss
  imports Rbtree Jiffies Chandef Nlattr
begin

unbundle bit_operations_syntax

text \<open>
  Model of the table of scan results of \<open>net/wireless/scan.c\<close>: the entries with their reference counts, the list, the
  tree in which they are found, the groups of a beacon with a hidden network name and the probe responses that belong
  to it, lookup, update, expiry, and the information elements.

  An entry is a cell of a heap; result \<open>None\<close> is the use of a cell that was freed, or the corruption of a list. A ring is
  a circular list: a list of its members, in the order of the links, from any of them; an entry outside of all rings is linked to
  itself. The buffers of elements are values that carry the pointer; those freed are recorded. Left out: the profiles
  of a multiple-BSSID element and the change of the channel of an associated entry.
\<close>

section \<open>Information elements\<close>

text \<open>The loop stops at the first element that does not fit.\<close>

fun ie_elements :: "bytes \<Rightarrow> (u8 \<times> bytes) list" where
  "ie_elements (i # l # rest) =
     (if unat l \<le> length rest then (i, take (unat l) rest) # ie_elements (drop (unat l) rest) else [])"
| "ie_elements data = []"

definition cfg80211_find_elem_match :: "u8 \<Rightarrow> bytes \<Rightarrow> bytes \<Rightarrow> nat \<Rightarrow> bytes option" where
  "cfg80211_find_elem_match eid ies match match_offset =
     map_option snd (find (\<lambda>(i, d). i = eid \<and> match_offset + length match \<le> length d \<and>
        take (length match) (drop match_offset d) = match) (ie_elements ies))"

definition cfg80211_find_ie :: "u8 \<Rightarrow> bytes \<Rightarrow> bytes option" where
  "cfg80211_find_ie eid ies = cfg80211_find_elem_match eid ies [] 0"

definition WLAN_EID_SSID :: u8 where "WLAN_EID_SSID = 0"
definition WLAN_EID_DS_PARAMS :: u8 where "WLAN_EID_DS_PARAMS = 3"
definition WLAN_EID_HT_OPERATION :: u8 where "WLAN_EID_HT_OPERATION = 61"
definition WLAN_EID_MULTIPLE_BSSID :: u8 where "WLAN_EID_MULTIPLE_BSSID = 71"
definition WLAN_EID_MESH_CONFIG :: u8 where "WLAN_EID_MESH_CONFIG = 113"
definition WLAN_EID_MESH_ID :: u8 where "WLAN_EID_MESH_ID = 114"
definition WLAN_EID_VENDOR_SPECIFIC :: u8 where "WLAN_EID_VENDOR_SPECIFIC = 221"

text \<open>A negative type matches any type.\<close>

definition cfg80211_find_vendor_elem :: "u32 \<Rightarrow> int \<Rightarrow> bytes \<Rightarrow> bytes option" where
  "cfg80211_find_vendor_elem oui oui_type ies =
     (if 0xff < oui_type then None
      else let oui3 = [ucast (drop_bit 16 oui), ucast (drop_bit 8 oui), ucast oui]
      in case cfg80211_find_elem_match WLAN_EID_VENDOR_SPECIFIC ies (if oui_type < 0 then oui3 else oui3 @ [of_int oui_type]) 0 of
           None \<Rightarrow> None
         | Some d \<Rightarrow> if length d < 4 then None else Some d)"

text \<open>
  Whether an element of the transmitting network holds for a network of its set as well; \<open>None\<close> if its first byte is
  read and it has none.
\<close>

definition cfg80211_is_element_inherited :: "u8 \<Rightarrow> bytes \<Rightarrow> bytes option \<Rightarrow> bool option" where
  "cfg80211_is_element_inherited eid data non_inherit =
     (if eid = WLAN_EID_MULTIPLE_BSSID then Some False
      else case non_inherit of
             None \<Rightarrow> Some True
           | Some ni \<Rightarrow>
               if length ni < 2 then Some True
               else let id_len = unat (ni ! 1)
               in if length ni < 3 + id_len then Some True
               else let ext_id_len = unat (ni ! (2 + id_len))
               in if length ni < 3 + id_len + ext_id_len then Some True
               else if eid = WLAN_EID_EXTENSION
               then (if ext_id_len = 0 then Some True
                     else case data of [] \<Rightarrow> None | e # _ \<Rightarrow> Some (e \<notin> set (take ext_id_len (drop (3 + id_len) ni))))
               else Some (eid \<notin> set (take id_len (drop 2 ni))))"

section \<open>Entries\<close>

record bss_ies =
  ies_ptr :: nat
  ies_tsf :: u64
  from_beacon :: bool
  ies_data :: bytes

record bss_entry =
  bss_channel :: ieee80211_channel
  scan_width :: nl80211_bss_scan_width
  bss_ies :: "bss_ies option"
  beacon_ies :: "bss_ies option"
  proberesp_ies :: "bss_ies option"
  hidden_beacon_bss :: "nat option"
  transmitted_bss :: "nat option"
  bss_signal :: int
  bss_beacon_interval :: u16
  bss_capability :: u16
  bssid :: bytes
  bss_chains :: u8
  chain_signal :: bytes
  bssid_index :: u8
  max_bssid_indicator :: u8
  ts_boottime :: u64
  bss_ts :: u64
  bss_refcount :: int
  bss_hold :: int
  parent_tsf :: u64
  parent_bssid :: bytes

record bss_table =
  bss_heap :: "nat \<Rightarrow> bss_entry option"
  bss_fresh :: nat
  ies_fresh :: nat
  ies_freed :: "nat list"
  bss_list :: "nat list"
  bss_tree :: "nat rbtree"
  bss_entries :: u32
  bss_generation :: u32
  hidden_rings :: "nat list list"
  nontrans_rings :: "nat list list"

definition bss_entries_limit :: u32 where "bss_entries_limit = 1000"
definition IEEE80211_SCAN_RESULT_EXPIRE :: u64 where "IEEE80211_SCAN_RESULT_EXPIRE = 30 * HZ"
definition WLAN_CAPABILITY_ESS :: u16 where "WLAN_CAPABILITY_ESS = 1"
definition WLAN_CAPABILITY_IBSS :: u16 where "WLAN_CAPABILITY_IBSS = 2"
definition WLAN_CAPABILITY_PRIVACY :: u16 where "WLAN_CAPABILITY_PRIVACY = 16"
definition WLAN_CAPABILITY_DMG_TYPE_MASK :: u16 where "WLAN_CAPABILITY_DMG_TYPE_MASK = 3"
definition WLAN_CAPABILITY_DMG_TYPE_IBSS :: u16 where "WLAN_CAPABILITY_DMG_TYPE_IBSS = 1"
definition WLAN_CAPABILITY_DMG_TYPE_PBSS :: u16 where "WLAN_CAPABILITY_DMG_TYPE_PBSS = 2"
definition WLAN_CAPABILITY_DMG_TYPE_AP :: u16 where "WLAN_CAPABILITY_DMG_TYPE_AP = 3"

definition WLAN_CAPABILITY_IS_STA_BSS :: "u16 \<Rightarrow> bool" where
  "WLAN_CAPABILITY_IS_STA_BSS cap \<longleftrightarrow> cap AND (WLAN_CAPABILITY_ESS OR WLAN_CAPABILITY_IBSS) = 0"

section \<open>Rings\<close>

definition in_ring :: "nat \<Rightarrow> nat list list \<Rightarrow> bool" where "in_ring p rings \<longleftrightarrow> list_ex (\<lambda>r. p \<in> set r) rings"

text \<open>\<open>list_del_init\<close>: a ring of one is no ring.\<close>

definition ring_del :: "nat \<Rightarrow> nat list list \<Rightarrow> nat list list" where
  "ring_del p rings = filter (\<lambda>r. 1 < length r) (map (remove1 p) rings)"

definition insert_after :: "nat \<Rightarrow> nat \<Rightarrow> nat list \<Rightarrow> nat list" where
  "insert_after h p r = takeWhile (\<lambda>x. x \<noteq> h) r @ h # p # tl (dropWhile (\<lambda>x. x \<noteq> h) r)"

text \<open>\<open>list_add\<close> of an entry outside of all rings behind \<open>h\<close>, and \<open>list_add_tail\<close> before it.\<close>

definition ring_add :: "nat \<Rightarrow> nat \<Rightarrow> nat list list \<Rightarrow> nat list list" where
  "ring_add h p rings =
     (if in_ring h rings then map (\<lambda>r. if h \<in> set r then insert_after h p r else r) rings else [h, p] # rings)"

definition ring_add_tail :: "nat \<Rightarrow> nat \<Rightarrow> nat list list \<Rightarrow> nat list list" where
  "ring_add_tail h p rings =
     (if in_ring h rings
      then map (\<lambda>r. if h \<in> set r then takeWhile (\<lambda>x. x \<noteq> h) r @ p # dropWhile (\<lambda>x. x \<noteq> h) r else r) rings
      else [h, p] # rings)"

text \<open>The others in the ring of an entry, in order.\<close>

definition ring_others :: "nat \<Rightarrow> nat list list \<Rightarrow> nat list" where
  "ring_others p rings =
     (case find (\<lambda>r. p \<in> set r) rings of
        None \<Rightarrow> []
      | Some r \<Rightarrow> tl (dropWhile (\<lambda>x. x \<noteq> p) r) @ takeWhile (\<lambda>x. x \<noteq> p) r)"

section \<open>References\<close>

definition upd_bss :: "nat \<Rightarrow> (bss_entry \<Rightarrow> bss_entry) \<Rightarrow> bss_table \<Rightarrow> bss_table option" where
  "upd_bss p f s = (case bss_heap s p of None \<Rightarrow> None | Some b \<Rightarrow> Some (s\<lparr>bss_heap := (bss_heap s)(p \<mapsto> f b)\<rparr>))"

definition free_ies :: "bss_ies option \<Rightarrow> bss_table \<Rightarrow> bss_table" where
  "free_ies i s = (case i of None \<Rightarrow> s | Some x \<Rightarrow> s\<lparr>ies_freed := ies_freed s @ [ies_ptr x]\<rparr>)"

definition bss_free :: "nat \<Rightarrow> bss_table \<Rightarrow> bss_table option" where
  "bss_free p s =
     (case bss_heap s p of
        None \<Rightarrow> None
      | Some b \<Rightarrow>
          if bss_hold b \<noteq> 0 then Some s
          else let s1 = (if hidden_beacon_bss b = None then free_ies (beacon_ies b) s else s);
                   s2 = free_ies (proberesp_ies b) s1
               in Some (s2\<lparr>hidden_rings := ring_del p (hidden_rings s2), bss_heap := (bss_heap s2)(p := None)\<rparr>))"

definition count_ref :: "int \<Rightarrow> nat \<Rightarrow> bss_table \<Rightarrow> bss_table option" where
  "count_ref d p s = upd_bss p (\<lambda>b. b\<lparr>bss_refcount := bss_refcount b + d\<rparr>) s"

definition drop_ref :: "nat \<Rightarrow> bss_table \<Rightarrow> bss_table option" where
  "drop_ref p s =
     (case count_ref (- 1) p s of
        None \<Rightarrow> None
      | Some s1 \<Rightarrow>
          (case bss_heap s1 p of
             None \<Rightarrow> None
           | Some b \<Rightarrow> if bss_refcount b = 0 then bss_free p s1 else Some s1))"

text \<open>The second test looks at the entry the variable points to by then.\<close>

definition bss_ref_get :: "nat \<Rightarrow> bss_table \<Rightarrow> bss_table option" where
  "bss_ref_get p s =
     (case count_ref 1 p s of
        None \<Rightarrow> None
      | Some s1 \<Rightarrow>
          let h = (case bss_heap s1 p of None \<Rightarrow> None | Some b \<Rightarrow> hidden_beacon_bss b);
              q = (case h of None \<Rightarrow> p | Some q \<Rightarrow> q)
          in case (if h = None then Some s1 else count_ref 1 q s1) of
               None \<Rightarrow> None
             | Some s2 \<Rightarrow>
                 (case bss_heap s2 q of
                    None \<Rightarrow> None
                  | Some b \<Rightarrow> (case transmitted_bss b of None \<Rightarrow> Some s2 | Some t \<Rightarrow> count_ref 1 t s2)))"

definition drop_opt :: "nat option \<Rightarrow> bss_table \<Rightarrow> bss_table option" where
  "drop_opt p s = (case p of None \<Rightarrow> Some s | Some q \<Rightarrow> drop_ref q s)"

definition bss_ref_put :: "nat \<Rightarrow> bss_table \<Rightarrow> bss_table option" where
  "bss_ref_put p s =
     (case bss_heap s p of
        None \<Rightarrow> None
      | Some b \<Rightarrow>
          (case drop_opt (hidden_beacon_bss b) s of
             None \<Rightarrow> None
           | Some s1 \<Rightarrow>
               (case bss_heap s1 p of
                  None \<Rightarrow> None
                | Some b1 \<Rightarrow>
                    (case drop_opt (transmitted_bss b1) s1 of
                       None \<Rightarrow> None
                     | Some s2 \<Rightarrow> drop_ref p s2))))"

text \<open>The removal from the table, if it is allowed.\<close>

definition unlink_bss :: "nat \<Rightarrow> bss_table \<Rightarrow> (bool \<times> bss_table) option" where
  "unlink_bss p s =
     (case bss_heap s p of
        None \<Rightarrow> None
      | Some b \<Rightarrow>
          if in_ring p (hidden_rings s) \<and> hidden_beacon_bss b = None then Some (False, s)
          else (case rb_erase p (bss_tree s) of
                  None \<Rightarrow> None
                | Some t \<Rightarrow>
                    map_option (Pair True) (bss_ref_put p (s\<lparr>hidden_rings := ring_del p (hidden_rings s),
                      bss_list := remove1 p (bss_list s), nontrans_rings := ring_del p (nontrans_rings s), bss_tree := t,
                      bss_entries := bss_entries s - 1\<rparr>))))"

definition count_hold :: "int \<Rightarrow> nat \<Rightarrow> bss_table \<Rightarrow> bss_table option" where
  "count_hold d p s =
     (case upd_bss p (\<lambda>b. b\<lparr>bss_hold := bss_hold b + d\<rparr>) s of
        None \<Rightarrow> None
      | Some s1 \<Rightarrow>
          (case bss_heap s1 p of
             None \<Rightarrow> None
           | Some b \<Rightarrow> (case transmitted_bss b of
               None \<Rightarrow> Some s1
             | Some t \<Rightarrow> upd_bss t (\<lambda>b. b\<lparr>bss_hold := bss_hold b + d\<rparr>) s1)))"

definition cfg80211_hold_bss :: "nat \<Rightarrow> bss_table \<Rightarrow> bss_table option" where "cfg80211_hold_bss p s = count_hold 1 p s"
definition cfg80211_unhold_bss :: "nat \<Rightarrow> bss_table \<Rightarrow> bss_table option" where "cfg80211_unhold_bss p s = count_hold (- 1) p s"

definition cfg80211_ref_bss :: "nat option \<Rightarrow> bss_table \<Rightarrow> bss_table option" where
  "cfg80211_ref_bss pub s = (case pub of None \<Rightarrow> Some s | Some p \<Rightarrow> bss_ref_get p s)"

definition cfg80211_put_bss :: "nat option \<Rightarrow> bss_table \<Rightarrow> bss_table option" where
  "cfg80211_put_bss pub s = (case pub of None \<Rightarrow> Some s | Some p \<Rightarrow> bss_ref_put p s)"

text \<open>One removal, counted in the generation.\<close>

definition unlink_count :: "nat \<Rightarrow> bss_table \<Rightarrow> bss_table option" where
  "unlink_count p s =
     (case unlink_bss p s of
        None \<Rightarrow> None
      | Some (done, s1) \<Rightarrow> Some (if done then s1\<lparr>bss_generation := bss_generation s1 + 1\<rparr> else s1))"

fun unlink_each :: "nat list \<Rightarrow> bss_table \<Rightarrow> bss_table option" where
  "unlink_each [] s = Some s"
| "unlink_each (p # ps) s = (case unlink_count p s of None \<Rightarrow> None | Some s1 \<Rightarrow> unlink_each ps s1)"

definition cfg80211_unlink_bss :: "nat \<Rightarrow> bss_table \<Rightarrow> bss_table option" where
  "cfg80211_unlink_bss p s =
     (if bss_heap s p = None then None
      else if p \<notin> set (bss_list s) then Some s
      else case unlink_each (ring_others p (nontrans_rings s)) s of None \<Rightarrow> None | Some s1 \<Rightarrow> unlink_count p s1)"

section \<open>Age\<close>

fun expire_loop :: "u64 \<Rightarrow> nat list \<Rightarrow> bool \<Rightarrow> bss_table \<Rightarrow> (bool \<times> bss_table) option" where
  "expire_loop expire_time [] expired s = Some (expired, s)"
| "expire_loop expire_time (p # ps) expired s =
     (case bss_heap s p of
        None \<Rightarrow> None
      | Some b \<Rightarrow>
          if bss_hold b \<noteq> 0 \<or> \<not> time_after expire_time (bss_ts b) then expire_loop expire_time ps expired s
          else (case unlink_bss p s of
                  None \<Rightarrow> None
                | Some (done, s1) \<Rightarrow> expire_loop expire_time ps (expired \<or> done) s1))"

definition bss_expire :: "u64 \<Rightarrow> bss_table \<Rightarrow> bss_table option" where
  "bss_expire expire_time s =
     map_option (\<lambda>(expired, s1). if expired then s1\<lparr>bss_generation := bss_generation s1 + 1\<rparr> else s1)
       (expire_loop expire_time (bss_list s) False s)"

definition cfg80211_bss_expire :: "bss_table \<Rightarrow> bss_table option" where
  "cfg80211_bss_expire s = bss_expire (jiffies - IEEE80211_SCAN_RESULT_EXPIRE) s"

text \<open>The oldest entry that may be removed.\<close>

fun oldest_loop :: "bss_table \<Rightarrow> nat list \<Rightarrow> (nat \<times> u64) option \<Rightarrow> (nat \<times> u64) option option" where
  "oldest_loop s [] oldest = Some oldest"
| "oldest_loop s (p # ps) oldest =
     (case bss_heap s p of
        None \<Rightarrow> None
      | Some b \<Rightarrow>
          if bss_hold b \<noteq> 0 \<or> in_ring p (hidden_rings s) \<and> hidden_beacon_bss b = None \<or>
             (case oldest of None \<Rightarrow> False | Some (_, ts) \<Rightarrow> time_before ts (bss_ts b))
          then oldest_loop s ps oldest
          else oldest_loop s ps (Some (p, bss_ts b)))"

definition bss_expire_oldest :: "bss_table \<Rightarrow> (bool \<times> bss_table) option" where
  "bss_expire_oldest s =
     (case oldest_loop s (bss_list s) None of
        None \<Rightarrow> None
      | Some None \<Rightarrow> Some (False, s)
      | Some (Some (p, _)) \<Rightarrow> unlink_bss p s)"

fun age_loop :: "u64 \<Rightarrow> nat list \<Rightarrow> bss_table \<Rightarrow> bss_table option" where
  "age_loop a [] s = Some s"
| "age_loop a (p # ps) s =
     (case upd_bss p (\<lambda>b. b\<lparr>bss_ts := bss_ts b - a\<rparr>) s of None \<Rightarrow> None | Some s1 \<Rightarrow> age_loop a ps s1)"

definition cfg80211_bss_age :: "u64 \<Rightarrow> bss_table \<Rightarrow> bss_table option" where
  "cfg80211_bss_age age_secs s = age_loop (msecs_to_jiffies (ucast (age_secs * 1000))) (bss_list s) s"

section \<open>Comparison\<close>

datatype bss_compare_mode = BSS_CMP_REGULAR | BSS_CMP_HIDE_ZLEN | BSS_CMP_HIDE_NUL

text \<open>First by length, the longer one first, then by content.\<close>

definition cmp_data :: "bytes \<Rightarrow> bytes \<Rightarrow> int" where
  "cmp_data d1 d2 = (if length d1 \<noteq> length d2 then int (length d2) - int (length d1) else byte_compare d1 d2)"

definition cmp_ssid :: "bss_compare_mode \<Rightarrow> bytes option \<Rightarrow> bytes option \<Rightarrow> int" where
  "cmp_ssid mode ie1 ie2 =
     (case (ie1, ie2) of
        (None, None) \<Rightarrow> 0
      | (None, Some d2) \<Rightarrow> - 1
      | (Some d1, None) \<Rightarrow> 1
      | (Some d1, Some d2) \<Rightarrow>
          (case mode of
             BSS_CMP_HIDE_ZLEN \<Rightarrow> int (length d2)
           | BSS_CMP_REGULAR \<Rightarrow> cmp_data d1 d2
           | BSS_CMP_HIDE_NUL \<Rightarrow>
               if length d1 \<noteq> length d2 then int (length d2) - int (length d1)
               else if list_ex (\<lambda>x. x \<noteq> 0) d2 then - 1 else 0))"

text \<open>The part for two mesh networks; \<open>None\<close> when it does not decide.\<close>

definition cmp_mesh :: "bss_entry \<Rightarrow> bss_entry \<Rightarrow> bytes \<Rightarrow> bytes \<Rightarrow> int option" where
  "cmp_mesh a b a_data b_data =
     (let mesh = (\<lambda>x eid data. if WLAN_CAPABILITY_IS_STA_BSS (bss_capability x) then cfg80211_find_ie eid data else None)
      in case (mesh a WLAN_EID_MESH_ID a_data, mesh b WLAN_EID_MESH_ID b_data) of
           (Some id1, Some id2) \<Rightarrow>
             (case (cfg80211_find_ie WLAN_EID_MESH_CONFIG a_data, cfg80211_find_ie WLAN_EID_MESH_CONFIG b_data) of
                (Some c1, Some c2) \<Rightarrow> Some (if cmp_data id1 id2 \<noteq> 0 then cmp_data id1 id2 else cmp_data c1 c2)
              | _ \<Rightarrow> None)
         | _ \<Rightarrow> None)"

definition cmp_bss :: "bss_entry \<Rightarrow> bss_entry \<Rightarrow> bss_compare_mode \<Rightarrow> int" where
  "cmp_bss a b mode =
     (if chan_ptr (bss_channel a) \<noteq> chan_ptr (bss_channel b)
      then sint (center_freq (bss_channel b) - center_freq (bss_channel a))
      else case (bss_ies a, bss_ies b) of
             (None, _) \<Rightarrow> - 1
           | (Some _, None) \<Rightarrow> 1
           | (Some a_ies, Some b_ies) \<Rightarrow>
               (case cmp_mesh a b (ies_data a_ies) (ies_data b_ies) of
                  Some r \<Rightarrow> r
                | None \<Rightarrow>
                    let r = byte_compare (bssid a) (bssid b)
                    in if r \<noteq> 0 then r
                       else cmp_ssid mode (cfg80211_find_ie WLAN_EID_SSID (ies_data a_ies))
                              (cfg80211_find_ie WLAN_EID_SSID (ies_data b_ies))))"

text \<open>The descent of \<open>rb_find_bss\<close> and \<open>rb_insert_bss\<close>.\<close>

fun bss_descend :: "bss_entry \<Rightarrow> bss_compare_mode \<Rightarrow> bss_table \<Rightarrow> nat rbtree \<Rightarrow> nat rb_up list \<Rightarrow> (nat option \<times> nat rb_up list) option" where
  "bss_descend res mode s RbNull up = Some (None, up)"
| "bss_descend res mode s (RbNode c l p r) up =
     (case bss_heap s p of
        None \<Rightarrow> None
      | Some b \<Rightarrow>
          let d = cmp_bss res b mode
          in if d = 0 then Some (Some p, up)
             else if d < 0 then bss_descend res mode s l (RbLeft c p r # up)
             else bss_descend res mode s r (RbRight c l p # up))"

definition rb_find_bss :: "bss_entry \<Rightarrow> bss_compare_mode \<Rightarrow> bss_table \<Rightarrow> nat option option" where
  "rb_find_bss res mode s = map_option fst (bss_descend res mode s (bss_tree s) [])"

text \<open>An entry equal to one of the tree is not linked.\<close>

definition rb_insert_bss :: "nat \<Rightarrow> bss_table \<Rightarrow> bss_table option" where
  "rb_insert_bss p s =
     (case bss_heap s p of
        None \<Rightarrow> None
      | Some b \<Rightarrow>
          (case bss_descend b BSS_CMP_REGULAR s (bss_tree s) [] of
             None \<Rightarrow> None
           | Some (Some _, _) \<Rightarrow> Some s
           | Some (None, up) \<Rightarrow> map_option (\<lambda>t. s\<lparr>bss_tree := t\<rparr>) (rb_insert_color p up)))"

section \<open>Lookup\<close>

datatype ieee80211_bss_type =
    IEEE80211_BSS_TYPE_ESS | IEEE80211_BSS_TYPE_PBSS | IEEE80211_BSS_TYPE_IBSS | IEEE80211_BSS_TYPE_MBSS | IEEE80211_BSS_TYPE_ANY

datatype ieee80211_privacy = IEEE80211_PRIVACY_ON | IEEE80211_PRIVACY_OFF | IEEE80211_PRIVACY_ANY

definition cfg80211_bss_type_match :: "u16 \<Rightarrow> nl80211_band \<Rightarrow> ieee80211_bss_type \<Rightarrow> bool" where
  "cfg80211_bss_type_match capability band bss_type =
     (if bss_type = IEEE80211_BSS_TYPE_ANY then True
      else if band = NL80211_BAND_60GHZ
      then (case bss_type of
              IEEE80211_BSS_TYPE_ESS \<Rightarrow> capability AND WLAN_CAPABILITY_DMG_TYPE_MASK = WLAN_CAPABILITY_DMG_TYPE_AP
            | IEEE80211_BSS_TYPE_PBSS \<Rightarrow> capability AND WLAN_CAPABILITY_DMG_TYPE_MASK = WLAN_CAPABILITY_DMG_TYPE_PBSS
            | IEEE80211_BSS_TYPE_IBSS \<Rightarrow> capability AND WLAN_CAPABILITY_DMG_TYPE_MASK = WLAN_CAPABILITY_DMG_TYPE_IBSS
            | _ \<Rightarrow> False)
      else let m = capability AND (WLAN_CAPABILITY_ESS OR WLAN_CAPABILITY_IBSS)
      in case bss_type of
           IEEE80211_BSS_TYPE_ESS \<Rightarrow> m = WLAN_CAPABILITY_ESS
         | IEEE80211_BSS_TYPE_IBSS \<Rightarrow> m = WLAN_CAPABILITY_IBSS
         | IEEE80211_BSS_TYPE_MBSS \<Rightarrow> m = 0
         | _ \<Rightarrow> False)"

definition is_valid_ether_addr :: "bytes \<Rightarrow> bool" where
  "is_valid_ether_addr addr \<longleftrightarrow> hd addr AND 1 = 0 \<and> list_ex (\<lambda>x. x \<noteq> 0) addr"

definition is_bss :: "bss_entry \<Rightarrow> bytes option \<Rightarrow> bytes option \<Rightarrow> bool" where
  "is_bss a addr ssid \<longleftrightarrow>
     (case addr of None \<Rightarrow> True | Some x \<Rightarrow> bssid a = x) \<and>
     (case ssid of
        None \<Rightarrow> True
      | Some d \<Rightarrow> (case bss_ies a of None \<Rightarrow> False | Some i \<Rightarrow> cfg80211_find_ie WLAN_EID_SSID (ies_data i) = Some d))"

definition bss_wanted :: "nat option \<Rightarrow> bytes option \<Rightarrow> bytes option \<Rightarrow> ieee80211_bss_type \<Rightarrow> ieee80211_privacy \<Rightarrow> bss_entry \<Rightarrow> bool" where
  "bss_wanted channel addr ssid bss_type privacy b \<longleftrightarrow>
     cfg80211_bss_type_match (bss_capability b) (chan_band (bss_channel b)) bss_type \<and>
     \<not> (privacy = IEEE80211_PRIVACY_ON \<and> bss_capability b AND WLAN_CAPABILITY_PRIVACY = 0 \<or>
        privacy = IEEE80211_PRIVACY_OFF \<and> bss_capability b AND WLAN_CAPABILITY_PRIVACY \<noteq> 0) \<and>
     (case channel of None \<Rightarrow> True | Some c \<Rightarrow> chan_ptr (bss_channel b) = c) \<and>
     is_valid_ether_addr (bssid b) \<and>
     \<not> (time_after jiffies (bss_ts b + IEEE80211_SCAN_RESULT_EXPIRE) \<and> bss_hold b = 0) \<and>
     is_bss b addr ssid"

fun get_bss_loop :: "(bss_entry \<Rightarrow> bool) \<Rightarrow> nat list \<Rightarrow> bss_table \<Rightarrow> nat option option" where
  "get_bss_loop P [] s = Some None"
| "get_bss_loop P (p # ps) s =
     (case bss_heap s p of None \<Rightarrow> None | Some b \<Rightarrow> if P b then Some (Some p) else get_bss_loop P ps s)"

definition cfg80211_get_bss ::
  "nat option \<Rightarrow> bytes option \<Rightarrow> bytes option \<Rightarrow> ieee80211_bss_type \<Rightarrow> ieee80211_privacy \<Rightarrow> bss_table \<Rightarrow> (nat option \<times> bss_table) option" where
  "cfg80211_get_bss channel addr ssid bss_type privacy s =
     (case get_bss_loop (bss_wanted channel addr ssid bss_type privacy) (bss_list s) s of
        None \<Rightarrow> None
      | Some None \<Rightarrow> Some (None, s)
      | Some (Some p) \<Rightarrow> map_option (Pair (Some p)) (bss_ref_get p s))"

section \<open>Update\<close>

text \<open>Whether a stored probe response belongs to the beacon of entry \<open>new\<close>, whose hidden name has \<open>ssidlen\<close> bytes.\<close>

definition combines :: "bss_entry \<Rightarrow> nat \<Rightarrow> bss_entry \<Rightarrow> bool" where
  "combines new ssidlen b \<longleftrightarrow>
     bssid b = bssid new \<and> chan_ptr (bss_channel b) = chan_ptr (bss_channel new) \<and> scan_width b = scan_width new \<and>
     beacon_ies b = None \<and>
     (case bss_ies b of
        None \<Rightarrow> False
      | Some i \<Rightarrow> (case cfg80211_find_ie WLAN_EID_SSID (ies_data i) of None \<Rightarrow> False | Some d \<Rightarrow> ssidlen = 0 \<or> length d = ssidlen)) \<and>
     hidden_beacon_bss b = None"

definition combine_one :: "nat \<Rightarrow> nat \<Rightarrow> bss_table \<Rightarrow> bss_table option" where
  "combine_one n p s =
     (case (bss_heap s p, bss_heap s n) of
        (Some b, Some new) \<Rightarrow>
          let s1 = s\<lparr>hidden_rings := ring_add n p (ring_del p (hidden_rings s))\<rparr>
          in (case upd_bss p (\<lambda>b. b\<lparr>hidden_beacon_bss := Some n, beacon_ies := beacon_ies new\<rparr>) s1 of
                None \<Rightarrow> None
              | Some s2 \<Rightarrow> count_ref (bss_refcount b) n s2)
      | _ \<Rightarrow> None)"

fun combine_loop :: "nat \<Rightarrow> nat \<Rightarrow> nat list \<Rightarrow> bss_table \<Rightarrow> bss_table option" where
  "combine_loop n ssidlen [] s = Some s"
| "combine_loop n ssidlen (p # ps) s =
     (case (bss_heap s p, bss_heap s n) of
        (Some b, Some new) \<Rightarrow>
          if combines new ssidlen b
          then (case combine_one n p s of None \<Rightarrow> None | Some s1 \<Rightarrow> combine_loop n ssidlen ps s1)
          else combine_loop n ssidlen ps s
      | _ \<Rightarrow> None)"

definition combine_bsses :: "nat \<Rightarrow> bss_table \<Rightarrow> (bool \<times> bss_table) option" where
  "combine_bsses n s =
     (case bss_heap s n of
        None \<Rightarrow> None
      | Some new \<Rightarrow>
          (case beacon_ies new of
             None \<Rightarrow> Some (False, s)
           | Some i \<Rightarrow>
               (case cfg80211_find_ie WLAN_EID_SSID (ies_data i) of
                  None \<Rightarrow> Some (True, s)
                | Some d \<Rightarrow>
                    if list_ex (\<lambda>x. x \<noteq> 0) d then Some (True, s)
                    else map_option (Pair True) (combine_loop n (length d) (bss_list s) s))))"

definition same_ies :: "bss_ies option \<Rightarrow> bss_ies option \<Rightarrow> bool" where
  "same_ies a b \<longleftrightarrow> map_option ies_ptr a = map_option ies_ptr b"

text \<open>The fields that every frame updates.\<close>

definition update_fields :: "bss_entry \<Rightarrow> bool \<Rightarrow> bss_entry \<Rightarrow> bss_entry" where
  "update_fields new signal_valid b =
     b\<lparr>bss_beacon_interval := bss_beacon_interval new,
       bss_signal := (if signal_valid then bss_signal new else bss_signal b),
       bss_capability := bss_capability new, bss_ts := bss_ts new, ts_boottime := ts_boottime new, parent_tsf := parent_tsf new,
       bss_chains := bss_chains new, chain_signal := chain_signal new, parent_bssid := parent_bssid new,
       max_bssid_indicator := max_bssid_indicator new, bssid_index := bssid_index new\<rparr>"

fun set_beacons :: "bss_ies option \<Rightarrow> nat list \<Rightarrow> bss_table \<Rightarrow> bss_table option" where
  "set_beacons i [] s = Some s"
| "set_beacons i (p # ps) s =
     (case upd_bss p (\<lambda>b. b\<lparr>beacon_ies := i\<rparr>) s of None \<Rightarrow> None | Some s1 \<Rightarrow> set_beacons i ps s1)"

definition update_known_bss :: "nat \<Rightarrow> bss_entry \<Rightarrow> bool \<Rightarrow> bss_table \<Rightarrow> (bool \<times> bss_table) option" where
  "update_known_bss k new signal_valid s =
     (case bss_heap s k of
        None \<Rightarrow> None
      | Some known \<Rightarrow>
          if proberesp_ies new \<noteq> None
          then map_option (\<lambda>s1. (True, free_ies (proberesp_ies known) s1))
                 (upd_bss k (\<lambda>b. update_fields new signal_valid (b\<lparr>proberesp_ies := proberesp_ies new, bss_ies := proberesp_ies new\<rparr>)) s)
          else if beacon_ies new \<noteq> None
          then (if hidden_beacon_bss known \<noteq> None \<and> in_ring k (hidden_rings s)
                then Some (False, free_ies (beacon_ies new) s)
                else let old = beacon_ies known
                in case upd_bss k (\<lambda>b. b\<lparr>beacon_ies := beacon_ies new,
                          bss_ies := (if same_ies old (bss_ies b) then beacon_ies new else bss_ies b)\<rparr>) s of
                     None \<Rightarrow> None
                   | Some s1 \<Rightarrow>
                       (case set_beacons (beacon_ies new) (ring_others k (hidden_rings s1)) s1 of
                          None \<Rightarrow> None
                        | Some s2 \<Rightarrow> map_option (Pair True) (upd_bss k (update_fields new signal_valid) (free_ies old s2))))
          else map_option (Pair True) (upd_bss k (update_fields new signal_valid) s))"

text \<open>The group of a new probe response.\<close>

definition find_hidden :: "bss_entry \<Rightarrow> bss_table \<Rightarrow> nat option option" where
  "find_hidden tmp s =
     (case rb_find_bss tmp BSS_CMP_HIDE_ZLEN s of
        None \<Rightarrow> None
      | Some (Some h) \<Rightarrow> Some (Some h)
      | Some None \<Rightarrow> rb_find_bss tmp BSS_CMP_HIDE_NUL s)"

definition join_hidden :: "nat \<Rightarrow> bss_entry \<Rightarrow> bss_table \<Rightarrow> (bool \<times> bss_table) option" where
  "join_hidden n tmp s =
     (if proberesp_ies tmp \<noteq> None
      then (case find_hidden tmp s of
              None \<Rightarrow> None
            | Some None \<Rightarrow> Some (True, s)
            | Some (Some h) \<Rightarrow>
                (case bss_heap s h of
                   None \<Rightarrow> None
                 | Some hb \<Rightarrow>
                     (case upd_bss n (\<lambda>b. b\<lparr>hidden_beacon_bss := Some h, beacon_ies := beacon_ies hb\<rparr>)
                              (s\<lparr>hidden_rings := ring_add h n (hidden_rings s)\<rparr>) of
                        None \<Rightarrow> None
                      | Some s1 \<Rightarrow> map_option (Pair True) (count_ref 1 h s1))))
      else combine_bsses n s)"

text \<open>
  A new entry; \<open>None\<close> as the first component when the table is full and nothing can be removed: the copy is
  freed as it is.
\<close>

definition new_bss :: "bss_entry \<Rightarrow> bss_table \<Rightarrow> (nat option \<times> bss_table) option" where
  "new_bss tmp s =
     (let n = bss_fresh s;
          s0 = s\<lparr>bss_fresh := n + 1, bss_heap := (bss_heap s)(n \<mapsto> tmp\<lparr>bss_refcount := 1\<rparr>)\<rparr>
      in case join_hidden n tmp s0 of
           None \<Rightarrow> None
         | Some (False, s1) \<Rightarrow> Some (None, s1\<lparr>bss_heap := (bss_heap s1)(n := None)\<rparr>)
         | Some (True, s1) \<Rightarrow>
             (case (if bss_entries_limit \<le> bss_entries s1 then bss_expire_oldest s1 else Some (True, s1)) of
                None \<Rightarrow> None
              | Some (False, s2) \<Rightarrow> Some (None, s2\<lparr>bss_heap := (bss_heap s2)(n := None)\<rparr>)
              | Some (True, s2) \<Rightarrow>
                  (case (case transmitted_bss tmp of None \<Rightarrow> Some s2 | Some t \<Rightarrow> bss_ref_get t s2) of
                     None \<Rightarrow> None
                   | Some s3 \<Rightarrow>
                       map_option (Pair (Some n))
                         (rb_insert_bss n (s3\<lparr>bss_list := bss_list s3 @ [n], bss_entries := bss_entries s3 + 1\<rparr>)))))"

definition cfg80211_bss_update :: "bool \<Rightarrow> bss_entry \<Rightarrow> bool \<Rightarrow> u64 \<Rightarrow> bss_table \<Rightarrow> (nat option \<times> bss_table) option" where
  "cfg80211_bss_update kzalloc_ok tmp0 signal_valid ts s =
     (let tmp = tmp0\<lparr>bss_ts := ts\<rparr>
      in if bss_ies tmp = None then Some (None, s)
         else case rb_find_bss tmp BSS_CMP_REGULAR s of
                None \<Rightarrow> None
              | Some found \<Rightarrow>
                  (case (case found of
                           Some k \<Rightarrow>
                             (case update_known_bss k tmp signal_valid s of
                                None \<Rightarrow> None
                              | Some (ok, s1) \<Rightarrow> Some (if ok then Some k else None, s1))
                         | None \<Rightarrow>
                             if kzalloc_ok then new_bss tmp s
                             else Some (None, free_ies (proberesp_ies tmp) (free_ies (beacon_ies tmp) s))) of
                     None \<Rightarrow> None
                   | Some (None, s1) \<Rightarrow> Some (None, s1)
                   | Some (Some p, s1) \<Rightarrow>
                       map_option (Pair (Some p)) (bss_ref_get p (s1\<lparr>bss_generation := bss_generation s1 + 1\<rparr>))))"

section \<open>Frames received\<close>

text \<open>The channel a frame was sent on, from its elements.\<close>

definition ie_channel_number :: "bytes \<Rightarrow> int option" where
  "ie_channel_number ies =
     (case cfg80211_find_ie WLAN_EID_DS_PARAMS ies of
        Some [c] \<Rightarrow> Some (uint c)
      | _ \<Rightarrow>
          (case cfg80211_find_ie WLAN_EID_HT_OPERATION ies of
             None \<Rightarrow> None
           | Some d \<Rightarrow> if 22 \<le> length d then Some (uint (hd d)) else None))"

definition cfg80211_get_bss_channel ::
  "bands \<Rightarrow> bytes \<Rightarrow> ieee80211_channel \<Rightarrow> nl80211_bss_scan_width \<Rightarrow> ieee80211_channel option" where
  "cfg80211_get_bss_channel bs ies channel swidth =
     (case ie_channel_number ies of
        None \<Rightarrow> Some channel
      | Some num \<Rightarrow>
          (case ieee80211_get_channel bs (of_int (ieee80211_channel_to_frequency num (chan_band channel))) of
             None \<Rightarrow> if chan_band channel = NL80211_BAND_2GHZ then None else Some channel
           | Some alt \<Rightarrow>
               if swidth = NL80211_BSS_CHAN_WIDTH_10 \<or> swidth = NL80211_BSS_CHAN_WIDTH_5 then Some channel
               else if chan_flags alt AND IEEE80211_CHAN_DISABLED \<noteq> 0 then None
               else Some alt))"

datatype cfg80211_bss_frame_type = CFG80211_BSS_FTYPE_UNKNOWN | CFG80211_BSS_FTYPE_BEACON | CFG80211_BSS_FTYPE_PRESP

text \<open>\<open>None\<close> when the member is linked into a ring of others: both would be corrupted.\<close>

definition cfg80211_add_nontrans_list :: "nat \<Rightarrow> nat \<Rightarrow> bss_table \<Rightarrow> (bool \<times> bss_table) option" where
  "cfg80211_add_nontrans_list tx p s =
     (case bss_heap s p of
        None \<Rightarrow> None
      | Some b \<Rightarrow>
          (case (case bss_ies b of None \<Rightarrow> None | Some i \<Rightarrow> cfg80211_find_ie WLAN_EID_SSID (ies_data i)) of
             None \<Rightarrow> Some (False, s)
           | Some ssid \<Rightarrow>
               let others = map (bss_heap s) (ring_others tx (nontrans_rings s))
               in if None \<in> set others then None
                  else if list_ex (\<lambda>x. case x of None \<Rightarrow> False | Some y \<Rightarrow> is_bss y (Some (bssid b)) (Some ssid)) others
                  then Some (True, s)
                  else if in_ring p (nontrans_rings s) then None
                  else Some (True, s\<lparr>nontrans_rings := ring_add_tail tx p (nontrans_rings s)\<rparr>)))"

record inform_bss =
  inf_chan :: ieee80211_channel
  inf_scan_width :: nl80211_bss_scan_width
  inf_signal :: int
  inf_boottime :: u64

text \<open>The members of a set of networks: the transmitting entry, the largest index and the index of this one.\<close>

record non_tx_bss =
  tx_bss :: nat
  nt_max_indicator :: u8
  nt_index :: u8

definition inform_entry ::
  "ieee80211_channel \<Rightarrow> inform_bss \<Rightarrow> cfg80211_bss_frame_type \<Rightarrow> bytes \<Rightarrow> u16 \<Rightarrow> u16 \<Rightarrow> bss_ies \<Rightarrow> non_tx_bss option \<Rightarrow> bss_entry" where
  "inform_entry channel dat ftype addr capability interval i non_tx =
     \<lparr>bss_channel = channel, scan_width = inf_scan_width dat, bss_ies = Some i,
      beacon_ies = (if ftype = CFG80211_BSS_FTYPE_PRESP then None else Some i),
      proberesp_ies = (if ftype = CFG80211_BSS_FTYPE_PRESP then Some i else None), hidden_beacon_bss = None,
      transmitted_bss = map_option tx_bss non_tx, bss_signal = inf_signal dat, bss_beacon_interval = interval,
      bss_capability = capability, bssid = addr, bss_chains = 0, chain_signal = [0, 0, 0, 0],
      bssid_index = (case non_tx of None \<Rightarrow> 0 | Some nt \<Rightarrow> nt_index nt),
      max_bssid_indicator = (case non_tx of None \<Rightarrow> 0 | Some nt \<Rightarrow> nt_max_indicator nt),
      ts_boottime = inf_boottime dat, bss_ts = 0, bss_refcount = 0, bss_hold = 0, parent_tsf = 0,
      parent_bssid = [0, 0, 0, 0, 0, 0]\<rparr>"

text \<open>
  The hint to the regulatory core about a beacon is left out. \<open>unspec\<close>: the signal has no unit; \<open>max_adj\<close>: the distance up to
  which the signal of another channel counts.
\<close>

definition inform_single_bss_data ::
  "bool \<Rightarrow> bool \<Rightarrow> bool \<Rightarrow> u8 \<Rightarrow> bands \<Rightarrow> inform_bss \<Rightarrow> cfg80211_bss_frame_type \<Rightarrow> bytes \<Rightarrow> u64 \<Rightarrow> u16 \<Rightarrow> u16 \<Rightarrow> bytes \<Rightarrow>
   non_tx_bss option \<Rightarrow> bss_table \<Rightarrow> (nat option \<times> bss_table) option" where
  "inform_single_bss_data ies_ok kzalloc_ok unspec max_adj bs dat ftype addr tsf capability interval ies non_tx s =
     (if unspec \<and> (inf_signal dat < 0 \<or> 100 < inf_signal dat) then Some (None, s)
      else case cfg80211_get_bss_channel bs ies (inf_chan dat) (inf_scan_width dat) of
             None \<Rightarrow> Some (None, s)
           | Some channel \<Rightarrow>
      case (case non_tx of None \<Rightarrow> Some jiffies | Some nt \<Rightarrow> map_option bss_ts (bss_heap s (tx_bss nt))) of
        None \<Rightarrow> None
      | Some ts \<Rightarrow>
      if \<not> ies_ok then Some (None, s)
      else let i = \<lparr>ies_ptr = ies_fresh s, ies_tsf = tsf, from_beacon = (ftype = CFG80211_BSS_FTYPE_BEACON), ies_data = ies\<rparr>;
               tmp = inform_entry channel dat ftype addr capability interval i non_tx;
               signal_valid = (abs (sint (center_freq (inf_chan dat) - center_freq channel)) \<le> uint max_adj)
           in case cfg80211_bss_update kzalloc_ok tmp signal_valid ts (s\<lparr>ies_fresh := ies_fresh s + 1\<rparr>) of
                None \<Rightarrow> None
              | Some (None, s1) \<Rightarrow> Some (None, s1)
              | Some (Some p, s1) \<Rightarrow>
                  (case non_tx of
                     None \<Rightarrow> Some (Some p, s1)
                   | Some nt \<Rightarrow>
                       (case cfg80211_add_nontrans_list (tx_bss nt) p s1 of
                          None \<Rightarrow> None
                        | Some (True, s2) \<Rightarrow> Some (Some p, s2)
                        | Some (False, s2) \<Rightarrow> map_option (Pair (Some p)) (unlink_count p s2))))"

end
