(* ===== verification/Rbtree_Props.thy ===== *)
theory Rbtree_Props
  imports Rbtree
begin

text \<open>
  Insertion into and removal from a red-black tree never use a null pointer, keep the order of the other elements, and
  give a red-black tree again; so its height stays logarithmic.
\<close>

section \<open>The sequence of the elements\<close>

fun rb_inorder :: "'a rbtree \<Rightarrow> 'a list" where
  "rb_inorder RbNull = []"
| "rb_inorder (RbNode c l x r) = rb_inorder l @ x # rb_inorder r"

fun rb_before :: "'a rb_up list \<Rightarrow> 'a list" where
  "rb_before [] = []"
| "rb_before (RbLeft c x r # up) = rb_before up"
| "rb_before (RbRight c l x # up) = rb_before up @ rb_inorder l @ [x]"

fun rb_after :: "'a rb_up list \<Rightarrow> 'a list" where
  "rb_after [] = []"
| "rb_after (RbLeft c x r # up) = x # rb_inorder r @ rb_after up"
| "rb_after (RbRight c l x # up) = rb_after up"

lemma inorder_plug [simp]: "rb_inorder (rb_plug t up) = rb_before up @ rb_inorder t @ rb_after up"
  by (induction t up rule: rb_plug.induct) simp_all

lemma inorder_color [simp]: "rb_inorder (rb_set_color c t) = rb_inorder t"
  by (cases t) simp_all

lemma plug_append: "rb_plug t (a @ b) = rb_plug (rb_plug t a) b"
  by (induction t a rule: rb_plug.induct) simp_all

section \<open>Colours and heights\<close>

text \<open>Black height \<open>h\<close>, and no red node below a red node.\<close>

fun rb_shape :: "nat \<Rightarrow> 'a rbtree \<Rightarrow> bool" where
  "rb_shape h RbNull \<longleftrightarrow> h = 0"
| "rb_shape h (RbNode RB_RED l x r) \<longleftrightarrow> rb_shape h l \<and> rb_shape h r \<and> \<not> rb_is_red l \<and> \<not> rb_is_red r"
| "rb_shape h (RbNode RB_BLACK l x r) \<longleftrightarrow> (\<exists>k. h = Suc k \<and> rb_shape k l \<and> rb_shape k r)"

definition rb_tree :: "'a rbtree \<Rightarrow> bool" where
  "rb_tree t \<longleftrightarrow> \<not> rb_is_red t \<and> (\<exists>h. rb_shape h t)"

text \<open>A position that takes a subtree of black height \<open>h\<close>, red or not.\<close>

fun rb_up_ok :: "nat \<Rightarrow> bool \<Rightarrow> 'a rb_up list \<Rightarrow> bool" where
  "rb_up_ok h red [] \<longleftrightarrow> \<not> red"
| "rb_up_ok h red (RbLeft RB_RED x r # up) \<longleftrightarrow> \<not> red \<and> rb_shape h r \<and> \<not> rb_is_red r \<and> rb_up_ok h True up"
| "rb_up_ok h red (RbLeft RB_BLACK x r # up) \<longleftrightarrow> rb_shape h r \<and> rb_up_ok (Suc h) False up"
| "rb_up_ok h red (RbRight RB_RED l x # up) \<longleftrightarrow> \<not> red \<and> rb_shape h l \<and> \<not> rb_is_red l \<and> rb_up_ok h True up"
| "rb_up_ok h red (RbRight RB_BLACK l x # up) \<longleftrightarrow> rb_shape h l \<and> rb_up_ok (Suc h) False up"

lemma up_ok_black: "rb_up_ok h red up \<Longrightarrow> rb_up_ok h False up"
  by (induction h red up rule: rb_up_ok.induct) simp_all

lemma plug_ok: "rb_up_ok h (rb_is_red t) up \<Longrightarrow> rb_shape h t \<Longrightarrow> rb_tree (rb_plug t up)"
proof (induction t up arbitrary: h rule: rb_plug.induct)
  case (2 t c x r up)
  then show ?case using 2(1) [of h] 2(1) [of "Suc h"] by (cases c) simp_all
next
  case (3 t c l x up)
  then show ?case using 3(1) [of h] 3(1) [of "Suc h"] by (cases c) simp_all
qed (auto simp: rb_tree_def)

lemma plug_ok_any: "rb_up_ok h True up \<Longrightarrow> rb_shape h t \<Longrightarrow> rb_tree (rb_plug t up)"
  by (rule plug_ok) (cases "rb_is_red t", simp_all add: up_ok_black)

lemma ok_black:
  "rb_shape h t \<Longrightarrow> \<not> rb_is_red t \<Longrightarrow> rb_shape h (rb_set_color RB_BLACK t)"
  "rb_shape h t \<Longrightarrow> rb_is_red t \<Longrightarrow> rb_shape (Suc h) (rb_set_color RB_BLACK t)"
  by (cases t rule: rb_is_red.cases; simp)+

lemma not_red_black [simp]: "\<not> rb_is_red (rb_set_color RB_BLACK t)"
  by (cases t) simp_all

lemma black_same: "\<not> rb_is_red t \<Longrightarrow> rb_set_color RB_BLACK t = t"
  by (cases t rule: rb_is_red.cases) simp_all

lemma red_cases:
  assumes "rb_shape h t" "rb_is_red t"
  obtains l x r where "t = RbNode RB_RED l x r" "rb_shape h l" "rb_shape h r" "\<not> rb_is_red l" "\<not> rb_is_red r"
  using assms by (cases t rule: rb_is_red.cases) auto

section \<open>Insertion\<close>

lemma up_cases:
  assumes "rb_up_ok h False (f # up)"
  obtains (lred) x r where "f = RbLeft RB_RED x r" "rb_shape h r" "\<not> rb_is_red r" "rb_up_ok h True up"
  | (lblack) x r where "f = RbLeft RB_BLACK x r" "rb_shape h r" "rb_up_ok (Suc h) False up"
  | (rred) l x where "f = RbRight RB_RED l x" "rb_shape h l" "\<not> rb_is_red l" "rb_up_ok h True up"
  | (rblack) l x where "f = RbRight RB_BLACK l x" "rb_shape h l" "rb_up_ok (Suc h) False up"
  using assms by (cases f; rename_tac c a b; case_tac c) auto

lemma up_black: "rb_up_color f = RB_BLACK \<Longrightarrow> rb_up_ok h red (f # up) = rb_up_ok h False (f # up)"
  by (cases f) simp_all

text \<open>Below a red parent the grandparent is black.\<close>

lemma grandparent:
  assumes "rb_up_ok h False (f # g # up)" "rb_up_color f \<noteq> RB_BLACK"
  shows "rb_shape h (rb_uncle g)" "rb_up_ok (Suc h) False up" "rb_up_color g = RB_BLACK" "rb_uncle f = rb_set_color RB_BLACK (rb_uncle f)"
    "rb_shape h (rb_uncle f)"
proof -
  have "rb_up_ok h True (g # up) \<and> rb_shape h (rb_uncle f) \<and> \<not> rb_is_red (rb_uncle f)"
    using assms(1) by (rule up_cases) (use assms(2) in simp_all)
  then show "rb_shape h (rb_uncle g)" "rb_up_ok (Suc h) False up" "rb_up_color g = RB_BLACK" "rb_uncle f = rb_set_color RB_BLACK (rb_uncle f)"
    "rb_shape h (rb_uncle f)"
    by (cases g; rename_tac c a b; case_tac c; simp add: black_same)+
qed

lemma flip_ok:
  assumes "rb_shape h n" "rb_up_color f = RB_RED" "rb_shape h (rb_uncle f)" "rb_shape h (rb_uncle g)" "rb_is_red (rb_uncle g)"
  shows "rb_shape (Suc h) (rb_flip_insert (rb_plug n [f]) g)" "rb_is_red (rb_flip_insert (rb_plug n [f]) g)"
    "rb_inorder (rb_flip_insert (rb_plug n [f]) g) = rb_inorder (rb_plug n [f, g])"
  using assms by (cases f; cases g; simp add: ok_black)+

lemma rotate_ok:
  assumes "rb_shape h n" "rb_is_red n" "rb_up_color f = RB_RED" "rb_up_color g = RB_BLACK" "rb_shape h (rb_uncle f)" "rb_shape h (rb_uncle g)"
    "\<not> rb_is_red (rb_uncle f)" "\<not> rb_is_red (rb_uncle g)"
  shows "\<exists>t. rb_rotate_insert n f g = Some t \<and> rb_shape (Suc h) t \<and> \<not> rb_is_red t \<and> rb_inorder t = rb_inorder (rb_plug n [f, g])"
  using assms(1,2) by (rule red_cases) (use assms(3-) in \<open>cases f; cases g; simp add: black_same\<close>)

lemma insert_fix_ok:
  assumes "rb_shape h n" "rb_is_red n" "rb_up_ok h False up"
  shows "\<exists>t. rb_insert_fix n up = Some t \<and> rb_tree t \<and> rb_inorder t = rb_before up @ rb_inorder n @ rb_after up"
  using assms
proof (induction n up arbitrary: h rule: rb_insert_fix.induct)
  case (1 n)
  then show ?case using ok_black(2) [of h n] by (auto simp: rb_tree_def)
next
  case (2 n f)
  then show ?case
  proof (cases f)
    case (RbLeft c x r)
    then show ?thesis using 2 plug_ok [of h n "[f]"] by (cases c) auto
  next
    case (RbRight c l x)
    then show ?thesis using 2 plug_ok [of h n "[f]"] by (cases c) auto
  qed
next
  case (3 n f g up)
  show ?case
  proof (cases "rb_up_color f = RB_BLACK")
    case True
    then have "rb_tree (rb_plug n (f # g # up))" using 3(2-) up_black [OF True, of h True] by (intro plug_ok) auto
    then show ?thesis using True by (simp del: rb_plug.simps)
  next
    case False
    then have red: "rb_up_color f = RB_RED" by (cases "rb_up_color f") simp_all
    note g = grandparent [OF 3(4) False]
    have uncle: "\<not> rb_is_red (rb_uncle f)" by (subst g(4)) simp
    show ?thesis
    proof (cases "rb_is_red (rb_uncle g)")
      case True
      note f = flip_ok [OF 3(2) red g(5) g(1) True]
      from 3(1) [OF False True f(1,2) g(2)] f(3) show ?thesis using False True by (cases f; cases g) simp_all
    next
      case blk: False
      from rotate_ok [OF 3(2,3) red g(3) g(5) g(1) uncle blk] obtain t where
        t: "rb_rotate_insert n f g = Some t" "rb_shape (Suc h) t" "\<not> rb_is_red t" "rb_inorder t = rb_inorder (rb_plug n [f, g])" by blast
      have "rb_tree (rb_plug t up)" using t g(2) by (intro plug_ok) simp_all
      with t False blk show ?thesis by (cases f; cases g) simp_all
    qed
  qed
qed

lemma rb_insert_color_ok:
  "rb_up_ok 0 False up \<Longrightarrow> \<exists>t. rb_insert_color x up = Some t \<and> rb_tree t \<and> rb_inorder t = rb_before up @ x # rb_after up"
  unfolding rb_insert_color_def using insert_fix_ok [of 0 "RbNode RB_RED RbNull x RbNull" up] by simp

section \<open>Removal\<close>

text \<open>The subtree at the position has one black node less than the position takes.\<close>

lemma erase_left_ok:
  assumes "rb_shape h n" "\<not> rb_is_red n" "rb_shape (Suc h) s" "\<not> rb_is_red s"
  shows "\<exists>t again. rb_erase_left pc n px s = Some (t, again) \<and> rb_inorder t = rb_inorder n @ px # rb_inorder s \<and>
    (if again then pc = RB_BLACK \<and> rb_shape (Suc h) t \<and> \<not> rb_is_red t
     else rb_shape (if pc = RB_RED then Suc h else Suc (Suc h)) t \<and> (rb_is_red t \<longrightarrow> pc = RB_RED))"
proof -
  obtain sl sx sr where s: "s = RbNode RB_BLACK sl sx sr" "rb_shape h sl" "rb_shape h sr"
    using assms(3,4) by (cases s rule: rb_is_red.cases) auto
  show ?thesis
  proof (cases "rb_is_red sr")
    case True
    then show ?thesis using s assms ok_black(2) [OF s(3)] by (cases pc) (auto simp: rb_erase_left_def)
  next
    case sr: False
    show ?thesis
    proof (cases "rb_is_red sl")
      case True
      from s(2) True obtain a b c where "sl = RbNode RB_RED a b c" "rb_shape h a" "rb_shape h c" "\<not> rb_is_red a" "\<not> rb_is_red c"
        by (rule red_cases)
      then show ?thesis using s assms sr by (cases pc) (auto simp: rb_erase_left_def black_same)
    next
      case False
      then show ?thesis using s assms sr by (cases pc) (auto simp: rb_erase_left_def)
    qed
  qed
qed

lemma erase_right_ok:
  assumes "rb_shape h n" "\<not> rb_is_red n" "rb_shape (Suc h) s" "\<not> rb_is_red s"
  shows "\<exists>t again. rb_erase_right pc s px n = Some (t, again) \<and> rb_inorder t = rb_inorder s @ px # rb_inorder n \<and>
    (if again then pc = RB_BLACK \<and> rb_shape (Suc h) t \<and> \<not> rb_is_red t
     else rb_shape (if pc = RB_RED then Suc h else Suc (Suc h)) t \<and> (rb_is_red t \<longrightarrow> pc = RB_RED))"
proof -
  obtain sl sx sr where s: "s = RbNode RB_BLACK sl sx sr" "rb_shape h sl" "rb_shape h sr"
    using assms(3,4) by (cases s rule: rb_is_red.cases) auto
  show ?thesis
  proof (cases "rb_is_red sl")
    case True
    then show ?thesis using s assms ok_black(2) [OF s(2)] by (cases pc) (auto simp: rb_erase_right_def)
  next
    case sl: False
    show ?thesis
    proof (cases "rb_is_red sr")
      case True
      from s(3) True obtain a b c where "sr = RbNode RB_RED a b c" "rb_shape h a" "rb_shape h c" "\<not> rb_is_red a" "\<not> rb_is_red c"
        by (rule red_cases)
      then show ?thesis using s assms sl by (cases pc) (auto simp: rb_erase_right_def black_same)
    next
      case False
      then show ?thesis using s assms sl by (cases pc) (auto simp: rb_erase_right_def)
    qed
  qed
qed

lemma erase_color_ok:
  assumes "rb_shape h n" "\<not> rb_is_red n" "rb_up_ok (Suc h) False up"
  shows "\<exists>t. rb_erase_color n up = Some t \<and> rb_tree t \<and> rb_inorder t = rb_before up @ rb_inorder n @ rb_after up"
  using assms
proof (induction up arbitrary: n h)
  case Nil
  then show ?case by (auto simp: rb_tree_def)
next
  case (Cons f up)
  show ?case
  proof (cases f)
    case f: (RbLeft pc px s)
    have s: "rb_shape (Suc h) s" using Cons.prems(3) f by (cases pc) simp_all
    show ?thesis
    proof (cases "rb_is_red s")
      case True
      from s True obtain sl sx sr where d: "s = RbNode RB_RED sl sx sr" "rb_shape (Suc h) sl" "rb_shape (Suc h) sr" "\<not> rb_is_red sl" "\<not> rb_is_red sr"
        by (rule red_cases)
      have pc: "pc = RB_BLACK" using Cons.prems(3) f True by (cases pc) simp_all
      from erase_left_ok [OF Cons.prems(1,2), of "rb_set_color RB_BLACK sl" RB_RED px] d obtain t again where
        t: "rb_erase_left RB_RED n px (rb_set_color RB_BLACK sl) = Some (t, again)"
          "rb_inorder t = rb_inorder n @ px # rb_inorder sl" "rb_shape (Suc h) t"
        by (auto simp: black_same split: if_splits)
      have "rb_tree (rb_plug t (RbLeft pc sx sr # up))" using t d pc Cons.prems(3) f by (intro plug_ok [of "Suc h"]) auto
      moreover have "sl \<noteq> RbNull" using d(2) by auto
      ultimately show ?thesis using t d f pc by simp
    next
      case False
      from erase_left_ok [OF Cons.prems(1,2) s False, of pc px] obtain t again where
        t: "rb_erase_left pc n px s = Some (t, again)" "rb_inorder t = rb_inorder n @ px # rb_inorder s"
          "if again then pc = RB_BLACK \<and> rb_shape (Suc h) t \<and> \<not> rb_is_red t
           else rb_shape (if pc = RB_RED then Suc h else Suc (Suc h)) t \<and> (rb_is_red t \<longrightarrow> pc = RB_RED)" by blast
      have e: "rb_erase_color n (f # up) = (if again then rb_erase_color t up else Some (rb_plug t up))"
        using False t(1) f by (cases s rule: rb_is_red.cases) simp_all
      show ?thesis
      proof (cases again)
        case True
        then show ?thesis using Cons.IH [of "Suc h" t] t e f Cons.prems(3) by simp
      next
        case again: False
        have "rb_tree (rb_plug t up)"
        proof (cases pc)
          case RB_RED
          then show ?thesis using again t(3) Cons.prems(3) f by (intro plug_ok_any [of "Suc h"]) simp_all
        next
          case RB_BLACK
          then show ?thesis using again t(3) Cons.prems(3) f by (intro plug_ok [of "Suc (Suc h)"]) auto
        qed
        then show ?thesis using again t e f by simp
      qed
    qed
  next
    case f: (RbRight pc s px)
    have s: "rb_shape (Suc h) s" using Cons.prems(3) f by (cases pc) simp_all
    show ?thesis
    proof (cases "rb_is_red s")
      case True
      from s True obtain sl sx sr where d: "s = RbNode RB_RED sl sx sr" "rb_shape (Suc h) sl" "rb_shape (Suc h) sr" "\<not> rb_is_red sl" "\<not> rb_is_red sr"
        by (rule red_cases)
      have pc: "pc = RB_BLACK" using Cons.prems(3) f True by (cases pc) simp_all
      from erase_right_ok [OF Cons.prems(1,2), of "rb_set_color RB_BLACK sr" RB_RED px] d obtain t again where
        t: "rb_erase_right RB_RED (rb_set_color RB_BLACK sr) px n = Some (t, again)"
          "rb_inorder t = rb_inorder sr @ px # rb_inorder n" "rb_shape (Suc h) t"
        by (auto simp: black_same split: if_splits)
      have "rb_tree (rb_plug t (RbRight pc sl sx # up))" using t d pc Cons.prems(3) f by (intro plug_ok [of "Suc h"]) auto
      moreover have "sr \<noteq> RbNull" using d(3) by auto
      ultimately show ?thesis using t d f pc by simp
    next
      case False
      from erase_right_ok [OF Cons.prems(1,2) s False, of pc px] obtain t again where
        t: "rb_erase_right pc s px n = Some (t, again)" "rb_inorder t = rb_inorder s @ px # rb_inorder n"
          "if again then pc = RB_BLACK \<and> rb_shape (Suc h) t \<and> \<not> rb_is_red t
           else rb_shape (if pc = RB_RED then Suc h else Suc (Suc h)) t \<and> (rb_is_red t \<longrightarrow> pc = RB_RED)" by blast
      have e: "rb_erase_color n (f # up) = (if again then rb_erase_color t up else Some (rb_plug t up))"
        using False t(1) f by (cases s rule: rb_is_red.cases) simp_all
      show ?thesis
      proof (cases again)
        case True
        then show ?thesis using Cons.IH [of "Suc h" t] t e f Cons.prems(3) by simp
      next
        case again: False
        have "rb_tree (rb_plug t up)"
        proof (cases pc)
          case RB_RED
          then show ?thesis using again t(3) Cons.prems(3) f by (intro plug_ok_any [of "Suc h"]) simp_all
        next
          case RB_BLACK
          then show ?thesis using again t(3) Cons.prems(3) f by (intro plug_ok [of "Suc (Suc h)"]) auto
        qed
        then show ?thesis using again t e f by simp
      qed
    qed
  qed
qed

text \<open>The leftmost node of a subtree and its position.\<close>

lemma leftmost_ok:
  assumes "t \<noteq> RbNull" "rb_shape h t"
  shows "\<exists>sc sx sr mid k. rb_leftmost t up = (Some (sc, sx, sr), mid @ up) \<and> rb_shape k (RbNode sc RbNull sx sr) \<and>
    (\<forall>rest. rb_up_ok h (rb_is_red t) rest \<longrightarrow> rb_up_ok k (sc = RB_RED) (mid @ rest)) \<and>
    (\<forall>rest. rb_before (mid @ rest) = rb_before rest \<and> sx # rb_inorder sr @ rb_after (mid @ rest) = rb_inorder t @ rb_after rest)"
  using assms
proof (induction t up arbitrary: h rule: rb_leftmost.induct)
  case (2 c x r up)
  have "rb_is_red (RbNode c RbNull x r) = (c = RB_RED)" by (cases c) simp_all
  then show ?case using 2 by (auto intro!: exI [of _ "[]"])
next
  case (3 c lc ll lx lr x r up)
  let ?l = "RbNode lc ll lx lr"
  obtain hl where hl: "rb_shape hl ?l" "\<And>rest. rb_up_ok h (rb_is_red (RbNode c ?l x r)) rest \<Longrightarrow> rb_up_ok hl (rb_is_red ?l) (RbLeft c x r # rest)"
    using 3(3) by (cases c) auto
  from 3(1) [OF _ hl(1)] obtain sc sx sr mid k where
    m: "rb_leftmost ?l (RbLeft c x r # up) = (Some (sc, sx, sr), mid @ RbLeft c x r # up)" "rb_shape k (RbNode sc RbNull sx sr)"
      "\<And>rest. rb_up_ok hl (rb_is_red ?l) rest \<Longrightarrow> rb_up_ok k (sc = RB_RED) (mid @ rest)"
      "\<And>rest. rb_before (mid @ rest) = rb_before rest" "\<And>rest. sx # rb_inorder sr @ rb_after (mid @ rest) = rb_inorder ?l @ rb_after rest"
    by blast
  show ?case
  proof (intro exI conjI allI impI)
    show "rb_leftmost (RbNode c ?l x r) up = (Some (sc, sx, sr), (mid @ [RbLeft c x r]) @ up)" using m(1) by simp
    show "rb_shape k (RbNode sc RbNull sx sr)" by (rule m(2))
    fix rest
    show "rb_up_ok h (rb_is_red (RbNode c ?l x r)) rest \<Longrightarrow> rb_up_ok k (sc = RB_RED) ((mid @ [RbLeft c x r]) @ rest)"
      using m(3) [OF hl(2)] by simp
    show "rb_before ((mid @ [RbLeft c x r]) @ rest) = rb_before rest" using m(4) [of "RbLeft c x r # rest"] by simp
    show "sx # rb_inorder sr @ rb_after ((mid @ [RbLeft c x r]) @ rest) = rb_inorder (RbNode c ?l x r) @ rb_after rest"
      using m(5) [of "RbLeft c x r # rest"] by simp
  qed
qed simp

lemma erase_leaf_ok:
  assumes "rb_shape k (RbNode c RbNull x RbNull)" "rb_up_ok k (c = RB_RED) up"
  shows "\<exists>t. rb_erase_leaf c up = Some t \<and> rb_tree t \<and> rb_inorder t = rb_before up @ rb_after up"
proof (cases c)
  case RB_RED
  then show ?thesis using assms plug_ok [of 0 RbNull up] up_ok_black by (auto simp: rb_erase_leaf_def)
next
  case RB_BLACK
  then show ?thesis using assms erase_color_ok [of 0 RbNull up] plug_ok [of 0 RbNull "[]"] by (cases up) (auto simp: rb_erase_leaf_def)
qed

lemma only_child:
  assumes "rb_shape h (RbNode c l x r)" "l = RbNull \<or> r = RbNull" "s \<in> {l, r}" "s \<noteq> RbNull"
  shows "c = RB_BLACK \<and> rb_shape h (rb_set_color c s)"
proof -
  have "c = RB_BLACK \<and> h = Suc 0 \<and> rb_shape 0 s"
  proof (cases c)
    case RB_RED
    then have "rb_shape 0 s" "\<not> rb_is_red s" using assms by auto
    then show ?thesis using assms(4) by (cases s rule: rb_is_red.cases) simp_all
  qed (use assms in auto)
  then show ?thesis using assms(4) ok_black(2) [of 0 s] by (cases s rule: rb_is_red.cases) simp_all
qed

lemma erase_at_ok:
  assumes "rb_shape h (RbNode c l x r)" "rb_up_ok h (c = RB_RED) up"
  shows "\<exists>t. rb_erase_at (RbNode c l x r) up = Some t \<and> rb_tree t \<and>
    rb_inorder t = rb_before up @ rb_inorder l @ rb_inorder r @ rb_after up"
proof (cases "l = RbNull \<or> r = RbNull")
  case True
  show ?thesis
  proof (cases "l = RbNull \<and> r = RbNull")
    case True
    then show ?thesis using erase_leaf_ok [of h c x up] assms by (simp add: rb_erase_at_def)
  next
    case False
    define s where "s = (if l = RbNull then r else l)"
    have s: "c = RB_BLACK \<and> rb_shape h (rb_set_color c s)"
      by (rule only_child [OF assms(1) True]) (use False True in \<open>auto simp: s_def\<close>)
    then have "rb_tree (rb_plug (rb_set_color c s) up)" using assms(2) by (intro plug_ok) auto
    then show ?thesis using True False by (auto simp: rb_erase_at_def s_def)
  qed
next
  case False
  obtain k where k: "rb_shape k l" "rb_shape k r" "\<And>y. rb_up_ok k (rb_is_red r) (RbRight c l y # up)"
    using assms by (cases c) auto
  from leftmost_ok [of r k "[]"] k(2) False obtain sc sx sr mid j where
    m: "rb_leftmost r [] = (Some (sc, sx, sr), mid)" "rb_shape j (RbNode sc RbNull sx sr)"
      "\<And>rest. rb_up_ok k (rb_is_red r) rest \<Longrightarrow> rb_up_ok j (sc = RB_RED) (mid @ rest)"
      "\<And>rest. rb_before (mid @ rest) = rb_before rest" "\<And>rest. sx # rb_inorder sr @ rb_after (mid @ rest) = rb_inorder r @ rb_after rest"
    by auto
  define up2 where "up2 = mid @ RbRight c l sx # up"
  have up2: "rb_up_ok j (sc = RB_RED) up2" "rb_before up2 = rb_before up @ rb_inorder l @ [sx]"
    "sx # rb_inorder sr @ rb_after up2 = rb_inorder r @ rb_after up"
    using m(3) [OF k(3)] m(4,5) by (simp_all add: up2_def)
  have e: "rb_erase_at (RbNode c l x r) up = (if sr \<noteq> RbNull then Some (rb_plug (rb_set_color RB_BLACK sr) up2) else rb_erase_leaf sc up2)"
    using False m(1) by (simp add: rb_erase_at_def up2_def)
  show ?thesis
  proof (cases "sr = RbNull")
    case True
    from erase_leaf_ok [OF m(2) [unfolded True] up2(1)] show ?thesis using e True up2(2,3) by auto
  next
    case sr: False
    have s: "sc = RB_BLACK \<and> rb_shape j (rb_set_color sc sr)" by (rule only_child [OF m(2)]) (use sr in auto)
    then have "rb_tree (rb_plug (rb_set_color RB_BLACK sr) up2)" using up2(1) by (intro plug_ok) auto
    then show ?thesis using e sr up2(2,3) by auto
  qed
qed

lemma locate_none: "rb_locate x t up = None \<longleftrightarrow> x \<notin> set (rb_inorder t)"
proof (induction t arbitrary: up)
  case (RbNode c l y r)
  from RbNode(1) [of "RbLeft c y r # up"] RbNode(2) [of "RbRight c l y # up"] show ?case
    by (cases "rb_locate x l (RbLeft c y r # up)") simp_all
qed simp

lemma locate_ok:
  assumes "rb_locate x t up = Some (s, up')" "rb_shape h t" "rb_up_ok h (rb_is_red t) up"
  shows "\<exists>k c l r. s = RbNode c l x r \<and> rb_shape k s \<and> rb_up_ok k (c = RB_RED) up' \<and>
    rb_before up' @ rb_inorder s @ rb_after up' = rb_before up @ rb_inorder t @ rb_after up"
  using assms
proof (induction t arbitrary: up h)
  case (RbNode c l y r)
  have red: "rb_is_red (RbNode c l y r) = (c = RB_RED)" by (cases c) simp_all
  obtain k where k: "rb_shape k l" "rb_shape k r" "rb_up_ok k (rb_is_red l) (RbLeft c y r # up)" "rb_up_ok k (rb_is_red r) (RbRight c l y # up)"
    using RbNode.prems(2,3) by (cases c) auto
  show ?case
  proof (cases "x = y")
    case True
    then have "s = RbNode c l x r" "up' = up" using RbNode.prems(1) by simp_all
    then show ?thesis using RbNode.prems red True by (intro exI [of _ h]) auto
  next
    case False
    show ?thesis
    proof (cases "rb_locate x l (RbLeft c y r # up)")
      case None
      then have "rb_locate x r (RbRight c l y # up) = Some (s, up')" using RbNode.prems(1) False by simp
      from RbNode.IH(2) [OF this k(2,4)] show ?thesis by simp
    next
      case (Some p)
      then have "rb_locate x l (RbLeft c y r # up) = Some (s, up')" using RbNode.prems(1) False by simp
      from RbNode.IH(1) [OF this k(1,3)] show ?thesis by simp
    qed
  qed
qed simp

lemma rb_erase_ok:
  assumes "rb_tree t" "x \<in> set (rb_inorder t)"
  shows "\<exists>t' a b. rb_erase x t = Some t' \<and> rb_tree t' \<and> rb_inorder t = a @ x # b \<and> rb_inorder t' = a @ b"
proof -
  obtain h where h: "rb_shape h t" "\<not> rb_is_red t" using assms(1) by (auto simp: rb_tree_def)
  obtain s up where s: "rb_locate x t [] = Some (s, up)" using assms(2) locate_none [of x t "[]"] by auto
  from locate_ok [OF this h(1)] h(2) obtain k c l r where
    l: "s = RbNode c l x r" "rb_shape k s" "rb_up_ok k (c = RB_RED) up" "rb_before up @ rb_inorder s @ rb_after up = rb_inorder t" by auto
  from erase_at_ok [OF l(2) [unfolded l(1)] l(3)] obtain t' where
    t': "rb_erase_at s up = Some t'" "rb_tree t'" "rb_inorder t' = (rb_before up @ rb_inorder l) @ (rb_inorder r @ rb_after up)"
    using l(1) by auto
  have "rb_inorder t = (rb_before up @ rb_inorder l) @ x # (rb_inorder r @ rb_after up)" using l(1,4) by simp
  with t' s show ?thesis
    by (intro exI [of _ t'] exI [of _ "rb_before up @ rb_inorder l"] exI [of _ "rb_inorder r @ rb_after up"]) (simp add: rb_erase_def)
qed

section \<open>Height\<close>

fun rb_height :: "'a rbtree \<Rightarrow> nat" where
  "rb_height RbNull = 0"
| "rb_height (RbNode c l x r) = Suc (max (rb_height l) (rb_height r))"

lemma height_ok: "rb_shape h t \<Longrightarrow> rb_height t \<le> 2 * h + (if rb_is_red t then 1 else 0)"
proof (induction h t rule: rb_shape.induct)
  case (2 h l x r)
  then show ?case by auto
next
  case (3 h l x r)
  then show ?case by (fastforce split: if_splits)
qed simp

lemma size_ok: "rb_shape h t \<Longrightarrow> 2 ^ h \<le> length (rb_inorder t) + 1"
proof (induction h t rule: rb_shape.induct)
  case (3 h l x r)
  then obtain k where k: "h = Suc k" "rb_shape k l" "rb_shape k r" by auto
  with 3(1) [of k] 3(2) [of k] show ?case by simp
qed auto

lemma rb_height_log: "rb_tree t \<Longrightarrow> 2 ^ ((rb_height t + 1) div 2) \<le> length (rb_inorder t) + 1"
proof -
  assume "rb_tree t"
  then obtain h where h: "rb_shape h t" "\<not> rb_is_red t" by (auto simp: rb_tree_def)
  have "(rb_height t + 1) div 2 \<le> h" using height_ok [OF h(1)] h(2) by simp
  then have "(2::nat) ^ ((rb_height t + 1) div 2) \<le> 2 ^ h" by (rule power_increasing) simp
  with size_ok [OF h(1)] show ?thesis by linarith
qed

section \<open>Walking\<close>

text \<open>The walks are those along the sequence.\<close>

lemma first_last: "rb_first t = (if rb_inorder t = [] then None else Some (hd (rb_inorder t)))"
  "rb_last t = (if rb_inorder t = [] then None else Some (last (rb_inorder t)))"
proof -
  have n: "rb_inorder s = [] \<longleftrightarrow> s = RbNull" for s :: "'a rbtree" by (cases s) simp_all
  show "rb_first t = (if rb_inorder t = [] then None else Some (hd (rb_inorder t)))"
    by (induction t) (auto simp: n)
  show "rb_last t = (if rb_inorder t = [] then None else Some (last (rb_inorder t)))"
    by (induction t) (auto simp: n)
qed

lemma up_next: "rb_up_next up = (if rb_after up = [] then None else Some (hd (rb_after up)))"
  by (induction up rule: rb_up_next.induct) simp_all

lemma up_prev: "rb_up_prev up = (if rb_before up = [] then None else Some (last (rb_before up)))"
  by (induction up rule: rb_up_prev.induct) simp_all

lemma next_prev:
  "rb_next (RbNode c l x r) up = (let a = rb_inorder r @ rb_after up in if a = [] then None else Some (hd a))"
  "rb_prev (RbNode c l x r) up = (let b = rb_before up @ rb_inorder l in if b = [] then None else Some (last b))"
proof -
  have n: "rb_inorder s = [] \<longleftrightarrow> s = RbNull" for s :: "'a rbtree" by (cases s) simp_all
  show "rb_next (RbNode c l x r) up = (let a = rb_inorder r @ rb_after up in if a = [] then None else Some (hd a))"
    using n [of r] by (auto simp: rb_next_def first_last up_next up_prev)
  show "rb_prev (RbNode c l x r) up = (let b = rb_before up @ rb_inorder l in if b = [] then None else Some (last b))"
    using n [of l] by (auto simp: rb_prev_def first_last up_next up_prev)
qed

section \<open>Descents\<close>

text \<open>Along the sequence the sign of the comparison falls.\<close>

definition falling :: "('a \<Rightarrow> int) \<Rightarrow> 'a list \<Rightarrow> bool" where
  "falling cmp xs \<longleftrightarrow> sorted_wrt (\<lambda>x y. (cmp x \<le> 0 \<longrightarrow> cmp y \<le> 0) \<and> (cmp x < 0 \<longrightarrow> cmp y < 0)) xs"

lemma falling_node:
  "falling cmp (a @ x # b) \<Longrightarrow> falling cmp a \<and> falling cmp b \<and> (cmp x < 0 \<longrightarrow> (\<forall>y \<in> set b. cmp y < 0)) \<and> (cmp x > 0 \<longrightarrow> (\<forall>y \<in> set a. cmp y > 0))"
  by (fastforce simp: falling_def sorted_wrt_append)

lemma descend_found:
  "fst (rb_descend cmp t up) = Some x \<Longrightarrow> x \<in> set (rb_inorder t) \<and> cmp x = 0"
  by (induction cmp t up rule: rb_descend.induct) (auto split: if_splits)

lemma descend_none:
  assumes "fst (rb_descend cmp t up) = None" "falling cmp (rb_inorder t)"
  shows "\<exists>a b. rb_inorder t = a @ b \<and> (\<forall>x \<in> set a. cmp x > 0) \<and> (\<forall>x \<in> set b. cmp x < 0) \<and>
    rb_before (snd (rb_descend cmp t up)) = rb_before up @ a \<and> rb_after (snd (rb_descend cmp t up)) = b @ rb_after up"
  using assms
proof (induction t arbitrary: up)
  case (RbNode c l x r)
  note f = falling_node [of cmp "rb_inorder l" x "rb_inorder r"]
  have "cmp x \<noteq> 0" using RbNode.prems(1) by auto
  then consider "cmp x < 0" | "cmp x > 0" by linarith
  then show ?case
  proof cases
    case 1
    then obtain a b where "rb_inorder l = a @ b" "\<forall>x \<in> set a. cmp x > 0" "\<forall>x \<in> set b. cmp x < 0"
      "rb_before (snd (rb_descend cmp l (RbLeft c x r # up))) = rb_before up @ a"
      "rb_after (snd (rb_descend cmp l (RbLeft c x r # up))) = b @ x # rb_inorder r @ rb_after up"
      using RbNode.IH(1) [of "RbLeft c x r # up"] RbNode.prems f by auto
    then show ?thesis using 1 RbNode.prems f by (intro exI [of _ a] exI [of _ "b @ x # rb_inorder r"]) auto
  next
    case 2
    then obtain a b where "rb_inorder r = a @ b" "\<forall>x \<in> set a. cmp x > 0" "\<forall>x \<in> set b. cmp x < 0"
      "rb_before (snd (rb_descend cmp r (RbRight c l x # up))) = rb_before up @ rb_inorder l @ x # a"
      "rb_after (snd (rb_descend cmp r (RbRight c l x # up))) = b @ rb_after up"
      using RbNode.IH(2) [of "RbRight c l x # up"] RbNode.prems f by auto
    then show ?thesis using 2 RbNode.prems f by (intro exI [of _ "rb_inorder l @ x # a"] exI [of _ b]) auto
  qed
qed simp

lemma descend_position:
  assumes "fst (rb_descend cmp t up) = None" "rb_shape h t" "rb_up_ok h (rb_is_red t) up"
  shows "rb_up_ok 0 False (snd (rb_descend cmp t up)) \<and>
    rb_before (snd (rb_descend cmp t up)) @ rb_after (snd (rb_descend cmp t up)) = rb_before up @ rb_inorder t @ rb_after up"
  using assms
proof (induction t arbitrary: up h)
  case (RbNode c l x r)
  obtain k where k: "rb_shape k l" "rb_shape k r" "rb_up_ok k (rb_is_red l) (RbLeft c x r # up)" "rb_up_ok k (rb_is_red r) (RbRight c l x # up)"
    using RbNode.prems(2,3) by (cases c) auto
  have "cmp x \<noteq> 0" using RbNode.prems(1) by auto
  with RbNode.IH(1) [OF _ k(1,3)] RbNode.IH(2) [OF _ k(2,4)] RbNode.prems(1) show ?case by (cases "cmp x < 0") simp_all
qed simp

text \<open>
  Property C19: in a red-black tree, a node that is linked at the position a descent arrives at, and then repaired, and
  the removal of a node never use a null pointer and give a red-black tree again. The insertion adds the element
  between those the descent went by, if it is not there, and the removal takes it out and leaves the order of the others;
  and the height of the tree is at most twice the logarithm of the number of its nodes.
\<close>

theorem rbtree_operations:
  assumes "rb_tree t" "falling cmp (rb_inorder t)"
  shows "2 ^ ((rb_height t + 1) div 2) \<le> length (rb_inorder t) + 1 \<and>
    (case rb_descend cmp t [] of
       (Some y, up) \<Rightarrow> y \<in> set (rb_inorder t) \<and> cmp y = 0
     | (None, up) \<Rightarrow> \<exists>t' a b. rb_insert_color x up = Some t' \<and> rb_tree t' \<and> rb_inorder t = a @ b \<and> rb_inorder t' = a @ x # b \<and>
         (\<forall>y \<in> set a. cmp y > 0) \<and> (\<forall>y \<in> set b. cmp y < 0)) \<and>
    (\<forall>y \<in> set (rb_inorder t). \<exists>t' a b. rb_erase y t = Some t' \<and> rb_tree t' \<and> rb_inorder t = a @ y # b \<and> rb_inorder t' = a @ b)"
proof (intro conjI ballI)
  show "case rb_descend cmp t [] of (Some y, up) \<Rightarrow> y \<in> set (rb_inorder t) \<and> cmp y = 0
     | (None, up) \<Rightarrow> \<exists>t' a b. rb_insert_color x up = Some t' \<and> rb_tree t' \<and> rb_inorder t = a @ b \<and> rb_inorder t' = a @ x # b \<and>
         (\<forall>y \<in> set a. cmp y > 0) \<and> (\<forall>y \<in> set b. cmp y < 0)"
  proof (cases "fst (rb_descend cmp t [])")
    case None
    obtain h where h: "rb_shape h t" "\<not> rb_is_red t" using assms(1) by (auto simp: rb_tree_def)
    from descend_position [OF None h(1)] h(2) have "rb_up_ok 0 False (snd (rb_descend cmp t []))" by simp
    from rb_insert_color_ok [OF this, of x] descend_none [OF None assms(2)] None show ?thesis
      by (cases "rb_descend cmp t []") fastforce
  next
    case (Some y)
    then show ?thesis using descend_found [OF Some] by (cases "rb_descend cmp t []") simp
  qed
qed (use assms rb_height_log rb_erase_ok in auto)

theorem rbtree_operations_witness:
  "rb_erase 3 (RbNode RB_BLACK (RbNode RB_RED RbNull 1 RbNull) 3 RbNull) = Some (RbNode RB_BLACK RbNull (1::nat) RbNull) \<and>
   (2::nat) ^ ((rb_height (RbNode RB_BLACK (RbNode RB_RED RbNull 1 RbNull) (3::nat) RbNull) + 1) div 2) \<le> 3"
proof -
  have "rb_tree (RbNode RB_BLACK (RbNode RB_RED RbNull 1 RbNull) (3::nat) RbNull)" by (simp add: rb_tree_def)
  moreover have "falling (\<lambda>y. 2 - int y) (rb_inorder (RbNode RB_BLACK (RbNode RB_RED RbNull 1 RbNull) (3::nat) RbNull))"
    by (simp add: falling_def)
  ultimately show ?thesis
    using rbtree_operations [of "RbNode RB_BLACK (RbNode RB_RED RbNull 1 RbNull) (3::nat) RbNull" "\<lambda>y. 2 - int y" 2]
    by (simp add: rb_erase_def rb_erase_at_def)
qed

end
