(* ===== verification/Bss_Props.thy ===== *)
theory Bss_Props
  imports Bss Rbtree_Props
begin

text \<open>
  The table of scan results without sets of networks: the references that each operation counts, and the invariant of heap, list and
  tree that it keeps.
\<close>

section \<open>What the counts depend on\<close>

definition live :: "bss_table \<Rightarrow> nat \<Rightarrow> bool" where "live s p \<longleftrightarrow> bss_heap s p \<noteq> None"
definition hid :: "bss_table \<Rightarrow> nat \<Rightarrow> nat option" where
  "hid s p = (case bss_heap s p of None \<Rightarrow> None | Some b \<Rightarrow> hidden_beacon_bss b)"
definition cnt :: "bss_table \<Rightarrow> nat \<Rightarrow> int" where "cnt s p = (case bss_heap s p of None \<Rightarrow> 0 | Some b \<Rightarrow> bss_refcount b)"

definition due :: "nat \<Rightarrow> (nat \<Rightarrow> nat option) \<Rightarrow> (nat \<Rightarrow> nat) \<Rightarrow> nat \<Rightarrow> int" where
  "due n h own p = int (own p) + (\<Sum>q<n. if h q = Some p then int (own q) else 0)"

text \<open>
  \<open>own\<close> counts the references that are held on an entry itself, by the table and by the users; each is also counted at the beacon
  of its group.
\<close>

definition counts :: "nat \<Rightarrow> (nat \<Rightarrow> bool) \<Rightarrow> (nat \<Rightarrow> nat option) \<Rightarrow> (nat \<Rightarrow> int) \<Rightarrow> (nat \<Rightarrow> nat) \<Rightarrow> bool" where
  "counts n lv h c own \<longleftrightarrow> (\<forall>p. own p > 0 \<longrightarrow> lv p) \<and> (\<forall>p. lv p \<longrightarrow> p < n) \<and>
     (\<forall>q p. own q > 0 \<longrightarrow> h q = Some p \<longrightarrow> lv p \<and> p \<noteq> q) \<and> (\<forall>p. lv p \<longrightarrow> due n h own p \<le> c p)"

lemma countsD:
  assumes "counts n lv h c own"
  shows "own p > 0 \<Longrightarrow> lv p" "lv p \<Longrightarrow> p < n" "own q > 0 \<Longrightarrow> h q = Some p \<Longrightarrow> lv p \<and> p \<noteq> q" "lv p \<Longrightarrow> due n h own p \<le> c p"
  using assms by (auto simp: counts_def)

lemma due_zero:
  assumes "due n h own p \<le> 0" "\<And>q. own q > 0 \<Longrightarrow> q < n"
  shows "own p = 0" "h q = Some p \<Longrightarrow> own q = 0"
proof -
  have nn: "0 \<le> (if h q = Some p then int (own q) else 0)" for q by simp
  then have ge: "0 \<le> (\<Sum>q<n. if h q = Some p then int (own q) else 0)" by (intro sum_nonneg) simp
  with assms(1) show "own p = 0" by (simp add: due_def)
  have z: "(\<Sum>q<n. if h q = Some p then int (own q) else 0) = 0"
    using assms(1) ge by (simp add: due_def)
  show "own q = 0" if "h q = Some p"
  proof (rule ccontr)
    assume "own q \<noteq> 0"
    then have "q \<in> {..<n}" using assms(2) by simp
    with z nn have "(if h q = Some p then int (own q) else 0) = 0" by (subst (asm) sum_nonneg_eq_0_iff) auto
    with that \<open>own q \<noteq> 0\<close> show False by simp
  qed
qed

lemma due_own:
  assumes "q < n"
  shows "due n h (own(q := k)) p = due n h own p + (if p = q then int k - int (own q) else 0) +
    (if h q = Some p then int k - int (own q) else 0)"
proof -
  have "(\<Sum>x<n. if h x = Some p then int ((own(q := k)) x) else 0) =
    (\<Sum>x<n. (if h x = Some p then int (own x) else 0) + (if x = q then (if h q = Some p then int k - int (own q) else 0) else 0))"
    by (rule sum.cong) auto
  also have "\<dots> = (\<Sum>x<n. if h x = Some p then int (own x) else 0) + (if h q = Some p then int k - int (own q) else 0)"
    using assms by (simp add: sum.distrib)
  finally show ?thesis by (simp add: due_def)
qed

lemma due_hid:
  assumes "q < n"
  shows "due n (h(q := x)) own p = due n h own p - (if h q = Some p then int (own q) else 0) + (if x = Some p then int (own q) else 0)"
proof -
  have "(\<Sum>y<n. if (h(q := x)) y = Some p then int (own y) else 0) =
    (\<Sum>y<n. (if h y = Some p then int (own y) else 0) +
      (if y = q then (if x = Some p then int (own q) else 0) - (if h q = Some p then int (own q) else 0) else 0))"
    by (rule sum.cong) auto
  also have "\<dots> = (\<Sum>y<n. if h y = Some p then int (own y) else 0) + ((if x = Some p then int (own q) else 0) - (if h q = Some p then int (own q) else 0))"
    using assms by (simp add: sum.distrib)
  finally show ?thesis by (simp add: due_def)
qed

lemma due_fresh: "own n = 0 \<Longrightarrow> due (Suc n) h own p = due n h own p"
  by (simp add: due_def)

text \<open>An entry whose count is zero may go.\<close>

lemma counts_free:
  assumes "counts n lv h c own" "lv p" "c p \<le> 0"
  shows "counts n (lv(p := False)) (h(p := None)) (c(p := x)) own"
proof -
  note d = countsD [OF assms(1)]
  have le: "due n h own p \<le> 0" using d(4) [OF assms(2)] assms(3) by linarith
  note z = due_zero [OF le d(2) [OF d(1)]]
  have "due n (h(p := None)) own q = due n h own q" for q using due_hid [OF d(2) [OF assms(2)], of h None own q] z(1) by simp
  note e = this
  show ?thesis unfolding counts_def
  proof (intro conjI allI impI)
    fix q y
    show "(lv(p := False)) q" if "own q > 0" using that d(1) z(1) by auto
    show "q < n" if "(lv(p := False)) q" using that d(2) by (auto split: if_splits)
    show "(lv(p := False)) y" "y \<noteq> q" if "own q > 0" "(h(p := None)) q = Some y"
      using that d(3) [of q y] z(2) [of q] by (auto split: if_splits)
    show "due n (h(p := None)) own q \<le> (c(p := x)) q" if "(lv(p := False)) q" using that d(4) e by (auto split: if_splits)
  qed
qed

lemma counts_count:
  assumes "counts n lv h c own" "lv p \<Longrightarrow> due n h own p \<le> x"
  shows "counts n lv h (c(p := x)) own"
  using assms by (auto simp: counts_def)

section \<open>Counting on the heap\<close>

lemma view_heap [simp]:
  "live (s\<lparr>bss_heap := (bss_heap s)(p \<mapsto> b)\<rparr>) = (live s)(p := True)"
  "hid (s\<lparr>bss_heap := (bss_heap s)(p \<mapsto> b)\<rparr>) = (hid s)(p := hidden_beacon_bss b)"
  "cnt (s\<lparr>bss_heap := (bss_heap s)(p \<mapsto> b)\<rparr>) = (cnt s)(p := bss_refcount b)"
  "live (s\<lparr>bss_heap := (bss_heap s)(p := None)\<rparr>) = (live s)(p := False)"
  "hid (s\<lparr>bss_heap := (bss_heap s)(p := None)\<rparr>) = (hid s)(p := None)"
  "cnt (s\<lparr>bss_heap := (bss_heap s)(p := None)\<rparr>) = (cnt s)(p := 0)"
  by (auto simp: live_def hid_def cnt_def fun_eq_iff)

lemma view_at: "bss_heap s p = Some b \<Longrightarrow> live s p \<and> hid s p = hidden_beacon_bss b \<and> cnt s p = bss_refcount b"
  by (simp add: live_def hid_def cnt_def)

lemma liveE: "live s p \<Longrightarrow> \<exists>b. bss_heap s p = Some b"
  by (simp add: live_def)

lemma view_cong: "bss_heap s' = bss_heap s \<Longrightarrow> live s' = live s \<and> hid s' = hid s \<and> cnt s' = cnt s"
  by (auto simp: live_def hid_def cnt_def fun_eq_iff)

lemma ring_del_Cons: "ring_del p (r # rs) = (if 1 < length (remove1 p r) then [remove1 p r] else []) @ ring_del p rs"
  by (simp add: ring_del_def)

lemma ring_del_ok:
  "distinct (concat rs) \<Longrightarrow> distinct (concat (ring_del p rs)) \<and> set (concat (ring_del p rs)) \<subseteq> set (concat rs) - {p}"
proof (induction rs)
  case (Cons r rs)
  then have "distinct r" "set r \<inter> set (concat rs) = {}" "distinct (concat rs)" by (auto simp del: set_concat)
  moreover have "set (remove1 p r) = set r - {p}" using \<open>distinct r\<close> by (simp add: set_remove1_eq)
  ultimately show ?case using Cons.IH by (auto simp: ring_del_Cons distinct_remove1 simp del: set_concat)
qed (simp add: ring_del_def)

definition rings_ok :: "bss_table \<Rightarrow> bool" where
  "rings_ok s \<longleftrightarrow> distinct (concat (hidden_rings s)) \<and> (\<forall>p \<in> set (concat (hidden_rings s)). live s p)"

definition heap_ok :: "bss_table \<Rightarrow> (nat \<Rightarrow> nat) \<Rightarrow> bool" where
  "heap_ok s own \<longleftrightarrow> counts (bss_fresh s) (live s) (hid s) (cnt s) own \<and> rings_ok s \<and>
     (\<forall>p b. bss_heap s p = Some b \<longrightarrow> transmitted_bss b = None)"

lemma heap_okD:
  assumes "heap_ok s own"
  shows "counts (bss_fresh s) (live s) (hid s) (cnt s) own" "rings_ok s" "bss_heap s p = Some b \<Longrightarrow> transmitted_bss b = None"
  using assms by (auto simp: heap_ok_def)

text \<open>Only counts and frees.\<close>

definition uncounted :: "bss_entry \<Rightarrow> bss_entry" where "uncounted b = b\<lparr>bss_refcount := 0\<rparr>"

lemma uncounted_refcount [simp]: "uncounted (b\<lparr>bss_refcount := x\<rparr>) = uncounted b"
  by (simp add: uncounted_def)

definition same_table :: "bss_table \<Rightarrow> bss_table \<Rightarrow> bool" where
  "same_table s s' \<longleftrightarrow> bss_list s' = bss_list s \<and> bss_tree s' = bss_tree s \<and> bss_entries s' = bss_entries s \<and>
     nontrans_rings s' = nontrans_rings s \<and> bss_fresh s' = bss_fresh s \<and>
     (\<forall>q b. bss_heap s' q = Some b \<longrightarrow> (\<exists>b0. bss_heap s q = Some b0 \<and> uncounted b = uncounted b0))"

lemma same_table_refl: "same_table s s"
  by (simp add: same_table_def)

lemma same_table_trans: "same_table a b \<Longrightarrow> same_table b c \<Longrightarrow> same_table a c"
  by (fastforce simp: same_table_def)

lemma free_ies_fields [simp]:
  "bss_heap (free_ies i s) = bss_heap s" "bss_list (free_ies i s) = bss_list s" "bss_tree (free_ies i s) = bss_tree s"
  "bss_entries (free_ies i s) = bss_entries s" "nontrans_rings (free_ies i s) = nontrans_rings s"
  "hidden_rings (free_ies i s) = hidden_rings s" "bss_fresh (free_ies i s) = bss_fresh s"
  by (cases i; simp add: free_ies_def)+

lemma count_ref_live:
  "bss_heap s p = Some b \<Longrightarrow> count_ref d p s = Some (s\<lparr>bss_heap := (bss_heap s)(p \<mapsto> b\<lparr>bss_refcount := bss_refcount b + d\<rparr>)\<rparr>)"
  by (simp add: count_ref_def upd_bss_def)

lemma free_ok:
  assumes "heap_ok s own" "bss_heap s p = Some b" "bss_refcount b \<le> 0"
  shows "\<exists>s'. bss_free p s = Some s' \<and> heap_ok s' own \<and> same_table s s' \<and> (\<forall>q. q \<noteq> p \<longrightarrow> bss_heap s' q = bss_heap s q) \<and>
    (\<forall>q. due (bss_fresh s) (hid s') own q \<le> due (bss_fresh s) (hid s) own q)"
proof (cases "bss_hold b = 0")
  case False
  then show ?thesis using assms same_table_refl by (auto simp: bss_free_def)
next
  case True
  define s2 where "s2 = free_ies (proberesp_ies b) (if hidden_beacon_bss b = None then free_ies (beacon_ies b) s else s)"
  have s2: "bss_heap s2 = bss_heap s" "bss_list s2 = bss_list s" "bss_tree s2 = bss_tree s" "bss_entries s2 = bss_entries s"
    "nontrans_rings s2 = nontrans_rings s" "hidden_rings s2 = hidden_rings s" "bss_fresh s2 = bss_fresh s"
    by (simp_all add: s2_def)
  define s' where "s' = s2\<lparr>hidden_rings := ring_del p (hidden_rings s2), bss_heap := (bss_heap s2)(p := None)\<rparr>"
  have r: "bss_free p s = Some s'" using assms(2) True by (simp add: bss_free_def Let_def s'_def s2_def)
  have v: "live s' = (live s)(p := False)" "hid s' = (hid s)(p := None)" "cnt s' = (cnt s)(p := 0)"
    using s2(1) by (auto simp: s'_def live_def hid_def cnt_def fun_eq_iff)
  have p: "live s p" "cnt s p \<le> 0" using view_at [OF assms(2)] assms(3) by auto
  have c: "counts (bss_fresh s) (live s') (hid s') (cnt s') own"
    unfolding v by (rule counts_free [OF heap_okD(1) [OF assms(1)] p])
  have "hidden_rings s' = ring_del p (hidden_rings s)" by (simp add: s'_def s2)
  then have "rings_ok s'" using ring_del_ok [of "hidden_rings s" p] heap_okD(2) [OF assms(1)]
    by (auto simp: rings_ok_def v simp del: set_concat)
  then have "heap_ok s' own" using c s2 heap_okD(3) [OF assms(1)] by (auto simp: heap_ok_def s'_def split: if_splits)
  moreover have "same_table s s'" by (auto simp: same_table_def s'_def s2)
  moreover have "due (bss_fresh s) (hid s') own q \<le> due (bss_fresh s) (hid s) own q" for q
    unfolding v using due_hid [OF countsD(2) [OF heap_okD(1) [OF assms(1)] p(1)], of "hid s" None own q] by simp
  ultimately show ?thesis using r s2(1) by (auto simp: s'_def)
qed

lemma drop_ref_ok:
  assumes "heap_ok s own" "bss_heap s p = Some b" "due (bss_fresh s) (hid s) own p \<le> bss_refcount b - 1"
  shows "\<exists>s'. drop_ref p s = Some s' \<and> heap_ok s' own \<and> same_table s s' \<and> (\<forall>q. q \<noteq> p \<longrightarrow> bss_heap s' q = bss_heap s q) \<and>
    (\<forall>q. due (bss_fresh s) (hid s') own q \<le> due (bss_fresh s) (hid s) own q)"
proof -
  define b1 where "b1 = b\<lparr>bss_refcount := bss_refcount b - 1\<rparr>"
  define s1 where "s1 = s\<lparr>bss_heap := (bss_heap s)(p \<mapsto> b1)\<rparr>"
  have c: "count_ref (- 1) p s = Some s1" using count_ref_live [OF assms(2), of "- 1"] by (simp add: s1_def b1_def)
  note at = view_at [OF assms(2)]
  have hid: "hid s1 = hid s" and live: "live s1 = live s" using at by (auto simp: s1_def b1_def fun_eq_iff)
  have "counts (bss_fresh s) (live s) (hid s) ((cnt s)(p := bss_refcount b1)) own"
    by (rule counts_count [OF heap_okD(1) [OF assms(1)]]) (use assms(3) in \<open>simp add: b1_def\<close>)
  then have "counts (bss_fresh s1) (live s1) (hid s1) (cnt s1) own" using hid live by (simp add: s1_def)
  then have ok: "heap_ok s1 own" using heap_okD(2,3) [OF assms(1)] assms(2) live by (auto simp: heap_ok_def rings_ok_def s1_def b1_def)
  have st: "same_table s s1" using assms(2) by (auto simp: same_table_def s1_def b1_def)
  have h1: "bss_heap s1 p = Some b1" by (simp add: s1_def)
  show ?thesis
  proof (cases "bss_refcount b1 = 0")
    case True
    then obtain s' where "bss_free p s1 = Some s'" "heap_ok s' own" "same_table s1 s'" "\<And>q. q \<noteq> p \<Longrightarrow> bss_heap s' q = bss_heap s1 q"
      "\<And>q. due (bss_fresh s1) (hid s') own q \<le> due (bss_fresh s1) (hid s1) own q"
      using free_ok [OF ok h1] by auto
    then show ?thesis using c h1 True st same_table_trans hid by (auto simp: drop_ref_def s1_def)
  next
    case False
    then show ?thesis using c h1 ok st hid by (auto simp: drop_ref_def s1_def)
  qed
qed

lemma counts_own:
  assumes "counts n lv h c own" "lv p" "\<And>q. lv q \<Longrightarrow> due n h (own(p := k)) q \<le> c q" "k > 0 \<Longrightarrow> own p > 0 \<or> h p = None"
  shows "counts n lv h c (own(p := k))"
  unfolding counts_def
proof (intro conjI allI impI)
  note d = countsD [OF assms(1)]
  show "lv q" if "(own(p := k)) q > 0" for q using that d(1) assms(2) by (auto split: if_splits)
  show "q < n" if "lv q" for q using that by (rule d(2))
  show "lv y" "y \<noteq> q" if "(own(p := k)) q > 0" "h q = Some y" for q y
    using that d(3) [of q y] assms(4) by (auto split: if_splits)
qed (rule assms(3))

lemma put_ok:
  assumes "heap_ok s own" "own p > 0"
  shows "\<exists>s'. bss_ref_put p s = Some s' \<and> heap_ok s' (own(p := own p - 1)) \<and> same_table s s'"
proof -
  note c = heap_okD(1) [OF assms(1)]
  have lp: "live s p" by (rule countsD(1) [OF c assms(2)])
  then obtain b where b: "bss_heap s p = Some b" using liveE by blast
  note at = view_at [OF b]
  have pn: "p < bss_fresh s" by (rule countsD(2) [OF c lp])
  define own' where "own' = own(p := own p - 1)"
  have due': "due (bss_fresh s) (hid s) own' q = due (bss_fresh s) (hid s) own q - (if p = q then 1 else 0) - (if hid s p = Some q then 1 else 0)" for q
    using due_own [OF pn, of "hid s" own "own p - 1" q] assms(2) by (simp add: own'_def of_nat_diff)
  have "counts (bss_fresh s) (live s) (hid s) (cnt s) own'"
    unfolding own'_def using countsD(4) [OF c] due' [unfolded own'_def] assms(2) by (intro counts_own [OF c lp]) force+
  then have ok: "heap_ok s own'" using assms(1) by (simp add: heap_ok_def)
  have "\<exists>s1. drop_opt (hidden_beacon_bss b) s = Some s1 \<and> heap_ok s1 own' \<and> same_table s s1 \<and> bss_heap s1 p = Some b \<and>
    (\<forall>q. due (bss_fresh s) (hid s1) own' q \<le> due (bss_fresh s) (hid s) own' q)"
  proof (cases "hidden_beacon_bss b")
    case None
    then show ?thesis using ok b same_table_refl by (simp add: drop_opt_def)
  next
    case (Some h)
    have h: "live s h" "h \<noteq> p" using countsD(3) [OF c assms(2)] at Some by auto
    then obtain hb where hb: "bss_heap s h = Some hb" using liveE by blast
    have "due (bss_fresh s) (hid s) own' h \<le> bss_refcount hb - 1"
      using due' [of h] countsD(4) [OF c h(1)] view_at [OF hb] at Some h(2) by simp
    from drop_ref_ok [OF ok hb this] show ?thesis using Some b h(2) by (auto simp: drop_opt_def)
  qed
  then obtain s1 where s1: "drop_opt (hidden_beacon_bss b) s = Some s1" "heap_ok s1 own'" "same_table s s1" "bss_heap s1 p = Some b"
    "\<And>q. due (bss_fresh s) (hid s1) own' q \<le> due (bss_fresh s) (hid s) own' q" by blast
  have fr: "bss_fresh s1 = bss_fresh s" using s1(3) by (simp add: same_table_def)
  have nh: "hid s p \<noteq> Some p" using countsD(3) [OF c assms(2), of p] by auto
  have "due (bss_fresh s1) (hid s1) own' p \<le> bss_refcount b - 1"
    using s1(5) [of p] due' [of p] countsD(4) [OF c lp] at nh by (simp add: fr)
  from drop_ref_ok [OF s1(2,4) this] obtain s' where s': "drop_ref p s1 = Some s'" "heap_ok s' own'" "same_table s1 s'" by blast
  have "transmitted_bss b = None" by (rule heap_okD(3) [OF assms(1) b])
  then show ?thesis using b s1 s' same_table_trans by (auto simp: bss_ref_put_def drop_opt_def own'_def)
qed

lemma get_ok:
  assumes "heap_ok s own" "own p > 0"
  shows "\<exists>s'. bss_ref_get p s = Some s' \<and> heap_ok s' (own(p := own p + 1)) \<and> same_table s s' \<and> hidden_rings s' = hidden_rings s"
proof -
  note c = heap_okD(1) [OF assms(1)]
  have lp: "live s p" by (rule countsD(1) [OF c assms(2)])
  then obtain b where b: "bss_heap s p = Some b" using liveE by blast
  note at = view_at [OF b]
  have pn: "p < bss_fresh s" by (rule countsD(2) [OF c lp])
  define own' where "own' = own(p := own p + 1)"
  have due': "due (bss_fresh s) (hid s) own' q = due (bss_fresh s) (hid s) own q + (if p = q then 1 else 0) + (if hid s p = Some q then 1 else 0)" for q
    using due_own [OF pn, of "hid s" own "own p + 1" q] by (simp add: own'_def)
  have tr: "transmitted_bss x = None" if "bss_heap s q = Some x" for q x by (rule heap_okD(3) [OF assms(1) that])
  define b1 where "b1 = b\<lparr>bss_refcount := bss_refcount b + 1\<rparr>"
  define s1 where "s1 = s\<lparr>bss_heap := (bss_heap s)(p \<mapsto> b1)\<rparr>"
  have s1: "count_ref 1 p s = Some s1" using count_ref_live [OF b, of 1] by (simp add: s1_def b1_def)
  have v1: "live s1 = live s" "hid s1 = hid s" "cnt s1 = (cnt s)(p := cnt s p + 1)" "bss_heap s1 p = Some b1"
    using at by (auto simp: s1_def b1_def fun_eq_iff)
  have hb1: "hidden_beacon_bss b1 = hidden_beacon_bss b" "transmitted_bss b1 = None" using tr [OF b] by (simp_all add: b1_def)
  show ?thesis
  proof (cases "hidden_beacon_bss b")
    case None
    have "bss_ref_get p s = Some s1" using s1 v1(4) hb1 None by (simp add: bss_ref_get_def Let_def)
    moreover have "counts (bss_fresh s) (live s1) (hid s1) (cnt s1) own'"
      unfolding own'_def v1 using countsD(4) [OF c] due' [unfolded own'_def] assms(2) at None
      by (intro counts_own counts_count c lp) (force split: if_splits)+
    ultimately show ?thesis using assms(1) b v1
      by (auto simp: heap_ok_def rings_ok_def own'_def s1_def same_table_def b1_def split: if_splits)
  next
    case (Some h)
    have h: "live s h" "h \<noteq> p" using countsD(3) [OF c assms(2)] at Some by auto
    then obtain hb where hb: "bss_heap s h = Some hb" using liveE by blast
    define hb1 where "hb1 = hb\<lparr>bss_refcount := bss_refcount hb + 1\<rparr>"
    define s2 where "s2 = s1\<lparr>bss_heap := (bss_heap s1)(h \<mapsto> hb1)\<rparr>"
    have hh: "bss_heap s1 h = Some hb" using hb h(2) by (simp add: s1_def)
    have s2: "count_ref 1 h s1 = Some s2" using count_ref_live [OF hh, of 1] by (simp add: s2_def hb1_def)
    have v2: "live s2 = live s" "hid s2 = hid s" "cnt s2 = (cnt s)(p := cnt s p + 1, h := cnt s h + 1)"
      using view_at [OF hb] v1 h by (auto simp: s2_def hb1_def fun_eq_iff)
    have "bss_ref_get p s = Some s2"
      using s1 v1(4) \<open>hidden_beacon_bss b1 = _\<close> Some s2 tr [OF hb] by (simp add: bss_ref_get_def Let_def s2_def hb1_def)
    moreover have "counts (bss_fresh s) (live s2) (hid s2) (cnt s2) own'"
      unfolding own'_def v2
    proof (rule counts_own)
      show "counts (bss_fresh s) (live s) (hid s) ((cnt s)(p := cnt s p + 1, h := cnt s h + 1)) own"
        using countsD(4) [OF c] h lp by (intro counts_count c) force+
      fix q assume "live s q"
      then show "due (bss_fresh s) (hid s) (own(p := own p + 1)) q \<le> ((cnt s)(p := cnt s p + 1, h := cnt s h + 1)) q"
        using due' [of q, unfolded own'_def] countsD(4) [OF c, of q] at Some h(2) by auto
    qed (use lp assms(2) in auto)
    moreover have "same_table s s2" using b hb h(2) by (auto simp: same_table_def s2_def s1_def b1_def hb1_def)
    moreover have "\<forall>q x. bss_heap s2 q = Some x \<longrightarrow> transmitted_bss x = None" using tr b hb by (auto simp: s2_def s1_def b1_def hb1_def)
    ultimately show ?thesis using assms(1) v2
      by (auto simp: heap_ok_def rings_ok_def own'_def s2_def s1_def)
  qed
qed

section \<open>The table\<close>

definition table_ok :: "bss_table \<Rightarrow> bool" where
  "table_ok s \<longleftrightarrow> distinct (bss_list s) \<and> rb_tree (bss_tree s) \<and> set (rb_inorder (bss_tree s)) \<subseteq> set (bss_list s) \<and>
     distinct (rb_inorder (bss_tree s)) \<and> nontrans_rings s = [] \<and> bss_entries s = of_nat (length (bss_list s)) \<and>
     length (bss_list s) \<le> unat bss_entries_limit"

text \<open>The references of the table and of its users; \<open>ext\<close> counts the latter.\<close>

definition owned :: "bss_table \<Rightarrow> (nat \<Rightarrow> nat) \<Rightarrow> nat \<Rightarrow> nat" where
  "owned s ext p = ext p + (if p \<in> set (bss_list s) then 1 else 0)"

definition bss_inv :: "bss_table \<Rightarrow> (nat \<Rightarrow> nat) \<Rightarrow> bool" where
  "bss_inv s ext \<longleftrightarrow> heap_ok s (owned s ext) \<and> table_ok s"

definition removable :: "bss_table \<Rightarrow> nat \<Rightarrow> bool" where
  "removable s p \<longleftrightarrow> hid s p \<noteq> None \<or> \<not> in_ring p (hidden_rings s)"

lemma rb_null [simp]: "rb_tree RbNull"
  by (simp add: rb_tree_def)

lemma erase_subset:
  assumes "rb_tree t" "distinct (rb_inorder t)"
  shows "\<exists>t'. rb_erase p t = Some t' \<and> rb_tree t' \<and> distinct (rb_inorder t') \<and> set (rb_inorder t') \<subseteq> set (rb_inorder t) - {p}"
proof (cases "p \<in> set (rb_inorder t)")
  case True
  from rb_erase_ok [OF assms(1) this] obtain t' a b where
    "rb_erase p t = Some t'" "rb_tree t'" "rb_inorder t = a @ p # b" "rb_inorder t' = a @ b" by blast
  then show ?thesis using assms(2) by auto
next
  case False
  then have "rb_locate p t [] = None" by (simp add: locate_none)
  then show ?thesis by (simp add: rb_erase_def)
qed

lemma unlink_ok:
  assumes "heap_ok s own" "table_ok s" "own p > 0" "p \<in> set (bss_list s)"
  shows "\<exists>s'. unlink_bss p s = Some (removable s p, s') \<and>
    (if removable s p
     then heap_ok s' (own(p := own p - 1)) \<and> table_ok s' \<and> bss_list s' = remove1 p (bss_list s) \<and> bss_fresh s' = bss_fresh s \<and>
       (\<forall>q b. bss_heap s' q = Some b \<longrightarrow> (\<exists>b0. bss_heap s q = Some b0 \<and> uncounted b = uncounted b0))
     else s' = s)"
proof -
  obtain b where b: "bss_heap s p = Some b" using countsD(1) [OF heap_okD(1) [OF assms(1)] assms(3)] liveE by blast
  note at = view_at [OF b]
  show ?thesis
  proof (cases "removable s p")
    case False
    then show ?thesis using b at by (auto simp: unlink_bss_def removable_def)
  next
    case True
    obtain t where t: "rb_erase p (bss_tree s) = Some t" "rb_tree t" "distinct (rb_inorder t)" "set (rb_inorder t) \<subseteq> set (rb_inorder (bss_tree s)) - {p}"
      using erase_subset [of "bss_tree s" p] assms(2) by (auto simp: table_ok_def)
    define s1 where "s1 = s\<lparr>hidden_rings := ring_del p (hidden_rings s), bss_list := remove1 p (bss_list s),
      nontrans_rings := ring_del p (nontrans_rings s), bss_tree := t, bss_entries := bss_entries s - 1\<rparr>"
    have v: "live s1 = live s" "hid s1 = hid s" "cnt s1 = cnt s" "bss_heap s1 = bss_heap s" using view_cong [of s1 s] by (simp_all add: s1_def)
    have "hidden_rings s1 = ring_del p (hidden_rings s)" by (simp add: s1_def)
    then have "rings_ok s1" using ring_del_ok [of "hidden_rings s" p] heap_okD(2) [OF assms(1)]
      by (auto simp: rings_ok_def v simp del: set_concat)
    then have "heap_ok s1 own" using assms(1) by (auto simp: heap_ok_def v) (simp add: s1_def)
    from put_ok [OF this assms(3)] obtain s' where
      s': "bss_ref_put p s1 = Some s'" "heap_ok s' (own(p := own p - 1))" "same_table s1 s'" by blast
    have n0: "length (bss_list s) > 0" using assms(4) by (cases "bss_list s") auto
    have n: "length (remove1 p (bss_list s)) = length (bss_list s) - 1" using assms(4) by (simp add: length_remove1)
    have e: "bss_entries s1 = of_nat (length (bss_list s1))"
      using n0 n assms(2) by (cases "length (bss_list s)") (simp_all add: table_ok_def s1_def)
    have "table_ok s1"
      unfolding table_ok_def e using assms(2) t n n0 by (auto simp: table_ok_def s1_def ring_del_def set_remove1_eq)
    then have "table_ok s'" using s'(3) by (simp add: table_ok_def same_table_def)
    moreover have "unlink_bss p s = Some (True, s')"
      using b at True t(1) s'(1) by (auto simp: unlink_bss_def removable_def s1_def)
    ultimately show ?thesis using s' True by (auto simp: same_table_def v) (simp_all add: s1_def)
  qed
qed

text \<open>In terms of the references of the users.\<close>

lemma inv_put: "bss_inv s ext \<Longrightarrow> ext p > 0 \<Longrightarrow> \<exists>s'. bss_ref_put p s = Some s' \<and> bss_inv s' (ext(p := ext p - 1))"
proof -
  assume i: "bss_inv s ext" and e: "ext p > 0"
  from put_ok [of s "owned s ext" p] i e obtain s' where
    s': "bss_ref_put p s = Some s'" "heap_ok s' ((owned s ext)(p := owned s ext p - 1))" "same_table s s'"
    by (auto simp: bss_inv_def owned_def)
  have "(owned s ext)(p := owned s ext p - 1) = owned s' (ext(p := ext p - 1))"
    using e s'(3) by (auto simp: owned_def same_table_def fun_eq_iff)
  with s' i show ?thesis by (auto simp: bss_inv_def table_ok_def same_table_def)
qed

lemma inv_get: "bss_inv s ext \<Longrightarrow> owned s ext p > 0 \<Longrightarrow> \<exists>s'. bss_ref_get p s = Some s' \<and> bss_inv s' (ext(p := ext p + 1))"
proof -
  assume i: "bss_inv s ext" and e: "owned s ext p > 0"
  from get_ok [of s "owned s ext" p] i e obtain s' where
    s': "bss_ref_get p s = Some s'" "heap_ok s' ((owned s ext)(p := owned s ext p + 1))" "same_table s s'"
    by (auto simp: bss_inv_def)
  have "(owned s ext)(p := owned s ext p + 1) = owned s' (ext(p := ext p + 1))"
    using s'(3) by (auto simp: owned_def same_table_def fun_eq_iff)
  with s' i show ?thesis by (auto simp: bss_inv_def table_ok_def same_table_def)
qed

lemma inv_unlink:
  assumes "bss_inv s ext" "p \<in> set (bss_list s)"
  shows "\<exists>s'. unlink_bss p s = Some (removable s p, s') \<and> bss_inv s' ext \<and> bss_fresh s' = bss_fresh s \<and>
    bss_list s' = (if removable s p then remove1 p (bss_list s) else bss_list s) \<and>
    (\<forall>q b. bss_heap s' q = Some b \<longrightarrow> (\<exists>b0. bss_heap s q = Some b0 \<and> uncounted b = uncounted b0))"
proof -
  from unlink_ok [of s "owned s ext" p] assms obtain s' where
    s': "unlink_bss p s = Some (removable s p, s')"
      "if removable s p
       then heap_ok s' ((owned s ext)(p := owned s ext p - 1)) \<and> table_ok s' \<and> bss_list s' = remove1 p (bss_list s) \<and> bss_fresh s' = bss_fresh s \<and>
         (\<forall>q b. bss_heap s' q = Some b \<longrightarrow> (\<exists>b0. bss_heap s q = Some b0 \<and> uncounted b = uncounted b0))
       else s' = s"
    by (auto simp: bss_inv_def owned_def)
  show ?thesis
  proof (cases "removable s p")
    case True
    have d: "distinct (bss_list s)" using assms(1) by (simp add: bss_inv_def table_ok_def)
    have "(owned s ext)(p := owned s ext p - 1) = owned s' ext"
      using True s'(2) assms(2) d by (auto simp: owned_def fun_eq_iff set_remove1_eq)
    with True s' show ?thesis by (simp add: bss_inv_def)
  qed (use s' assms in auto)
qed

section \<open>Updates of entries\<close>

lemma inv_same:
  assumes "bss_inv s ext" "bss_heap s' = bss_heap s" "bss_fresh s' = bss_fresh s" "hidden_rings s' = hidden_rings s" "bss_list s' = bss_list s"
    "bss_tree s' = bss_tree s" "nontrans_rings s' = nontrans_rings s" "bss_entries s' = bss_entries s"
  shows "bss_inv s' ext"
proof -
  have "live s' = live s" "hid s' = hid s" "cnt s' = cnt s" using view_cong [OF assms(2)] by simp_all
  moreover have "owned s' ext = owned s ext" using assms(5) by (auto simp: owned_def fun_eq_iff)
  ultimately show ?thesis using assms by (simp add: bss_inv_def heap_ok_def rings_ok_def table_ok_def)
qed

lemma inv_live: "bss_inv s ext \<Longrightarrow> owned s ext p > 0 \<Longrightarrow> \<exists>b. bss_heap s p = Some b"
  using countsD(1) [OF heap_okD(1)] liveE unfolding bss_inv_def by blast

lemma list_live: "bss_inv s ext \<Longrightarrow> p \<in> set (bss_list s) \<Longrightarrow> \<exists>b. bss_heap s p = Some b"
  by (erule inv_live) (simp add: owned_def)

text \<open>Fields that do not count.\<close>

lemma upd_ok:
  assumes "heap_ok s own" "bss_heap s p = Some b" "hidden_beacon_bss (f b) = hidden_beacon_bss b" "bss_refcount (f b) = bss_refcount b"
    "transmitted_bss (f b) = transmitted_bss b"
  shows "upd_bss p f s = Some (s\<lparr>bss_heap := (bss_heap s)(p \<mapsto> f b)\<rparr>)" "heap_ok (s\<lparr>bss_heap := (bss_heap s)(p \<mapsto> f b)\<rparr>) own"
proof -
  have "live (s\<lparr>bss_heap := (bss_heap s)(p \<mapsto> f b)\<rparr>) = live s" "hid (s\<lparr>bss_heap := (bss_heap s)(p \<mapsto> f b)\<rparr>) = hid s"
    "cnt (s\<lparr>bss_heap := (bss_heap s)(p \<mapsto> f b)\<rparr>) = cnt s"
    using view_at [OF assms(2)] assms(3,4) by (auto simp: fun_eq_iff)
  then show "heap_ok (s\<lparr>bss_heap := (bss_heap s)(p \<mapsto> f b)\<rparr>) own"
    using assms(1,5) heap_okD(3) [OF assms(1) assms(2)] by (auto simp: heap_ok_def rings_ok_def)
qed (simp add: upd_bss_def assms(2))

lemma tab_upd:
  assumes "bss_inv s ext" "bss_heap s p = Some b" "hidden_beacon_bss (f b) = hidden_beacon_bss b" "bss_refcount (f b) = bss_refcount b"
    "transmitted_bss (f b) = transmitted_bss b"
  shows "\<exists>s'. upd_bss p f s = Some s' \<and> bss_inv s' ext \<and> bss_list s' = bss_list s \<and> bss_fresh s' = bss_fresh s \<and>
    bss_tree s' = bss_tree s \<and> bss_heap s' = (bss_heap s)(p \<mapsto> f b) \<and> hidden_rings s' = hidden_rings s"
proof -
  have ok: "heap_ok s (owned s ext)" using assms(1) by (simp add: bss_inv_def)
  have "owned (s\<lparr>bss_heap := (bss_heap s)(p \<mapsto> f b)\<rparr>) ext = owned s ext" by (simp add: owned_def fun_eq_iff)
  with upd_ok [where f = f, OF ok assms(2-5)] assms(1) show ?thesis by (auto simp: bss_inv_def table_ok_def)
qed

lemma inv_hold: "bss_inv s ext \<Longrightarrow> ext p > 0 \<Longrightarrow> \<exists>s'. count_hold d p s = Some s' \<and> bss_inv s' ext"
proof -
  assume i: "bss_inv s ext" and e: "ext p > 0"
  then obtain b where b: "bss_heap s p = Some b" using inv_live [of s ext p] by (auto simp: owned_def)
  from tab_upd [OF i b, of "\<lambda>b. b\<lparr>bss_hold := bss_hold b + d\<rparr>"] obtain s' where
    s': "upd_bss p (\<lambda>b. b\<lparr>bss_hold := bss_hold b + d\<rparr>) s = Some s'" "bss_inv s' ext" "bss_heap s' = (bss_heap s)(p \<mapsto> b\<lparr>bss_hold := bss_hold b + d\<rparr>)"
    by auto
  have "transmitted_bss b = None" using i b by (simp add: bss_inv_def heap_ok_def)
  with s' show ?thesis by (simp add: count_hold_def)
qed

lemma inv_age:
  assumes "bss_inv s ext" "set ps \<subseteq> set (bss_list s)"
  shows "\<exists>s'. age_loop a ps s = Some s' \<and> bss_inv s' ext"
  using assms
proof (induction ps arbitrary: s)
  case (Cons p ps)
  then obtain b where b: "bss_heap s p = Some b" using list_live [of s ext p] by auto
  from tab_upd [OF Cons.prems(1) b, of "\<lambda>b. b\<lparr>bss_ts := bss_ts b - a\<rparr>"] Cons.IH Cons.prems(2) show ?case by fastforce
qed simp

lemma inv_expire_loop:
  assumes "bss_inv s ext" "set ps \<subseteq> set (bss_list s)" "distinct ps"
  shows "\<exists>x s'. expire_loop t ps x0 s = Some (x, s') \<and> bss_inv s' ext"
  using assms
proof (induction ps arbitrary: s x0)
  case (Cons p ps)
  then have p: "p \<in> set (bss_list s)" by simp
  from list_live [OF Cons.prems(1) this] obtain b where b: "bss_heap s p = Some b" by blast
  from inv_unlink [OF Cons.prems(1) p] obtain s' where
    s': "unlink_bss p s = Some (removable s p, s')" "bss_inv s' ext" "bss_list s' = (if removable s p then remove1 p (bss_list s) else bss_list s)"
    by blast
  have "distinct (bss_list s)" using Cons.prems(1) by (simp add: bss_inv_def table_ok_def)
  then have "set ps \<subseteq> set (bss_list s')" using Cons.prems(2,3) s'(3) by (auto simp: set_remove1_eq)
  with Cons.IH [OF s'(2)] Cons.IH [OF Cons.prems(1)] Cons.prems(2,3) b s'(1) show ?case by simp
qed simp

lemma inv_expire: "bss_inv s ext \<Longrightarrow> \<exists>s'. bss_expire t s = Some s' \<and> bss_inv s' ext"
proof -
  assume i: "bss_inv s ext"
  then have "distinct (bss_list s)" by (simp add: bss_inv_def table_ok_def)
  from inv_expire_loop [OF i subset_refl this] obtain x s' where s': "expire_loop t (bss_list s) False s = Some (x, s')" "bss_inv s' ext" by blast
  have "bss_inv (s'\<lparr>bss_generation := g\<rparr>) ext" for g by (rule inv_same [OF s'(2)]) simp_all
  with s' show ?thesis by (simp add: bss_expire_def)
qed

lemma inv_unlink_bss: "bss_inv s ext \<Longrightarrow> ext p > 0 \<Longrightarrow> \<exists>s'. cfg80211_unlink_bss p s = Some s' \<and> bss_inv s' ext"
proof -
  assume i: "bss_inv s ext" and e: "ext p > 0"
  then obtain b where b: "bss_heap s p = Some b" using inv_live [of s ext p] by (auto simp: owned_def)
  have n: "ring_others p (nontrans_rings s) = []" using i by (simp add: bss_inv_def table_ok_def ring_others_def)
  show ?thesis
  proof (cases "p \<in> set (bss_list s)")
    case True
    from inv_unlink [OF i True] obtain s' where s': "unlink_bss p s = Some (removable s p, s')" "bss_inv s' ext" by blast
    have "bss_inv (s'\<lparr>bss_generation := g\<rparr>) ext" for g by (rule inv_same [OF s'(2)]) simp_all
    then show ?thesis using b n s' True by (simp add: cfg80211_unlink_bss_def unlink_count_def)
  qed (use b i in \<open>simp add: cfg80211_unlink_bss_def\<close>)
qed

lemma inv_set_beacons:
  assumes "bss_inv s ext" "\<forall>p \<in> set ps. live s p"
  shows "\<exists>s'. set_beacons i ps s = Some s' \<and> bss_inv s' ext \<and> live s' = live s \<and> bss_list s' = bss_list s \<and> bss_fresh s' = bss_fresh s"
  using assms
proof (induction ps arbitrary: s)
  case (Cons p ps)
  then obtain b where b: "bss_heap s p = Some b" using liveE [of s p] by auto
  from tab_upd [OF Cons.prems(1) b, of "\<lambda>b. b\<lparr>beacon_ies := i\<rparr>"] obtain s1 where
    s1: "upd_bss p (\<lambda>b. b\<lparr>beacon_ies := i\<rparr>) s = Some s1" "bss_inv s1 ext" "bss_heap s1 = (bss_heap s)(p \<mapsto> b\<lparr>beacon_ies := i\<rparr>)"
      "bss_list s1 = bss_list s" "bss_fresh s1 = bss_fresh s" by auto
  have "live s1 = live s" using s1(3) b by (auto simp: live_def fun_eq_iff)
  with Cons.IH [OF s1(2)] Cons.prems(2) s1 show ?case by simp
qed simp

lemma ring_others_subset: "set (ring_others p rs) \<subseteq> set (concat rs)"
proof (cases "find (\<lambda>r. p \<in> set r) rs")
  case (Some r)
  then have "r \<in> set rs" by (auto simp: find_Some_iff)
  moreover have "set (tl (dropWhile (\<lambda>x. x \<noteq> p) r)) \<subseteq> set r"
    by (metis list.set_sel(2) set_dropWhileD subsetI tl_Nil empty_iff list.set(1))
  moreover have "set (takeWhile (\<lambda>x. x \<noteq> p) r) \<subseteq> set r" by (metis set_takeWhileD subsetI)
  ultimately show ?thesis using Some by (auto simp: ring_others_def)
qed (simp add: ring_others_def)

lemma inv_update_known:
  assumes "bss_inv s ext" "k \<in> set (bss_list s)"
  shows "\<exists>ok s'. update_known_bss k new sv s = Some (ok, s') \<and> bss_inv s' ext \<and> bss_list s' = bss_list s \<and> bss_fresh s' = bss_fresh s"
proof -
  from list_live [OF assms] obtain b where b: "bss_heap s k = Some b" by blast
  have free: "bss_inv (free_ies i s') ext" if "bss_inv s' ext" for i s' by (rule inv_same [OF that]) simp_all
  have uf: "hidden_beacon_bss (update_fields new sv b) = hidden_beacon_bss b" "bss_refcount (update_fields new sv b) = bss_refcount b"
    "transmitted_bss (update_fields new sv b) = transmitted_bss b" for b by (simp_all add: update_fields_def)
  show ?thesis
  proof (cases "proberesp_ies new = None")
    case False
    from tab_upd [OF assms(1) b, of "\<lambda>b. update_fields new sv (b\<lparr>proberesp_ies := proberesp_ies new, bss_ies := proberesp_ies new\<rparr>)"]
    show ?thesis using b False free uf by (auto simp: update_known_bss_def)
  next
    case pn: True
    show ?thesis
    proof (cases "beacon_ies new = None")
      case True
      from tab_upd [OF assms(1) b, of "update_fields new sv"] show ?thesis using b True pn uf by (auto simp: update_known_bss_def)
    next
      case False
      show ?thesis
      proof (cases "hidden_beacon_bss b \<noteq> None \<and> in_ring k (hidden_rings s)")
        case True
        then show ?thesis using b pn False free [OF assms(1)] by (auto simp: update_known_bss_def)
      next
        case nh: False
        define f where "f = (\<lambda>x :: bss_entry. x\<lparr>beacon_ies := beacon_ies new,
                          bss_ies := (if same_ies (beacon_ies b) (bss_ies x) then beacon_ies new else bss_ies x)\<rparr>)"
        from tab_upd [OF assms(1) b, of f] obtain s1 where
          s1: "upd_bss k f s = Some s1" "bss_inv s1 ext" "bss_list s1 = bss_list s" "bss_fresh s1 = bss_fresh s" "hidden_rings s1 = hidden_rings s"
          by (auto simp: f_def)
        have "\<forall>p \<in> set (ring_others k (hidden_rings s1)). live s1 p"
          using s1(2) ring_others_subset by (force simp: bss_inv_def heap_ok_def rings_ok_def simp del: set_concat)
        from inv_set_beacons [OF s1(2) this, of "beacon_ies new"] obtain s2 where
          s2: "set_beacons (beacon_ies new) (ring_others k (hidden_rings s1)) s1 = Some s2" "bss_inv s2 ext" "bss_list s2 = bss_list s1"
            "bss_fresh s2 = bss_fresh s1" by blast
        from free [OF s2(2)] have i3: "bss_inv (free_ies (beacon_ies b) s2) ext" .
        obtain b3 where b3: "bss_heap (free_ies (beacon_ies b) s2) k = Some b3"
          using list_live [OF i3, of k] assms(2) s1(3) s2(3) by auto
        from tab_upd [where f = "update_fields new sv", OF i3 b3 uf] show ?thesis
          using b pn False nh s1 s2 by (auto simp: update_known_bss_def f_def)
      qed
    qed
  qed
qed

section \<open>New entries\<close>

lemma in_ring_set: "in_ring p rs \<longleftrightarrow> p \<in> set (concat rs)"
  by (simp add: in_ring_def list_ex_iff)

lemma insert_after_set:
  assumes "distinct r" "h \<in> set r" "p \<notin> set r"
  shows "distinct (insert_after h p r) \<and> set (insert_after h p r) = insert p (set r)"
proof -
  have r: "takeWhile (\<lambda>x. x \<noteq> h) r @ h # tl (dropWhile (\<lambda>x. x \<noteq> h) r) = r"
    using assms(2) by (metis (mono_tags, lifting) dropWhile_eq_Nil_conv hd_dropWhile list.collapse takeWhile_dropWhile_id)
  have "distinct (takeWhile (\<lambda>x. x \<noteq> h) r @ h # tl (dropWhile (\<lambda>x. x \<noteq> h) r))" "p \<notin> set (takeWhile (\<lambda>x. x \<noteq> h) r @ h # tl (dropWhile (\<lambda>x. x \<noteq> h) r))"
    unfolding r using assms by simp_all
  then have "distinct (insert_after h p r)" "set (insert_after h p r) = insert p (set (takeWhile (\<lambda>x. x \<noteq> h) r @ h # tl (dropWhile (\<lambda>x. x \<noteq> h) r)))"
    by (auto simp: insert_after_def)
  then show ?thesis unfolding r by simp
qed

lemma ring_map_ok:
  assumes "distinct (concat rs)" "p \<notin> set (concat rs)"
  shows "distinct (concat (map (\<lambda>r. if h \<in> set r then insert_after h p r else r) rs)) \<and>
    set (concat (map (\<lambda>r. if h \<in> set r then insert_after h p r else r) rs)) =
      (if h \<in> set (concat rs) then insert p (set (concat rs)) else set (concat rs))"
  using assms
proof (induction rs)
  case (Cons r rs)
  have d: "distinct r" "distinct (concat rs)" "set r \<inter> set (concat rs) = {}" "p \<notin> set r" "p \<notin> set (concat rs)"
    using Cons.prems by (auto simp del: set_concat)
  note IH = Cons.IH [OF d(2,5)]
  show ?case
  proof (cases "h \<in> set r")
    case True
    then have "h \<notin> set (concat rs)" using d(3) by blast
    with IH insert_after_set [OF d(1) True d(4)] True d show ?thesis by (auto simp del: set_concat)
  next
    case False
    with IH d show ?thesis by (auto simp del: set_concat)
  qed
qed simp

lemma ring_add_ok:
  assumes "distinct (concat rs)" "p \<notin> set (concat rs)" "h \<noteq> p"
  shows "distinct (concat (ring_add h p rs)) \<and> set (concat (ring_add h p rs)) \<subseteq> {h, p} \<union> set (concat rs)"
proof (cases "h \<in> set (concat rs)")
  case True
  then show ?thesis using ring_map_ok [OF assms(1,2), of h] by (auto simp: ring_add_def in_ring_set simp del: set_concat)
next
  case False
  then show ?thesis using assms by (auto simp: ring_add_def in_ring_set simp del: set_concat)
qed

lemma due_ge: "int (own p) \<le> due n h own p"
  by (simp add: due_def sum_nonneg)

text \<open>An entry joins the group of another: with \<open>x\<close> more references on the beacon.\<close>

lemma join_ok:
  assumes "heap_ok s own" "bss_heap s p = Some b" "bss_heap s h = Some hb" "hidden_beacon_bss b = None" "p \<noteq> h" "int (own p) \<le> x"
    "hidden_beacon_bss (f b) = Some h" "bss_refcount (f b) = bss_refcount b" "transmitted_bss (f b) = None"
    "distinct (concat rs) \<and> set (concat rs) \<subseteq> {h, p} \<union> set (concat (hidden_rings s))"
  shows "\<exists>s'. upd_bss p f (s\<lparr>hidden_rings := rs\<rparr>) = Some (s\<lparr>hidden_rings := rs, bss_heap := (bss_heap s)(p \<mapsto> f b)\<rparr>) \<and>
    count_ref x h (s\<lparr>hidden_rings := rs, bss_heap := (bss_heap s)(p \<mapsto> f b)\<rparr>) = Some s' \<and> heap_ok s' own \<and>
    hidden_rings s' = rs \<and> bss_heap s' = (bss_heap s)(p \<mapsto> f b, h \<mapsto> hb\<lparr>bss_refcount := bss_refcount hb + x\<rparr>) \<and>
    bss_list s' = bss_list s \<and> bss_tree s' = bss_tree s \<and> bss_entries s' = bss_entries s \<and> nontrans_rings s' = nontrans_rings s \<and>
    bss_fresh s' = bss_fresh s"
proof -
  define s' where "s' = s\<lparr>hidden_rings := rs, bss_heap := (bss_heap s)(p \<mapsto> f b, h \<mapsto> hb\<lparr>bss_refcount := bss_refcount hb + x\<rparr>)\<rparr>"
  have u: "upd_bss p f (s\<lparr>hidden_rings := rs\<rparr>) = Some (s\<lparr>hidden_rings := rs, bss_heap := (bss_heap s)(p \<mapsto> f b)\<rparr>)"
    using assms(2) by (simp add: upd_bss_def)
  have c: "count_ref x h (s\<lparr>hidden_rings := rs, bss_heap := (bss_heap s)(p \<mapsto> f b)\<rparr>) = Some s'"
    using assms(3,5) by (simp add: count_ref_def upd_bss_def s'_def)
  note ap = view_at [OF assms(2)] and ah = view_at [OF assms(3)]
  have v: "live s' = live s" "hid s' = (hid s)(p := Some h)" "cnt s' = (cnt s)(h := cnt s h + x)"
    using ap ah assms(2,3,5,7,8) by (auto simp: s'_def live_def hid_def cnt_def fun_eq_iff)
  note cn = heap_okD(1) [OF assms(1)]
  note d = countsD [OF cn]
  have pn: "p < bss_fresh s" using d(2) ap by blast
  have due': "due (bss_fresh s) (hid s') own q = due (bss_fresh s) (hid s) own q + (if h = q then int (own p) else 0)" for q
    unfolding v using due_hid [OF pn, of "hid s" "Some h" own q] ap assms(4) by auto
  have "counts (bss_fresh s) (live s') (hid s') (cnt s') own"
    unfolding counts_def
  proof (intro conjI allI impI)
    fix q y
    show "live s' q" if "own q > 0" using d(1) that v by simp
    show "q < bss_fresh s" if "live s' q" using d(2) that v by simp
    show "live s' y" "y \<noteq> q" if "own q > 0" "hid s' q = Some y"
      using d(3) [of q y] that ah assms(5) v by (auto split: if_splits)
    show "due (bss_fresh s) (hid s') own q \<le> cnt s' q" if "live s' q"
      using d(4) [of q] that due' [of q] assms(6) v by auto
  qed
  moreover have "rings_ok s'"
  proof -
    note ro = heap_okD(2) [OF assms(1)]
    show ?thesis using assms(10) ro ap ah v by (auto simp: rings_ok_def s'_def [THEN arg_cong [where f = hidden_rings]] simp del: set_concat)
  qed
  moreover have "transmitted_bss y = None" if "bss_heap s' q = Some y" for q y
    using that heap_okD(3) [OF assms(1)] assms(3,9) by (auto simp: s'_def split: if_splits)
  ultimately have "heap_ok s' own" by (auto simp: heap_ok_def s'_def)
  with u c show ?thesis by (auto simp: s'_def)
qed

text \<open>Room for one more entry, even when one that may be removed becomes the head of a group.\<close>

definition spare :: "bss_table \<Rightarrow> nat \<Rightarrow> bool" where
  "spare s p \<longleftrightarrow> removable s p \<and> (case bss_heap s p of None \<Rightarrow> False | Some b \<Rightarrow> bss_hold b = 0)"

definition room :: "bss_table \<Rightarrow> bool" where
  "room s \<longleftrightarrow> bss_entries s < bss_entries_limit \<or> 2 \<le> length (filter (spare s) (bss_list s))"

lemma two_members: "2 \<le> length xs \<Longrightarrow> distinct xs \<Longrightarrow> \<exists>x y. x \<in> set xs \<and> y \<in> set xs \<and> x \<noteq> y"
  by (cases xs; cases "tl xs") auto

lemma oldest_ok:
  assumes "\<forall>p \<in> set ps. live s p" "case old of None \<Rightarrow> True | Some (q, _) \<Rightarrow> q \<in> Q \<and> removable s q" "set ps \<subseteq> Q"
  shows "\<exists>r. oldest_loop s ps old = Some r \<and> (case r of None \<Rightarrow> old = None \<and> (\<forall>p \<in> set ps. \<not> spare s p) | Some (q, _) \<Rightarrow> q \<in> Q \<and> removable s q)"
  using assms
proof (induction ps arbitrary: old)
  case Nil
  then show ?case by (cases old) auto
next
  case (Cons p ps)
  obtain b where b: "bss_heap s p = Some b" using Cons.prems(1) liveE [of s p] by auto
  note at = view_at [OF b]
  have sp: "spare s p \<longleftrightarrow> \<not> (bss_hold b \<noteq> 0 \<or> in_ring p (hidden_rings s) \<and> hidden_beacon_bss b = None)"
    using b at by (auto simp: spare_def removable_def)
  show ?case
  proof (cases "bss_hold b \<noteq> 0 \<or> in_ring p (hidden_rings s) \<and> hidden_beacon_bss b = None \<or>
      (case old of None \<Rightarrow> False | Some (_, ts) \<Rightarrow> time_before ts (bss_ts b))")
    case True
    then have e: "oldest_loop s (p # ps) old = oldest_loop s ps old" using b by simp
    have "spare s p \<Longrightarrow> old \<noteq> None" using True sp by (auto split: option.splits)
    with Cons.IH [of old] Cons.prems show ?thesis unfolding e by (fastforce split: option.splits)
  next
    case False
    then have e: "oldest_loop s (p # ps) old = oldest_loop s ps (Some (p, bss_ts b))" using b by auto
    have "removable s p" using False sp by (auto simp: spare_def)
    with Cons.IH [of "Some (p, bss_ts b)"] Cons.prems show ?thesis unfolding e by (fastforce split: option.splits)
  qed
qed

lemma expire_oldest_ok:
  assumes "heap_ok s own" "table_ok s" "\<forall>p \<in> set (bss_list s). own p > 0" "p \<in> set (bss_list s)" "spare s p"
  shows "\<exists>q s'. bss_expire_oldest s = Some (True, s') \<and> q \<in> set (bss_list s) \<and> heap_ok s' (own(q := own q - 1)) \<and> table_ok s' \<and>
    bss_list s' = remove1 q (bss_list s) \<and> bss_fresh s' = bss_fresh s"
proof -
  have "\<forall>p \<in> set (bss_list s). live s p" using assms(3) countsD(1) [OF heap_okD(1) [OF assms(1)]] by blast
  from oldest_ok [OF this, where old = None and Q = "set (bss_list s)"] assms(4,5) obtain q t where
    q: "oldest_loop s (bss_list s) None = Some (Some (q, t))" "q \<in> set (bss_list s)" "removable s q"
    by (force split: option.splits)
  with unlink_ok [OF assms(1,2), of q] assms(3) show ?thesis by (auto simp: bss_expire_oldest_def)
qed

lemma descend_live:
  "\<forall>q \<in> set (rb_inorder t). live s q \<Longrightarrow>
   bss_descend res mode s t up = Some (rb_descend (\<lambda>q. case bss_heap s q of None \<Rightarrow> 0 | Some b \<Rightarrow> cmp_bss res b mode) t up)"
  by (induction t arbitrary: up) (auto simp: Let_def live_def)

lemma insert_bss_ok:
  assumes "\<forall>q \<in> set (rb_inorder (bss_tree s)). live s q" "live s p" "rb_tree (bss_tree s)"
  shows "\<exists>t. rb_insert_bss p s = Some (s\<lparr>bss_tree := t\<rparr>) \<and> rb_tree t \<and>
    (t = bss_tree s \<or> (\<exists>a b. rb_inorder (bss_tree s) = a @ b \<and> rb_inorder t = a @ p # b))"
proof -
  obtain b where b: "bss_heap s p = Some b" using assms(2) liveE by blast
  define cmp where "cmp = (\<lambda>q. case bss_heap s q of None \<Rightarrow> 0 | Some c \<Rightarrow> cmp_bss b c BSS_CMP_REGULAR)"
  have d: "bss_descend b BSS_CMP_REGULAR s (bss_tree s) [] = Some (rb_descend cmp (bss_tree s) [])"
    unfolding cmp_def by (rule descend_live [OF assms(1)])
  show ?thesis
  proof (cases "rb_descend cmp (bss_tree s) []")
    case (Pair x up)
    show ?thesis
    proof (cases x)
      case None
      obtain h where "rb_shape h (bss_tree s)" "\<not> rb_is_red (bss_tree s)" using assms(3) by (auto simp: rb_tree_def)
      with descend_position [of cmp "bss_tree s" "[]" h] Pair None
      have u: "rb_up_ok 0 False up" "rb_inorder (bss_tree s) = rb_before up @ rb_after up" by simp_all
      from rb_insert_color_ok [OF u(1), of p] show ?thesis using u(2) b d Pair None by (auto simp: rb_insert_bss_def)
    next
      case (Some y)
      then show ?thesis using assms(3) b d Pair by (intro exI [of _ "bss_tree s"]) (simp add: rb_insert_bss_def)
    qed
  qed
qed

text \<open>What joining a group leaves as it was.\<close>

definition joined :: "nat \<Rightarrow> bss_table \<Rightarrow> bss_table \<Rightarrow> bool" where
  "joined n s s' \<longleftrightarrow> bss_list s' = bss_list s \<and> bss_tree s' = bss_tree s \<and> bss_entries s' = bss_entries s \<and>
     nontrans_rings s' = nontrans_rings s \<and> bss_fresh s' = bss_fresh s \<and> live s' = live s"

lemma combine_one_ok:
  assumes "heap_ok s own" "bss_heap s p = Some b" "bss_heap s n = Some new" "hidden_beacon_bss b = None" "p \<noteq> n"
  shows "\<exists>s'. combine_one n p s = Some s' \<and> heap_ok s' own \<and> joined n s s' \<and> (\<forall>q. q \<noteq> n \<longrightarrow> spare s q \<longrightarrow> spare s' q)"
proof -
  note ap = view_at [OF assms(2)]
  have rings: "distinct (concat (ring_add n p (ring_del p (hidden_rings s)))) \<and>
      set (concat (ring_add n p (ring_del p (hidden_rings s)))) \<subseteq> {n, p} \<union> set (concat (hidden_rings s))"
    using ring_del_ok [of "hidden_rings s" p] heap_okD(2) [OF assms(1)] ring_add_ok [of "ring_del p (hidden_rings s)" p n] assms(5)
    by (auto simp: rings_ok_def simp del: set_concat)
  have own: "int (own p) \<le> bss_refcount b" using due_ge [of own p "bss_fresh s" "hid s"] countsD(4) [OF heap_okD(1) [OF assms(1)], of p] ap by simp
  have tr: "transmitted_bss b = None" by (rule heap_okD(3) [OF assms(1,2)])
  from join_ok [where f = "\<lambda>b. b\<lparr>hidden_beacon_bss := Some n, beacon_ies := beacon_ies new\<rparr>", OF assms(1-5) own _ _ _ rings] tr
  obtain s' where
    s': "combine_one n p s = Some s'" "heap_ok s' own" "hidden_rings s' = ring_add n p (ring_del p (hidden_rings s))"
      "bss_heap s' = (bss_heap s)(p \<mapsto> b\<lparr>hidden_beacon_bss := Some n, beacon_ies := beacon_ies new\<rparr>,
         n \<mapsto> new\<lparr>bss_refcount := bss_refcount new + bss_refcount b\<rparr>)"
      "bss_list s' = bss_list s" "bss_tree s' = bss_tree s" "bss_entries s' = bss_entries s" "nontrans_rings s' = nontrans_rings s"
      "bss_fresh s' = bss_fresh s"
    using assms(2,3) by (auto simp: combine_one_def Let_def)
  have "live s' = live s" using s'(4) assms(2,3) by (auto simp: live_def fun_eq_iff)
  moreover have "spare s' q" if "q \<noteq> n" "spare s q" for q
  proof (cases "q = p")
    case True
    then show ?thesis using s'(4) that assms(2,5) by (auto simp: spare_def removable_def hid_def)
  next
    case False
    have "in_ring q (hidden_rings s') \<Longrightarrow> in_ring q (hidden_rings s)"
      unfolding s'(3) in_ring_set using rings that False by auto
    then show ?thesis using s'(4) that False by (auto simp: spare_def removable_def hid_def split: option.splits)
  qed
  ultimately show ?thesis using s' by (auto simp: joined_def)
qed

lemma combine_loop_ok:
  assumes "heap_ok s own" "\<forall>p \<in> set ps. live s p \<and> p \<noteq> n" "live s n"
  shows "\<exists>s'. combine_loop n k ps s = Some s' \<and> heap_ok s' own \<and> joined n s s' \<and> (\<forall>q. q \<noteq> n \<longrightarrow> spare s q \<longrightarrow> spare s' q)"
  using assms
proof (induction ps arbitrary: s)
  case Nil
  then show ?case by (simp add: joined_def)
next
  case (Cons p ps)
  obtain b new where b: "bss_heap s p = Some b" and n: "bss_heap s n = Some new" using Cons.prems(2,3) liveE by (metis list.set_intros(1))
  show ?case
  proof (cases "combines new k b")
    case True
    then have "hidden_beacon_bss b = None" by (simp add: combines_def)
    from combine_one_ok [OF Cons.prems(1) b n this] Cons.prems(2) obtain s1 where
      s1: "combine_one n p s = Some s1" "heap_ok s1 own" "joined n s s1" "\<forall>q. q \<noteq> n \<longrightarrow> spare s q \<longrightarrow> spare s1 q" by auto
    have l: "\<forall>p \<in> set ps. live s1 p \<and> p \<noteq> n" "live s1 n" using s1(3) Cons.prems(2,3) by (auto simp: joined_def)
    from Cons.IH [OF s1(2) l] s1 b n True show ?thesis by (auto simp: joined_def)
  next
    case False
    with Cons.IH [OF Cons.prems(1)] Cons.prems(2,3) b n show ?thesis by auto
  qed
qed

lemma counts_new:
  assumes "counts n lv h c own" "h n = None"
  shows "counts (Suc n) (lv(n := True)) (h(n := None)) (c(n := 1)) (own(n := 1))"
proof -
  note d = countsD [OF assms(1)]
  have nl: "\<not> lv n" using d(2) by blast
  then have z: "own n = 0" using d(1) by auto
  have hn: "h(n := None) = h" using assms(2) by auto
  have due': "due (Suc n) h (own(n := 1)) q = due n h own q + (if n = q then 1 else 0)" for q
    using due_own [of n "Suc n" h own 1 q] due_fresh [where own = own and n = n, OF z] z assms(2) by auto
  have zn: "due n h own n = 0"
  proof -
    have "(if h q = Some n then int (own q) else 0) = 0" for q using d(3) [of q n] nl by auto
    then show ?thesis using z by (simp add: due_def)
  qed
  show ?thesis unfolding counts_def hn
  proof (intro conjI allI impI)
    fix q y
    show "(lv(n := True)) q" if "(own(n := 1)) q > 0" using that d(1) by (auto split: if_splits)
    show "q < Suc n" if "(lv(n := True)) q" using that d(2) [of q] by (auto split: if_splits)
    show "(lv(n := True)) y" "y \<noteq> q" if "(own(n := 1)) q > 0" "h q = Some y" using that d(3) [of q y] assms(2) by (auto split: if_splits)
    show "due (Suc n) h (own(n := 1)) q \<le> (c(n := 1)) q" if "(lv(n := True)) q"
      using that d(4) [of q] due' [of q] zn by (auto split: if_splits)
  qed
qed

lemma find_bss_ok:
  assumes "table_ok s" "\<forall>p \<in> set (bss_list s). live s p"
  shows "\<exists>r. rb_find_bss tmp mode s = Some r \<and> (case r of None \<Rightarrow> True | Some k \<Rightarrow> k \<in> set (bss_list s))"
proof -
  have "\<forall>q \<in> set (rb_inorder (bss_tree s)). live s q" using assms by (auto simp: table_ok_def)
  note d = descend_live [OF this, of tmp mode "[]"]
  show ?thesis using descend_found [of _ "bss_tree s" "[]"] assms(1) unfolding rb_find_bss_def d
    by (fastforce simp: table_ok_def split: option.split)
qed

lemma join_hidden_ok:
  assumes "heap_ok s own" "table_ok s" "\<forall>p \<in> set (bss_list s). live s p" "bss_heap s n = Some b" "hidden_beacon_bss b = None"
    "n \<notin> set (bss_list s)" "n \<notin> set (concat (hidden_rings s))" "own n = 1" "beacon_ies b = beacon_ies tmp"
    "proberesp_ies tmp \<noteq> None \<or> beacon_ies tmp \<noteq> None"
  shows "\<exists>s' x. join_hidden n tmp s = Some (True, s') \<and> heap_ok s' own \<and> joined n s s' \<and>
    (\<forall>q. q \<in> set (bss_list s) \<longrightarrow> q \<noteq> x \<longrightarrow> spare s q \<longrightarrow> spare s' q)"
proof (cases "proberesp_ies tmp = None")
  case True
  have l: "\<forall>p \<in> set (bss_list s). live s p \<and> p \<noteq> n" using assms(3,6) by auto
  have n: "live s n" using assms(4) by (simp add: live_def)
  from combine_loop_ok [OF assms(1) l n] assms(1,4,6,9,10) True show ?thesis
    by (fastforce simp: join_hidden_def combine_bsses_def joined_def split: option.splits)
next
  case False
  obtain r where r: "find_hidden tmp s = Some r" "case r of None \<Rightarrow> True | Some h \<Rightarrow> h \<in> set (bss_list s)"
  proof -
    obtain r1 where r1: "rb_find_bss tmp BSS_CMP_HIDE_ZLEN s = Some r1" "case r1 of None \<Rightarrow> True | Some k \<Rightarrow> k \<in> set (bss_list s)"
      using find_bss_ok [OF assms(2,3)] by blast
    obtain r2 where r2: "rb_find_bss tmp BSS_CMP_HIDE_NUL s = Some r2" "case r2 of None \<Rightarrow> True | Some k \<Rightarrow> k \<in> set (bss_list s)"
      using find_bss_ok [OF assms(2,3)] by blast
    show thesis using that r1 r2 by (cases r1) (auto simp: find_hidden_def)
  qed
  show ?thesis
  proof (cases r)
    case None
    then show ?thesis using False r assms(1) by (auto simp: join_hidden_def joined_def)
  next
    case (Some h)
    then have h: "h \<in> set (bss_list s)" "h \<noteq> n" using r assms(6) by auto
    then obtain hb where hb: "bss_heap s h = Some hb" using assms(3) liveE by blast
    have rings: "distinct (concat (ring_add h n (hidden_rings s))) \<and>
        set (concat (ring_add h n (hidden_rings s))) \<subseteq> {h, n} \<union> set (concat (hidden_rings s))"
      using heap_okD(2) [OF assms(1)] ring_add_ok [of "hidden_rings s" n h] assms(7) h(2) by (auto simp: rings_ok_def simp del: set_concat)
    have tr: "transmitted_bss b = None" by (rule heap_okD(3) [OF assms(1,4)])
    have own: "int (own n) \<le> 1" using assms(8) by simp
    from join_ok [where f = "\<lambda>b. b\<lparr>hidden_beacon_bss := Some h, beacon_ies := beacon_ies hb\<rparr>", OF assms(1,4) hb assms(5) h(2) [symmetric] own _ _ _ rings] tr
    obtain s' where
      s': "join_hidden n tmp s = Some (True, s')" "heap_ok s' own" "hidden_rings s' = ring_add h n (hidden_rings s)"
        "bss_heap s' = (bss_heap s)(n \<mapsto> b\<lparr>hidden_beacon_bss := Some h, beacon_ies := beacon_ies hb\<rparr>,
           h \<mapsto> hb\<lparr>bss_refcount := bss_refcount hb + 1\<rparr>)"
        "bss_list s' = bss_list s" "bss_tree s' = bss_tree s" "bss_entries s' = bss_entries s" "nontrans_rings s' = nontrans_rings s"
        "bss_fresh s' = bss_fresh s"
      using False r(1) Some hb by (auto simp: join_hidden_def)
    have "live s' = live s" using s'(4) assms(4) hb by (auto simp: live_def fun_eq_iff)
    moreover have "spare s' q" if "q \<in> set (bss_list s)" "q \<noteq> h" "spare s q" for q
    proof -
      have "q \<noteq> n" using that(1) assms(6) by auto
      moreover have "in_ring q (hidden_rings s') \<Longrightarrow> in_ring q (hidden_rings s)"
        unfolding s'(3) in_ring_set using rings that(2) \<open>q \<noteq> n\<close> by auto
      ultimately show ?thesis using s'(4) that by (auto simp: spare_def removable_def hid_def split: option.splits)
    qed
    ultimately show ?thesis using s' by (auto simp: joined_def)
  qed
qed

end
