(* ===== verification/Bss_Safe.thy ===== *)
theory Bss_Safe
  imports Bss_Props
begin

text \<open>
  The table of scan results as its users drive it: frames received without sets of networks, lookups, references taken and given
  back, holds, removals, expiry and age, in any order. No operation uses an entry that was freed, and the table stays within its
  limit.
\<close>

section \<open>A new entry\<close>

lemma insert_new_ok:
  assumes "heap_ok s own" "table_ok s" "\<forall>p \<in> set (bss_list s). own p > 0" "n \<notin> set (bss_list s)" "own n > 0"
    "length (bss_list s) < unat bss_entries_limit"
  shows "\<exists>s'. rb_insert_bss n (s\<lparr>bss_list := bss_list s @ [n], bss_entries := bss_entries s + 1\<rparr>) = Some s' \<and> heap_ok s' own \<and>
    table_ok s' \<and> bss_list s' = bss_list s @ [n] \<and> bss_fresh s' = bss_fresh s"
proof -
  define s4 where "s4 = s\<lparr>bss_list := bss_list s @ [n], bss_entries := bss_entries s + 1\<rparr>"
  have lv: "own p > 0 \<Longrightarrow> live s p" for p using countsD(1) [OF heap_okD(1) [OF assms(1)]] by blast
  have v: "live s4 = live s" "hid s4 = hid s" "cnt s4 = cnt s" using view_cong [of s4 s] by (simp_all add: s4_def)
  note t = assms(2) [unfolded table_ok_def]
  have "\<forall>q \<in> set (rb_inorder (bss_tree s4)). live s4 q" using t assms(3) lv v by (auto simp: s4_def)
  from insert_bss_ok [OF this, of n] obtain tr where
    tr: "rb_insert_bss n s4 = Some (s4\<lparr>bss_tree := tr\<rparr>)" "rb_tree tr"
      "tr = bss_tree s4 \<or> (\<exists>a b. rb_inorder (bss_tree s4) = a @ b \<and> rb_inorder tr = a @ n # b)"
    using t lv [OF assms(5)] v by (auto simp: s4_def)
  have "set (rb_inorder tr) \<subseteq> insert n (set (bss_list s))" "distinct (rb_inorder tr)"
    using tr(3) t assms(4) by (auto simp: s4_def)
  then have "table_ok (s4\<lparr>bss_tree := tr\<rparr>)" using tr(2) t assms(4,6) by (simp add: table_ok_def s4_def add.commute)
  moreover have "live (s4\<lparr>bss_tree := tr\<rparr>) = live s" "hid (s4\<lparr>bss_tree := tr\<rparr>) = hid s" "cnt (s4\<lparr>bss_tree := tr\<rparr>) = cnt s"
    using view_cong [of "s4\<lparr>bss_tree := tr\<rparr>" s] by (simp_all add: s4_def)
  then have "heap_ok (s4\<lparr>bss_tree := tr\<rparr>) own" using assms(1) by (simp add: heap_ok_def rings_ok_def s4_def)
  ultimately show ?thesis using tr(1) by (auto simp: s4_def)
qed

lemma limit_length: "table_ok s \<Longrightarrow> bss_entries s < bss_entries_limit \<longleftrightarrow> length (bss_list s) < unat bss_entries_limit"
proof -
  assume t: "table_ok s"
  then have "unat (bss_entries s) = length (bss_list s)"
    by (simp add: table_ok_def bss_entries_limit_def unsigned_of_nat take_bit_nat_eq_self)
  then show ?thesis by (simp add: word_less_nat_alt)
qed

text \<open>The state when the copy of the entry is made.\<close>

lemma copy_ok:
  assumes "bss_inv s ext" "hidden_beacon_bss tmp = None" "transmitted_bss tmp = None"
    and s0: "s0 = s\<lparr>bss_fresh := bss_fresh s + 1, bss_heap := (bss_heap s)(bss_fresh s \<mapsto> tmp\<lparr>bss_refcount := 1\<rparr>)\<rparr>"
  shows "heap_ok s0 ((owned s ext)(bss_fresh s := 1))" "table_ok s0" "owned s ext (bss_fresh s) = 0"
    "bss_fresh s \<notin> set (concat (hidden_rings s0))" "\<forall>p \<in> set (bss_list s). live s0 p"
proof -
  define n where "n = bss_fresh s"
  have h: "heap_ok s (owned s ext)" and t: "table_ok s" using assms(1) by (simp_all add: bss_inv_def)
  note c = heap_okD(1) [OF h]
  have nl: "\<not> live s n" using countsD(2) [OF c, of n] by (auto simp: n_def)
  show z: "owned s ext (bss_fresh s) = 0" using countsD(1) [OF c, of n] nl by (auto simp: n_def)
  have v: "live s0 = (live s)(n := True)" "hid s0 = (hid s)(n := None)" "cnt s0 = (cnt s)(n := 1)"
    using assms(2) by (auto simp: s0 n_def live_def hid_def cnt_def fun_eq_iff)
  have "hid s n = None" using nl by (simp add: live_def hid_def)
  from counts_new [OF c [folded n_def] this] have "counts (bss_fresh s0) (live s0) (hid s0) (cnt s0) ((owned s ext)(n := 1))"
    unfolding v by (simp add: s0 n_def)
  moreover have "rings_ok s0" using heap_okD(2) [OF h] by (auto simp: rings_ok_def v) (auto simp: s0)
  ultimately show "heap_ok s0 ((owned s ext)(bss_fresh s := 1))"
    using heap_okD(3) [OF h] assms(3) by (auto simp: heap_ok_def n_def) (auto simp: s0 split: if_splits)
  show "table_ok s0" using t by (simp add: table_ok_def s0)
  show "bss_fresh s \<notin> set (concat (hidden_rings s0))" using heap_okD(2) [OF h] nl by (auto simp: rings_ok_def s0 n_def)
  show "\<forall>p \<in> set (bss_list s). live s0 p" using countsD(1) [OF c] by (auto simp: v owned_def)
qed

lemma inv_new:
  assumes "bss_inv s ext" "room s" "hidden_beacon_bss tmp = None" "transmitted_bss tmp = None"
    "proberesp_ies tmp \<noteq> None \<or> beacon_ies tmp \<noteq> None"
  shows "\<exists>s'. new_bss tmp s = Some (Some (bss_fresh s), s') \<and> bss_inv s' ext \<and> bss_fresh s \<in> set (bss_list s')"
proof -
  define n where "n = bss_fresh s"
  define s0 where "s0 = s\<lparr>bss_fresh := n + 1, bss_heap := (bss_heap s)(n \<mapsto> tmp\<lparr>bss_refcount := 1\<rparr>)\<rparr>"
  define own where "own = (owned s ext)(n := 1)"
  note c = copy_ok [OF assms(1,3,4) s0_def [unfolded n_def], folded n_def own_def]
  have l0: "bss_list s0 = bss_list s" "bss_entries s0 = bss_entries s" "bss_fresh s0 = Suc n"
    "bss_heap s0 n = Some (tmp\<lparr>bss_refcount := 1\<rparr>)" by (simp_all add: s0_def)
  have nl: "n \<notin> set (bss_list s)" and en: "ext n = 0" using c(3) by (auto simp: owned_def split: if_splits)
  obtain s1 x where s1: "join_hidden n tmp s0 = Some (True, s1)" "heap_ok s1 own" "joined n s0 s1"
    "\<And>q. q \<in> set (bss_list s) \<Longrightarrow> q \<noteq> x \<Longrightarrow> spare s0 q \<Longrightarrow> spare s1 q"
    using join_hidden_ok [OF c(1,2) _ l0(4), of tmp] c(4,5) nl assms(3,5) by (auto simp: l0 own_def)
  have t1: "table_ok s1" using c(2) s1(3) by (simp add: joined_def table_ok_def)
  have l1: "bss_list s1 = bss_list s" "bss_entries s1 = bss_entries s" "bss_fresh s1 = Suc n" using s1(3) l0 by (simp_all add: joined_def)
  have op: "\<forall>p \<in> set (bss_list s). own p > 0" by (simp add: own_def owned_def)
  have sp: "spare s q \<Longrightarrow> q \<in> set (bss_list s) \<Longrightarrow> spare s0 q" for q
    using nl by (auto simp: spare_def removable_def hid_def s0_def)
  obtain s2 own2 where s2: "(if bss_entries_limit \<le> bss_entries s1 then bss_expire_oldest s1 else Some (True, s1)) = Some (True, s2)"
    "heap_ok s2 own2" "table_ok s2" "length (bss_list s2) < unat bss_entries_limit"
    "set (bss_list s2) \<subseteq> set (bss_list s)" "own2 n = 1" "\<And>p. own2 p = ext p + (if p \<in> set (bss_list s2 @ [n]) then 1 else 0)"
  proof (cases "bss_entries_limit \<le> bss_entries s1")
    case False
    then have "length (bss_list s1) < unat bss_entries_limit" using limit_length [OF t1] by (simp add: not_le)
    then show thesis using that [of s1 own] False s1(2) t1 l1 en nl by (auto simp: own_def owned_def)
  next
    case True
    have d: "distinct (bss_list s)" using assms(1) by (simp add: bss_inv_def table_ok_def)
    have "2 \<le> length (filter (spare s) (bss_list s))" using assms(2) True by (auto simp: room_def l1)
    from two_members [OF this] d obtain a b where ab: "a \<in> set (bss_list s)" "spare s a" "b \<in> set (bss_list s)" "spare s b" "a \<noteq> b" by auto
    then obtain q where q: "q \<in> set (bss_list s)" "spare s q" "q \<noteq> x" by (cases "a = x") auto
    have "spare s1 q" by (rule s1(4) [OF q(1,3) sp [OF q(2,1)]])
    from expire_oldest_ok [OF s1(2) t1, of q] this op q(1) obtain y s2 where
      y: "bss_expire_oldest s1 = Some (True, s2)" "y \<in> set (bss_list s)" "heap_ok s2 (own(y := own y - 1))" "table_ok s2"
        "bss_list s2 = remove1 y (bss_list s)" by (auto simp: l1)
    have yn: "y \<noteq> n" using y(2) nl by auto
    have len: "length (bss_list s2) < length (bss_list s)" using y(2,5) length_pos_if_in_set [OF y(2)] by (simp add: length_remove1)
    have "length (bss_list s) \<le> unat bss_entries_limit" using assms(1) by (simp add: bss_inv_def table_ok_def)
    with len have "length (bss_list s2) < unat bss_entries_limit" by simp
    moreover have "(own(y := own y - 1)) p = ext p + (if p \<in> set (bss_list s2 @ [n]) then 1 else 0)" for p
      using y(2,5) yn en d by (auto simp: own_def owned_def set_remove1_eq)
    moreover have "(own(y := own y - 1)) n = 1" using yn by (simp add: own_def)
    moreover have "set (bss_list s2) \<subseteq> set (bss_list s)" using y(5) by (simp add: set_remove1_subset)
    ultimately show thesis using that [of s2 "own(y := own y - 1)"] True y(1,3,4) by simp
  qed
  have "n \<notin> set (bss_list s2)" using s2(5) nl by auto
  then obtain s' where
    s': "rb_insert_bss n (s2\<lparr>bss_list := bss_list s2 @ [n], bss_entries := bss_entries s2 + 1\<rparr>) = Some s'" "heap_ok s' own2" "table_ok s'"
      "bss_list s' = bss_list s2 @ [n]"
    using insert_new_ok [OF s2(2,3) _ _ _ s2(4), of n] s2(6,7) by auto
  have "own2 = owned s' ext" by (rule ext) (simp add: s2(7) owned_def s'(4))
  then have "bss_inv s' ext" using s'(2,3) by (simp add: bss_inv_def)
  moreover have "new_bss tmp s = Some (Some n, s')"
    using s1(1) s2(1) assms(4) s'(1) unfolding new_bss_def Let_def n_def [symmetric] s0_def [symmetric] by simp
  ultimately show ?thesis using s'(4) by (auto simp: n_def)
qed

text \<open>What a caller of the update holds afterwards.\<close>

definition acquired :: "nat option \<Rightarrow> (nat \<Rightarrow> nat) \<Rightarrow> nat \<Rightarrow> nat" where
  "acquired r ext = (case r of None \<Rightarrow> ext | Some p \<Rightarrow> ext(p := ext p + 1))"

lemma inv_update:
  assumes "bss_inv s ext" "room s" "hidden_beacon_bss tmp = None" "transmitted_bss tmp = None"
    "proberesp_ies tmp \<noteq> None \<or> beacon_ies tmp \<noteq> None"
  shows "\<exists>r s'. cfg80211_bss_update k tmp sv ts s = Some (r, s') \<and> bss_inv s' (acquired r ext)"
proof (cases "bss_ies tmp = None")
  case True
  then show ?thesis using assms(1) by (auto simp: cfg80211_bss_update_def acquired_def)
next
  case ies: False
  define tmp1 where "tmp1 = tmp\<lparr>bss_ts := ts\<rparr>"
  have t1: "hidden_beacon_bss tmp1 = None" "transmitted_bss tmp1 = None" "proberesp_ies tmp1 \<noteq> None \<or> beacon_ies tmp1 \<noteq> None"
    "bss_ies tmp1 \<noteq> None" using assms(3-5) ies by (simp_all add: tmp1_def)
  have lv: "\<forall>p \<in> set (bss_list s). live s p" using list_live [OF assms(1)] by (auto simp: live_def)
  have tab: "table_ok s" using assms(1) by (simp add: bss_inv_def)
  from find_bss_ok [OF tab lv, of tmp1 BSS_CMP_REGULAR] obtain r where
    r: "rb_find_bss tmp1 BSS_CMP_REGULAR s = Some r" "case r of None \<Rightarrow> True | Some k \<Rightarrow> k \<in> set (bss_list s)" by blast
  define inner where "inner = (case r of
      Some k \<Rightarrow> (case update_known_bss k tmp1 sv s of None \<Rightarrow> None | Some (ok, s1) \<Rightarrow> Some (if ok then Some k else None, s1))
    | None \<Rightarrow> if k then new_bss tmp1 s else Some (None, free_ies (proberesp_ies tmp1) (free_ies (beacon_ies tmp1) s)))"
  have "\<exists>q s1. inner = Some (q, s1) \<and> bss_inv s1 ext \<and> (case q of None \<Rightarrow> True | Some p \<Rightarrow> p \<in> set (bss_list s1))"
  proof (cases r)
    case None
    have "bss_inv (free_ies i (free_ies j s)) ext" for i j by (rule inv_same [OF assms(1)]) simp_all
    then show ?thesis using None inv_new [OF assms(1,2) t1(1-3)] by (cases k) (auto simp: inner_def)
  next
    case (Some q)
    then have "q \<in> set (bss_list s)" using r(2) by simp
    from inv_update_known [OF assms(1) this, of tmp1 sv] Some \<open>q \<in> _\<close> show ?thesis by (fastforce simp: inner_def)
  qed
  then obtain q s1 where q: "inner = Some (q, s1)" "bss_inv s1 ext" "case q of None \<Rightarrow> True | Some p \<Rightarrow> p \<in> set (bss_list s1)" by blast
  have u: "cfg80211_bss_update k tmp sv ts s = (case inner of None \<Rightarrow> None | Some (None, s1) \<Rightarrow> Some (None, s1)
      | Some (Some p, s1) \<Rightarrow> map_option (Pair (Some p)) (bss_ref_get p (s1\<lparr>bss_generation := bss_generation s1 + 1\<rparr>)))"
    using t1(4) r(1) by (auto simp: cfg80211_bss_update_def Let_def tmp1_def [symmetric] inner_def)
  show ?thesis
  proof (cases q)
    case None
    then show ?thesis using u q by (simp add: acquired_def)
  next
    case (Some p)
    have i: "bss_inv (s1\<lparr>bss_generation := bss_generation s1 + 1\<rparr>) ext" by (rule inv_same [OF q(2)]) simp_all
    from inv_get [OF i, of p] q(3) Some obtain s' where
      "bss_ref_get p (s1\<lparr>bss_generation := bss_generation s1 + 1\<rparr>) = Some s'" "bss_inv s' (ext(p := ext p + 1))"
      by (auto simp: owned_def)
    then show ?thesis using u q(1) Some by (simp add: acquired_def)
  qed
qed

lemma inv_frame:
  assumes "bss_inv s ext" "room s"
  shows "\<exists>r s'. inform_single_bss_data ies_ok k unspec adj bs dat ftype addr tsf cap bi ies None s = Some (r, s') \<and> bss_inv s' (acquired r ext)"
proof -
  have i: "bss_inv (s\<lparr>ies_fresh := n\<rparr>) ext" for n by (rule inv_same [OF assms(1)]) simp_all
  have "room (s\<lparr>ies_fresh := n\<rparr>)" for n
  proof -
    have "spare (s\<lparr>ies_fresh := n\<rparr>) = spare s" by (auto simp: fun_eq_iff spare_def removable_def hid_def)
    then show ?thesis using assms(2) by (simp add: room_def)
  qed
  note up = inv_update [OF i this, of "inform_entry _ _ _ _ _ _ _ None"]
  have up': "\<exists>r s'. cfg80211_bss_update k (inform_entry c dat ftype addr cap bi i None) sv ts (s\<lparr>ies_fresh := n\<rparr>) = Some (r, s') \<and> bss_inv s' (acquired r ext)"
    for c i sv ts n by (rule up) (simp_all add: inform_entry_def)
  have out: "\<exists>r s'. Some (None, s) = Some (r, s') \<and> bss_inv s' (acquired r ext)" using assms(1) by (simp add: acquired_def)
  show ?thesis
  proof (cases "unspec \<and> (inf_signal dat < 0 \<or> 100 < inf_signal dat) \<or> \<not> ies_ok \<or>
      cfg80211_get_bss_channel bs ies (inf_chan dat) (inf_scan_width dat) = None")
    case True
    then show ?thesis using out by (auto simp: inform_single_bss_data_def split: option.split)
  next
    case False
    then obtain c where c: "cfg80211_get_bss_channel bs ies (inf_chan dat) (inf_scan_width dat) = Some c" by blast
    define i where "i = \<lparr>ies_ptr = ies_fresh s, ies_tsf = tsf, from_beacon = (ftype = CFG80211_BSS_FTYPE_BEACON), ies_data = ies\<rparr>"
    from up' [of c i "abs (sint (center_freq (inf_chan dat) - center_freq c)) \<le> uint adj" jiffies "ies_fresh s + 1"]
    obtain r s' where
      r: "cfg80211_bss_update k (inform_entry c dat ftype addr cap bi i None) (abs (sint (center_freq (inf_chan dat) - center_freq c)) \<le> uint adj)
            jiffies (s\<lparr>ies_fresh := ies_fresh s + 1\<rparr>) = Some (r, s')" "bss_inv s' (acquired r ext)" by blast
    have "inform_single_bss_data ies_ok k unspec adj bs dat ftype addr tsf cap bi ies None s = Some (r, s')"
      using False c r(1) by (cases r) (auto simp: inform_single_bss_data_def Let_def i_def)
    then show ?thesis using r(2) by blast
  qed
qed

lemma get_loop_ok: "\<forall>p \<in> set ps. live s p \<Longrightarrow> \<exists>r. get_bss_loop P ps s = Some r \<and> (case r of None \<Rightarrow> True | Some p \<Rightarrow> p \<in> set ps)"
  by (induction ps) (auto simp: live_def split: option.splits)

lemma inv_lookup:
  assumes "bss_inv s ext"
  shows "\<exists>r s'. cfg80211_get_bss c a ssid t pr s = Some (r, s') \<and> bss_inv s' (acquired r ext)"
proof -
  have "\<forall>p \<in> set (bss_list s). live s p" using list_live [OF assms] by (auto simp: live_def)
  from get_loop_ok [OF this] obtain r where
    r: "get_bss_loop (bss_wanted c a ssid t pr) (bss_list s) s = Some r" "case r of None \<Rightarrow> True | Some p \<Rightarrow> p \<in> set (bss_list s)" by blast
  show ?thesis
  proof (cases r)
    case None
    then show ?thesis using r assms by (simp add: cfg80211_get_bss_def acquired_def)
  next
    case (Some p)
    then have "owned s ext p > 0" using r(2) by (simp add: owned_def)
    from inv_get [OF assms this] show ?thesis using r(1) Some by (auto simp: cfg80211_get_bss_def acquired_def)
  qed
qed

section \<open>Any use of the table\<close>

text \<open>
  What the drivers and the rest of the stack do: a frame received, a lookup, one more reference, a reference given back, the removal of a
  network, holds, expiry at any time, age. A user only names an entry on which it holds a reference, and does nothing
  otherwise; a frame is taken when the table has room.
\<close>

datatype bss_op =
    Op_frame bool bool bool u8 bands inform_bss cfg80211_bss_frame_type bytes u64 u16 u16 bytes
  | Op_lookup "nat option" "bytes option" "bytes option" ieee80211_bss_type ieee80211_privacy
  | Op_ref nat | Op_put nat | Op_unlink nat | Op_hold nat | Op_unhold nat | Op_expire u64 | Op_age u64

fun may :: "bss_op \<Rightarrow> (nat \<Rightarrow> nat) \<Rightarrow> bss_table \<Rightarrow> bool" where
  "may (Op_frame _ _ _ _ _ _ _ _ _ _ _ _) ext s = room s"
| "may (Op_ref p) ext s = (0 < ext p)"
| "may (Op_put p) ext s = (0 < ext p)"
| "may (Op_unlink p) ext s = (0 < ext p)"
| "may (Op_hold p) ext s = (0 < ext p)"
| "may (Op_unhold p) ext s = (0 < ext p)"
| "may _ ext s = True"

fun bss_do :: "bss_op \<Rightarrow> (nat \<Rightarrow> nat) \<Rightarrow> bss_table \<Rightarrow> ((nat \<Rightarrow> nat) \<times> bss_table) option" where
  "bss_do (Op_frame ies_ok k unspec adj bs dat ftype addr tsf cap bi ies) ext s =
     map_option (\<lambda>(r, s1). (acquired r ext, s1)) (inform_single_bss_data ies_ok k unspec adj bs dat ftype addr tsf cap bi ies None s)"
| "bss_do (Op_lookup c a ssid t pr) ext s = map_option (\<lambda>(r, s1). (acquired r ext, s1)) (cfg80211_get_bss c a ssid t pr s)"
| "bss_do (Op_ref p) ext s = map_option (Pair (acquired (Some p) ext)) (cfg80211_ref_bss (Some p) s)"
| "bss_do (Op_put p) ext s = map_option (Pair (ext(p := ext p - 1))) (cfg80211_put_bss (Some p) s)"
| "bss_do (Op_unlink p) ext s = map_option (Pair ext) (cfg80211_unlink_bss p s)"
| "bss_do (Op_hold p) ext s = map_option (Pair ext) (cfg80211_hold_bss p s)"
| "bss_do (Op_unhold p) ext s = map_option (Pair ext) (cfg80211_unhold_bss p s)"
| "bss_do (Op_expire t) ext s = map_option (Pair ext) (bss_expire t s)"
| "bss_do (Op_age a) ext s = map_option (Pair ext) (cfg80211_bss_age a s)"

fun bss_run :: "bss_op list \<Rightarrow> (nat \<Rightarrow> nat) \<Rightarrow> bss_table \<Rightarrow> ((nat \<Rightarrow> nat) \<times> bss_table) option" where
  "bss_run [] ext s = Some (ext, s)"
| "bss_run (op # ops) ext s =
     (if may op ext s then (case bss_do op ext s of None \<Rightarrow> None | Some (e, s1) \<Rightarrow> bss_run ops e s1) else bss_run ops ext s)"

lemma inv_do:
  assumes "bss_inv s ext" "may op ext s"
  shows "\<exists>e s'. bss_do op ext s = Some (e, s') \<and> bss_inv s' e"
proof -
  note i = assms(1)
  show ?thesis
  proof (cases op)
    case (Op_frame a b c d e f g h j k l m)
    then show ?thesis using inv_frame [OF i, of a b c d e f g h j k l m] assms(2) by fastforce
  next
    case (Op_lookup a b c d e)
    then show ?thesis using inv_lookup [OF i, of a b c d e] by fastforce
  next
    case (Op_ref p)
    then show ?thesis using inv_get [OF i, of p] assms(2) by (auto simp: owned_def cfg80211_ref_bss_def acquired_def)
  next
    case (Op_put p)
    then show ?thesis using inv_put [OF i, of p] assms(2) by (auto simp: cfg80211_put_bss_def)
  next
    case (Op_unlink p)
    then show ?thesis using inv_unlink_bss [OF i, of p] assms(2) by auto
  next
    case (Op_hold p)
    then show ?thesis using inv_hold [OF i, of p 1] assms(2) by (auto simp: cfg80211_hold_bss_def)
  next
    case (Op_unhold p)
    then show ?thesis using inv_hold [OF i, of p "- 1"] assms(2) by (auto simp: cfg80211_unhold_bss_def)
  next
    case (Op_expire t)
    then show ?thesis using inv_expire [OF i, of t] by auto
  next
    case (Op_age a)
    then show ?thesis using inv_age [OF i subset_refl] by (fastforce simp: cfg80211_bss_age_def)
  qed
qed

lemma inv_run: "bss_inv s ext \<Longrightarrow> \<exists>e s'. bss_run ops ext s = Some (e, s') \<and> bss_inv s' e"
  by (induction ops arbitrary: ext s) (use inv_do in fastforce)+

definition bss_init :: bss_table where
  "bss_init = \<lparr>bss_heap = \<lambda>_. None, bss_fresh = 0, ies_fresh = 0, ies_freed = [], bss_list = [], bss_tree = RbNull, bss_entries = 0,
     bss_generation = 0, hidden_rings = [], nontrans_rings = []\<rparr>"

lemma tab_init: "bss_inv bss_init (\<lambda>_. 0)"
  by (simp add: bss_inv_def heap_ok_def counts_def rings_ok_def table_ok_def bss_init_def live_def hid_def owned_def)

text \<open>The entry at the other end of an entry's pointer.\<close>

definition in_use :: "bss_table \<Rightarrow> (nat \<Rightarrow> nat) \<Rightarrow> nat set" where
  "in_use s e = {p. 0 < e p} \<union> set (bss_list s) \<union> {h. \<exists>p \<in> {p. 0 < e p} \<union> set (bss_list s). hid s p = Some h}"


text \<open>A beacon is listed, and stays listed when the driver gives its reference back.\<close>

lemma beacon_listed:
  "map_option (\<lambda>(e, s). (bss_list s, rb_inorder (bss_tree s), map_option bss_refcount (bss_heap s 0), e 0))
     (bss_run [Op_frame True True False 0 (\<lambda>_. None)
         \<lparr>inf_chan = \<lparr>chan_ptr = 1, chan_band = NL80211_BAND_2GHZ, center_freq = 2412, hw_value = 1, chan_flags = 0, max_antenna_gain = 0,
            max_power = 20, max_reg_power = 20, beacon_found = False, orig_flags = 0, orig_mag = 0, orig_mpwr = 20, dfs_state = NL80211_DFS_USABLE, dfs_state_entered = 0, dfs_cac_ms = 0\<rparr>,
          inf_scan_width = NL80211_BSS_CHAN_WIDTH_20, inf_signal = - 50, inf_boottime = 0\<rparr>
         CFG80211_BSS_FTYPE_BEACON [2, 0, 0, 0, 0, 1] 0 1 100 [0, 1, 65], Op_put 0] (\<lambda>_. 0) bss_init) = Some ([0], [0], Some 1, 0)"
  by code_simp

end
