(* ===== verification/Spec2Isabelle.thy ===== *)
theory Spec2Isabelle
  imports Addr_List_Props Reorder_Fate Workqueue_Props Util80211_Props Util80211_Gcd Chandef_Props
    Reg_Domain_Props Reg_Channel_Props Reg_State_Props Reg_Db_Props Crc32_Props Wep_Props Tkip_Props Wpa_Props Radiotap_Props Nlattr_Props
    Tx_Ba_Props Bss_Safe
begin

text \<open>
  Verification library for the wireless stack of AirPortLinux, a port of the wireless code of Linux 5.6.7 to
  macOS. All paths are below \<open>src/AirPortLinux/linux5.6.7/\<close>. The model is that of the port: where the
  body of a function is commented out or a table is empty there, so it is here, and the theorems say what
  follows.

  THE PROGRAM. Drivers of wireless devices sit below mac80211 (\<open>net/mac80211\<close>), which handles frames, and
  cfg80211 (\<open>net/wireless\<close>), which knows channels and regulations. Both use lists, work queues, timers and
  tasklets that the port implements on threads of the host (\<open>include/linux\<close>), and the address lists
  of \<open>net/core\<close>. A received frame passes through the ciphers of its key and then the reorder buffer of
  its block-ack session; a frame to be sent passes through the ciphers of the transmit path and waits while its
  queue is stopped. cfg80211 decides
  on which channels a device may start an interface, from the regulatory domain and the results of radar
  detection.

  THEORIES AND CODE. Each component is a theory of definitions and a theory of properties.

    \<open>Prelude\<close>              integer types as words, error numbers, shared lemmas
    \<open>Addr_List\<close>            \<open>net/core/dev_addr_lists.c\<close>; promiscuous mode of \<open>net/core/dev.c\<close>
    \<open>Linux_List\<close>           \<open>include/linux/list.h\<close> as a heap of links
    \<open>Workqueue\<close>            \<open>include/linux/workqueue.c\<close>, \<open>timer.c\<close>, \<open>task.c\<close>: queue, worker and
                         delayed work as the steps of a relation; tasklets with their thread
    \<open>Reorder\<close>              the reorder buffer of \<open>net/mac80211/rx.c\<close> and \<open>agg-rx.c\<close>
    \<open>Util80211\<close>            \<open>net/wireless/util.c\<close>: channel numbers, bit rates, elements, keys, combinations
                         of interfaces, beacon intervals (\<open>Util80211_Gcd\<close>), operating classes
    \<open>Chandef\<close>              \<open>net/wireless/chan.c\<close>: channel definitions, radar states, permission to beacon
    \<open>Reg_Domain\<close>           \<open>net/wireless/reg.c\<close>: rules, domains and their intersection
    \<open>Reg_Channel\<close>          the same file: what the rules do to channels
    \<open>Reg_Db\<close>               the same file: the parser of the database
    \<open>Reg_State\<close>            the same file: hints, work items and the current domain
    \<open>Crc32\<close>, \<open>Arc4\<close>        \<open>include/linux/crc32.c\<close>, \<open>include/crypto/arc4.c\<close>
    \<open>Frame_Hdr\<close>            the frame header of \<open>include/linux/ieee80211.h\<close>, buffers and keys
    \<open>Radiotap\<close>             \<open>net/wireless/radiotap.c\<close>: the iterator over the fields of a header
    \<open>Wep\<close>, \<open>Tkip\<close>, \<open>Wpa\<close>    \<open>net/mac80211/wep.c\<close>, \<open>tkip.c\<close>, \<open>michael.c\<close>, \<open>wpa.c\<close>, \<open>aead_api.c\<close>
    \<open>Nlattr\<close>, \<open>Nla_Put\<close>    \<open>lib/nlattr.c\<close> and \<open>include/net/netlink.h\<close>: reading and writing attributes
    \<open>Tx_Queue\<close>             \<open>net/mac80211/util.c\<close> and \<open>tx.c\<close>: reasons to stop a queue, pending frames
    \<open>Tx_Ba\<close>                \<open>net/mac80211/agg-tx.c\<close> and the work of a station in \<open>ht.c\<close>: block-ack
                         sessions of the transmit side

  State is a record with the fields of the C structure that the code reads; an operation returns the new
  state, with the result of the C function beside it. A pointer that may be null is an option; a read outside
  of an object, the use of a null pointer and a corrupted list are the result \<open>None\<close> (a fault). Integers have
  the width of the code wherever they can wrap around.

  WHAT THE LEMMAS SHOW. The reorder buffer hands on frames in the order of their numbers and neither loses
  nor invents any. A work queue runs items in the order in which they became due; its worker empties the
  list when it is left alone. The address lists implement a table of reference counts (locale
  \<open>refcounted_table\<close>). A beaconing interface uses only channels that exist and are allowed; compatible
  definitions cover both spans. The intersection of two domains is as strict as each and leaves nothing out;
  a custom domain bounds the channels of a device. Decryption undoes encryption for WEP, TKIP, CCMP and the
  protection of management frames, and no packet number is accepted twice (locale \<open>replay_protected\<close>,
  interpreted for CCMP, GCMP and the protection of management frames). The slicing checksum, the combination
  of checksums and the stream cipher are equal to their textbook definitions. What a message is parsed into lies
  inside it and conforms to the policy, and attributes that were written are read back. A queue stopped for
  several reasons waits for all of them, frames keep their order across stops, and none is left behind (locale
  \<open>tx_invariant\<close>, interpreted for each of the three invariants). No session of the transmit side is used after it was
  freed, and driver and peer may answer in either order.

  Where the code does not do this, the theorem says so: the worker that sleeps while an item is
  pending, the queue that loses items, the wrapped count of the reorder buffer, the database that is read
  behind its end, the checksum that ignores its data, the cached key that a forged frame replaces, the
  header that does not fit the array of additional data, the queue of a station that is stopped for a session whose
  driver was never told.

  BOUNDS AND FUEL. The loop of the greatest common divisor has one more round than the sum of its arguments,
  which decreases; \<open>Util80211_Gcd\<close> shows that it is enough. The loop over the centre frequencies of a segment
  stops where 32-bit frequencies wrap around. The loops of the reorder buffer take their fuel as an argument;
  more than the number of stored frames is enough as long as that number is right, and
  where it is wrong no fuel gives a result, which is the theorem on filtered frames. All other loops are
  recursion on lists.

  PARAMETERS. Code that is not in the repository is an argument: the driver callbacks of address lists and
  regulatory updates, the authenticated cipher and the codes of AES. The assumptions on them are those
  of their documentation (decryption undoes encryption; lengths are kept; a code has enough bytes).

  NOT MODELLED. Drivers (\<open>drivers/net/wireless\<close>) and the host driver, which move registers and firmware
  commands; the management of connections, scanning, mesh and rate control, which are state machines over
  the whole of mac80211's state; \<open>nl80211.c\<close>, which converts netlink messages; socket buffers and the
  network core beyond what is listed; locks, which the port maps to host locks. Where a component of the
  library leaves out an operation, the text of its theory says which.
\<close>

end
